(* ===== verification/Prelude.thy ===== *)
theory Prelude
  imports Complex_Main "HOL-Library.AList" "HOL-Library.List_Lexorder" "HOL-Library.Char_ord"
    "HOL-Library.Product_Lexorder"
begin

text \<open>
  Shared vocabulary of the development: the Python values and exceptions the modelled code
  uses, results that are either an exception or a value, dictionaries, tables of rows with a
  primary key, the few \<open>str\<close> methods the code calls, and the locales every component is
  stated against (an enum codec, a step function with an invariant).
\<close>

named_theorems res_simps \<open>rules that take a result apart when it is known to be a value\<close>
named_theorems row_simps \<open>lookup and update of rows in a table\<close>
named_theorems frame \<open>which tables an operation leaves alone\<close>

section \<open>Types\<close>

text \<open>
  Timestamps are UTC instants, counted in seconds; Python floats are modelled by exact
  rationals. Identifiers are strings.
\<close>

type_synonym time = rat
type_synonym ident = string

text \<open>
  The Python values that occur in JSON columns and event payloads. A \<open>StrEnum\<close> member is a
  value of its own until it is made JSON-safe.
\<close>

datatype pyval =
    PNone
  | PBool bool
  | PInt int
  | PFloat rat
  | PStr string
  | PTime time
  | PEnum string
  | PList "pyval list"
  | PDict "(string \<times> pyval) list"

type_synonym pydict = "(string \<times> pyval) list"

text \<open>Why a workflow definition is refused by the compiler.\<close>

datatype workflow_fault =
    DuplicateTaskKeys "string list"
  | DependencyDeclaredTwice string
  | UnknownDependencies string "string list"
  | SelfDependency string
  | DependencyCycle "string list"

text \<open>
  The exceptions of the modelled code. \<open>IntegrityError\<close> is the database refusing a duplicate
  key; the adjudication and orchestration classes carry what their messages identify.
\<close>

datatype exn =
    IntegrityError
  | KeyError
  | AssertionError
  | ValueError
  | TypeError
  | ValidationError
  | RuntimeError
  | StopIteration
  | WorkflowValidationError workflow_fault
  | WorkflowAlreadyCompiledError ident
  | EngagementNotFoundError ident
  | TaskNotFoundError ident
  | InvalidStateTransitionError
  | LeaseConflictError
  | FindingNotFoundError ident
  | RemediationNotFoundError ident
  | InvalidTransitionError string string
  | HumanGateError ident
  | IndependenceError ident
  | ClosureEvidenceError
  | IdempotencyConflictError
  | MaterialityError
  | QualityGateError "string list"
  | DisputeError
  | TicketingError
  | RiskNotFoundError
  | PlanNotFoundError
  | PlanStateError
  | CapacityError
  | OverflowError
  | RecurrenceError
  | ScheduleNotFoundError
  | OccurrenceNotFoundError
  | OccurrenceStateError
  | ScheduleConfigurationError

section \<open>Results\<close>

text \<open>
  A call either raises or returns. A transaction that raises is rolled back, so only a
  returned result carries a new state.
\<close>

type_synonym 'a res = "exn + 'a"

definition bind_res :: "'a res \<Rightarrow> ('a \<Rightarrow> 'b res) \<Rightarrow> 'b res" where
  "bind_res m k = (case m of Inl e \<Rightarrow> Inl e | Inr x \<Rightarrow> k x)"

definition is_ok :: "'a res \<Rightarrow> bool" where
  "is_ok m = (case m of Inl _ \<Rightarrow> False | Inr _ \<Rightarrow> True)"

lemma bind_res_simps [simp]:
  "bind_res (Inl e) k = Inl e" "bind_res (Inr x) k = k x"
  by (simp_all add: bind_res_def)

lemma bind_res_eq_Inr [res_simps]:
  "bind_res m k = Inr y \<longleftrightarrow> (\<exists>x. m = Inr x \<and> k x = Inr y)"
  by (cases m) auto

lemma bind_res_eq_Inl:
  "bind_res m k = Inl e \<longleftrightarrow> m = Inl e \<or> (\<exists>x. m = Inr x \<and> k x = Inl e)"
  by (cases m) auto

lemma bind_res_cong [fundef_cong]:
  "m = m' \<Longrightarrow> (\<And>x. m' = Inr x \<Longrightarrow> k x = k' x) \<Longrightarrow> bind_res m k = bind_res m' k'"
  by (cases m') auto

lemma is_ok_simps [simp]: "is_ok (Inr x)" "\<not> is_ok (Inl e)"
  by (simp_all add: is_ok_def)

lemma if_Inl_eq_Inr [res_simps]:
  "(if c then Inl e else m) = Inr y \<longleftrightarrow> \<not> c \<and> m = Inr y"
  by simp

lemma if_else_Inl_eq_Inr [res_simps]:
  "(if c then m else Inl e) = Inr y \<longleftrightarrow> c \<and> m = Inr y"
  by simp

lemma case_option_Inl_eq_Inr [res_simps]:
  "(case x of None \<Rightarrow> Inl e | Some v \<Rightarrow> k v) = Inr y \<longleftrightarrow> (\<exists>v. x = Some v \<and> k v = Inr y)"
  by (cases x) auto

text \<open>A loop that stops at the first exception.\<close>

fun fold_res :: "('a \<Rightarrow> 's \<Rightarrow> 's res) \<Rightarrow> 'a list \<Rightarrow> 's \<Rightarrow> 's res" where
  "fold_res f [] s = Inr s"
| "fold_res f (x # xs) s = bind_res (f x s) (fold_res f xs)"

lemma fold_res_invariant:
  assumes "fold_res f xs s = Inr s'" and "P s"
    and "\<And>x a b. x \<in> set xs \<Longrightarrow> P a \<Longrightarrow> f x a = Inr b \<Longrightarrow> P b"
  shows "P s'"
  using assms
proof (induction xs arbitrary: s)
  case (Cons x xs)
  then obtain u where "f x s = Inr u" "fold_res f xs u = Inr s'"
    by (auto simp: res_simps)
  with Cons show ?case by (metis list.set_intros)
qed simp

lemma fold_res_append:
  "fold_res f (xs @ ys) s = bind_res (fold_res f xs s) (fold_res f ys)"
proof (induction xs arbitrary: s)
  case (Cons x xs)
  then show ?case by (cases "f x s") auto
qed simp

lemma fold_res_total:
  "(\<And>x a. x \<in> set xs \<Longrightarrow> \<exists>b. f x a = Inr b) \<Longrightarrow> \<exists>s'. fold_res f xs s = Inr s'"
proof (induction xs arbitrary: s)
  case (Cons x xs)
  then obtain u where u: "f x s = Inr u" by (metis list.set_intros(1))
  from Cons.IH[of u] Cons.prems obtain s' where "fold_res f xs u = Inr s'"
    by (meson list.set_intros(2))
  with u show ?case by auto
qed simp

lemma length_remdups_distinct: "length xs = length (remdups xs) \<longleftrightarrow> distinct xs"
  by (metis length_remdups_eq remdups_id_iff_distinct)

section \<open>Dictionaries and JSON-safe values\<close>

definition dict_merge :: "pydict \<Rightarrow> pydict \<Rightarrow> pydict" where
  "dict_merge d e = fold (\<lambda>(k, v). AList.update k v) e d"

lemma map_of_dict_merge_other:
  "k \<notin> fst ` set e \<Longrightarrow> map_of (dict_merge d e) k = map_of d k"
  unfolding dict_merge_def
proof (induction e arbitrary: d)
  case (Cons p e)
  then show ?case by (cases p) (auto simp: update_conv')
qed simp

text \<open>
  \<open>Orchestrator._json_safe\<close>: timestamps become their ISO text (the rendering is the standard
  library's, passed as \<open>isof\<close>), enum members their value, containers are converted inside.
\<close>

fun json_safe :: "(time \<Rightarrow> string) \<Rightarrow> pyval \<Rightarrow> pyval" where
  "json_safe isof (PTime t) = PStr (isof t)"
| "json_safe isof (PDict d) = PDict (map (\<lambda>(k, v). (k, json_safe isof v)) d)"
| "json_safe isof (PList xs) = PList (map (json_safe isof) xs)"
| "json_safe isof (PEnum s) = PStr s"
| "json_safe isof v = v"

definition json_safe_dict :: "(time \<Rightarrow> string) \<Rightarrow> pydict \<Rightarrow> pydict" where
  "json_safe_dict isof d = map (\<lambda>(k, v). (k, json_safe isof v)) d"

lemma map_of_json_safe_dict [simp]:
  "map_of (json_safe_dict isof d) k = map_option (json_safe isof) (map_of d k)"
  by (induction d) (auto simp: json_safe_dict_def)

section \<open>Truth values and strings\<close>

text \<open>
  Strings are sequences of the first 256 code points. An optional string is true when it is
  present and not empty.
\<close>

definition truthy :: "string option \<Rightarrow> bool" where
  "truthy x = (case x of None \<Rightarrow> False | Some v \<Rightarrow> v \<noteq> [])"

lemma truthy_simps [simp]: "\<not> truthy None" "truthy (Some v) \<longleftrightarrow> v \<noteq> []"
  by (simp_all add: truthy_def)

definition is_space :: "char \<Rightarrow> bool" where
  "is_space c \<longleftrightarrow> (let n = of_char c :: nat in n = 32 \<or> (9 \<le> n \<and> n \<le> 13) \<or> (28 \<le> n \<and> n \<le> 31) \<or> n = 133 \<or> n = 160)"

definition str_strip :: "string \<Rightarrow> string" where
  "str_strip s = rev (dropWhile is_space (rev (dropWhile is_space s)))"

definition char_lower :: "char \<Rightarrow> char" where
  "char_lower c = (let n = of_char c :: nat in
     if 65 \<le> n \<and> n \<le> 90 \<or> 192 \<le> n \<and> n \<le> 222 \<and> n \<noteq> 215 then char_of (n + 32) else c)"

definition str_lower :: "string \<Rightarrow> string" where
  "str_lower s = map char_lower s"

text \<open>\<open>int(text)\<close>: optional sign, decimal digits, single underscores between digits.\<close>

definition is_digit :: "char \<Rightarrow> bool" where
  "is_digit c \<longleftrightarrow> (let n = of_char c :: nat in 48 \<le> n \<and> n \<le> 57)"

fun digits_ok :: "bool \<Rightarrow> string \<Rightarrow> bool" where
  "digits_ok after_digit [] = after_digit"
| "digits_ok after_digit (c # cs) =
     (if is_digit c then digits_ok True cs
      else if c = CHR ''_'' \<and> after_digit then cs \<noteq> [] \<and> is_digit (hd cs) \<and> digits_ok False cs
      else False)"

definition digits_value :: "string \<Rightarrow> int" where
  "digits_value cs = foldl (\<lambda>n c. 10 * n + (of_char c - 48)) 0 (filter is_digit cs)"

definition int_of_str :: "string \<Rightarrow> int res" where
  "int_of_str s =
     (let t = str_strip s;
          body = (if t \<noteq> [] \<and> (hd t = CHR ''+'' \<or> hd t = CHR ''-'') then tl t else t);
          n = digits_value body
      in if \<not> digits_ok False body then Inl ValueError
         else if hd t = CHR ''-'' then Inr (- n) else Inr n)"

fun py_int :: "pyval \<Rightarrow> int res" where
  "py_int (PInt n) = Inr n"
| "py_int (PBool b) = Inr (if b then 1 else 0)"
| "py_int (PFloat x) = Inr (if 0 \<le> x then \<lfloor>x\<rfloor> else \<lceil>x\<rceil>)"
| "py_int (PStr s) = int_of_str s"
| "py_int (PEnum s) = int_of_str s"
| "py_int _ = Inl TypeError"

definition starts_with :: "string list \<Rightarrow> string \<Rightarrow> bool" where
  "starts_with ps s \<longleftrightarrow> (\<exists>p \<in> set ps. take (length p) s = p)"

section \<open>Tables\<close>

text \<open>
  A table is the list of its rows in insertion order; \<open>key\<close> is the primary key. Selecting by
  key finds the row, assigning to the mapped object rewrites it in place.
\<close>

definition row :: "('r \<Rightarrow> 'k) \<Rightarrow> 'k \<Rightarrow> 'r list \<Rightarrow> 'r option" where
  "row key i rows = find (\<lambda>r. key r = i) rows"

definition put :: "('r \<Rightarrow> 'k) \<Rightarrow> 'r \<Rightarrow> 'r list \<Rightarrow> 'r list" where
  "put key r rows = map (\<lambda>x. if key x = key r then r else x) rows"

definition has_key :: "('r \<Rightarrow> 'k) \<Rightarrow> 'k \<Rightarrow> 'r list \<Rightarrow> bool" where
  "has_key key i rows \<longleftrightarrow> (\<exists>r \<in> set rows. key r = i)"

lemma find_SomeD: "find P xs = Some x \<Longrightarrow> x \<in> set xs \<and> P x"
  by (auto simp: find_Some_iff)

lemma row_Some: "row key i rows = Some r \<Longrightarrow> r \<in> set rows \<and> key r = i"
  by (auto simp: row_def find_Some_iff)

lemma row_None: "row key i rows = None \<longleftrightarrow> (\<forall>r \<in> set rows. key r \<noteq> i)"
  by (auto simp: row_def find_None_iff)

lemma row_Nil [row_simps]: "row key i [] = None"
  by (simp add: row_def)

lemma row_append [row_simps]:
  "row key i (xs @ ys) = (case row key i xs of None \<Rightarrow> row key i ys | Some r \<Rightarrow> Some r)"
  by (induction xs) (auto simp: row_def)

lemma row_single [row_simps]: "row key i [r] = (if key r = i then Some r else None)"
  by (simp add: row_def)

lemma row_put_same: "row key (key r) rows = Some x \<Longrightarrow> row key (key r) (put key r rows) = Some r"
  by (induction rows) (auto simp: row_def put_def split: if_splits)

lemma row_put_other: "i \<noteq> key r \<Longrightarrow> row key i (put key r rows) = row key i rows"
  by (induction rows) (auto simp: row_def put_def)

lemma row_put [row_simps]:
  "row key i (put key r rows)
    = (if i = key r then (case row key i rows of None \<Rightarrow> None | Some x \<Rightarrow> Some r)
       else row key i rows)"
proof (cases "i = key r")
  case True
  then show ?thesis
    by (induction rows) (auto simp: row_def put_def)
qed (simp add: row_put_other)

lemma row_map: "(\<And>x. key (f x) = key x) \<Longrightarrow> row key i (map f rows) = map_option f (row key i rows)"
  by (induction rows) (auto simp: row_def)

lemma map_key_put: "map key (put key r rows) = map key rows"
  by (auto simp: put_def)

lemma map_put_same:
  "(\<And>x. x \<in> set rows \<Longrightarrow> key x = key r \<Longrightarrow> f r = f x) \<Longrightarrow> map f (put key r rows) = map f rows"
  by (auto simp: put_def)

lemma length_put [simp]: "length (put key r rows) = length rows"
  by (simp add: put_def)

lemma has_key_row: "has_key key i rows \<longleftrightarrow> row key i rows \<noteq> None"
  by (auto simp: has_key_def row_None)

lemma has_key_image: "has_key key i rows \<longleftrightarrow> i \<in> key ` set rows"
  by (auto simp: has_key_def)

lemma put_absent: "\<not> has_key key (key r) rows \<Longrightarrow> put key r rows = rows"
  by (induction rows) (auto simp: put_def has_key_def)

lemma row_distinct:
  "distinct (map key rows) \<Longrightarrow> r \<in> set rows \<Longrightarrow> row key (key r) rows = Some r"
  by (induction rows) (auto simp: row_def)

lemma row_unique:
  "distinct (map key rows) \<Longrightarrow> row key i rows = Some r \<Longrightarrow> x \<in> set rows \<Longrightarrow> key x = i \<Longrightarrow> x = r"
  using row_distinct[of key rows x] by simp

lemma in_set_put:
  "distinct (map key rows) \<Longrightarrow>
   x \<in> set (put key r rows) \<longleftrightarrow> (if has_key key (key r) rows then x = r \<or> (x \<in> set rows \<and> key x \<noteq> key r)
                                else x \<in> set rows)"
  by (auto simp: put_def has_key_def)

text \<open>
  A loop over rows read before it started, each iteration changing only its own row: when an
  iteration starts, its row is still the stored one.
\<close>

lemma fold_res_rows:
  assumes "fold_res f xs s = Inr s'" and "P s" and "distinct (map key xs)"
    and "\<And>x. x \<in> set xs \<Longrightarrow> row key (key x) (tbl s) = Some x"
    and "\<And>x a b. x \<in> set xs \<Longrightarrow> P a \<Longrightarrow> row key (key x) (tbl a) = Some x \<Longrightarrow> f x a = Inr b \<Longrightarrow>
       P b \<and> (\<forall>i. i \<noteq> key x \<longrightarrow> row key i (tbl b) = row key i (tbl a))"
  shows "P s'"
  using assms
proof (induction xs arbitrary: s)
  case (Cons x xs)
  from Cons.prems(1) obtain u where u: "f x s = Inr u" "fold_res f xs u = Inr s'"
    by (auto simp: res_simps)
  have xs: "P u" "\<And>i. i \<noteq> key x \<Longrightarrow> row key i (tbl u) = row key i (tbl s)"
    using Cons.prems(5)[of x s u] Cons.prems(2,4) u(1) by auto
  show ?case
  proof (rule Cons.IH[OF u(2) xs(1)])
    fix y assume "y \<in> set xs"
    moreover from this Cons.prems(3) have "key y \<noteq> key x"
      by (metis distinct.simps(2) image_eqI list.simps(9) set_map)
    ultimately show "row key (key y) (tbl u) = Some y" using xs(2) Cons.prems(4) by simp
  next
    show "distinct (map key xs)" using Cons.prems(3) by simp
  next
    fix y a b assume "y \<in> set xs" "P a" "row key (key y) (tbl a) = Some y" "f y a = Inr b"
    then show "P b \<and> (\<forall>i. i \<noteq> key y \<longrightarrow> row key i (tbl b) = row key i (tbl a))"
      by (intro Cons.prems(5)) simp_all
  qed
next
  case Nil
  from Nil(1) have "s' = s" by simp
  then show ?case using Nil(2) by (rule ssubst)
qed

section \<open>Interfaces\<close>

text \<open>
  A \<open>StrEnum\<close>: every member has a value, and \<open>Enum(text)\<close> finds the member with that value or
  raises \<open>ValueError\<close>.
\<close>

locale enum_codec =
  fixes member_value :: "'m \<Rightarrow> string" and parse :: "string \<Rightarrow> 'm res"
  assumes parse_value: "parse (member_value m) = Inr m"
    and value_parse: "parse s = Inr m \<Longrightarrow> member_value m = s"
begin

lemma value_inj: "member_value a = member_value b \<longleftrightarrow> a = b"
  by (metis parse_value Inr_inject)

lemma parse_ok_iff: "parse s = Inr m \<longleftrightarrow> s = member_value m"
  using parse_value value_parse by blast

end

definition enum_parse :: "('m \<Rightarrow> string) \<Rightarrow> 'm list \<Rightarrow> string \<Rightarrow> 'm res" where
  "enum_parse member_value members s =
     (case find (\<lambda>m. member_value m = s) members of None \<Rightarrow> Inl ValueError | Some m \<Rightarrow> Inr m)"

lemma enum_codecI:
  assumes "distinct (map member_value members)" and "\<And>m. m \<in> set members"
  shows "enum_codec member_value (enum_parse member_value members)"
proof
  fix m
  have "row member_value (member_value m) members = Some m"
    using assms by (intro row_distinct) auto
  then show "enum_parse member_value members (member_value m) = Inr m"
    by (simp add: enum_parse_def row_def)
next
  fix s m assume "enum_parse member_value members s = Inr m"
  then show "member_value m = s"
    by (auto simp: enum_parse_def find_Some_iff split: option.splits)
qed

text \<open>
  Reachable states of a component whose operations may refuse: a refused operation changes
  nothing. A client proves a property of one step and gets it for every run.
\<close>

inductive reach :: "('s \<Rightarrow> bool) \<Rightarrow> ('op \<Rightarrow> 's \<Rightarrow> 's res) \<Rightarrow> 's \<Rightarrow> bool"
  for init :: "'s \<Rightarrow> bool" and step :: "'op \<Rightarrow> 's \<Rightarrow> 's res" where
  reach_init: "init s \<Longrightarrow> reach init step s"
| reach_step: "reach init step s \<Longrightarrow> step a s = Inr t \<Longrightarrow> reach init step t"

fun run_ops :: "('op \<Rightarrow> 's \<Rightarrow> 's res) \<Rightarrow> 'op list \<Rightarrow> 's \<Rightarrow> 's" where
  "run_ops step [] s = s"
| "run_ops step (a # as) s = run_ops step as (case step a s of Inl _ \<Rightarrow> s | Inr t \<Rightarrow> t)"

lemma run_ops_append: "run_ops step (as @ bs) s = run_ops step bs (run_ops step as s)"
  by (induction as arbitrary: s) auto

lemma reach_run_ops: "reach init step s \<Longrightarrow> reach init step (run_ops step as s)"
  by (induction as arbitrary: s) (auto split: sum.split intro: reach_step)

locale guarded_machine =
  fixes init :: "'s \<Rightarrow> bool" and step :: "'op \<Rightarrow> 's \<Rightarrow> 's res" and inv :: "'s \<Rightarrow> bool"
  assumes inv_init: "init s \<Longrightarrow> inv s"
    and inv_step: "inv s \<Longrightarrow> step a s = Inr t \<Longrightarrow> inv t"
begin

lemma reachable_inv: "reach init step s \<Longrightarrow> inv s"
  by (induction rule: reach.induct) (auto intro: inv_init inv_step)

lemma run_inv: "inv s \<Longrightarrow> inv (run_ops step as s)"
  by (induction as arbitrary: s) (auto split: sum.split intro: inv_step)

end

end
