(* ===== verification/Ledger.thy ===== *)
theory Ledger
  imports Prelude "HOL-Library.Multiset"
begin

text \<open>
  The canonical audit ledger and the transactional outbox as every service writes them
  (\<open>db/repositories.py\<close>: \<open>AuditEventRepository\<close> and \<open>OutboxRepository.add\<close>; the rows are
  those of \<open>db/models/governance.py\<close>). Events are numbered per tenant and stream; an outbox
  row is refused when its idempotency key was used before. The state also holds what the
  code draws from outside: the texts \<open>uuid4\<close> will return and the readings of the wall clock.
\<close>

section \<open>State\<close>

record audit_event =
  event_id :: ident
  event_type :: string
  event_tenant :: ident
  event_engagement :: "ident option"
  event_task :: "ident option"
  occurred_at :: time
  payload :: pydict

record audit_event_row = audit_event +
  stream_id :: string
  sequence_no :: nat

record outbox_row =
  outbox_id :: ident
  ob_tenant :: ident
  ob_aggregate_type :: string
  ob_aggregate_id :: ident
  ob_event_type :: string
  ob_payload :: pydict
  ob_idempotency_key :: string
  ob_occurred_at :: time
  ob_available_at :: time
  ob_lease_owner :: "ident option"
  ob_lease_expires_at :: "time option"
  ob_published_at :: "time option"
  ob_published_message_id :: "string option"
  ob_dead_lettered_at :: "time option"
  ob_publish_attempts :: nat
  ob_last_error :: "string option"

record store =
  audit_events :: "audit_event_row list"
  outbox_events :: "outbox_row list"
  uuids :: "nat \<Rightarrow> string"
  uuids_drawn :: nat
  wall_clock :: "nat \<Rightarrow> time"
  clock_reads :: nat
  isoformat :: "time \<Rightarrow> string"

section \<open>Operations\<close>

text \<open>Each \<open>uuid4().hex\<close> takes the next text, each \<open>datetime.now\<close> the next reading.\<close>

definition draw_uuid :: "'a store_scheme \<Rightarrow> string \<times> 'a store_scheme" where
  "draw_uuid s = (uuids s (uuids_drawn s), s\<lparr>uuids_drawn := Suc (uuids_drawn s)\<rparr>)"

definition new_id :: "string \<Rightarrow> 'a store_scheme \<Rightarrow> ident \<times> 'a store_scheme" where
  "new_id prefix s = (let (u, s') = draw_uuid s in (prefix @ ''_'' @ take 20 u, s'))"

definition utc_now :: "'a store_scheme \<Rightarrow> time \<times> 'a store_scheme" where
  "utc_now s = (wall_clock s (clock_reads s), s\<lparr>clock_reads := Suc (clock_reads s)\<rparr>)"

definition new_event_id :: "'a store_scheme \<Rightarrow> ident \<times> 'a store_scheme" where
  "new_event_id s = (let (u, s') = draw_uuid s in (''evt_'' @ take 16 u, s'))"

definition event_stream :: "'b audit_event_scheme \<Rightarrow> string" where
  "event_stream e =
     (if truthy (event_task e) then the (event_task e)
      else if truthy (event_engagement e) then the (event_engagement e)
      else ''tenant:'' @ event_tenant e)"

definition next_sequence :: "ident \<Rightarrow> string \<Rightarrow> audit_event_row list \<Rightarrow> nat" where
  "next_sequence tenant stream rows =
     foldr max (map sequence_no
       (filter (\<lambda>r. event_tenant r = tenant \<and> stream_id r = stream) rows)) 0 + 1"

definition append_event :: "audit_event \<Rightarrow> 'a store_scheme \<Rightarrow> 'a store_scheme res" where
  "append_event e s =
     (if has_key event_id (event_id e) (audit_events s) then Inl IntegrityError
      else Inr (s\<lparr>audit_events := audit_events s @
        [audit_event.extend e
          \<lparr>stream_id = event_stream e,
           sequence_no = next_sequence (event_tenant e) (event_stream e) (audit_events s)\<rparr>]\<rparr>))"

definition append_events :: "audit_event list \<Rightarrow> 'a store_scheme \<Rightarrow> 'a store_scheme res" where
  "append_events es s = fold_res append_event es s"

text \<open>\<open>AuditEventRepository.list\<close>: a tenant's events, optionally of one engagement.\<close>

definition list_events :: "ident \<Rightarrow> ident option \<Rightarrow> 'a store_scheme \<Rightarrow> audit_event_row list" where
  "list_events tenant engagement s =
     sort_key (\<lambda>r. (occurred_at r, stream_id r, sequence_no r, event_id r))
       (filter (\<lambda>r. event_tenant r = tenant \<and>
                    (engagement = None \<or> event_engagement r = engagement)) (audit_events s))"

definition delete_for_tenant :: "ident \<Rightarrow> 'a store_scheme \<Rightarrow> nat \<times> 'a store_scheme" where
  "delete_for_tenant tenant s =
     (length (filter (\<lambda>r. event_tenant r = tenant) (audit_events s)),
      s\<lparr>audit_events := filter (\<lambda>r. event_tenant r \<noteq> tenant) (audit_events s)\<rparr>)"

definition outbox_add ::
  "ident \<Rightarrow> string \<Rightarrow> ident \<Rightarrow> string \<Rightarrow> pydict \<Rightarrow> string \<Rightarrow> 'a store_scheme \<Rightarrow> 'a store_scheme res"
where
  "outbox_add tenant aggregate_type aggregate_id etype data key s =
     (let (oid, s1) = new_id ''obx'' s; (t1, s2) = utc_now s1; (t2, s3) = utc_now s2 in
      if has_key outbox_id oid (outbox_events s)
         \<or> has_key (\<lambda>r. (ob_tenant r, ob_idempotency_key r)) (tenant, key) (outbox_events s)
      then Inl IntegrityError
      else Inr (s3\<lparr>outbox_events := outbox_events s3 @
        [\<lparr>outbox_id = oid, ob_tenant = tenant, ob_aggregate_type = aggregate_type,
          ob_aggregate_id = aggregate_id, ob_event_type = etype, ob_payload = data,
          ob_idempotency_key = key, ob_occurred_at = t1, ob_available_at = t2,
          ob_lease_owner = None, ob_lease_expires_at = None, ob_published_at = None,
          ob_published_message_id = None, ob_dead_lettered_at = None,
          ob_publish_attempts = 0, ob_last_error = None\<rparr>]\<rparr>))"

text \<open>
  \<open>Orchestrator._record\<close>: the event and its outbox message, in the caller's transaction; the
  message's idempotency key is the event's id.
\<close>

definition record_event ::
  "string \<Rightarrow> ident \<Rightarrow> string \<Rightarrow> ident \<Rightarrow> pydict \<Rightarrow> time \<Rightarrow> ident option \<Rightarrow> ident option
   \<Rightarrow> 'a store_scheme \<Rightarrow> 'a store_scheme res"
where
  "record_event etype tenant aggregate_type aggregate_id data now engagement task s =
     (let (eid, s1) = new_event_id s;
          safe = json_safe_dict (isoformat s) data;
          e = \<lparr>event_id = eid, event_type = etype, event_tenant = tenant,
               event_engagement = engagement, event_task = task, occurred_at = now,
               payload = safe\<rparr>
      in bind_res (append_event e s1)
           (outbox_add tenant aggregate_type aggregate_id etype safe eid))"

section \<open>Frames\<close>

lemma draw_frames [simp]:
  "audit_events (snd (draw_uuid s)) = audit_events s"
  "outbox_events (snd (draw_uuid s)) = outbox_events s"
  "audit_events (snd (new_id p s)) = audit_events s"
  "outbox_events (snd (new_id p s)) = outbox_events s"
  "audit_events (snd (new_event_id s)) = audit_events s"
  "outbox_events (snd (new_event_id s)) = outbox_events s"
  "audit_events (snd (utc_now s)) = audit_events s"
  "outbox_events (snd (utc_now s)) = outbox_events s"
  by (simp_all add: draw_uuid_def new_id_def new_event_id_def utc_now_def)

lemma more_frames [simp]:
  "store.more (snd (draw_uuid s)) = store.more s"
  "store.more (snd (new_id p s)) = store.more s"
  "store.more (snd (new_event_id s)) = store.more s"
  "store.more (snd (utc_now s)) = store.more s"
  by (simp_all add: draw_uuid_def new_id_def new_event_id_def utc_now_def)

lemma new_id_nonempty: "prefix \<noteq> [] \<Longrightarrow> fst (new_id prefix s) \<noteq> []"
  by (simp add: new_id_def draw_uuid_def)

text \<open>What the ledger row of an event looks like, and what recording one adds.\<close>

definition ledger_row :: "audit_event \<Rightarrow> nat \<Rightarrow> audit_event_row" where
  "ledger_row e n = audit_event.extend e \<lparr>stream_id = event_stream e, sequence_no = n\<rparr>"

lemma ledger_row_simps [simp]:
  "event_id (ledger_row e n) = event_id e"
  "event_type (ledger_row e n) = event_type e"
  "event_tenant (ledger_row e n) = event_tenant e"
  "event_engagement (ledger_row e n) = event_engagement e"
  "event_task (ledger_row e n) = event_task e"
  "occurred_at (ledger_row e n) = occurred_at e"
  "payload (ledger_row e n) = payload e"
  "stream_id (ledger_row e n) = event_stream e"
  "sequence_no (ledger_row e n) = n"
  by (simp_all add: ledger_row_def audit_event.defs)

lemma append_event_Inr:
  assumes "append_event e s = Inr s'"
  shows "s' = s\<lparr>audit_events := audit_events s @
           [ledger_row e (next_sequence (event_tenant e) (event_stream e) (audit_events s))]\<rparr>"
    and "\<not> has_key event_id (event_id e) (audit_events s)"
  using assms by (auto simp: append_event_def ledger_row_def res_simps)

lemma record_event_Inr:
  assumes "record_event etype tenant atype aid data now eng task s = Inr s'"
  obtains eid e m where
    "e = \<lparr>event_id = eid, event_type = etype, event_tenant = tenant, event_engagement = eng,
          event_task = task, occurred_at = now, payload = json_safe_dict (isoformat s) data\<rparr>"
    "\<not> has_key event_id eid (audit_events s)"
    "audit_events s' = audit_events s @
       [ledger_row e (next_sequence tenant (event_stream e) (audit_events s))]"
    "outbox_events s' = outbox_events s @ [m]"
    "\<not> has_key outbox_id (outbox_id m) (outbox_events s)"
    "\<not> has_key (\<lambda>r. (ob_tenant r, ob_idempotency_key r)) (tenant, eid) (outbox_events s)"
    "ob_tenant m = tenant" "ob_idempotency_key m = eid" "ob_event_type m = etype"
    "ob_aggregate_type m = atype" "ob_aggregate_id m = aid"
    "ob_payload m = json_safe_dict (isoformat s) data"
    "ob_lease_owner m = None" "ob_lease_expires_at m = None" "ob_published_at m = None"
    "ob_dead_lettered_at m = None" "ob_publish_attempts m = 0"
    "isoformat s' = isoformat s" "store.more s' = store.more s"
  using assms that
  unfolding record_event_def outbox_add_def append_event_def
  by (auto simp: res_simps Let_def split_beta ledger_row_def new_event_id_def new_id_def
      draw_uuid_def utc_now_def)

lemma record_event_more [frame]:
  "record_event etype tenant atype aid data now eng task s = Inr s' \<Longrightarrow> store.more s' = store.more s"
  by (erule record_event_Inr)

lemma outbox_add_Inr:
  assumes "outbox_add tenant atype aid etype data key s = Inr s'"
  obtains m where
    "outbox_events s' = outbox_events s @ [m]" "audit_events s' = audit_events s"
    "\<not> has_key outbox_id (outbox_id m) (outbox_events s)"
    "\<not> has_key (\<lambda>r. (ob_tenant r, ob_idempotency_key r)) (tenant, key) (outbox_events s)"
    "ob_tenant m = tenant" "ob_idempotency_key m = key" "ob_event_type m = etype"
    "ob_payload m = data" "ob_lease_owner m = None" "ob_published_at m = None"
    "ob_dead_lettered_at m = None" "ob_publish_attempts m = 0"
    "isoformat s' = isoformat s" "store.more s' = store.more s"
  using assms that unfolding outbox_add_def
  by (auto simp: res_simps Let_def split_beta new_id_def draw_uuid_def utc_now_def)

section \<open>Numbering\<close>

text \<open>
  What a reader of the ledger relies on: events are only appended, and within one stream the
  numbers grow in append order. Sorting any selection of a stream by number gives the events
  back in the order they were written, whatever order the query returned them in.
\<close>

locale event_log =
  fixes append :: "'x \<Rightarrow> 's \<Rightarrow> 's res" and log :: "'s \<Rightarrow> 'e list" and ok :: "'s \<Rightarrow> bool"
    and stream :: "'e \<Rightarrow> 'k" and seq :: "'e \<Rightarrow> nat"
  assumes append_log: "append x s = Inr t \<Longrightarrow> \<exists>e. log t = log s @ [e]"
    and append_ok: "ok s \<Longrightarrow> append x s = Inr t \<Longrightarrow> ok t"
    and ok_increasing: "ok s \<Longrightarrow> sorted_wrt (\<lambda>a b. stream a = stream b \<longrightarrow> seq a < seq b) (log s)"
begin

lemma log_distinct: "ok s \<Longrightarrow> distinct (log s)"
  using ok_increasing[of s] by (auto simp: sorted_wrt_iff_nth_less distinct_conv_nth) (metis less_irrefl linorder_neqE_nat)

lemma stream_order:
  fixes tie :: "'e \<Rightarrow> 'i::linorder"
  assumes "ok s" and perm: "mset es = mset (filter P (log s))"
  shows "sort_key (\<lambda>e. (seq e, tie e)) (filter (\<lambda>e. stream e = k) es)
           = filter (\<lambda>e. stream e = k \<and> P e) (log s)" (is "sort_key ?f ?xs = ?ys")
proof (rule sort_key_inj_key_eq)
  show "mset ?xs = mset ?ys" by (simp add: perm filter_filter_mset conj_commute)
  then have sets: "set ?xs = set ?ys" by (metis set_mset_mset)
  have inc: "sorted_wrt (\<lambda>a b. seq a < seq b) ?ys"
    using sorted_wrt_filter[OF ok_increasing[OF assms(1)], of "\<lambda>e. stream e = k \<and> P e"]
    by (rule sorted_wrt_mono_rel[rotated]) auto
  then have "sorted_wrt (<) (map seq ?ys)" by (simp add: sorted_wrt_map)
  then have "inj_on seq (set ?ys)"
    by (metis distinct_map strict_sorted_iff)
  then show "inj_on ?f (set ?xs)" unfolding sets by (auto simp: inj_on_def)
  show "sorted (map ?f ?ys)"
    using inc unfolding sorted_map by (rule sorted_wrt_mono_rel[rotated]) auto
qed

end

definition stream_events :: "ident \<Rightarrow> string \<Rightarrow> audit_event_row list \<Rightarrow> audit_event_row list" where
  "stream_events tenant stream rows = filter (\<lambda>r. event_tenant r = tenant \<and> stream_id r = stream) rows"

definition ledger_ok :: "'a store_scheme \<Rightarrow> bool" where
  "ledger_ok s \<longleftrightarrow>
     distinct (map event_id (audit_events s)) \<and>
     (\<forall>r \<in> set (audit_events s). stream_id r = event_stream r) \<and>
     (\<forall>tenant stream. map sequence_no (stream_events tenant stream (audit_events s))
        = [Suc 0..<Suc (length (stream_events tenant stream (audit_events s)))])"

lemma foldr_max_snoc: "foldr max (xs @ [m]) 0 = max m (foldr max xs (0::nat))"
  by (induction xs) auto

lemma foldr_max_upt: "foldr max [Suc 0..<Suc n] 0 = n"
  by (induction n) (simp_all add: foldr_max_snoc del: foldr_append)

lemma next_sequence_ok:
  assumes "ledger_ok s"
  shows "next_sequence tenant stream (audit_events s)
     = Suc (length (stream_events tenant stream (audit_events s)))"
proof -
  have "map sequence_no (stream_events tenant stream (audit_events s))
      = [Suc 0..<Suc (length (stream_events tenant stream (audit_events s)))]"
    using assms unfolding ledger_ok_def by blast
  then show ?thesis
    unfolding next_sequence_def stream_events_def[symmetric]
    using foldr_max_upt[of "length (stream_events tenant stream (audit_events s))"] by simp
qed

lemma stream_events_snoc:
  "stream_events tenant stream (rows @ [r]) = stream_events tenant stream rows @
     (if event_tenant r = tenant \<and> stream_id r = stream then [r] else [])"
  by (simp add: stream_events_def)

lemma ledger_ok_append:
  assumes "ledger_ok s" "append_event e s = Inr t"
  shows "ledger_ok t"
proof -
  let ?n = "next_sequence (event_tenant e) (event_stream e) (audit_events s)"
  have t: "audit_events t = audit_events s @ [ledger_row e ?n]"
    and fresh: "\<not> has_key event_id (event_id e) (audit_events s)"
    using append_event_Inr[OF assms(2)] by simp_all
  have "map sequence_no (stream_events tenant stream (audit_events t))
      = [Suc 0..<Suc (length (stream_events tenant stream (audit_events t)))]" for tenant stream
  proof -
    have old: "map sequence_no (stream_events tenant stream (audit_events s))
        = [Suc 0..<Suc (length (stream_events tenant stream (audit_events s)))]"
      using assms(1) unfolding ledger_ok_def by blast
    show ?thesis
      by (simp add: t stream_events_snoc old next_sequence_ok[OF assms(1)])
  qed
  moreover have "\<forall>r \<in> set (audit_events t). stream_id r = event_stream r"
    using assms(1) by (auto simp: t ledger_ok_def event_stream_def)
  moreover have "distinct (map event_id (audit_events t))"
    using assms(1) fresh by (auto simp: t ledger_ok_def has_key_def)
  ultimately show ?thesis unfolding ledger_ok_def by blast
qed

lemma ledger_ok_cong:
  "audit_events t = audit_events s \<Longrightarrow> ledger_ok t \<longleftrightarrow> ledger_ok s"
  by (simp add: ledger_ok_def)

lemma upt_increasing: "map f xs = [Suc 0..<Suc n] \<Longrightarrow> sorted_wrt (\<lambda>a b. f a < (f b :: nat)) xs"
  by (metis sorted_wrt_map sorted_wrt_upt)

lemma sorted_wrt_by_class:
  "(\<And>c. sorted_wrt R (filter (\<lambda>x. k x = c) xs)) \<Longrightarrow> sorted_wrt (\<lambda>a b. k a = k b \<longrightarrow> R a b) xs"
proof (induction xs)
  case (Cons x xs)
  from Cons.prems[of "k x"] have "\<forall>y \<in> set xs. k x = k y \<longrightarrow> R x y" by simp
  moreover have "sorted_wrt R (filter (\<lambda>x. k x = c) xs)" for c
    using Cons.prems[of c] by (simp split: if_splits)
  ultimately show ?case using Cons.IH by simp
qed simp

lemma ledger_increasing:
  assumes "ledger_ok s"
  shows "sorted_wrt (\<lambda>a b. (event_tenant a, stream_id a) = (event_tenant b, stream_id b)
           \<longrightarrow> sequence_no a < sequence_no b) (audit_events s)"
proof (rule sorted_wrt_by_class)
  show "sorted_wrt (\<lambda>a b. sequence_no a < sequence_no b)
      (filter (\<lambda>x. (event_tenant x, stream_id x) = c) (audit_events s))" for c
  proof -
    obtain a b where c: "c = (a, b)" by (cases c)
    have "map sequence_no (stream_events a b (audit_events s))
        = [Suc 0..<Suc (length (stream_events a b (audit_events s)))]"
      using assms unfolding ledger_ok_def by blast
    then show ?thesis
      using upt_increasing[of sequence_no "stream_events a b (audit_events s)"]
      by (simp add: c stream_events_def)
  qed
qed

interpretation ledger: event_log append_event audit_events ledger_ok
    "\<lambda>r. (event_tenant r, stream_id r)" sequence_no
proof unfold_locales
  fix x and s t :: "'a store_scheme" assume "append_event x s = Inr t"
  then show "\<exists>e. audit_events t = audit_events s @ [e]" by (auto dest: append_event_Inr)
next
  fix x and s t :: "'a store_scheme" assume "ledger_ok s" "append_event x s = Inr t"
  then show "ledger_ok t" by (rule ledger_ok_append)
next
  fix s :: "'a store_scheme" assume "ledger_ok s"
  then show "sorted_wrt (\<lambda>a b. (event_tenant a, stream_id a) = (event_tenant b, stream_id b)
      \<longrightarrow> sequence_no a < sequence_no b) (audit_events s)"
    by (rule ledger_increasing)
qed

lemma ledger_ok_record:
  assumes "ledger_ok s" "record_event etype tenant atype aid data now eng task s = Inr t"
  shows "ledger_ok t"
proof -
  from assms(2) obtain e u where "append_event e (snd (new_event_id s)) = Inr u"
    and "audit_events t = audit_events u"
    unfolding record_event_def by (auto simp: res_simps split_beta Let_def elim!: outbox_add_Inr)
  with assms(1) show ?thesis by (metis draw_frames(5) ledger_ok_append ledger_ok_cong)
qed

section \<open>The outbox mirrors the ledger\<close>

definition outbox_keys_ok :: "'a store_scheme \<Rightarrow> bool" where
  "outbox_keys_ok s \<longleftrightarrow>
     distinct (map outbox_id (outbox_events s)) \<and>
     distinct (map (\<lambda>r. (ob_tenant r, ob_idempotency_key r)) (outbox_events s))"

text \<open>
  The message published for an event: same tenant, type and payload, its key the event id (which
  some services extend).
\<close>

definition mirrors :: "outbox_row \<Rightarrow> audit_event_row \<Rightarrow> bool" where
  "mirrors m e \<longleftrightarrow> ob_tenant m = event_tenant e \<and> ob_event_type m = event_type e \<and>
     ob_payload m = payload e \<and> take (length (event_id e)) (ob_idempotency_key m) = event_id e"

definition outbox_mirrors :: "'a store_scheme \<Rightarrow> bool" where
  "outbox_mirrors s \<longleftrightarrow> list_all2 mirrors (outbox_events s) (audit_events s)"

lemma outbox_keys_ok_add:
  assumes "outbox_keys_ok s" "outbox_add tenant atype aid etype data key s = Inr t"
  shows "outbox_keys_ok t"
  using assms(2) by (rule outbox_add_Inr) (use assms(1) in \<open>auto simp: outbox_keys_ok_def has_key_def\<close>)

lemma outbox_keys_ok_record:
  assumes "outbox_keys_ok s" "record_event etype tenant atype aid data now eng task s = Inr t"
  shows "outbox_keys_ok t"
  using assms(2) by (rule record_event_Inr) (use assms(1) in \<open>auto simp: outbox_keys_ok_def has_key_def\<close>)

lemma outbox_mirrors_record:
  assumes "outbox_mirrors s" "record_event etype tenant atype aid data now eng task s = Inr t"
  shows "outbox_mirrors t"
  using assms(2)
proof (rule record_event_Inr)
  fix e eid and m :: outbox_row
  assume "audit_events t = audit_events s @
      [ledger_row e (next_sequence tenant (event_stream e) (audit_events s))]"
    "outbox_events t = outbox_events s @ [m]"
    "e = \<lparr>event_id = eid, event_type = etype, event_tenant = tenant, event_engagement = eng,
          event_task = task, occurred_at = now, payload = json_safe_dict (isoformat s) data\<rparr>"
    "ob_tenant m = tenant" "ob_idempotency_key m = eid" "ob_event_type m = etype"
    "ob_payload m = json_safe_dict (isoformat s) data"
  with assms(1) show ?thesis
    by (simp add: outbox_mirrors_def mirrors_def list_all2_appendI)
qed

section \<open>The contract of recording\<close>

text \<open>
  What a client needs to know of a recorded event, whatever identifiers and instants were
  drawn for it: one ledger row with the next number of its stream, one fresh message that
  mirrors it, nothing else touched in ledger and outbox.
\<close>

definition unsent :: "outbox_row \<Rightarrow> bool" where
  "unsent m \<longleftrightarrow> ob_lease_owner m = None \<and> ob_lease_expires_at m = None \<and> ob_published_at m = None \<and>
     ob_dead_lettered_at m = None \<and> ob_publish_attempts m = 0"

definition logged :: "audit_event \<Rightarrow> 'a store_scheme \<Rightarrow> 'a store_scheme \<Rightarrow> bool" where
  "logged e s s' \<longleftrightarrow>
     (let r = ledger_row e (next_sequence (event_tenant e) (event_stream e) (audit_events s)) in
      \<not> has_key event_id (event_id e) (audit_events s) \<and>
      audit_events s' = audit_events s @ [r] \<and>
      (\<exists>m. outbox_events s' = outbox_events s @ [m] \<and> mirrors m r \<and> unsent m \<and>
           \<not> has_key outbox_id (outbox_id m) (outbox_events s) \<and>
           \<not> has_key (\<lambda>x. (ob_tenant x, ob_idempotency_key x)) (ob_tenant m, ob_idempotency_key m)
               (outbox_events s)) \<and>
      isoformat s' = isoformat s)"

lemma record_event_logged:
  assumes "record_event etype tenant atype aid data now eng task s = Inr s'"
  obtains e where "logged e s s'" "event_type e = etype" "event_tenant e = tenant"
    "event_engagement e = eng" "event_task e = task" "occurred_at e = now"
    "payload e = json_safe_dict (isoformat s) data" "store.more s' = store.more s"
  using assms
proof (rule record_event_Inr)
  fix eid e and m :: outbox_row
  assume *: "e = \<lparr>event_id = eid, event_type = etype, event_tenant = tenant, event_engagement = eng,
          event_task = task, occurred_at = now, payload = json_safe_dict (isoformat s) data\<rparr>"
    "\<not> has_key event_id eid (audit_events s)"
    "audit_events s' = audit_events s @
       [ledger_row e (next_sequence tenant (event_stream e) (audit_events s))]"
    "outbox_events s' = outbox_events s @ [m]"
    "\<not> has_key outbox_id (outbox_id m) (outbox_events s)"
    "\<not> has_key (\<lambda>r. (ob_tenant r, ob_idempotency_key r)) (tenant, eid) (outbox_events s)"
    "ob_tenant m = tenant" "ob_idempotency_key m = eid" "ob_event_type m = etype"
    "ob_payload m = json_safe_dict (isoformat s) data" "ob_lease_owner m = None" "ob_lease_expires_at m = None"
    "ob_published_at m = None" "ob_dead_lettered_at m = None" "ob_publish_attempts m = 0"
    "isoformat s' = isoformat s" "store.more s' = store.more s"
  then have "logged e s s'" by (simp add: logged_def mirrors_def unsent_def Let_def)
  with * show thesis by (intro that[of e]) simp_all
qed

lemma logged_events:
  "logged e s s' \<Longrightarrow> audit_events s' = audit_events s @
     [ledger_row e (next_sequence (event_tenant e) (event_stream e) (audit_events s))]"
  by (simp add: logged_def Let_def)

lemma logged_cong:
  assumes "logged e s s'" "audit_events t = audit_events s" "outbox_events t = outbox_events s"
    "isoformat t = isoformat s" "audit_events t' = audit_events s'"
    "outbox_events t' = outbox_events s'" "isoformat t' = isoformat s'"
  shows "logged e t t'"
  using assms by (simp add: logged_def Let_def)

definition log_ok :: "'a store_scheme \<Rightarrow> bool" where
  "log_ok s \<longleftrightarrow> ledger_ok s \<and> outbox_keys_ok s \<and> outbox_mirrors s"

lemma log_ok_logged:
  assumes "log_ok s" "logged e s s'"
  shows "log_ok s'"
proof -
  have "append_event e s = Inr (s\<lparr>audit_events := audit_events s'\<rparr>)"
    using assms(2) by (simp add: logged_def Let_def append_event_def ledger_row_def)
  then have "ledger_ok (s\<lparr>audit_events := audit_events s'\<rparr>)"
    by (rule ledger_ok_append[rotated]) (use assms(1) in \<open>simp add: log_ok_def\<close>)
  then have "ledger_ok s'" by (simp add: ledger_ok_def)
  moreover from assms(2) obtain m where m: "outbox_events s' = outbox_events s @ [m]"
    "mirrors m (ledger_row e (next_sequence (event_tenant e) (event_stream e) (audit_events s)))"
    "\<not> has_key outbox_id (outbox_id m) (outbox_events s)"
    "\<not> has_key (\<lambda>x. (ob_tenant x, ob_idempotency_key x)) (ob_tenant m, ob_idempotency_key m)
       (outbox_events s)"
    by (auto simp: logged_def Let_def)
  then have "outbox_keys_ok s'"
    using assms(1) by (auto simp: log_ok_def outbox_keys_ok_def has_key_def)
  moreover have "outbox_mirrors s'"
    using assms(1) m(2) by (simp add: log_ok_def outbox_mirrors_def m(1) logged_events[OF assms(2)]
        list_all2_appendI)
  ultimately show ?thesis by (simp add: log_ok_def)
qed

lemma log_ok_cong:
  "audit_events t = audit_events s \<Longrightarrow> outbox_events t = outbox_events s \<Longrightarrow> log_ok t \<longleftrightarrow> log_ok s"
  by (simp add: log_ok_def ledger_ok_def outbox_keys_ok_def outbox_mirrors_def)

end
