(* ===== verification/Workflow.thy ===== *)
theory Workflow
  imports Ledger
begin

text \<open>
  The workflow vocabulary and its validation: task, engagement and failure enums, retry
  policy, task definitions (\<open>orchestration/definitions.py\<close>), and the graph checks of
  \<open>orchestration/compiler.py\<close>, whose cycle test is Kahn's algorithm.
\<close>

section \<open>Enums\<close>

datatype task_status =
  T_PENDING | T_READY | T_RUNNING | T_RETRY_WAIT | T_WAITING_APPROVAL | T_SUCCEEDED
  | T_FAILED | T_BLOCKED | T_CANCELLED | T_SKIPPED

fun task_status_value :: "task_status \<Rightarrow> string" where
  "task_status_value T_PENDING = ''pending''"
| "task_status_value T_READY = ''ready''"
| "task_status_value T_RUNNING = ''running''"
| "task_status_value T_RETRY_WAIT = ''retry_wait''"
| "task_status_value T_WAITING_APPROVAL = ''waiting_approval''"
| "task_status_value T_SUCCEEDED = ''succeeded''"
| "task_status_value T_FAILED = ''failed''"
| "task_status_value T_BLOCKED = ''blocked''"
| "task_status_value T_CANCELLED = ''cancelled''"
| "task_status_value T_SKIPPED = ''skipped''"

definition task_statuses :: "task_status list" where
  "task_statuses = [T_PENDING, T_READY, T_RUNNING, T_RETRY_WAIT, T_WAITING_APPROVAL,
     T_SUCCEEDED, T_FAILED, T_BLOCKED, T_CANCELLED, T_SKIPPED]"

definition task_status_of :: "string \<Rightarrow> task_status res" where
  "task_status_of = enum_parse task_status_value task_statuses"

datatype engagement_status =
  E_PLANNED | E_RUNNING | E_WAITING_APPROVAL | E_BLOCKED | E_FAILED | E_CANCELLED | E_COMPLETED

fun engagement_status_value :: "engagement_status \<Rightarrow> string" where
  "engagement_status_value E_PLANNED = ''planned''"
| "engagement_status_value E_RUNNING = ''running''"
| "engagement_status_value E_WAITING_APPROVAL = ''waiting_approval''"
| "engagement_status_value E_BLOCKED = ''blocked''"
| "engagement_status_value E_FAILED = ''failed''"
| "engagement_status_value E_CANCELLED = ''cancelled''"
| "engagement_status_value E_COMPLETED = ''completed''"

definition engagement_statuses :: "engagement_status list" where
  "engagement_statuses = [E_PLANNED, E_RUNNING, E_WAITING_APPROVAL, E_BLOCKED, E_FAILED,
     E_CANCELLED, E_COMPLETED]"

definition engagement_status_of :: "string \<Rightarrow> engagement_status res" where
  "engagement_status_of = enum_parse engagement_status_value engagement_statuses"

datatype failure_class =
  TRANSIENT_INFRASTRUCTURE | CONNECTOR_RATE_LIMIT | AUTHENTICATION_EXPIRED | SOURCE_SCHEMA_CHANGE
  | MODEL_TIMEOUT | MODEL_POLICY_VIOLATION | MALFORMED_STRUCTURED_OUTPUT
  | DETERMINISTIC_TEST_FAILURE | INSUFFICIENT_EVIDENCE | CONFLICTING_EVIDENCE
  | HUMAN_RESPONSE_OVERDUE | REVOKED_AUTHORIZATION | SECURITY_INCIDENT | CONFIGURATION_ERROR
  | INTERNAL_ERROR | LEASE_EXPIRED | HUMAN_REJECTED

fun failure_class_value :: "failure_class \<Rightarrow> string" where
  "failure_class_value TRANSIENT_INFRASTRUCTURE = ''transient_infrastructure''"
| "failure_class_value CONNECTOR_RATE_LIMIT = ''connector_rate_limit''"
| "failure_class_value AUTHENTICATION_EXPIRED = ''authentication_expired''"
| "failure_class_value SOURCE_SCHEMA_CHANGE = ''source_schema_change''"
| "failure_class_value MODEL_TIMEOUT = ''model_timeout''"
| "failure_class_value MODEL_POLICY_VIOLATION = ''model_policy_violation''"
| "failure_class_value MALFORMED_STRUCTURED_OUTPUT = ''malformed_structured_output''"
| "failure_class_value DETERMINISTIC_TEST_FAILURE = ''deterministic_test_failure''"
| "failure_class_value INSUFFICIENT_EVIDENCE = ''insufficient_evidence''"
| "failure_class_value CONFLICTING_EVIDENCE = ''conflicting_evidence''"
| "failure_class_value HUMAN_RESPONSE_OVERDUE = ''human_response_overdue''"
| "failure_class_value REVOKED_AUTHORIZATION = ''revoked_authorization''"
| "failure_class_value SECURITY_INCIDENT = ''security_incident''"
| "failure_class_value CONFIGURATION_ERROR = ''configuration_error''"
| "failure_class_value INTERNAL_ERROR = ''internal_error''"
| "failure_class_value LEASE_EXPIRED = ''lease_expired''"
| "failure_class_value HUMAN_REJECTED = ''human_rejected''"

definition failure_classes :: "failure_class list" where
  "failure_classes = [TRANSIENT_INFRASTRUCTURE, CONNECTOR_RATE_LIMIT, AUTHENTICATION_EXPIRED,
     SOURCE_SCHEMA_CHANGE, MODEL_TIMEOUT, MODEL_POLICY_VIOLATION, MALFORMED_STRUCTURED_OUTPUT,
     DETERMINISTIC_TEST_FAILURE, INSUFFICIENT_EVIDENCE, CONFLICTING_EVIDENCE,
     HUMAN_RESPONSE_OVERDUE, REVOKED_AUTHORIZATION, SECURITY_INCIDENT, CONFIGURATION_ERROR,
     INTERNAL_ERROR, LEASE_EXPIRED, HUMAN_REJECTED]"

definition failure_class_of :: "string \<Rightarrow> failure_class res" where
  "failure_class_of = enum_parse failure_class_value failure_classes"

definition DEFAULT_RETRYABLE_FAILURES :: "failure_class set" where
  "DEFAULT_RETRYABLE_FAILURES = {TRANSIENT_INFRASTRUCTURE, CONNECTOR_RATE_LIMIT,
     AUTHENTICATION_EXPIRED, MODEL_TIMEOUT, MALFORMED_STRUCTURED_OUTPUT, INTERNAL_ERROR,
     LEASE_EXPIRED}"

lemma task_statuses_complete: "m \<in> set task_statuses"
  by (cases m) (simp_all add: task_statuses_def)

lemma engagement_statuses_complete: "m \<in> set engagement_statuses"
  by (cases m) (simp_all add: engagement_statuses_def)

lemma failure_classes_complete: "m \<in> set failure_classes"
  by (cases m) (simp_all add: failure_classes_def)

interpretation task_status_enum: enum_codec task_status_value task_status_of
  unfolding task_status_of_def
  by (rule enum_codecI) (simp_all add: task_statuses_complete, simp add: task_statuses_def)

interpretation engagement_status_enum: enum_codec engagement_status_value engagement_status_of
  unfolding engagement_status_of_def
  by (rule enum_codecI) (simp_all add: engagement_statuses_complete, simp add: engagement_statuses_def)

interpretation failure_class_enum: enum_codec failure_class_value failure_class_of
  unfolding failure_class_of_def
  by (rule enum_codecI) (simp_all add: failure_classes_complete, simp add: failure_classes_def)

section \<open>Retry policy\<close>

record retry_policy =
  max_attempts :: int
  initial_delay_seconds :: rat
  backoff_multiplier :: rat
  max_delay_seconds :: rat
  retryable_failures :: "failure_class set"

definition default_retry_policy :: retry_policy where
  "default_retry_policy = \<lparr>max_attempts = 3, initial_delay_seconds = 5, backoff_multiplier = 2,
     max_delay_seconds = 300, retryable_failures = DEFAULT_RETRYABLE_FAILURES\<rparr>"

text \<open>The \<open>Field\<close> bounds of \<open>RetryPolicy\<close>.\<close>

definition retry_policy_ok :: "retry_policy \<Rightarrow> bool" where
  "retry_policy_ok p \<longleftrightarrow> 1 \<le> max_attempts p \<and> max_attempts p \<le> 100 \<and> 0 \<le> initial_delay_seconds p \<and>
     1 \<le> backoff_multiplier p \<and> 0 \<le> max_delay_seconds p"

definition delay_for_attempt :: "retry_policy \<Rightarrow> nat \<Rightarrow> rat" where
  "delay_for_attempt p attempt_count =
     min (initial_delay_seconds p * backoff_multiplier p ^ (attempt_count - 1)) (max_delay_seconds p)"

text \<open>\<open>model_dump(mode="json")\<close> and \<open>model_validate\<close> of a stored policy.\<close>

definition retry_policy_dump :: "retry_policy \<Rightarrow> pydict" where
  "retry_policy_dump p =
     [(''max_attempts'', PInt (max_attempts p)),
      (''initial_delay_seconds'', PFloat (initial_delay_seconds p)),
      (''backoff_multiplier'', PFloat (backoff_multiplier p)),
      (''max_delay_seconds'', PFloat (max_delay_seconds p)),
      (''retryable_failures'',
        PList (map (PStr \<circ> failure_class_value)
          (filter (\<lambda>c. c \<in> retryable_failures p) failure_classes)))]"

definition int_field :: "pydict \<Rightarrow> string \<Rightarrow> int \<Rightarrow> int res" where
  "int_field d k dflt =
     (case map_of d k of None \<Rightarrow> Inr dflt | Some (PInt n) \<Rightarrow> Inr n | Some _ \<Rightarrow> Inl ValidationError)"

definition float_field :: "pydict \<Rightarrow> string \<Rightarrow> rat \<Rightarrow> rat res" where
  "float_field d k dflt =
     (case map_of d k of None \<Rightarrow> Inr dflt | Some (PFloat x) \<Rightarrow> Inr x
      | Some (PInt n) \<Rightarrow> Inr (of_int n) | Some _ \<Rightarrow> Inl ValidationError)"

fun failure_list :: "pyval list \<Rightarrow> failure_class list res" where
  "failure_list [] = Inr []"
| "failure_list (PStr v # vs) =
     (case failure_class_of v of Inl _ \<Rightarrow> Inl ValidationError
      | Inr c \<Rightarrow> bind_res (failure_list vs) (\<lambda>cs. Inr (c # cs)))"
| "failure_list (_ # vs) = Inl ValidationError"

definition failure_set_field :: "pydict \<Rightarrow> string \<Rightarrow> failure_class set \<Rightarrow> failure_class set res" where
  "failure_set_field d k dflt =
     (case map_of d k of None \<Rightarrow> Inr dflt
      | Some (PList vs) \<Rightarrow> bind_res (failure_list vs) (\<lambda>cs. Inr (set cs))
      | Some _ \<Rightarrow> Inl ValidationError)"

definition retry_policy_fields :: "string list" where
  "retry_policy_fields = [''max_attempts'', ''initial_delay_seconds'', ''backoff_multiplier'',
     ''max_delay_seconds'', ''retryable_failures'']"

definition retry_policy_validate :: "pyval \<Rightarrow> retry_policy res" where
  "retry_policy_validate v =
     (case v of PDict d \<Rightarrow>
        if \<not> set (map fst d) \<subseteq> set retry_policy_fields then Inl ValidationError
        else
          bind_res (int_field d ''max_attempts'' 3) (\<lambda>m.
          bind_res (float_field d ''initial_delay_seconds'' 5) (\<lambda>i.
          bind_res (float_field d ''backoff_multiplier'' 2) (\<lambda>b.
          bind_res (float_field d ''max_delay_seconds'' 300) (\<lambda>x.
          bind_res (failure_set_field d ''retryable_failures'' DEFAULT_RETRYABLE_FAILURES) (\<lambda>f.
            let p = \<lparr>max_attempts = m, initial_delay_seconds = i, backoff_multiplier = b,
                     max_delay_seconds = x, retryable_failures = f\<rparr>
            in if retry_policy_ok p then Inr p else Inl ValidationError)))))
      | _ \<Rightarrow> Inl ValidationError)"

lemma failure_list_values:
  "failure_list (map (PStr \<circ> failure_class_value) cs) = Inr cs"
  by (induction cs) (simp_all add: failure_class_enum.parse_value)

lemma delay_nonneg: "retry_policy_ok p \<Longrightarrow> 0 \<le> delay_for_attempt p n"
  by (simp add: delay_for_attempt_def retry_policy_ok_def)

section \<open>Task definitions\<close>

record dependency_definition =
  dd_task_key :: string
  dd_allowed_statuses :: "task_status set"

definition dependency_definition_ok :: "dependency_definition \<Rightarrow> bool" where
  "dependency_definition_ok d \<longleftrightarrow>
     1 \<le> length (dd_task_key d) \<and> length (dd_task_key d) \<le> 128 \<and>
     dd_allowed_statuses d \<noteq> {} \<and> dd_allowed_statuses d \<subseteq> {T_SUCCEEDED, T_SKIPPED}"

datatype gate_position = GateBefore | GateAfter

fun gate_position_value :: "gate_position \<Rightarrow> string" where
  "gate_position_value GateBefore = ''before''"
| "gate_position_value GateAfter = ''after''"

record task_definition =
  td_key :: string
  td_task_type :: string
  td_definition_version :: string
  td_dependencies :: "dependency_definition list"
  td_assigned_agent_role :: "string option"
  td_input_refs :: "string list"
  td_execution_policy :: pydict
  td_model_policy :: "string option"
  td_tool_policy :: "string option"
  td_retry_policy :: retry_policy
  td_priority :: int
  td_deadline_seconds :: "int option"
  td_human_gate :: "string option"
  td_human_gate_position :: gate_position

definition key_char :: "char \<Rightarrow> bool" where
  "key_char c \<longleftrightarrow> (CHR ''a'' \<le> c \<and> c \<le> CHR ''z'') \<or> (CHR ''0'' \<le> c \<and> c \<le> CHR ''9'')"

definition opt_max_length :: "nat \<Rightarrow> string option \<Rightarrow> bool" where
  "opt_max_length n x \<longleftrightarrow> (case x of None \<Rightarrow> True | Some v \<Rightarrow> length v \<le> n)"

definition task_definition_ok :: "task_definition \<Rightarrow> bool" where
  "task_definition_ok t \<longleftrightarrow>
     1 \<le> length (td_key t) \<and> length (td_key t) \<le> 128 \<and> key_char (hd (td_key t)) \<and>
     (\<forall>c \<in> set (tl (td_key t)). key_char c \<or> c \<in> set ''._-'') \<and>
     1 \<le> length (td_task_type t) \<and> length (td_task_type t) \<le> 64 \<and>
     1 \<le> length (td_definition_version t) \<and> length (td_definition_version t) \<le> 64 \<and>
     (\<forall>d \<in> set (td_dependencies t). dependency_definition_ok d) \<and>
     opt_max_length 128 (td_assigned_agent_role t) \<and> opt_max_length 128 (td_model_policy t) \<and>
     opt_max_length 128 (td_tool_policy t) \<and> retry_policy_ok (td_retry_policy t) \<and>
     0 \<le> td_priority t \<and> td_priority t \<le> 10000 \<and>
     (case td_deadline_seconds t of None \<Rightarrow> True | Some n \<Rightarrow> 1 \<le> n) \<and>
     opt_max_length 128 (td_human_gate t) \<and>
     (td_human_gate t = None \<longrightarrow> td_human_gate_position t = GateBefore)"

definition persisted_execution_policy :: "task_definition \<Rightarrow> pydict" where
  "persisted_execution_policy t =
     (let policy = AList.update ''retry_policy'' (PDict (retry_policy_dump (td_retry_policy t)))
                     (td_execution_policy t)
      in if truthy (td_human_gate t)
         then AList.update ''human_gate_position''
                (PStr (gate_position_value (td_human_gate_position t))) policy
         else policy)"

record workflow_definition =
  workflow_version :: string
  wf_tasks :: "task_definition list"
  wf_metadata :: pydict

definition workflow_definition_ok :: "workflow_definition \<Rightarrow> bool" where
  "workflow_definition_ok w \<longleftrightarrow> 1 \<le> length (workflow_version w) \<and> length (workflow_version w) \<le> 64 \<and>
     wf_tasks w \<noteq> [] \<and> (\<forall>t \<in> set (wf_tasks w). task_definition_ok t)"

section \<open>Graph validation\<close>

definition td_deps :: "task_definition \<Rightarrow> string list" where
  "td_deps t = map dd_task_key (td_dependencies t)"

definition indegree0 :: "task_definition list \<Rightarrow> string \<Rightarrow> int" where
  "indegree0 tasks k = sum_list (map (\<lambda>t. if td_key t = k then int (length (td_deps t)) else 0) tasks)"

definition children :: "task_definition list \<Rightarrow> string \<Rightarrow> string list" where
  "children tasks k = concat (map (\<lambda>t. map (\<lambda>_. td_key t) (filter (\<lambda>d. d = k) (td_deps t))) tasks)"

text \<open>The inner loop: one dependency of every child is met; a child with none left is ready.\<close>

fun relax :: "string list \<Rightarrow> (string \<Rightarrow> int) \<Rightarrow> string list \<Rightarrow> (string \<Rightarrow> int) \<times> string list" where
  "relax [] deg ready = (deg, ready)"
| "relax (c # cs) deg ready =
     (let d = deg c - 1 in relax cs (deg(c := d)) (if d = 0 then ready @ [c] else ready))"

definition kahn_measure :: "task_definition list \<Rightarrow> string list \<Rightarrow> (string \<Rightarrow> int) \<Rightarrow> nat" where
  "kahn_measure tasks ready deg = length ready + card {k \<in> td_key ` set tasks. 0 < deg k}"

lemma children_subset: "set (children tasks k) \<subseteq> td_key ` set tasks"
  by (auto simp: children_def)

lemma relax_measure:
  "set cs \<subseteq> td_key ` set tasks \<Longrightarrow> relax cs deg ready = (deg', ready') \<Longrightarrow>
   kahn_measure tasks ready' deg' \<le> kahn_measure tasks ready deg"
proof (induction cs arbitrary: deg ready)
  case (Cons c cs)
  let ?K = "td_key ` set tasks" and ?d = "deg(c := deg c - 1)"
  have fin: "finite {k \<in> ?K. 0 < deg k}" by simp
  have sub: "{k \<in> ?K. 0 < ?d k} \<subseteq> {k \<in> ?K. 0 < deg k}" by auto
  have "kahn_measure tasks (if ?d c = 0 then ready @ [c] else ready) ?d \<le> kahn_measure tasks ready deg"
  proof (cases "?d c = 0")
    case True
    with Cons.prems(1) have "c \<in> {k \<in> ?K. 0 < deg k} - {k \<in> ?K. 0 < ?d k}" by auto
    then have "{k \<in> ?K. 0 < ?d k} \<subset> {k \<in> ?K. 0 < deg k}" using sub by blast
    then have "card {k \<in> ?K. 0 < ?d k} < card {k \<in> ?K. 0 < deg k}" by (rule psubset_card_mono[OF fin])
    with True show ?thesis by (simp add: kahn_measure_def)
  next
    case False
    with card_mono[OF fin sub] show ?thesis by (simp add: kahn_measure_def)
  qed
  with Cons show ?case by (fastforce simp: Let_def)
qed simp

function kahn :: "task_definition list \<Rightarrow> string list \<Rightarrow> nat \<Rightarrow> (string \<Rightarrow> int)
    \<Rightarrow> nat \<times> (string \<Rightarrow> int)" where
  "kahn tasks [] visited deg = (visited, deg)"
| "kahn tasks (k # ready) visited deg =
     (let r = relax (sort (children tasks k)) deg ready in kahn tasks (snd r) (Suc visited) (fst r))"
  by pat_completeness auto
termination
proof (relation "measure (\<lambda>(tasks, ready, visited, deg). kahn_measure tasks ready deg)")
  fix tasks k ready visited deg r
  assume r: "r = relax (sort (children tasks k)) deg ready"
  then have "kahn_measure tasks (snd r) (fst r) \<le> kahn_measure tasks ready deg"
    using relax_measure[of "sort (children tasks k)" tasks deg ready "fst r" "snd r"]
      children_subset[of tasks k] by simp
  also have "\<dots> < kahn_measure tasks (k # ready) deg" by (simp add: kahn_measure_def)
  finally show "((tasks, snd r, Suc visited, fst r), tasks, k # ready, visited, deg)
      \<in> measure (\<lambda>(tasks, ready, visited, deg). kahn_measure tasks ready deg)" by simp
qed simp

definition assert_acyclic :: "task_definition list \<Rightarrow> unit res" where
  "assert_acyclic tasks =
     (let keys = remdups (map td_key tasks);
          deg = indegree0 tasks;
          (visited, deg') = kahn tasks (sort (filter (\<lambda>k. deg k = 0) keys)) 0 deg
      in if visited \<noteq> length tasks
         then Inl (WorkflowValidationError (DependencyCycle (sort (filter (\<lambda>k. 0 < deg' k) keys))))
         else Inr ())"

definition validate_task :: "string list \<Rightarrow> task_definition \<Rightarrow> unit \<Rightarrow> unit res" where
  "validate_task known t u =
     (let deps = td_deps t; missing = sort (remdups (filter (\<lambda>d. d \<notin> set known) deps)) in
      if length deps \<noteq> length (remdups deps)
      then Inl (WorkflowValidationError (DependencyDeclaredTwice (td_key t)))
      else if missing \<noteq> []
      then Inl (WorkflowValidationError (UnknownDependencies (td_key t) missing))
      else if td_key t \<in> set deps
      then Inl (WorkflowValidationError (SelfDependency (td_key t)))
      else Inr ())"

definition validate :: "workflow_definition \<Rightarrow> unit res" where
  "validate w =
     (let keys = map td_key (wf_tasks w) in
      if length keys \<noteq> length (remdups keys)
      then Inl (WorkflowValidationError
             (DuplicateTaskKeys (sort (remdups (filter (\<lambda>k. 1 < count_list keys k) keys)))))
      else bind_res (fold_res (validate_task keys) (wf_tasks w) ())
             (\<lambda>_. assert_acyclic (wf_tasks w)))"

end
