(* ===== verification/Graph_Check.thy ===== *)
theory Graph_Check
  imports Workflow
begin

text \<open>
  Correctness of \<open>WorkflowCompiler.validate\<close> (\<open>orchestration/compiler.py\<close>): Kahn's loop visits
  every task exactly when the declared dependencies are acyclic, and the keys it reports
  otherwise are exactly those that lie on a cycle or behind one.
\<close>

section \<open>The dependency relation of a definition\<close>

definition deps_of :: "task_definition list \<Rightarrow> string \<Rightarrow> string set" where
  "deps_of tasks k = (\<Union>t \<in> {t \<in> set tasks. td_key t = k}. set (td_deps t))"

definition dep_rel :: "task_definition list \<Rightarrow> (string \<times> string) set" where
  "dep_rel tasks = {(d, k). d \<in> deps_of tasks k}"

definition behind_cycle :: "task_definition list \<Rightarrow> string set" where
  "behind_cycle tasks = {k. \<exists>c. (c, c) \<in> (dep_rel tasks)\<^sup>+ \<and> (c, k) \<in> (dep_rel tasks)\<^sup>*}"

definition graph_ok :: "task_definition list \<Rightarrow> bool" where
  "graph_ok tasks \<longleftrightarrow> distinct (map td_key tasks) \<and>
     (\<forall>t \<in> set tasks. distinct (td_deps t) \<and> set (td_deps t) \<subseteq> td_key ` set tasks)"

lemma deps_of_keys: "d \<in> deps_of tasks k \<Longrightarrow> k \<in> td_key ` set tasks"
  by (auto simp: deps_of_def)

lemma deps_of_known: "graph_ok tasks \<Longrightarrow> deps_of tasks k \<subseteq> td_key ` set tasks"
  by (fastforce simp: deps_of_def graph_ok_def)

lemma finite_deps_of [simp]: "finite (deps_of tasks k)"
  by (simp add: deps_of_def)

lemma finite_dep_rel: "graph_ok tasks \<Longrightarrow> finite (dep_rel tasks)"
proof -
  assume "graph_ok tasks"
  then have "dep_rel tasks \<subseteq> td_key ` set tasks \<times> td_key ` set tasks"
    using deps_of_known deps_of_keys by (fastforce simp: dep_rel_def)
  then show ?thesis by (rule finite_subset) simp
qed

lemma deps_of_unique:
  "distinct (map td_key tasks) \<Longrightarrow> t \<in> set tasks \<Longrightarrow> deps_of tasks (td_key t) = set (td_deps t)"
proof -
  assume "distinct (map td_key tasks)" "t \<in> set tasks"
  then have "{u \<in> set tasks. td_key u = td_key t} = {t}"
    by (auto simp: distinct_map inj_on_def)
  then show ?thesis by (simp add: deps_of_def)
qed

section \<open>What the loop computes\<close>

lemma indegree0_card:
  assumes "graph_ok tasks"
  shows "indegree0 tasks k = int (card (deps_of tasks k))"
proof -
  have "distinct (map td_key ts) \<Longrightarrow> (\<forall>t \<in> set ts. distinct (td_deps t)) \<Longrightarrow>
      indegree0 ts k = int (card (deps_of ts k))" for ts
  proof (induction ts)
    case (Cons t ts)
    show ?case
    proof (cases "td_key t = k")
      case True
      with Cons.prems have "k \<notin> td_key ` set ts" by auto
      then have none: "\<forall>u \<in> set ts. td_key u \<noteq> k" by blast
      then have "indegree0 ts k = 0" by (induction ts) (auto simp: indegree0_def)
      moreover have "deps_of (t # ts) k = set (td_deps t)" using none True by (auto simp: deps_of_def)
      ultimately show ?thesis using Cons.prems True by (simp add: indegree0_def distinct_card)
    next
      case False
      then have "deps_of (t # ts) k = deps_of ts k" by (auto simp: deps_of_def)
      with False Cons show ?thesis by (simp add: indegree0_def)
    qed
  qed (simp add: indegree0_def deps_of_def)
  with assms show ?thesis by (auto simp: graph_ok_def)
qed

lemma set_children: "c \<in> set (children tasks k) \<longleftrightarrow> k \<in> deps_of tasks c"
  by (auto simp: children_def deps_of_def)

lemma distinct_children:
  assumes "graph_ok tasks"
  shows "distinct (children tasks k)"
proof -
  have "distinct (map td_key ts) \<Longrightarrow> (\<forall>t \<in> set ts. distinct (td_deps t)) \<Longrightarrow> distinct (children ts k)"
    for ts
  proof (induction ts)
    case (Cons t ts)
    have "filter (\<lambda>d. d = k) ds = [k] \<or> filter (\<lambda>d. d = k) ds = []" if "distinct ds" for ds
      using that by (induction ds) (auto simp: filter_empty_conv)
    with Cons.prems have "filter (\<lambda>d. d = k) (td_deps t) = [k] \<or> filter (\<lambda>d. d = k) (td_deps t) = []"
      by simp
    moreover have "td_key t \<notin> set (children ts k)"
      using children_subset[of ts k] Cons.prems(1) by auto
    ultimately show ?case using Cons by (auto simp: children_def)
  qed (simp add: children_def)
  with assms show ?thesis by (auto simp: graph_ok_def)
qed

lemma relax_distinct:
  "distinct cs \<Longrightarrow> relax cs deg ready =
     (\<lambda>k. deg k - (if k \<in> set cs then 1 else 0), ready @ filter (\<lambda>c. deg c = 1) cs)"
proof (induction cs arbitrary: deg ready)
  case (Cons c cs)
  then have "filter (\<lambda>x. (deg(c := deg c - 1)) x = 1) cs = filter (\<lambda>x. deg x = 1) cs"
    by (auto intro: filter_cong)
  with Cons show ?case by (auto simp: Let_def fun_eq_iff)
qed simp

section \<open>Topological prefixes\<close>

text \<open>A list of keys in which every key comes after all of its dependencies.\<close>

definition topo :: "task_definition list \<Rightarrow> string list \<Rightarrow> bool" where
  "topo tasks P \<longleftrightarrow> (\<forall>i < length P. deps_of tasks (P ! i) \<subseteq> set (take i P))"

lemma topo_snoc: "topo tasks (P @ [k]) \<longleftrightarrow> topo tasks P \<and> deps_of tasks k \<subseteq> set P"
  by (auto simp: topo_def nth_append less_Suc_eq)

lemma topo_ancestor:
  assumes "topo tasks P" "(d, k) \<in> (dep_rel tasks)\<^sup>*" "k \<in> set P"
  shows "d \<in> set P"
  using assms(2,3)
proof (induction rule: converse_rtrancl_induct)
  case (step d e)
  then obtain i where "i < length P" "P ! i = e" by (auto simp: in_set_conv_nth)
  with assms(1) step.hyps(1) show ?case
    by (auto simp: topo_def dep_rel_def dest: in_set_takeD)
qed

lemma topo_no_cycle:
  assumes "topo tasks P" "distinct P" "k \<in> set P"
  shows "(k, k) \<notin> (dep_rel tasks)\<^sup>+"
proof
  assume cyc: "(k, k) \<in> (dep_rel tasks)\<^sup>+"
  have less: "i < j" if "i < length P" "j < length P" "(P ! i, P ! j) \<in> dep_rel tasks" for i j
  proof -
    from that assms(1) have "P ! i \<in> set (take j P)" by (auto simp: topo_def dep_rel_def)
    then obtain l where "l < j" "l < length P" "P ! l = P ! i" by (auto simp: in_set_conv_nth)
    with assms(2) that show ?thesis by (auto simp: nth_eq_iff_index_eq)
  qed
  have "i < j" if "(P ! i, e) \<in> (dep_rel tasks)\<^sup>+" "i < length P" "j < length P" "e = P ! j" for i j e
    using that
  proof (induction arbitrary: j rule: trancl_induct)
    case (base e)
    then show ?case using less by blast
  next
    case (step d e)
    from step topo_ancestor[OF assms(1), of d e] have "d \<in> set P" by auto
    then obtain l where l: "l < length P" "d = P ! l" by (auto simp: in_set_conv_nth)
    with step have "i < l" "l < j" using less by auto
    then show ?case by simp
  qed
  with cyc assms(3) show False by (auto simp: in_set_conv_nth)
qed

section \<open>Correctness of the loop\<close>

definition kahn_inv :: "task_definition list \<Rightarrow> string list \<Rightarrow> string list \<Rightarrow> nat
    \<Rightarrow> (string \<Rightarrow> int) \<Rightarrow> bool" where
  "kahn_inv tasks P ready visited deg \<longleftrightarrow>
     distinct (P @ ready) \<and> set (P @ ready) \<subseteq> td_key ` set tasks \<and> visited = length P \<and>
     (\<forall>k. deg k = int (card (deps_of tasks k - set P))) \<and>
     (\<forall>k \<in> td_key ` set tasks. deg k = 0 \<longleftrightarrow> k \<in> set P \<union> set ready) \<and> topo tasks P"

lemma card_remove_dep:
  assumes "finite A" "k \<notin> P"
  shows "int (card (A - insert k P)) = int (card (A - P)) - (if k \<in> A then 1 else 0)"
proof -
  have split: "A - insert k P = (A - P) - {k}" by auto
  show ?thesis
  proof (cases "k \<in> A")
    case True
    with assms have "card (A - P) = Suc (card ((A - P) - {k}))"
      by (intro card.remove) auto
    with True show ?thesis by (simp add: split)
  qed (simp add: split)
qed

lemma kahn_inv_step:
  assumes ok: "graph_ok tasks" and inv: "kahn_inv tasks P (k # ready) visited deg"
    and r: "r = relax (sort (children tasks k)) deg ready"
  shows "kahn_inv tasks (P @ [k]) (snd r) (Suc visited) (fst r)"
proof -
  let ?cs = "sort (children tasks k)" and ?K = "td_key ` set tasks"
  have dcs: "distinct ?cs" and scs: "\<And>c. c \<in> set ?cs \<longleftrightarrow> k \<in> deps_of tasks c"
    by (simp_all add: distinct_children[OF ok] set_children)
  have deg: "deg c = int (card (deps_of tasks c - set P))" for c using inv by (simp add: kahn_inv_def)
  have zero: "c \<in> ?K \<Longrightarrow> deg c = 0 \<longleftrightarrow> c \<in> set P \<union> set (k # ready)" for c
    using inv unfolding kahn_inv_def by blast
  have kP: "k \<notin> set P" "k \<in> ?K" and dst: "distinct (P @ k # ready)"
    and sub: "set (P @ k # ready) \<subseteq> ?K" using inv by (auto simp: kahn_inv_def)
  have r1: "fst r = (\<lambda>c. deg c - (if k \<in> deps_of tasks c then 1 else 0))"
    and r2: "snd r = ready @ filter (\<lambda>c. deg c = 1) ?cs"
    using relax_distinct[OF dcs] scs by (auto simp: r fun_eq_iff)
  have pos: "0 < deg c" if "k \<in> deps_of tasks c" for c
    using that kP(1) by (auto simp: deg card_gt_0_iff)
  have "fst r c = int (card (deps_of tasks c - set (P @ [k])))" for c
    using card_remove_dep[of "deps_of tasks c" k "set P"] kP(1) by (simp add: r1 deg)
  moreover have "fst r c = 0 \<longleftrightarrow> c \<in> set (P @ [k]) \<union> set (snd r)" if "c \<in> ?K" for c
    using zero[OF that] pos[of c] scs[of c] by (auto simp: r1 r2)
  moreover have new: "c \<in> ?K \<and> c \<notin> set (P @ k # ready)" if "c \<in> set ?cs" "deg c = 1" for c
    using that zero[of c] scs[of c] deps_of_keys[of k tasks c] by auto
  have "distinct ((P @ [k]) @ snd r)" using dst dcs new by (auto simp: r2)
  moreover have "set ((P @ [k]) @ snd r) \<subseteq> ?K" using sub new by (auto simp: r2)
  moreover have "topo tasks (P @ [k])"
    using inv zero[OF kP(2)] deg[of k] by (auto simp: topo_snoc kahn_inv_def)
  ultimately show ?thesis using inv by (simp add: kahn_inv_def)
qed

lemma kahn_correct:
  assumes "graph_ok tasks" "kahn_inv tasks P ready visited deg"
    "kahn tasks ready visited deg = (v, deg')"
  shows "\<exists>P'. kahn_inv tasks P' [] v deg'"
  using assms
proof (induction tasks ready visited deg arbitrary: P rule: kahn.induct)
  case (2 tasks k ready visited deg)
  show ?case
    using 2(1)[OF refl 2(2) kahn_inv_step[OF 2(2,3) refl]] 2(4) by (simp add: Let_def)
qed auto

lemma kahn_inv_init:
  assumes "graph_ok tasks"
  shows "kahn_inv tasks [] (sort (filter (\<lambda>k. indegree0 tasks k = 0) (remdups (map td_key tasks)))) 0
           (indegree0 tasks)"
  using assms by (auto simp: kahn_inv_def indegree0_card topo_def)

text \<open>A key that was never visited has an unvisited dependency, so it lies behind a cycle.\<close>

lemma unvisited_behind_cycle:
  assumes ok: "graph_ok tasks" and k: "k \<in> U"
    and pred: "\<And>k. k \<in> U \<Longrightarrow> \<exists>d \<in> U. (d, k) \<in> dep_rel tasks"
  shows "k \<in> behind_cycle tasks"
proof (rule ccontr)
  assume no: "k \<notin> behind_cycle tasks"
  let ?A = "{a \<in> U. (a, k) \<in> (dep_rel tasks)\<^sup>*}"
  let ?r = "{(d, e) \<in> dep_rel tasks. e \<in> ?A}"
  have sub: "?r\<^sup>+ \<subseteq> (dep_rel tasks)\<^sup>+" by (rule trancl_mono_subset) auto
  have "acyclic ?r"
  proof (rule acyclicI, rule allI, rule notI)
    fix c assume c: "(c, c) \<in> ?r\<^sup>+"
    then have "c \<in> ?A" by (auto elim: tranclE)
    with c sub no show False unfolding behind_cycle_def by blast
  qed
  moreover have "finite ?r" by (rule finite_subset[OF _ finite_dep_rel[OF ok]]) auto
  ultimately have "wf ?r" by (rule finite_acyclic_wf[rotated])
  moreover have "k \<in> ?A" using k by simp
  ultimately obtain m where m: "m \<in> ?A" "\<And>d. (d, m) \<in> ?r \<Longrightarrow> d \<notin> ?A"
    by (rule wfE_min) blast
  from pred[of m] m(1) obtain d where d: "d \<in> U" "(d, m) \<in> dep_rel tasks" by auto
  with m(1) have "d \<in> ?A" by (auto intro: converse_rtrancl_into_rtrancl)
  with m d show False by blast
qed

lemma kahn_final:
  assumes ok: "graph_ok tasks" and inv: "kahn_inv tasks P [] v deg"
  shows "set P = td_key ` set tasks - behind_cycle tasks" and "v = card (set P)"
    and "k \<in> td_key ` set tasks \<Longrightarrow> 0 < deg k \<longleftrightarrow> k \<in> behind_cycle tasks"
proof -
  let ?K = "td_key ` set tasks"
  have deg: "deg k = int (card (deps_of tasks k - set P))" for k using inv by (simp add: kahn_inv_def)
  have zero: "k \<in> ?K \<Longrightarrow> deg k = 0 \<longleftrightarrow> k \<in> set P" for k
    using inv unfolding kahn_inv_def by (metis Un_empty_right empty_set)
  have topo: "topo tasks P" and dst: "distinct P" and sub: "set P \<subseteq> ?K"
    using inv by (simp_all add: kahn_inv_def)
  have out: "k \<in> behind_cycle tasks" if "k \<in> ?K - set P" for k
  proof (rule unvisited_behind_cycle[OF ok that])
    fix k assume "k \<in> ?K - set P"
    with zero deg have "deps_of tasks k - set P \<noteq> {}" by fastforce
    with deps_of_known[OF ok] show "\<exists>d \<in> ?K - set P. (d, k) \<in> dep_rel tasks"
      by (fastforce simp: dep_rel_def)
  qed
  have "k \<notin> behind_cycle tasks" if "k \<in> set P" for k
    using topo_no_cycle[OF topo dst] topo_ancestor[OF topo _ that] by (auto simp: behind_cycle_def)
  with out sub show "set P = ?K - behind_cycle tasks" by blast
  then show "k \<in> ?K \<Longrightarrow> 0 < deg k \<longleftrightarrow> k \<in> behind_cycle tasks"
    using zero[of k] deg[of k] by (simp add: order_less_le)
  show "v = card (set P)" using inv dst by (simp add: kahn_inv_def distinct_card)
qed

lemma behind_cycle_keys: "behind_cycle tasks \<subseteq> td_key ` set tasks"
proof
  fix k assume "k \<in> behind_cycle tasks"
  then obtain c where "(c, c) \<in> (dep_rel tasks)\<^sup>+" "(c, k) \<in> (dep_rel tasks)\<^sup>*"
    by (auto simp: behind_cycle_def)
  then have "(c, k) \<in> (dep_rel tasks)\<^sup>+" by (rule trancl_rtrancl_trancl)
  then show "k \<in> td_key ` set tasks" by (cases rule: tranclE) (auto simp: dep_rel_def deps_of_keys)
qed

lemma acyclic_behind_cycle: "acyclic (dep_rel tasks) \<longleftrightarrow> behind_cycle tasks = {}"
  by (auto simp: acyclic_def behind_cycle_def)

lemma sort_filter_keys:
  assumes "distinct (map td_key tasks)" "A \<subseteq> td_key ` set tasks"
  shows "sort (filter (\<lambda>k. k \<in> A) (remdups (map td_key tasks))) = sorted_list_of_set A"
proof -
  have "set (filter (\<lambda>k. k \<in> A) (map td_key tasks)) = A" using assms(2) by auto
  with assms(1) show ?thesis
    by (metis distinct_filter distinct_remdups_id sorted_list_of_set_sort_remdups)
qed

lemma assert_acyclic_spec:
  assumes ok: "graph_ok tasks"
  shows "assert_acyclic tasks =
    (if acyclic (dep_rel tasks) then Inr ()
     else Inl (WorkflowValidationError (DependencyCycle (sorted_list_of_set (behind_cycle tasks)))))"
proof -
  let ?keys = "remdups (map td_key tasks)" and ?K = "td_key ` set tasks"
  obtain v deg where run: "kahn tasks (sort (filter (\<lambda>k. indegree0 tasks k = 0) ?keys)) 0
      (indegree0 tasks) = (v, deg)" by fastforce
  from kahn_correct[OF ok kahn_inv_init[OF ok] run] obtain P where inv: "kahn_inv tasks P [] v deg" ..
  note final = kahn_final[OF ok inv]
  have dst: "distinct (map td_key tasks)" using ok by (simp add: graph_ok_def)
  then have len: "length tasks = card ?K" by (metis distinct_card length_map set_map)
  have "v = length tasks \<longleftrightarrow> set P = ?K"
    using card_subset_eq[of ?K "set P"] by (auto simp: final(1,2) len)
  also have "\<dots> \<longleftrightarrow> behind_cycle tasks = {}" using behind_cycle_keys[of tasks] by (auto simp: final(1))
  finally have "v = length tasks \<longleftrightarrow> behind_cycle tasks = {}" .
  moreover have "filter (\<lambda>k. 0 < deg k) ?keys = filter (\<lambda>k. k \<in> behind_cycle tasks) ?keys"
    using final(3) by (auto intro!: filter_cong)
  ultimately show ?thesis
    unfolding assert_acyclic_def Let_def run
    by (simp add: acyclic_behind_cycle sort_filter_keys[OF dst behind_cycle_keys])
qed

section \<open>Validation\<close>

lemma validate_task_ok:
  "validate_task known t u = Inr v \<longleftrightarrow>
     distinct (td_deps t) \<and> set (td_deps t) \<subseteq> set known \<and> td_key t \<notin> set (td_deps t)"
proof -
  have "set (sort (remdups (filter (\<lambda>d. d \<notin> set known) (td_deps t)))) = {} \<longleftrightarrow>
      set (td_deps t) \<subseteq> set known"
    by auto
  then have "sort (remdups (filter (\<lambda>d. d \<notin> set known) (td_deps t))) = [] \<longleftrightarrow>
      set (td_deps t) \<subseteq> set known"
    by (simp only: set_empty)
  then show ?thesis by (auto simp: validate_task_def Let_def length_remdups_distinct)
qed

lemma fold_validate_task_ok:
  "fold_res (validate_task known) ts u = Inr v \<longleftrightarrow>
     (\<forall>t \<in> set ts. distinct (td_deps t) \<and> set (td_deps t) \<subseteq> set known \<and> td_key t \<notin> set (td_deps t))"
proof (induction ts arbitrary: u)
  case (Cons t ts)
  have "fold_res (validate_task known) (t # ts) u = Inr v \<longleftrightarrow>
      validate_task known t u = Inr () \<and> fold_res (validate_task known) ts () = Inr v"
    by (cases "validate_task known t u") auto
  then show ?case unfolding Cons validate_task_ok by simp
qed simp

lemma acyclic_no_self:
  "acyclic (dep_rel tasks) \<Longrightarrow> distinct (map td_key tasks) \<Longrightarrow> t \<in> set tasks \<Longrightarrow> td_key t \<notin> set (td_deps t)"
  using deps_of_unique[of tasks t] r_into_trancl[of "td_key t" "td_key t" "dep_rel tasks"]
  by (auto simp: acyclic_def dep_rel_def)

lemma validate_parts:
  "validate w = Inr () \<longleftrightarrow> (\<forall>t \<in> set (wf_tasks w). td_key t \<notin> set (td_deps t)) \<and> graph_ok (wf_tasks w) \<and>
     assert_acyclic (wf_tasks w) = Inr ()"
proof (cases "distinct (map td_key (wf_tasks w))")
  case True
  then have "validate w = bind_res (fold_res (validate_task (map td_key (wf_tasks w))) (wf_tasks w) ())
      (\<lambda>_. assert_acyclic (wf_tasks w))"
    by (simp add: validate_def Let_def length_remdups_distinct del: length_map)
  then have "validate w = Inr () \<longleftrightarrow>
      (fold_res (validate_task (map td_key (wf_tasks w))) (wf_tasks w) () = Inr () \<and>
       assert_acyclic (wf_tasks w) = Inr ())"
    by (auto simp: bind_res_eq_Inr)
  then show ?thesis unfolding fold_validate_task_ok graph_ok_def using True by auto
qed (simp add: validate_def Let_def length_remdups_distinct graph_ok_def del: length_map)

lemma validated_acyclic: "validate w = Inr () \<Longrightarrow> acyclic (dep_rel (wf_tasks w))"
  using assert_acyclic_spec[of "wf_tasks w"] by (auto simp: validate_parts split: if_splits)

text \<open>
  C21. Validation accepts a workflow exactly when task keys are unique, every task names each
  dependency once and only among the workflow's tasks, and the dependency relation is acyclic.
\<close>

theorem validate_iff:
  "validate w = Inr () \<longleftrightarrow> graph_ok (wf_tasks w) \<and> acyclic (dep_rel (wf_tasks w))"
proof
  assume ok: "graph_ok (wf_tasks w) \<and> acyclic (dep_rel (wf_tasks w))"
  then have "td_key t \<notin> set (td_deps t)" if "t \<in> set (wf_tasks w)" for t
    using acyclic_no_self[OF _ _ that] by (simp add: graph_ok_def)
  with ok show "validate w = Inr ()" by (simp add: validate_parts assert_acyclic_spec)
qed (simp add: validate_parts validated_acyclic)

text \<open>
  A workflow whose only fault is a cycle is refused, and the refusal lists, in order, exactly
  the task keys that lie on a dependency cycle or depend on one.
\<close>

lemma validate_reports_cycle:
  assumes "graph_ok (wf_tasks w)" and "\<forall>t \<in> set (wf_tasks w). td_key t \<notin> set (td_deps t)"
    and "\<not> acyclic (dep_rel (wf_tasks w))"
  shows "validate w = Inl (WorkflowValidationError
           (DependencyCycle (sorted_list_of_set (behind_cycle (wf_tasks w)))))"
proof -
  have "fold_res (validate_task (map td_key (wf_tasks w))) (wf_tasks w) () = Inr ()"
    using assms(1,2) unfolding fold_validate_task_ok graph_ok_def by auto
  with assms show ?thesis
    by (simp add: validate_def Let_def length_remdups_distinct graph_ok_def assert_acyclic_spec
        del: length_map)
qed

definition cyclic_demo :: workflow_definition where
  "cyclic_demo =
     (let task = (\<lambda>k d. \<lparr>td_key = k, td_task_type = ''x'', td_definition_version = ''1'',
        td_dependencies = [\<lparr>dd_task_key = d, dd_allowed_statuses = {T_SUCCEEDED}\<rparr>],
        td_assigned_agent_role = None, td_input_refs = [], td_execution_policy = [], td_model_policy = None,
        td_tool_policy = None, td_retry_policy = default_retry_policy, td_priority = 100,
        td_deadline_seconds = None, td_human_gate = None, td_human_gate_position = GateBefore\<rparr>)
      in \<lparr>workflow_version = ''1'', wf_tasks = [task ''a'' ''b'', task ''b'' ''a''], wf_metadata = []\<rparr>)"

end
