(* ===== verification/Tasks.thy ===== *)
theory Tasks
  imports Graph_Check
begin

text \<open>
  The canonical workflow state and its queries (\<open>db/models/engagement.py\<close>,
  \<open>orchestration/repository.py\<close>, \<open>EngagementRepository\<close> of \<open>db/repositories.py\<close>) and
  \<open>WorkflowCompiler.compile\<close>, which writes a validated definition into it. The column
  \<open>updated_at\<close>, which no orchestration code reads, is left out.
\<close>

section \<open>Rows\<close>

record engagement_row =
  engagement_id :: ident
  eng_tenant :: ident
  eng_status :: engagement_status
  eng_created_at :: time
  eng_started_at :: "time option"
  eng_completed_at :: "time option"

record task_row =
  task_id :: ident
  tk_tenant :: ident
  tk_engagement :: ident
  task_key :: string
  task_type :: string
  definition_version :: string
  tk_status :: task_status
  priority :: int
  assigned_agent_role :: "string option"
  attempt_count :: nat
  lease_owner :: "ident option"
  lease_expires_at :: "time option"
  available_at :: "time option"
  deadline_at :: "time option"
  tk_started_at :: "time option"
  tk_completed_at :: "time option"
  input_refs_json :: "string list"
  output_refs_json :: "string list"
  result_json :: "pydict option"
  tk_idempotency_key :: string
  execution_policy_json :: pydict
  model_policy :: "string option"
  tool_policy :: "string option"
  human_gate :: "string option"
  error_class :: "string option"
  last_error :: "string option"
  review_status :: "string option"
  tk_created_at :: time

datatype attempt_status = A_running | A_succeeded | A_retry_scheduled | A_failed | A_lease_expired
  | A_cancelled

record attempt_row =
  attempt_id :: ident
  at_tenant :: ident
  at_engagement :: ident
  at_task :: ident
  attempt_no :: nat
  at_worker :: ident
  at_status :: attempt_status
  at_started_at :: time
  at_completed_at :: "time option"
  at_lease_expires_at :: "time option"
  at_failure_class :: "string option"
  at_error_message :: "string option"
  at_result_json :: "pydict option"
  at_output_refs :: "string list"
  at_trace_id :: "string option"

record dependency_row =
  dependency_id :: ident
  dp_tenant :: ident
  dp_task :: ident
  depends_on_task_id :: ident
  condition_json :: pydict

record orch_store = store +
  engagements :: "engagement_row list"
  tasks :: "task_row list"
  dependencies :: "dependency_row list"
  attempts :: "attempt_row list"

section \<open>Queries\<close>

definition get_engagement :: "ident \<Rightarrow> ident \<Rightarrow> 'a orch_store_scheme \<Rightarrow> engagement_row option" where
  "get_engagement tenant eid s =
     find (\<lambda>e. eng_tenant e = tenant \<and> engagement_id e = eid) (engagements s)"

definition active_status :: "engagement_status \<Rightarrow> bool" where
  "active_status st \<longleftrightarrow> st \<in> {E_RUNNING, E_WAITING_APPROVAL, E_BLOCKED}"

definition list_active_engagements :: "ident \<Rightarrow> 'a orch_store_scheme \<Rightarrow> engagement_row list" where
  "list_active_engagements tenant s =
     sort_key (\<lambda>e. (eng_created_at e, engagement_id e))
       (filter (\<lambda>e. eng_tenant e = tenant \<and> active_status (eng_status e)) (engagements s))"

definition get_task :: "ident \<Rightarrow> ident \<Rightarrow> 'a orch_store_scheme \<Rightarrow> task_row option" where
  "get_task tenant tid s = find (\<lambda>t. tk_tenant t = tenant \<and> task_id t = tid) (tasks s)"

definition of_engagement :: "ident \<Rightarrow> ident \<Rightarrow> task_row \<Rightarrow> bool" where
  "of_engagement tenant eid t \<longleftrightarrow> tk_tenant t = tenant \<and> tk_engagement t = eid"

definition list_tasks :: "ident \<Rightarrow> ident \<Rightarrow> 'a orch_store_scheme \<Rightarrow> task_row list" where
  "list_tasks tenant eid s =
     sort_key (\<lambda>t. (priority t, tk_created_at t, task_key t))
       (filter (of_engagement tenant eid) (tasks s))"

definition list_dependencies :: "ident \<Rightarrow> ident \<Rightarrow> 'a orch_store_scheme \<Rightarrow> dependency_row list" where
  "list_dependencies tenant eid s =
     sort_key (\<lambda>d. (dp_task d, depends_on_task_id d))
       (filter (\<lambda>d. dp_tenant d = tenant \<and>
                    (\<exists>t \<in> set (tasks s). task_id t = dp_task d \<and> tk_engagement t = eid))
         (dependencies s))"

definition get_attempt :: "ident \<Rightarrow> ident \<Rightarrow> nat \<Rightarrow> 'a orch_store_scheme \<Rightarrow> attempt_row option" where
  "get_attempt tenant tid n s =
     find (\<lambda>a. at_tenant a = tenant \<and> at_task a = tid \<and> attempt_no a = n) (attempts s)"

definition list_attempts ::
  "ident \<Rightarrow> ident option \<Rightarrow> ident option \<Rightarrow> 'a orch_store_scheme \<Rightarrow> attempt_row list"
where
  "list_attempts tenant eng tid s =
     sort_key (\<lambda>a. (at_started_at a, at_task a, attempt_no a))
       (filter (\<lambda>a. at_tenant a = tenant \<and> (eng = None \<or> Some (at_engagement a) = eng) \<and>
                    (tid = None \<or> Some (at_task a) = tid)) (attempts s))"

definition lease_matches :: "task_row \<Rightarrow> ident \<Rightarrow> time \<Rightarrow> bool" where
  "lease_matches t worker now \<longleftrightarrow> tk_status t = T_RUNNING \<and> lease_owner t = Some worker \<and>
     (case lease_expires_at t of None \<Rightarrow> False | Some x \<Rightarrow> now < x)"

definition at_most :: "time option \<Rightarrow> time \<Rightarrow> bool" where
  "at_most x now \<longleftrightarrow> (case x of None \<Rightarrow> False | Some v \<Rightarrow> v \<le> now)"

definition expired_running_tasks :: "ident \<Rightarrow> time \<Rightarrow> 'a orch_store_scheme \<Rightarrow> task_row list" where
  "expired_running_tasks tenant now s =
     sort_key (\<lambda>t. (the (lease_expires_at t), task_id t))
       (filter (\<lambda>t. tk_tenant t = tenant \<and> tk_status t = T_RUNNING \<and> at_most (lease_expires_at t) now)
         (tasks s))"

definition due_retry_tasks :: "ident \<Rightarrow> time \<Rightarrow> 'a orch_store_scheme \<Rightarrow> task_row list" where
  "due_retry_tasks tenant now s =
     sort_key (\<lambda>t. (the (available_at t), task_id t))
       (filter (\<lambda>t. tk_tenant t = tenant \<and> tk_status t = T_RETRY_WAIT \<and> at_most (available_at t) now)
         (tasks s))"

definition TERMINAL_TASK_STATUSES :: "task_status set" where
  "TERMINAL_TASK_STATUSES = {T_SUCCEEDED, T_FAILED, T_BLOCKED, T_CANCELLED, T_SKIPPED}"

definition FAILURE_TASK_STATUSES :: "task_status set" where
  "FAILURE_TASK_STATUSES = {T_FAILED, T_BLOCKED, T_CANCELLED}"

definition overdue_nonterminal_tasks :: "ident \<Rightarrow> time \<Rightarrow> 'a orch_store_scheme \<Rightarrow> task_row list" where
  "overdue_nonterminal_tasks tenant now s =
     sort_key (\<lambda>t. (the (deadline_at t), task_id t))
       (filter (\<lambda>t. tk_tenant t = tenant \<and> tk_status t \<notin> TERMINAL_TASK_STATUSES \<and>
                    at_most (deadline_at t) now) (tasks s))"

section \<open>Writes\<close>

text \<open>
  Assigning to a mapped row rewrites it in its table. Inserting checks the primary key and the
  unique constraints of the table.
\<close>

definition put_task :: "task_row \<Rightarrow> 'a orch_store_scheme \<Rightarrow> 'a orch_store_scheme" where
  "put_task t s = s\<lparr>tasks := put task_id t (tasks s)\<rparr>"

definition put_engagement :: "engagement_row \<Rightarrow> 'a orch_store_scheme \<Rightarrow> 'a orch_store_scheme" where
  "put_engagement e s = s\<lparr>engagements := put engagement_id e (engagements s)\<rparr>"

definition add_engagement :: "engagement_row \<Rightarrow> 'a orch_store_scheme \<Rightarrow> 'a orch_store_scheme res" where
  "add_engagement e s =
     (if has_key engagement_id (engagement_id e) (engagements s) then Inl IntegrityError
      else Inr (s\<lparr>engagements := engagements s @ [e]\<rparr>))"

definition add_task :: "task_row \<Rightarrow> 'a orch_store_scheme \<Rightarrow> 'a orch_store_scheme res" where
  "add_task t s =
     (if has_key task_id (task_id t) (tasks s) \<or>
         has_key (\<lambda>r. (tk_engagement r, task_key r)) (tk_engagement t, task_key t) (tasks s) \<or>
         has_key (\<lambda>r. (tk_tenant r, tk_idempotency_key r)) (tk_tenant t, tk_idempotency_key t) (tasks s)
      then Inl IntegrityError
      else Inr (s\<lparr>tasks := tasks s @ [t]\<rparr>))"

definition add_dependency :: "dependency_row \<Rightarrow> 'a orch_store_scheme \<Rightarrow> 'a orch_store_scheme res" where
  "add_dependency d s =
     (if has_key dependency_id (dependency_id d) (dependencies s) \<or>
         has_key (\<lambda>r. (dp_task r, depends_on_task_id r)) (dp_task d, depends_on_task_id d) (dependencies s)
      then Inl IntegrityError
      else Inr (s\<lparr>dependencies := dependencies s @ [d]\<rparr>))"

definition transition_task ::
  "ident \<Rightarrow> ident \<Rightarrow> task_status \<Rightarrow> task_status \<Rightarrow> string option \<Rightarrow> 'a orch_store_scheme
   \<Rightarrow> bool \<times> 'a orch_store_scheme"
where
  "transition_task tenant tid expected new err s =
     (case find (\<lambda>t. tk_tenant t = tenant \<and> task_id t = tid \<and> tk_status t = expected) (tasks s) of
        None \<Rightarrow> (False, s)
      | Some t \<Rightarrow> (True, put_task (t\<lparr>tk_status := new, error_class := err\<rparr>) s))"

definition start_attempt ::
  "task_row \<Rightarrow> ident \<Rightarrow> time \<Rightarrow> string option \<Rightarrow> 'a orch_store_scheme \<Rightarrow> 'a orch_store_scheme res"
where
  "start_attempt t worker now trace s =
     (let (aid, s1) = new_id ''att'' s;
          a = \<lparr>attempt_id = aid, at_tenant = tk_tenant t, at_engagement = tk_engagement t,
               at_task = task_id t, attempt_no = attempt_count t, at_worker = worker,
               at_status = A_running, at_started_at = now, at_completed_at = None,
               at_lease_expires_at = lease_expires_at t, at_failure_class = None,
               at_error_message = None, at_result_json = None, at_output_refs = [],
               at_trace_id = trace\<rparr>
      in if has_key attempt_id aid (attempts s1) \<or>
            has_key (\<lambda>r. (at_task r, attempt_no r)) (task_id t, attempt_count t) (attempts s1) \<or>
            attempt_count t = 0
         then Inl IntegrityError
         else Inr (s1\<lparr>attempts := attempts s1 @ [a]\<rparr>))"

definition finish_attempt ::
  "task_row \<Rightarrow> attempt_status \<Rightarrow> time \<Rightarrow> string option \<Rightarrow> string option \<Rightarrow> pydict option \<Rightarrow> string list
   \<Rightarrow> 'a orch_store_scheme \<Rightarrow> 'a orch_store_scheme"
where
  "finish_attempt t st now failure message result refs s =
     (case get_attempt (tk_tenant t) (task_id t) (attempt_count t) s of
        None \<Rightarrow> s
      | Some a \<Rightarrow>
          if at_status a \<noteq> A_running then s
          else s\<lparr>attempts := put attempt_id
            (a\<lparr>at_status := st, at_completed_at := Some now,
               at_lease_expires_at := lease_expires_at t, at_failure_class := failure,
               at_error_message := message, at_result_json := result, at_output_refs := refs\<rparr>)
            (attempts s)\<rparr>)"

definition update_attempt_lease ::
  "ident \<Rightarrow> ident \<Rightarrow> nat \<Rightarrow> time option \<Rightarrow> 'a orch_store_scheme \<Rightarrow> 'a orch_store_scheme"
where
  "update_attempt_lease tenant tid n expires s =
     s\<lparr>attempts := map (\<lambda>a. if at_tenant a = tenant \<and> at_task a = tid \<and> attempt_no a = n \<and>
                               at_status a = A_running
                            then a\<lparr>at_lease_expires_at := expires\<rparr> else a) (attempts s)\<rparr>"

text \<open>
  Claiming: the first of at most twenty candidates whose guarded update still matches.
\<close>

definition claimable :: "time \<Rightarrow> task_row \<Rightarrow> bool" where
  "claimable now t \<longleftrightarrow> tk_status t = T_READY \<and> (available_at t = None \<or> at_most (available_at t) now)"

definition claim_filter ::
  "ident \<Rightarrow> time \<Rightarrow> ident option \<Rightarrow> string list \<Rightarrow> string list \<Rightarrow> task_row \<Rightarrow> bool"
where
  "claim_filter tenant now eng types roles t \<longleftrightarrow>
     tk_tenant t = tenant \<and> claimable now t \<and> \<not> at_most (deadline_at t) now \<and>
     (case eng of None \<Rightarrow> True | Some e \<Rightarrow> tk_engagement t = e) \<and>
     (types = [] \<or> task_type t \<in> set types) \<and>
     (roles = [] \<or> (case assigned_agent_role t of None \<Rightarrow> False | Some r \<Rightarrow> r \<in> set roles))"

definition claim_update :: "ident \<Rightarrow> time \<Rightarrow> int \<Rightarrow> task_row \<Rightarrow> task_row" where
  "claim_update worker now lease_seconds t =
     t\<lparr>tk_status := T_RUNNING, lease_owner := Some worker,
       lease_expires_at := Some (now + of_int lease_seconds), attempt_count := attempt_count t + 1,
       tk_started_at := Some now, available_at := None, error_class := None, last_error := None\<rparr>"

fun claim_first ::
  "ident \<Rightarrow> ident \<Rightarrow> time \<Rightarrow> int \<Rightarrow> task_row list \<Rightarrow> 'a orch_store_scheme
   \<Rightarrow> task_row option \<times> 'a orch_store_scheme"
where
  "claim_first tenant worker now lease_seconds [] s = (None, s)"
| "claim_first tenant worker now lease_seconds (c # cs) s =
     (case find (\<lambda>t. task_id t = task_id c \<and> tk_tenant t = tenant \<and> claimable now t) (tasks s) of
        None \<Rightarrow> claim_first tenant worker now lease_seconds cs s
      | Some t \<Rightarrow>
          let t' = claim_update worker now lease_seconds t in (Some t', put_task t' s))"

definition repo_claim_next ::
  "ident \<Rightarrow> ident \<Rightarrow> time \<Rightarrow> int \<Rightarrow> ident option \<Rightarrow> string list \<Rightarrow> string list
   \<Rightarrow> 'a orch_store_scheme \<Rightarrow> task_row option \<times> 'a orch_store_scheme"
where
  "repo_claim_next tenant worker now lease_seconds eng types roles s =
     claim_first tenant worker now lease_seconds
       (take 20 (sort_key (\<lambda>t. (priority t, tk_created_at t, task_key t))
         (filter (claim_filter tenant now eng types roles) (tasks s)))) s"

definition extend_lease ::
  "ident \<Rightarrow> ident \<Rightarrow> ident \<Rightarrow> time \<Rightarrow> int \<Rightarrow> 'a orch_store_scheme
   \<Rightarrow> task_row option \<times> 'a orch_store_scheme"
where
  "extend_lease tenant tid worker now lease_seconds s =
     (case find (\<lambda>t. tk_tenant t = tenant \<and> task_id t = tid \<and> lease_matches t worker now) (tasks s) of
        None \<Rightarrow> (None, s)
      | Some t \<Rightarrow>
          let t' = t\<lparr>lease_expires_at := Some (now + of_int lease_seconds)\<rparr>
          in (Some t', put_task t' s))"

section \<open>Compilation\<close>

text \<open>\<open>task_ids\<close>: one new id per task definition, in definition order.\<close>

fun draw_task_ids :: "task_definition list \<Rightarrow> 'a orch_store_scheme
    \<Rightarrow> (string \<times> ident) list \<times> 'a orch_store_scheme" where
  "draw_task_ids [] s = ([], s)"
| "draw_task_ids (d # ds) s =
     (let (i, s1) = new_id ''tsk'' s; (m, s2) = draw_task_ids ds s1 in ((td_key d, i) # m, s2))"

definition new_task_row ::
  "ident \<Rightarrow> ident \<Rightarrow> string \<Rightarrow> time \<Rightarrow> ident \<Rightarrow> time \<Rightarrow> task_definition \<Rightarrow> task_row"
where
  "new_task_row tenant eid version compiled_at tid created d =
     \<lparr>task_id = tid, tk_tenant = tenant, tk_engagement = eid, task_key = td_key d,
      task_type = td_task_type d, definition_version = td_definition_version d,
      tk_status = T_PENDING, priority = td_priority d,
      assigned_agent_role = td_assigned_agent_role d, attempt_count = 0, lease_owner = None,
      lease_expires_at = None, available_at = None,
      deadline_at = map_option (\<lambda>n. compiled_at + of_int n) (td_deadline_seconds d),
      tk_started_at = None, tk_completed_at = None, input_refs_json = td_input_refs d,
      output_refs_json = [], result_json = None,
      tk_idempotency_key = eid @ '':'' @ version @ '':'' @ td_key d @ '':'' @ td_definition_version d,
      execution_policy_json = persisted_execution_policy d, model_policy = td_model_policy d,
      tool_policy = td_tool_policy d, human_gate = td_human_gate d, error_class = None,
      last_error = None, review_status = None, tk_created_at = created\<rparr>"

definition compile_task ::
  "ident \<Rightarrow> ident \<Rightarrow> string \<Rightarrow> time \<Rightarrow> (string \<times> ident) list \<Rightarrow> task_definition
   \<Rightarrow> task_row list \<times> 'a orch_store_scheme \<Rightarrow> (task_row list \<times> 'a orch_store_scheme) res"
where
  "compile_task tenant eid version compiled_at ids d rs =
     (case map_of ids (td_key d) of None \<Rightarrow> Inl KeyError
      | Some tid \<Rightarrow>
          let (created, s1) = utc_now (snd rs);
              t = new_task_row tenant eid version compiled_at tid created d
          in bind_res (add_task t s1) (\<lambda>s2. Inr (fst rs @ [t], s2)))"

definition allowed_statuses_json :: "task_status set \<Rightarrow> pyval" where
  "allowed_statuses_json A =
     PList (map PStr (sort (map task_status_value (filter (\<lambda>x. x \<in> A) task_statuses))))"

definition compile_dependency ::
  "ident \<Rightarrow> (string \<times> ident) list \<Rightarrow> task_definition \<times> dependency_definition
   \<Rightarrow> 'a orch_store_scheme \<Rightarrow> 'a orch_store_scheme res"
where
  "compile_dependency tenant ids p s =
     (let (i, s1) = new_id ''dep'' s in
      case (map_of ids (td_key (fst p)), map_of ids (dd_task_key (snd p))) of
        (Some tid, Some did) \<Rightarrow>
          add_dependency \<lparr>dependency_id = i, dp_tenant = tenant, dp_task = tid,
            depends_on_task_id = did,
            condition_json = [(''allowed_statuses'', allowed_statuses_json (dd_allowed_statuses (snd p)))]\<rparr> s1
      | _ \<Rightarrow> Inl KeyError)"

definition dependency_pairs :: "workflow_definition \<Rightarrow> (task_definition \<times> dependency_definition) list" where
  "dependency_pairs w = concat (map (\<lambda>d. map (Pair d) (td_dependencies d)) (wf_tasks w))"

definition compile :: "ident \<Rightarrow> ident \<Rightarrow> workflow_definition \<Rightarrow> time \<Rightarrow> 'a orch_store_scheme
    \<Rightarrow> (task_row list \<times> 'a orch_store_scheme) res" where
  "compile tenant eid w compiled_at s =
     bind_res (validate w) (\<lambda>_.
       if list_tasks tenant eid s \<noteq> [] then Inl (WorkflowAlreadyCompiledError eid)
       else
         let (ids, s1) = draw_task_ids (wf_tasks w) s in
         bind_res (fold_res (compile_task tenant eid (workflow_version w) compiled_at ids)
                     (wf_tasks w) ([], s1))
           (\<lambda>rs. bind_res (fold_res (compile_dependency tenant ids) (dependency_pairs w) (snd rs))
             (\<lambda>s3. Inr (fst rs, s3))))"

end
