(* ===== verification/Outbox.thy ===== *)
theory Outbox
  imports Ledger
begin

text \<open>
  Delivery of the outbox: the claim and acknowledgement queries of \<open>OutboxRepository\<close>
  (\<open>db/repositories.py\<close>) and \<open>OutboxDispatcher.dispatch_once\<close> (\<open>outbox.py\<close>). The publisher is
  a parameter; publishing takes time, so it may also change the store, which stands for the
  other transactions that commit meanwhile.
\<close>

section \<open>Queries and updates\<close>

definition outbox_due :: "time \<Rightarrow> outbox_row \<Rightarrow> bool" where
  "outbox_due now r \<longleftrightarrow> ob_published_at r = None \<and> ob_dead_lettered_at r = None \<and> ob_available_at r \<le> now \<and>
     (case ob_lease_expires_at r of None \<Rightarrow> True | Some x \<Rightarrow> x \<le> now)"

definition outbox_order :: "outbox_row \<Rightarrow> time \<times> time \<times> ident" where
  "outbox_order r = (ob_available_at r, ob_occurred_at r, outbox_id r)"

definition outbox_pending :: "time option \<Rightarrow> nat \<Rightarrow> 'a store_scheme \<Rightarrow> outbox_row list" where
  "outbox_pending now limit s =
     take limit (sort_key outbox_order
       (filter (\<lambda>r. case now of None \<Rightarrow> ob_published_at r = None \<and> ob_dead_lettered_at r = None
                     | Some t \<Rightarrow> outbox_due t r) (outbox_events s)))"

definition put_outbox :: "outbox_row \<Rightarrow> 'a store_scheme \<Rightarrow> 'a store_scheme" where
  "put_outbox r s = s\<lparr>outbox_events := put outbox_id r (outbox_events s)\<rparr>"

definition lease_row :: "ident \<Rightarrow> time \<Rightarrow> outbox_row \<Rightarrow> outbox_row" where
  "lease_row worker expires r = r\<lparr>ob_lease_owner := Some worker, ob_lease_expires_at := Some expires\<rparr>"

text \<open>The loop over the candidates; each is leased by an update that checks the conditions again.\<close>

fun outbox_claim_rows ::
  "ident \<Rightarrow> time \<Rightarrow> time \<Rightarrow> outbox_row list \<Rightarrow> 'a store_scheme \<Rightarrow> outbox_row list \<times> 'a store_scheme"
where
  "outbox_claim_rows worker now expires [] s = ([], s)"
| "outbox_claim_rows worker now expires (c # cs) s =
     (case find (\<lambda>r. outbox_id r = outbox_id c \<and> outbox_due now r) (outbox_events s) of
        None \<Rightarrow> outbox_claim_rows worker now expires cs s
      | Some r \<Rightarrow>
          let r' = lease_row worker expires r;
              (rs, s') = outbox_claim_rows worker now expires cs (put_outbox r' s)
          in (r' # rs, s'))"

definition outbox_claim ::
  "ident \<Rightarrow> time \<Rightarrow> int \<Rightarrow> int \<Rightarrow> 'a store_scheme \<Rightarrow> (outbox_row list \<times> 'a store_scheme) res"
where
  "outbox_claim worker now lease_seconds limit s =
     (if lease_seconds \<le> 0 \<or> limit \<le> 0 then Inl ValueError
      else Inr (outbox_claim_rows worker now (now + of_int lease_seconds)
             (outbox_pending (Some now) (nat limit) s) s))"

definition outbox_held :: "ident \<Rightarrow> ident \<Rightarrow> outbox_row \<Rightarrow> bool" where
  "outbox_held oid worker r \<longleftrightarrow>
     outbox_id r = oid \<and> ob_published_at r = None \<and> ob_lease_owner r = Some worker"

definition published_row :: "time \<Rightarrow> string \<Rightarrow> outbox_row \<Rightarrow> outbox_row" where
  "published_row t msg r =
     r\<lparr>ob_published_at := Some t, ob_published_message_id := Some msg,
       ob_publish_attempts := ob_publish_attempts r + 1, ob_lease_owner := None,
       ob_lease_expires_at := None, ob_last_error := None\<rparr>"

definition mark_published ::
  "ident \<Rightarrow> ident \<Rightarrow> time \<Rightarrow> string \<Rightarrow> 'a store_scheme \<Rightarrow> bool \<times> 'a store_scheme"
where
  "mark_published oid worker t msg s =
     (case find (outbox_held oid worker) (outbox_events s) of
        None \<Rightarrow> (False, s)
      | Some r \<Rightarrow> (True, put_outbox (published_row t msg r) s))"

definition failed_row :: "time \<Rightarrow> string \<Rightarrow> rat \<Rightarrow> bool \<Rightarrow> outbox_row \<Rightarrow> outbox_row" where
  "failed_row now err delay dead r =
     (let r1 = r\<lparr>ob_publish_attempts := ob_publish_attempts r + 1, ob_last_error := Some (take 4000 err),
                 ob_lease_owner := None, ob_lease_expires_at := None,
                 ob_available_at := now + max delay 0\<rparr>
      in if dead then r1\<lparr>ob_dead_lettered_at := Some now\<rparr> else r1)"

definition mark_failed ::
  "ident \<Rightarrow> ident \<Rightarrow> time \<Rightarrow> string \<Rightarrow> rat \<Rightarrow> bool \<Rightarrow> 'a store_scheme \<Rightarrow> bool \<times> 'a store_scheme"
where
  "mark_failed oid worker now err delay dead s =
     (case find (outbox_held oid worker) (outbox_events s) of
        None \<Rightarrow> (False, s)
      | Some r \<Rightarrow> (True, put_outbox (failed_row now err delay dead r) s))"

section \<open>Dispatch\<close>

record published_message =
  pm_outbox_id :: ident
  pm_message_id :: string
  pm_event_type :: string
  pm_tenant :: ident

record dispatch_report =
  dr_claimed :: nat
  dr_published :: nat
  dr_failed :: nat
  dr_dead_lettered :: nat
  dr_messages :: "published_message list"

record dispatcher =
  max_publish_attempts :: nat
  max_backoff_seconds :: int

text \<open>The constructor refuses a bound below one.\<close>

definition dispatcher_ok :: "dispatcher \<Rightarrow> bool" where
  "dispatcher_ok d \<longleftrightarrow> 1 \<le> max_publish_attempts d"

definition retry_delay :: "dispatcher \<Rightarrow> nat \<Rightarrow> int" where
  "retry_delay d attempt_no = min (2 ^ (attempt_no - 1)) (max_backoff_seconds d)"

text \<open>
  Each claimed event is published and acknowledged in a transaction of its own: a lost lease
  raises, and what was acknowledged before stays.
\<close>

fun dispatch_events ::
  "dispatcher \<Rightarrow> (outbox_row \<Rightarrow> 'a store_scheme \<Rightarrow> (string + string) \<times> 'a store_scheme) \<Rightarrow> ident
   \<Rightarrow> outbox_row list \<Rightarrow> dispatch_report \<Rightarrow> 'a store_scheme \<Rightarrow> dispatch_report res \<times> 'a store_scheme"
where
  "dispatch_events d publish worker [] rep s = (Inr rep, s)"
| "dispatch_events d publish worker (e # es) rep s =
     (case publish e s of
        (Inl err, s1) \<Rightarrow>
          let attempt_no = ob_publish_attempts e + 1;
              dead = (max_publish_attempts d \<le> attempt_no);
              (now, s2) = utc_now s1;
              (updated, s3) = mark_failed (outbox_id e) worker now err (of_int (retry_delay d attempt_no)) dead s2
          in if updated
             then dispatch_events d publish worker es
                    (rep\<lparr>dr_failed := dr_failed rep + 1,
                         dr_dead_lettered := dr_dead_lettered rep + (if dead then 1 else 0)\<rparr>) s3
             else (Inl RuntimeError, s2)
      | (Inr msg, s1) \<Rightarrow>
          let (now, s2) = utc_now s1;
              (updated, s3) = mark_published (outbox_id e) worker now msg s2
          in if updated
             then dispatch_events d publish worker es
                    (rep\<lparr>dr_published := dr_published rep + 1,
                         dr_messages := dr_messages rep @
                           [\<lparr>pm_outbox_id = outbox_id e, pm_message_id = msg,
                             pm_event_type = ob_event_type e, pm_tenant = ob_tenant e\<rparr>]\<rparr>) s3
             else (Inl RuntimeError, s2))"

definition dispatch_once ::
  "dispatcher \<Rightarrow> (outbox_row \<Rightarrow> 'a store_scheme \<Rightarrow> (string + string) \<times> 'a store_scheme) \<Rightarrow> ident \<Rightarrow> int \<Rightarrow> int
   \<Rightarrow> 'a store_scheme \<Rightarrow> dispatch_report res \<times> 'a store_scheme"
where
  "dispatch_once d publish worker limit lease_seconds s =
     (let (now, s1) = utc_now s in
      case outbox_claim worker now lease_seconds limit s1 of
        Inl x \<Rightarrow> (Inl x, s1)
      | Inr (claimed, s2) \<Rightarrow>
          dispatch_events d publish worker claimed
            \<lparr>dr_claimed = length claimed, dr_published = 0, dr_failed = 0, dr_dead_lettered = 0,
             dr_messages = []\<rparr> s2)"

section \<open>The life of a message\<close>

text \<open>What one transaction may do to a row; the repository's updates are shown to be such moves.\<close>

inductive outbox_edge :: "outbox_row \<Rightarrow> outbox_row \<Rightarrow> bool" where
  leased: "outbox_due now r \<Longrightarrow> outbox_edge r (lease_row worker (now + n) r)"
| published: "outbox_held oid worker r \<Longrightarrow> outbox_edge r (published_row t msg r)"
| failed: "outbox_held oid worker r \<Longrightarrow> outbox_edge r (failed_row now err delay dead r)"

definition outbox_row_ok :: "outbox_row \<Rightarrow> bool" where
  "outbox_row_ok r \<longleftrightarrow> (ob_lease_owner r = None \<longleftrightarrow> ob_lease_expires_at r = None) \<and>
     (ob_published_at r \<noteq> None \<longrightarrow> ob_lease_owner r = None \<and> ob_dead_lettered_at r = None \<and>
        ob_published_message_id r \<noteq> None \<and> 1 \<le> ob_publish_attempts r) \<and>
     (ob_dead_lettered_at r \<noteq> None \<longrightarrow> ob_lease_owner r = None \<and> 1 \<le> ob_publish_attempts r)"

definition same_message :: "outbox_row \<Rightarrow> outbox_row \<Rightarrow> bool" where
  "same_message r r' \<longleftrightarrow> outbox_id r' = outbox_id r \<and> ob_tenant r' = ob_tenant r \<and>
     ob_aggregate_type r' = ob_aggregate_type r \<and> ob_aggregate_id r' = ob_aggregate_id r \<and>
     ob_event_type r' = ob_event_type r \<and> ob_payload r' = ob_payload r \<and>
     ob_idempotency_key r' = ob_idempotency_key r \<and> ob_occurred_at r' = ob_occurred_at r \<and>
     ob_publish_attempts r \<le> ob_publish_attempts r'"

lemmas outbox_rows = lease_row_def published_row_def failed_row_def outbox_held_def outbox_due_def Let_def

lemma outbox_row_ids [simp]:
  "outbox_id (lease_row worker x r) = outbox_id r"
  "outbox_id (published_row t msg r) = outbox_id r"
  "outbox_id (failed_row now err delay dead r) = outbox_id r"
  by (simp_all add: outbox_rows)

lemma lease_row_attempts: "ob_publish_attempts (lease_row worker x r) = ob_publish_attempts r"
  by (simp add: lease_row_def)

lemma unleased_rows [simp]:
  "published_row t msg (lease_row worker x r) = published_row t msg r"
  "failed_row now err delay dead (lease_row worker x r) = failed_row now err delay dead r"
  by (simp_all add: outbox_rows)

lemma outbox_edge_ok: "outbox_edge r r' \<Longrightarrow> outbox_row_ok r \<Longrightarrow> outbox_row_ok r'"
  by (induction rule: outbox_edge.induct) (auto simp: outbox_rows outbox_row_ok_def split: if_splits)

lemma outbox_edge_same: "outbox_edge r r' \<Longrightarrow> same_message r r'"
  by (induction rule: outbox_edge.induct) (simp_all add: outbox_rows same_message_def)

text \<open>A published or dead-lettered message does not move any more.\<close>

lemma outbox_edge_final:
  "outbox_edge r r' \<Longrightarrow> outbox_row_ok r \<Longrightarrow> ob_published_at r = None \<and> ob_dead_lettered_at r = None"
  by (induction rule: outbox_edge.induct) (auto simp: outbox_rows outbox_row_ok_def)

lemma same_message_trans: "same_message a b \<Longrightarrow> same_message b c \<Longrightarrow> same_message a c"
  by (simp add: same_message_def)

lemma outbox_edges:
  assumes "outbox_edge\<^sup>*\<^sup>* r r'"
  shows "same_message r r'" and "outbox_row_ok r \<Longrightarrow> outbox_row_ok r'"
    and "outbox_row_ok r \<Longrightarrow> ob_published_at r \<noteq> None \<or> ob_dead_lettered_at r \<noteq> None \<Longrightarrow> r' = r"
proof -
  show "same_message r r'" using assms
    by (induction rule: rtranclp_induct) (simp add: same_message_def, blast intro: same_message_trans outbox_edge_same)
  show "outbox_row_ok r \<Longrightarrow> outbox_row_ok r'" using assms
    by (induction rule: rtranclp_induct) (auto intro: outbox_edge_ok)
  show "outbox_row_ok r \<Longrightarrow> ob_published_at r \<noteq> None \<or> ob_dead_lettered_at r \<noteq> None \<Longrightarrow> r' = r"
    using assms by (cases rule: converse_rtranclpE) (auto dest: outbox_edge_final)
qed

text \<open>Every row of a table follows the edges; nothing else in the store changes.\<close>

definition outbox_follow :: "'a store_scheme \<Rightarrow> 'a store_scheme \<Rightarrow> bool" where
  "outbox_follow s s' \<longleftrightarrow> list_all2 outbox_edge\<^sup>*\<^sup>* (outbox_events s) (outbox_events s') \<and>
     audit_events s' = audit_events s \<and> store.more s' = store.more s"

lemma outbox_follow_refl: "outbox_follow s s"
  by (simp add: outbox_follow_def list_all2_refl)

lemma outbox_follow_trans:
  assumes "outbox_follow a b" "outbox_follow b c"
  shows "outbox_follow a c"
proof -
  have "list_all2 outbox_edge\<^sup>*\<^sup>* (outbox_events a) (outbox_events c)"
    by (rule list_all2_trans[of "outbox_edge\<^sup>*\<^sup>*" "outbox_edge\<^sup>*\<^sup>*" _ _ "outbox_events b"])
      (use assms in \<open>auto simp: outbox_follow_def\<close>)
  with assms show ?thesis by (simp add: outbox_follow_def)
qed

lemma outbox_follow_ids: "outbox_follow s s' \<Longrightarrow> map outbox_id (outbox_events s') = map outbox_id (outbox_events s)"
  unfolding outbox_follow_def list_all2_conv_all_nth
  by (auto intro!: nth_equalityI dest!: outbox_edges(1) simp: same_message_def)

lemma outbox_follow_put:
  assumes "distinct (map outbox_id (outbox_events s))" "r \<in> set (outbox_events s)" "outbox_edge r r'"
    "outbox_id r' = outbox_id r"
  shows "outbox_follow s (put_outbox r' s)"
proof -
  have "outbox_edge\<^sup>*\<^sup>* x (if outbox_id x = outbox_id r' then r' else x)" if "x \<in> set (outbox_events s)" for x
    using row_unique[OF assms(1) row_distinct[OF assms(1,2)] that] assms(3,4) by auto
  then show ?thesis
    by (simp add: outbox_follow_def put_outbox_def put_def list_all2_map2 list.rel_refl_strong)
qed

lemma mark_published_follow:
  assumes "distinct (map outbox_id (outbox_events s))"
  shows "outbox_follow s (snd (mark_published oid worker t msg s))"
  unfolding mark_published_def
  by (auto split: option.split dest!: find_SomeD
      intro!: outbox_follow_refl outbox_follow_put[OF assms] outbox_edge.published)

lemma mark_failed_follow:
  assumes "distinct (map outbox_id (outbox_events s))"
  shows "outbox_follow s (snd (mark_failed oid worker now err delay dead s))"
  unfolding mark_failed_def
  by (auto split: option.split dest!: find_SomeD
      intro!: outbox_follow_refl outbox_follow_put[OF assms] outbox_edge.failed)

lemma claim_rows_follow:
  assumes "distinct (map outbox_id (outbox_events s))"
  shows "outbox_follow s (snd (outbox_claim_rows worker now (now + n) cs s))"
  using assms
proof (induction cs arbitrary: s)
  case (Cons c cs)
  show ?case
  proof (cases "find (\<lambda>r. outbox_id r = outbox_id c \<and> outbox_due now r) (outbox_events s)")
    case (Some r)
    from find_SomeD[OF Some] have r: "r \<in> set (outbox_events s)" "outbox_due now r" by auto
    let ?s = "put_outbox (lease_row worker (now + n) r) s"
    have f: "outbox_follow s ?s"
      by (rule outbox_follow_put[OF Cons.prems r(1)]) (simp_all add: outbox_edge.leased[OF r(2)])
    have "distinct (map outbox_id (outbox_events ?s))" using Cons.prems outbox_follow_ids[OF f] by simp
    from outbox_follow_trans[OF f Cons.IH[OF this]] Some show ?thesis by (simp add: split_beta Let_def)
  qed (use Cons in simp)
qed (simp add: outbox_follow_refl)

text \<open>Delivery does not disturb the ledger: the moved rows still mirror its events.\<close>

lemma log_ok_follow:
  assumes "log_ok s" "audit_events s' = audit_events s"
    and moves: "list_all2 outbox_edge\<^sup>*\<^sup>* (outbox_events s) (outbox_events s')"
  shows "log_ok s'"
proof -
  have len: "length (outbox_events s') = length (outbox_events s)"
    and same: "i < length (outbox_events s) \<Longrightarrow> same_message (outbox_events s ! i) (outbox_events s' ! i)" for i
    using moves by (auto simp: list_all2_conv_all_nth intro: outbox_edges(1))
  have "map outbox_id (outbox_events s') = map outbox_id (outbox_events s)"
    "map (\<lambda>r. (ob_tenant r, ob_idempotency_key r)) (outbox_events s') = map (\<lambda>r. (ob_tenant r, ob_idempotency_key r)) (outbox_events s)"
    using len same by (auto intro!: nth_equalityI simp: same_message_def)
  moreover have "outbox_mirrors s'"
    using assms(1,2) len same
    by (simp add: log_ok_def outbox_mirrors_def list_all2_conv_all_nth mirrors_def same_message_def)
  ultimately show ?thesis using assms(1,2) by (simp add: log_ok_def ledger_ok_def outbox_keys_ok_def)
qed

section \<open>A dispatch run\<close>

lemma claim_rows_due:
  assumes "distinct (map outbox_id cs)"
    and "\<And>c. c \<in> set cs \<Longrightarrow> row outbox_id (outbox_id c) (outbox_events s) = Some c \<and> outbox_due now c"
  shows "fst (outbox_claim_rows worker now x cs s) = map (lease_row worker x) cs \<and>
    (\<forall>i. row outbox_id i (outbox_events (snd (outbox_claim_rows worker now x cs s))) =
       (if i \<in> outbox_id ` set cs then map_option (lease_row worker x) (row outbox_id i (outbox_events s))
        else row outbox_id i (outbox_events s)))"
  using assms
proof (induction cs arbitrary: s)
  case (Cons c cs)
  have c: "row outbox_id (outbox_id c) (outbox_events s) = Some c" "outbox_due now c" using Cons.prems(2) by simp_all
  let ?s = "put_outbox (lease_row worker x c) s"
  have look: "row outbox_id i (outbox_events ?s) =
      (if i = outbox_id c then Some (lease_row worker x c) else row outbox_id i (outbox_events s))" for i
    using c(1) by (simp add: put_outbox_def row_put)
  have f: "find (\<lambda>r. outbox_id r = outbox_id c \<and> outbox_due now r) (outbox_events s) = Some c"
    using c unfolding row_def by (auto simp: find_Some_iff)
  have "row outbox_id (outbox_id y) (outbox_events ?s) = Some y \<and> outbox_due now y" if "y \<in> set cs" for y
  proof -
    have "outbox_id y \<noteq> outbox_id c" using Cons.prems(1) that by (metis distinct.simps(2) imageI list.simps(9) set_map)
    then show ?thesis using Cons.prems(2)[of y] that by (simp add: look)
  qed
  from Cons.IH[OF _ this] Cons.prems(1) show ?case
    by (auto simp: f split_beta Let_def look c(1))
qed simp

text \<open>
  How an event of a run ends, as the publisher answered: acknowledged with the message id of the
  broker, or put back with a delay, or given up. \<open>answered\<close> says that the answer is the
  publisher's, asked with the leased row while that row was still in the outbox.
\<close>

definition settled_row :: "dispatcher \<Rightarrow> string + string \<Rightarrow> time \<Rightarrow> outbox_row \<Rightarrow> outbox_row" where
  "settled_row d answer t e = (case answer of
     Inr msg \<Rightarrow> published_row t msg e
   | Inl err \<Rightarrow> failed_row t err (of_int (retry_delay d (ob_publish_attempts e + 1)))
                 (max_publish_attempts d \<le> ob_publish_attempts e + 1) e)"

definition answered ::
  "(outbox_row \<Rightarrow> 'a store_scheme \<Rightarrow> (string + string) \<times> 'a store_scheme) \<Rightarrow> outbox_row \<Rightarrow> string + string \<Rightarrow> bool"
where
  "answered publish e answer \<longleftrightarrow>
     (\<exists>u. row outbox_id (outbox_id e) (outbox_events u) = Some e \<and> answer = fst (publish e u))"

definition gave_up :: "dispatcher \<Rightarrow> outbox_row \<times> (string + string) \<Rightarrow> bool" where
  "gave_up d ea \<longleftrightarrow> isl (snd ea) \<and> max_publish_attempts d \<le> ob_publish_attempts (fst ea) + 1"

fun messages_of :: "(outbox_row \<times> (string + string)) list \<Rightarrow> published_message list" where
  "messages_of [] = []"
| "messages_of ((e, Inr msg) # eas) = \<lparr>pm_outbox_id = outbox_id e, pm_message_id = msg,
     pm_event_type = ob_event_type e, pm_tenant = ob_tenant e\<rparr> # messages_of eas"
| "messages_of ((e, Inl err) # eas) = messages_of eas"

definition report_counts :: "dispatcher \<Rightarrow> (outbox_row \<times> (string + string)) list \<Rightarrow> dispatch_report \<Rightarrow> dispatch_report" where
  "report_counts d eas rep =
     rep\<lparr>dr_published := dr_published rep + length (filter (\<lambda>ea. \<not> isl (snd ea)) eas),
         dr_failed := dr_failed rep + length (filter (\<lambda>ea. isl (snd ea)) eas),
         dr_dead_lettered := dr_dead_lettered rep + length (filter (gave_up d) eas),
         dr_messages := dr_messages rep @ messages_of eas\<rparr>"

lemma settled_row_simps [simp]:
  "outbox_id (settled_row d answer t e) = outbox_id e"
  "settled_row d answer t (lease_row worker x e) = settled_row d answer t e"
  by (simp_all add: settled_row_def published_row_def failed_row_def lease_row_def Let_def split: sum.split)

lemma messages_answers:
  obtains "answers = []" | err as where "answers = Inl err # as" | msg as where "answers = Inr msg # as"
  by (metis list.exhaust sum.exhaust)

lemma lease_row_report:
  "outbox_id (lease_row worker x e) = outbox_id e" "ob_event_type (lease_row worker x e) = ob_event_type e"
  "ob_tenant (lease_row worker x e) = ob_tenant e" "gave_up d (lease_row worker x e, answer) = gave_up d (e, answer)"
  by (simp_all add: lease_row_def gave_up_def)

lemma report_lease:
  "messages_of (zip (map (lease_row worker x) cs) answers) = messages_of (zip cs answers)"
  "length (filter (gave_up d) (zip (map (lease_row worker x) cs) answers)) = length (filter (gave_up d) (zip cs answers))"
  "length (filter (\<lambda>ea. Q (snd ea)) (zip (map (lease_row worker x) cs) answers)) = length (filter (\<lambda>ea. Q (snd ea)) (zip cs answers))"
proof (induction cs arbitrary: answers)
  case (Cons c cs)
  { case 1 show ?case by (cases answers rule: messages_answers) (simp_all add: Cons.IH lease_row_report) }
  { case 2 show ?case by (cases answers) (simp_all add: Cons.IH lease_row_report) }
  { case 3 show ?case by (cases answers) (simp_all add: Cons.IH lease_row_report) }
qed simp_all

lemma report_counts_lease:
  "report_counts d (zip (map (lease_row worker x) cs) answers) rep = report_counts d (zip cs answers) rep"
  using report_lease(3)[of "\<lambda>answer. \<not> isl answer" worker x cs answers] report_lease(3)[of isl worker x cs answers]
  by (simp only: report_counts_def report_lease(1,2))

lemma held_find:
  assumes "row outbox_id (outbox_id e) (outbox_events s) = Some e" "outbox_held (outbox_id e) worker e"
  shows "find (outbox_held (outbox_id e) worker) (outbox_events s) = Some e"
  using assms unfolding row_def by (auto simp: find_Some_iff outbox_held_def)

lemma dispatch_events_quiet:
  assumes quiet: "\<And>e s. outbox_events (snd (publish e s)) = outbox_events s"
    and "distinct (map outbox_id es)"
    and "\<And>e. e \<in> set es \<Longrightarrow> row outbox_id (outbox_id e) (outbox_events s) = Some e \<and> outbox_held (outbox_id e) worker e"
  shows "\<exists>answers s'. dispatch_events d publish worker es rep s = (Inr (report_counts d (zip es answers) rep), s') \<and>
    (\<forall>i. i \<notin> outbox_id ` set es \<longrightarrow> row outbox_id i (outbox_events s') = row outbox_id i (outbox_events s)) \<and>
    list_all2 (\<lambda>e answer. answered publish e answer \<and>
      (\<exists>t. row outbox_id (outbox_id e) (outbox_events s') = Some (settled_row d answer t e))) es answers"
  using assms(2-)
proof (induction es arbitrary: rep s)
  case Nil
  show ?case by (intro exI[of _ "[]"] exI[of _ s]) (simp add: report_counts_def)
next
  case (Cons e es)
  have e: "row outbox_id (outbox_id e) (outbox_events s) = Some e" "outbox_held (outbox_id e) worker e"
    using Cons.prems(2) by simp_all
  obtain answer s1 where pub: "publish e s = (answer, s1)" by fastforce
  obtain t s2 where clk: "utc_now s1 = (t, s2)" by fastforce
  have ob: "outbox_events s2 = outbox_events s"
    using quiet[of e s] pub clk by (auto simp: utc_now_def)
  have f: "find (outbox_held (outbox_id e) worker) (outbox_events s2) = Some e"
    by (rule held_find) (use e ob in simp_all)
  let ?s = "put_outbox (settled_row d answer t e) s2"
  have look: "row outbox_id i (outbox_events ?s) =
      (if i = outbox_id e then Some (settled_row d answer t e) else row outbox_id i (outbox_events s))" for i
    using e(1) by (simp add: put_outbox_def row_put ob)
  have other: "outbox_id y \<noteq> outbox_id e" if "y \<in> set es" for y
    using Cons.prems(1) that by (metis distinct.simps(2) imageI list.simps(9) set_map)
  have step: "dispatch_events d publish worker (e # es) rep s
      = dispatch_events d publish worker es (report_counts d [(e, answer)] rep) ?s"
    by (cases answer)
      (simp_all add: pub clk mark_failed_def mark_published_def f settled_row_def report_counts_def gave_up_def)
  have "row outbox_id (outbox_id y) (outbox_events ?s) = Some y \<and> outbox_held (outbox_id y) worker y" if "y \<in> set es" for y
    using Cons.prems(2)[of y] other[OF that] that by (simp add: look)
  from Cons.IH[OF _ this, of "report_counts d [(e, answer)] rep"] Cons.prems(1) obtain answers s' where *:
    "dispatch_events d publish worker es (report_counts d [(e, answer)] rep) ?s
       = (Inr (report_counts d (zip es answers) (report_counts d [(e, answer)] rep)), s')"
    "\<forall>i. i \<notin> outbox_id ` set es \<longrightarrow> row outbox_id i (outbox_events s') = row outbox_id i (outbox_events ?s)"
    "list_all2 (\<lambda>e answer. answered publish e answer \<and>
      (\<exists>t. row outbox_id (outbox_id e) (outbox_events s') = Some (settled_row d answer t e))) es answers" by auto
  have counts: "report_counts d (zip es answers) (report_counts d [(e, answer)] rep)
      = report_counts d (zip (e # es) (answer # answers)) rep"
    by (cases answer) (simp_all add: report_counts_def)
  have "outbox_id e \<notin> outbox_id ` set es" using Cons.prems(1) by simp
  then have settled: "row outbox_id (outbox_id e) (outbox_events s') = Some (settled_row d answer t e)"
    using *(2) look by simp
  have ans: "answered publish e answer" using e(1) pub by (auto simp: answered_def intro!: exI[of _ s])
  show ?case
  proof (intro exI[of _ "answer # answers"] exI[of _ s'] conjI)
    show "dispatch_events d publish worker (e # es) rep s
        = (Inr (report_counts d (zip (e # es) (answer # answers)) rep), s')"
      by (simp only: step *(1) counts)
    show "\<forall>i. i \<notin> outbox_id ` set (e # es) \<longrightarrow> row outbox_id i (outbox_events s') = row outbox_id i (outbox_events s)"
      using *(2) by (simp add: look)
  qed (use ans settled *(3) in auto)
qed

lemma pending_rows:
  assumes "distinct (map outbox_id (outbox_events s))" "r \<in> set (outbox_pending (Some now) n s)"
  shows "row outbox_id (outbox_id r) (outbox_events s) = Some r" "outbox_due now r"
proof -
  have "r \<in> set (filter (outbox_due now) (outbox_events s))"
    using assms(2) unfolding outbox_pending_def by (auto dest: in_set_takeD)
  then show "row outbox_id (outbox_id r) (outbox_events s) = Some r" "outbox_due now r"
    using row_distinct[OF assms(1)] by auto
qed

lemma pending_distinct:
  assumes "distinct (map outbox_id (outbox_events s))"
  shows "distinct (map outbox_id (outbox_pending now n s))"
proof -
  have "distinct (map outbox_id (sort_key outbox_order (filter Q (outbox_events s))))" for Q
    using assms by (auto simp: distinct_map intro: inj_on_subset)
  then show ?thesis unfolding outbox_pending_def take_map[symmetric] by (rule distinct_take)
qed

lemma not_pending:
  assumes "distinct (map outbox_id (outbox_events s))" and "r \<in> set (outbox_events s) - set (outbox_pending (Some now) n s)"
  shows "outbox_id r \<notin> outbox_id ` set (outbox_pending (Some now) n s)"
    and "row outbox_id (outbox_id r) (outbox_events s) = Some r"
proof -
  show r: "row outbox_id (outbox_id r) (outbox_events s) = Some r" using row_distinct[OF assms(1)] assms(2) by blast
  show "outbox_id r \<notin> outbox_id ` set (outbox_pending (Some now) n s)"
  proof
    assume "outbox_id r \<in> outbox_id ` set (outbox_pending (Some now) n s)"
    then obtain c where c: "c \<in> set (outbox_pending (Some now) n s)" "outbox_id r = outbox_id c" by blast
    with pending_rows(1)[OF assms(1) c(1)] r have "c = r" by simp
    with c(1) assms(2) show False by simp
  qed
qed

lemma filter_zip_answers:
  "length cs = length answers \<Longrightarrow> length (filter (\<lambda>ea. Q (snd ea)) (zip cs answers)) = length (filter Q answers)"
  by (induction cs answers rule: list_induct2) simp_all

text \<open>
  C26. A dispatch run accounts for every message, and by the publisher's answers: when the ids of
  the messages are distinct and publishing does not itself write the outbox, the run does not
  fail; it claims exactly the due messages up to the limit, in order of availability; each claimed
  message is handed to the publisher with its lease, and ends acknowledged with the broker's
  message id exactly when the publisher returned one, and put back with the exponential delay and
  the error when the publisher raised, dead-lettered when that was its last permitted attempt;
  every other message is untouched; and the report counts exactly these answers and lists the
  message ids of the published ones in order.
\<close>

theorem dispatch_once_accounts:
  assumes "\<And>e s. outbox_events (snd (publish e s)) = outbox_events s"
    and "distinct (map outbox_id (outbox_events s))" and "0 < limit" and "0 < lease_seconds"
  shows "let now = fst (utc_now s); cs = outbox_pending (Some now) (nat limit) s in
    \<exists>answers rep s'. dispatch_once d publish worker limit lease_seconds s = (Inr rep, s') \<and>
      list_all2 (\<lambda>c answer. answered publish (lease_row worker (now + of_int lease_seconds) c) answer \<and>
        (\<exists>t. row outbox_id (outbox_id c) (outbox_events s') = Some (settled_row d answer t c))) cs answers \<and>
      (\<forall>r \<in> set (outbox_events s) - set cs. row outbox_id (outbox_id r) (outbox_events s') = Some r) \<and>
      dr_claimed rep = length cs \<and>
      dr_published rep = length (filter (\<lambda>answer. \<not> isl answer) answers) \<and>
      dr_failed rep = length (filter isl answers) \<and>
      dr_dead_lettered rep = length (filter (gave_up d) (zip cs answers)) \<and>
      dr_messages rep = messages_of (zip cs answers)"
proof -
  let ?now = "fst (utc_now s)" and ?s1 = "snd (utc_now s)"
  let ?x = "?now + of_int lease_seconds" and ?cs = "outbox_pending (Some (fst (utc_now s))) (nat limit) s"
  have ob: "outbox_events ?s1 = outbox_events s" by (simp add: utc_now_def)
  have cs1: "outbox_pending (Some ?now) (nat limit) ?s1 = ?cs" by (simp add: outbox_pending_def ob)
  obtain es s2 where claim: "outbox_claim_rows worker ?now ?x ?cs ?s1 = (es, s2)" by fastforce
  have due: "row outbox_id (outbox_id c) (outbox_events ?s1) = Some c \<and> outbox_due ?now c" if "c \<in> set ?cs" for c
    using pending_rows[OF assms(2) that] by (simp add: ob)
  from claim_rows_due[of ?cs, OF pending_distinct[OF assms(2)] due, where worker = worker and x = ?x] claim
  have es: "es = map (lease_row worker ?x) ?cs"
    and rows: "\<And>i. row outbox_id i (outbox_events s2) =
       (if i \<in> outbox_id ` set ?cs then map_option (lease_row worker ?x) (row outbox_id i (outbox_events s))
        else row outbox_id i (outbox_events s))" by (auto simp: ob)
  let ?rep = "\<lparr>dr_claimed = length es, dr_published = 0, dr_failed = 0, dr_dead_lettered = 0, dr_messages = []\<rparr>"
  have held: "row outbox_id (outbox_id e) (outbox_events s2) = Some e \<and> outbox_held (outbox_id e) worker e" if e: "e \<in> set es" for e
  proof -
    from e obtain c where c: "c \<in> set ?cs" "e = lease_row worker ?x c" by (auto simp: es)
    from pending_rows[OF assms(2) c(1)] c show ?thesis by (auto simp: rows outbox_rows split: option.splits)
  qed
  have "distinct (map outbox_id es)" using pending_distinct[OF assms(2)] by (simp add: es comp_def)
  from dispatch_events_quiet[of publish, OF assms(1) this held, where d = d and rep = ?rep] obtain answers s' where *:
    "dispatch_events d publish worker es ?rep s2 = (Inr (report_counts d (zip es answers) ?rep), s')"
    "\<forall>i. i \<notin> outbox_id ` set es \<longrightarrow> row outbox_id i (outbox_events s') = row outbox_id i (outbox_events s2)"
    "list_all2 (\<lambda>e answer. answered publish e answer \<and>
      (\<exists>t. row outbox_id (outbox_id e) (outbox_events s') = Some (settled_row d answer t e))) es answers" by auto
  let ?r = "report_counts d (zip ?cs answers) ?rep"
  have run: "dispatch_once d publish worker limit lease_seconds s = (Inr ?r, s')"
    using assms(3,4) *(1) by (simp add: dispatch_once_def outbox_claim_def cs1 claim split_beta es report_counts_lease)
  have len: "length ?cs = length answers" using list_all2_lengthD[OF *(3)] by (simp add: es)
  have all: "list_all2 (\<lambda>c answer. answered publish (lease_row worker ?x c) answer \<and>
        (\<exists>t. row outbox_id (outbox_id c) (outbox_events s') = Some (settled_row d answer t c))) ?cs answers"
    using *(3) by (simp add: es list_all2_map1)
  have other: "row outbox_id (outbox_id r) (outbox_events s') = Some r" if r: "r \<in> set (outbox_events s) - set ?cs" for r
  proof -
    note new = not_pending(1)[OF assms(2) r] and r1 = not_pending(2)[OF assms(2) r]
    have "outbox_id ` set es = outbox_id ` set ?cs" by (simp add: es image_image)
    with *(2) new have "row outbox_id (outbox_id r) (outbox_events s') = row outbox_id (outbox_id r) (outbox_events s2)" by simp
    with rows[of "outbox_id r"] new r1 show ?thesis by simp
  qed
  note counts = filter_zip_answers[OF len]
  have "dr_claimed ?r = length ?cs" "dr_published ?r = length (filter (\<lambda>answer. \<not> isl answer) answers)"
    "dr_failed ?r = length (filter isl answers)" "dr_dead_lettered ?r = length (filter (gave_up d) (zip ?cs answers))"
    "dr_messages ?r = messages_of (zip ?cs answers)"
    using counts[of "\<lambda>answer. \<not> isl answer"] counts[of isl] by (simp_all add: report_counts_def es)
  then show ?thesis unfolding Let_def using run all other by blast
qed

text \<open>
  Claims exclude each other: a message that one dispatcher has claimed is not handed to any
  dispatcher that claims before the lease runs out, and a claim leaves the messages of the other
  dispatcher's batch as they are.
\<close>

lemma outbox_claim_exclusive:
  assumes "distinct (map outbox_id (outbox_events s))"
    and "outbox_claim w1 t1 secs1 limit1 s = Inr (A, s1)" and "outbox_claim w2 t2 secs2 limit2 s1 = Inr (B, s2)"
    and "t2 < t1 + of_int secs1"
  shows "outbox_id ` set A \<inter> outbox_id ` set B = {} \<and>
    (\<forall>a \<in> set A. ob_lease_owner a = Some w1 \<and> row outbox_id (outbox_id a) (outbox_events s2) = Some a)"
proof -
  let ?x = "t1 + of_int secs1" and ?ca = "outbox_pending (Some t1) (nat limit1) s"
  let ?cb = "outbox_pending (Some t2) (nat limit2) s1"
  have cl1: "outbox_claim_rows w1 t1 ?x ?ca s = (A, s1)"
    and cl2: "outbox_claim_rows w2 t2 (t2 + of_int secs2) ?cb s1 = (B, s2)"
    using assms(2,3) by (auto simp: outbox_claim_def split: if_splits)
  have "outbox_follow s s1" using claim_rows_follow[OF assms(1), of w1 t1 "of_int secs1" ?ca] cl1 by simp
  from outbox_follow_ids[OF this] assms(1) have dst1: "distinct (map outbox_id (outbox_events s1))" by simp
  have due: "\<And>c. c \<in> set ?ca \<Longrightarrow> row outbox_id (outbox_id c) (outbox_events s) = Some c \<and> outbox_due t1 c"
    "\<And>c. c \<in> set ?cb \<Longrightarrow> row outbox_id (outbox_id c) (outbox_events s1) = Some c \<and> outbox_due t2 c"
    using pending_rows[OF assms(1)] pending_rows[OF dst1] by blast+
  note ra = claim_rows_due[of ?ca s t1 w1 ?x, OF pending_distinct[OF assms(1)] due(1)]
  note rb = claim_rows_due[of ?cb s1 t2 w2 "t2 + of_int secs2", OF pending_distinct[OF dst1] due(2)]
  have A: "A = map (lease_row w1 ?x) ?ca" and B: "B = map (lease_row w2 (t2 + of_int secs2)) ?cb"
    using ra rb cl1 cl2 by simp_all
  have row1: "row outbox_id (outbox_id a) (outbox_events s1) = Some a" if a: "a \<in> set A" for a
  proof -
    from a obtain c where c: "c \<in> set ?ca" "a = lease_row w1 ?x c" by (auto simp: A)
    with ra due(1)[OF c(1)] cl1 show ?thesis by simp
  qed
  have no: "outbox_id a \<notin> outbox_id ` set ?cb" if a: "a \<in> set A" for a
  proof
    assume "outbox_id a \<in> outbox_id ` set ?cb"
    then obtain c where c: "c \<in> set ?cb" "outbox_id a = outbox_id c" by blast
    with due(2)[OF c(1)] row1[OF a] have "outbox_due t2 a" by simp
    with a assms(4) show False by (auto simp: A outbox_rows)
  qed
  have ids: "outbox_id ` set B = outbox_id ` set ?cb" by (simp add: B image_image)
  have "row outbox_id (outbox_id a) (outbox_events s2) = Some a" if a: "a \<in> set A" for a
    using rb cl2 no[OF a] row1[OF a] by simp
  moreover have "ob_lease_owner a = Some w1" if "a \<in> set A" for a using that by (auto simp: A lease_row_def)
  moreover have "outbox_id ` set A \<inter> outbox_id ` set B = {}" using no unfolding ids by blast
  ultimately show ?thesis by blast
qed

text \<open>An outbox with one message, for the witnesses.\<close>

definition demo_message :: outbox_row where
  "demo_message = \<lparr>outbox_id = ''o1'', ob_tenant = ''acme'', ob_aggregate_type = ''task'', ob_aggregate_id = ''t1'',
     ob_event_type = ''x'', ob_payload = [], ob_idempotency_key = ''k1'', ob_occurred_at = 0, ob_available_at = 0,
     ob_lease_owner = None, ob_lease_expires_at = None, ob_published_at = None, ob_published_message_id = None,
     ob_dead_lettered_at = None, ob_publish_attempts = 0, ob_last_error = None\<rparr>"

definition demo_outbox :: store where
  "demo_outbox = \<lparr>audit_events = [], outbox_events = [demo_message], uuids = (\<lambda>_. []), uuids_drawn = 0,
     wall_clock = (\<lambda>n. of_nat n), clock_reads = 0, isoformat = (\<lambda>_. [])\<rparr>"

lemma demo_claims:
  "case outbox_claim ''d1'' 0 60 10 demo_outbox of Inl _ \<Rightarrow> False
   | Inr (A, s1) \<Rightarrow> map outbox_id A = [''o1''] \<and> is_ok (outbox_claim ''d2'' 30 60 10 s1)"
  by code_simp

text \<open>A publisher that publishes the messages of one aggregate and raises for the others.\<close>

definition demo_two :: store where
  "demo_two = demo_outbox\<lparr>outbox_events := [demo_message,
     demo_message\<lparr>outbox_id := ''o2'', ob_aggregate_id := ''t2'', ob_idempotency_key := ''k2'', ob_publish_attempts := 2\<rparr>]\<rparr>"

definition demo_publish :: "outbox_row \<Rightarrow> store \<Rightarrow> (string + string) \<times> store" where
  "demo_publish e s = (if ob_aggregate_id e = ''t1'' then Inr ''m1'' else Inl ''down'', s)"

theorem dispatch_once_accounts_witness:
  "\<exists>rep s'. dispatch_once \<lparr>max_publish_attempts = 3, max_backoff_seconds = 900\<rparr> demo_publish ''d1'' 10 60 demo_two
       = (Inr rep, s') \<and> dr_claimed rep = 2"
proof -
  have "distinct (map outbox_id (outbox_events demo_two))" by code_simp
  from dispatch_once_accounts[of demo_publish demo_two 10 60 "\<lparr>max_publish_attempts = 3, max_backoff_seconds = 900\<rparr>" "''d1''", OF _ this]
  have "let now = fst (utc_now demo_two); cs = outbox_pending (Some now) (nat 10) demo_two in
    \<exists>rep s'. dispatch_once \<lparr>max_publish_attempts = 3, max_backoff_seconds = 900\<rparr> demo_publish ''d1'' 10 60 demo_two = (Inr rep, s') \<and>
      dr_claimed rep = length cs" by (auto simp: Let_def demo_publish_def)
  moreover have "length (outbox_pending (Some (fst (utc_now demo_two))) (nat 10) demo_two) = 2" by code_simp
  ultimately show ?thesis by (simp add: Let_def)
qed

end
