(* ===== verification/Orchestrator.thy ===== *)
theory Orchestrator
  imports Tasks Outbox
begin

text \<open>
  The durable orchestrator (\<open>orchestration/service.py\<close>): every public operation and every
  helper it runs inside its transaction. \<open>now\<close> is the reading of the orchestrator's clock at
  the start of the operation; the row locks of PostgreSQL have no counterpart because an
  operation is one transaction.
\<close>

section \<open>Results of operations\<close>

record task_snapshot =
  sn_task_id :: ident
  sn_task_key :: string
  sn_status :: task_status
  sn_attempt_count :: nat
  sn_lease_owner :: "ident option"
  sn_lease_expires_at :: "time option"
  sn_available_at :: "time option"
  sn_human_gate :: "string option"
  sn_review_status :: "string option"
  sn_error_class :: "string option"
  sn_output_refs :: "string list"

record engagement_snapshot =
  es_tenant :: ident
  es_engagement :: ident
  es_status :: engagement_status
  es_tasks :: "task_snapshot list"

record task_lease =
  tl_tenant :: ident
  tl_engagement :: ident
  tl_task_id :: ident
  tl_task_key :: string
  tl_task_type :: string
  tl_assigned_agent_role :: "string option"
  tl_attempt_count :: nat
  tl_lease_owner :: ident
  tl_lease_expires_at :: time
  tl_input_refs :: "string list"
  tl_execution_policy :: pydict
  tl_model_policy :: "string option"
  tl_tool_policy :: "string option"
  tl_deadline_at :: "time option"
  tl_human_gate :: "string option"

record task_execution_result =
  er_output_refs :: "string list"
  er_result :: pydict

record gate_decision =
  gd_actor_id :: ident
  gd_reason :: string

record tick_report =
  expired_leases :: nat
  overdue_tasks :: nat
  promoted_retries :: nat
  reconciled_engagements :: nat

definition snapshot_task :: "task_row \<Rightarrow> task_snapshot" where
  "snapshot_task t =
     \<lparr>sn_task_id = task_id t, sn_task_key = task_key t, sn_status = tk_status t,
      sn_attempt_count = attempt_count t, sn_lease_owner = lease_owner t,
      sn_lease_expires_at = lease_expires_at t, sn_available_at = available_at t,
      sn_human_gate = human_gate t, sn_review_status = review_status t,
      sn_error_class = error_class t, sn_output_refs = output_refs_json t\<rparr>"

definition snapshot_of :: "engagement_row \<Rightarrow> 'a orch_store_scheme \<Rightarrow> engagement_snapshot" where
  "snapshot_of e s =
     \<lparr>es_tenant = eng_tenant e, es_engagement = engagement_id e, es_status = eng_status e,
      es_tasks = map snapshot_task (list_tasks (eng_tenant e) (engagement_id e) s)\<rparr>"

definition lease_from_task :: "task_row \<Rightarrow> task_lease res" where
  "lease_from_task t =
     (case (lease_owner t, lease_expires_at t) of
        (Some owner, Some expires) \<Rightarrow> Inr
          \<lparr>tl_tenant = tk_tenant t, tl_engagement = tk_engagement t, tl_task_id = task_id t,
           tl_task_key = task_key t, tl_task_type = task_type t,
           tl_assigned_agent_role = assigned_agent_role t, tl_attempt_count = attempt_count t,
           tl_lease_owner = owner, tl_lease_expires_at = expires, tl_input_refs = input_refs_json t,
           tl_execution_policy = execution_policy_json t, tl_model_policy = model_policy t,
           tl_tool_policy = tool_policy t, tl_deadline_at = deadline_at t,
           tl_human_gate = human_gate t\<rparr>
      | _ \<Rightarrow> Inl AssertionError)"

definition require_engagement :: "ident \<Rightarrow> ident \<Rightarrow> 'a orch_store_scheme \<Rightarrow> engagement_row res" where
  "require_engagement tenant eid s =
     (case get_engagement tenant eid s of None \<Rightarrow> Inl (EngagementNotFoundError eid) | Some e \<Rightarrow> Inr e)"

definition require_task :: "ident \<Rightarrow> ident \<Rightarrow> 'a orch_store_scheme \<Rightarrow> task_row res" where
  "require_task tenant tid s =
     (case get_task tenant tid s of None \<Rightarrow> Inl (TaskNotFoundError tid) | Some t \<Rightarrow> Inr t)"

definition require_lease :: "task_row \<Rightarrow> ident \<Rightarrow> time \<Rightarrow> unit res" where
  "require_lease t worker now = (if lease_matches t worker now then Inr () else Inl LeaseConflictError)"

section \<open>Recording\<close>

definition opt_str :: "string option \<Rightarrow> pyval" where
  "opt_str x = (case x of None \<Rightarrow> PNone | Some v \<Rightarrow> PStr v)"

definition opt_time :: "time option \<Rightarrow> pyval" where
  "opt_time x = (case x of None \<Rightarrow> PNone | Some v \<Rightarrow> PTime v)"

definition ev_task_created :: string where
  "ev_task_created = ''orchestration.task.created''"

definition ev_task_transitioned :: string where
  "ev_task_transitioned = ''orchestration.task.transitioned''"

definition ev_engagement_transitioned :: string where
  "ev_engagement_transitioned = ''orchestration.engagement.transitioned''"

definition record_task_created :: "time \<Rightarrow> task_row \<Rightarrow> 'a orch_store_scheme \<Rightarrow> 'a orch_store_scheme res" where
  "record_task_created now t s =
     record_event ev_task_created (tk_tenant t) ''task'' (task_id t)
       [(''task_key'', PStr (task_key t)), (''task_type'', PStr (task_type t)),
        (''status'', PEnum (task_status_value (tk_status t))),
        (''definition_version'', PStr (definition_version t)),
        (''human_gate'', opt_str (human_gate t))]
       now (Some (tk_engagement t)) (Some (task_id t)) s"

definition record_task_transition ::
  "task_row \<Rightarrow> task_status \<Rightarrow> task_status \<Rightarrow> string \<Rightarrow> time \<Rightarrow> pydict \<Rightarrow> 'a orch_store_scheme
   \<Rightarrow> 'a orch_store_scheme res"
where
  "record_task_transition t from_st to_st reason now extra s =
     record_event ev_task_transitioned (tk_tenant t) ''task'' (task_id t)
       (dict_merge
         [(''task_key'', PStr (task_key t)), (''from_status'', PEnum (task_status_value from_st)),
          (''to_status'', PEnum (task_status_value to_st)), (''reason'', PStr reason),
          (''attempt_count'', PInt (int (attempt_count t)))] extra)
       now (Some (tk_engagement t)) (Some (task_id t)) s"

definition transition_engagement ::
  "engagement_row \<Rightarrow> engagement_status \<Rightarrow> string \<Rightarrow> time \<Rightarrow> pydict \<Rightarrow> 'a orch_store_scheme
   \<Rightarrow> (engagement_row \<times> 'a orch_store_scheme) res"
where
  "transition_engagement e target reason now extra s =
     (if eng_status e = target then Inr (e, s)
      else
        let e' = e\<lparr>eng_status := target\<rparr> in
        bind_res
          (record_event ev_engagement_transitioned (eng_tenant e) ''engagement'' (engagement_id e)
            (dict_merge
              [(''from_status'', PEnum (engagement_status_value (eng_status e))),
               (''to_status'', PEnum (engagement_status_value target)), (''reason'', PStr reason)] extra)
            now (Some (engagement_id e)) None (put_engagement e' s))
          (\<lambda>s'. Inr (e', s')))"

section \<open>Reconciliation\<close>

definition gate_position :: "task_row \<Rightarrow> pyval" where
  "gate_position t =
     (case map_of (execution_policy_json t) ''human_gate_position'' of
        None \<Rightarrow> PStr ''before'' | Some v \<Rightarrow> v)"

text \<open>\<open>tasks_by_id[...]\<close>: only the engagement's own tasks are in the dictionary.\<close>

definition tasks_by_id :: "ident list \<Rightarrow> 'a orch_store_scheme \<Rightarrow> ident \<Rightarrow> task_row res" where
  "tasks_by_id ids s i =
     (if i \<in> set ids then (case row task_id i (tasks s) of None \<Rightarrow> Inl KeyError | Some t \<Rightarrow> Inr t)
      else Inl KeyError)"

fun map_res :: "('a \<Rightarrow> 'b res) \<Rightarrow> 'a list \<Rightarrow> 'b list res" where
  "map_res f [] = Inr []"
| "map_res f (x # xs) = bind_res (f x) (\<lambda>y. bind_res (map_res f xs) (\<lambda>ys. Inr (y # ys)))"

definition allowed_statuses :: "dependency_row \<Rightarrow> pyval list" where
  "allowed_statuses d =
     (case map_of (condition_json d) ''allowed_statuses'' of
        None \<Rightarrow> [PStr ''succeeded'', PStr ''skipped''] | Some (PList vs) \<Rightarrow> vs | Some _ \<Rightarrow> [])"

definition dependencies_satisfied :: "(dependency_row \<times> task_row) list \<Rightarrow> bool" where
  "dependencies_satisfied ds \<longleftrightarrow>
     (\<forall>(d, t) \<in> set ds. PStr (task_status_value (tk_status t)) \<in> set (allowed_statuses d))"

text \<open>What becomes of a pending task whose dependencies are met, and why.\<close>

definition promote_pending :: "time \<Rightarrow> task_row \<Rightarrow> task_row \<times> string" where
  "promote_pending now t =
     (if at_most (deadline_at t) now
      then (t\<lparr>tk_status := T_FAILED, tk_completed_at := Some now,
              error_class := Some ''deadline_exceeded'',
              last_error := Some ''task deadline elapsed before it became runnable''\<rparr>,
            ''deadline_exceeded'')
      else if truthy (human_gate t) \<and> gate_position t = PStr ''before'' \<and>
              review_status t \<noteq> Some ''approved''
      then (t\<lparr>tk_status := T_WAITING_APPROVAL, review_status := Some ''pending''\<rparr>,
            ''pre_execution_gate_required'')
      else (t\<lparr>tk_status := T_READY, available_at := Some now\<rparr>, ''dependencies_satisfied''))"

definition block_row :: "time \<Rightarrow> task_row \<Rightarrow> task_row" where
  "block_row now t =
     t\<lparr>tk_status := T_BLOCKED, tk_completed_at := Some now, error_class := Some ''dependency_failed'',
       last_error := Some ''one or more prerequisite tasks did not complete successfully''\<rparr>"

text \<open>The body of the loop for a pending task whose prerequisites' rows are \<open>rows\<close>.\<close>

definition settle_pending ::
  "time \<Rightarrow> task_row \<Rightarrow> dependency_row list \<Rightarrow> task_row list \<Rightarrow> bool \<times> 'a orch_store_scheme
   \<Rightarrow> (bool \<times> 'a orch_store_scheme) res"
where
  "settle_pending now t ds rows cs =
     (if \<exists>r \<in> set rows. tk_status r \<in> FAILURE_TASK_STATUSES
      then bind_res (record_task_transition (block_row now t) T_PENDING T_BLOCKED
                       ''dependency_failed'' now [] (put_task (block_row now t) (snd cs)))
             (\<lambda>s'. Inr (True, s'))
      else if \<not> dependencies_satisfied (zip ds rows) then Inr cs
      else bind_res (record_task_transition (fst (promote_pending now t)) T_PENDING
                       (tk_status (fst (promote_pending now t))) (snd (promote_pending now t)) now []
                       (put_task (fst (promote_pending now t)) (snd cs)))
             (\<lambda>s'. Inr (True, s')))"

definition reconcile_task ::
  "ident list \<Rightarrow> dependency_row list \<Rightarrow> time \<Rightarrow> ident \<Rightarrow> bool \<times> 'a orch_store_scheme
   \<Rightarrow> (bool \<times> 'a orch_store_scheme) res"
where
  "reconcile_task ids deps now i cs =
     bind_res (tasks_by_id ids (snd cs) i) (\<lambda>t.
       if tk_status t \<noteq> T_PENDING then Inr cs
       else
         bind_res (map_res (\<lambda>d. tasks_by_id ids (snd cs) (depends_on_task_id d))
                     (filter (\<lambda>d. dp_task d = task_id t) deps))
           (\<lambda>rows. settle_pending now t (filter (\<lambda>d. dp_task d = task_id t) deps) rows cs))"

definition reconcile_pass ::
  "ident list \<Rightarrow> dependency_row list \<Rightarrow> time \<Rightarrow> 'a orch_store_scheme
   \<Rightarrow> (bool \<times> 'a orch_store_scheme) res"
where
  "reconcile_pass ids deps now s = fold_res (reconcile_task ids deps now) ids (False, s)"

text \<open>
  The \<open>while changed\<close> loop ends because every pass that changes something uses up a pending
  task.
\<close>

definition pending_count :: "'a orch_store_scheme \<Rightarrow> nat" where
  "pending_count s = length (filter (\<lambda>t. tk_status t = T_PENDING) (tasks s))"

lemma pending_count_put:
  assumes "row task_id (task_id t') (tasks s) = Some t" "tk_status t = T_PENDING"
    "tk_status t' \<noteq> T_PENDING"
  shows "pending_count (put_task t' s) < pending_count s"
proof -
  let ?n = "\<lambda>xs. length (filter (\<lambda>t. tk_status t = T_PENDING) xs)"
  have le: "?n (put task_id t' xs) \<le> ?n xs" for xs
    using assms(3) by (induction xs) (auto simp: put_def)
  have "row task_id (task_id t') xs = Some t \<Longrightarrow> ?n (put task_id t' xs) < ?n xs" for xs
  proof (induction xs)
    case (Cons x xs)
    with assms(2,3) le[of xs] show ?case
      by (cases "task_id x = task_id t'") (auto simp: put_def row_def)
  qed (simp add: row_def)
  with assms(1) show ?thesis by (simp add: pending_count_def put_task_def)
qed

lemma tables_more_eq:
  "store.more s' = store.more s \<Longrightarrow>
   tasks s' = tasks s \<and> engagements s' = engagements s \<and> dependencies s' = dependencies s \<and>
   attempts s' = attempts s"
  by (cases s; cases s') simp

lemma record_task_transition_tables:
  assumes "record_task_transition t a b r now x s = Inr s'"
  shows "tasks s' = tasks s" "engagements s' = engagements s" "dependencies s' = dependencies s"
    "attempts s' = attempts s"
  using tables_more_eq[OF record_event_more[OF assms[unfolded record_task_transition_def]]] by simp_all

lemma promote_pending_not_pending: "tk_status (fst (promote_pending now t)) \<noteq> T_PENDING"
  by (simp add: promote_pending_def)

lemma promote_pending_id [simp]: "task_id (fst (promote_pending now t)) = task_id t"
  by (simp add: promote_pending_def)

lemma tasks_by_id_Inr: "tasks_by_id ids s i = Inr t \<longleftrightarrow> i \<in> set ids \<and> row task_id i (tasks s) = Some t"
  by (auto simp: tasks_by_id_def split: option.splits)

lemma map_res_Inr: "map_res f xs = Inr ys \<longleftrightarrow> list_all2 (\<lambda>x y. f x = Inr y) xs ys"
proof (induction xs arbitrary: ys)
  case (Cons x xs)
  then show ?case by (cases ys) (auto simp: res_simps)
qed auto

lemma reconcile_task_cases:
  assumes "reconcile_task ids deps now i cs = Inr cs'"
  obtains (same) "cs' = cs"
  | (blocked) t rows where
      "row task_id i (tasks (snd cs)) = Some t" "tk_status t = T_PENDING"
      "list_all2 (\<lambda>d r. row task_id (depends_on_task_id d) (tasks (snd cs)) = Some r)
         (filter (\<lambda>d. dp_task d = task_id t) deps) rows"
      "\<exists>r \<in> set rows. tk_status r \<in> FAILURE_TASK_STATUSES" "fst cs'"
      "record_task_transition (block_row now t) T_PENDING T_BLOCKED ''dependency_failed'' now []
         (put_task (block_row now t) (snd cs)) = Inr (snd cs')"
  | (promoted) t rows where
      "row task_id i (tasks (snd cs)) = Some t" "tk_status t = T_PENDING"
      "list_all2 (\<lambda>d r. row task_id (depends_on_task_id d) (tasks (snd cs)) = Some r)
         (filter (\<lambda>d. dp_task d = task_id t) deps) rows"
      "dependencies_satisfied (zip (filter (\<lambda>d. dp_task d = task_id t) deps) rows)" "fst cs'"
      "record_task_transition (fst (promote_pending now t)) T_PENDING
         (tk_status (fst (promote_pending now t))) (snd (promote_pending now t)) now []
         (put_task (fst (promote_pending now t)) (snd cs)) = Inr (snd cs')"
proof -
  from assms obtain t where t: "row task_id i (tasks (snd cs)) = Some t"
    and rest: "tk_status t \<noteq> T_PENDING \<and> cs' = cs \<or> tk_status t = T_PENDING \<and> (\<exists>rows.
        list_all2 (\<lambda>d r. tasks_by_id ids (snd cs) (depends_on_task_id d) = Inr r)
          (filter (\<lambda>d. dp_task d = task_id t) deps) rows \<and>
        settle_pending now t (filter (\<lambda>d. dp_task d = task_id t) deps) rows cs = Inr cs')"
    unfolding reconcile_task_def by (auto simp: bind_res_eq_Inr tasks_by_id_Inr map_res_Inr split: if_splits)
  show thesis
  proof (cases "tk_status t = T_PENDING")
    case True
    let ?ds = "filter (\<lambda>d. dp_task d = task_id t) deps"
    from rest True obtain rows
      where rows: "list_all2 (\<lambda>d r. tasks_by_id ids (snd cs) (depends_on_task_id d) = Inr r) ?ds rows"
        and body: "settle_pending now t ?ds rows cs = Inr cs'" by auto
    have all2: "list_all2 (\<lambda>d r. row task_id (depends_on_task_id d) (tasks (snd cs)) = Some r) ?ds rows"
      using rows by (rule list_all2_mono) (simp add: tasks_by_id_Inr)
    consider "cs' = cs"
      | "\<exists>r \<in> set rows. tk_status r \<in> FAILURE_TASK_STATUSES" "fst cs'"
        "record_task_transition (block_row now t) T_PENDING T_BLOCKED ''dependency_failed'' now []
           (put_task (block_row now t) (snd cs)) = Inr (snd cs')"
      | "dependencies_satisfied (zip ?ds rows)" "fst cs'"
        "record_task_transition (fst (promote_pending now t)) T_PENDING
           (tk_status (fst (promote_pending now t))) (snd (promote_pending now t)) now []
           (put_task (fst (promote_pending now t)) (snd cs)) = Inr (snd cs')"
      using body unfolding settle_pending_def by (auto simp: bind_res_eq_Inr split: if_splits)
    then show thesis
      by cases (use that t True all2 in blast)+
  qed (use rest same in simp)
qed

lemma reconcile_task_pending:
  assumes "reconcile_task ids deps now i cs = Inr cs'"
  shows "cs' = cs \<or> pending_count (snd cs') < pending_count (snd cs)"
  using assms
proof (cases rule: reconcile_task_cases)
  case (blocked t rows)
  from blocked(1) have "task_id t = i" by (auto dest: row_Some)
  with blocked pending_count_put[of "block_row now t" "snd cs" t]
    record_task_transition_tables(1)[OF blocked(6)]
  show ?thesis by (simp add: block_row_def pending_count_def)
next
  case (promoted t rows)
  from promoted(1) have "task_id t = i" by (auto dest: row_Some)
  with promoted pending_count_put[of "fst (promote_pending now t)" "snd cs" t]
    record_task_transition_tables(1)[OF promoted(6)] promote_pending_not_pending
  show ?thesis by (simp add: pending_count_def)
qed simp

lemma reconcile_tasks_pending:
  "fold_res (reconcile_task ids deps now) is cs = Inr cs' \<Longrightarrow>
   cs' = cs \<or> pending_count (snd cs') < pending_count (snd cs)"
proof (induction "is" arbitrary: cs)
  case (Cons i "is")
  then obtain u where "reconcile_task ids deps now i cs = Inr u"
    "fold_res (reconcile_task ids deps now) is u = Inr cs'" by (auto simp: res_simps)
  with Cons.IH[of u] reconcile_task_pending[of ids deps now i cs u] show ?case by auto
qed simp

lemma reconcile_pass_pending:
  "reconcile_pass ids deps now s = Inr cs \<Longrightarrow> fst cs \<Longrightarrow> pending_count (snd cs) < pending_count s"
  using reconcile_tasks_pending[of ids deps now ids "(False, s)" cs] by (auto simp: reconcile_pass_def)

function reconcile_loop ::
  "ident list \<Rightarrow> dependency_row list \<Rightarrow> time \<Rightarrow> 'a orch_store_scheme \<Rightarrow> 'a orch_store_scheme res"
where
  "reconcile_loop ids deps now s =
     bind_res (reconcile_pass ids deps now s) (\<lambda>cs.
       if fst cs then reconcile_loop ids deps now (snd cs) else Inr (snd cs))"
  by pat_completeness auto
termination
  by (relation "measure (\<lambda>(ids, deps, now, s). pending_count s)") (auto dest: reconcile_pass_pending)

declare reconcile_loop.simps [simp del]

definition reconcile_target :: "task_status set \<Rightarrow> engagement_status \<times> string" where
  "reconcile_target statuses =
     (if statuses \<subseteq> {T_SUCCEEDED, T_SKIPPED} then (E_COMPLETED, ''all_tasks_completed'')
      else if statuses \<inter> {T_READY, T_RUNNING, T_RETRY_WAIT} \<noteq> {} then (E_RUNNING, ''work_in_progress'')
      else if T_WAITING_APPROVAL \<in> statuses then (E_WAITING_APPROVAL, ''human_decision_required'')
      else if T_FAILED \<in> statuses then (E_FAILED, ''task_failed'')
      else if T_BLOCKED \<in> statuses then (E_BLOCKED, ''dependency_blocked'')
      else (E_RUNNING, ''waiting_for_dependencies''))"

definition reconcile_engagement_status ::
  "engagement_row \<Rightarrow> task_row list \<Rightarrow> time \<Rightarrow> 'a orch_store_scheme
   \<Rightarrow> (engagement_row \<times> 'a orch_store_scheme) res"
where
  "reconcile_engagement_status e ts now s =
     (if eng_status e = E_CANCELLED then Inr (e, s)
      else
        let (target, reason) = reconcile_target (tk_status ` set ts);
            e1 = (if target = E_COMPLETED \<or> target = E_FAILED
                  then e\<lparr>eng_completed_at := Some now\<rparr> else e)
        in transition_engagement e1 target reason now [] (put_engagement e1 s))"

text \<open>The tasks are live objects: the status pass reads what the loop left.\<close>

definition reconcile_engagement ::
  "engagement_row \<Rightarrow> time \<Rightarrow> 'a orch_store_scheme \<Rightarrow> (engagement_row \<times> 'a orch_store_scheme) res"
where
  "reconcile_engagement e now s =
     (let ids = map task_id (list_tasks (eng_tenant e) (engagement_id e) s) in
      if ids = [] then Inr (e, s)
      else
        bind_res (reconcile_loop ids (list_dependencies (eng_tenant e) (engagement_id e) s) now s)
          (\<lambda>s'. bind_res (map_res (tasks_by_id ids s') ids)
            (\<lambda>ts. reconcile_engagement_status e ts now s')))"

section \<open>Operations\<close>

definition compile_workflow ::
  "ident \<Rightarrow> ident \<Rightarrow> workflow_definition \<Rightarrow> time \<Rightarrow> 'a orch_store_scheme
   \<Rightarrow> (engagement_snapshot \<times> 'a orch_store_scheme) res"
where
  "compile_workflow tenant eid w now s =
     bind_res (require_engagement tenant eid s) (\<lambda>e.
     bind_res (compile tenant eid w now s) (\<lambda>rs.
     bind_res (fold_res (record_task_created now) (fst rs) (snd rs)) (\<lambda>s2.
     bind_res (record_event ''orchestration.workflow.compiled'' tenant ''engagement'' eid
                 [(''workflow_version'', PStr (workflow_version w)),
                  (''task_count'', PInt (int (length (fst rs)))),
                  (''metadata'', PDict (wf_metadata w))] now (Some eid) None s2) (\<lambda>s3.
       Inr (snapshot_of e s3, s3)))))"

text \<open>The end of most operations: reconcile the engagement and return its snapshot.\<close>

definition finish_with_reconcile ::
  "engagement_row \<Rightarrow> time \<Rightarrow> 'a orch_store_scheme \<Rightarrow> (engagement_snapshot \<times> 'a orch_store_scheme) res"
where
  "finish_with_reconcile e now s =
     bind_res (reconcile_engagement e now s) (\<lambda>(e', s'). Inr (snapshot_of e' s', s'))"

definition start_engagement ::
  "ident \<Rightarrow> ident \<Rightarrow> time \<Rightarrow> 'a orch_store_scheme \<Rightarrow> (engagement_snapshot \<times> 'a orch_store_scheme) res"
where
  "start_engagement tenant eid now s =
     bind_res (require_engagement tenant eid s) (\<lambda>e.
       if eng_status e \<noteq> E_PLANNED then Inl InvalidStateTransitionError
       else if list_tasks tenant eid s = [] then Inl InvalidStateTransitionError
       else
         let e1 = e\<lparr>eng_started_at := Some now\<rparr> in
         bind_res (transition_engagement e1 E_RUNNING ''engagement_started'' now [] (put_engagement e1 s))
           (\<lambda>(e2, s2). finish_with_reconcile e2 now s2))"

definition stored_retry_policy :: "task_row \<Rightarrow> retry_policy res" where
  "stored_retry_policy t =
     retry_policy_validate
       (case map_of (execution_policy_json t) ''retry_policy'' of None \<Rightarrow> PDict [] | Some v \<Rightarrow> v)"

definition failure_retryable :: "retry_policy \<Rightarrow> failure_class \<Rightarrow> bool option \<Rightarrow> bool" where
  "failure_retryable p fc force =
     (case force of None \<Rightarrow> fc \<in> retryable_failures p | Some b \<Rightarrow> b)"

definition retry_allowed ::
  "retry_policy \<Rightarrow> failure_class \<Rightarrow> bool option \<Rightarrow> time \<Rightarrow> task_row \<Rightarrow> bool"
where
  "retry_allowed p fc force now t \<longleftrightarrow>
     failure_retryable p fc force \<and> int (attempt_count t) < max_attempts p \<and>
     \<not> at_most (deadline_at t) now"

definition failure_row ::
  "retry_policy \<Rightarrow> failure_class \<Rightarrow> bool option \<Rightarrow> string \<Rightarrow> time \<Rightarrow> task_row \<Rightarrow> task_row"
where
  "failure_row p fc force message now t =
     (let t1 = t\<lparr>lease_owner := None, lease_expires_at := None,
                 error_class := Some (failure_class_value fc), last_error := Some message\<rparr>
      in if retry_allowed p fc force now t
         then t1\<lparr>tk_status := T_RETRY_WAIT,
                 available_at := Some (now + delay_for_attempt p (attempt_count t))\<rparr>
         else t1\<lparr>tk_status := T_FAILED, available_at := None, tk_completed_at := Some now\<rparr>)"

definition apply_failure ::
  "task_row \<Rightarrow> failure_class \<Rightarrow> string \<Rightarrow> time \<Rightarrow> bool option \<Rightarrow> 'a orch_store_scheme
   \<Rightarrow> (task_row \<times> 'a orch_store_scheme) res"
where
  "apply_failure t fc message now force s =
     bind_res (stored_retry_policy t) (\<lambda>p.
       let t' = failure_row p fc force message now t;
           retry = retry_allowed p fc force now t;
           extra = [(''failure_class'', PEnum (failure_class_value fc)), (''message'', PStr message)] @
             (if retry then [(''retry_delay_seconds'', PFloat (delay_for_attempt p (attempt_count t)))]
              else [(''retryable'', PBool (failure_retryable p fc force)),
                    (''attempt_budget_remaining'', PBool (int (attempt_count t) < max_attempts p))])
       in bind_res (record_task_transition t' (tk_status t) (tk_status t')
                      (if retry then ''retry_scheduled'' else ''execution_failed'') now extra
                      (put_task t' s))
            (\<lambda>s'. Inr (t', s')))"

definition lease_expired_message :: string where
  "lease_expired_message = ''worker lease expired before task completion''"

definition recover_expired_lease ::
  "time \<Rightarrow> task_row \<Rightarrow> 'a orch_store_scheme \<Rightarrow> 'a orch_store_scheme res"
where
  "recover_expired_lease now t s =
     bind_res (apply_failure t LEASE_EXPIRED lease_expired_message now None s) (\<lambda>(t', s').
       Inr (finish_attempt t' A_lease_expired now (Some (failure_class_value LEASE_EXPIRED))
              (Some lease_expired_message) None [] s'))"

definition recover_expired_leases ::
  "ident \<Rightarrow> time \<Rightarrow> 'a orch_store_scheme \<Rightarrow> (nat \<times> 'a orch_store_scheme) res"
where
  "recover_expired_leases tenant now s =
     (let ts = expired_running_tasks tenant now s
      in bind_res (fold_res (recover_expired_lease now) ts s) (\<lambda>s'. Inr (length ts, s')))"

definition promote_retry_row :: "task_row \<Rightarrow> task_row" where
  "promote_retry_row t = t\<lparr>tk_status := T_READY, available_at := None\<rparr>"

definition promote_due_retry ::
  "time \<Rightarrow> task_row \<Rightarrow> 'a orch_store_scheme \<Rightarrow> 'a orch_store_scheme res"
where
  "promote_due_retry now t s =
     record_task_transition (promote_retry_row t) T_RETRY_WAIT T_READY ''retry_delay_elapsed'' now []
       (put_task (promote_retry_row t) s)"

definition promote_due_retries ::
  "ident \<Rightarrow> time \<Rightarrow> 'a orch_store_scheme \<Rightarrow> (nat \<times> 'a orch_store_scheme) res"
where
  "promote_due_retries tenant now s =
     (let ts = due_retry_tasks tenant now s
      in bind_res (fold_res (promote_due_retry now) ts s) (\<lambda>s'. Inr (length ts, s')))"

definition overdue_row :: "time \<Rightarrow> task_row \<Rightarrow> task_row" where
  "overdue_row now t =
     t\<lparr>tk_status := T_FAILED, tk_completed_at := Some now, lease_owner := None,
       lease_expires_at := None, available_at := None, error_class := Some ''deadline_exceeded'',
       last_error := Some ''task deadline elapsed before successful completion''\<rparr>"

definition fail_overdue_task ::
  "time \<Rightarrow> task_row \<Rightarrow> 'a orch_store_scheme \<Rightarrow> 'a orch_store_scheme res"
where
  "fail_overdue_task now t s =
     (let t' = overdue_row now t; s1 = put_task t' s;
          s2 = (if tk_status t = T_RUNNING
                then finish_attempt t' A_failed now (Some ''deadline_exceeded'') (last_error t') None [] s1
                else s1)
      in record_task_transition t' (tk_status t) T_FAILED ''deadline_exceeded'' now [] s2)"

definition fail_overdue_tasks ::
  "ident \<Rightarrow> time \<Rightarrow> 'a orch_store_scheme \<Rightarrow> (nat \<times> 'a orch_store_scheme) res"
where
  "fail_overdue_tasks tenant now s =
     (let ts = overdue_nonterminal_tasks tenant now s
      in bind_res (fold_res (fail_overdue_task now) ts s) (\<lambda>s'. Inr (length ts, s')))"

definition reconcile_active ::
  "time \<Rightarrow> engagement_row \<Rightarrow> 'a orch_store_scheme \<Rightarrow> 'a orch_store_scheme res"
where
  "reconcile_active now e s = bind_res (reconcile_engagement e now s) (\<lambda>(e', s'). Inr s')"

definition tick ::
  "ident \<Rightarrow> time \<Rightarrow> 'a orch_store_scheme \<Rightarrow> (tick_report \<times> 'a orch_store_scheme) res"
where
  "tick tenant now s =
     bind_res (recover_expired_leases tenant now s) (\<lambda>(expired, s1).
     bind_res (fail_overdue_tasks tenant now s1) (\<lambda>(overdue, s2).
     bind_res (promote_due_retries tenant now s2) (\<lambda>(promoted, s3).
       let active = list_active_engagements tenant s3 in
       bind_res (fold_res (reconcile_active now) active s3) (\<lambda>s4.
         Inr (\<lparr>expired_leases = expired, overdue_tasks = overdue, promoted_retries = promoted,
               reconciled_engagements = length active\<rparr>, s4)))))"

definition claim_next ::
  "ident \<Rightarrow> ident \<Rightarrow> int \<Rightarrow> ident option \<Rightarrow> string list \<Rightarrow> string list \<Rightarrow> time \<Rightarrow> 'a orch_store_scheme
   \<Rightarrow> (task_lease option \<times> 'a orch_store_scheme) res"
where
  "claim_next tenant worker lease_seconds eng types roles now s =
     (if lease_seconds \<le> 0 then Inl ValueError
      else
        case repo_claim_next tenant worker now lease_seconds eng types roles s of
          (None, s1) \<Rightarrow> Inr (None, s1)
        | (Some t, s1) \<Rightarrow>
            bind_res (start_attempt t worker now None s1) (\<lambda>s2.
            bind_res (record_task_transition t T_READY T_RUNNING ''worker_claimed'' now
                        [(''worker_id'', PStr worker), (''lease_expires_at'', opt_time (lease_expires_at t))] s2)
              (\<lambda>s3. bind_res (lease_from_task t) (\<lambda>l. Inr (Some l, s3)))))"

definition heartbeat ::
  "ident \<Rightarrow> ident \<Rightarrow> ident \<Rightarrow> int \<Rightarrow> time \<Rightarrow> 'a orch_store_scheme
   \<Rightarrow> (task_lease \<times> 'a orch_store_scheme) res"
where
  "heartbeat tenant tid worker lease_seconds now s =
     (if lease_seconds \<le> 0 then Inl ValueError
      else
        case extend_lease tenant tid worker now lease_seconds s of
          (None, s1) \<Rightarrow> Inl LeaseConflictError
        | (Some t, s1) \<Rightarrow>
            bind_res (record_event ''orchestration.task.heartbeat'' tenant ''task'' (task_id t)
                        [(''worker_id'', PStr worker),
                         (''lease_expires_at'', opt_time (lease_expires_at t)),
                         (''attempt_count'', PInt (int (attempt_count t)))]
                        now (Some (tk_engagement t)) (Some (task_id t))
                        (update_attempt_lease tenant (task_id t) (attempt_count t) (lease_expires_at t) s1))
              (\<lambda>s2. bind_res (lease_from_task t) (\<lambda>l. Inr (l, s2))))"

definition complete_row :: "task_execution_result \<Rightarrow> time \<Rightarrow> task_row \<Rightarrow> task_row" where
  "complete_row r now t =
     (let t1 = t\<lparr>output_refs_json := er_output_refs r, result_json := Some (er_result r),
                 lease_owner := None, lease_expires_at := None, error_class := None,
                 last_error := None\<rparr>
      in if truthy (human_gate t) \<and> gate_position t = PStr ''after''
         then t1\<lparr>tk_status := T_WAITING_APPROVAL, review_status := Some ''pending''\<rparr>
         else t1\<lparr>tk_status := T_SUCCEEDED, tk_completed_at := Some now\<rparr>)"

definition complete_task ::
  "ident \<Rightarrow> ident \<Rightarrow> ident \<Rightarrow> task_execution_result \<Rightarrow> time \<Rightarrow> 'a orch_store_scheme
   \<Rightarrow> (engagement_snapshot \<times> 'a orch_store_scheme) res"
where
  "complete_task tenant tid worker r now s =
     bind_res (require_task tenant tid s) (\<lambda>t.
     bind_res (require_lease t worker now) (\<lambda>_.
       let t' = complete_row r now t;
           reason = (if tk_status t' = T_WAITING_APPROVAL then ''post_execution_gate_required''
                     else ''execution_succeeded'');
           s1 = finish_attempt t' A_succeeded now None None (Some (er_result r)) (er_output_refs r)
                  (put_task t' s)
       in bind_res (record_task_transition t' (tk_status t) (tk_status t') reason now
                      [(''output_refs'', PList (map PStr (output_refs_json t')))] s1) (\<lambda>s2.
          bind_res (require_engagement tenant (tk_engagement t') s2) (\<lambda>e.
            finish_with_reconcile e now s2))))"

definition fail_task ::
  "ident \<Rightarrow> ident \<Rightarrow> ident \<Rightarrow> failure_class \<Rightarrow> string \<Rightarrow> bool option \<Rightarrow> time \<Rightarrow> 'a orch_store_scheme
   \<Rightarrow> (engagement_snapshot \<times> 'a orch_store_scheme) res"
where
  "fail_task tenant tid worker fc message force now s =
     bind_res (require_task tenant tid s) (\<lambda>t.
     bind_res (require_lease t worker now) (\<lambda>_.
     bind_res (apply_failure t fc message now force s) (\<lambda>(t', s1).
       let s2 = finish_attempt t' (if tk_status t' = T_RETRY_WAIT then A_retry_scheduled else A_failed)
                  now (Some (failure_class_value fc)) (Some message) None [] s1
       in bind_res (require_engagement tenant (tk_engagement t') s2) (\<lambda>e.
            finish_with_reconcile e now s2))))"

definition gate_row :: "bool \<Rightarrow> gate_decision \<Rightarrow> time \<Rightarrow> task_row \<Rightarrow> task_row" where
  "gate_row approved d now t =
     (if approved
      then
        let t1 = t\<lparr>review_status := Some ''approved'', error_class := None, last_error := None\<rparr>
        in if gate_position t = PStr ''before'' then t1\<lparr>tk_status := T_READY\<rparr>
           else t1\<lparr>tk_status := T_SUCCEEDED, tk_completed_at := Some now\<rparr>
      else t\<lparr>review_status := Some ''rejected'',
             error_class := Some (failure_class_value HUMAN_REJECTED),
             last_error := Some (gd_reason d), tk_status := T_FAILED, tk_completed_at := Some now\<rparr>)"

definition decide_gate ::
  "ident \<Rightarrow> ident \<Rightarrow> gate_decision \<Rightarrow> bool \<Rightarrow> time \<Rightarrow> 'a orch_store_scheme
   \<Rightarrow> (engagement_snapshot \<times> 'a orch_store_scheme) res"
where
  "decide_gate tenant tid d approved now s =
     bind_res (require_task tenant tid s) (\<lambda>t.
       if tk_status t \<noteq> T_WAITING_APPROVAL \<or> \<not> truthy (human_gate t) then Inl InvalidStateTransitionError
       else
         let t' = gate_row approved d now t in
         bind_res (record_task_transition t' T_WAITING_APPROVAL (tk_status t')
                     (if approved then ''human_gate_approved'' else ''human_gate_rejected'') now
                     [(''gate'', opt_str (human_gate t')), (''gate_position'', gate_position t),
                      (''actor_id'', PStr (gd_actor_id d)), (''decision_reason'', PStr (gd_reason d))]
                     (put_task t' s)) (\<lambda>s1.
         bind_res (require_engagement tenant (tk_engagement t') s1) (\<lambda>e.
           finish_with_reconcile e now s1)))"

definition approve_gate ::
  "ident \<Rightarrow> ident \<Rightarrow> gate_decision \<Rightarrow> time \<Rightarrow> 'a orch_store_scheme
   \<Rightarrow> (engagement_snapshot \<times> 'a orch_store_scheme) res"
where
  "approve_gate tenant tid d now s = decide_gate tenant tid d True now s"

definition reject_gate ::
  "ident \<Rightarrow> ident \<Rightarrow> gate_decision \<Rightarrow> time \<Rightarrow> 'a orch_store_scheme
   \<Rightarrow> (engagement_snapshot \<times> 'a orch_store_scheme) res"
where
  "reject_gate tenant tid d now s = decide_gate tenant tid d False now s"

definition cancel_row :: "string \<Rightarrow> time \<Rightarrow> task_row \<Rightarrow> task_row" where
  "cancel_row reason now t =
     t\<lparr>tk_status := T_CANCELLED, lease_owner := None, lease_expires_at := None, available_at := None,
       tk_completed_at := Some now, error_class := Some ''engagement_cancelled'',
       last_error := Some reason\<rparr>"

definition decision_extra :: "ident \<Rightarrow> string \<Rightarrow> pydict" where
  "decision_extra actor reason = [(''actor_id'', PStr actor), (''decision_reason'', PStr reason)]"

definition cancel_task ::
  "ident \<Rightarrow> string \<Rightarrow> time \<Rightarrow> task_row \<Rightarrow> 'a orch_store_scheme \<Rightarrow> 'a orch_store_scheme res"
where
  "cancel_task actor reason now t s =
     (if tk_status t \<in> TERMINAL_TASK_STATUSES then Inr s
      else
        let t' = cancel_row reason now t; s1 = put_task t' s;
            s2 = (if tk_status t = T_RUNNING
                  then finish_attempt t' A_cancelled now (Some ''engagement_cancelled'') (Some reason) None [] s1
                  else s1)
        in record_task_transition t' (tk_status t) T_CANCELLED ''engagement_cancelled'' now
             (decision_extra actor reason) s2)"

definition cancel_engagement ::
  "ident \<Rightarrow> ident \<Rightarrow> ident \<Rightarrow> string \<Rightarrow> time \<Rightarrow> 'a orch_store_scheme
   \<Rightarrow> (engagement_snapshot \<times> 'a orch_store_scheme) res"
where
  "cancel_engagement tenant eid actor reason now s =
     (if str_strip reason = [] then Inl ValueError
      else
        bind_res (require_engagement tenant eid s) (\<lambda>e.
          if eng_status e \<in> {E_COMPLETED, E_CANCELLED} then Inl InvalidStateTransitionError
          else
            bind_res (fold_res (cancel_task actor reason now) (list_tasks tenant eid s) s) (\<lambda>s1.
              let e1 = e\<lparr>eng_completed_at := Some now\<rparr> in
              bind_res (transition_engagement e1 E_CANCELLED ''cancelled_by_user'' now
                          (decision_extra actor reason) (put_engagement e1 s1))
                (\<lambda>(e2, s2). Inr (snapshot_of e2 s2, s2)))))"

definition snapshot :: "ident \<Rightarrow> ident \<Rightarrow> 'a orch_store_scheme \<Rightarrow> engagement_snapshot res" where
  "snapshot tenant eid s =
     bind_res (require_engagement tenant eid s) (\<lambda>e. Inr (snapshot_of e s))"

definition service_list_attempts ::
  "ident \<Rightarrow> ident option \<Rightarrow> ident option \<Rightarrow> 'a orch_store_scheme \<Rightarrow> attempt_row list res"
where
  "service_list_attempts tenant eng tid s =
     (if eng = None \<and> tid = None then Inl ValueError else Inr (list_attempts tenant eng tid s))"

definition admin_retry_row :: "time \<Rightarrow> task_row \<Rightarrow> task_row" where
  "admin_retry_row now t =
     t\<lparr>tk_status := T_READY, available_at := Some now, tk_completed_at := None, lease_owner := None,
       lease_expires_at := None, error_class := None, last_error := None, review_status := None\<rparr>"

definition force_retry_task ::
  "ident \<Rightarrow> ident \<Rightarrow> ident \<Rightarrow> string \<Rightarrow> time \<Rightarrow> 'a orch_store_scheme
   \<Rightarrow> (engagement_snapshot \<times> 'a orch_store_scheme) res"
where
  "force_retry_task tenant tid actor reason now s =
     (if str_strip reason = [] then Inl ValueError
      else
        bind_res (require_task tenant tid s) (\<lambda>t.
          if tk_status t \<notin> {T_FAILED, T_BLOCKED, T_RETRY_WAIT} then Inl InvalidStateTransitionError
          else
            let t' = admin_retry_row now t in
            bind_res (record_task_transition t' (tk_status t) T_READY ''administrative_retry'' now
                        (decision_extra actor reason) (put_task t' s)) (\<lambda>s1.
            bind_res (require_engagement tenant (tk_engagement t') s1) (\<lambda>e.
              let e1 = e\<lparr>eng_completed_at := None\<rparr> in
              finish_with_reconcile e1 now (put_engagement e1 s1)))))"

definition skip_row :: "time \<Rightarrow> task_row \<Rightarrow> task_row" where
  "skip_row now t =
     t\<lparr>tk_status := T_SKIPPED, tk_completed_at := Some now, available_at := None, lease_owner := None,
       lease_expires_at := None, error_class := None, last_error := None\<rparr>"

definition force_skip_task ::
  "ident \<Rightarrow> ident \<Rightarrow> ident \<Rightarrow> string \<Rightarrow> time \<Rightarrow> 'a orch_store_scheme
   \<Rightarrow> (engagement_snapshot \<times> 'a orch_store_scheme) res"
where
  "force_skip_task tenant tid actor reason now s =
     (if str_strip reason = [] then Inl ValueError
      else
        bind_res (require_task tenant tid s) (\<lambda>t.
          if tk_status t \<in> {T_SUCCEEDED, T_SKIPPED, T_CANCELLED} then Inl InvalidStateTransitionError
          else
            let s0 = (if tk_status t = T_RUNNING
                      then finish_attempt t A_cancelled now (Some ''administrative_skip'') (Some reason) None [] s
                      else s);
                t' = skip_row now t
            in bind_res (record_task_transition t' (tk_status t) T_SKIPPED ''administrative_skip'' now
                           (decision_extra actor reason) (put_task t' s0)) (\<lambda>s1.
               bind_res (require_engagement tenant (tk_engagement t') s1) (\<lambda>e.
                 finish_with_reconcile e now s1))))"

end
