(* ===== verification/Orch_Spec.thy ===== *)
theory Orch_Spec
  imports Orchestrator
begin

text \<open>
  The abstract contract of the orchestrator: a relation between states whose steps are single
  edges of the task and engagement state machines, each with the event that records it. The
  operations of \<open>orchestration/service.py\<close> are shown to be sequences of these steps, so an
  invariant is proved once per edge and holds of every operation.
\<close>

section \<open>Events of the contract\<close>

definition transition_event :: "audit_event \<Rightarrow> task_row \<Rightarrow> task_status \<Rightarrow> string \<Rightarrow> bool" where
  "transition_event e t from_st reason \<longleftrightarrow>
     event_type e = ev_task_transitioned \<and> event_tenant e = tk_tenant t \<and>
     event_engagement e = Some (tk_engagement t) \<and> event_task e = Some (task_id t) \<and>
     map_of (payload e) ''from_status'' = Some (PStr (task_status_value from_st)) \<and>
     map_of (payload e) ''to_status'' = Some (PStr (task_status_value (tk_status t))) \<and>
     map_of (payload e) ''reason'' = Some (PStr reason) \<and>
     map_of (payload e) ''attempt_count'' = Some (PInt (int (attempt_count t)))"

definition engagement_event :: "audit_event \<Rightarrow> engagement_row \<Rightarrow> engagement_status \<Rightarrow> bool" where
  "engagement_event ev e from_st \<longleftrightarrow>
     event_type ev = ev_engagement_transitioned \<and> event_tenant ev = eng_tenant e \<and>
     event_engagement ev = Some (engagement_id e) \<and> event_task ev = None \<and>
     map_of (payload ev) ''from_status'' = Some (PStr (engagement_status_value from_st)) \<and>
     map_of (payload ev) ''to_status'' = Some (PStr (engagement_status_value (eng_status e)))"

definition created_event :: "audit_event \<Rightarrow> task_row \<Rightarrow> bool" where
  "created_event e t \<longleftrightarrow>
     event_type e = ev_task_created \<and> event_tenant e = tk_tenant t \<and>
     event_engagement e = Some (tk_engagement t) \<and> event_task e = Some (task_id t) \<and>
     map_of (payload e) ''task_key'' = Some (PStr (task_key t)) \<and>
     map_of (payload e) ''status'' = Some (PStr (task_status_value (tk_status t)))"

definition projected_types :: "string set" where
  "projected_types = {ev_task_created, ev_task_transitioned, ev_engagement_transitioned}"

definition reserved_keys :: "string set" where
  "reserved_keys = {''from_status'', ''to_status'', ''reason'', ''attempt_count''}"

definition tables_unchanged :: "orch_store \<Rightarrow> orch_store \<Rightarrow> bool" where
  "tables_unchanged s s' \<longleftrightarrow> engagements s' = engagements s \<and> tasks s' = tasks s \<and>
     dependencies s' = dependencies s \<and> attempts s' = attempts s"

lemma tables_unchanged_more: "store.more s' = store.more s \<Longrightarrow> tables_unchanged s s'"
  using tables_more_eq[of s' s] by (simp add: tables_unchanged_def)

lemma record_task_transition_logged:
  assumes "record_task_transition t from_st (tk_status t) reason now extra s = Inr s'"
    and "fst ` set extra \<inter> reserved_keys = {}"
  obtains e where "logged e s s'" "transition_event e t from_st reason" "tables_unchanged s s'"
  using assms(1) unfolding record_task_transition_def
proof (rule record_event_logged)
  fix e assume *: "logged e s s'" "event_type e = ev_task_transitioned" "event_tenant e = tk_tenant t"
    "event_engagement e = Some (tk_engagement t)" "event_task e = Some (task_id t)"
    "payload e = json_safe_dict (isoformat s) (dict_merge
         [(''task_key'', PStr (task_key t)), (''from_status'', PEnum (task_status_value from_st)),
          (''to_status'', PEnum (task_status_value (tk_status t))), (''reason'', PStr reason),
          (''attempt_count'', PInt (int (attempt_count t)))] extra)"
    "store.more s' = store.more s"
  have "''from_status'' \<notin> fst ` set extra" "''to_status'' \<notin> fst ` set extra"
    "''reason'' \<notin> fst ` set extra" "''attempt_count'' \<notin> fst ` set extra"
    using assms(2) by (auto simp: reserved_keys_def)
  then have "transition_event e t from_st reason"
    unfolding transition_event_def *(2-6) by (simp add: map_of_dict_merge_other)
  then show thesis by (rule that[OF *(1) _ tables_unchanged_more[OF *(7)]])
qed

lemma transition_engagement_logged:
  assumes "transition_engagement e target reason now extra s = Inr (e', s')"
    and "fst ` set extra \<inter> reserved_keys = {}"
  obtains (same) "eng_status e = target" "e' = e" "s' = s"
  | (moved) ev where "eng_status e \<noteq> target" "e' = e\<lparr>eng_status := target\<rparr>"
      "logged ev s s'" "engagement_event ev e' (eng_status e)"
      "tables_unchanged (put_engagement e' s) s'"
proof (cases "eng_status e = target")
  case True
  with assms(1) have "e' = e" "s' = s" by (simp_all add: transition_engagement_def)
  with True show thesis by (rule same)
next
  case False
  let ?e = "e\<lparr>eng_status := target\<rparr>"
  from assms(1) False have e': "e' = ?e"
    and rec: "record_event ev_engagement_transitioned (eng_tenant e) ''engagement'' (engagement_id e)
            (dict_merge
              [(''from_status'', PEnum (engagement_status_value (eng_status e))),
               (''to_status'', PEnum (engagement_status_value target)), (''reason'', PStr reason)] extra)
            now (Some (engagement_id e)) None (put_engagement ?e s) = Inr s'"
    by (auto simp: transition_engagement_def Let_def bind_res_eq_Inr)
  from rec show thesis
  proof (rule record_event_logged)
    fix ev assume *: "logged ev (put_engagement ?e s) s'" "event_type ev = ev_engagement_transitioned"
      "event_tenant ev = eng_tenant e" "event_engagement ev = Some (engagement_id e)"
      "event_task ev = None"
      "payload ev = json_safe_dict (isoformat (put_engagement ?e s)) (dict_merge
              [(''from_status'', PEnum (engagement_status_value (eng_status e))),
               (''to_status'', PEnum (engagement_status_value target)), (''reason'', PStr reason)] extra)"
      "store.more s' = store.more (put_engagement ?e s)"
    have keys: "''from_status'' \<notin> fst ` set extra" "''to_status'' \<notin> fst ` set extra"
      using assms(2) by (auto simp: reserved_keys_def)
    have "logged ev s s'" using *(1) by (rule logged_cong) (simp_all add: put_engagement_def)
    moreover from keys have "engagement_event ev e' (eng_status e)"
      unfolding engagement_event_def *(2-6) by (simp add: e' map_of_dict_merge_other)
    ultimately show thesis using moved[OF False e'] tables_unchanged_more[OF *(7)] e' by simp
  qed
qed

section \<open>Edges of the task machine\<close>

inductive task_edge :: "orch_store \<Rightarrow> task_row \<Rightarrow> task_row \<Rightarrow> string \<Rightarrow> bool" for s where
  edge_blocked: "tk_status t = T_PENDING \<Longrightarrow> d \<in> set (dependencies s) \<Longrightarrow> dp_task d = task_id t \<Longrightarrow>
    row task_id (depends_on_task_id d) (tasks s) = Some r \<Longrightarrow> tk_status r \<in> FAILURE_TASK_STATUSES \<Longrightarrow>
    task_edge s t (block_row now t) ''dependency_failed''"
| edge_promoted: "tk_status t = T_PENDING \<Longrightarrow>
    (\<And>d. d \<in> set (dependencies s) \<Longrightarrow> dp_task d = task_id t \<Longrightarrow>
       \<exists>r. row task_id (depends_on_task_id d) (tasks s) = Some r \<and>
           PStr (task_status_value (tk_status r)) \<in> set (allowed_statuses d)) \<Longrightarrow>
    task_edge s t (fst (promote_pending now t)) (snd (promote_pending now t))"
| edge_claimed: "claimable now t \<Longrightarrow> \<not> at_most (deadline_at t) now \<Longrightarrow> 0 < lease_seconds \<Longrightarrow>
    task_edge s t (claim_update worker now lease_seconds t) ''worker_claimed''"
| edge_completed: "lease_matches t worker now \<Longrightarrow>
    task_edge s t (complete_row r now t)
      (if tk_status (complete_row r now t) = T_WAITING_APPROVAL then ''post_execution_gate_required''
       else ''execution_succeeded'')"
| edge_failed: "tk_status t = T_RUNNING \<Longrightarrow> stored_retry_policy t = Inr p \<Longrightarrow>
    task_edge s t (failure_row p fc force message now t)
      (if retry_allowed p fc force now t then ''retry_scheduled'' else ''execution_failed'')"
| edge_gate: "tk_status t = T_WAITING_APPROVAL \<Longrightarrow> truthy (human_gate t) \<Longrightarrow>
    task_edge s t (gate_row approved decision now t)
      (if approved then ''human_gate_approved'' else ''human_gate_rejected'')"
| edge_cancelled: "tk_status t \<notin> TERMINAL_TASK_STATUSES \<Longrightarrow>
    task_edge s t (cancel_row reason now t) ''engagement_cancelled''"
| edge_overdue: "tk_status t \<notin> TERMINAL_TASK_STATUSES \<Longrightarrow> at_most (deadline_at t) now \<Longrightarrow>
    task_edge s t (overdue_row now t) ''deadline_exceeded''"
| edge_retry_due: "tk_status t = T_RETRY_WAIT \<Longrightarrow> at_most (available_at t) now \<Longrightarrow>
    task_edge s t (promote_retry_row t) ''retry_delay_elapsed''"
| edge_admin_retry: "tk_status t \<in> {T_FAILED, T_BLOCKED, T_RETRY_WAIT} \<Longrightarrow>
    task_edge s t (admin_retry_row now t) ''administrative_retry''"
| edge_skipped: "tk_status t \<notin> {T_SUCCEEDED, T_SKIPPED, T_CANCELLED} \<Longrightarrow>
    task_edge s t (skip_row now t) ''administrative_skip''"

lemmas edge_rows = block_row_def promote_pending_def claim_update_def complete_row_def failure_row_def
  gate_row_def cancel_row_def overdue_row_def promote_retry_row_def admin_retry_row_def skip_row_def

lemma edge_fields [simp]:
  "tk_status (block_row now t) = T_BLOCKED"
  "lease_owner (block_row now t) = lease_owner t"
  "lease_expires_at (block_row now t) = lease_expires_at t"
  "attempt_count (block_row now t) = attempt_count t"
  "review_status (block_row now t) = review_status t"
  "tk_status (claim_update w now n t) = T_RUNNING"
  "lease_owner (claim_update w now n t) = Some w"
  "lease_expires_at (claim_update w now n t) = Some (now + of_int n)"
  "attempt_count (claim_update w now n t) = Suc (attempt_count t)"
  "review_status (claim_update w now n t) = review_status t"
  "tk_status (complete_row r now t) = (if truthy (human_gate t) \<and> gate_position t = PStr
     ''after'' then T_WAITING_APPROVAL else T_SUCCEEDED)"
  "lease_owner (complete_row r now t) = None"
  "lease_expires_at (complete_row r now t) = None"
  "attempt_count (complete_row r now t) = attempt_count t"
  "review_status (complete_row r now t) = (if truthy (human_gate t) \<and> gate_position t =
     PStr ''after'' then Some ''pending'' else review_status t)"
  "tk_status (failure_row p fc force message now t) = (if retry_allowed p fc force now t then
     T_RETRY_WAIT else T_FAILED)"
  "lease_owner (failure_row p fc force message now t) = None"
  "lease_expires_at (failure_row p fc force message now t) = None"
  "attempt_count (failure_row p fc force message now t) = attempt_count t"
  "review_status (failure_row p fc force message now t) = review_status t"
  "tk_status (gate_row approved d now t) = (if approved then if gate_position t = PStr
     ''before'' then T_READY else T_SUCCEEDED else T_FAILED)"
  "lease_owner (gate_row approved d now t) = lease_owner t"
  "lease_expires_at (gate_row approved d now t) = lease_expires_at t"
  "attempt_count (gate_row approved d now t) = attempt_count t"
  "review_status (gate_row approved d now t) = Some (if approved then ''approved'' else
     ''rejected'')"
  "tk_status (cancel_row reason now t) = T_CANCELLED"
  "lease_owner (cancel_row reason now t) = None"
  "lease_expires_at (cancel_row reason now t) = None"
  "attempt_count (cancel_row reason now t) = attempt_count t"
  "review_status (cancel_row reason now t) = review_status t"
  "tk_status (overdue_row now t) = T_FAILED"
  "lease_owner (overdue_row now t) = None"
  "lease_expires_at (overdue_row now t) = None"
  "attempt_count (overdue_row now t) = attempt_count t"
  "review_status (overdue_row now t) = review_status t"
  "tk_status (promote_retry_row t) = T_READY"
  "lease_owner (promote_retry_row t) = lease_owner t"
  "lease_expires_at (promote_retry_row t) = lease_expires_at t"
  "attempt_count (promote_retry_row t) = attempt_count t"
  "review_status (promote_retry_row t) = review_status t"
  "tk_status (admin_retry_row now t) = T_READY"
  "lease_owner (admin_retry_row now t) = None"
  "lease_expires_at (admin_retry_row now t) = None"
  "attempt_count (admin_retry_row now t) = attempt_count t"
  "review_status (admin_retry_row now t) = None"
  "tk_status (skip_row now t) = T_SKIPPED"
  "lease_owner (skip_row now t) = None"
  "lease_expires_at (skip_row now t) = None"
  "attempt_count (skip_row now t) = attempt_count t"
  "review_status (skip_row now t) = review_status t"
  "tk_status (fst (promote_pending now t)) = (if at_most (deadline_at t) now then T_FAILED else
     if truthy (human_gate t) \<and> gate_position t = PStr ''before'' \<and> review_status t \<noteq>
     Some ''approved'' then T_WAITING_APPROVAL else T_READY)"
  "lease_owner (fst (promote_pending now t)) = lease_owner t"
  "lease_expires_at (fst (promote_pending now t)) = lease_expires_at t"
  "attempt_count (fst (promote_pending now t)) = attempt_count t"
  "review_status (fst (promote_pending now t)) = (if \<not> at_most (deadline_at t) now \<and>
     truthy (human_gate t) \<and> gate_position t = PStr ''before'' \<and> review_status t \<noteq>
     Some ''approved'' then Some ''pending'' else review_status t)"
  by (simp_all add: edge_rows Let_def)

lemma edge_ids [simp]:
  "task_id (block_row now t) = task_id t"
  "task_id (claim_update w now n t) = task_id t"
  "task_id (complete_row r now t) = task_id t"
  "task_id (failure_row p fc force message now t) = task_id t"
  "task_id (gate_row approved d now t) = task_id t"
  "task_id (cancel_row reason now t) = task_id t"
  "task_id (overdue_row now t) = task_id t"
  "task_id (promote_retry_row t) = task_id t"
  "task_id (admin_retry_row now t) = task_id t"
  "task_id (skip_row now t) = task_id t"
  by (simp_all add: edge_rows Let_def)

lemma edge_rows_frame [simp]:
  assumes "task_edge s t t' reason"
  shows "task_id t' = task_id t" "tk_tenant t' = tk_tenant t" "tk_engagement t' = tk_engagement t"
    "task_key t' = task_key t" "execution_policy_json t' = execution_policy_json t"
    "human_gate t' = human_gate t" "deadline_at t' = deadline_at t" "priority t' = priority t"
    "tk_created_at t' = tk_created_at t" "tk_idempotency_key t' = tk_idempotency_key t"
    "task_type t' = task_type t" "gate_position t' = gate_position t"
    "stored_retry_policy t' = stored_retry_policy t"
  using assms by (cases, auto simp: edge_rows Let_def gate_position_def stored_retry_policy_def)+

section \<open>What happens to attempts\<close>

definition same_attempt :: "attempt_row \<Rightarrow> attempt_row \<Rightarrow> bool" where
  "same_attempt a b \<longleftrightarrow> attempt_id b = attempt_id a \<and> at_tenant b = at_tenant a \<and>
     at_engagement b = at_engagement a \<and> at_task b = at_task a \<and> attempt_no b = attempt_no a \<and>
     at_worker b = at_worker a"

definition attempt_closed :: "ident \<Rightarrow> nat \<Rightarrow> attempt_row list \<Rightarrow> attempt_row list \<Rightarrow> bool" where
  "attempt_closed tid n A B \<longleftrightarrow>
     list_all2 (\<lambda>a b. same_attempt a b \<and>
       (if at_task a = tid \<and> attempt_no a = n then at_status b \<noteq> A_running else b = a)) A B"

definition attempt_opened :: "task_row \<Rightarrow> attempt_row list \<Rightarrow> attempt_row list \<Rightarrow> bool" where
  "attempt_opened t A B \<longleftrightarrow>
     (\<exists>a. B = A @ [a] \<and> at_tenant a = tk_tenant t \<and> at_engagement a = tk_engagement t \<and>
          at_task a = task_id t \<and> attempt_no a = attempt_count t \<and> Some (at_worker a) = lease_owner t \<and>
          at_status a = A_running \<and> \<not> has_key attempt_id (attempt_id a) A \<and>
          \<not> has_key (\<lambda>r. (at_task r, attempt_no r)) (task_id t, attempt_count t) A)"

definition attempts_follow :: "task_row \<Rightarrow> task_row \<Rightarrow> attempt_row list \<Rightarrow> attempt_row list \<Rightarrow> bool" where
  "attempts_follow t t' A B \<longleftrightarrow>
     (if tk_status t = T_RUNNING then attempt_closed (task_id t) (attempt_count t) A B
      else if tk_status t' = T_RUNNING then attempt_opened t' A B
      else B = A)"

section \<open>Steps\<close>

definition tasks_of :: "engagement_row \<Rightarrow> orch_store \<Rightarrow> task_row list" where
  "tasks_of e s = filter (of_engagement (eng_tenant e) (engagement_id e)) (tasks s)"

definition engagement_edge :: "orch_store \<Rightarrow> engagement_row \<Rightarrow> engagement_status \<Rightarrow> bool" where
  "engagement_edge s e target \<longleftrightarrow> tasks_of e s \<noteq> [] \<and> eng_status e \<noteq> E_CANCELLED \<and>
     (eng_status e = E_PLANNED \<and> target = E_RUNNING \<or>
      target = fst (reconcile_target (tk_status ` set (tasks_of e s))))
   \<or> target = E_CANCELLED \<and> eng_status e \<notin> {E_COMPLETED, E_CANCELLED} \<and>
     (\<forall>t \<in> set (tasks_of e s). tk_status t \<in> TERMINAL_TASK_STATUSES)"

inductive ostep :: "orch_store \<Rightarrow> orch_store \<Rightarrow> bool" where
  task_moved: "row task_id (task_id t) (tasks s) = Some t \<Longrightarrow> task_edge s t t' reason \<Longrightarrow>
    logged ev s s' \<Longrightarrow> transition_event ev t' (tk_status t) reason \<Longrightarrow>
    tasks s' = put task_id t' (tasks s) \<Longrightarrow> attempts_follow t t' (attempts s) (attempts s') \<Longrightarrow>
    engagements s' = engagements s \<Longrightarrow> dependencies s' = dependencies s \<Longrightarrow> ostep s s'"
| lease_extended: "row task_id (task_id t) (tasks s) = Some t \<Longrightarrow> lease_matches t worker now \<Longrightarrow>
    t' = t\<lparr>lease_expires_at := Some expires\<rparr> \<Longrightarrow> logged ev s s' \<Longrightarrow> event_type ev \<notin> projected_types \<Longrightarrow>
    tasks s' = put task_id t' (tasks s) \<Longrightarrow>
    list_all2 (\<lambda>a b. same_attempt a b \<and> at_status b = at_status a) (attempts s) (attempts s') \<Longrightarrow>
    engagements s' = engagements s \<Longrightarrow> dependencies s' = dependencies s \<Longrightarrow> ostep s s'"
| engagement_moved: "row engagement_id (engagement_id e) (engagements s) = Some e \<Longrightarrow>
    engagement_edge s e target \<Longrightarrow> eng_status e \<noteq> target \<Longrightarrow> e' = e\<lparr>eng_status := target\<rparr> \<Longrightarrow>
    logged ev s s' \<Longrightarrow> engagement_event ev e' (eng_status e) \<Longrightarrow>
    engagements s' = put engagement_id e' (engagements s) \<Longrightarrow> tasks s' = tasks s \<Longrightarrow>
    dependencies s' = dependencies s \<Longrightarrow> attempts s' = attempts s \<Longrightarrow> ostep s s'"
| engagement_touched: "row engagement_id (engagement_id e) (engagements s) = Some e \<Longrightarrow>
    e' = e\<lparr>eng_started_at := st, eng_completed_at := ct\<rparr> \<Longrightarrow>
    s' = put_engagement e' s \<Longrightarrow> ostep s s'"
| workflow_compiled: "workflow_definition_ok w \<Longrightarrow>
    compile_workflow tenant eid w now s = Inr (sn, s') \<Longrightarrow> ostep s s'"
| engagement_added: "add_engagement e s = Inr s' \<Longrightarrow> eng_status e = E_PLANNED \<Longrightarrow> ostep s s'"
| foreign_event: "logged ev s s' \<Longrightarrow> event_type ev \<notin> projected_types \<Longrightarrow>
    tables_unchanged s s' \<Longrightarrow> ostep s s'"
| environment: "audit_events s' = audit_events s \<Longrightarrow>
    list_all2 outbox_edge\<^sup>*\<^sup>* (outbox_events s) (outbox_events s') \<Longrightarrow>
    tables_unchanged s s' \<Longrightarrow> ostep s s'"

section \<open>Operations as requests\<close>

datatype orch_op =
    AddEngagement engagement_row
  | CompileWorkflow ident ident workflow_definition time
  | StartEngagement ident ident time
  | Tick ident time
  | ClaimNext ident ident int "ident option" "string list" "string list" time
  | Heartbeat ident ident ident int time
  | CompleteTask ident ident ident task_execution_result time
  | FailTask ident ident ident failure_class string "bool option" time
  | ApproveGate ident ident gate_decision time
  | RejectGate ident ident gate_decision time
  | CancelEngagement ident ident ident string time
  | ForceRetryTask ident ident ident string time
  | ForceSkipTask ident ident ident string time
  | OtherEvent string ident ident pydict time "ident option" "ident option"
  | OutboxClaim ident time int int
  | OutboxPublished ident ident time string
  | OutboxFailed ident ident time string rat bool
  | Environment "nat \<Rightarrow> string" "nat \<Rightarrow> time"

text \<open>
  A \<open>WorkflowDefinition\<close> exists only when its validators passed; an engagement is created
  planned; other services append their own events to the shared ledger; dispatchers claim and
  acknowledge outbox messages between the orchestrator's transactions; a new process draws new
  identifiers and clock readings.
\<close>

definition state_of :: "('r \<times> orch_store) res \<Rightarrow> orch_store res" where
  "state_of m = bind_res m (\<lambda>(r, s). Inr s)"

fun orch_step :: "orch_op \<Rightarrow> orch_store \<Rightarrow> orch_store res" where
  "orch_step (AddEngagement e) s =
     (if eng_status e = E_PLANNED then add_engagement e s else Inl ValueError)"
| "orch_step (CompileWorkflow tenant eid w now) s =
     (if workflow_definition_ok w then state_of (compile_workflow tenant eid w now s)
      else Inl ValidationError)"
| "orch_step (StartEngagement tenant eid now) s = state_of (start_engagement tenant eid now s)"
| "orch_step (Tick tenant now) s = state_of (tick tenant now s)"
| "orch_step (ClaimNext tenant worker secs eng types roles now) s =
     state_of (claim_next tenant worker secs eng types roles now s)"
| "orch_step (Heartbeat tenant tid worker secs now) s = state_of (heartbeat tenant tid worker secs now s)"
| "orch_step (CompleteTask tenant tid worker r now) s = state_of (complete_task tenant tid worker r now s)"
| "orch_step (FailTask tenant tid worker fc message force now) s =
     state_of (fail_task tenant tid worker fc message force now s)"
| "orch_step (ApproveGate tenant tid d now) s = state_of (approve_gate tenant tid d now s)"
| "orch_step (RejectGate tenant tid d now) s = state_of (reject_gate tenant tid d now s)"
| "orch_step (CancelEngagement tenant eid actor reason now) s =
     state_of (cancel_engagement tenant eid actor reason now s)"
| "orch_step (ForceRetryTask tenant tid actor reason now) s =
     state_of (force_retry_task tenant tid actor reason now s)"
| "orch_step (ForceSkipTask tenant tid actor reason now) s =
     state_of (force_skip_task tenant tid actor reason now s)"
| "orch_step (OtherEvent etype tenant aid data now eng task) s =
     (if etype \<in> projected_types then Inl ValueError
      else record_event etype tenant ''other'' aid data now eng task s)"
| "orch_step (OutboxClaim worker now secs limit) s = state_of (outbox_claim worker now secs limit s)"
| "orch_step (OutboxPublished oid worker t msg) s =
     (case mark_published oid worker t msg s of (True, s') \<Rightarrow> Inr s' | (False, _) \<Rightarrow> Inl RuntimeError)"
| "orch_step (OutboxFailed oid worker now err delay dead) s =
     (case mark_failed oid worker now err delay dead s of (True, s') \<Rightarrow> Inr s' | (False, _) \<Rightarrow> Inl RuntimeError)"
| "orch_step (Environment us clock) s =
     Inr (s\<lparr>uuids := us, uuids_drawn := 0, wall_clock := clock, clock_reads := 0\<rparr>)"

definition orch_init :: "orch_store \<Rightarrow> bool" where
  "orch_init s \<longleftrightarrow> audit_events s = [] \<and> outbox_events s = [] \<and> engagements s = [] \<and> tasks s = [] \<and>
     dependencies s = [] \<and> attempts s = []"

definition orch_reach :: "orch_store \<Rightarrow> bool" where
  "orch_reach s \<longleftrightarrow> reach orch_init orch_step s"

end
