(* ===== verification/Orch_Inv.thy ===== *)
theory Orch_Inv
  imports Orch_Spec
begin

text \<open>
  The structural invariant of the workflow tables, its preservation by every step of the
  contract, and what compiling a workflow adds to the tables and to the ledger.
\<close>

section \<open>Compilation, table by table\<close>

definition same_log :: "'a store_scheme \<Rightarrow> 'a store_scheme \<Rightarrow> bool" where
  "same_log s s' \<longleftrightarrow> audit_events s' = audit_events s \<and> outbox_events s' = outbox_events s \<and>
     isoformat s' = isoformat s"

lemma same_log_refl [simp]: "same_log s s"
  by (simp add: same_log_def)

lemma same_log_trans: "same_log s t \<Longrightarrow> same_log t u \<Longrightarrow> same_log s u"
  by (simp add: same_log_def)

lemma same_log_draws [simp]: "same_log s (snd (new_id p s))" "same_log s (snd (utc_now s))"
  by (simp_all add: same_log_def new_id_def draw_uuid_def utc_now_def)

lemma tables_of_draws [simp]:
  "tasks (snd (new_id p s)) = tasks s" "engagements (snd (new_id p s)) = engagements s"
  "dependencies (snd (new_id p s)) = dependencies s" "attempts (snd (new_id p s)) = attempts s"
  "tasks (snd (utc_now s)) = tasks s" "engagements (snd (utc_now s)) = engagements s"
  "dependencies (snd (utc_now s)) = dependencies s" "attempts (snd (utc_now s)) = attempts s"
  by (simp_all add: new_id_def draw_uuid_def utc_now_def)

lemma draw_task_ids_frame:
  "draw_task_ids ds s = (ids, s') \<Longrightarrow> map fst ids = map td_key ds \<and> (\<forall>p \<in> set ids. snd p \<noteq> []) \<and>
     same_log s s' \<and> tables_unchanged s s'"
proof (induction ds arbitrary: s ids s')
  case (Cons d ds)
  obtain m u where m: "draw_task_ids ds (snd (new_id ''tsk'' s)) = (m, u)" by fastforce
  with Cons.prems have "ids = (td_key d, fst (new_id ''tsk'' s)) # m" "s' = u"
    by (auto simp: split_beta)
  moreover have "fst (new_id ''tsk'' s) \<noteq> []" by (simp add: new_id_nonempty)
  ultimately show ?case
    using Cons.IH[OF m] same_log_trans[OF same_log_draws(1)] by (auto simp: tables_unchanged_def)
qed (auto simp: tables_unchanged_def)

definition is_new_row ::
  "ident \<Rightarrow> ident \<Rightarrow> string \<Rightarrow> time \<Rightarrow> (string \<times> ident) list \<Rightarrow> task_definition \<Rightarrow> task_row \<Rightarrow> bool"
where
  "is_new_row tenant eid version now ids d t \<longleftrightarrow>
     (\<exists>tid created. map_of ids (td_key d) = Some tid \<and>
        t = new_task_row tenant eid version now tid created d)"

definition is_new_dependency ::
  "ident \<Rightarrow> (string \<times> ident) list \<Rightarrow> task_definition \<times> dependency_definition \<Rightarrow> dependency_row \<Rightarrow> bool"
where
  "is_new_dependency tenant ids p d \<longleftrightarrow>
     dp_tenant d = tenant \<and> map_of ids (td_key (fst p)) = Some (dp_task d) \<and>
     map_of ids (dd_task_key (snd p)) = Some (depends_on_task_id d) \<and>
     condition_json d = [(''allowed_statuses'', allowed_statuses_json (dd_allowed_statuses (snd p)))]"

lemma add_task_Inr:
  "add_task t s = Inr s' \<Longrightarrow> s' = s\<lparr>tasks := tasks s @ [t]\<rparr> \<and> \<not> has_key task_id (task_id t) (tasks s)"
  by (auto simp: add_task_def split: if_splits)

lemma compile_tasks_effect:
  assumes "fold_res (compile_task tenant eid version now ids) ds rs = Inr rs'"
  shows "\<exists>new. fst rs' = fst rs @ new \<and> tasks (snd rs') = tasks (snd rs) @ new \<and>
     list_all2 (is_new_row tenant eid version now ids) ds new \<and> same_log (snd rs) (snd rs') \<and>
     engagements (snd rs') = engagements (snd rs) \<and> dependencies (snd rs') = dependencies (snd rs) \<and>
     attempts (snd rs') = attempts (snd rs) \<and>
     (distinct (map task_id (tasks (snd rs))) \<longrightarrow> distinct (map task_id (tasks (snd rs'))))"
  using assms
proof (induction ds arbitrary: rs)
  case (Cons d ds)
  then obtain u where u: "compile_task tenant eid version now ids d rs = Inr u"
    and rest: "fold_res (compile_task tenant eid version now ids) ds u = Inr rs'" by (auto simp: res_simps)
  from u obtain tid s2 where tid: "map_of ids (td_key d) = Some tid"
    and add: "add_task (new_task_row tenant eid version now tid (fst (utc_now (snd rs))) d)
        (snd (utc_now (snd rs))) = Inr s2"
    and u_eq: "u = (fst rs @ [new_task_row tenant eid version now tid (fst (utc_now (snd rs))) d], s2)"
    by (auto simp: compile_task_def bind_res_eq_Inr split_beta Let_def split: option.splits)
  let ?t = "new_task_row tenant eid version now tid (fst (utc_now (snd rs))) d"
  from Cons.IH[OF rest] obtain new where new: "fst rs' = fst u @ new"
    "tasks (snd rs') = tasks (snd u) @ new"
    "list_all2 (is_new_row tenant eid version now ids) ds new" "same_log (snd u) (snd rs')"
    "engagements (snd rs') = engagements (snd u)" "dependencies (snd rs') = dependencies (snd u)"
    "attempts (snd rs') = attempts (snd u)"
    "distinct (map task_id (tasks (snd u))) \<longrightarrow> distinct (map task_id (tasks (snd rs')))" by blast
  note s2 = add_task_Inr[OF add]
  have "same_log (snd rs) (snd u)" using s2 by (simp add: u_eq same_log_def utc_now_def)
  with new(4) have "same_log (snd rs) (snd rs')" by (rule same_log_trans[rotated])
  moreover have "is_new_row tenant eid version now ids d ?t" using tid by (auto simp: is_new_row_def)
  moreover have "distinct (map task_id (tasks (snd rs))) \<Longrightarrow> distinct (map task_id (tasks (snd u)))"
    using s2 by (auto simp: u_eq has_key_def)
  ultimately show ?case using new s2 by (intro exI[of _ "?t # new"]) (auto simp: u_eq)
qed simp

lemma compile_dependencies_effect:
  assumes "fold_res (compile_dependency tenant ids) ps s = Inr s'"
  shows "\<exists>new. dependencies s' = dependencies s @ new \<and> list_all2 (is_new_dependency tenant ids) ps new \<and>
     same_log s s' \<and> engagements s' = engagements s \<and> tasks s' = tasks s \<and> attempts s' = attempts s"
  using assms
proof (induction ps arbitrary: s)
  case (Cons p ps)
  then obtain u where u: "compile_dependency tenant ids p s = Inr u"
    and rest: "fold_res (compile_dependency tenant ids) ps u = Inr s'" by (auto simp: res_simps)
  from Cons.IH[OF rest] obtain new where new: "dependencies s' = dependencies u @ new"
    "list_all2 (is_new_dependency tenant ids) ps new" "same_log u s'" "engagements s' = engagements u"
    "tasks s' = tasks u" "attempts s' = attempts u" by blast
  from u obtain tid did where ids: "map_of ids (td_key (fst p)) = Some tid"
    "map_of ids (dd_task_key (snd p)) = Some did"
    by (auto simp: compile_dependency_def split_beta split: option.splits)
  define d where "d = \<lparr>dependency_id = fst (new_id ''dep'' s), dp_tenant = tenant, dp_task = tid,
    depends_on_task_id = did,
    condition_json = [(''allowed_statuses'', allowed_statuses_json (dd_allowed_statuses (snd p)))]\<rparr>"
  have d: "is_new_dependency tenant ids p d" using ids by (simp add: d_def is_new_dependency_def)
  from u ids have u_eq: "u = (snd (new_id ''dep'' s))\<lparr>dependencies := dependencies s @ [d]\<rparr>"
    by (auto simp: compile_dependency_def add_dependency_def split_beta d_def split: if_splits)
  have "same_log s u" by (simp add: u_eq same_log_def new_id_def draw_uuid_def)
  with new(3) have "same_log s s'" by (rule same_log_trans[rotated])
  with new d show ?case by (intro exI[of _ "d # new"]) (auto simp: u_eq)
qed simp

section \<open>Sequences of events\<close>

fun logs :: "audit_event list \<Rightarrow> 'a store_scheme \<Rightarrow> 'a store_scheme \<Rightarrow> bool" where
  "logs [] s s' \<longleftrightarrow> same_log s s'"
| "logs (e # es) s s' \<longleftrightarrow> (\<exists>u. logged e s u \<and> logs es u s')"

lemma logs_append: "logs es s t \<Longrightarrow> logged e t u \<Longrightarrow> logs (es @ [e]) s u"
proof (induction es arbitrary: s)
  case Nil
  then have "logged e s u" by (auto simp: same_log_def elim!: logged_cong)
  then show ?case using same_log_refl by auto
qed auto

lemma logs_same: "same_log s t \<Longrightarrow> logs es t u \<Longrightarrow> logs es s u"
proof (cases es)
  case (Cons e es')
  assume "same_log s t" "logs es t u"
  then obtain v where "logged e s v" "logs es' v u"
    unfolding Cons same_log_def using logged_cong[of e t _ s] by auto
  then show ?thesis unfolding Cons by auto
qed (auto intro: same_log_trans)

lemma log_ok_logs: "log_ok s \<Longrightarrow> logs es s t \<Longrightarrow> log_ok t"
proof (induction es arbitrary: s)
  case Nil
  then show ?case using log_ok_cong[of t s] by (simp add: same_log_def)
next
  case (Cons e es)
  then show ?case using log_ok_logged by auto
qed

lemma record_task_created_logged:
  assumes "record_task_created now t s = Inr s'"
  obtains e where "logged e s s'" "created_event e t" "tables_unchanged s s'"
  using assms unfolding record_task_created_def
proof (rule record_event_logged)
  fix e assume *: "logged e s s'" "event_type e = ev_task_created" "event_tenant e = tk_tenant t"
    "event_engagement e = Some (tk_engagement t)" "event_task e = Some (task_id t)"
    "payload e = json_safe_dict (isoformat s)
       [(''task_key'', PStr (task_key t)), (''task_type'', PStr (task_type t)),
        (''status'', PEnum (task_status_value (tk_status t))),
        (''definition_version'', PStr (definition_version t)),
        (''human_gate'', opt_str (human_gate t))]" "store.more s' = store.more s"
  then have "created_event e t" unfolding created_event_def *(2-6) by simp
  then show thesis by (rule that[OF *(1) _ tables_unchanged_more[OF *(7)]])
qed

lemma record_created_effect:
  assumes "fold_res (record_task_created now) ts s = Inr s'"
  shows "\<exists>es. logs es s s' \<and> list_all2 created_event es ts \<and> tables_unchanged s s'"
  using assms
proof (induction ts arbitrary: s)
  case Nil
  then show ?case by (intro exI[of _ "[]"]) (simp add: tables_unchanged_def)
next
  case (Cons t ts)
  then obtain u where u: "record_task_created now t s = Inr u"
    and rest: "fold_res (record_task_created now) ts u = Inr s'" by (auto simp: res_simps)
  from Cons.IH[OF rest] obtain es where es: "logs es u s'" "list_all2 created_event es ts"
    "tables_unchanged u s'" by blast
  from u obtain e where "logged e s u" "created_event e t" "tables_unchanged s u"
    by (rule record_task_created_logged)
  with es show ?case by (intro exI[of _ "e # es"]) (auto simp: tables_unchanged_def)
qed

section \<open>What compiling a workflow does\<close>

record compiled =
  cp_engagement :: engagement_row
  cp_ids :: "(string \<times> ident) list"
  cp_rows :: "task_row list"
  cp_deps :: "dependency_row list"
  cp_events :: "audit_event list"
  cp_final :: audit_event

definition compiled_as ::
  "ident \<Rightarrow> ident \<Rightarrow> workflow_definition \<Rightarrow> time \<Rightarrow> orch_store \<Rightarrow> orch_store \<Rightarrow> compiled \<Rightarrow> bool"
where
  "compiled_as tenant eid w now s s' c \<longleftrightarrow>
     get_engagement tenant eid s = Some (cp_engagement c) \<and> validate w = Inr () \<and>
     list_tasks tenant eid s = [] \<and>
     map fst (cp_ids c) = map td_key (wf_tasks w) \<and> (\<forall>p \<in> set (cp_ids c). snd p \<noteq> []) \<and>
     list_all2 (is_new_row tenant eid (workflow_version w) now (cp_ids c)) (wf_tasks w) (cp_rows c) \<and>
     list_all2 (is_new_dependency tenant (cp_ids c)) (dependency_pairs w) (cp_deps c) \<and>
     list_all2 created_event (cp_events c) (cp_rows c) \<and>
     event_type (cp_final c) = ''orchestration.workflow.compiled'' \<and>
     logs (cp_events c @ [cp_final c]) s s' \<and>
     tasks s' = tasks s @ cp_rows c \<and> dependencies s' = dependencies s @ cp_deps c \<and>
     engagements s' = engagements s \<and> attempts s' = attempts s \<and>
     (distinct (map task_id (tasks s)) \<longrightarrow> distinct (map task_id (tasks s')))"

lemma compile_workflow_effect:
  assumes "compile_workflow tenant eid w now s = Inr (sn, s')"
  obtains c where "compiled_as tenant eid w now s s' c"
proof -
  from assms obtain e rows s1 s2 where e: "get_engagement tenant eid s = Some e"
    and comp: "compile tenant eid w now s = Inr (rows, s1)"
    and created: "fold_res (record_task_created now) rows s1 = Inr s2"
    and final: "record_event ''orchestration.workflow.compiled'' tenant ''engagement'' eid
                 [(''workflow_version'', PStr (workflow_version w)),
                  (''task_count'', PInt (int (length rows))),
                  (''metadata'', PDict (wf_metadata w))] now (Some eid) None s2 = Inr s'"
    by (auto simp: compile_workflow_def bind_res_eq_Inr require_engagement_def split: option.splits)
  obtain ids s0 where draw: "draw_task_ids (wf_tasks w) s = (ids, s0)" by fastforce
  from comp draw obtain st where val: "validate w = Inr ()" and none: "list_tasks tenant eid s = []"
    and trows: "fold_res (compile_task tenant eid (workflow_version w) now ids) (wf_tasks w) ([], s0)
        = Inr (rows, st)"
    and deps: "fold_res (compile_dependency tenant ids) (dependency_pairs w) st = Inr s1"
    by (auto simp: compile_def bind_res_eq_Inr split: if_splits)
  note d = draw_task_ids_frame[OF draw]
  from compile_tasks_effect[OF trows] obtain new_rows where t0: "rows = new_rows" "tasks st = tasks s0 @ new_rows"
    "list_all2 (is_new_row tenant eid (workflow_version w) now ids) (wf_tasks w) new_rows"
    "same_log s0 st" "engagements st = engagements s0" "dependencies st = dependencies s0"
    "attempts st = attempts s0"
    "distinct (map task_id (tasks s0)) \<longrightarrow> distinct (map task_id (tasks st))" by auto
  then have t: "tasks st = tasks s0 @ rows"
    "list_all2 (is_new_row tenant eid (workflow_version w) now ids) (wf_tasks w) rows"
    "same_log s0 st" "engagements st = engagements s0" "dependencies st = dependencies s0"
    "attempts st = attempts s0"
    "distinct (map task_id (tasks s0)) \<longrightarrow> distinct (map task_id (tasks st))" by auto
  from compile_dependencies_effect[OF deps] obtain new where n: "dependencies s1 = dependencies st @ new"
    "list_all2 (is_new_dependency tenant ids) (dependency_pairs w) new" "same_log st s1"
    "engagements s1 = engagements st" "tasks s1 = tasks st" "attempts s1 = attempts st" by blast
  from record_created_effect[OF created] obtain es where es: "logs es s1 s2"
    "list_all2 created_event es rows" "tables_unchanged s1 s2" by blast
  from final obtain ev where ev: "logged ev s2 s'" "event_type ev = ''orchestration.workflow.compiled''"
    "tables_unchanged s2 s'"
    by (rule record_event_logged) (blast intro: tables_unchanged_more)
  have "same_log s s1" using d t(3) n(3) by (blast intro: same_log_trans)
  then have "logs (es @ [ev]) s s'" using logs_append[OF es(1) ev(1)] by (rule logs_same)
  then have "compiled_as tenant eid w now s s'
      \<lparr>cp_engagement = e, cp_ids = ids, cp_rows = rows, cp_deps = new, cp_events = es, cp_final = ev\<rparr>"
    using e val none d t n es ev unfolding compiled_as_def by (simp add: tables_unchanged_def)
  then show thesis by (rule that)
qed

section \<open>The structural invariant\<close>

text \<open>A task is leased exactly while it runs.\<close>

definition task_ok :: "task_row \<Rightarrow> bool" where
  "task_ok t \<longleftrightarrow> task_id t \<noteq> [] \<and>
     (tk_status t = T_RUNNING \<longleftrightarrow> lease_owner t \<noteq> None) \<and>
     (tk_status t = T_RUNNING \<longleftrightarrow> lease_expires_at t \<noteq> None) \<and>
     (tk_status t = T_RUNNING \<longrightarrow> 0 < attempt_count t)"

definition tables_ok :: "orch_store \<Rightarrow> bool" where
  "tables_ok s \<longleftrightarrow>
     distinct (map task_id (tasks s)) \<and> distinct (map engagement_id (engagements s)) \<and>
     distinct (map attempt_id (attempts s)) \<and>
     distinct (map (\<lambda>a. (at_task a, attempt_no a)) (attempts s)) \<and>
     (\<forall>t \<in> set (tasks s). task_ok t \<and>
        (\<exists>e. row engagement_id (tk_engagement t) (engagements s) = Some e \<and> eng_tenant e = tk_tenant t)) \<and>
     (\<forall>d \<in> set (dependencies s). \<exists>t r. row task_id (dp_task d) (tasks s) = Some t \<and>
        row task_id (depends_on_task_id d) (tasks s) = Some r \<and> tk_tenant t = dp_tenant d \<and>
        tk_tenant r = tk_tenant t \<and> tk_engagement r = tk_engagement t)"

text \<open>
  Attempts of a task are numbered from one to its attempt count; the last one runs exactly
  while the task runs, for the worker that holds the lease.
\<close>

definition attempt_ok :: "orch_store \<Rightarrow> attempt_row \<Rightarrow> bool" where
  "attempt_ok s a \<longleftrightarrow>
     (\<exists>t. row task_id (at_task a) (tasks s) = Some t \<and> at_tenant a = tk_tenant t \<and>
          at_engagement a = tk_engagement t \<and> 1 \<le> attempt_no a \<and> attempt_no a \<le> attempt_count t \<and>
          (at_status a = A_running \<longleftrightarrow> tk_status t = T_RUNNING \<and> attempt_no a = attempt_count t) \<and>
          (at_status a = A_running \<longrightarrow> lease_owner t = Some (at_worker a)))"

definition attempts_ok :: "orch_store \<Rightarrow> bool" where
  "attempts_ok s \<longleftrightarrow> (\<forall>a \<in> set (attempts s). attempt_ok s a) \<and>
     (\<forall>t \<in> set (tasks s). \<forall>n. 1 \<le> n \<and> n \<le> attempt_count t \<longrightarrow>
        (\<exists>a \<in> set (attempts s). at_task a = task_id t \<and> attempt_no a = n))"

definition orch_inv :: "orch_store \<Rightarrow> bool" where
  "orch_inv s \<longleftrightarrow> log_ok s \<and> tables_ok s \<and> attempts_ok s"

lemma edge_task_ok: "task_edge s t t' reason \<Longrightarrow> task_ok t \<Longrightarrow> task_ok t'"
  by (induction rule: task_edge.induct)
    (simp_all add: task_ok_def claimable_def)

lemma edge_attempt_count:
  assumes "task_edge s t t' reason"
  shows "attempt_count t' = (if tk_status t' = T_RUNNING then Suc (attempt_count t) else attempt_count t)"
    and "tk_status t = T_RUNNING \<Longrightarrow> tk_status t' \<noteq> T_RUNNING"
  using assms
  by (induction rule: task_edge.induct) (simp_all add: lease_matches_def claimable_def)

lemma ex_row_put:
  assumes "row key i rows = Some x" "key r = key y" "row key (key y) rows = Some y"
  shows "\<exists>z. row key i (put key r rows) = Some z \<and> (z = x \<or> z = r \<and> x = y)"
  using assms by (cases "i = key r") (auto simp: row_put)

lemma tables_ok_task_put:
  assumes ok: "tables_ok s" and t: "row task_id (task_id t) (tasks s) = Some t"
    and same: "task_id t' = task_id t" "tk_tenant t' = tk_tenant t" "tk_engagement t' = tk_engagement t"
    and tok: "task_ok t'" and s': "tasks s' = put task_id t' (tasks s)" "engagements s' = engagements s"
    "dependencies s' = dependencies s"
    and att: "distinct (map attempt_id (attempts s'))"
      "distinct (map (\<lambda>a. (at_task a, attempt_no a)) (attempts s'))"
  shows "tables_ok s'"
proof -
  have dst: "distinct (map task_id (tasks s))" using ok by (simp add: tables_ok_def)
  have old: "\<exists>e. row engagement_id (tk_engagement x) (engagements s) = Some e \<and> eng_tenant e = tk_tenant x"
    if "x \<in> set (tasks s)" for x using ok that by (simp add: tables_ok_def)
  have "task_ok x \<and> (\<exists>e. row engagement_id (tk_engagement x) (engagements s') = Some e \<and>
      eng_tenant e = tk_tenant x)" if "x \<in> set (tasks s')" for x
    using that ok old[of t] old[of x] row_Some[OF t] tok same dst
    by (auto simp: s' in_set_put tables_ok_def split: if_splits)
  moreover have "\<exists>x r. row task_id (dp_task d) (tasks s') = Some x \<and>
        row task_id (depends_on_task_id d) (tasks s') = Some r \<and> tk_tenant x = dp_tenant d \<and>
        tk_tenant r = tk_tenant x \<and> tk_engagement r = tk_engagement x"
    if "d \<in> set (dependencies s')" for d
  proof -
    from that ok s'(3) obtain x r where "row task_id (dp_task d) (tasks s) = Some x"
      "row task_id (depends_on_task_id d) (tasks s) = Some r" "tk_tenant x = dp_tenant d"
      "tk_tenant r = tk_tenant x" "tk_engagement r = tk_engagement x"
      by (auto simp: tables_ok_def)
    with ex_row_put[OF _ same(1) t] same show ?thesis unfolding s'(1) by metis
  qed
  ultimately show ?thesis using ok att dst unfolding tables_ok_def s'(2)
    by (simp add: s' map_key_put)
qed

lemma attempts_distinct_closed:
  assumes "list_all2 (\<lambda>a b. same_attempt a b \<and> P a b) A B"
  shows "map attempt_id B = map attempt_id A"
    and "map (\<lambda>a. (at_task a, attempt_no a)) B = map (\<lambda>a. (at_task a, attempt_no a)) A"
  using assms by (induction rule: list_all2_induct) (auto simp: same_attempt_def)

lemma attempts_distinct_opened:
  assumes "attempt_opened t A B" "distinct (map attempt_id A)"
    "distinct (map (\<lambda>a. (at_task a, attempt_no a)) A)"
  shows "distinct (map attempt_id B) \<and> distinct (map (\<lambda>a. (at_task a, attempt_no a)) B)"
  using assms by (auto simp: attempt_opened_def has_key_image)

lemma attempts_distinct_follow:
  assumes "attempts_follow t t' A B" "distinct (map attempt_id A)"
    "distinct (map (\<lambda>a. (at_task a, attempt_no a)) A)"
  shows "distinct (map attempt_id B) \<and> distinct (map (\<lambda>a. (at_task a, attempt_no a)) B)"
proof (cases "tk_status t = T_RUNNING")
  case True
  with assms(1) have "attempt_closed (task_id t) (attempt_count t) A B" by (simp add: attempts_follow_def)
  then show ?thesis unfolding attempt_closed_def
    using assms(2,3) by (simp add: attempts_distinct_closed)
next
  case False
  with assms attempts_distinct_opened show ?thesis by (auto simp: attempts_follow_def split: if_splits)
qed

lemma list_all2_setD:
  "list_all2 P A B \<Longrightarrow> b \<in> set B \<Longrightarrow> \<exists>a \<in> set A. P a b"
  "list_all2 P A B \<Longrightarrow> a \<in> set A \<Longrightarrow> \<exists>b \<in> set B. P a b"
  by (induction rule: list_all2_induct) auto

text \<open>Every number of a task has its attempt, carried over by each kind of change.\<close>

lemma attempts_ok_move:
  assumes ok: "attempts_ok s" and t: "row task_id (task_id t) (tasks s) = Some t"
    and edge: "task_edge s t t' reason" and tk: "task_ok t'" and s': "tasks s' = put task_id t' (tasks s)"
    and dst: "distinct (map task_id (tasks s))"
    and fol: "attempts_follow t t' (attempts s) (attempts s')"
  shows "attempts_ok s'"
proof -
  note cnt = edge_attempt_count[OF edge] and idt = edge_rows_frame(1-3)[OF edge]
  have look: "row task_id i (tasks s') = (if i = task_id t then Some t' else row task_id i (tasks s))" for i
    using t idt by (simp add: s' row_put)
  have old: "attempt_ok s a" if "a \<in> set (attempts s)" for a using ok that by (simp add: attempts_ok_def)
  have cover: "\<exists>a \<in> set (attempts s). at_task a = task_id x \<and> attempt_no a = n"
    if "x \<in> set (tasks s)" "1 \<le> n" "n \<le> attempt_count x" for x n
    using ok that by (simp add: attempts_ok_def)
  have mem: "x \<in> set (tasks s') \<longleftrightarrow> x = t' \<or> (x \<in> set (tasks s) \<and> task_id x \<noteq> task_id t)" for x
    using in_set_put[OF dst, of x t'] row_Some[OF t] idt by (auto simp: s' has_key_def)
  have tin: "t \<in> set (tasks s)" using row_Some[OF t] by simp
  consider (close) "tk_status t = T_RUNNING" "attempt_closed (task_id t) (attempt_count t) (attempts s) (attempts s')"
    | (opens) "tk_status t \<noteq> T_RUNNING" "tk_status t' = T_RUNNING" "attempt_opened t' (attempts s) (attempts s')"
    | (keep) "tk_status t \<noteq> T_RUNNING" "tk_status t' \<noteq> T_RUNNING" "attempts s' = attempts s"
    using fol by (auto simp: attempts_follow_def split: if_splits)
  then show ?thesis
  proof cases
    case close
    note l2 = close(2)[unfolded attempt_closed_def]
    have c: "attempt_count t' = attempt_count t" "tk_status t' \<noteq> T_RUNNING" using cnt close by auto
    have "attempt_ok s' b" if "b \<in> set (attempts s')" for b
    proof -
      from list_all2_setD(1)[OF l2 that] obtain a where a: "a \<in> set (attempts s)" "same_attempt a b"
        "if at_task a = task_id t \<and> attempt_no a = attempt_count t then at_status b \<noteq> A_running else b = a"
        by blast
      from old[OF a(1)] show ?thesis
        using a(2,3) c idt t by (auto simp: attempt_ok_def look same_attempt_def split: if_splits)
    qed
    moreover have "\<exists>b \<in> set (attempts s'). at_task b = task_id x \<and> attempt_no b = n"
      if x: "x \<in> set (tasks s')" "1 \<le> n" "n \<le> attempt_count x" for x n
    proof -
      obtain a where "a \<in> set (attempts s)" "at_task a = task_id x" "attempt_no a = n"
        using cover[of t n] cover[of x n] x mem tin c(1) idt(1) by auto
      with list_all2_setD(2)[OF l2, of a] show ?thesis by (fastforce simp: same_attempt_def)
    qed
    ultimately show ?thesis unfolding attempts_ok_def by blast
  next
    case opens
    then obtain a where a: "attempts s' = attempts s @ [a]" "at_tenant a = tk_tenant t'"
      "at_engagement a = tk_engagement t'" "at_task a = task_id t'" "attempt_no a = attempt_count t'"
      "Some (at_worker a) = lease_owner t'" "at_status a = A_running" by (auto simp: attempt_opened_def)
    have c: "attempt_count t' = Suc (attempt_count t)" using cnt(1) opens by simp
    have "attempt_ok s' b" if "b \<in> set (attempts s')" for b
    proof (cases "b = a")
      case True
      then show ?thesis using a c opens idt by (simp add: attempt_ok_def look)
    next
      case False
      with that a(1) old[of b] show ?thesis
        using opens(1) c t idt by (auto simp: attempt_ok_def look split: if_splits)
    qed
    moreover have "\<exists>b \<in> set (attempts s'). at_task b = task_id x \<and> attempt_no b = n"
      if "x \<in> set (tasks s')" "1 \<le> n" "n \<le> attempt_count x" for x n
    proof (cases "x = t' \<and> n = attempt_count t'")
      case True
      then show ?thesis using a idt by auto
    next
      case False
      with that mem c have "x \<in> set (tasks s) \<and> n \<le> attempt_count x \<or> x = t' \<and> n \<le> attempt_count t"
        by auto
      with cover[of t n] cover[of x n] that(2) tin idt(1) have "\<exists>b \<in> set (attempts s). at_task b = task_id x \<and> attempt_no b = n"
        by auto
      then show ?thesis by (auto simp: a(1))
    qed
    ultimately show ?thesis unfolding attempts_ok_def by blast
  next
    case keep
    have c: "attempt_count t' = attempt_count t" using cnt(1) keep by simp
    have "attempt_ok s' b" if "b \<in> set (attempts s')" for b
      using old[of b] that keep c t idt by (auto simp: attempt_ok_def look split: if_splits)
    moreover have "\<exists>b \<in> set (attempts s'). at_task b = task_id x \<and> attempt_no b = n"
      if "x \<in> set (tasks s')" "1 \<le> n" "n \<le> attempt_count x" for x n
      using cover[of t n] cover[of x n] that mem tin c idt(1) keep(3) by auto
    ultimately show ?thesis unfolding attempts_ok_def by blast
  qed
qed

section \<open>Preservation\<close>

lemma inv_task_moved:
  assumes "orch_inv s" "row task_id (task_id t) (tasks s) = Some t" "task_edge s t t' reason"
    "logged ev s s'" "tasks s' = put task_id t' (tasks s)"
    "attempts_follow t t' (attempts s) (attempts s')" "engagements s' = engagements s"
    "dependencies s' = dependencies s"
  shows "orch_inv s'"
proof -
  have ok: "tables_ok s" "attempts_ok s" and log: "log_ok s'"
    using assms(1,4) log_ok_logged by (auto simp: orch_inv_def)
  have "task_ok t" using ok(1) row_Some[OF assms(2)] by (auto simp: tables_ok_def)
  then have tok: "task_ok t'" using assms(3) by (rule edge_task_ok[rotated])
  have dst: "distinct (map task_id (tasks s))" and att: "distinct (map attempt_id (attempts s))"
    "distinct (map (\<lambda>a. (at_task a, attempt_no a)) (attempts s))" using ok(1) by (auto simp: tables_ok_def)
  have "tables_ok s'"
    using tables_ok_task_put[OF ok(1) assms(2) _ _ _ tok assms(5,7,8)]
      attempts_distinct_follow[OF assms(6) att] edge_rows_frame[OF assms(3)] by simp
  moreover have "attempts_ok s'" by (rule attempts_ok_move[OF ok(2) assms(2,3) tok assms(5) dst assms(6)])
  ultimately show ?thesis using log by (simp add: orch_inv_def)
qed

lemma attempts_ok_same_status:
  assumes "attempts_ok s"
    and rows: "\<And>i. row task_id i (tasks s') = map_option f (row task_id i (tasks s))"
    and sets: "set (tasks s') = f ` set (tasks s)"
    and f: "\<And>t. task_id (f t) = task_id t \<and> tk_tenant (f t) = tk_tenant t \<and> tk_engagement (f t) = tk_engagement t
        \<and> attempt_count (f t) = attempt_count t \<and> tk_status (f t) = tk_status t \<and> lease_owner (f t) = lease_owner t"
    and l2: "list_all2 (\<lambda>a b. same_attempt a b \<and> at_status b = at_status a) (attempts s) (attempts s')"
  shows "attempts_ok s'"
proof -
  have "attempt_ok s' b" if "b \<in> set (attempts s')" for b
  proof -
    from list_all2_setD(1)[OF l2 that] obtain a where a: "a \<in> set (attempts s)" "same_attempt a b"
      "at_status b = at_status a" by blast
    with assms(1) have "attempt_ok s a" by (simp add: attempts_ok_def)
    with a(2,3) f show ?thesis by (auto simp: attempt_ok_def rows same_attempt_def)
  qed
  moreover have "\<exists>b \<in> set (attempts s'). at_task b = task_id x \<and> attempt_no b = n"
    if "x \<in> set (tasks s')" "1 \<le> n \<and> n \<le> attempt_count x" for x n
  proof -
    from that sets f obtain y where "y \<in> set (tasks s)" "task_id x = task_id y" "attempt_count x = attempt_count y"
      by auto
    with assms(1) that(2) obtain a where "a \<in> set (attempts s)" "at_task a = task_id x" "attempt_no a = n"
      unfolding attempts_ok_def by metis
    with list_all2_setD(2)[OF l2, of a] show ?thesis by (fastforce simp: same_attempt_def)
  qed
  ultimately show ?thesis unfolding attempts_ok_def by blast
qed

lemma inv_lease_extended:
  assumes "orch_inv s" "row task_id (task_id t) (tasks s) = Some t" "lease_matches t worker now"
    "t' = t\<lparr>lease_expires_at := Some expires\<rparr>" "logged ev s s'" "tasks s' = put task_id t' (tasks s)"
    "list_all2 (\<lambda>a b. same_attempt a b \<and> at_status b = at_status a) (attempts s) (attempts s')"
    "engagements s' = engagements s" "dependencies s' = dependencies s"
  shows "orch_inv s'"
proof -
  have ok: "tables_ok s" "attempts_ok s" and log: "log_ok s'"
    using assms(1,5) log_ok_logged by (auto simp: orch_inv_def)
  have dst: "distinct (map task_id (tasks s))" and att: "distinct (map attempt_id (attempts s))"
    "distinct (map (\<lambda>a. (at_task a, attempt_no a)) (attempts s))" using ok(1) by (auto simp: tables_ok_def)
  have "task_ok t" using ok(1) row_Some[OF assms(2)] by (auto simp: tables_ok_def)
  then have "task_ok t'" using assms(3) by (simp add: task_ok_def assms(4) lease_matches_def)
  then have "tables_ok s'"
    using tables_ok_task_put[OF ok(1) assms(2) _ _ _ _ assms(6,8,9)]
      attempts_distinct_closed[OF assms(7)] att by (simp add: assms(4))
  moreover have "attempts_ok s'"
  proof (rule attempts_ok_same_status[OF ok(2) _ _ _ assms(7)])
    let ?f = "\<lambda>x. if task_id x = task_id t then x\<lparr>lease_expires_at := Some expires\<rparr> else x"
    have eq: "tasks s' = map ?f (tasks s)"
      unfolding assms(6) put_def
    proof (rule map_cong[OF refl])
      fix x assume "x \<in> set (tasks s)"
      with dst assms(2) have "task_id x = task_id t \<Longrightarrow> x = t" by (metis option.inject row_distinct)
      then show "(if task_id x = task_id t' then t' else x) = ?f x" by (auto simp: assms(4))
    qed
    show "row task_id i (tasks s') = map_option ?f (row task_id i (tasks s))" for i
      unfolding eq by (rule row_map) simp
    show "set (tasks s') = ?f ` set (tasks s)" by (simp add: eq)
  qed simp
  ultimately show ?thesis using log by (simp add: orch_inv_def)
qed

lemma tables_ok_engagement_put:
  assumes ok: "tables_ok s" and e: "row engagement_id (engagement_id e) (engagements s) = Some e"
    and same: "engagement_id e' = engagement_id e" "eng_tenant e' = eng_tenant e"
    and s': "engagements s' = put engagement_id e' (engagements s)" "tasks s' = tasks s"
      "dependencies s' = dependencies s" "attempts s' = attempts s"
  shows "tables_ok s'"
proof -
  have "\<exists>z. row engagement_id i (engagements s') = Some z \<and> eng_tenant z = tn"
    if "\<exists>z. row engagement_id i (engagements s) = Some z \<and> eng_tenant z = tn" for i tn
    using that ex_row_put[OF _ same(1) e] same(2) unfolding s'(1) by metis
  with ok show ?thesis by (auto simp: tables_ok_def s' map_key_put)
qed

lemma attempts_ok_cong:
  "tasks s' = tasks s \<Longrightarrow> attempts s' = attempts s \<Longrightarrow> attempts_ok s' \<longleftrightarrow> attempts_ok s"
  by (simp add: attempts_ok_def attempt_ok_def)

lemma tables_ok_cong:
  "tables_unchanged s s' \<Longrightarrow> tables_ok s' \<longleftrightarrow> tables_ok s"
  by (simp add: tables_ok_def tables_unchanged_def)

text \<open>The rows of a fresh compilation and what their dependencies point to.\<close>

lemma new_task_row_fields [simp]:
  "task_id (new_task_row tenant eid v now tid cr d) = tid"
  "tk_tenant (new_task_row tenant eid v now tid cr d) = tenant"
  "tk_engagement (new_task_row tenant eid v now tid cr d) = eid"
  "task_key (new_task_row tenant eid v now tid cr d) = td_key d"
  "tk_status (new_task_row tenant eid v now tid cr d) = T_PENDING"
  "attempt_count (new_task_row tenant eid v now tid cr d) = 0"
  "lease_owner (new_task_row tenant eid v now tid cr d) = None"
  "lease_expires_at (new_task_row tenant eid v now tid cr d) = None"
  "review_status (new_task_row tenant eid v now tid cr d) = None"
  "human_gate (new_task_row tenant eid v now tid cr d) = td_human_gate d"
  "execution_policy_json (new_task_row tenant eid v now tid cr d) = persisted_execution_policy d"
  by (simp_all add: new_task_row_def)

lemma compiled_rows:
  assumes "compiled_as tenant eid w now s s' c" "t \<in> set (cp_rows c)"
  obtains d tid created where "d \<in> set (wf_tasks w)" "map_of (cp_ids c) (td_key d) = Some tid"
    "tid \<noteq> []" "t = new_task_row tenant eid (workflow_version w) now tid created d"
proof -
  from assms have l2: "list_all2 (is_new_row tenant eid (workflow_version w) now (cp_ids c)) (wf_tasks w) (cp_rows c)"
    and ne: "\<forall>p \<in> set (cp_ids c). snd p \<noteq> []" by (simp_all add: compiled_as_def)
  from list_all2_setD(1)[OF l2 assms(2)] obtain d tid created where d: "d \<in> set (wf_tasks w)"
    "map_of (cp_ids c) (td_key d) = Some tid"
    "t = new_task_row tenant eid (workflow_version w) now tid created d" by (auto simp: is_new_row_def)
  moreover have "tid \<noteq> []" using ne map_of_SomeD[OF d(2)] by force
  ultimately show thesis using that by blast
qed

lemma compiled_id_row:
  assumes "compiled_as tenant eid w now s s' c" "map_of (cp_ids c) k = Some tid"
    "distinct (map task_id (tasks s'))"
  obtains t where "t \<in> set (cp_rows c)" "row task_id tid (tasks s') = Some t" "tk_tenant t = tenant"
    "tk_engagement t = eid" "task_key t = k"
proof -
  from assms(1) have l2: "list_all2 (is_new_row tenant eid (workflow_version w) now (cp_ids c)) (wf_tasks w) (cp_rows c)"
    and keys: "map fst (cp_ids c) = map td_key (wf_tasks w)" and ts: "tasks s' = tasks s @ cp_rows c"
    by (simp_all add: compiled_as_def)
  have "k \<in> set (map fst (cp_ids c))" using map_of_SomeD[OF assms(2)] by force
  then obtain d where d: "d \<in> set (wf_tasks w)" "td_key d = k" unfolding keys by auto
  from list_all2_setD(2)[OF l2 d(1)] obtain t where t: "t \<in> set (cp_rows c)"
    "is_new_row tenant eid (workflow_version w) now (cp_ids c) d t" by blast
  then have "task_id t = tid" "tk_tenant t = tenant" "tk_engagement t = eid" "task_key t = k"
    using assms(2) d(2) by (auto simp: is_new_row_def)
  moreover have "row task_id (task_id t) (tasks s') = Some t"
    using assms(3) by (rule row_distinct) (simp add: ts t(1))
  ultimately show thesis using that t(1) by simp
qed

lemma get_engagement_row:
  assumes "get_engagement tenant eid s = Some e" "distinct (map engagement_id (engagements s))"
  shows "row engagement_id eid (engagements s) = Some e" "eng_tenant e = tenant" "engagement_id e = eid"
    "e \<in> set (engagements s)"
proof -
  from assms(1) have e: "e \<in> set (engagements s)" "eng_tenant e = tenant" "engagement_id e = eid"
    by (auto simp: get_engagement_def find_Some_iff)
  with row_distinct[OF assms(2) e(1)] show "row engagement_id eid (engagements s) = Some e"
    "eng_tenant e = tenant" "engagement_id e = eid" "e \<in> set (engagements s)" by auto
qed

lemma inv_compiled:
  assumes "orch_inv s" "compiled_as tenant eid w now s s' c"
  shows "orch_inv s'"
proof -
  have ok: "tables_ok s" "attempts_ok s" "log_ok s" using assms(1) by (auto simp: orch_inv_def)
  have dst: "distinct (map task_id (tasks s'))"
    using ok(1) assms(2) unfolding tables_ok_def compiled_as_def by blast
  have ts: "tasks s' = tasks s @ cp_rows c" "dependencies s' = dependencies s @ cp_deps c"
    "engagements s' = engagements s" "attempts s' = attempts s"
    and dl: "list_all2 (is_new_dependency tenant (cp_ids c)) (dependency_pairs w) (cp_deps c)"
    using assms(2) by (auto simp: compiled_as_def)
  have e: "row engagement_id eid (engagements s) = Some (cp_engagement c)" "eng_tenant (cp_engagement c) = tenant"
    using get_engagement_row[of tenant eid s "cp_engagement c"] assms(2) ok(1)
    by (auto simp: compiled_as_def tables_ok_def)
  have keep: "row task_id i (tasks s) = Some t \<Longrightarrow> row task_id i (tasks s') = Some t" for i t
    by (simp add: ts row_append)
  have new: "task_ok t \<and> tk_tenant t = tenant \<and> tk_engagement t = eid \<and> attempt_count t = 0"
    if t: "t \<in> set (cp_rows c)" for t
  proof -
    from assms(2) t obtain d tid created where "tid \<noteq> []"
      "t = new_task_row tenant eid (workflow_version w) now tid created d" by (rule compiled_rows)
    then show ?thesis by (simp add: task_ok_def)
  qed
  have "task_ok t \<and> (\<exists>z. row engagement_id (tk_engagement t) (engagements s') = Some z \<and> eng_tenant z = tk_tenant t)"
    if "t \<in> set (tasks s')" for t
    using that ok(1) new[of t] e by (auto simp: ts tables_ok_def)
  moreover have "\<exists>t r. row task_id (dp_task d) (tasks s') = Some t \<and>
        row task_id (depends_on_task_id d) (tasks s') = Some r \<and> tk_tenant t = dp_tenant d \<and>
        tk_tenant r = tk_tenant t \<and> tk_engagement r = tk_engagement t"
    if "d \<in> set (dependencies s')" for d
  proof (cases "d \<in> set (dependencies s)")
    case True
    with ok(1) keep show ?thesis unfolding tables_ok_def by metis
  next
    case False
    with that ts(2) list_all2_setD(1)[OF dl, of d] obtain p where "is_new_dependency tenant (cp_ids c) p d"
      by auto
    then have p: "dp_tenant d = tenant" "map_of (cp_ids c) (td_key (fst p)) = Some (dp_task d)"
      "map_of (cp_ids c) (dd_task_key (snd p)) = Some (depends_on_task_id d)"
      by (auto simp: is_new_dependency_def)
    from compiled_id_row[OF assms(2) p(2) dst] compiled_id_row[OF assms(2) p(3) dst] p(1)
    show ?thesis by metis
  qed
  ultimately have "tables_ok s'" using ok(1) dst unfolding tables_ok_def by (simp add: ts)
  moreover have "attempts_ok s'"
  proof -
    have "attempt_ok s' a" if "a \<in> set (attempts s')" for a
      using that ok(2) keep by (fastforce simp: ts attempts_ok_def attempt_ok_def)
    moreover have "\<exists>a \<in> set (attempts s'). at_task a = task_id t \<and> attempt_no a = n"
      if "t \<in> set (tasks s')" "1 \<le> n \<and> n \<le> attempt_count t" for t n
      using that ok(2) new[of t] by (auto simp: ts attempts_ok_def)
    ultimately show ?thesis unfolding attempts_ok_def by blast
  qed
  moreover have "log_ok s'" using ok(3) assms(2) log_ok_logs by (auto simp: compiled_as_def)
  ultimately show ?thesis by (simp add: orch_inv_def)
qed

lemma orch_inv_ostep:
  assumes "orch_inv s" "ostep s s'"
  shows "orch_inv s'"
  using assms(2,1)
proof cases
  case (task_moved t t' reason ev)
  show ?thesis by (rule inv_task_moved[OF assms(1) task_moved(1,2,3,5,6,7,8)])
next
  case (lease_extended t worker now t' expires ev)
  show ?thesis by (rule inv_lease_extended[OF assms(1) lease_extended(1-4,6-9)])
next
  case (engagement_moved e target e' ev)
  have "log_ok s'" by (rule log_ok_logged[OF _ engagement_moved(5)]) (use assms(1) in \<open>simp add: orch_inv_def\<close>)
  moreover have "tables_ok s'"
    by (rule tables_ok_engagement_put[OF _ engagement_moved(1) _ _ engagement_moved(7-10)])
      (use assms(1) in \<open>simp_all add: orch_inv_def engagement_moved(4)\<close>)
  ultimately show ?thesis using assms(1) attempts_ok_cong[OF engagement_moved(8,10)]
    by (simp add: orch_inv_def)
next
  case (engagement_touched e e' st ct)
  have "tables_ok s'"
    by (rule tables_ok_engagement_put[OF _ engagement_touched(1), of e'])
      (use assms(1) in \<open>simp_all add: orch_inv_def engagement_touched(2,3) put_engagement_def\<close>)
  then show ?thesis using assms(1) log_ok_cong[of s' s] attempts_ok_cong[of s' s]
    by (simp add: orch_inv_def engagement_touched(3) put_engagement_def)
next
  case (workflow_compiled w tenant eid now sn)
  from workflow_compiled(2) obtain c where "compiled_as tenant eid w now s s' c"
    by (rule compile_workflow_effect)
  with assms(1) show ?thesis by (rule inv_compiled)
next
  case (engagement_added e)
  then have s': "s' = s\<lparr>engagements := engagements s @ [e]\<rparr>" "\<not> has_key engagement_id (engagement_id e) (engagements s)"
    by (auto simp: add_engagement_def split: if_splits)
  have "row engagement_id i (engagements s) = Some z \<Longrightarrow> row engagement_id i (engagements s') = Some z" for i z
    by (simp add: s'(1) row_append)
  with assms(1) s'(2) have "tables_ok s'"
    unfolding orch_inv_def tables_ok_def by (simp add: s'(1) has_key_image) blast
  with assms(1) log_ok_cong[of s' s] attempts_ok_cong[of s' s] show ?thesis by (simp add: orch_inv_def s'(1))
next
  case (foreign_event ev)
  have "log_ok s'" by (rule log_ok_logged[OF _ foreign_event(1)]) (use assms(1) in \<open>simp add: orch_inv_def\<close>)
  with assms(1) tables_ok_cong[OF foreign_event(3)] attempts_ok_cong[of s' s] foreign_event(3)
  show ?thesis by (simp add: orch_inv_def tables_unchanged_def)
next
  case environment
  with assms(1) log_ok_follow[of s s'] tables_ok_cong[of s s'] attempts_ok_cong[of s' s]
  show ?thesis by (simp add: orch_inv_def tables_unchanged_def)
qed

end
