(* ===== verification/Orch_Refine.thy ===== *)
theory Orch_Refine
  imports Orch_Inv
begin

text \<open>
  Refinement: every operation of \<open>orchestration/service.py\<close> is a sequence of steps of the
  contract, and so keeps the structural invariant.
\<close>

section \<open>Progress of an operation\<close>

definition skeleton :: "orch_store \<Rightarrow> dependency_row list \<times> (ident \<times> ident \<times> ident) list" where
  "skeleton s = (dependencies s, map (\<lambda>t. (task_id t, tk_tenant t, tk_engagement t)) (tasks s))"

text \<open>
  \<open>prog s s'\<close>: the contract leads from \<open>s\<close> to \<open>s'\<close> without adding tasks or dependencies.
\<close>

definition prog :: "orch_store \<Rightarrow> orch_store \<Rightarrow> bool" where
  "prog s s' \<longleftrightarrow> ostep\<^sup>*\<^sup>* s s' \<and> orch_inv s' \<and> skeleton s' = skeleton s"

definition live :: "engagement_row \<Rightarrow> orch_store \<Rightarrow> bool" where
  "live e s \<longleftrightarrow> row engagement_id (engagement_id e) (engagements s) = Some e"

lemma prog_refl: "orch_inv s \<Longrightarrow> prog s s"
  by (simp add: prog_def)

lemma prog_trans: "prog s t \<Longrightarrow> prog t u \<Longrightarrow> prog s u"
  by (auto simp: prog_def)

lemma prog_inv: "prog s s' \<Longrightarrow> orch_inv s'"
  by (simp add: prog_def)

lemma prog_step: "orch_inv s \<Longrightarrow> ostep s s' \<Longrightarrow> skeleton s' = skeleton s \<Longrightarrow> prog s s'"
  using orch_inv_ostep by (auto simp: prog_def)

lemma orch_inv_osteps: "ostep\<^sup>*\<^sup>* s s' \<Longrightarrow> orch_inv s \<Longrightarrow> orch_inv s'"
  by (induction rule: rtranclp_induct) (auto intro: orch_inv_ostep)

lemma inv_distinct_tasks: "orch_inv s \<Longrightarrow> distinct (map task_id (tasks s))"
  by (simp add: orch_inv_def tables_ok_def)

lemma inv_distinct_engagements: "orch_inv s \<Longrightarrow> distinct (map engagement_id (engagements s))"
  by (simp add: orch_inv_def tables_ok_def)

lemma skeleton_put:
  assumes "row task_id (task_id t) (tasks s) = Some t" "distinct (map task_id (tasks s))"
    "task_id t' = task_id t" "tk_tenant t' = tk_tenant t" "tk_engagement t' = tk_engagement t"
    "tasks s' = put task_id t' (tasks s)" "dependencies s' = dependencies s"
  shows "skeleton s' = skeleton s"
proof -
  have "map (\<lambda>t. (task_id t, tk_tenant t, tk_engagement t)) (put task_id t' (tasks s)) =
      map (\<lambda>t. (task_id t, tk_tenant t, tk_engagement t)) (tasks s)"
  proof (rule map_put_same)
    fix x assume "x \<in> set (tasks s)" "task_id x = task_id t'"
    then have "x = t" using row_unique[OF assms(2,1)] assms(3) by simp
    with assms(3-5) show "(task_id t', tk_tenant t', tk_engagement t') = (task_id x, tk_tenant x, tk_engagement x)"
      by simp
  qed
  with assms show ?thesis by (simp add: skeleton_def)
qed

section \<open>Single task moves\<close>

definition others_unchanged :: "ident \<Rightarrow> orch_store \<Rightarrow> orch_store \<Rightarrow> bool" where
  "others_unchanged tid s s' \<longleftrightarrow> (\<forall>i. i \<noteq> tid \<longrightarrow> row task_id i (tasks s') = row task_id i (tasks s)) \<and>
     engagements s' = engagements s"

lemma move_prog:
  assumes inv: "orch_inv s" and t: "row task_id (task_id t) (tasks s) = Some t"
    and edge: "task_edge s t t' reason"
    and log: "logged ev u v" "same_log s u" "same_log v s'" "transition_event ev t' (tk_status t) reason"
    and s': "tasks s' = put task_id t' (tasks s)" "attempts_follow t t' (attempts s) (attempts s')"
      "engagements s' = engagements s" "dependencies s' = dependencies s"
  shows "prog s s' \<and> others_unchanged (task_id t) s s' \<and> row task_id (task_id t) (tasks s') = Some t'"
proof -
  have "logged ev s s'" using log(1-3) by (auto simp: same_log_def elim!: logged_cong)
  then have "ostep s s'" by (rule task_moved[OF t edge _ log(4) s'])
  moreover have "skeleton s' = skeleton s"
    by (rule skeleton_put[OF t inv_distinct_tasks[OF inv] _ _ _ s'(1,4)]) (use edge in simp_all)
  ultimately have "prog s s'" using inv by (intro prog_step)
  then show ?thesis using t edge s'(1,3) by (simp add: others_unchanged_def row_put)
qed

lemma put_task_frame [simp]:
  "tasks (put_task t s) = put task_id t (tasks s)" "engagements (put_task t s) = engagements s"
  "dependencies (put_task t s) = dependencies s" "attempts (put_task t s) = attempts s"
  "same_log s (put_task t s)"
  by (simp_all add: put_task_def same_log_def)

lemma finish_attempt_frame [simp]:
  "tasks (finish_attempt t st now f m r refs s) = tasks s"
  "engagements (finish_attempt t st now f m r refs s) = engagements s"
  "dependencies (finish_attempt t st now f m r refs s) = dependencies s"
  "same_log s (finish_attempt t st now f m r refs s)"
  by (simp_all add: finish_attempt_def same_log_def split: option.split)

lemma same_log_finish [simp]:
  "same_log s (finish_attempt t st now f m r refs u) \<longleftrightarrow> same_log s u"
  by (simp add: finish_attempt_def same_log_def split: option.split)

lemma cond_finish_frame [simp]:
  "tasks (if c then finish_attempt t st now f m r refs u else u) = tasks u"
  "engagements (if c then finish_attempt t st now f m r refs u else u) = engagements u"
  "dependencies (if c then finish_attempt t st now f m r refs u else u) = dependencies u"
  "same_log s (if c then finish_attempt t st now f m r refs u else u) \<longleftrightarrow> same_log s u"
  by simp_all

text \<open>A running task has a running attempt, and finishing it closes that attempt only.\<close>

lemma finish_attempt_closes:
  assumes inv: "orch_inv s" and t: "row task_id (task_id t) (tasks s) = Some t" "tk_status t = T_RUNNING"
    and same: "task_id t' = task_id t" "tk_tenant t' = tk_tenant t" "attempt_count t' = attempt_count t"
    and u: "attempts u = attempts s" and st: "st \<noteq> A_running"
  shows "attempt_closed (task_id t) (attempt_count t) (attempts s)
     (attempts (finish_attempt t' st now f m r refs u))"
proof -
  have tin: "t \<in> set (tasks s)" using row_Some[OF t(1)] by simp
  have dst: "distinct (map attempt_id (attempts s))" "distinct (map (\<lambda>a. (at_task a, attempt_no a)) (attempts s))"
    and cnt: "0 < attempt_count t" and ok: "attempts_ok s"
    using inv tin t(2) by (auto simp: orch_inv_def tables_ok_def task_ok_def)
  from ok tin cnt obtain a where a: "a \<in> set (attempts s)" "at_task a = task_id t" "attempt_no a = attempt_count t"
    unfolding attempts_ok_def by (metis One_nat_def Suc_leI order_refl)
  have "attempt_ok s a" using ok a(1) by (simp add: attempts_ok_def)
  then have run: "at_status a = A_running" "at_tenant a = tk_tenant t"
    using t a(2,3) by (simp_all add: attempt_ok_def)
  have uniq: "b = a" if "b \<in> set (attempts s)" "at_task b = task_id t" "attempt_no b = attempt_count t" for b
    using dst(2) a that by (auto simp: distinct_map inj_on_def)
  have get: "get_attempt (tk_tenant t') (task_id t') (attempt_count t') u = Some a"
  proof -
    obtain b where "get_attempt (tk_tenant t') (task_id t') (attempt_count t') u = Some b"
      using a run same by (cases "get_attempt (tk_tenant t') (task_id t') (attempt_count t') u")
        (auto simp: get_attempt_def find_None_iff u)
    then show ?thesis using uniq[of b] same
      by (auto simp: get_attempt_def find_Some_iff u)
  qed
  have "list_all2 (\<lambda>x b. same_attempt x b \<and>
       (if at_task x = task_id t \<and> attempt_no x = attempt_count t then at_status b \<noteq> A_running else b = x))
     A (put attempt_id (a\<lparr>at_status := st, at_completed_at := Some now,
               at_lease_expires_at := lease_expires_at t', at_failure_class := f,
               at_error_message := m, at_result_json := r, at_output_refs := refs\<rparr>) A)"
    if "set A \<subseteq> set (attempts s)" for A
    using that
  proof (induction A)
    case (Cons x A)
    have "x = a" if "attempt_id x = attempt_id a"
      using dst(1) Cons.prems a(1) that by (auto simp: distinct_map inj_on_def)
    with Cons uniq[of x] a st show ?case by (auto simp: put_def same_attempt_def)
  qed (simp add: put_def)
  from this[of "attempts s"] show ?thesis
    using get run by (simp add: finish_attempt_def attempt_closed_def u)
qed

lemma record_move_prog:
  assumes inv: "orch_inv s" and t: "row task_id (task_id t) (tasks s) = Some t"
    and edge: "task_edge s t t' reason"
    and rec: "record_task_transition t' from_st to_st reason now extra u = Inr s'"
    and st: "from_st = tk_status t" "to_st = tk_status t'"
    and extra: "fst ` set extra \<inter> reserved_keys = {}"
    and u: "same_log s u" "tasks u = put task_id t' (tasks s)" "engagements u = engagements s"
      "dependencies u = dependencies s" "attempts_follow t t' (attempts s) (attempts u)"
  shows "prog s s' \<and> others_unchanged (task_id t) s s' \<and> row task_id (task_id t) (tasks s') = Some t'"
proof -
  from rec[unfolded st] extra obtain ev where ev: "logged ev u s'" "transition_event ev t' (tk_status t) reason"
    and tab: "tables_unchanged u s'" by (rule record_task_transition_logged)
  show ?thesis
    by (rule move_prog[OF inv t edge ev(1) u(1) same_log_refl ev(2)])
      (use tab u in \<open>simp_all add: tables_unchanged_def\<close>)
qed

lemma follow_same: "tk_status t \<noteq> T_RUNNING \<Longrightarrow> tk_status t' \<noteq> T_RUNNING \<Longrightarrow> attempts_follow t t' A A"
  by (simp add: attempts_follow_def)

lemma follow_closed: "tk_status t = T_RUNNING \<Longrightarrow> attempt_closed (task_id t) (attempt_count t) A B \<Longrightarrow>
    attempts_follow t t' A B"
  by (simp add: attempts_follow_def)

section \<open>Reconciliation\<close>

definition deps_complete :: "ident list \<Rightarrow> dependency_row list \<Rightarrow> orch_store \<Rightarrow> bool" where
  "deps_complete ids deps s \<longleftrightarrow> set deps \<subseteq> set (dependencies s) \<and>
     (\<forall>d \<in> set (dependencies s). dp_task d \<in> set ids \<longrightarrow> d \<in> set deps)"

lemma reconcile_task_prog:
  assumes inv: "orch_inv (snd cs)" and deps: "deps_complete ids deps (snd cs)" and i: "i \<in> set ids"
    and step: "reconcile_task ids deps now i cs = Inr cs'"
  shows "prog (snd cs) (snd cs') \<and> engagements (snd cs') = engagements (snd cs)"
  using step
proof (cases rule: reconcile_task_cases)
  case same
  with inv show ?thesis by (simp add: prog_refl)
next
  case (blocked t rows)
  have tid: "task_id t = i" using row_Some[OF blocked(1)] by simp
  from blocked(4) obtain r where r: "r \<in> set rows" "tk_status r \<in> FAILURE_TASK_STATUSES" by blast
  from list_all2_setD(1)[OF blocked(3) r(1)] obtain d where "d \<in> set deps" "dp_task d = task_id t"
    "row task_id (depends_on_task_id d) (tasks (snd cs)) = Some r" by auto
  with r(2) have "task_edge (snd cs) t (block_row now t) ''dependency_failed''"
    using deps by (intro edge_blocked[OF blocked(2)]) (auto simp: deps_complete_def)
  then show ?thesis
    using record_move_prog[where t = t, OF inv _ _ blocked(6)]
      blocked(1,2) tid follow_same[of t "block_row now t"]
    by (simp add: others_unchanged_def)
next
  case (promoted t rows)
  have tid: "task_id t = i" using row_Some[OF promoted(1)] by simp
  let ?ds = "filter (\<lambda>d. dp_task d = task_id t) deps"
  have "\<exists>r. row task_id (depends_on_task_id d) (tasks (snd cs)) = Some r \<and>
      PStr (task_status_value (tk_status r)) \<in> set (allowed_statuses d)"
    if "d \<in> set (dependencies (snd cs))" "dp_task d = task_id t" for d
  proof -
    from that deps i tid have "d \<in> set ?ds" by (auto simp: deps_complete_def)
    then obtain n where n: "n < length ?ds" "?ds ! n = d" by (meson in_set_conv_nth)
    then have "n < length rows" "row task_id (depends_on_task_id d) (tasks (snd cs)) = Some (rows ! n)"
      using promoted(3) by (auto simp: list_all2_conv_all_nth)
    moreover from this n have "(d, rows ! n) \<in> set (zip ?ds rows)" by (auto simp: in_set_zip)
    ultimately show ?thesis using promoted(4) by (auto simp: dependencies_satisfied_def)
  qed
  then have "task_edge (snd cs) t (fst (promote_pending now t)) (snd (promote_pending now t))"
    by (intro edge_promoted[OF promoted(2)])
  then show ?thesis
    using record_move_prog[where t = t, OF inv _ _ promoted(6)]
      promoted(1,2) tid follow_same[of t "fst (promote_pending now t)"]
    by (simp add: others_unchanged_def)
qed

lemma deps_complete_skeleton:
  "deps_complete ids deps s \<Longrightarrow> skeleton s' = skeleton s \<Longrightarrow> deps_complete ids deps s'"
  by (simp add: deps_complete_def skeleton_def)

lemma reconcile_pass_prog:
  assumes inv: "orch_inv s" and deps: "deps_complete ids deps s"
    and pass: "reconcile_pass ids deps now s = Inr cs"
  shows "prog s (snd cs) \<and> engagements (snd cs) = engagements s"
proof -
  have "prog s (snd cs) \<and> engagements (snd cs) = engagements s"
    if "fold_res (reconcile_task ids deps now) ids (False, s) = Inr cs"
    using that
  proof (rule fold_res_invariant[where P = "\<lambda>c. prog s (snd c) \<and> engagements (snd c) = engagements s"])
    show "prog s (snd (False, s)) \<and> engagements (snd (False, s)) = engagements s"
      using inv by (simp add: prog_refl)
  next
    fix i a b
    assume *: "i \<in> set ids" "prog s (snd a) \<and> engagements (snd a) = engagements s"
      "reconcile_task ids deps now i a = Inr b"
    then have "prog (snd a) (snd b) \<and> engagements (snd b) = engagements (snd a)"
      using deps deps_complete_skeleton[of ids deps s "snd a"]
      by (intro reconcile_task_prog) (auto simp: prog_def)
    with *(2) show "prog s (snd b) \<and> engagements (snd b) = engagements s" by (auto intro: prog_trans)
  qed
  with pass show ?thesis by (simp add: reconcile_pass_def)
qed

lemma reconcile_loop_prog:
  assumes "orch_inv s" "deps_complete ids deps s" "reconcile_loop ids deps now s = Inr s'"
  shows "prog s s' \<and> engagements s' = engagements s"
  using assms
proof (induction ids deps now s rule: reconcile_loop.induct)
  case (1 ids deps now s)
  from "1.prems"(3) obtain cs where cs: "reconcile_pass ids deps now s = Inr cs"
    and rest: "(if fst cs then reconcile_loop ids deps now (snd cs) else Inr (snd cs)) = Inr s'"
    unfolding reconcile_loop.simps[of ids deps now s] by (auto simp: bind_res_eq_Inr)
  note p = reconcile_pass_prog[OF "1.prems"(1,2) cs]
  show ?case
  proof (cases "fst cs")
    case True
    with "1.IH"[OF cs True] rest p "1.prems"(2) deps_complete_skeleton[of ids deps s "snd cs"]
    have "prog (snd cs) s' \<and> engagements s' = engagements (snd cs)" by (auto simp: prog_def)
    with p show ?thesis by (auto intro: prog_trans)
  next
    case False
    with rest p show ?thesis by simp
  qed
qed

lemma deps_complete_list:
  assumes "orch_inv s"
  shows "deps_complete (map task_id (list_tasks tenant eid s)) (list_dependencies tenant eid s) s"
proof -
  have "d \<in> set (list_dependencies tenant eid s)"
    if d: "d \<in> set (dependencies s)" "dp_task d \<in> set (map task_id (list_tasks tenant eid s))" for d
  proof -
    from d(2) obtain x where x: "x \<in> set (tasks s)" "tk_tenant x = tenant" "tk_engagement x = eid"
      "task_id x = dp_task d" by (auto simp: list_tasks_def of_engagement_def)
    from assms d(1) obtain t where t: "row task_id (dp_task d) (tasks s) = Some t" "tk_tenant t = dp_tenant d"
      unfolding orch_inv_def tables_ok_def by blast
    from row_unique[OF inv_distinct_tasks[OF assms] t(1) x(1,4)] x t d show ?thesis
      by (auto simp: list_dependencies_def)
  qed
  then show ?thesis by (auto simp: deps_complete_def list_dependencies_def)
qed

section \<open>Engagement moves\<close>

definition engagement_others :: "ident \<Rightarrow> orch_store \<Rightarrow> orch_store \<Rightarrow> bool" where
  "engagement_others eid s s' \<longleftrightarrow>
     (\<forall>i. i \<noteq> eid \<longrightarrow> row engagement_id i (engagements s') = row engagement_id i (engagements s))"

lemma touch_prog:
  assumes inv: "orch_inv s" and e: "live e s" and e': "e' = e\<lparr>eng_started_at := st, eng_completed_at := ct\<rparr>"
  shows "prog s (put_engagement e' s) \<and> live e' (put_engagement e' s) \<and>
     engagement_others (engagement_id e) s (put_engagement e' s) \<and> tasks (put_engagement e' s) = tasks s"
proof -
  have "ostep s (put_engagement e' s)"
    using e by (intro engagement_touched[OF _ e' refl]) (simp add: live_def)
  then have "prog s (put_engagement e' s)"
    using inv by (intro prog_step) (simp_all add: skeleton_def put_engagement_def)
  then show ?thesis using e
    by (simp add: live_def engagement_others_def put_engagement_def e' row_put)
qed

lemma transition_prog:
  assumes inv: "orch_inv s" and e: "live e s" and edge: "eng_status e \<noteq> target \<Longrightarrow> engagement_edge s e target"
    and extra: "fst ` set extra \<inter> reserved_keys = {}"
    and tr: "transition_engagement e target reason now extra s = Inr (e', s')"
  shows "prog s s' \<and> live e' s' \<and> engagement_others (engagement_id e) s s' \<and> tasks s' = tasks s \<and>
     e' = e\<lparr>eng_status := target\<rparr>"
  using tr extra
proof (cases rule: transition_engagement_logged)
  case same
  then show ?thesis using inv e by (simp add: prog_refl engagement_others_def)
next
  case (moved ev)
  have "ostep s s'"
    by (rule engagement_moved[OF _ edge[OF moved(1)] moved(1,2,3,4)])
      (use e moved(5) in \<open>simp_all add: live_def tables_unchanged_def put_engagement_def\<close>)
  then have "prog s s'"
    using inv moved(5) by (intro prog_step) (simp_all add: skeleton_def put_engagement_def tables_unchanged_def)
  then show ?thesis using e moved(2,5)
    by (simp add: live_def engagement_others_def put_engagement_def tables_unchanged_def row_put)
qed

text \<open>The statuses the engagement is reconciled from are those of its own tasks.\<close>

lemma tasks_by_ids_of:
  assumes inv: "orch_inv s'" and skel: "skeleton s' = skeleton s"
    and ids: "ids = map task_id (list_tasks tenant eid s)"
    and rows: "map_res (tasks_by_id ids s') ids = Inr ts"
  shows "set ts = set (filter (of_engagement tenant eid) (tasks s'))"
proof -
  have l2: "list_all2 (\<lambda>i t. row task_id i (tasks s') = Some t) ids ts"
    using rows by (simp add: map_res_Inr tasks_by_id_Inr list_all2_conv_all_nth)
  have trip: "(\<lambda>t. (task_id t, tk_tenant t, tk_engagement t)) ` set (tasks s') =
      (\<lambda>t. (task_id t, tk_tenant t, tk_engagement t)) ` set (tasks s)"
    using skel unfolding skeleton_def by (metis (no_types, lifting) list.set_map prod.inject)
  have own: "task_id t \<in> set ids \<longleftrightarrow> of_engagement tenant eid t" if t: "t \<in> set (tasks s')" for t
  proof
    assume "task_id t \<in> set ids"
    then obtain x where x: "x \<in> set (tasks s)" "task_id x = task_id t" "of_engagement tenant eid x"
      by (auto simp: ids list_tasks_def)
    have "(task_id x, tk_tenant x, tk_engagement x) \<in> (\<lambda>t. (task_id t, tk_tenant t, tk_engagement t)) ` set (tasks s')"
      unfolding trip using x(1) by (rule imageI)
    then obtain y where "y \<in> set (tasks s')" "task_id y = task_id t" "tk_tenant y = tk_tenant x"
      "tk_engagement y = tk_engagement x" using x(2) by auto
    moreover from this have "y = t"
      using row_unique[OF inv_distinct_tasks[OF inv] row_distinct[OF inv_distinct_tasks[OF inv] t]] by simp
    ultimately show "of_engagement tenant eid t" using x(3) by (simp add: of_engagement_def)
  next
    assume eng: "of_engagement tenant eid t"
    from t have "(task_id t, tk_tenant t, tk_engagement t) \<in> (\<lambda>t. (task_id t, tk_tenant t, tk_engagement t)) ` set (tasks s')"
      by (rule imageI)
    then obtain x where "x \<in> set (tasks s)" "task_id x = task_id t" "tk_tenant x = tk_tenant t"
      "tk_engagement x = tk_engagement t" unfolding trip by auto
    with eng have "x \<in> set (list_tasks tenant eid s)" "task_id x = task_id t"
      by (simp_all add: list_tasks_def of_engagement_def)
    then show "task_id t \<in> set ids" unfolding ids by (metis image_eqI list.set_map)
  qed
  have "t \<in> set ts \<longleftrightarrow> t \<in> set (tasks s') \<and> task_id t \<in> set ids" for t
  proof
    assume "t \<in> set ts"
    from list_all2_setD(1)[OF l2 this] show "t \<in> set (tasks s') \<and> task_id t \<in> set ids"
      using row_Some by fastforce
  next
    assume t: "t \<in> set (tasks s') \<and> task_id t \<in> set ids"
    with list_all2_setD(2)[OF l2] row_distinct[OF inv_distinct_tasks[OF inv]] show "t \<in> set ts" by fastforce
  qed
  with own show ?thesis by auto
qed

lemma reconcile_engagement_prog:
  assumes inv: "orch_inv s" and e: "live e s" and rec: "reconcile_engagement e now s = Inr (e', s')"
  shows "prog s s' \<and> live e' s' \<and> engagement_others (engagement_id e) s s' \<and>
     engagement_id e' = engagement_id e \<and> eng_tenant e' = eng_tenant e"
proof -
  let ?ids = "map task_id (list_tasks (eng_tenant e) (engagement_id e) s)"
  show ?thesis
  proof (cases "?ids = []")
    case True
    with rec inv e show ?thesis by (simp add: reconcile_engagement_def prog_refl engagement_others_def)
  next
    case False
    with rec obtain u ts where loop: "reconcile_loop ?ids (list_dependencies (eng_tenant e) (engagement_id e) s) now s = Inr u"
      and ts: "map_res (tasks_by_id ?ids u) ?ids = Inr ts"
      and st: "reconcile_engagement_status e ts now u = Inr (e', s')"
      by (auto simp: reconcile_engagement_def bind_res_eq_Inr Let_def)
    from reconcile_loop_prog[OF inv deps_complete_list[OF inv] loop]
    have p: "prog s u" and eu: "engagements u = engagements s" by auto
    have lu: "live e u" using e eu by (simp add: live_def)
    have set_ts: "set ts = set (tasks_of e u)"
      using tasks_by_ids_of[OF _ _ refl ts] p by (simp add: prog_def tasks_of_def)
    moreover have "ts \<noteq> []" using ts False by (auto simp: map_res_Inr)
    ultimately have ne: "tasks_of e u \<noteq> []" by auto
    show ?thesis
    proof (cases "eng_status e = E_CANCELLED")
      case True
      with st p lu eu show ?thesis by (simp add: reconcile_engagement_status_def engagement_others_def)
    next
      case nc: False
      define target where "target = fst (reconcile_target (tk_status ` set ts))"
      define e1 where "e1 = (if target = E_COMPLETED \<or> target = E_FAILED then e\<lparr>eng_completed_at := Some now\<rparr> else e)"
      have tr: "transition_engagement e1 target (snd (reconcile_target (tk_status ` set ts))) now []
          (put_engagement e1 u) = Inr (e', s')"
        using st nc by (simp add: reconcile_engagement_status_def target_def e1_def Let_def split_beta)
      have e1: "e1 = e\<lparr>eng_started_at := eng_started_at e, eng_completed_at := eng_completed_at e1\<rparr>"
        by (simp add: e1_def)
      note touch = touch_prog[OF prog_inv[OF p] lu e1]
      have same: "eng_tenant e1 = eng_tenant e" "engagement_id e1 = engagement_id e" "eng_status e1 = eng_status e"
        by (simp_all add: e1_def)
      have "engagement_edge (put_engagement e1 u) e1 target"
        using nc ne set_ts touch same by (simp add: engagement_edge_def tasks_of_def target_def)
      moreover have "orch_inv (put_engagement e1 u)" using touch prog_inv by blast
      ultimately have "prog (put_engagement e1 u) s' \<and> live e' s' \<and>
          engagement_others (engagement_id e1) (put_engagement e1 u) s' \<and> e' = e1\<lparr>eng_status := target\<rparr>"
        using transition_prog[OF _ _ _ _ tr] touch by auto
      with p touch same eu show ?thesis by (auto simp: engagement_others_def intro: prog_trans)
    qed
  qed
qed

section \<open>Operations\<close>

lemma get_task_row:
  assumes "orch_inv s" "require_task tenant tid s = Inr t"
  shows "row task_id (task_id t) (tasks s) = Some t" "task_id t = tid" "tk_tenant t = tenant"
proof -
  from assms(2) have t: "t \<in> set (tasks s)" "tk_tenant t = tenant" "task_id t = tid"
    by (auto simp: require_task_def get_task_def find_Some_iff split: option.splits)
  then show "row task_id (task_id t) (tasks s) = Some t" "task_id t = tid" "tk_tenant t = tenant"
    using row_distinct[OF inv_distinct_tasks[OF assms(1)] t(1)] by simp_all
qed

lemma require_engagement_live:
  assumes "orch_inv s" "require_engagement tenant eid s = Inr e"
  shows "live e s" "engagement_id e = eid" "eng_tenant e = tenant"
  using get_engagement_row[of tenant eid s e] assms inv_distinct_engagements[OF assms(1)]
  by (auto simp: require_engagement_def live_def split: option.splits)

lemma finish_with_reconcile_prog:
  assumes "orch_inv s" "live e s" "finish_with_reconcile e now s = Inr (sn, s')"
  shows "prog s s'"
  using assms reconcile_engagement_prog[OF assms(1,2)]
  by (auto simp: finish_with_reconcile_def bind_res_eq_Inr)

text \<open>The common tail of the task operations: find the engagement, reconcile it.\<close>

lemma tail_prog:
  assumes "orch_inv s"
    "bind_res (require_engagement tenant eid s) (\<lambda>e. finish_with_reconcile e now s) = Inr (sn, s')"
  shows "prog s s'"
proof -
  from assms(2) obtain e where "require_engagement tenant eid s = Inr e"
    "finish_with_reconcile e now s = Inr (sn, s')" by (auto simp: bind_res_eq_Inr)
  then show ?thesis
    using finish_with_reconcile_prog[OF assms(1) require_engagement_live(1)[OF assms(1)]] by blast
qed

lemma no_reserved [simp]:
  "fst ` set [] \<inter> reserved_keys = {}"
  "fst ` set (decision_extra a r) \<inter> reserved_keys = {}"
  by (simp_all add: decision_extra_def reserved_keys_def)

lemma failure_prog:
  assumes inv: "orch_inv s" and t: "row task_id (task_id t) (tasks s) = Some t" "tk_status t = T_RUNNING"
    and app: "apply_failure t fc message now force s = Inr (t', u)" and st: "st \<noteq> A_running"
  shows "prog s (finish_attempt t' st now f m r refs u) \<and>
     others_unchanged (task_id t) s (finish_attempt t' st now f m r refs u) \<and>
     tk_engagement t' = tk_engagement t \<and> tk_tenant t' = tk_tenant t"
proof -
  from app obtain p extra reason where p: "stored_retry_policy t = Inr p"
    and t': "t' = failure_row p fc force message now t"
    and rec: "record_task_transition t' (tk_status t) (tk_status t') reason now extra (put_task t' s) = Inr u"
    and reason: "reason = (if retry_allowed p fc force now t then ''retry_scheduled'' else ''execution_failed'')"
    and extra: "fst ` set extra \<inter> reserved_keys = {}"
    unfolding apply_failure_def Let_def bind_res_eq_Inr
    by (auto simp: reserved_keys_def split: if_splits)
  have edge: "task_edge s t t' reason" unfolding t' reason by (rule edge_failed[OF t(2) p])
  from rec extra obtain ev where ev: "logged ev (put_task t' s) u" "transition_event ev t' (tk_status t) reason"
    and tab: "tables_unchanged (put_task t' s) u" by (rule record_task_transition_logged)
  have same: "task_id t' = task_id t" "tk_tenant t' = tk_tenant t" "tk_engagement t' = tk_engagement t"
    "attempt_count t' = attempt_count t" using edge by (simp_all add: t')
  have "attempts u = attempts s" using tab by (simp add: tables_unchanged_def)
  then have "attempts_follow t t' (attempts s) (attempts (finish_attempt t' st now f m r refs u))"
    by (intro follow_closed[OF t(2)] finish_attempt_closes[OF inv t same(1,2,4) _ st])
  then show ?thesis
    using move_prog[OF inv t(1) edge ev(1) put_task_frame(5) finish_attempt_frame(4) ev(2)] tab same
    by (simp add: tables_unchanged_def)
qed

lemma recover_expired_lease_prog:
  assumes "orch_inv s" "row task_id (task_id t) (tasks s) = Some t" "tk_status t = T_RUNNING"
    "recover_expired_lease now t s = Inr s'"
  shows "prog s s' \<and> others_unchanged (task_id t) s s'"
proof -
  from assms(4) obtain t' u where "apply_failure t LEASE_EXPIRED lease_expired_message now None s = Inr (t', u)"
    "s' = finish_attempt t' A_lease_expired now (Some (failure_class_value LEASE_EXPIRED))
              (Some lease_expired_message) None [] u"
    by (auto simp: recover_expired_lease_def bind_res_eq_Inr)
  with failure_prog[OF assms(1-3)] show ?thesis by blast
qed

lemma promote_due_retry_prog:
  assumes "orch_inv s" "row task_id (task_id t) (tasks s) = Some t" "tk_status t = T_RETRY_WAIT"
    "at_most (available_at t) now" "promote_due_retry now t s = Inr s'"
  shows "prog s s' \<and> others_unchanged (task_id t) s s'"
  using record_move_prog[OF assms(1,2) edge_retry_due[OF assms(3,4)] assms(5)[unfolded promote_due_retry_def]]
    assms(3) follow_same[of t "promote_retry_row t"] by simp

lemma nonterminal_finish_follow:
  assumes "orch_inv s" "row task_id (task_id t) (tasks s) = Some t"
    "task_id t' = task_id t" "tk_tenant t' = tk_tenant t" "attempt_count t' = attempt_count t"
    "tk_status t' \<noteq> T_RUNNING" "st \<noteq> A_running" "attempts u = attempts s"
  shows "attempts_follow t t' (attempts s)
     (attempts (if tk_status t = T_RUNNING then finish_attempt t' st now f m r refs u else u))"
  using assms finish_attempt_closes[OF assms(1,2) _ assms(3-5,8,7)] follow_same[of t t']
  by (simp add: follow_closed)

lemma fail_overdue_task_prog:
  assumes "orch_inv s" "row task_id (task_id t) (tasks s) = Some t"
    "tk_status t \<notin> TERMINAL_TASK_STATUSES" "at_most (deadline_at t) now" "fail_overdue_task now t s = Inr s'"
  shows "prog s s' \<and> others_unchanged (task_id t) s s'"
proof -
  note edge = edge_overdue[OF assms(3,4)]
  show ?thesis
    using record_move_prog[OF assms(1,2) edge assms(5)[unfolded fail_overdue_task_def Let_def]]
      nonterminal_finish_follow[OF assms(1,2), of "overdue_row now t" A_failed "put_task (overdue_row now t) s"]
      edge_rows_frame[OF edge]
    by simp
qed

lemma cancel_task_prog:
  assumes "orch_inv s" "row task_id (task_id t) (tasks s) = Some t" "cancel_task actor reason now t s = Inr s'"
  shows "prog s s' \<and> others_unchanged (task_id t) s s' \<and>
     (\<exists>t'. row task_id (task_id t) (tasks s') = Some t' \<and> tk_status t' \<in> TERMINAL_TASK_STATUSES)"
proof (cases "tk_status t \<in> TERMINAL_TASK_STATUSES")
  case True
  with assms show ?thesis by (auto simp: cancel_task_def prog_refl others_unchanged_def)
next
  case False
  note edge = edge_cancelled[OF False, of _ reason now]
  have rec: "record_task_transition (cancel_row reason now t) (tk_status t) T_CANCELLED ''engagement_cancelled'' now
      (decision_extra actor reason)
      (if tk_status t = T_RUNNING
       then finish_attempt (cancel_row reason now t) A_cancelled now (Some ''engagement_cancelled'') (Some reason)
              None [] (put_task (cancel_row reason now t) s)
       else put_task (cancel_row reason now t) s) = Inr s'"
    using assms(3) False by (simp add: cancel_task_def Let_def)
  show ?thesis
    using record_move_prog[OF assms(1,2) edge rec]
      nonterminal_finish_follow[OF assms(1,2), of "cancel_row reason now t" A_cancelled "put_task (cancel_row reason now t) s"]
      edge_rows_frame[OF edge]
    by (simp add: TERMINAL_TASK_STATUSES_def)
qed

lemma task_list_live:
  assumes "orch_inv s" "set ts \<subseteq> set (tasks s)" "x \<in> set ts"
  shows "row task_id (task_id x) (tasks s) = Some x"
  using assms row_distinct[OF inv_distinct_tasks[OF assms(1)]] by auto

lemma distinct_ids_sort:
  assumes "orch_inv s"
  shows "distinct (map task_id (sort_key k (filter Q (tasks s))))"
proof -
  have "distinct (tasks s)" "inj_on task_id (set (tasks s))"
    using inv_distinct_tasks[OF assms] by (auto simp: distinct_map)
  then show ?thesis by (auto simp: distinct_map intro: inj_on_subset)
qed

lemma task_loop_prog:
  assumes inv: "orch_inv s" and ts: "ts = sort_key k (filter Q (tasks s))"
    and loop: "fold_res f ts s = Inr s'"
    and step: "\<And>t a b. Q t \<Longrightarrow> orch_inv a \<Longrightarrow> row task_id (task_id t) (tasks a) = Some t \<Longrightarrow> f t a = Inr b \<Longrightarrow>
      prog a b \<and> others_unchanged (task_id t) a b"
  shows "prog s s' \<and> engagements s' = engagements s"
  using loop
proof (rule fold_res_rows[where P = "\<lambda>u. prog s u \<and> engagements u = engagements s" and key = task_id and tbl = tasks])
  show "prog s s \<and> engagements s = engagements s" using inv by (simp add: prog_refl)
  show "distinct (map task_id ts)" unfolding ts by (rule distinct_ids_sort[OF inv])
  show "row task_id (task_id x) (tasks s) = Some x" if "x \<in> set ts" for x
    by (rule task_list_live[OF inv _ that]) (auto simp: ts)
  fix x a b
  assume *: "x \<in> set ts" "prog s a \<and> engagements a = engagements s" "row task_id (task_id x) (tasks a) = Some x"
    "f x a = Inr b"
  then have "prog a b \<and> others_unchanged (task_id x) a b"
    using step[of x a b] by (auto simp: ts prog_def)
  with *(2) show "(prog s b \<and> engagements b = engagements s) \<and>
      (\<forall>i. i \<noteq> task_id x \<longrightarrow> row task_id i (tasks b) = row task_id i (tasks a))"
    by (auto simp: others_unchanged_def intro: prog_trans)
qed

lemma fetched_list_live:
  assumes "orch_inv s" "x \<in> set (sort_key k (filter Q (tasks s)))"
  shows "row task_id (task_id x) (tasks s) = Some x" "Q x"
  using assms task_list_live[OF assms(1), of "sort_key k (filter Q (tasks s))" x] by auto

lemma recover_expired_leases_prog:
  assumes "orch_inv s" "recover_expired_leases tenant now s = Inr (n, s')"
  shows "prog s s'"
proof -
  from assms(2) have loop: "fold_res (recover_expired_lease now) (expired_running_tasks tenant now s) s = Inr s'"
    by (auto simp: recover_expired_leases_def Let_def bind_res_eq_Inr)
  show ?thesis
    using task_loop_prog[OF assms(1) expired_running_tasks_def loop] recover_expired_lease_prog by blast
qed

lemma fail_overdue_tasks_prog:
  assumes "orch_inv s" "fail_overdue_tasks tenant now s = Inr (n, s')"
  shows "prog s s'"
proof -
  from assms(2) have loop: "fold_res (fail_overdue_task now) (overdue_nonterminal_tasks tenant now s) s = Inr s'"
    by (auto simp: fail_overdue_tasks_def Let_def bind_res_eq_Inr)
  show ?thesis
    using task_loop_prog[OF assms(1) overdue_nonterminal_tasks_def loop] fail_overdue_task_prog by blast
qed

lemma promote_due_retries_prog:
  assumes "orch_inv s" "promote_due_retries tenant now s = Inr (n, s')"
  shows "prog s s'"
proof -
  from assms(2) have loop: "fold_res (promote_due_retry now) (due_retry_tasks tenant now s) s = Inr s'"
    by (auto simp: promote_due_retries_def Let_def bind_res_eq_Inr)
  show ?thesis
    using task_loop_prog[OF assms(1) due_retry_tasks_def loop] promote_due_retry_prog by blast
qed

lemma reconcile_active_prog:
  assumes inv: "orch_inv s" and loop: "fold_res (reconcile_active now) (list_active_engagements tenant s) s = Inr s'"
  shows "prog s s'"
  using loop
proof (rule fold_res_rows[where P = "prog s" and key = engagement_id and tbl = engagements])
  let ?es = "list_active_engagements tenant s"
  show "prog s s" using inv by (rule prog_refl)
  have "distinct (engagements s)" "inj_on engagement_id (set (engagements s))"
    using inv_distinct_engagements[OF inv] by (auto simp: distinct_map)
  then show "distinct (map engagement_id ?es)"
    by (auto simp: list_active_engagements_def distinct_map intro: inj_on_subset)
  show "row engagement_id (engagement_id x) (engagements s) = Some x" if "x \<in> set ?es" for x
    using that row_distinct[OF inv_distinct_engagements[OF inv], of x] by (simp add: list_active_engagements_def)
  fix x a b
  assume *: "prog s a" "row engagement_id (engagement_id x) (engagements a) = Some x" "reconcile_active now x a = Inr b"
  then obtain e' where "reconcile_engagement x now a = Inr (e', b)"
    by (auto simp: reconcile_active_def bind_res_eq_Inr)
  from reconcile_engagement_prog[OF prog_inv[OF *(1)] _ this] *(2)
  have "prog a b" "engagement_others (engagement_id x) a b" by (simp_all add: live_def)
  with *(1) show "prog s b \<and> (\<forall>i. i \<noteq> engagement_id x \<longrightarrow>
      row engagement_id i (engagements b) = row engagement_id i (engagements a))"
    by (auto simp: engagement_others_def intro: prog_trans)
qed

lemma tick_prog:
  assumes "orch_inv s" "tick tenant now s = Inr (r, s')"
  shows "prog s s'"
proof -
  from assms(2) obtain n1 n2 n3 s1 s2 s3 where *: "recover_expired_leases tenant now s = Inr (n1, s1)"
    "fail_overdue_tasks tenant now s1 = Inr (n2, s2)" "promote_due_retries tenant now s2 = Inr (n3, s3)"
    "fold_res (reconcile_active now) (list_active_engagements tenant s3) s3 = Inr s'"
    by (auto simp: tick_def bind_res_eq_Inr Let_def)
  have p1: "prog s s1" by (rule recover_expired_leases_prog[OF assms(1) *(1)])
  have p2: "prog s1 s2" by (rule fail_overdue_tasks_prog[OF prog_inv[OF p1] *(2)])
  have p3: "prog s2 s3" by (rule promote_due_retries_prog[OF prog_inv[OF p2] *(3)])
  have p4: "prog s3 s'" by (rule reconcile_active_prog[OF prog_inv[OF p3] *(4)])
  show ?thesis by (rule prog_trans[OF prog_trans[OF prog_trans[OF p1 p2] p3] p4])
qed

lemma start_engagement_prog:
  assumes inv: "orch_inv s" and op: "start_engagement tenant eid now s = Inr (sn, s')"
  shows "prog s s'"
proof -
  from op obtain e e2 s2 where e: "require_engagement tenant eid s = Inr e"
    and planned: "eng_status e = E_PLANNED" and ne: "list_tasks tenant eid s \<noteq> []"
    and tr: "transition_engagement (e\<lparr>eng_started_at := Some now\<rparr>) E_RUNNING ''engagement_started'' now []
        (put_engagement (e\<lparr>eng_started_at := Some now\<rparr>) s) = Inr (e2, s2)"
    and fin: "finish_with_reconcile e2 now s2 = Inr (sn, s')"
    by (auto simp: start_engagement_def bind_res_eq_Inr Let_def split: if_splits)
  let ?e = "e\<lparr>eng_started_at := Some now\<rparr>"
  note l = require_engagement_live[OF inv e]
  have e1: "?e = e\<lparr>eng_started_at := Some now, eng_completed_at := eng_completed_at e\<rparr>" by simp
  note touch = touch_prog[OF inv l(1) e1]
  have i1: "orch_inv (put_engagement ?e s)" using touch prog_inv by blast
  have "tasks_of ?e (put_engagement ?e s) \<noteq> []"
    using ne l(2,3) touch by (auto simp: tasks_of_def list_tasks_def)
  then have "engagement_edge (put_engagement ?e s) ?e E_RUNNING" by (simp add: engagement_edge_def planned)
  then have p2: "prog (put_engagement ?e s) s2" "live e2 s2"
    using transition_prog[OF i1 _ _ _ tr] touch by auto
  with finish_with_reconcile_prog[OF prog_inv[OF p2(1)] p2(2) fin] touch show ?thesis by (blast intro: prog_trans)
qed

lemma claim_first_Some:
  "claim_first tenant worker now secs cs s = (Some t', s1) \<Longrightarrow>
   \<exists>c t. c \<in> set cs \<and> t \<in> set (tasks s) \<and> task_id t = task_id c \<and> claimable now t \<and>
         t' = claim_update worker now secs t \<and> s1 = put_task t' s"
proof (induction cs)
  case (Cons c cs)
  show ?case
  proof (cases "find (\<lambda>t. task_id t = task_id c \<and> tk_tenant t = tenant \<and> claimable now t) (tasks s)")
    case None
    with Cons show ?thesis by auto
  next
    case (Some t)
    with find_SomeD[OF Some] Cons.prems show ?thesis by (auto simp: Let_def)
  qed
qed simp

lemma claim_first_None: "claim_first tenant worker now secs cs s = (None, s1) \<Longrightarrow> s1 = s"
  by (induction cs) (auto simp: Let_def split: option.splits)

lemma start_attempt_Inr:
  assumes "start_attempt t worker now trace s = Inr s'" "lease_owner t = Some worker"
  shows "attempt_opened t (attempts s) (attempts s')" "same_log s s'" "tasks s' = tasks s"
    "engagements s' = engagements s" "dependencies s' = dependencies s"
  using assms unfolding start_attempt_def
  by (auto simp: split_beta Let_def attempt_opened_def same_log_def new_id_def draw_uuid_def split: if_splits)

lemma repo_claim_next_Some:
  assumes "orch_inv s" "repo_claim_next tenant worker now secs eng types roles s = (Some t', s1)"
  obtains t where "row task_id (task_id t) (tasks s) = Some t" "claim_filter tenant now eng types roles t"
    "t' = claim_update worker now secs t" "s1 = put_task t' s"
proof -
  from claim_first_Some[OF assms(2)[unfolded repo_claim_next_def]] obtain c t where
    c: "c \<in> set (take 20 (sort_key (\<lambda>t. (priority t, tk_created_at t, task_key t))
         (filter (claim_filter tenant now eng types roles) (tasks s))))"
    and t: "t \<in> set (tasks s)" "task_id t = task_id c" "claimable now t" "t' = claim_update worker now secs t"
      "s1 = put_task t' s" by blast
  from in_set_takeD[OF c] have cin: "c \<in> set (tasks s)" and fil: "claim_filter tenant now eng types roles c"
    by auto
  note row_t = row_distinct[OF inv_distinct_tasks[OF assms(1)] t(1)]
  have "c = t" by (rule row_unique[OF inv_distinct_tasks[OF assms(1)] row_t cin]) (simp add: t(2))
  with fil show thesis by (intro that[OF row_t _ t(4,5)]) simp
qed

lemma claim_next_prog:
  assumes inv: "orch_inv s" and op: "claim_next tenant worker secs eng types roles now s = Inr (l, s')"
  shows "prog s s'"
proof (cases "repo_claim_next tenant worker now secs eng types roles s")
  case (Pair r s1)
  show ?thesis
  proof (cases r)
    case None
    with Pair claim_first_None have "s1 = s" by (auto simp: repo_claim_next_def)
    with Pair None op have "s' = s" by (auto simp: claim_next_def split: if_splits)
    with inv show ?thesis by (simp add: prog_refl)
  next
    case (Some t')
    with Pair have "repo_claim_next tenant worker now secs eng types roles s = (Some t', s1)" by simp
    with inv obtain t where t: "row task_id (task_id t) (tasks s) = Some t"
      "claim_filter tenant now eng types roles t" "t' = claim_update worker now secs t" "s1 = put_task t' s"
      by (rule repo_claim_next_Some)
    from op Pair Some obtain s2 where secs: "0 < secs" and s2: "start_attempt t' worker now None s1 = Inr s2"
      and rec: "record_task_transition t' T_READY T_RUNNING ''worker_claimed'' now
          [(''worker_id'', PStr worker), (''lease_expires_at'', opt_time (lease_expires_at t'))] s2 = Inr s'"
      by (auto simp: claim_next_def bind_res_eq_Inr split: if_splits)
    have cl: "claimable now t" "\<not> at_most (deadline_at t) now" using t(2) by (auto simp: claim_filter_def)
    note edge = edge_claimed[OF cl secs, of s worker]
    note at = start_attempt_Inr[OF s2]
    have ready: "tk_status t = T_READY" using cl(1) by (simp add: claimable_def)
    have "attempts_follow t t' (attempts s) (attempts s2)"
      using at(1) ready t(3,4) by (simp add: attempts_follow_def)
    moreover have "same_log s s2" using at(2) t(3,4) same_log_trans[OF put_task_frame(5)] by simp
    ultimately show ?thesis
      using record_move_prog[OF inv t(1) edge rec[unfolded t(3)]] at t(3,4) ready
      by (simp add: reserved_keys_def)
  qed
qed

lemma heartbeat_prog:
  assumes inv: "orch_inv s" and op: "heartbeat tenant tid worker secs now s = Inr (l, s')"
  shows "prog s s'"
proof -
  from op obtain t where t: "find (\<lambda>t. tk_tenant t = tenant \<and> task_id t = tid \<and> lease_matches t worker now) (tasks s) = Some t"
    by (auto simp: heartbeat_def extend_lease_def split: if_splits option.splits)
  let ?t = "t\<lparr>lease_expires_at := Some (now + of_int secs)\<rparr>"
  let ?u = "update_attempt_lease tenant (task_id ?t) (attempt_count ?t) (lease_expires_at ?t) (put_task ?t s)"
  from op t have "record_event ''orchestration.task.heartbeat'' tenant ''task'' (task_id ?t)
      [(''worker_id'', PStr worker), (''lease_expires_at'', opt_time (lease_expires_at ?t)),
       (''attempt_count'', PInt (int (attempt_count ?t)))]
      now (Some (tk_engagement ?t)) (Some (task_id ?t)) ?u = Inr s'"
    by (auto simp: heartbeat_def extend_lease_def Let_def bind_res_eq_Inr split: if_splits)
  then obtain ev where ev: "logged ev ?u s'" "event_type ev = ''orchestration.task.heartbeat''"
    "tables_unchanged ?u s'" by (rule record_event_logged) (blast intro: tables_unchanged_more)
  from t have tin: "t \<in> set (tasks s)" and lm: "lease_matches t worker now" by (auto simp: find_Some_iff)
  note row_t = row_distinct[OF inv_distinct_tasks[OF inv] tin]
  have "logged ev s s'" using ev(1) by (rule logged_cong) (simp_all add: update_attempt_lease_def put_task_def)
  then have "ostep s s'"
    by (rule lease_extended[OF row_t lm refl])
      (use ev in \<open>auto simp: projected_types_def ev_task_created_def ev_task_transitioned_def
        ev_engagement_transitioned_def tables_unchanged_def update_attempt_lease_def list_all2_map2
        same_attempt_def intro!: list_all2_refl\<close>)
  then show ?thesis
    using inv skeleton_put[OF row_t inv_distinct_tasks[OF inv], of ?t s'] ev(3)
    by (intro prog_step) (simp_all add: tables_unchanged_def update_attempt_lease_def)
qed

lemma complete_task_prog:
  assumes inv: "orch_inv s" and op: "complete_task tenant tid worker r now s = Inr (sn, s')"
  shows "prog s s'"
proof -
  from op obtain t s2 where t: "require_task tenant tid s = Inr t" and lm: "lease_matches t worker now"
    and rec: "record_task_transition (complete_row r now t) (tk_status t) (tk_status (complete_row r now t))
        (if tk_status (complete_row r now t) = T_WAITING_APPROVAL then ''post_execution_gate_required''
         else ''execution_succeeded'') now
        [(''output_refs'', PList (map PStr (output_refs_json (complete_row r now t))))]
        (finish_attempt (complete_row r now t) A_succeeded now None None (Some (er_result r)) (er_output_refs r)
          (put_task (complete_row r now t) s)) = Inr s2"
    and tail: "bind_res (require_engagement tenant (tk_engagement (complete_row r now t)) s2)
        (\<lambda>e. finish_with_reconcile e now s2) = Inr (sn, s')"
    unfolding complete_task_def Let_def bind_res_eq_Inr by (auto simp: require_lease_def split: if_splits)
  note row_t = get_task_row[OF inv t]
  have run: "tk_status t = T_RUNNING" using lm by (simp add: lease_matches_def)
  note edge = edge_completed[OF lm, of s r]
  have "attempts_follow t (complete_row r now t) (attempts s)
      (attempts (finish_attempt (complete_row r now t) A_succeeded now None None (Some (er_result r))
        (er_output_refs r) (put_task (complete_row r now t) s)))"
    by (rule follow_closed[OF run finish_attempt_closes[OF inv row_t(1) run]])
      (simp_all add: edge_rows_frame(2)[OF edge])
  then have "prog s s2"
    using record_move_prog[OF inv row_t(1) edge rec] by (simp add: reserved_keys_def)
  with tail_prog[OF prog_inv tail] show ?thesis by (blast intro: prog_trans)
qed

lemma fail_task_prog:
  assumes inv: "orch_inv s" and op: "fail_task tenant tid worker fc message force now s = Inr (sn, s')"
  shows "prog s s'"
proof -
  from op obtain t t' u where t: "require_task tenant tid s = Inr t" and lm: "lease_matches t worker now"
    and app: "apply_failure t fc message now force s = Inr (t', u)"
    and tail: "bind_res (require_engagement tenant (tk_engagement t')
          (finish_attempt t' (if tk_status t' = T_RETRY_WAIT then A_retry_scheduled else A_failed) now
            (Some (failure_class_value fc)) (Some message) None [] u))
        (\<lambda>e. finish_with_reconcile e now
          (finish_attempt t' (if tk_status t' = T_RETRY_WAIT then A_retry_scheduled else A_failed) now
            (Some (failure_class_value fc)) (Some message) None [] u)) = Inr (sn, s')"
    unfolding fail_task_def Let_def bind_res_eq_Inr
    by (auto simp: require_lease_def bind_res_eq_Inr split: if_splits)
  have run: "tk_status t = T_RUNNING" using lm by (simp add: lease_matches_def)
  have "prog s (finish_attempt t' (if tk_status t' = T_RETRY_WAIT then A_retry_scheduled else A_failed) now
            (Some (failure_class_value fc)) (Some message) None [] u)"
    using failure_prog[OF inv get_task_row(1)[OF inv t] run app] by simp
  with tail_prog[OF prog_inv tail] show ?thesis by (blast intro: prog_trans)
qed

lemma decide_gate_prog:
  assumes inv: "orch_inv s" and op: "decide_gate tenant tid d approved now s = Inr (sn, s')"
  shows "prog s s'"
proof -
  from op obtain t s1 where t: "require_task tenant tid s = Inr t" and w: "tk_status t = T_WAITING_APPROVAL"
    and g: "truthy (human_gate t)"
    and rec: "record_task_transition (gate_row approved d now t) T_WAITING_APPROVAL
        (tk_status (gate_row approved d now t))
        (if approved then ''human_gate_approved'' else ''human_gate_rejected'') now
        [(''gate'', opt_str (human_gate (gate_row approved d now t))), (''gate_position'', gate_position t),
         (''actor_id'', PStr (gd_actor_id d)), (''decision_reason'', PStr (gd_reason d))]
        (put_task (gate_row approved d now t) s) = Inr s1"
    and tail: "bind_res (require_engagement tenant (tk_engagement (gate_row approved d now t)) s1)
        (\<lambda>e. finish_with_reconcile e now s1) = Inr (sn, s')"
    unfolding decide_gate_def Let_def bind_res_eq_Inr if_Inl_eq_Inr by blast
  note edge = edge_gate[OF w g, of s approved d now]
  have "prog s s1"
    using record_move_prog[OF inv get_task_row(1)[OF inv t] edge rec] w
      follow_same[of t "gate_row approved d now t"] by (simp add: reserved_keys_def)
  with tail_prog[OF prog_inv tail] show ?thesis by (blast intro: prog_trans)
qed

lemma force_skip_task_prog:
  assumes inv: "orch_inv s" and op: "force_skip_task tenant tid actor reason now s = Inr (sn, s')"
  shows "prog s s'"
proof -
  define fin where "fin t = (if tk_status t = T_RUNNING
      then finish_attempt t A_cancelled now (Some ''administrative_skip'') (Some reason) None [] s else s)" for t
  from op obtain t s1 where t: "require_task tenant tid s = Inr t"
    and st: "tk_status t \<notin> {T_SUCCEEDED, T_SKIPPED, T_CANCELLED}"
    and rec: "record_task_transition (skip_row now t) (tk_status t) T_SKIPPED ''administrative_skip'' now
        (decision_extra actor reason) (put_task (skip_row now t) (fin t)) = Inr s1"
    and tail: "bind_res (require_engagement tenant (tk_engagement (skip_row now t)) s1)
        (\<lambda>e. finish_with_reconcile e now s1) = Inr (sn, s')"
    unfolding force_skip_task_def Let_def bind_res_eq_Inr fin_def by (auto simp: bind_res_eq_Inr split: if_splits)
  note row_t = get_task_row(1)[OF inv t]
  note edge = edge_skipped[OF st, of s now]
  have "attempts_follow t (skip_row now t) (attempts s) (attempts (fin t))"
    unfolding fin_def
    using finish_attempt_closes[OF inv row_t, of t s A_cancelled] follow_same[of t "skip_row now t"]
    by (simp add: follow_closed)
  moreover have "tasks (fin t) = tasks s" "engagements (fin t) = engagements s"
    "dependencies (fin t) = dependencies s" "same_log s (fin t)" by (simp_all add: fin_def)
  moreover from this(4) have "same_log s (put_task (skip_row now t) (fin t))"
    using put_task_frame(5) by (rule same_log_trans)
  ultimately have "prog s s1" using record_move_prog[OF inv row_t edge rec] by simp
  with tail_prog[OF prog_inv tail] show ?thesis by (blast intro: prog_trans)
qed

lemma force_retry_task_prog:
  assumes inv: "orch_inv s" and op: "force_retry_task tenant tid actor reason now s = Inr (sn, s')"
  shows "prog s s'"
proof -
  from op obtain t s1 e where t: "require_task tenant tid s = Inr t"
    and st: "tk_status t \<in> {T_FAILED, T_BLOCKED, T_RETRY_WAIT}"
    and rec: "record_task_transition (admin_retry_row now t) (tk_status t) T_READY ''administrative_retry'' now
        (decision_extra actor reason) (put_task (admin_retry_row now t) s) = Inr s1"
    and e: "require_engagement tenant (tk_engagement (admin_retry_row now t)) s1 = Inr e"
    and fin: "finish_with_reconcile (e\<lparr>eng_completed_at := None\<rparr>) now
        (put_engagement (e\<lparr>eng_completed_at := None\<rparr>) s1) = Inr (sn, s')"
    unfolding force_retry_task_def Let_def bind_res_eq_Inr by (auto simp: bind_res_eq_Inr split: if_splits)
  note edge = edge_admin_retry[OF st, of s now]
  have p1: "prog s s1"
    using record_move_prog[OF inv get_task_row(1)[OF inv t] edge rec] st
      follow_same[of t "admin_retry_row now t"] by auto
  let ?e = "e\<lparr>eng_completed_at := None\<rparr>"
  have e1: "?e = e\<lparr>eng_started_at := eng_started_at e, eng_completed_at := None\<rparr>" by simp
  note touch = touch_prog[OF prog_inv[OF p1] require_engagement_live(1)[OF prog_inv[OF p1] e] e1]
  then have p2: "prog s1 (put_engagement ?e s1)" and l2: "live ?e (put_engagement ?e s1)" by auto
  from finish_with_reconcile_prog[OF prog_inv[OF p2] l2 fin] p1 p2 show ?thesis by (blast intro: prog_trans)
qed

section \<open>Cancelling\<close>

lemma cancel_loop_prog:
  assumes "fold_res (cancel_task actor reason now) ts s = Inr s'" "orch_inv s" "distinct (map task_id ts)"
    "\<And>x. x \<in> set ts \<Longrightarrow> row task_id (task_id x) (tasks s) = Some x"
  shows "prog s s' \<and> engagements s' = engagements s \<and>
     (\<forall>i. i \<notin> task_id ` set ts \<longrightarrow> row task_id i (tasks s') = row task_id i (tasks s)) \<and>
     (\<forall>i \<in> task_id ` set ts. \<exists>t'. row task_id i (tasks s') = Some t' \<and> tk_status t' \<in> TERMINAL_TASK_STATUSES)"
  using assms
proof (induction ts arbitrary: s)
  case Nil
  then show ?case by (simp add: prog_refl)
next
  case (Cons t ts)
  from Cons.prems(1) obtain u where u: "cancel_task actor reason now t s = Inr u"
    "fold_res (cancel_task actor reason now) ts u = Inr s'" by (auto simp: res_simps)
  note c = cancel_task_prog[OF Cons.prems(2) Cons.prems(4)[OF list.set_intros(1)] u(1)]
  have nin: "task_id t \<notin> task_id ` set ts" and dst: "distinct (map task_id ts)" using Cons.prems(3) by auto
  have "row task_id (task_id x) (tasks u) = Some x" if "x \<in> set ts" for x
  proof -
    have "task_id x \<noteq> task_id t" using nin that by (metis imageI)
    then show ?thesis using c Cons.prems(4)[of x] that by (simp add: others_unchanged_def)
  qed
  with Cons.IH[OF u(2) _ dst] c have ih: "prog u s'" "engagements s' = engagements u"
    "\<forall>i. i \<notin> task_id ` set ts \<longrightarrow> row task_id i (tasks s') = row task_id i (tasks u)"
    "\<forall>i \<in> task_id ` set ts. \<exists>t'. row task_id i (tasks s') = Some t' \<and> tk_status t' \<in> TERMINAL_TASK_STATUSES"
    by (auto simp: prog_def)
  have "prog s s'" using c ih(1) by (blast intro: prog_trans)
  moreover have "engagements s' = engagements s" using c ih(2) by (simp add: others_unchanged_def)
  moreover have "row task_id i (tasks s') = row task_id i (tasks s)" if "i \<notin> task_id ` set (t # ts)" for i
    using that c ih(3) by (simp add: others_unchanged_def)
  moreover have "\<exists>t'. row task_id i (tasks s') = Some t' \<and> tk_status t' \<in> TERMINAL_TASK_STATUSES"
    if "i \<in> task_id ` set (t # ts)" for i
    using that c ih(3,4) nin by auto
  ultimately show ?case by blast
qed

lemma cancel_engagement_prog:
  assumes inv: "orch_inv s" and op: "cancel_engagement tenant eid actor reason now s = Inr (sn, s')"
  shows "prog s s'"
proof -
  from op obtain e s1 e2 where e: "require_engagement tenant eid s = Inr e"
    and st: "eng_status e \<notin> {E_COMPLETED, E_CANCELLED}"
    and loop: "fold_res (cancel_task actor reason now) (list_tasks tenant eid s) s = Inr s1"
    and tr: "transition_engagement (e\<lparr>eng_completed_at := Some now\<rparr>) E_CANCELLED ''cancelled_by_user'' now
        (decision_extra actor reason) (put_engagement (e\<lparr>eng_completed_at := Some now\<rparr>) s1) = Inr (e2, s')"
    unfolding cancel_engagement_def Let_def by (auto simp: bind_res_eq_Inr split: if_splits)
  let ?e = "e\<lparr>eng_completed_at := Some now\<rparr>"
  note l = require_engagement_live[OF inv e]
  have "distinct (map task_id (list_tasks tenant eid s))"
    unfolding list_tasks_def by (rule distinct_ids_sort[OF inv])
  moreover have "row task_id (task_id x) (tasks s) = Some x" if "x \<in> set (list_tasks tenant eid s)" for x
    by (rule task_list_live[OF inv _ that]) (auto simp: list_tasks_def)
  ultimately have c: "prog s s1" "engagements s1 = engagements s"
    "\<forall>i \<in> task_id ` set (list_tasks tenant eid s). \<exists>t'. row task_id i (tasks s1) = Some t' \<and>
       tk_status t' \<in> TERMINAL_TASK_STATUSES"
    using cancel_loop_prog[OF loop inv] by auto
  have live1: "live e s1" using l(1) c(2) by (simp add: live_def)
  have e1: "?e = e\<lparr>eng_started_at := eng_started_at e, eng_completed_at := Some now\<rparr>" by simp
  note touch = touch_prog[OF prog_inv[OF c(1)] live1 e1]
  have i1: "orch_inv (put_engagement ?e s1)" using touch prog_inv by blast
  have "tk_status t \<in> TERMINAL_TASK_STATUSES" if t: "t \<in> set (tasks_of ?e (put_engagement ?e s1))" for t
  proof -
    have t1: "t \<in> set (tasks s1)" "of_engagement tenant eid t"
      using t touch l(2,3) by (auto simp: tasks_of_def)
    have "(task_id t, tk_tenant t, tk_engagement t) \<in> set (snd (skeleton s1))"
      using t1(1) by (simp add: skeleton_def)
    then have "(task_id t, tk_tenant t, tk_engagement t) \<in> set (snd (skeleton s))"
      using c(1) by (simp add: prog_def)
    then obtain x where "x \<in> set (tasks s)" "task_id x = task_id t" "tk_tenant x = tk_tenant t"
      "tk_engagement x = tk_engagement t" by (auto simp: skeleton_def)
    then have "x \<in> set (list_tasks tenant eid s)" "task_id x = task_id t"
      using t1(2) by (simp_all add: list_tasks_def of_engagement_def)
    then have "task_id t \<in> task_id ` set (list_tasks tenant eid s)" by (metis imageI)
    with c(3) obtain t' where "row task_id (task_id t) (tasks s1) = Some t'" "tk_status t' \<in> TERMINAL_TASK_STATUSES"
      by blast
    with row_distinct[OF inv_distinct_tasks[OF prog_inv[OF c(1)]] t1(1)] show ?thesis by simp
  qed
  then have "engagement_edge (put_engagement ?e s1) ?e E_CANCELLED" using st by (simp add: engagement_edge_def)
  then have "prog (put_engagement ?e s1) s'" using transition_prog[OF i1 _ _ _ tr] touch by auto
  with c(1) touch show ?thesis by (blast intro: prog_trans)
qed

section \<open>Every operation refines the contract\<close>

lemmas op_progs = start_engagement_prog tick_prog claim_next_prog heartbeat_prog complete_task_prog
  fail_task_prog decide_gate_prog cancel_engagement_prog force_retry_task_prog force_skip_task_prog

lemma outbox_follow_step:
  assumes "outbox_follow s s'"
  shows "ostep\<^sup>*\<^sup>* s s'"
proof -
  have "tables_unchanged s s'" using assms by (intro tables_unchanged_more) (simp add: outbox_follow_def)
  with assms show ?thesis by (intro r_into_rtranclp environment) (simp_all add: outbox_follow_def)
qed

lemma orch_step_refines:
  assumes "orch_inv s" "orch_step a s = Inr s'"
  shows "ostep\<^sup>*\<^sup>* s s'"
proof -
  have p: "ostep\<^sup>*\<^sup>* s s'" if "prog s s'" using that by (simp add: prog_def)
  have dst: "distinct (map outbox_id (outbox_events s))"
    using assms(1) by (simp add: orch_inv_def log_ok_def outbox_keys_ok_def)
  show ?thesis
    using assms(2)
  proof (cases a)
    case (AddEngagement e)
    with assms(2) show ?thesis by (auto intro!: r_into_rtranclp engagement_added split: if_splits)
  next
    case (CompileWorkflow tenant eid w now)
    with assms(2) show ?thesis
      by (auto simp: state_of_def bind_res_eq_Inr intro!: r_into_rtranclp workflow_compiled split: if_splits)
  next
    case (OtherEvent etype tenant aid data now eng task)
    with assms(2) have ne: "etype \<notin> projected_types"
      and rec: "record_event etype tenant ''other'' aid data now eng task s = Inr s'" by (auto split: if_splits)
    from rec obtain ev where "logged ev s s'" "event_type ev = etype" "tables_unchanged s s'"
      by (rule record_event_logged) (blast intro: tables_unchanged_more)
    with ne show ?thesis by (auto intro!: r_into_rtranclp foreign_event)
  next
    case (OutboxClaim worker now secs limit)
    with assms(2) have "s' = snd (outbox_claim_rows worker now (now + of_int secs) (outbox_pending (Some now) (nat limit) s) s)"
      by (auto simp: state_of_def outbox_claim_def split: if_splits prod.splits)
    then show ?thesis using outbox_follow_step[OF claim_rows_follow[OF dst]] by simp
  next
    case (OutboxPublished oid worker t msg)
    with assms(2) have "s' = snd (mark_published oid worker t msg s)" by (auto split: prod.splits bool.splits)
    then show ?thesis using outbox_follow_step[OF mark_published_follow[OF dst]] by simp
  next
    case (OutboxFailed oid worker now err delay dead)
    with assms(2) have "s' = snd (mark_failed oid worker now err delay dead s)" by (auto split: prod.splits bool.splits)
    then show ?thesis using outbox_follow_step[OF mark_failed_follow[OF dst]] by simp
  next
    case (Environment us clock)
    with assms(2) show ?thesis
      by (auto intro!: r_into_rtranclp environment list.rel_refl simp: tables_unchanged_def)
  qed (use assms(2) in \<open>auto simp: state_of_def bind_res_eq_Inr approve_gate_def reject_gate_def
      dest!: op_progs[OF assms(1)] intro: p\<close>)
qed

lemma orch_inv_init: "orch_init s \<Longrightarrow> orch_inv s"
  by (simp add: orch_init_def orch_inv_def log_ok_def ledger_ok_def stream_events_def outbox_keys_ok_def
      outbox_mirrors_def tables_ok_def attempts_ok_def)

interpretation orch: guarded_machine orch_init orch_step orch_inv
proof
  show "orch_init s \<Longrightarrow> orch_inv s" for s by (rule orch_inv_init)
  show "orch_inv s \<Longrightarrow> orch_step a s = Inr t \<Longrightarrow> orch_inv t" for s t a
    using orch_step_refines orch_inv_osteps by blast
qed

end
