(* ===== verification/Replay.thy ===== *)
theory Replay
  imports Orch_Refine
begin

text \<open>
  Rebuilding workflow state from the ledger (\<open>orchestration/replay.py\<close>) and the proof that the
  rebuilt state always agrees with the canonical one.
\<close>

section \<open>The projection\<close>

record replay_task =
  rt_task_id :: ident
  rt_task_key :: string
  rt_status :: task_status
  rt_attempt_count :: int

record replay_projection =
  rp_tenant :: ident
  rp_engagement :: ident
  rp_status :: engagement_status
  rp_tasks :: "(ident \<times> replay_task) list"

record replay_comparison =
  rc_matches :: bool
  rc_replayed_status :: engagement_status
  rc_canonical_status :: engagement_status
  rc_mismatches :: "(ident \<times> task_status \<times> task_status) list"
  rc_missing_in_replay :: "ident list"
  rc_missing_in_canonical :: "ident list"

definition payload_get :: "'b audit_event_scheme \<Rightarrow> string \<Rightarrow> pyval res" where
  "payload_get e k = (case map_of (payload e) k of None \<Rightarrow> Inl KeyError | Some v \<Rightarrow> Inr v)"

definition as_task_status :: "pyval \<Rightarrow> task_status res" where
  "as_task_status v = (case v of PStr t \<Rightarrow> task_status_of t | PEnum t \<Rightarrow> task_status_of t | _ \<Rightarrow> Inl ValueError)"

definition as_engagement_status :: "pyval \<Rightarrow> engagement_status res" where
  "as_engagement_status v =
     (case v of PStr t \<Rightarrow> engagement_status_of t | PEnum t \<Rightarrow> engagement_status_of t | _ \<Rightarrow> Inl ValueError)"

definition as_str :: "pyval \<Rightarrow> string res" where
  "as_str v = (case v of PStr t \<Rightarrow> Inr t | _ \<Rightarrow> Inl ValidationError)"

definition replay_event :: "audit_event_row \<Rightarrow> replay_projection \<Rightarrow> replay_projection res" where
  "replay_event ev p =
     (if event_type ev = ev_task_created then
        (case event_task ev of None \<Rightarrow> Inl AssertionError
         | Some tid \<Rightarrow>
             bind_res (payload_get ev ''task_key'') (\<lambda>k.
             bind_res (payload_get ev ''status'') (\<lambda>v.
             bind_res (as_task_status v) (\<lambda>st.
             bind_res (as_str k) (\<lambda>key.
               Inr (p\<lparr>rp_tasks := AList.update tid
                 \<lparr>rt_task_id = tid, rt_task_key = key, rt_status = st, rt_attempt_count = 0\<rparr> (rp_tasks p)\<rparr>))))))
      else if event_type ev = ev_task_transitioned then
        (case event_task ev of None \<Rightarrow> Inr p
         | Some tid \<Rightarrow>
             (case map_of (rp_tasks p) tid of None \<Rightarrow> Inr p
              | Some t \<Rightarrow>
                  bind_res (payload_get ev ''to_status'') (\<lambda>v.
                  bind_res (as_task_status v) (\<lambda>st.
                  bind_res (case map_of (payload ev) ''attempt_count'' of
                              None \<Rightarrow> Inr (rt_attempt_count t) | Some n \<Rightarrow> py_int n) (\<lambda>n.
                    Inr (p\<lparr>rp_tasks := AList.update tid (t\<lparr>rt_status := st, rt_attempt_count := n\<rparr>)
                           (rp_tasks p)\<rparr>))))))
      else if event_type ev = ev_engagement_transitioned then
        bind_res (payload_get ev ''to_status'') (\<lambda>v.
        bind_res (as_engagement_status v) (\<lambda>st. Inr (p\<lparr>rp_status := st\<rparr>)))
      else Inr p)"

text \<open>Streams in the order in which their first event appears.\<close>

definition stream_keys :: "audit_event_row list \<Rightarrow> string list" where
  "stream_keys evs = rev (remdups (rev (map stream_id evs)))"

definition replay_order :: "audit_event_row list \<Rightarrow> audit_event_row list" where
  "replay_order evs = concat (map (\<lambda>k. sort_key (\<lambda>e. (sequence_no e, event_id e))
     (filter (\<lambda>e. stream_id e = k) evs)) (stream_keys evs))"

definition replay_events :: "audit_event_row list \<Rightarrow> ident \<Rightarrow> ident \<Rightarrow> replay_projection res" where
  "replay_events evs tenant eid =
     fold_res replay_event (replay_order evs)
       \<lparr>rp_tenant = tenant, rp_engagement = eid, rp_status = E_PLANNED, rp_tasks = []\<rparr>"

definition compare_projection :: "replay_projection \<Rightarrow> engagement_snapshot \<Rightarrow> replay_comparison" where
  "compare_projection r c =
     (let canonical = map_of (rev (map (\<lambda>t. (sn_task_id t, t)) (es_tasks c)));
          replay_ids = set (map fst (rp_tasks r));
          canonical_ids = set (map sn_task_id (es_tasks c));
          both = sorted_list_of_set (replay_ids \<inter> canonical_ids);
          mismatches = map (\<lambda>i. (i, rt_status (the (map_of (rp_tasks r) i)), sn_status (the (canonical i))))
            (filter (\<lambda>i. rt_status (the (map_of (rp_tasks r) i)) \<noteq> sn_status (the (canonical i))) both);
          in_replay = sorted_list_of_set (canonical_ids - replay_ids);
          in_canonical = sorted_list_of_set (replay_ids - canonical_ids)
      in \<lparr>rc_matches = (rp_status r = es_status c \<and> mismatches = [] \<and> in_replay = [] \<and> in_canonical = []),
          rc_replayed_status = rp_status r, rc_canonical_status = es_status c,
          rc_mismatches = mismatches, rc_missing_in_replay = in_replay,
          rc_missing_in_canonical = in_canonical\<rparr>)"

definition verify_replay :: "ident \<Rightarrow> ident \<Rightarrow> orch_store \<Rightarrow> replay_comparison res" where
  "verify_replay tenant eid s =
     bind_res (replay_events (list_events tenant (Some eid) s) tenant eid) (\<lambda>r.
     bind_res (snapshot tenant eid s) (\<lambda>c. Inr (compare_projection r c)))"

section \<open>What one stream says about one task\<close>

text \<open>The effect of an event on a single task, and on the engagement status.\<close>

definition task_view :: "ident \<Rightarrow> audit_event_row \<Rightarrow> replay_task option \<Rightarrow> replay_task option" where
  "task_view tid ev acc =
     (if event_task ev \<noteq> Some tid then acc
      else if event_type ev = ev_task_created then
        (case (map_of (payload ev) ''task_key'', map_of (payload ev) ''status'') of
           (Some (PStr k), Some (PStr v)) \<Rightarrow>
             (case task_status_of v of Inl _ \<Rightarrow> acc
              | Inr st \<Rightarrow> Some \<lparr>rt_task_id = tid, rt_task_key = k, rt_status = st, rt_attempt_count = 0\<rparr>)
         | _ \<Rightarrow> acc)
      else if event_type ev = ev_task_transitioned then
        (case acc of None \<Rightarrow> None
         | Some t \<Rightarrow>
             (case (map_of (payload ev) ''to_status'', map_of (payload ev) ''attempt_count'') of
                (Some (PStr v), Some (PInt n)) \<Rightarrow>
                  (case task_status_of v of Inl _ \<Rightarrow> acc
                   | Inr st \<Rightarrow> Some (t\<lparr>rt_status := st, rt_attempt_count := n\<rparr>))
              | _ \<Rightarrow> acc))
      else acc)"

definition status_view :: "audit_event_row \<Rightarrow> engagement_status \<Rightarrow> engagement_status" where
  "status_view ev st =
     (if event_type ev = ev_engagement_transitioned then
        (case map_of (payload ev) ''to_status'' of
           Some (PStr v) \<Rightarrow> (case engagement_status_of v of Inl _ \<Rightarrow> st | Inr x \<Rightarrow> x)
         | _ \<Rightarrow> st)
      else st)"

text \<open>An event the orchestrator wrote: its payload is what the projection expects.\<close>

definition wellformed_event :: "audit_event_row \<Rightarrow> bool" where
  "wellformed_event ev \<longleftrightarrow>
     (event_type ev = ev_task_created \<longrightarrow>
        (\<exists>tid k st. event_task ev = Some tid \<and> tid \<noteq> [] \<and> map_of (payload ev) ''task_key'' = Some (PStr k) \<and>
           map_of (payload ev) ''status'' = Some (PStr (task_status_value st)))) \<and>
     (event_type ev = ev_task_transitioned \<longrightarrow>
        (\<exists>tid st n. event_task ev = Some tid \<and> tid \<noteq> [] \<and>
           map_of (payload ev) ''to_status'' = Some (PStr (task_status_value st)) \<and>
           map_of (payload ev) ''attempt_count'' = Some (PInt n))) \<and>
     (event_type ev = ev_engagement_transitioned \<longrightarrow>
        event_task ev = None \<and>
        (\<exists>st. map_of (payload ev) ''to_status'' = Some (PStr (engagement_status_value st))))"

lemma event_types_distinct [simp]:
  "ev_task_created \<noteq> ev_task_transitioned" "ev_task_created \<noteq> ev_engagement_transitioned"
  "ev_task_transitioned \<noteq> ev_task_created" "ev_task_transitioned \<noteq> ev_engagement_transitioned"
  "ev_engagement_transitioned \<noteq> ev_task_created" "ev_engagement_transitioned \<noteq> ev_task_transitioned"
  by (simp_all add: ev_task_created_def ev_task_transitioned_def ev_engagement_transitioned_def)

lemma replay_event_views:
  assumes "wellformed_event ev"
  shows "\<exists>p'. replay_event ev p = Inr p' \<and>
     (\<forall>tid. map_of (rp_tasks p') tid = task_view tid ev (map_of (rp_tasks p) tid)) \<and>
     rp_status p' = status_view ev (rp_status p)"
proof -
  consider "event_type ev = ev_task_created" | "event_type ev = ev_task_transitioned"
    | "event_type ev = ev_engagement_transitioned"
    | "event_type ev \<notin> {ev_task_created, ev_task_transitioned, ev_engagement_transitioned}" by auto
  then show ?thesis
  proof cases
    case 1
    with assms show ?thesis
      by (auto simp: wellformed_event_def replay_event_def payload_get_def as_task_status_def as_str_def
          task_view_def status_view_def task_status_enum.parse_value update_conv')
  next
    case 2
    with assms obtain tid st n where ev: "event_task ev = Some tid"
      "map_of (payload ev) ''to_status'' = Some (PStr (task_status_value st))"
      "map_of (payload ev) ''attempt_count'' = Some (PInt n)" by (auto simp: wellformed_event_def)
    show ?thesis
      by (cases "map_of (rp_tasks p) tid")
        (auto simp: 2 ev replay_event_def payload_get_def as_task_status_def task_view_def status_view_def
          task_status_enum.parse_value update_conv')
  next
    case 3
    with assms show ?thesis
      by (auto simp: wellformed_event_def replay_event_def payload_get_def as_engagement_status_def
          task_view_def status_view_def engagement_status_enum.parse_value)
  next
    case 4
    then show ?thesis by (simp add: replay_event_def task_view_def status_view_def)
  qed
qed

lemma replay_fold_views:
  assumes "\<And>ev. ev \<in> set evs \<Longrightarrow> wellformed_event ev"
  shows "\<exists>p'. fold_res replay_event evs p = Inr p' \<and>
     (\<forall>tid. map_of (rp_tasks p') tid = fold (task_view tid) evs (map_of (rp_tasks p) tid)) \<and>
     rp_status p' = fold status_view evs (rp_status p)"
  using assms
proof (induction evs arbitrary: p)
  case (Cons ev evs)
  from replay_event_views[OF Cons.prems[OF list.set_intros(1)], of p] obtain q where q:
    "replay_event ev p = Inr q" "\<And>tid. map_of (rp_tasks q) tid = task_view tid ev (map_of (rp_tasks p) tid)"
    "rp_status q = status_view ev (rp_status p)" by blast
  from Cons.IH[of q] Cons.prems q show ?case by auto
qed simp

text \<open>Events that concern another task, or no task, change nothing.\<close>

lemma task_view_filter:
  "fold (task_view tid) (filter (\<lambda>ev. event_task ev = Some tid \<and> event_type ev \<in> {ev_task_created, ev_task_transitioned}) evs) acc
     = fold (task_view tid) evs acc"
  by (induction evs arbitrary: acc) (auto simp: task_view_def)

lemma status_view_filter:
  "fold status_view (filter (\<lambda>ev. event_type ev = ev_engagement_transitioned) evs) acc = fold status_view evs acc"
  by (induction evs arbitrary: acc) (auto simp: status_view_def)

section \<open>The ledger agrees with the tables\<close>

definition task_state :: "replay_task \<Rightarrow> task_status \<times> int" where
  "task_state v = (rt_status v, rt_attempt_count v)"

definition engagement_log :: "ident \<Rightarrow> ident \<Rightarrow> audit_event_row list \<Rightarrow> audit_event_row list" where
  "engagement_log tenant eid evs = filter (\<lambda>ev. event_tenant ev = tenant \<and> event_engagement ev = Some eid) evs"

definition replay_inv :: "orch_store \<Rightarrow> bool" where
  "replay_inv s \<longleftrightarrow>
     (\<forall>ev \<in> set (audit_events s). wellformed_event ev) \<and>
     (\<forall>ev \<in> set (audit_events s). \<forall>tid. event_type ev \<in> {ev_task_created, ev_task_transitioned} \<and>
        event_task ev = Some tid \<longrightarrow>
        (\<exists>t. row task_id tid (tasks s) = Some t \<and> event_tenant ev = tk_tenant t \<and>
             event_engagement ev = Some (tk_engagement t))) \<and>
     (\<forall>tid. map_option task_state (fold (task_view tid) (audit_events s) None)
        = map_option (\<lambda>t. (tk_status t, int (attempt_count t))) (row task_id tid (tasks s))) \<and>
     (\<forall>ev \<in> set (audit_events s). event_type ev = ev_engagement_transitioned \<longrightarrow>
        (\<exists>e. e \<in> set (engagements s) \<and> event_tenant ev = eng_tenant e \<and>
             event_engagement ev = Some (engagement_id e))) \<and>
     (\<forall>e \<in> set (engagements s).
        fold status_view (engagement_log (eng_tenant e) (engagement_id e) (audit_events s)) E_PLANNED
          = eng_status e)"

lemma replay_invI:
  assumes "\<And>ev. ev \<in> set (audit_events s) \<Longrightarrow> wellformed_event ev"
    and "\<And>ev tid. ev \<in> set (audit_events s) \<Longrightarrow> event_type ev \<in> {ev_task_created, ev_task_transitioned} \<Longrightarrow>
      event_task ev = Some tid \<Longrightarrow> \<exists>t. row task_id tid (tasks s) = Some t \<and> event_tenant ev = tk_tenant t \<and>
             event_engagement ev = Some (tk_engagement t)"
    and "\<And>tid. map_option task_state (fold (task_view tid) (audit_events s) None)
        = map_option (\<lambda>t. (tk_status t, int (attempt_count t))) (row task_id tid (tasks s))"
    and "\<And>ev. ev \<in> set (audit_events s) \<Longrightarrow> event_type ev = ev_engagement_transitioned \<Longrightarrow>
      \<exists>e. e \<in> set (engagements s) \<and> event_tenant ev = eng_tenant e \<and>
             event_engagement ev = Some (engagement_id e)"
    and "\<And>e. e \<in> set (engagements s) \<Longrightarrow>
        fold status_view (engagement_log (eng_tenant e) (engagement_id e) (audit_events s)) E_PLANNED
          = eng_status e"
  shows "replay_inv s"
  using assms unfolding replay_inv_def by blast

lemma replay_invD:
  assumes "replay_inv s"
  shows "ev \<in> set (audit_events s) \<Longrightarrow> wellformed_event ev"
    and "ev \<in> set (audit_events s) \<Longrightarrow> event_type ev \<in> {ev_task_created, ev_task_transitioned} \<Longrightarrow>
      event_task ev = Some tid \<Longrightarrow> \<exists>t. row task_id tid (tasks s) = Some t \<and> event_tenant ev = tk_tenant t \<and>
             event_engagement ev = Some (tk_engagement t)"
    and "map_option task_state (fold (task_view tid) (audit_events s) None)
        = map_option (\<lambda>t. (tk_status t, int (attempt_count t))) (row task_id tid (tasks s))"
    and "ev \<in> set (audit_events s) \<Longrightarrow> event_type ev = ev_engagement_transitioned \<Longrightarrow>
      \<exists>e. e \<in> set (engagements s) \<and> event_tenant ev = eng_tenant e \<and>
             event_engagement ev = Some (engagement_id e)"
    and "e \<in> set (engagements s) \<Longrightarrow>
        fold status_view (engagement_log (eng_tenant e) (engagement_id e) (audit_events s)) E_PLANNED
          = eng_status e"
  using assms unfolding replay_inv_def by blast+

lemma engagement_log_snoc:
  "engagement_log tenant eid (evs @ [ev]) = engagement_log tenant eid evs @
     (if event_tenant ev = tenant \<and> event_engagement ev = Some eid then [ev] else [])"
  by (simp add: engagement_log_def)

text \<open>An event that is neither a task nor an engagement transition is invisible to the projection.\<close>

lemma foreign_views:
  assumes "event_type ev \<notin> projected_types"
  shows "task_view tid ev acc = acc" "status_view ev st = st" "wellformed_event ev"
  using assms by (simp_all add: task_view_def status_view_def wellformed_event_def projected_types_def)

lemma replay_inv_foreign:
  assumes inv: "replay_inv s" and log: "logged ev s s'" and ty: "event_type ev \<notin> projected_types"
    and rows: "\<And>i. map_option (\<lambda>t. (tk_tenant t, tk_engagement t, tk_status t, attempt_count t)) (row task_id i (tasks s'))
        = map_option (\<lambda>t. (tk_tenant t, tk_engagement t, tk_status t, attempt_count t)) (row task_id i (tasks s))"
    and engs: "engagements s' = engagements s"
  shows "replay_inv s'"
proof -
  define r where "r = ledger_row ev (next_sequence (event_tenant ev) (event_stream ev) (audit_events s))"
  have evs: "audit_events s' = audit_events s @ [r]" using logged_events[OF log] by (simp add: r_def)
  have r: "event_type r \<notin> projected_types" using ty by (simp add: r_def)
  note fv = foreign_views[OF r]
  have row': "\<exists>t'. row task_id i (tasks s') = Some t' \<and> tk_tenant t' = tk_tenant t \<and> tk_engagement t' = tk_engagement t"
    if "row task_id i (tasks s) = Some t" for i t using rows[of i] that by auto
  show ?thesis
  proof (rule replay_invI)
    show "wellformed_event x" if "x \<in> set (audit_events s')" for x
      using that replay_invD(1)[OF inv] fv(3) by (auto simp: evs)
    show "\<exists>t. row task_id tid (tasks s') = Some t \<and> event_tenant x = tk_tenant t \<and>
        event_engagement x = Some (tk_engagement t)"
      if "x \<in> set (audit_events s')" "event_type x \<in> {ev_task_created, ev_task_transitioned}" "event_task x = Some tid"
      for x tid
    proof -
      have "x \<noteq> r" using that(2) r by (auto simp: projected_types_def)
      with that evs replay_invD(2)[OF inv, of x tid] row'[of tid] show ?thesis by fastforce
    qed
    have pairs: "map_option (\<lambda>t. (tk_status t, int (attempt_count t))) x
        = map_option (\<lambda>(a, b, st, n). (st, int n))
            (map_option (\<lambda>t. (tk_tenant t, tk_engagement t, tk_status t, attempt_count t)) x)" for x
      by (cases x) auto
    show "map_option task_state (fold (task_view tid) (audit_events s') None)
        = map_option (\<lambda>t. (tk_status t, int (attempt_count t))) (row task_id tid (tasks s'))" for tid
      using replay_invD(3)[OF inv, of tid] by (simp add: evs fv(1) pairs rows)
    show "\<exists>e. e \<in> set (engagements s') \<and> event_tenant x = eng_tenant e \<and> event_engagement x = Some (engagement_id e)"
      if "x \<in> set (audit_events s')" "event_type x = ev_engagement_transitioned" for x
    proof -
      have "x \<noteq> r" using that(2) r by (auto simp: projected_types_def)
      with that evs replay_invD(4)[OF inv, of x] engs show ?thesis by auto
    qed
    show "fold status_view (engagement_log (eng_tenant e) (engagement_id e) (audit_events s')) E_PLANNED = eng_status e"
      if "e \<in> set (engagements s')" for e
      using that replay_invD(5)[OF inv, of e] by (simp add: evs engagement_log_snoc fv(2) engs)
  qed
qed

lemma replay_inv_moved:
  assumes inv: "replay_inv s" and dst: "distinct (map task_id (tasks s))"
    and t: "row task_id (task_id t) (tasks s) = Some t" and tid: "task_id t \<noteq> []"
    and edge: "task_edge s t t' reason" and log: "logged ev s s'"
    and te: "transition_event ev t' (tk_status t) reason"
    and s': "tasks s' = put task_id t' (tasks s)" "engagements s' = engagements s"
  shows "replay_inv s'"
proof -
  define r where "r = ledger_row ev (next_sequence (event_tenant ev) (event_stream ev) (audit_events s))"
  have evs: "audit_events s' = audit_events s @ [r]" using logged_events[OF log] by (simp add: r_def)
  have r: "event_type r = ev_task_transitioned" "event_tenant r = tk_tenant t" "event_task r = Some (task_id t)"
    "event_engagement r = Some (tk_engagement t)"
    "map_of (payload r) ''to_status'' = Some (PStr (task_status_value (tk_status t')))"
    "map_of (payload r) ''attempt_count'' = Some (PInt (int (attempt_count t')))"
    using te edge by (simp_all add: r_def transition_event_def)
  have look: "row task_id i (tasks s') = (if i = task_id t then Some t' else row task_id i (tasks s))" for i
    using t edge by (simp add: s' row_put)
  have wf_r: "wellformed_event r" using r tid by (auto simp: wellformed_event_def)
  have tv: "task_view i r acc = (if i = task_id t then map_option (\<lambda>v. v\<lparr>rt_status := tk_status t',
      rt_attempt_count := int (attempt_count t')\<rparr>) acc else acc)" for i acc
    using r by (cases acc) (auto simp: task_view_def task_status_enum.parse_value)
  show ?thesis
  proof (rule replay_invI)
    show "wellformed_event x" if "x \<in> set (audit_events s')" for x
      using that replay_invD(1)[OF inv] wf_r by (auto simp: evs)
    show "\<exists>z. row task_id i (tasks s') = Some z \<and> event_tenant x = tk_tenant z \<and>
        event_engagement x = Some (tk_engagement z)"
      if "x \<in> set (audit_events s')" "event_type x \<in> {ev_task_created, ev_task_transitioned}" "event_task x = Some i"
      for x i
    proof (cases "x = r")
      case True
      with that r edge show ?thesis by (simp add: look)
    next
      case False
      with that evs replay_invD(2)[OF inv, of x i] t edge show ?thesis by (auto simp: look)
    qed
    show "map_option task_state (fold (task_view i) (audit_events s') None)
        = map_option (\<lambda>t. (tk_status t, int (attempt_count t))) (row task_id i (tasks s'))" for i
      using replay_invD(3)[OF inv, of i] t by (auto simp: evs tv look task_state_def)
    show "\<exists>e. e \<in> set (engagements s') \<and> event_tenant x = eng_tenant e \<and> event_engagement x = Some (engagement_id e)"
      if "x \<in> set (audit_events s')" "event_type x = ev_engagement_transitioned" for x
    proof -
      have "x \<noteq> r" using that(2) r(1) by auto
      with that evs replay_invD(4)[OF inv, of x] s'(2) show ?thesis by auto
    qed
    have "status_view r st = st" for st using r(1) by (simp add: status_view_def)
    then show "fold status_view (engagement_log (eng_tenant e) (engagement_id e) (audit_events s')) E_PLANNED = eng_status e"
      if "e \<in> set (engagements s')" for e
      using that replay_invD(5)[OF inv, of e] by (simp add: evs engagement_log_snoc s'(2))
  qed
qed

lemma replay_inv_engagement_moved:
  assumes inv: "replay_inv s" and dst: "distinct (map engagement_id (engagements s))"
    and e: "row engagement_id (engagement_id e) (engagements s) = Some e"
    and log: "logged ev s s'" and ee: "engagement_event ev (e\<lparr>eng_status := target\<rparr>) (eng_status e)"
    and s': "engagements s' = put engagement_id (e\<lparr>eng_status := target\<rparr>) (engagements s)" "tasks s' = tasks s"
  shows "replay_inv s'"
proof -
  define r where "r = ledger_row ev (next_sequence (event_tenant ev) (event_stream ev) (audit_events s))"
  have evs: "audit_events s' = audit_events s @ [r]" using logged_events[OF log] by (simp add: r_def)
  have r: "event_type r = ev_engagement_transitioned" "event_tenant r = eng_tenant e" "event_task r = None"
    "event_engagement r = Some (engagement_id e)"
    "map_of (payload r) ''to_status'' = Some (PStr (engagement_status_value target))"
    using ee by (simp_all add: r_def engagement_event_def)
  have ein: "e \<in> set (engagements s)" using row_Some[OF e] by simp
  have mem: "x \<in> set (engagements s') \<longleftrightarrow> x = e\<lparr>eng_status := target\<rparr> \<or>
      (x \<in> set (engagements s) \<and> engagement_id x \<noteq> engagement_id e)" for x
    using in_set_put[OF dst, of x "e\<lparr>eng_status := target\<rparr>"] ein by (auto simp: s' has_key_def)
  show ?thesis
  proof (rule replay_invI)
    show "wellformed_event x" if "x \<in> set (audit_events s')" for x
      using that replay_invD(1)[OF inv] r by (auto simp: evs wellformed_event_def)
    show "\<exists>t. row task_id i (tasks s') = Some t \<and> event_tenant x = tk_tenant t \<and>
        event_engagement x = Some (tk_engagement t)"
      if "x \<in> set (audit_events s')" "event_type x \<in> {ev_task_created, ev_task_transitioned}" "event_task x = Some i"
      for x i
    proof -
      have "x \<noteq> r" using that(3) r(3) by auto
      with that evs replay_invD(2)[OF inv, of x i] s'(2) show ?thesis by auto
    qed
    show "map_option task_state (fold (task_view i) (audit_events s') None)
        = map_option (\<lambda>t. (tk_status t, int (attempt_count t))) (row task_id i (tasks s'))" for i
      using replay_invD(3)[OF inv, of i] r by (simp add: evs task_view_def s'(2))
    show "\<exists>z. z \<in> set (engagements s') \<and> event_tenant x = eng_tenant z \<and> event_engagement x = Some (engagement_id z)"
      if "x \<in> set (audit_events s')" "event_type x = ev_engagement_transitioned" for x
    proof (cases "x = r")
      case True
      then show ?thesis using r mem[of "e\<lparr>eng_status := target\<rparr>"] by force
    next
      case False
      with that evs obtain z where z: "z \<in> set (engagements s)" "event_tenant x = eng_tenant z"
        "event_engagement x = Some (engagement_id z)" using replay_invD(4)[OF inv, of x] by auto
      show ?thesis
      proof (cases "engagement_id z = engagement_id e")
        case True
        then have "z = e" using row_unique[OF dst e z(1)] by simp
        with z mem[of "e\<lparr>eng_status := target\<rparr>"] show ?thesis by force
      next
        case False
        with z mem[of z] show ?thesis by blast
      qed
    qed
    show "fold status_view (engagement_log (eng_tenant x) (engagement_id x) (audit_events s')) E_PLANNED = eng_status x"
      if "x \<in> set (engagements s')" for x
    proof (cases "x = e\<lparr>eng_status := target\<rparr>")
      case True
      then show ?thesis
        using r by (simp add: evs engagement_log_snoc status_view_def engagement_status_enum.parse_value)
    next
      case False
      with that mem have "x \<in> set (engagements s)" "engagement_id x \<noteq> engagement_id e" by auto
      then show ?thesis using replay_invD(5)[OF inv, of x] r by (simp add: evs engagement_log_snoc)
    qed
  qed
qed

text \<open>The events of a compilation introduce exactly the new tasks, all pending.\<close>

lemma logs_events:
  "logs es s s' \<Longrightarrow> \<exists>rs. audit_events s' = audit_events s @ rs \<and> list_all2 (\<lambda>e r. \<exists>n. r = ledger_row e n) es rs"
proof (induction es arbitrary: s)
  case Nil
  then show ?case by (auto simp: same_log_def)
next
  case (Cons e es)
  then obtain u where u: "logged e s u" "logs es u s'" by auto
  from Cons.IH[OF u(2)] obtain rs where rs: "audit_events s' = audit_events u @ rs"
    "list_all2 (\<lambda>e r. \<exists>n. r = ledger_row e n) es rs" by blast
  then show ?case
    by (intro exI[of _ "ledger_row e (next_sequence (event_tenant e) (event_stream e) (audit_events s)) # rs"])
      (auto simp: logged_events[OF u(1)])
qed

definition created_row :: "audit_event_row \<Rightarrow> task_row \<Rightarrow> bool" where
  "created_row r t \<longleftrightarrow> event_type r = ev_task_created \<and> event_tenant r = tk_tenant t \<and>
     event_engagement r = Some (tk_engagement t) \<and> event_task r = Some (task_id t) \<and>
     map_of (payload r) ''task_key'' = Some (PStr (task_key t)) \<and>
     map_of (payload r) ''status'' = Some (PStr (task_status_value (tk_status t)))"

lemma created_rows_view:
  assumes "list_all2 created_row rs ts" "distinct (map task_id ts)"
  shows "map_option task_state (fold (task_view i) rs acc)
    = (case row task_id i ts of None \<Rightarrow> map_option task_state acc | Some t \<Rightarrow> Some (tk_status t, 0))"
  using assms
proof (induction arbitrary: acc rule: list_all2_induct)
  case (Cons r rs t ts)
  have v: "task_view i r acc = (if i = task_id t then Some \<lparr>rt_task_id = i, rt_task_key = task_key t,
      rt_status = tk_status t, rt_attempt_count = 0\<rparr> else acc)" for acc
    using Cons(1) by (auto simp: created_row_def task_view_def task_status_enum.parse_value)
  have none: "row task_id (task_id t) ts = None"
    using Cons.prems by (simp add: row_None) (metis imageI)
  have hd: "row task_id i (t # ts) = (if task_id t = i then Some t else row task_id i ts)" by (simp add: row_def)
  show ?case
    using Cons none by (auto simp: v hd task_state_def)
qed (simp add: row_Nil)

lemma replay_inv_compiled:
  assumes inv: "replay_inv s" and dst: "distinct (map task_id (tasks s))"
    and c: "compiled_as tenant eid w now s s' c"
  shows "replay_inv s'"
proof -
  from c have ts: "tasks s' = tasks s @ cp_rows c" "engagements s' = engagements s"
    and dst': "distinct (map task_id (tasks s'))" using dst unfolding compiled_as_def by blast+
  from c have ev: "list_all2 created_event (cp_events c) (cp_rows c)"
    "event_type (cp_final c) = ''orchestration.workflow.compiled''"
    "logs (cp_events c @ [cp_final c]) s s'" unfolding compiled_as_def by auto
  from logs_events[OF ev(3)] obtain rs f n where evs: "audit_events s' = audit_events s @ rs @ [f]"
    and l2: "list_all2 (\<lambda>e r. \<exists>n. r = ledger_row e n) (cp_events c) rs" and f: "f = ledger_row (cp_final c) n"
    by (auto simp: list_all2_append1 list_all2_Cons1)
  have cr: "list_all2 created_row rs (cp_rows c)"
    using ev(1) l2 by (auto simp: list_all2_conv_all_nth created_event_def created_row_def)
  have ff: "event_type f \<notin> projected_types"
    using ev(2) by (simp add: f projected_types_def ev_task_created_def ev_task_transitioned_def
        ev_engagement_transitioned_def)
  note fv = foreign_views[OF ff]
  have keep: "row task_id i (tasks s) = Some t \<Longrightarrow> row task_id i (tasks s') = Some t" for i t
    by (simp add: ts row_append)
  have rs: "\<exists>t \<in> set (cp_rows c). created_row r t" if "r \<in> set rs" for r
    using list_all2_setD(2)[OF cr that] by blast
  have dsub: "distinct (map task_id (cp_rows c))" using dst' by (simp add: ts)
  have fresh: "row task_id (task_id t) (tasks s) = None" if "t \<in> set (cp_rows c)" for t
    using dst' that by (auto simp: ts row_None)
  show ?thesis
  proof (rule replay_invI)
    show "wellformed_event x" if "x \<in> set (audit_events s')" for x
    proof -
      have "wellformed_event x" if x: "x \<in> set rs"
      proof -
        from rs[OF x] obtain t where t: "t \<in> set (cp_rows c)" "created_row x t" by blast
        from c t(1) have "task_id t \<noteq> []" by (rule compiled_rows) simp
        with t(2) show ?thesis by (auto simp: created_row_def wellformed_event_def)
      qed
      with that fv(3) replay_invD(1)[OF inv, of x] show ?thesis by (auto simp: evs)
    qed
    show "\<exists>t. row task_id i (tasks s') = Some t \<and> event_tenant x = tk_tenant t \<and>
        event_engagement x = Some (tk_engagement t)"
      if x: "x \<in> set (audit_events s')" "event_type x \<in> {ev_task_created, ev_task_transitioned}" "event_task x = Some i"
      for x i
    proof -
      have "x \<noteq> f" using x(2) ff by (auto simp: projected_types_def)
      with x(1) consider "x \<in> set (audit_events s)" | "x \<in> set rs" by (auto simp: evs)
      then show ?thesis
      proof cases
        case 1
        from replay_invD(2)[OF inv 1 x(2,3)] keep show ?thesis by blast
      next
        case 2
        from rs[OF 2] obtain t where t: "t \<in> set (cp_rows c)" "created_row x t" by blast
        with x(3) row_distinct[OF dst', of t] show ?thesis by (auto simp: ts created_row_def)
      qed
    qed
    show "map_option task_state (fold (task_view i) (audit_events s') None)
        = map_option (\<lambda>t. (tk_status t, int (attempt_count t))) (row task_id i (tasks s'))" for i
    proof (cases "row task_id i (cp_rows c)")
      case None
      then show ?thesis
        using replay_invD(3)[OF inv, of i] created_rows_view[OF cr dsub, of i]
        by (simp add: evs fv(1) ts row_append split: option.split)
    next
      case (Some t)
      have t: "t \<in> set (cp_rows c)" "task_id t = i" using row_Some[OF Some] by auto
      from c t(1) have "attempt_count t = 0" by (rule compiled_rows) simp
      with Some fresh[OF t(1)] t created_rows_view[OF cr dsub, of i] show ?thesis
        by (simp add: evs fv(1) ts row_append)
    qed
    show "\<exists>e. e \<in> set (engagements s') \<and> event_tenant x = eng_tenant e \<and> event_engagement x = Some (engagement_id e)"
      if x: "x \<in> set (audit_events s')" "event_type x = ev_engagement_transitioned" for x
    proof -
      have "x \<noteq> f" using x(2) ff by (auto simp: projected_types_def)
      moreover have "x \<notin> set rs" using rs[of x] x(2) by (auto simp: created_row_def)
      ultimately show ?thesis using x replay_invD(4)[OF inv, of x] by (simp add: evs ts)
    qed
    have "fold status_view (engagement_log a b rs) st = st" for a b st
    proof -
      have "\<forall>r \<in> set (engagement_log a b rs). event_type r = ev_task_created"
        using rs by (auto simp: engagement_log_def created_row_def)
      then have "fold status_view (engagement_log a b rs) st = fold (\<lambda>_ x. x) (engagement_log a b rs) st"
        by (intro fold_cong refl) (auto simp: status_view_def)
      then show ?thesis by (simp add: fold_id[unfolded id_def])
    qed
    moreover have "engagement_log a b (audit_events s') = engagement_log a b (audit_events s) @
        engagement_log a b rs @ engagement_log a b [f]" for a b by (simp add: evs engagement_log_def)
    moreover have "fold status_view (engagement_log a b [f]) st = st" for a b st
      using fv(2) by (simp add: engagement_log_def)
    ultimately show "fold status_view (engagement_log (eng_tenant e) (engagement_id e) (audit_events s')) E_PLANNED = eng_status e"
      if "e \<in> set (engagements s')" for e
      using that replay_invD(5)[OF inv, of e] by (simp add: ts)
  qed
qed

lemma replay_inv_ostep:
  assumes inv: "orch_inv s" and rep: "replay_inv s" and step: "ostep s s'"
  shows "replay_inv s'"
  using step
proof cases
  case (task_moved t t' reason ev)
  have "task_id t \<noteq> []"
    using inv row_Some[OF task_moved(1)] by (auto simp: orch_inv_def tables_ok_def task_ok_def)
  then show ?thesis
    by (rule replay_inv_moved[OF rep inv_distinct_tasks[OF inv] task_moved(1) _ task_moved(2,3,4,5,7)])
next
  case (lease_extended t worker now t' expires ev)
  show ?thesis
  proof (rule replay_inv_foreign[OF rep lease_extended(4,5) _ lease_extended(8)])
    show "map_option (\<lambda>t. (tk_tenant t, tk_engagement t, tk_status t, attempt_count t)) (row task_id i (tasks s'))
        = map_option (\<lambda>t. (tk_tenant t, tk_engagement t, tk_status t, attempt_count t)) (row task_id i (tasks s))" for i
      using lease_extended(1) by (auto simp: lease_extended(3,6) row_put)
  qed
next
  case (engagement_moved e target e' ev)
  show ?thesis
    by (rule replay_inv_engagement_moved[OF rep inv_distinct_engagements[OF inv] engagement_moved(1,5)])
      (use engagement_moved in simp_all)
next
  case (engagement_touched e e' st ct)
  have s': "audit_events s' = audit_events s" "tasks s' = tasks s"
    "engagements s' = put engagement_id e' (engagements s)"
    by (simp_all add: engagement_touched(3) put_engagement_def)
  have ids: "\<exists>x \<in> set (engagements s). engagement_id x = engagement_id z \<and> eng_tenant x = eng_tenant z \<and> eng_status x = eng_status z"
    if "z \<in> set (engagements s')" for z
    using that row_Some[OF engagement_touched(1)]
    by (auto simp: s'(3) put_def engagement_touched(2) split: if_splits)
  have kept: "\<exists>z. z \<in> set (engagements s') \<and> engagement_id z = engagement_id x \<and> eng_tenant z = eng_tenant x"
    if "x \<in> set (engagements s)" for x
  proof (cases "engagement_id x = engagement_id e")
    case True
    then have "x = e" using row_unique[OF inv_distinct_engagements[OF inv] engagement_touched(1) that] by simp
    then show ?thesis using that by (intro exI[of _ e']) (auto simp: s'(3) put_def engagement_touched(2))
  next
    case False
    then show ?thesis using that by (intro exI[of _ x]) (auto simp: s'(3) put_def engagement_touched(2))
  qed
  show ?thesis
  proof (rule replay_invI)
    show "\<exists>z. z \<in> set (engagements s') \<and> event_tenant x = eng_tenant z \<and> event_engagement x = Some (engagement_id z)"
      if "x \<in> set (audit_events s')" "event_type x = ev_engagement_transitioned" for x
      using replay_invD(4)[OF rep, of x] that kept unfolding s'(1) by metis
    show "fold status_view (engagement_log (eng_tenant z) (engagement_id z) (audit_events s')) E_PLANNED = eng_status z"
      if "z \<in> set (engagements s')" for z
      using ids[OF that] replay_invD(5)[OF rep] unfolding s'(1) by metis
  qed (use replay_invD[OF rep] in \<open>simp_all add: s'\<close>)
next
  case (workflow_compiled w tenant eid now sn)
  from workflow_compiled(2) obtain c where "compiled_as tenant eid w now s s' c" by (rule compile_workflow_effect)
  then show ?thesis by (rule replay_inv_compiled[OF rep inv_distinct_tasks[OF inv]])
next
  case (engagement_added e)
  then have s': "s' = s\<lparr>engagements := engagements s @ [e]\<rparr>" and new: "\<not> has_key engagement_id (engagement_id e) (engagements s)"
    by (auto simp: add_engagement_def split: if_splits)
  have none: "event_type x \<noteq> ev_engagement_transitioned"
    if x: "x \<in> set (engagement_log (eng_tenant e) (engagement_id e) (audit_events s))" for x
  proof
    assume "event_type x = ev_engagement_transitioned"
    with x replay_invD(4)[OF rep, of x] obtain z where "z \<in> set (engagements s)" "engagement_id z = engagement_id e"
      by (auto simp: engagement_log_def)
    with new show False by (auto simp: has_key_def)
  qed
  have "fold status_view (engagement_log (eng_tenant e) (engagement_id e) (audit_events s)) E_PLANNED
      = fold status_view [] E_PLANNED"
    unfolding status_view_filter[symmetric, of "engagement_log (eng_tenant e) (engagement_id e) (audit_events s)"]
    using none by (simp add: filter_empty_conv)
  then have st: "fold status_view (engagement_log (eng_tenant x) (engagement_id x) (audit_events s')) E_PLANNED = eng_status x"
    if "x \<in> set (engagements s')" for x
    using that engagement_added(2) replay_invD(5)[OF rep, of x] by (auto simp: s')
  have "\<exists>z. z \<in> set (engagements s') \<and> event_tenant x = eng_tenant z \<and> event_engagement x = Some (engagement_id z)"
    if "x \<in> set (audit_events s')" "event_type x = ev_engagement_transitioned" for x
    using replay_invD(4)[OF rep, of x] that by (auto simp: s')
  then show ?thesis
    by (intro replay_invI st) (use replay_invD(1-3)[OF rep] in \<open>simp_all add: s'\<close>)
next
  case (foreign_event ev)
  show ?thesis
    by (rule replay_inv_foreign[OF rep foreign_event(1,2)])
      (use foreign_event(3) in \<open>simp_all add: tables_unchanged_def\<close>)
next
  case environment
  then show ?thesis
    by (intro replay_invI) (use replay_invD[OF rep] in \<open>simp_all add: tables_unchanged_def\<close>)
qed

lemma replay_inv_osteps:
  "ostep\<^sup>*\<^sup>* s s' \<Longrightarrow> orch_inv s \<Longrightarrow> replay_inv s \<Longrightarrow> orch_inv s' \<and> replay_inv s'"
  by (induction rule: rtranclp_induct) (auto intro: orch_inv_ostep replay_inv_ostep)

interpretation replayable: guarded_machine orch_init orch_step "\<lambda>s. orch_inv s \<and> replay_inv s"
proof
  show "orch_init s \<Longrightarrow> orch_inv s \<and> replay_inv s" for s
    using orch_inv_init by (auto simp: orch_init_def replay_inv_def row_Nil)
  show "orch_inv s \<and> replay_inv s \<Longrightarrow> orch_step a s = Inr t \<Longrightarrow> orch_inv t \<and> replay_inv t" for s t a
    using orch_step_refines replay_inv_osteps by blast
qed

section \<open>Replay agrees with the canonical state\<close>

text \<open>Grouping by stream and sorting by number restores, per stream, the order of writing.\<close>

lemma replay_order_streams:
  assumes "ledger_ok s"
  shows "replay_order (list_events tenant (Some eid) s) =
    concat (map (\<lambda>k. filter (\<lambda>ev. stream_id ev = k) (engagement_log tenant eid (audit_events s)))
      (stream_keys (list_events tenant (Some eid) s)))"
proof -
  let ?evs = "list_events tenant (Some eid) s"
  let ?P = "\<lambda>r. event_tenant r = tenant \<and> event_engagement r = Some eid"
  have perm: "mset ?evs = mset (filter ?P (audit_events s))"
    by (simp add: list_events_def)
  have ten: "\<forall>e \<in> set ?evs. event_tenant e = tenant" by (auto simp: list_events_def)
  have "sort_key (\<lambda>e. (sequence_no e, event_id e)) (filter (\<lambda>e. stream_id e = k) ?evs)
      = filter (\<lambda>ev. stream_id ev = k) (engagement_log tenant eid (audit_events s))" for k
  proof -
    have "filter (\<lambda>e. stream_id e = k) ?evs = filter (\<lambda>e. (event_tenant e, stream_id e) = (tenant, k)) ?evs"
      using ten by (intro filter_cong) auto
    also have "sort_key (\<lambda>e. (sequence_no e, event_id e)) \<dots> =
        filter (\<lambda>e. (event_tenant e, stream_id e) = (tenant, k) \<and> ?P e) (audit_events s)"
      by (rule ledger.stream_order[OF assms perm])
    also have "\<dots> = filter (\<lambda>ev. stream_id ev = k) (engagement_log tenant eid (audit_events s))"
      by (auto simp: engagement_log_def intro: filter_cong)
    finally show ?thesis .
  qed
  then show ?thesis by (simp add: replay_order_def)
qed

lemma filter_concat_one:
  assumes "distinct ks" "\<And>x. x \<in> set xs \<Longrightarrow> P x \<Longrightarrow> g x = k"
    and "k \<notin> set ks \<Longrightarrow> filter P xs = []"
  shows "filter P (concat (map (\<lambda>j. filter (\<lambda>x. g x = j) xs) ks)) = filter P xs"
proof -
  have one: "filter P (filter (\<lambda>x. g x = j) xs) = (if j = k then filter P xs else [])" for j
    using assms(2) by (auto simp: filter_empty_conv intro: filter_cong)
  have "filter P (concat (map (\<lambda>j. filter (\<lambda>x. g x = j) xs) ks))
      = concat (map (\<lambda>j. if j = k then filter P xs else []) ks)"
    by (simp add: filter_concat o_def one del: filter_filter)
  also have "\<dots> = (if k \<in> set ks then filter P xs else [])"
    using assms(1) by (induction ks) auto
  finally show ?thesis using assms(3) by auto
qed

lemma stream_keys_props: "distinct (stream_keys evs)" "set (stream_keys evs) = stream_id ` set evs"
  by (auto simp: stream_keys_def)

lemma set_list_events:
  "set (list_events tenant (Some eid) s) = set (engagement_log tenant eid (audit_events s))"
  by (auto simp: list_events_def engagement_log_def)

lemma replay_views_log:
  fixes tenant eid :: ident
  assumes "ledger_ok s" "\<And>ev. ev \<in> set (audit_events s) \<Longrightarrow> wellformed_event ev"
  defines "evs \<equiv> replay_order (list_events tenant (Some eid) s)"
    and "elog \<equiv> engagement_log tenant eid (audit_events s)"
  shows "fold (task_view tid) evs acc = fold (task_view tid) elog acc"
    and "fold status_view evs st = fold status_view elog st"
proof -
  let ?ks = "stream_keys (list_events tenant (Some eid) s)"
  have evs: "evs = concat (map (\<lambda>k. filter (\<lambda>ev. stream_id ev = k) elog) ?ks)"
    unfolding evs_def elog_def by (rule replay_order_streams[OF assms(1)])
  have str: "stream_id ev = event_stream ev" if "ev \<in> set elog" for ev
    using that assms(1) by (auto simp: elog_def engagement_log_def ledger_ok_def)
  have keys: "set ?ks = stream_id ` set elog" by (simp add: stream_keys_props set_list_events elog_def)
  have one: "filter P evs = filter P elog" if k: "\<And>x. x \<in> set elog \<Longrightarrow> P x \<Longrightarrow> stream_id x = k" for P k
    unfolding evs
  proof (rule filter_concat_one[OF stream_keys_props(1) k])
    assume "k \<notin> set ?ks"
    then show "filter P elog = []" using k keys by (auto simp: filter_empty_conv)
  qed
  have wf: "wellformed_event ev" if "ev \<in> set elog" for ev
    using that assms(2) by (auto simp: elog_def engagement_log_def)
  let ?T = "\<lambda>ev. event_task ev = Some tid \<and> event_type ev \<in> {ev_task_created, ev_task_transitioned}"
  have "filter ?T evs = filter ?T elog"
  proof (rule one)
    fix x assume x: "x \<in> set elog" "?T x"
    then have "tid \<noteq> []" using wf[OF x(1)] by (auto simp: wellformed_event_def)
    then show "stream_id x = tid" using x str[OF x(1)] by (simp add: event_stream_def)
  qed
  then show "fold (task_view tid) evs acc = fold (task_view tid) elog acc"
    by (metis (no_types, lifting) task_view_filter)
  let ?S = "\<lambda>ev. event_type ev = ev_engagement_transitioned"
  have "filter ?S evs = filter ?S elog"
  proof (rule one)
    fix x assume x: "x \<in> set elog" "?S x"
    then have "event_task x = None" using wf[OF x(1)] by (auto simp: wellformed_event_def)
    then show "stream_id x = (if eid \<noteq> [] then eid else ''tenant:'' @ tenant)"
      using x str[OF x(1)] by (auto simp: event_stream_def elog_def engagement_log_def)
  qed
  then show "fold status_view evs st = fold status_view elog st"
    by (metis (no_types, lifting) status_view_filter)
qed

text \<open>Within one engagement's events, a task shows its own state or nothing.\<close>

lemma engagement_log_task_view:
  assumes "orch_inv s" "replay_inv s"
  shows "map_option task_state (fold (task_view tid) (engagement_log tenant eid (audit_events s)) None)
    = (case row task_id tid (tasks s) of None \<Rightarrow> None
       | Some t \<Rightarrow> if of_engagement tenant eid t then Some (tk_status t, int (attempt_count t)) else None)"
proof -
  let ?T = "\<lambda>ev. event_task ev = Some tid \<and> event_type ev \<in> {ev_task_created, ev_task_transitioned}"
  let ?log = "engagement_log tenant eid (audit_events s)"
  have own: "\<exists>t. row task_id tid (tasks s) = Some t \<and> event_tenant ev = tk_tenant t \<and> event_engagement ev = Some (tk_engagement t)"
    if "ev \<in> set (audit_events s)" "?T ev" for ev using replay_invD(2)[OF assms(2), of ev tid] that by blast
  show ?thesis
  proof (cases "row task_id tid (tasks s)")
    case None
    then have "filter ?T ?log = []" using own by (fastforce simp: filter_empty_conv engagement_log_def)
    then have "fold (task_view tid) ?log None = None" using task_view_filter[of tid ?log None] by simp
    with None show ?thesis by simp
  next
    case (Some t)
    show ?thesis
    proof (cases "of_engagement tenant eid t")
      case True
      have "filter ?T ?log = filter ?T (audit_events s)"
        unfolding engagement_log_def filter_filter
        using own Some True by (intro filter_cong) (fastforce simp: of_engagement_def)+
      then have "fold (task_view tid) ?log None = fold (task_view tid) (audit_events s) None"
        using task_view_filter[of tid ?log None] task_view_filter[of tid "audit_events s" None] by simp
      with Some True replay_invD(3)[OF assms(2), of tid] show ?thesis by simp
    next
      case False
      have "filter ?T ?log = []"
        using own Some False by (fastforce simp: filter_empty_conv engagement_log_def of_engagement_def)
      then have "fold (task_view tid) ?log None = None" using task_view_filter[of tid ?log None] by simp
      with Some False show ?thesis by simp
    qed
  qed
qed

lemma replay_projection_correct:
  assumes inv: "orch_inv s" and rep: "replay_inv s" and e: "get_engagement tenant eid s = Some e"
  obtains r where "replay_events (list_events tenant (Some eid) s) tenant eid = Inr r"
    "rp_status r = eng_status e"
    "\<And>tid. map_option task_state (map_of (rp_tasks r) tid) =
       (case row task_id tid (tasks s) of None \<Rightarrow> None
        | Some t \<Rightarrow> if of_engagement tenant eid t then Some (tk_status t, int (attempt_count t)) else None)"
proof -
  let ?evs = "replay_order (list_events tenant (Some eid) s)"
  have led: "ledger_ok s" using inv by (simp add: orch_inv_def log_ok_def)
  note ev = get_engagement_row[OF e inv_distinct_engagements[OF inv]]
  have sub: "set ?evs \<subseteq> set (audit_events s)"
    unfolding replay_order_streams[OF led] by (auto simp: engagement_log_def)
  then obtain r where r: "replay_events (list_events tenant (Some eid) s) tenant eid = Inr r"
    "\<And>tid. map_of (rp_tasks r) tid = fold (task_view tid) ?evs None" "rp_status r = fold status_view ?evs E_PLANNED"
    using replay_fold_views[of ?evs "\<lparr>rp_tenant = tenant, rp_engagement = eid, rp_status = E_PLANNED, rp_tasks = []\<rparr>"]
      replay_invD(1)[OF rep] unfolding replay_events_def by fastforce
  note views = replay_views_log[where tenant = tenant and eid = eid, OF led replay_invD(1)[OF rep]]
  show thesis
  proof (rule that[OF r(1)])
    show "rp_status r = eng_status e"
      using replay_invD(5)[OF rep ev(4)] ev(2,3) by (simp add: r(3) views(2))
    show "map_option task_state (map_of (rp_tasks r) tid) =
       (case row task_id tid (tasks s) of None \<Rightarrow> None
        | Some t \<Rightarrow> if of_engagement tenant eid t then Some (tk_status t, int (attempt_count t)) else None)" for tid
      using engagement_log_task_view[OF inv rep, of tid tenant eid] by (simp add: r(2) views(1))
  qed
qed

text \<open>
  C1. Replay fidelity: in every state the orchestrator can reach, rebuilding an existing
  engagement from the audit ledger succeeds and the comparison with the canonical state
  matches, with no mismatching status and no task missing on either side.
\<close>

theorem verify_replay_matches:
  assumes "orch_reach s" and "get_engagement tenant eid s = Some e"
  shows "\<exists>c. verify_replay tenant eid s = Inr c \<and> rc_matches c \<and> rc_mismatches c = [] \<and>
    rc_missing_in_replay c = [] \<and> rc_missing_in_canonical c = [] \<and> rc_replayed_status c = eng_status e"
proof -
  have inv: "orch_inv s" "replay_inv s"
    using replayable.reachable_inv assms(1) by (auto simp: orch_reach_def)
  obtain r where r: "replay_events (list_events tenant (Some eid) s) tenant eid = Inr r"
    "rp_status r = eng_status e"
    "\<And>tid. map_option task_state (map_of (rp_tasks r) tid) =
       (case row task_id tid (tasks s) of None \<Rightarrow> None
        | Some t \<Rightarrow> if of_engagement tenant eid t then Some (tk_status t, int (attempt_count t)) else None)"
    using replay_projection_correct[OF inv assms(2)] by blast
  note e = get_engagement_row(2,3)[OF assms(2) inv_distinct_engagements[OF inv(1)]]
  let ?ts = "list_tasks tenant eid s" and ?sn = "snapshot_of e s"
  have sn: "es_tasks ?sn = map snapshot_task ?ts" "es_status ?sn = eng_status e" by (simp_all add: snapshot_of_def e)
  have look: "row task_id (task_id t) (tasks s) = Some t" "of_engagement tenant eid t" if "t \<in> set ?ts" for t
    using fetched_list_live[OF inv(1) that[unfolded list_tasks_def]] by auto
  have ids: "set (map fst (rp_tasks r)) = task_id ` set ?ts"
  proof -
    have "tid \<in> fst ` set (rp_tasks r) \<longleftrightarrow> (\<exists>t. row task_id tid (tasks s) = Some t \<and> of_engagement tenant eid t)" for tid
    proof -
      have "tid \<in> fst ` set (rp_tasks r) \<longleftrightarrow> map_option task_state (map_of (rp_tasks r) tid) \<noteq> None"
        by (simp add: map_of_eq_None_iff)
      then show ?thesis unfolding r(3) by (auto split: option.splits if_splits)
    qed
    moreover have "tid \<in> task_id ` set ?ts \<longleftrightarrow> (\<exists>t. row task_id tid (tasks s) = Some t \<and> of_engagement tenant eid t)" for tid
    proof
      assume "tid \<in> task_id ` set ?ts"
      then obtain t where "t \<in> set ?ts" "tid = task_id t" by blast
      with look show "\<exists>t. row task_id tid (tasks s) = Some t \<and> of_engagement tenant eid t" by blast
    next
      assume "\<exists>t. row task_id tid (tasks s) = Some t \<and> of_engagement tenant eid t"
      then obtain t where t: "t \<in> set (tasks s)" "task_id t = tid" "of_engagement tenant eid t" using row_Some by metis
      then have "t \<in> set ?ts" by (simp add: list_tasks_def)
      with t(2) show "tid \<in> task_id ` set ?ts" by blast
    qed
    ultimately have "fst ` set (rp_tasks r) = task_id ` set ?ts" by (intro set_eqI) (simp only:)
    then show ?thesis by simp
  qed
  have dst: "distinct (map task_id ?ts)" unfolding list_tasks_def by (rule distinct_ids_sort[OF inv(1)])
  have canon: "map_of (rev (map (\<lambda>t. (sn_task_id t, t)) (es_tasks ?sn))) (task_id t) = Some (snapshot_task t)"
    if "t \<in> set ?ts" for t
    by (rule map_of_is_SomeI) (use dst that in \<open>auto simp: sn(1) o_def snapshot_task_def simp flip: rev_map\<close>)
  have same: "rt_status (the (map_of (rp_tasks r) (task_id t))) = tk_status t" if "t \<in> set ?ts" for t
    using r(3)[of "task_id t"] look[OF that] by (auto simp: task_state_def)
  have sid: "set (map sn_task_id (es_tasks ?sn)) = task_id ` set ?ts"
    by (auto simp: sn(1) snapshot_task_def)
  have nomis: "filter (\<lambda>i. rt_status (the (map_of (rp_tasks r) i)) \<noteq>
      sn_status (the (map_of (rev (map (\<lambda>t. (sn_task_id t, t)) (es_tasks ?sn))) i)))
      (sorted_list_of_set (task_id ` set ?ts)) = []"
    using same canon by (auto simp: filter_empty_conv snapshot_task_def)
  have "verify_replay tenant eid s = Inr (compare_projection r ?sn)"
    using r(1) assms(2) by (simp add: verify_replay_def snapshot_def require_engagement_def)
  then show ?thesis
    using nomis unfolding compare_projection_def Let_def ids sid by (simp add: r(2) sn(2))
qed

end
