(* ===== verification/Orch_Safety.thy ===== *)
theory Orch_Safety
  imports Replay
begin

text \<open>
  What execution may rely on: human gates, dependencies and attempt budgets hold for every
  task that was never put back by an administrator, and an administrative retry is always in
  the ledger. Final task and engagement states stay final.
\<close>

lemma edge_static [simp]:
  "human_gate (block_row now t) = human_gate t"
  "gate_position (block_row now t) = gate_position t"
  "stored_retry_policy (block_row now t) = stored_retry_policy t"
  "human_gate (claim_update w now n t) = human_gate t"
  "gate_position (claim_update w now n t) = gate_position t"
  "stored_retry_policy (claim_update w now n t) = stored_retry_policy t"
  "human_gate (complete_row r now t) = human_gate t"
  "gate_position (complete_row r now t) = gate_position t"
  "stored_retry_policy (complete_row r now t) = stored_retry_policy t"
  "human_gate (failure_row p fc force message now t) = human_gate t"
  "gate_position (failure_row p fc force message now t) = gate_position t"
  "stored_retry_policy (failure_row p fc force message now t) = stored_retry_policy t"
  "human_gate (gate_row approved d now t) = human_gate t"
  "gate_position (gate_row approved d now t) = gate_position t"
  "stored_retry_policy (gate_row approved d now t) = stored_retry_policy t"
  "human_gate (cancel_row reason now t) = human_gate t"
  "gate_position (cancel_row reason now t) = gate_position t"
  "stored_retry_policy (cancel_row reason now t) = stored_retry_policy t"
  "human_gate (overdue_row now t) = human_gate t"
  "gate_position (overdue_row now t) = gate_position t"
  "stored_retry_policy (overdue_row now t) = stored_retry_policy t"
  "human_gate (promote_retry_row t) = human_gate t"
  "gate_position (promote_retry_row t) = gate_position t"
  "stored_retry_policy (promote_retry_row t) = stored_retry_policy t"
  "human_gate (admin_retry_row now t) = human_gate t"
  "gate_position (admin_retry_row now t) = gate_position t"
  "stored_retry_policy (admin_retry_row now t) = stored_retry_policy t"
  "human_gate (skip_row now t) = human_gate t"
  "gate_position (skip_row now t) = gate_position t"
  "stored_retry_policy (skip_row now t) = stored_retry_policy t"
  "human_gate (fst (promote_pending now t)) = human_gate t"
  "gate_position (fst (promote_pending now t)) = gate_position t"
  "stored_retry_policy (fst (promote_pending now t)) = stored_retry_policy t"
  by (simp_all add: edge_rows gate_position_def stored_retry_policy_def Let_def)

section \<open>Control of execution\<close>

definition overridden :: "orch_store \<Rightarrow> ident \<Rightarrow> bool" where
  "overridden s tid \<longleftrightarrow> (\<exists>ev \<in> set (audit_events s). event_type ev = ev_task_transitioned \<and>
     event_task ev = Some tid \<and> map_of (payload ev) ''reason'' = Some (PStr ''administrative_retry''))"

definition started_statuses :: "task_status set" where
  "started_statuses = {T_READY, T_RUNNING, T_RETRY_WAIT, T_SUCCEEDED}"

definition before_gate_ok :: "task_row \<Rightarrow> bool" where
  "before_gate_ok t \<longleftrightarrow> (tk_status t \<in> started_statuses \<and> truthy (human_gate t) \<and>
     gate_position t = PStr ''before'' \<longrightarrow> review_status t = Some ''approved'')"

definition after_gate_ok :: "task_row \<Rightarrow> bool" where
  "after_gate_ok t \<longleftrightarrow> (tk_status t = T_SUCCEEDED \<and> truthy (human_gate t) \<and>
     gate_position t = PStr ''after'' \<longrightarrow> review_status t = Some ''approved'')"

definition dependencies_met :: "orch_store \<Rightarrow> task_row \<Rightarrow> bool" where
  "dependencies_met s t \<longleftrightarrow> (\<forall>d \<in> set (dependencies s). dp_task d = task_id t \<longrightarrow>
     (\<exists>r. row task_id (depends_on_task_id d) (tasks s) = Some r \<and>
          PStr (task_status_value (tk_status r)) \<in> set (allowed_statuses d)))"

definition budget_ok :: "task_row \<Rightarrow> bool" where
  "budget_ok t \<longleftrightarrow> (\<exists>p. stored_retry_policy t = Inr p \<and> int (attempt_count t) \<le> max_attempts p \<and>
     (tk_status t \<in> {T_PENDING, T_READY, T_RETRY_WAIT} \<or>
        tk_status t = T_WAITING_APPROVAL \<and> gate_position t = PStr ''before'' \<longrightarrow>
      int (attempt_count t) < max_attempts p))"

definition controlled :: "orch_store \<Rightarrow> task_row \<Rightarrow> bool" where
  "controlled s t \<longleftrightarrow> before_gate_ok t \<and> budget_ok t \<and>
     (tk_status t \<in> insert T_WAITING_APPROVAL started_statuses \<longrightarrow> dependencies_met s t)"

definition safety_inv :: "orch_store \<Rightarrow> bool" where
  "safety_inv s \<longleftrightarrow>
     (\<forall>d \<in> set (dependencies s). set (allowed_statuses d) \<subseteq> {PStr ''succeeded'', PStr ''skipped''}) \<and>
     (\<forall>t \<in> set (tasks s). after_gate_ok t \<and> (overridden s (task_id t) \<or> controlled s t))"

lemma edge_not_final: "task_edge s t t' reason \<Longrightarrow> tk_status t \<notin> {T_SUCCEEDED, T_SKIPPED, T_CANCELLED}"
  by (induction rule: task_edge.induct)
    (auto simp: TERMINAL_TASK_STATUSES_def lease_matches_def claimable_def)

lemma edge_after_gate: "task_edge s t t' reason \<Longrightarrow> after_gate_ok t'"
  unfolding after_gate_ok_def by (induction rule: task_edge.induct) simp_all

text \<open>Every edge but the administrative retry keeps a task under control.\<close>

lemma edge_before_gate:
  "task_edge s t t' reason \<Longrightarrow> before_gate_ok t \<Longrightarrow> reason = ''administrative_retry'' \<or> before_gate_ok t'"
  unfolding before_gate_ok_def started_statuses_def
  by (induction rule: task_edge.induct) (simp_all add: lease_matches_def claimable_def, blast)

lemma edge_budget:
  "task_edge s t t' reason \<Longrightarrow> budget_ok t \<Longrightarrow> reason = ''administrative_retry'' \<or> budget_ok t'"
  unfolding budget_ok_def
  by (induction rule: task_edge.induct)
    (simp_all add: lease_matches_def claimable_def retry_allowed_def, auto)

lemma edge_dependencies:
  assumes e: "task_edge s t t' reason" and r: "reason \<noteq> ''administrative_retry''"
    and st: "tk_status t' \<in> insert T_WAITING_APPROVAL started_statuses"
    and ok: "tk_status t \<in> insert T_WAITING_APPROVAL started_statuses \<Longrightarrow> dependencies_met s t"
  shows "dependencies_met s t"
  using e r st ok unfolding started_statuses_def
  by (induction rule: task_edge.induct)
    (auto simp: dependencies_met_def lease_matches_def claimable_def split: if_splits)

section \<open>Preservation\<close>

lemma overridden_mono: "set (audit_events s) \<subseteq> set (audit_events s') \<Longrightarrow> overridden s tid \<Longrightarrow> overridden s' tid"
  by (auto simp: overridden_def)

lemma dependencies_met_moved:
  assumes al: "\<forall>d \<in> set (dependencies s). set (allowed_statuses d) \<subseteq> {PStr ''succeeded'', PStr ''skipped''}"
    and met: "dependencies_met s x" and t: "row task_id (task_id t) (tasks s) = Some t"
    and nf: "tk_status t \<notin> {T_SUCCEEDED, T_SKIPPED, T_CANCELLED}" and same: "task_id t' = task_id t"
    and s': "tasks s' = put task_id t' (tasks s)" "dependencies s' = dependencies s"
    and id: "task_id x' = task_id x"
  shows "dependencies_met s' x'"
  unfolding dependencies_met_def
proof (intro ballI impI)
  fix d assume d: "d \<in> set (dependencies s')" "dp_task d = task_id x'"
  with met id s'(2) obtain r where r: "row task_id (depends_on_task_id d) (tasks s) = Some r"
    "PStr (task_status_value (tk_status r)) \<in> set (allowed_statuses d)" unfolding dependencies_met_def by auto
  have "tk_status r \<in> {T_SUCCEEDED, T_SKIPPED}"
    using al d(1) r(2) s'(2) by (cases "tk_status r") auto
  then have "depends_on_task_id d \<noteq> task_id t" using r(1) t nf by auto
  then have "row task_id (depends_on_task_id d) (tasks s') = Some r" using r(1) same by (simp add: s'(1) row_put)
  with r(2) show "\<exists>r. row task_id (depends_on_task_id d) (tasks s') = Some r \<and>
      PStr (task_status_value (tk_status r)) \<in> set (allowed_statuses d)" by blast
qed

lemma safety_inv_moved:
  assumes inv: "orch_inv s" and saf: "safety_inv s" and t: "row task_id (task_id t) (tasks s) = Some t"
    and edge: "task_edge s t t' reason" and log: "logged ev s s'"
    and te: "transition_event ev t' (tk_status t) reason"
    and s': "tasks s' = put task_id t' (tasks s)" "dependencies s' = dependencies s"
  shows "safety_inv s'"
proof -
  have al: "\<forall>d \<in> set (dependencies s). set (allowed_statuses d) \<subseteq> {PStr ''succeeded'', PStr ''skipped''}"
    and ts: "\<And>x. x \<in> set (tasks s) \<Longrightarrow> after_gate_ok x \<and> (overridden s (task_id x) \<or> controlled s x)"
    using saf unfolding safety_inv_def by auto
  have evs: "set (audit_events s) \<subseteq> set (audit_events s')" using logged_events[OF log] by auto
  have tin: "t \<in> set (tasks s)" using row_Some[OF t] by simp
  have idt: "task_id t' = task_id t" using edge by simp
  note nf = edge_not_final[OF edge]
  have met: "dependencies_met s x \<Longrightarrow> task_id x' = task_id x \<Longrightarrow> dependencies_met s' x'" for x x'
    by (rule dependencies_met_moved[OF al _ t nf idt s'])
  have "after_gate_ok x \<and> (overridden s' (task_id x) \<or> controlled s' x)" if x: "x \<in> set (tasks s')" for x
  proof (cases "x = t'")
    case True
    have "overridden s' (task_id t') \<or> controlled s' t'"
    proof (cases "reason = ''administrative_retry''")
      case True
      have "ledger_row ev (next_sequence (event_tenant ev) (event_stream ev) (audit_events s)) \<in> set (audit_events s')"
        using logged_events[OF log] by simp
      then show ?thesis using te True unfolding overridden_def transition_event_def
        by (metis ledger_row_simps(2,5,7))
    next
      case False
      from ts[OF tin] show ?thesis
      proof (elim conjE disjE)
        assume "overridden s (task_id t)"
        then show ?thesis using overridden_mono[OF evs] idt by simp
      next
        assume c: "controlled s t"
        have "before_gate_ok t'" "budget_ok t'"
          using c edge_before_gate[OF edge] edge_budget[OF edge] False by (auto simp: controlled_def)
        moreover have "dependencies_met s' t'" if "tk_status t' \<in> insert T_WAITING_APPROVAL started_statuses"
          using met[of t t'] idt edge_dependencies[OF edge False that] c by (auto simp: controlled_def)
        ultimately show ?thesis by (auto simp: controlled_def)
      qed
    qed
    with True edge_after_gate[OF edge] show ?thesis by simp
  next
    case False
    have "x \<in> set (tasks s)"
      using x False in_set_put[OF inv_distinct_tasks[OF inv], of x t'] by (auto simp: s'(1) split: if_splits)
    from ts[OF this] overridden_mono[OF evs] met[of x x] show ?thesis by (auto simp: controlled_def)
  qed
  with al show ?thesis unfolding safety_inv_def s'(2) by blast
qed

text \<open>Steps that move no task.\<close>

lemma safety_inv_frame:
  assumes saf: "safety_inv s" and evs: "set (audit_events s) \<subseteq> set (audit_events s')"
    and rows: "\<And>i. row task_id i (tasks s') = map_option f (row task_id i (tasks s))"
    and sets: "set (tasks s') = f ` set (tasks s)"
    and f: "\<And>t. task_id (f t) = task_id t \<and> tk_status (f t) = tk_status t \<and> attempt_count (f t) = attempt_count t \<and>
        review_status (f t) = review_status t \<and> human_gate (f t) = human_gate t \<and>
        execution_policy_json (f t) = execution_policy_json t"
    and deps: "dependencies s' = dependencies s"
  shows "safety_inv s'"
proof -
  have met: "dependencies_met s t \<Longrightarrow> dependencies_met s' (f t)" for t
    using f unfolding dependencies_met_def deps by (fastforce simp: rows)
  have ctl: "controlled s t \<Longrightarrow> controlled s' (f t)" "after_gate_ok t \<Longrightarrow> after_gate_ok (f t)" for t
    using met[of t] f[of t]
    by (auto simp: controlled_def after_gate_ok_def before_gate_ok_def budget_ok_def gate_position_def
        stored_retry_policy_def)
  show ?thesis
    using saf ctl overridden_mono[OF evs] f unfolding safety_inv_def deps sets by auto
qed

lemma retry_policy_roundtrip:
  assumes "retry_policy_ok p"
  shows "retry_policy_validate (PDict (retry_policy_dump p)) = Inr p"
proof -
  have "set (filter (\<lambda>c. c \<in> retryable_failures p) failure_classes) = retryable_failures p"
    using failure_classes_complete by auto
  then show ?thesis
    using assms
    by (cases p) (simp add: retry_policy_validate_def retry_policy_dump_def retry_policy_fields_def int_field_def
        float_field_def failure_set_field_def failure_list_values[unfolded comp_def] comp_def Let_def)
qed

lemma stored_policy_new:
  assumes "retry_policy_ok (td_retry_policy d)"
  shows "stored_retry_policy (new_task_row tenant eid v now tid cr d) = Inr (td_retry_policy d)"
  using retry_policy_roundtrip[OF assms]
  by (simp add: stored_retry_policy_def persisted_execution_policy_def Let_def update_conv')

lemma allowed_statuses_new:
  assumes "is_new_dependency tenant ids p d" "dependency_definition_ok (snd p)"
  shows "set (allowed_statuses d) \<subseteq> {PStr ''succeeded'', PStr ''skipped''}"
  using assms by (auto simp: is_new_dependency_def allowed_statuses_def allowed_statuses_json_def
      dependency_definition_ok_def)

lemma safety_inv_compiled:
  assumes inv: "orch_inv s" and saf: "safety_inv s" and ok: "workflow_definition_ok w"
    and c: "compiled_as tenant eid w now s s' c"
  shows "safety_inv s'"
proof -
  have dst: "distinct (map task_id (tasks s'))"
    using inv_distinct_tasks[OF inv] c unfolding compiled_as_def by blast
  have ts: "tasks s' = tasks s @ cp_rows c" "dependencies s' = dependencies s @ cp_deps c"
    and dl: "list_all2 (is_new_dependency tenant (cp_ids c)) (dependency_pairs w) (cp_deps c)"
    and lg: "logs (cp_events c @ [cp_final c]) s s'"
    using c unfolding compiled_as_def by blast+
  have evs: "set (audit_events s) \<subseteq> set (audit_events s')" using logs_events[OF lg] by auto
  have keep: "row task_id i (tasks s) = Some t \<Longrightarrow> row task_id i (tasks s') = Some t" for i t
    by (simp add: ts row_append)
  have defs: "\<And>d. d \<in> set (wf_tasks w) \<Longrightarrow> task_definition_ok d" using ok by (simp add: workflow_definition_ok_def)
  have newdep: "\<exists>p. is_new_dependency tenant (cp_ids c) p d \<and> dependency_definition_ok (snd p)"
    if d: "d \<in> set (cp_deps c)" for d
  proof -
    from list_all2_setD(1)[OF dl d] obtain p where p: "p \<in> set (dependency_pairs w)" "is_new_dependency tenant (cp_ids c) p d"
      by blast
    then have "fst p \<in> set (wf_tasks w)" "snd p \<in> set (td_dependencies (fst p))" by (auto simp: dependency_pairs_def)
    with defs[of "fst p"] have "dependency_definition_ok (snd p)" by (simp add: task_definition_ok_def)
    with p(2) show ?thesis by blast
  qed
  have other: "dp_task d \<noteq> task_id x" if d: "d \<in> set (cp_deps c)" and x: "x \<in> set (tasks s)" for d x
  proof -
    from newdep[OF d] obtain p where "is_new_dependency tenant (cp_ids c) p d" by blast
    then have "map_of (cp_ids c) (td_key (fst p)) = Some (dp_task d)" by (simp add: is_new_dependency_def)
    from compiled_id_row[OF c this dst] obtain t where "t \<in> set (cp_rows c)" "task_id t = dp_task d"
      using row_Some by metis
    moreover have "task_id x \<notin> task_id ` set (cp_rows c)" using dst x by (auto simp: ts)
    ultimately show ?thesis by (metis imageI)
  qed
  have "after_gate_ok x \<and> (overridden s' (task_id x) \<or> controlled s' x)" if x: "x \<in> set (tasks s')" for x
  proof (cases "x \<in> set (tasks s)")
    case True
    have "dependencies_met s x \<Longrightarrow> dependencies_met s' x"
      using other[OF _ True] keep unfolding dependencies_met_def ts(2) by auto
    then have "controlled s x \<Longrightarrow> controlled s' x" by (auto simp: controlled_def)
    moreover have "after_gate_ok x" "overridden s (task_id x) \<or> controlled s x"
      using saf True by (auto simp: safety_inv_def)
    ultimately show ?thesis using overridden_mono[OF evs] by blast
  next
    case False
    with x have "x \<in> set (cp_rows c)" by (simp add: ts)
    with c obtain d tid cr where d: "d \<in> set (wf_tasks w)"
      "x = new_task_row tenant eid (workflow_version w) now tid cr d" by (rule compiled_rows)
    from defs[OF d(1)] have p: "retry_policy_ok (td_retry_policy d)" by (simp add: task_definition_ok_def)
    then have "0 < max_attempts (td_retry_policy d)" by (simp add: retry_policy_ok_def)
    then have "budget_ok x" using stored_policy_new[OF p] by (simp add: d(2) budget_ok_def)
    then show ?thesis
      by (simp add: d(2) after_gate_ok_def controlled_def before_gate_ok_def started_statuses_def)
  qed
  moreover have "set (allowed_statuses d) \<subseteq> {PStr ''succeeded'', PStr ''skipped''}" if "d \<in> set (dependencies s')" for d
    using that newdep allowed_statuses_new saf unfolding ts(2) safety_inv_def by (metis Un_iff set_append)
  ultimately show ?thesis unfolding safety_inv_def by blast
qed

lemma safety_inv_ostep:
  assumes inv: "orch_inv s" and saf: "safety_inv s" and step: "ostep s s'"
  shows "safety_inv s'"
  using step
proof cases
  case (task_moved t t' reason ev)
  then show ?thesis by (intro safety_inv_moved[OF inv saf])
next
  case (lease_extended t worker now t' expires ev)
  let ?f = "\<lambda>x. if task_id x = task_id t then x\<lparr>lease_expires_at := Some expires\<rparr> else x"
  have eq: "tasks s' = map ?f (tasks s)"
    unfolding lease_extended(6) put_def
  proof (rule map_cong[OF refl])
    fix x assume "x \<in> set (tasks s)"
    then have "task_id x = task_id t \<Longrightarrow> x = t"
      using row_unique[OF inv_distinct_tasks[OF inv] lease_extended(1)] by blast
    then show "(if task_id x = task_id t' then t' else x) = ?f x" by (auto simp: lease_extended(3))
  qed
  show ?thesis
    by (rule safety_inv_frame[OF saf, where f = ?f])
      (use logged_events[OF lease_extended(4)] lease_extended(9) in \<open>auto simp: eq row_map\<close>)
next
  case (engagement_moved e target e' ev)
  show ?thesis
    by (rule safety_inv_frame[OF saf, where f = "\<lambda>x. x"])
      (use logged_events[OF engagement_moved(5)] engagement_moved(8,9) in \<open>auto simp: option.map_ident\<close>)
next
  case (engagement_touched e e' st ct)
  show ?thesis
    by (rule safety_inv_frame[OF saf, where f = "\<lambda>x. x"])
      (auto simp: engagement_touched(3) put_engagement_def option.map_ident)
next
  case (workflow_compiled w tenant eid now sn)
  from workflow_compiled(2) obtain c where "compiled_as tenant eid w now s s' c" by (rule compile_workflow_effect)
  then show ?thesis by (rule safety_inv_compiled[OF inv saf workflow_compiled(1)])
next
  case (engagement_added e)
  then show ?thesis
    by (intro safety_inv_frame[OF saf, where f = "\<lambda>x. x"])
      (auto simp: add_engagement_def option.map_ident split: if_splits)
next
  case (foreign_event ev)
  show ?thesis
    by (rule safety_inv_frame[OF saf, where f = "\<lambda>x. x"])
      (use logged_events[OF foreign_event(1)] foreign_event(3) in \<open>auto simp: tables_unchanged_def option.map_ident\<close>)
next
  case environment
  then show ?thesis
    by (intro safety_inv_frame[OF saf, where f = "\<lambda>x. x"]) (auto simp: tables_unchanged_def option.map_ident)
qed

lemma safety_inv_osteps:
  "ostep\<^sup>*\<^sup>* s s' \<Longrightarrow> orch_inv s \<Longrightarrow> safety_inv s \<Longrightarrow> orch_inv s' \<and> safety_inv s'"
  by (induction rule: rtranclp_induct) (auto intro: orch_inv_ostep safety_inv_ostep)

interpretation safe: guarded_machine orch_init orch_step "\<lambda>s. orch_inv s \<and> safety_inv s"
proof
  show "orch_init s \<Longrightarrow> orch_inv s \<and> safety_inv s" for s
    using orch_inv_init by (auto simp: orch_init_def safety_inv_def)
  show "orch_inv s \<and> safety_inv s \<Longrightarrow> orch_step a s = Inr t \<Longrightarrow> orch_inv t \<and> safety_inv t" for s t a
    using orch_step_refines safety_inv_osteps by blast
qed

section \<open>Final states\<close>

definition final_statuses :: "task_status set" where
  "final_statuses = {T_SUCCEEDED, T_SKIPPED, T_CANCELLED}"

text \<open>Completed engagements have only succeeded or skipped tasks.\<close>

definition completed_ok :: "orch_store \<Rightarrow> bool" where
  "completed_ok s \<longleftrightarrow> (\<forall>e \<in> set (engagements s). eng_status e = E_COMPLETED \<longrightarrow>
     tasks_of e s \<noteq> [] \<and> tk_status ` set (tasks_of e s) \<subseteq> {T_SUCCEEDED, T_SKIPPED})"

definition task_kept :: "orch_store \<Rightarrow> orch_store \<Rightarrow> bool" where
  "task_kept s s' \<longleftrightarrow> (\<forall>i t. row task_id i (tasks s) = Some t \<longrightarrow>
     (\<exists>t'. row task_id i (tasks s') = Some t' \<and> tk_tenant t' = tk_tenant t \<and> tk_engagement t' = tk_engagement t \<and>
           attempt_count t \<le> attempt_count t' \<and>
           (tk_status t \<in> final_statuses \<longrightarrow> tk_status t' = tk_status t)))"

definition engagement_kept :: "orch_store \<Rightarrow> orch_store \<Rightarrow> bool" where
  "engagement_kept s s' \<longleftrightarrow> (\<forall>i e. row engagement_id i (engagements s) = Some e \<longrightarrow>
     (\<exists>e'. row engagement_id i (engagements s') = Some e' \<and> eng_tenant e' = eng_tenant e \<and>
           (eng_status e \<in> {E_COMPLETED, E_CANCELLED} \<longrightarrow> eng_status e' = eng_status e)))"

lemma task_kept_refl: "task_kept s s"
  unfolding task_kept_def by blast

lemma task_kept_cong: "tasks s' = tasks s \<Longrightarrow> task_kept s s'"
  unfolding task_kept_def by auto

lemma task_keptD:
  assumes "task_kept s s'" "row task_id i (tasks s) = Some t"
  obtains t' where "row task_id i (tasks s') = Some t'" "tk_tenant t' = tk_tenant t" "tk_engagement t' = tk_engagement t"
    "attempt_count t \<le> attempt_count t'" "tk_status t \<in> final_statuses \<longrightarrow> tk_status t' = tk_status t"
  using assms unfolding task_kept_def by blast

lemma task_kept_trans:
  assumes "task_kept s t" "task_kept t u"
  shows "task_kept s u"
  unfolding task_kept_def
proof (intro allI impI)
  fix i x assume "row task_id i (tasks s) = Some x"
  with assms(1) obtain y where y: "row task_id i (tasks t) = Some y" "tk_tenant y = tk_tenant x"
    "tk_engagement y = tk_engagement x" "attempt_count x \<le> attempt_count y"
    "tk_status x \<in> final_statuses \<longrightarrow> tk_status y = tk_status x" by (rule task_keptD)
  from assms(2) y(1) obtain z where z: "row task_id i (tasks u) = Some z" "tk_tenant z = tk_tenant y"
    "tk_engagement z = tk_engagement y" "attempt_count y \<le> attempt_count z"
    "tk_status y \<in> final_statuses \<longrightarrow> tk_status z = tk_status y" by (rule task_keptD)
  from y z show "\<exists>x'. row task_id i (tasks u) = Some x' \<and> tk_tenant x' = tk_tenant x \<and> tk_engagement x' = tk_engagement x \<and>
      attempt_count x \<le> attempt_count x' \<and> (tk_status x \<in> final_statuses \<longrightarrow> tk_status x' = tk_status x)" by auto
qed

lemma engagement_kept_refl: "engagement_kept s s"
  unfolding engagement_kept_def by blast

lemma engagement_kept_cong: "engagements s' = engagements s \<Longrightarrow> engagement_kept s s'"
  unfolding engagement_kept_def by auto

lemma engagement_kept_trans: "engagement_kept s t \<Longrightarrow> engagement_kept t u \<Longrightarrow> engagement_kept s u"
  unfolding engagement_kept_def by metis

lemma task_kept_ostep:
  assumes "ostep s s'"
  shows "task_kept s s'"
  using assms
proof cases
  case (task_moved t t' reason ev)
  note nf = edge_not_final[OF task_moved(2)] and fr = edge_rows_frame(1-3)[OF task_moved(2)]
  have cnt: "attempt_count t \<le> attempt_count t'"
    using edge_attempt_count(1)[OF task_moved(2)] by (simp split: if_splits)
  show ?thesis
    unfolding task_kept_def
  proof (intro allI impI)
    fix i x assume x: "row task_id i (tasks s) = Some x"
    show "\<exists>x'. row task_id i (tasks s') = Some x' \<and> tk_tenant x' = tk_tenant x \<and> tk_engagement x' = tk_engagement x \<and>
           attempt_count x \<le> attempt_count x' \<and> (tk_status x \<in> final_statuses \<longrightarrow> tk_status x' = tk_status x)"
    proof (cases "i = task_id t")
      case True
      with x task_moved(1) have xt: "x = t" by simp
      have "row task_id i (tasks s') = Some t'"
        unfolding task_moved(5) True fr(1)[symmetric] by (rule row_put_same) (simp add: fr(1) task_moved(1))
      then show ?thesis
        using nf fr cnt unfolding xt final_statuses_def by blast
    next
      case False
      have "row task_id i (tasks s') = Some x"
        unfolding task_moved(5) using False x fr(1) by (simp add: row_put_other)
      then show ?thesis by blast
    qed
  qed
next
  case (lease_extended t worker now t' expires ev)
  then show ?thesis unfolding task_kept_def by (auto simp: row_put)
next
  case (workflow_compiled w tenant eid now sn)
  from workflow_compiled(2) obtain c where "compiled_as tenant eid w now s s' c" by (rule compile_workflow_effect)
  then have "tasks s' = tasks s @ cp_rows c" by (simp add: compiled_as_def)
  then show ?thesis unfolding task_kept_def by (auto simp: row_append)
qed (auto simp: put_engagement_def add_engagement_def tables_unchanged_def intro!: task_kept_cong split: if_splits)

lemma completed_ok_kept:
  assumes c: "completed_ok s" and inv: "orch_inv s" "orch_inv s'" and k: "task_kept s s'"
    and new: "\<And>t'. t' \<in> set (tasks s') \<Longrightarrow> row task_id (task_id t') (tasks s) = None \<Longrightarrow>
      \<forall>e \<in> set (engagements s). of_engagement (eng_tenant e) (engagement_id e) t' \<longrightarrow> tasks_of e s = []"
    and e: "e \<in> set (engagements s)" "eng_status e = E_COMPLETED"
    and e': "eng_tenant e' = eng_tenant e" "engagement_id e' = engagement_id e"
  shows "tasks_of e' s' \<noteq> [] \<and> tk_status ` set (tasks_of e' s') \<subseteq> {T_SUCCEEDED, T_SKIPPED}"
proof -
  from c e have old: "tasks_of e s \<noteq> []" "tk_status ` set (tasks_of e s) \<subseteq> {T_SUCCEEDED, T_SKIPPED}"
    by (auto simp: completed_ok_def)
  from old(1) obtain t where t: "t \<in> set (tasks s)" "of_engagement (eng_tenant e) (engagement_id e) t"
    unfolding tasks_of_def filter_empty_conv by blast
  from row_distinct[OF inv_distinct_tasks[OF inv(1)] t(1)] k obtain t' where t': "row task_id (task_id t) (tasks s') = Some t'"
    "tk_tenant t' = tk_tenant t" "tk_engagement t' = tk_engagement t" unfolding task_kept_def by blast
  have "t' \<in> set (tasks_of e' s')"
    using row_Some[OF t'(1)] t'(2,3) t(2) e' by (simp add: tasks_of_def of_engagement_def)
  moreover have "tk_status x \<in> {T_SUCCEEDED, T_SKIPPED}" if x: "x \<in> set (tasks_of e' s')" for x
  proof -
    have x1: "x \<in> set (tasks s')" "of_engagement (eng_tenant e) (engagement_id e) x"
      using x e' by (auto simp: tasks_of_def)
    show ?thesis
    proof (cases "row task_id (task_id x) (tasks s)")
      case None
      with new[OF x1(1)] x1(2) e(1) old(1) show ?thesis by blast
    next
      case (Some y)
      with k obtain y' where y': "row task_id (task_id x) (tasks s') = Some y'" "tk_tenant y' = tk_tenant y"
        "tk_engagement y' = tk_engagement y" "tk_status y \<in> final_statuses \<longrightarrow> tk_status y' = tk_status y"
        unfolding task_kept_def by blast
      have "y' = x" using y'(1) row_distinct[OF inv_distinct_tasks[OF inv(2)] x1(1)] by simp
      moreover have "y \<in> set (tasks_of e s)"
        using row_Some[OF Some] y'(2,3) x1(2) calculation by (simp add: tasks_of_def of_engagement_def)
      then have "tk_status y \<in> {T_SUCCEEDED, T_SKIPPED}" using old(2) by blast
      ultimately show ?thesis using y'(4) by (auto simp: final_statuses_def)
    qed
  qed
  ultimately show ?thesis by auto
qed

lemma put_new_row: "x \<in> set (put key r rows) \<Longrightarrow> row key (key x) rows \<noteq> None"
  unfolding has_key_row[symmetric] by (auto simp: put_def has_key_def split: if_splits)

lemma ostep_new_tasks:
  assumes step: "ostep s s'" and t': "t' \<in> set (tasks s')" "row task_id (task_id t') (tasks s) = None"
    and e: "of_engagement (eng_tenant e) (engagement_id e) t'"
  shows "tasks_of e s = []"
  using step
proof cases
  case (workflow_compiled w tenant eid now sn)
  from workflow_compiled(2) obtain c where c: "compiled_as tenant eid w now s s' c" by (rule compile_workflow_effect)
  then have "tasks s' = tasks s @ cp_rows c" and none: "list_tasks tenant eid s = []" by (simp_all add: compiled_as_def)
  with t' have "t' \<in> set (cp_rows c)" by (auto simp: row_None)
  with c obtain d tid cr where "t' = new_task_row tenant eid (workflow_version w) now tid cr d" by (rule compiled_rows)
  with e have "eng_tenant e = tenant" "engagement_id e = eid" by (simp_all add: of_engagement_def)
  with none show ?thesis unfolding tasks_of_def list_tasks_def by (metis set_sort set_empty)
next
  case (task_moved t u reason ev)
  show ?thesis using put_new_row[OF t'(1)[unfolded task_moved(5)]] t'(2) by simp
next
  case (lease_extended t worker now u expires ev)
  show ?thesis using put_new_row[OF t'(1)[unfolded lease_extended(6)]] t'(2) by simp
qed (use t' in \<open>auto simp: put_engagement_def add_engagement_def tables_unchanged_def row_None split: if_splits\<close>)

text \<open>An engagement row of the next state is an old one, possibly with a new status, or new and planned.\<close>

lemma ostep_engagement_rows:
  assumes inv: "orch_inv s" and step: "ostep s s'" and e': "e' \<in> set (engagements s')"
  obtains (old) e where "e \<in> set (engagements s)" "engagement_id e' = engagement_id e" "eng_tenant e' = eng_tenant e"
      "eng_status e' = eng_status e"
  | (moved) e where "e \<in> set (engagements s)" "engagement_id e' = engagement_id e" "eng_tenant e' = eng_tenant e"
      "engagement_edge s e (eng_status e')" "eng_status e \<noteq> eng_status e'" "tasks s' = tasks s"
  | (new) "eng_status e' = E_PLANNED"
  using step
proof cases
  case (engagement_moved e target u ev)
  show thesis
  proof (cases "e' = u")
    case True
    then show thesis using engagement_moved row_Some[OF engagement_moved(1)] by (intro moved[of e]) auto
  next
    case False
    then have "e' \<in> set (engagements s)" using e' by (auto simp: engagement_moved(7) put_def split: if_splits)
    then show thesis by (rule old) simp_all
  qed
next
  case (engagement_touched e u st ct)
  show thesis
  proof (cases "e' = u")
    case True
    then show thesis using engagement_touched row_Some[OF engagement_touched(1)] by (intro old[of e]) auto
  next
    case False
    then have "e' \<in> set (engagements s)" using e' by (auto simp: engagement_touched(3) put_engagement_def put_def split: if_splits)
    then show thesis by (rule old) simp_all
  qed
next
  case (workflow_compiled w tenant eid now sn)
  from workflow_compiled(2) obtain c where "compiled_as tenant eid w now s s' c" by (rule compile_workflow_effect)
  then have "e' \<in> set (engagements s)" using e' by (simp add: compiled_as_def)
  then show thesis by (rule old) simp_all
next
  case (engagement_added e)
  then have "e' = e \<or> e' \<in> set (engagements s)" using e' by (auto simp: add_engagement_def split: if_splits)
  then show thesis using engagement_added(2) old new by blast
qed (use e' in \<open>auto simp: tables_unchanged_def intro: old[OF _ refl refl refl]\<close>)

lemma engagement_edge_completed:
  assumes "engagement_edge s e target" "eng_status e \<noteq> target"
    "eng_status e = E_COMPLETED \<Longrightarrow> tk_status ` set (tasks_of e s) \<subseteq> {T_SUCCEEDED, T_SKIPPED}"
  shows "eng_status e \<notin> {E_COMPLETED, E_CANCELLED}"
    and "target = E_COMPLETED \<Longrightarrow> tasks_of e s \<noteq> [] \<and> tk_status ` set (tasks_of e s) \<subseteq> {T_SUCCEEDED, T_SKIPPED}"
  using assms by (auto simp: engagement_edge_def reconcile_target_def split: if_splits)

lemma tasks_of_cong:
  "tasks s' = tasks s \<Longrightarrow> engagement_id e' = engagement_id e \<Longrightarrow> eng_tenant e' = eng_tenant e \<Longrightarrow> tasks_of e' s' = tasks_of e s"
  by (simp add: tasks_of_def)

lemma completed_ok_ostep:
  assumes inv: "orch_inv s" and c: "completed_ok s" and step: "ostep s s'"
  shows "completed_ok s'"
  unfolding completed_ok_def
proof (intro ballI impI)
  fix e' assume e': "e' \<in> set (engagements s')" "eng_status e' = E_COMPLETED"
  from inv step e'(1) show "tasks_of e' s' \<noteq> [] \<and> tk_status ` set (tasks_of e' s') \<subseteq> {T_SUCCEEDED, T_SKIPPED}"
  proof (cases rule: ostep_engagement_rows)
    case (old e)
    show ?thesis
      by (rule completed_ok_kept[OF c inv orch_inv_ostep[OF inv step] task_kept_ostep[OF step], where e = e])
        (use old e'(2) ostep_new_tasks[OF step] in auto)
  next
    case (moved e)
    from c moved(1) have "eng_status e = E_COMPLETED \<Longrightarrow> tk_status ` set (tasks_of e s) \<subseteq> {T_SUCCEEDED, T_SKIPPED}"
      by (auto simp: completed_ok_def)
    from engagement_edge_completed(2)[OF moved(4,5) this e'(2)] show ?thesis
      using tasks_of_cong[OF moved(6,2,3)] by simp
  next
    case new
    with e'(2) show ?thesis by simp
  qed
qed

lemma engagement_kept_put:
  assumes "row engagement_id (engagement_id e) (engagements s) = Some e" "engagement_id e' = engagement_id e"
    "eng_tenant e' = eng_tenant e" "eng_status e \<in> {E_COMPLETED, E_CANCELLED} \<Longrightarrow> eng_status e' = eng_status e"
    "engagements s' = put engagement_id e' (engagements s)"
  shows "engagement_kept s s'"
  unfolding engagement_kept_def
proof (intro allI impI)
  fix i x assume x: "row engagement_id i (engagements s) = Some x"
  show "\<exists>y. row engagement_id i (engagements s') = Some y \<and> eng_tenant y = eng_tenant x \<and>
     (eng_status x \<in> {E_COMPLETED, E_CANCELLED} \<longrightarrow> eng_status y = eng_status x)"
  proof (cases "i = engagement_id e")
    case True
    with x assms have "x = e" "row engagement_id i (engagements s') = Some e'" by (simp_all add: row_put)
    with assms(3,4) show ?thesis by blast
  next
    case False
    with x assms have "row engagement_id i (engagements s') = Some x" by (simp add: row_put)
    then show ?thesis by blast
  qed
qed

lemma engagement_kept_ostep:
  assumes c: "completed_ok s" and step: "ostep s s'"
  shows "engagement_kept s s'"
  using step
proof cases
  case (engagement_moved e target e' ev)
  have "e \<in> set (engagements s)" using row_Some[OF engagement_moved(1)] by simp
  with c have "eng_status e = E_COMPLETED \<Longrightarrow> tk_status ` set (tasks_of e s) \<subseteq> {T_SUCCEEDED, T_SKIPPED}"
    by (auto simp: completed_ok_def)
  from engagement_edge_completed(1)[OF engagement_moved(2,3) this] show ?thesis
    using engagement_moved(4,7) by (intro engagement_kept_put[OF engagement_moved(1)]) auto
next
  case (engagement_touched e e' st ct)
  then show ?thesis by (intro engagement_kept_put[OF engagement_touched(1)]) (auto simp: put_engagement_def)
next
  case (workflow_compiled w tenant eid now sn)
  from workflow_compiled(2) obtain c where "compiled_as tenant eid w now s s' c" by (rule compile_workflow_effect)
  then show ?thesis by (intro engagement_kept_cong) (simp add: compiled_as_def)
next
  case (engagement_added e)
  then show ?thesis by (auto simp: engagement_kept_def add_engagement_def row_append split: if_splits)
qed (auto simp: tables_unchanged_def intro!: engagement_kept_cong)

lemma kept_osteps:
  "ostep\<^sup>*\<^sup>* s s' \<Longrightarrow> orch_inv s \<Longrightarrow> completed_ok s \<Longrightarrow>
   orch_inv s' \<and> completed_ok s' \<and> task_kept s s' \<and> engagement_kept s s'"
proof (induction rule: rtranclp_induct)
  case base
  then show ?case by (simp add: task_kept_refl engagement_kept_refl)
next
  case (step t u)
  then have t: "orch_inv t" "completed_ok t" "task_kept s t" "engagement_kept s t" by simp_all
  show ?case
    using orch_inv_ostep[OF t(1) step(2)] completed_ok_ostep[OF t(1,2) step(2)]
      task_kept_trans[OF t(3) task_kept_ostep[OF step(2)]]
      engagement_kept_trans[OF t(4) engagement_kept_ostep[OF t(2) step(2)]] by simp
qed

interpretation settled: guarded_machine orch_init orch_step "\<lambda>s. orch_inv s \<and> completed_ok s"
proof
  show "orch_init s \<Longrightarrow> orch_inv s \<and> completed_ok s" for s
    using orch_inv_init by (auto simp: orch_init_def completed_ok_def)
  show "orch_inv s \<and> completed_ok s \<Longrightarrow> orch_step a s = Inr t \<Longrightarrow> orch_inv t \<and> completed_ok t" for s t a
    using orch_step_refines kept_osteps by blast
qed

lemma run_ops_kept:
  assumes "orch_inv s" "completed_ok s"
  shows "task_kept s (run_ops orch_step ops s) \<and> engagement_kept s (run_ops orch_step ops s)"
  using assms
proof (induction ops arbitrary: s)
  case Nil
  then show ?case by (simp add: task_kept_refl engagement_kept_refl)
next
  case (Cons a ops)
  show ?case
  proof (cases "orch_step a s")
    case (Inr t)
    from kept_osteps[OF orch_step_refines[OF Cons.prems(1) Inr] Cons.prems]
    have t: "orch_inv t" "completed_ok t" "task_kept s t" "engagement_kept s t" by simp_all
    from Cons.IH[OF t(1,2)] show ?thesis
      using task_kept_trans[OF t(3)] engagement_kept_trans[OF t(4)] by (simp add: Inr)
  qed (use Cons in simp)
qed

end
