(* ===== verification/Scenario.thy ===== *)
theory Scenario
  imports Orch_Safety
begin

text \<open>
  A small engagement that the witnesses of the properties run: planning is approved after it is
  executed, fieldwork depends on it and needs approval before it starts.
\<close>

declare bind_res_def [code_unfold]

definition demo_init :: orch_store where
  "demo_init = \<lparr>audit_events = [], outbox_events = [],
     uuids = (\<lambda>n. [''0123456789abcdefghijklmnopqrstuvwxyzABCDEFGHIJKLMNOPQRSTUVWXYZ'' ! n]),
     uuids_drawn = 0, wall_clock = (\<lambda>_. 0), clock_reads = 0, isoformat = (\<lambda>_. ''1970''),
     engagements = [], tasks = [], dependencies = [], attempts = []\<rparr>"

definition demo_engagement :: engagement_row where
  "demo_engagement = \<lparr>engagement_id = ''e1'', eng_tenant = ''acme'', eng_status = E_PLANNED, eng_created_at = 0,
     eng_started_at = None, eng_completed_at = None\<rparr>"

definition demo_task :: "string \<Rightarrow> string list \<Rightarrow> string option \<Rightarrow> gate_position \<Rightarrow> task_definition" where
  "demo_task k ds gate pos = \<lparr>td_key = k, td_task_type = ''fieldwork'', td_definition_version = ''1'',
     td_dependencies = map (\<lambda>d. \<lparr>dd_task_key = d, dd_allowed_statuses = {T_SUCCEEDED, T_SKIPPED}\<rparr>) ds,
     td_assigned_agent_role = None, td_input_refs = [], td_execution_policy = [], td_model_policy = None,
     td_tool_policy = None, td_retry_policy = default_retry_policy, td_priority = 100, td_deadline_seconds = None,
     td_human_gate = gate, td_human_gate_position = pos\<rparr>"

definition demo_workflow :: workflow_definition where
  "demo_workflow = \<lparr>workflow_version = ''1'',
     wf_tasks = [demo_task ''plan'' [] (Some ''partner'') GateAfter,
                 demo_task ''test'' [''plan''] (Some ''manager'') GateBefore],
     wf_metadata = []\<rparr>"

definition demo_result :: task_execution_result where
  "demo_result = \<lparr>er_output_refs = [''doc-1''], er_result = []\<rparr>"

definition demo_decision :: gate_decision where
  "demo_decision = \<lparr>gd_actor_id = ''maria'', gd_reason = ''reviewed''\<rparr>"

definition demo_running :: "orch_op list" where
  "demo_running = [AddEngagement demo_engagement, CompileWorkflow ''acme'' ''e1'' demo_workflow 0,
     StartEngagement ''acme'' ''e1'' 1, ClaimNext ''acme'' ''w1'' 60 None [] [] 2]"

definition demo_planned :: "orch_op list" where
  "demo_planned = demo_running @ [CompleteTask ''acme'' ''tsk_0'' ''w1'' demo_result 3,
     ApproveGate ''acme'' ''tsk_0'' demo_decision 4]"

definition demo_one :: "string option \<Rightarrow> workflow_definition" where
  "demo_one gate = \<lparr>workflow_version = ''1'', wf_tasks = [demo_task ''plan'' [] gate GateBefore], wf_metadata = []\<rparr>"

definition demo_approved :: "orch_op list" where
  "demo_approved = [AddEngagement demo_engagement, CompileWorkflow ''acme'' ''e1'' (demo_one (Some ''partner'')) 0,
     StartEngagement ''acme'' ''e1'' 1, ApproveGate ''acme'' ''tsk_0'' demo_decision 2]"

definition demo_skipped :: "orch_op list" where
  "demo_skipped = [AddEngagement demo_engagement, CompileWorkflow ''acme'' ''e1'' (demo_one None) 0,
     StartEngagement ''acme'' ''e1'' 1, ForceSkipTask ''acme'' ''tsk_0'' ''maria'' ''not in scope'' 2]"

abbreviation demo :: "orch_op list \<Rightarrow> orch_store" where
  "demo ops \<equiv> run_ops orch_step ops demo_init"

lemma demo_reach: "orch_reach (demo ops)"
  unfolding orch_reach_def
  by (intro reach_run_ops reach_init) (simp add: orch_init_def demo_init_def)

definition task_summary :: "task_row \<Rightarrow> ident \<times> task_status \<times> string option \<times> pyval \<times> string option \<times> ident option \<times> nat" where
  "task_summary t = (task_id t, tk_status t, human_gate t, gate_position t, review_status t, lease_owner t, attempt_count t)"

lemma demo_running_state:
  "map task_summary (tasks (demo demo_running)) =
     [(''tsk_0'', T_RUNNING, Some ''partner'', PStr ''after'', None, Some ''w1'', 1),
      (''tsk_1'', T_PENDING, Some ''manager'', PStr ''before'', None, None, 0)] \<and>
   \<not> overridden (demo demo_running) ''tsk_0'' \<and>
   get_engagement ''acme'' ''e1'' (demo demo_running) \<noteq> None"
  by code_simp

lemma summary_nth:
  assumes "map task_summary (tasks s) = xs" "i < length xs"
  shows "tasks s ! i \<in> set (tasks s)" "task_summary (tasks s ! i) = xs ! i"
  using assms by auto

lemma demo_planned_state:
  "map task_summary (tasks (demo demo_planned)) =
     [(''tsk_0'', T_SUCCEEDED, Some ''partner'', PStr ''after'', Some ''approved'', None, 1),
      (''tsk_1'', T_WAITING_APPROVAL, Some ''manager'', PStr ''before'', Some ''pending'', None, 0)] \<and>
   map (\<lambda>d. (dp_task d, depends_on_task_id d)) (dependencies (demo demo_planned)) = [(''tsk_1'', ''tsk_0'')]"
  by code_simp

lemma demo_approved_tasks:
  "map task_summary (tasks (demo demo_approved)) =
     [(''tsk_0'', T_READY, Some ''partner'', PStr ''before'', Some ''approved'', None, 0)]"
  by code_simp

lemma demo_skipped_state:
  "map task_summary (tasks (demo demo_skipped)) =
     [(''tsk_0'', T_SKIPPED, None, PStr ''before'', None, None, 0)] \<and>
   map (\<lambda>e. (engagement_id e, eng_status e)) (engagements (demo demo_skipped)) = [(''e1'', E_COMPLETED)]"
  by code_simp

end
