(* ===== verification/Orch_Props.thy ===== *)
theory Orch_Props
  imports Scenario
begin

text \<open>
  Properties of every state the orchestrator can reach, whatever the sequence of requests: the
  audit ledger and its outbox, leases and attempts, human gates, dependencies, attempt budgets
  and final states. Each follows from an invariant of the contract and the refinement.
\<close>

section \<open>Ledger and leases\<close>

lemma reach_orch_inv: "orch_reach s \<Longrightarrow> orch_inv s"
  unfolding orch_reach_def by (rule orch.reachable_inv)

lemma reach_safety: "orch_reach s \<Longrightarrow> orch_inv s \<and> safety_inv s"
  unfolding orch_reach_def by (rule safe.reachable_inv)

lemma reach_settled: "orch_reach s \<Longrightarrow> orch_inv s \<and> completed_ok s"
  unfolding orch_reach_def by (rule settled.reachable_inv)

text \<open>
  C4. Audit completeness: in every reachable state each tenant's stream of the ledger is
  numbered 1, 2, 3 and so on without gaps or repetitions, event identifiers are unique, and
  the transactional outbox holds exactly one message per ledger event, in the same order,
  with the same tenant, type and payload.
\<close>

theorem ledger_complete:
  assumes "orch_reach s"
  shows "map sequence_no (stream_events tenant stream (audit_events s))
           = [1..<Suc (length (stream_events tenant stream (audit_events s)))]
    \<and> distinct (map event_id (audit_events s)) \<and> length (outbox_events s) = length (audit_events s)
    \<and> (\<forall>i < length (audit_events s). mirrors (outbox_events s ! i) (audit_events s ! i))"
proof -
  have "log_ok s" using reach_orch_inv[OF assms] by (simp add: orch_inv_def)
  then show ?thesis
    by (simp add: log_ok_def ledger_ok_def outbox_mirrors_def list_all2_conv_all_nth)
qed

theorem ledger_complete_witness:
  "length (outbox_events (demo demo_running)) = length (audit_events (demo demo_running))"
  using ledger_complete[OF demo_reach, of _ _ demo_running] by blast

text \<open>
  C5. Exclusive execution: in every reachable state a task is running exactly when it has a
  lease, its attempts are numbered from one to its attempt count with no number used twice,
  and an attempt is open exactly when it is the current attempt of a running task, in which
  case it belongs to the worker that holds the lease.
\<close>

theorem leases_exclusive:
  assumes "orch_reach s" and "t \<in> set (tasks s)"
  shows "(tk_status t = T_RUNNING \<longleftrightarrow> lease_owner t \<noteq> None \<and> lease_expires_at t \<noteq> None)
    \<and> (tk_status t \<noteq> T_RUNNING \<longleftrightarrow> lease_owner t = None)
    \<and> attempt_no ` {a \<in> set (attempts s). at_task a = task_id t} = {1..attempt_count t}
    \<and> inj_on attempt_no {a \<in> set (attempts s). at_task a = task_id t}
    \<and> {a \<in> set (attempts s). at_task a = task_id t \<and> at_status a = A_running}
        = {a \<in> set (attempts s). at_task a = task_id t \<and> attempt_no a = attempt_count t \<and>
             lease_owner t = Some (at_worker a)}"
proof -
  have inv: "tables_ok s" "attempts_ok s" using reach_orch_inv[OF assms(1)] by (simp_all add: orch_inv_def)
  let ?A = "{a \<in> set (attempts s). at_task a = task_id t}"
  have ok: "task_ok t" and dst: "distinct (map (\<lambda>a. (at_task a, attempt_no a)) (attempts s))"
    using inv(1) assms(2) by (simp_all add: tables_ok_def)
  have row: "row task_id (task_id t) (tasks s) = Some t"
    by (rule row_distinct[OF _ assms(2)]) (use inv(1) in \<open>simp add: tables_ok_def\<close>)
  have att: "1 \<le> attempt_no a \<and> attempt_no a \<le> attempt_count t \<and>
      (at_status a = A_running \<longleftrightarrow> tk_status t = T_RUNNING \<and> attempt_no a = attempt_count t) \<and>
      (at_status a = A_running \<longrightarrow> lease_owner t = Some (at_worker a))" if "a \<in> ?A" for a
  proof -
    have "attempt_ok s a" using inv(2) that by (simp add: attempts_ok_def)
    with row that show ?thesis by (simp add: attempt_ok_def)
  qed
  have "attempt_no ` ?A = {1..attempt_count t}"
  proof (intro set_eqI iffI)
    fix n assume "n \<in> {1..attempt_count t}"
    with inv(2) assms(2) obtain a where "a \<in> set (attempts s)" "at_task a = task_id t" "attempt_no a = n"
      unfolding attempts_ok_def by (meson atLeastAtMost_iff)
    then show "n \<in> attempt_no ` ?A" by blast
  qed (use att in auto)
  moreover have "inj_on attempt_no ?A"
    using dst unfolding distinct_map by (auto simp: inj_on_def)
  moreover have "{a \<in> ?A. at_status a = A_running} = {a \<in> ?A. attempt_no a = attempt_count t \<and> lease_owner t = Some (at_worker a)}"
    using att ok unfolding task_ok_def by (intro Collect_cong) (metis option.distinct(1))
  ultimately show ?thesis using ok by (simp add: task_ok_def conj_assoc) blast
qed

theorem leases_exclusive_witness:
  "tk_status (tasks (demo demo_running) ! 0) = T_RUNNING \<and> lease_owner (tasks (demo demo_running) ! 0) \<noteq> None"
proof -
  note st = summary_nth[OF conjunct1[OF demo_running_state], of 0, simplified]
  have "tk_status (tasks (demo demo_running) ! 0) = T_RUNNING" using st(2) by (simp add: task_summary_def)
  then show ?thesis using leases_exclusive[OF demo_reach st(1)] by blast
qed

text \<open>
  C2. Refinement: every operation the orchestrator accepts in a reachable state is a finite
  sequence of contract steps, each of which moves one row along a permitted edge together with
  the event that records it, extends a lease, compiles a workflow or leaves the tables alone.
\<close>

theorem operations_refine:
  assumes "orch_reach s" and "orch_step a s = Inr s'"
  shows "ostep\<^sup>*\<^sup>* s s'"
  using orch_step_refines[OF reach_orch_inv[OF assms(1)] assms(2)] .

theorem operations_refine_witness:
  "\<exists>s'. orch_step (AddEngagement demo_engagement) demo_init = Inr s' \<and> ostep\<^sup>*\<^sup>* demo_init s'"
proof -
  have reach: "orch_reach demo_init" using demo_reach[of "[]"] by simp
  have "orch_step (AddEngagement demo_engagement) demo_init = Inr (demo_init\<lparr>engagements := [demo_engagement]\<rparr>)"
    by (simp add: add_engagement_def demo_init_def demo_engagement_def has_key_def)
  with operations_refine[OF reach this] show ?thesis by blast
qed

section \<open>Gates, dependencies and budgets\<close>

text \<open>
  C8. Post-execution gate: in every reachable state a task with a human gate after execution
  that counts as succeeded has been approved. No operation, administrative ones included, gets
  round this gate.
\<close>

theorem succeeded_after_gate_approved:
  assumes "orch_reach s" and "t \<in> set (tasks s)" and "tk_status t = T_SUCCEEDED"
    and "truthy (human_gate t)" and "gate_position t = PStr ''after''"
  shows "review_status t = Some ''approved''"
  using reach_safety[OF assms(1)] assms(2-) by (auto simp: safety_inv_def after_gate_ok_def)

theorem succeeded_after_gate_approved_witness:
  "review_status (tasks (demo demo_planned) ! 0) = Some ''approved''"
proof -
  note st = summary_nth[OF conjunct1[OF demo_planned_state], of 0, simplified]
  show ?thesis
    by (rule succeeded_after_gate_approved[OF demo_reach st(1)]) (use st(2) in \<open>simp_all add: task_summary_def\<close>)
qed

text \<open>
  C9. Pre-execution gate: in every reachable state a task with a human gate before execution
  that is ready, running, waiting for a retry or succeeded has been approved, unless the ledger
  records an administrative retry of that task.
\<close>

theorem started_before_gate_approved:
  assumes "orch_reach s" and "t \<in> set (tasks s)"
    and "tk_status t \<in> {T_READY, T_RUNNING, T_RETRY_WAIT, T_SUCCEEDED}"
    and "truthy (human_gate t)" and "gate_position t = PStr ''before''"
  shows "review_status t = Some ''approved'' \<or> overridden s (task_id t)"
proof -
  have "overridden s (task_id t) \<or> controlled s t"
    using reach_safety[OF assms(1)] assms(2) by (simp add: safety_inv_def)
  with assms(3-5) show ?thesis by (auto simp: controlled_def before_gate_ok_def started_statuses_def)
qed

theorem started_before_gate_approved_witness:
  "review_status (tasks (demo demo_approved) ! 0) = Some ''approved'' \<or>
   overridden (demo demo_approved) (task_id (tasks (demo demo_approved) ! 0))"
proof -
  note st = summary_nth[OF demo_approved_tasks, of 0, simplified]
  show ?thesis
    by (rule started_before_gate_approved[OF demo_reach st(1)]) (use st(2) in \<open>simp_all add: task_summary_def\<close>)
qed

text \<open>
  Dependency order: in every reachable state a task that is waiting for approval, ready,
  running, waiting for a retry or succeeded has every prerequisite succeeded or skipped, with a
  status the dependency allows, unless the ledger records an administrative retry of that task.
\<close>

lemma started_dependencies_met:
  assumes "orch_reach s" and "t \<in> set (tasks s)"
    and "tk_status t \<in> {T_WAITING_APPROVAL, T_READY, T_RUNNING, T_RETRY_WAIT, T_SUCCEEDED}"
    and "d \<in> set (dependencies s)" and "dp_task d = task_id t"
  shows "overridden s (task_id t) \<or>
    (\<exists>r. row task_id (depends_on_task_id d) (tasks s) = Some r \<and> tk_status r \<in> {T_SUCCEEDED, T_SKIPPED} \<and>
         PStr (task_status_value (tk_status r)) \<in> set (allowed_statuses d))"
proof -
  have saf: "safety_inv s" using reach_safety[OF assms(1)] by simp
  then have "overridden s (task_id t) \<or> controlled s t" using assms(2) by (simp add: safety_inv_def)
  then consider "overridden s (task_id t)" | "dependencies_met s t"
    using assms(3) by (auto simp: controlled_def started_statuses_def)
  then show ?thesis
  proof cases
    case 2
    with assms(4,5) obtain r where r: "row task_id (depends_on_task_id d) (tasks s) = Some r"
      "PStr (task_status_value (tk_status r)) \<in> set (allowed_statuses d)" unfolding dependencies_met_def by blast
    have "set (allowed_statuses d) \<subseteq> {PStr ''succeeded'', PStr ''skipped''}"
      using saf assms(4) by (simp add: safety_inv_def)
    with r(2) have "tk_status r \<in> {T_SUCCEEDED, T_SKIPPED}" by (cases "tk_status r") auto
    with r show ?thesis by blast
  qed simp
qed

text \<open>
  C10. Attempt budget: in every reachable state a task that no administrator put back has a stored
  retry policy that parses, and has made at most the attempts the policy allows, strictly fewer
  while it is pending, ready or waiting for a retry.
\<close>

theorem attempts_within_budget:
  assumes "orch_reach s" and "t \<in> set (tasks s)" and "\<not> overridden s (task_id t)"
  shows "\<exists>p. stored_retry_policy t = Inr p \<and> int (attempt_count t) \<le> max_attempts p \<and>
    (tk_status t \<in> {T_PENDING, T_READY, T_RETRY_WAIT} \<longrightarrow> int (attempt_count t) < max_attempts p)"
proof -
  have "budget_ok t" using reach_safety[OF assms(1)] assms(2,3) by (auto simp: safety_inv_def controlled_def)
  then show ?thesis by (auto simp: budget_ok_def)
qed

theorem attempts_within_budget_witness:
  "\<exists>p. stored_retry_policy (tasks (demo demo_running) ! 0) = Inr p \<and> 1 \<le> max_attempts p"
proof -
  note st = summary_nth[OF conjunct1[OF demo_running_state], of 0, simplified]
  have "task_id (tasks (demo demo_running) ! 0) = ''tsk_0''" "attempt_count (tasks (demo demo_running) ! 0) = 1"
    using st(2) by (simp_all add: task_summary_def)
  with attempts_within_budget[OF demo_reach st(1)] demo_running_state show ?thesis by auto
qed

section \<open>Final states\<close>

text \<open>
  C14. Results are final: once a task has succeeded, was skipped or was cancelled, it keeps that
  status under every later sequence of requests, accepted or refused, and no task ever
  disappears or loses an attempt.
\<close>

theorem final_task_stays:
  assumes "orch_reach s" and "row task_id i (tasks s) = Some t"
  shows "\<exists>t'. row task_id i (tasks (run_ops orch_step ops s)) = Some t' \<and> tk_engagement t' = tk_engagement t \<and>
    attempt_count t \<le> attempt_count t' \<and>
    (tk_status t \<in> {T_SUCCEEDED, T_SKIPPED, T_CANCELLED} \<longrightarrow> tk_status t' = tk_status t)"
proof -
  have "task_kept s (run_ops orch_step ops s)"
    using run_ops_kept reach_settled[OF assms(1)] by blast
  from task_keptD[OF this assms(2)] show ?thesis unfolding final_statuses_def by metis
qed

lemma demo_skipped_row:
  obtains t where "row task_id ''tsk_0'' (tasks (demo demo_skipped)) = Some t" "tk_status t = T_SKIPPED"
  using conjunct1[OF demo_skipped_state] by (auto simp: row_def task_summary_def)

theorem final_task_stays_witness:
  "\<forall>ops. \<exists>t'. row task_id ''tsk_0'' (tasks (run_ops orch_step ops (demo demo_skipped))) = Some t' \<and>
     tk_status t' = T_SKIPPED"
proof
  fix ops
  obtain t where t: "row task_id ''tsk_0'' (tasks (demo demo_skipped)) = Some t" "tk_status t = T_SKIPPED"
    by (rule demo_skipped_row)
  from final_task_stays[OF demo_reach t(1), of ops] t(2)
  show "\<exists>t'. row task_id ''tsk_0'' (tasks (run_ops orch_step ops (demo demo_skipped))) = Some t' \<and>
     tk_status t' = T_SKIPPED" by auto
qed

text \<open>
  C15. Closed engagements are final: a completed engagement has only succeeded or skipped tasks
  and at least one, and a completed or cancelled engagement keeps that status under every later
  sequence of requests, although tasks of a cancelled engagement can still be retried.
\<close>

theorem closed_engagement_stays:
  assumes "orch_reach s" and "row engagement_id i (engagements s) = Some e"
    and "eng_status e \<in> {E_COMPLETED, E_CANCELLED}"
  shows "\<exists>e'. row engagement_id i (engagements (run_ops orch_step ops s)) = Some e' \<and> eng_status e' = eng_status e
    \<and> (eng_status e = E_COMPLETED \<longrightarrow> tasks_of e s \<noteq> [] \<and>
         (\<forall>t \<in> set (tasks_of e s). tk_status t \<in> {T_SUCCEEDED, T_SKIPPED}))"
proof -
  have ok: "orch_inv s" "completed_ok s" using reach_settled[OF assms(1)] by simp_all
  have "engagement_kept s (run_ops orch_step ops s)" using run_ops_kept[OF ok] by simp
  from this[unfolded engagement_kept_def, rule_format, OF assms(2)] assms(3)
  obtain e' where "row engagement_id i (engagements (run_ops orch_step ops s)) = Some e'" "eng_status e' = eng_status e"
    by auto
  moreover have "e \<in> set (engagements s)" using row_Some[OF assms(2)] by simp
  then have "eng_status e = E_COMPLETED \<Longrightarrow> tasks_of e s \<noteq> [] \<and> (\<forall>t \<in> set (tasks_of e s). tk_status t \<in> {T_SUCCEEDED, T_SKIPPED})"
    using ok(2) unfolding completed_ok_def by (simp add: image_subset_iff)
  ultimately show ?thesis by simp
qed

theorem closed_engagement_stays_witness:
  "\<forall>ops. \<exists>e'. row engagement_id ''e1'' (engagements (run_ops orch_step ops (demo demo_skipped))) = Some e' \<and>
     eng_status e' = E_COMPLETED"
proof
  fix ops
  obtain e where "row engagement_id ''e1'' (engagements (demo demo_skipped)) = Some e" "eng_status e = E_COMPLETED"
    using conjunct2[OF demo_skipped_state] by (auto simp: row_def)
  with closed_engagement_stays[OF demo_reach this(1), of ops]
  show "\<exists>e'. row engagement_id ''e1'' (engagements (run_ops orch_step ops (demo demo_skipped))) = Some e' \<and>
     eng_status e' = E_COMPLETED" by auto
qed

text \<open>The replay of a running engagement agrees with its tables.\<close>

theorem verify_replay_matches_witness:
  "\<exists>c. verify_replay ''acme'' ''e1'' (demo demo_running) = Inr c \<and> rc_matches c"
proof -
  from demo_running_state obtain e where "get_engagement ''acme'' ''e1'' (demo demo_running) = Some e" by auto
  from verify_replay_matches[OF demo_reach this] show ?thesis by blast
qed

end
