(* ===== verification/Delivery.thy ===== *)
theory Delivery
  imports Orch_Props
begin

text \<open>
  Delivery of the audit trail while the orchestrator works: the outbox rows of every reachable
  state, with dispatchers claiming and acknowledging between any two transactions.
\<close>

definition outbox_ok :: "orch_store \<Rightarrow> bool" where
  "outbox_ok s \<longleftrightarrow> (\<forall>r \<in> set (outbox_events s). outbox_row_ok r)"

definition outbox_progress :: "'a store_scheme \<Rightarrow> 'a store_scheme \<Rightarrow> bool" where
  "outbox_progress s s' \<longleftrightarrow> (\<exists>A B. outbox_events s' = A @ B \<and>
     list_all2 outbox_edge\<^sup>*\<^sup>* (outbox_events s) A \<and> (\<forall>m \<in> set B. unsent m))"

lemma outbox_progress_moves:
  assumes "list_all2 outbox_edge\<^sup>*\<^sup>* (outbox_events s) (outbox_events s')"
  shows "outbox_progress s s'"
  unfolding outbox_progress_def by (rule exI[of _ "outbox_events s'"], rule exI[of _ "[]"]) (simp add: assms)

lemma outbox_progress_added:
  assumes "outbox_events s' = outbox_events s @ B" "\<forall>m \<in> set B. unsent m"
  shows "outbox_progress s s'"
  unfolding outbox_progress_def
  by (rule exI[of _ "outbox_events s"], rule exI[of _ B]) (simp add: assms list.rel_refl)

lemma outbox_progress_same: "outbox_events s' = outbox_events s \<Longrightarrow> outbox_progress s s'"
  by (rule outbox_progress_added[of _ _ "[]"]) simp_all

lemma outbox_progress_logged:
  assumes "logged e s s'"
  shows "outbox_progress s s'"
proof -
  from assms obtain m where "outbox_events s' = outbox_events s @ [m]" "unsent m" by (auto simp: logged_def Let_def)
  then show ?thesis by (intro outbox_progress_added[of _ _ "[m]"]) simp_all
qed

lemma logs_outbox: "logs es s s' \<Longrightarrow> \<exists>B. outbox_events s' = outbox_events s @ B \<and> (\<forall>m \<in> set B. unsent m)"
proof (induction es arbitrary: s)
  case Nil
  then show ?case by (simp add: same_log_def)
next
  case (Cons e es)
  then obtain u where u: "logged e s u" "logs es u s'" by auto
  from u(1) obtain m where "outbox_events u = outbox_events s @ [m]" "unsent m" by (auto simp: logged_def Let_def)
  with Cons.IH[OF u(2)] show ?case by auto
qed

lemma outbox_progress_ostep: "ostep s s' \<Longrightarrow> outbox_progress s s'"
proof (induction rule: ostep.induct)
  case (workflow_compiled w tenant eid now s sn s')
  from workflow_compiled(2) obtain c where "compiled_as tenant eid w now s s' c" by (rule compile_workflow_effect)
  then have "logs (cp_events c @ [cp_final c]) s s'" by (simp add: compiled_as_def)
  from logs_outbox[OF this] show ?case using outbox_progress_added by blast
next
  case (environment s' s)
  then show ?case by (intro outbox_progress_moves)
qed (auto simp: put_engagement_def add_engagement_def intro!: outbox_progress_same elim!: outbox_progress_logged split: if_splits)

lemma unsent_ok: "unsent m \<Longrightarrow> outbox_row_ok m"
  by (simp add: unsent_def outbox_row_ok_def)

lemma list_all2_in2: "list_all2 P xs ys \<Longrightarrow> y \<in> set ys \<Longrightarrow> \<exists>x \<in> set xs. P x y"
  by (metis in_set_conv_nth list_all2_conv_all_nth)

lemma outbox_ok_progress: "outbox_progress s s' \<Longrightarrow> outbox_ok s \<Longrightarrow> outbox_ok s'"
  unfolding outbox_ok_def outbox_progress_def by (auto dest!: list_all2_in2 intro: unsent_ok outbox_edges(2))

text \<open>A row found by its id is found again, having moved along the edges.\<close>

definition outbox_kept :: "'a store_scheme \<Rightarrow> 'a store_scheme \<Rightarrow> bool" where
  "outbox_kept s s' \<longleftrightarrow> (\<forall>i r. row outbox_id i (outbox_events s) = Some r \<longrightarrow>
     (\<exists>r'. row outbox_id i (outbox_events s') = Some r' \<and> outbox_edge\<^sup>*\<^sup>* r r'))"

lemma row_list_all2:
  assumes "list_all2 P xs ys" "\<And>x y. P x y \<Longrightarrow> key y = key x" "row key i xs = Some r"
  shows "\<exists>r'. row key i ys = Some r' \<and> P r r'"
  using assms(1,3)
proof (induction xs ys rule: list_all2_induct)
  case (Cons x xs y ys)
  then show ?case using assms(2)[of x y] by (auto simp: row_def split: if_splits)
qed (simp add: row_def)

lemma outbox_kept_progress:
  assumes "outbox_progress s s'"
  shows "outbox_kept s s'"
  unfolding outbox_kept_def
proof (intro allI impI)
  fix i r assume r: "row outbox_id i (outbox_events s) = Some r"
  from assms obtain A B where AB: "outbox_events s' = A @ B" "list_all2 outbox_edge\<^sup>*\<^sup>* (outbox_events s) A"
    unfolding outbox_progress_def by blast
  have "outbox_edge\<^sup>*\<^sup>* x y \<Longrightarrow> outbox_id y = outbox_id x" for x y
    using outbox_edges(1) by (auto simp: same_message_def)
  from row_list_all2[OF AB(2) this r] show "\<exists>r'. row outbox_id i (outbox_events s') = Some r' \<and> outbox_edge\<^sup>*\<^sup>* r r'"
    by (auto simp: AB(1) row_append)
qed

lemma outbox_kept_refl: "outbox_kept s s"
  by (simp add: outbox_kept_def)

lemma outbox_kept_trans: "outbox_kept a b \<Longrightarrow> outbox_kept b c \<Longrightarrow> outbox_kept a c"
  unfolding outbox_kept_def by (meson rtranclp_trans)

lemma outbox_kept_osteps: "ostep\<^sup>*\<^sup>* s s' \<Longrightarrow> outbox_ok s \<Longrightarrow> outbox_ok s' \<and> outbox_kept s s'"
proof (induction rule: rtranclp_induct)
  case (step t u)
  then show ?case
    using outbox_ok_progress[OF outbox_progress_ostep[OF step(2)]]
      outbox_kept_trans[OF _ outbox_kept_progress[OF outbox_progress_ostep[OF step(2)]]] by blast
qed (simp add: outbox_kept_refl)

interpretation delivery: guarded_machine orch_init orch_step "\<lambda>s. orch_inv s \<and> outbox_ok s"
proof
  show "orch_init s \<Longrightarrow> orch_inv s \<and> outbox_ok s" for s
    using orch_inv_init by (auto simp: orch_init_def outbox_ok_def)
  show "orch_inv s \<and> outbox_ok s \<Longrightarrow> orch_step a s = Inr t \<Longrightarrow> orch_inv t \<and> outbox_ok t" for s t a
    using orch_step_refines orch_inv_osteps outbox_kept_osteps by blast
qed

lemma reach_outbox: "orch_reach s \<Longrightarrow> orch_inv s \<and> outbox_ok s"
  unfolding orch_reach_def by (rule delivery.reachable_inv)

lemma run_ops_outbox:
  "orch_inv s \<Longrightarrow> outbox_ok s \<Longrightarrow> outbox_kept s (run_ops orch_step ops s)"
proof (induction ops arbitrary: s)
  case (Cons a ops)
  show ?case
  proof (cases "orch_step a s")
    case (Inr t)
    have k: "orch_inv t" "outbox_ok t" "outbox_kept s t"
      using delivery.inv_step[of s a t] Cons.prems outbox_kept_osteps[OF orch_step_refines[OF Cons.prems(1) Inr] Cons.prems(2)] Inr
      by simp_all
    from outbox_kept_trans[OF k(3) Cons.IH[OF k(1,2)]] show ?thesis by (simp add: Inr)
  qed (use Cons in simp)
qed (simp add: outbox_kept_refl)

text \<open>
  Message states: in every reachable state, whatever dispatchers do between the
  orchestrator's transactions, no message is both published and dead-lettered, a message has a
  lease owner exactly when it has a lease expiry, published and dead-lettered messages hold no
  lease and were attempted, and a published one has its message id.
\<close>

lemma outbox_states:
  assumes "orch_reach s" and "r \<in> set (outbox_events s)"
  shows "\<not> (ob_published_at r \<noteq> None \<and> ob_dead_lettered_at r \<noteq> None) \<and>
    (ob_lease_owner r = None \<longleftrightarrow> ob_lease_expires_at r = None) \<and>
    (ob_published_at r \<noteq> None \<or> ob_dead_lettered_at r \<noteq> None \<longrightarrow> ob_lease_owner r = None \<and> 1 \<le> ob_publish_attempts r) \<and>
    (ob_published_at r \<noteq> None \<longrightarrow> ob_published_message_id r \<noteq> None)"
  using reach_outbox[OF assms(1)] assms(2) by (auto simp: outbox_ok_def outbox_row_ok_def)

text \<open>
  C27. Delivery is final and loses nothing: under every later sequence of requests a message of
  the outbox is still there with the same content, and once it is published or dead-lettered
  its row never changes again.
\<close>

theorem outbox_delivery_final:
  assumes "orch_reach s" and "row outbox_id i (outbox_events s) = Some r"
  shows "\<exists>r'. row outbox_id i (outbox_events (run_ops orch_step ops s)) = Some r' \<and> same_message r r' \<and>
    (ob_published_at r \<noteq> None \<or> ob_dead_lettered_at r \<noteq> None \<longrightarrow> r' = r)"
proof -
  have inv: "orch_inv s" "outbox_ok s" using reach_outbox[OF assms(1)] by simp_all
  then have ok: "outbox_row_ok r" using row_Some[OF assms(2)] by (simp add: outbox_ok_def)
  from run_ops_outbox[OF inv] assms(2) obtain r' where "row outbox_id i (outbox_events (run_ops orch_step ops s)) = Some r'"
    "outbox_edge\<^sup>*\<^sup>* r r'" unfolding outbox_kept_def by blast
  with outbox_edges(1)[OF this(2)] outbox_edges(3)[OF this(2) ok] show ?thesis by blast
qed

text \<open>A tiny run: one event is recorded, claimed and acknowledged.\<close>

definition demo_delivered :: "orch_op list" where
  "demo_delivered = [OtherEvent ''tenant.created'' ''acme'' ''acme'' [] 0 None None,
     OutboxClaim ''d1'' 1 60 10, OutboxPublished ''obx_1'' ''d1'' 2 ''m1'']"

lemma demo_delivered_state:
  "map (\<lambda>r. (outbox_id r, ob_published_at r, ob_published_message_id r, ob_publish_attempts r)) (outbox_events (demo demo_delivered)) =
     [(''obx_1'', Some 2, Some ''m1'', 1)]"
  by code_simp

theorem outbox_delivery_final_witness:
  "\<exists>r. \<forall>ops. row outbox_id ''obx_1'' (outbox_events (run_ops orch_step ops (demo demo_delivered))) = Some r \<and>
     ob_published_message_id r = Some ''m1''"
proof -
  obtain r where r: "row outbox_id ''obx_1'' (outbox_events (demo demo_delivered)) = Some r" "ob_published_at r = Some 2"
    "ob_published_message_id r = Some ''m1''" using demo_delivered_state by (auto simp: row_def)
  have "row outbox_id ''obx_1'' (outbox_events (run_ops orch_step ops (demo demo_delivered))) = Some r" for ops
    using outbox_delivery_final[OF demo_reach r(1), of ops] r(2) by auto
  with r(3) show ?thesis by blast
qed

end
