(* ===== verification/Orch_Func.thy ===== *)
theory Orch_Func
  imports Scenario
begin

text \<open>
  What single operations do, on every branch: completion, failure and gate decisions act on the
  claimed task only, claiming picks the first task of the queue, reconciliation runs to a fixed
  point, a tick leaves nothing overdue, cancellation stops everything.
\<close>

section \<open>Reconciliation leaves settled tasks alone\<close>

lemma reconcile_task_keeps:
  assumes "reconcile_task ids deps now i cs = Inr cs'" "row task_id j (tasks (snd cs)) = Some x"
    "tk_status x \<noteq> T_PENDING"
  shows "row task_id j (tasks (snd cs')) = Some x"
  using assms(1)
proof (cases rule: reconcile_task_cases)
  case (blocked t rows)
  then have "j \<noteq> task_id t" using assms(2,3) row_Some by fastforce
  then show ?thesis
    using record_task_transition_tables(1)[OF blocked(6)] assms(2) by (simp add: put_task_def row_put)
next
  case (promoted t rows)
  then have "j \<noteq> task_id t" using assms(2,3) row_Some by fastforce
  then show ?thesis
    using record_task_transition_tables(1)[OF promoted(6)] assms(2) by (simp add: put_task_def row_put)
qed (use assms in simp)

lemma reconcile_pass_keeps:
  assumes "reconcile_pass ids deps now s = Inr cs" "row task_id j (tasks s) = Some x" "tk_status x \<noteq> T_PENDING"
  shows "row task_id j (tasks (snd cs)) = Some x"
proof -
  have "row task_id j (tasks (snd (False, s))) = Some x" using assms(2) by simp
  from fold_res_invariant[where P = "\<lambda>cs. row task_id j (tasks (snd cs)) = Some x", OF assms(1)[unfolded reconcile_pass_def] this]
  show ?thesis using reconcile_task_keeps assms(3) by blast
qed

lemma reconcile_loop_keeps:
  "reconcile_loop ids deps now s = Inr s' \<Longrightarrow> row task_id j (tasks s) = Some x \<Longrightarrow> tk_status x \<noteq> T_PENDING \<Longrightarrow>
   row task_id j (tasks s') = Some x"
proof (induction ids deps now s rule: reconcile_loop.induct)
  case (1 ids deps now s)
  from 1(2) obtain cs where cs: "reconcile_pass ids deps now s = Inr cs"
    "(if fst cs then reconcile_loop ids deps now (snd cs) else Inr (snd cs)) = Inr s'"
    unfolding reconcile_loop.simps[of ids deps now s] by (auto simp: bind_res_eq_Inr)
  note k = reconcile_pass_keeps[OF cs(1) 1(3,4)]
  show ?case
  proof (cases "fst cs")
    case True
    with 1(1)[OF cs(1) True _ k 1(4)] cs(2) show ?thesis by simp
  qed (use cs(2) k in simp)
qed

lemma reconcile_status_tasks:
  assumes "reconcile_engagement_status e ts now s = Inr (e', s')"
  shows "tasks s' = tasks s" "dependencies s' = dependencies s" "engagement_id e' = engagement_id e" "eng_tenant e' = eng_tenant e"
proof -
  have tr: "transition_engagement a b c d x u = Inr (e', s') \<Longrightarrow>
      tasks s' = tasks u \<and> dependencies s' = dependencies u \<and> engagement_id e' = engagement_id a \<and> eng_tenant e' = eng_tenant a"
    for a b c d x and u :: "'a orch_store_scheme"
    unfolding transition_engagement_def
    by (auto simp: Let_def bind_res_eq_Inr put_engagement_def dest!: record_event_more tables_more_eq split: if_splits)
  from assms show "tasks s' = tasks s" "dependencies s' = dependencies s" "engagement_id e' = engagement_id e" "eng_tenant e' = eng_tenant e"
    unfolding reconcile_engagement_status_def
    by (auto simp: Let_def put_engagement_def split: if_splits prod.splits dest!: tr)
qed

lemma finish_with_reconcile_effect:
  assumes "finish_with_reconcile e now s = Inr (sn, s')"
  obtains e' where "reconcile_engagement e now s = Inr (e', s')" "sn = snapshot_of e' s'"
    "engagement_id e' = engagement_id e" "eng_tenant e' = eng_tenant e"
    "\<And>j x. row task_id j (tasks s) = Some x \<Longrightarrow> tk_status x \<noteq> T_PENDING \<Longrightarrow> row task_id j (tasks s') = Some x"
proof -
  from assms obtain e' where e': "reconcile_engagement e now s = Inr (e', s')" "sn = snapshot_of e' s'"
    unfolding finish_with_reconcile_def by (auto simp: bind_res_eq_Inr)
  have "engagement_id e' = engagement_id e \<and> eng_tenant e' = eng_tenant e \<and>
     (row task_id j (tasks s) = Some x \<longrightarrow> tk_status x \<noteq> T_PENDING \<longrightarrow> row task_id j (tasks s') = Some x)" for j x
    using e'(1) unfolding reconcile_engagement_def
    by (auto simp: Let_def bind_res_eq_Inr reconcile_status_tasks(1,3,4) split: if_splits
        dest!: reconcile_loop_keeps dest: reconcile_status_tasks)
  with e' that show thesis by blast
qed

section \<open>Completing and failing\<close>

lemma require_task_get: "require_task tenant tid s = Inr t \<longleftrightarrow> get_task tenant tid s = Some t"
  by (simp add: require_task_def split: option.split)

lemma require_lease_ok: "require_lease t worker now = Inr u \<longleftrightarrow> lease_matches t worker now"
  by (simp add: require_lease_def)

lemma complete_task_effect:
  assumes inv: "orch_inv s" and op: "complete_task tenant tid worker r now s = Inr (sn, s')"
  obtains t where "get_task tenant tid s = Some t" "lease_matches t worker now"
    "row task_id tid (tasks s') = Some (complete_row r now t)"
proof -
  let ?fin = "\<lambda>t. finish_attempt (complete_row r now t) A_succeeded now None None (Some (er_result r)) (er_output_refs r)
      (put_task (complete_row r now t) s)"
  from op obtain t s2 e where t: "get_task tenant tid s = Some t" "lease_matches t worker now"
    and rec: "record_task_transition (complete_row r now t) (tk_status t) (tk_status (complete_row r now t))
       (if tk_status (complete_row r now t) = T_WAITING_APPROVAL then ''post_execution_gate_required'' else ''execution_succeeded'')
       now [(''output_refs'', PList (map PStr (output_refs_json (complete_row r now t))))] (?fin t) = Inr s2"
    and fin: "finish_with_reconcile e now s2 = Inr (sn, s')"
    unfolding complete_task_def
    by (auto simp: bind_res_eq_Inr require_task_get require_lease_ok Let_def)
  note idt = get_task_row[OF inv t(1)[folded require_task_get]]
  have "row task_id tid (tasks s) = Some t" using idt by simp
  then have "row task_id tid (tasks s2) = Some (complete_row r now t)"
    using record_task_transition_tables(1)[OF rec] idt by (simp add: row_put)
  from fin this that t show thesis
    by (elim finish_with_reconcile_effect) simp
qed

lemma fail_task_effect:
  assumes inv: "orch_inv s" and op: "fail_task tenant tid worker fc message force now s = Inr (sn, s')"
  obtains t p where "get_task tenant tid s = Some t" "lease_matches t worker now" "stored_retry_policy t = Inr p"
    "row task_id tid (tasks s') = Some (failure_row p fc force message now t)"
    "snapshot_task (failure_row p fc force message now t) \<in> set (es_tasks sn)"
    "set (es_tasks sn) \<subseteq> snapshot_task ` set (tasks s')"
proof -
  from op obtain t t1 s1 e where t: "get_task tenant tid s = Some t" "lease_matches t worker now"
    and af: "apply_failure t fc message now force s = Inr (t1, s1)"
    and req: "require_engagement tenant (tk_engagement t1)
       (finish_attempt t1 (if tk_status t1 = T_RETRY_WAIT then A_retry_scheduled else A_failed)
         now (Some (failure_class_value fc)) (Some message) None [] s1) = Inr e"
    and fin: "finish_with_reconcile e now
       (finish_attempt t1 (if tk_status t1 = T_RETRY_WAIT then A_retry_scheduled else A_failed)
         now (Some (failure_class_value fc)) (Some message) None [] s1) = Inr (sn, s')"
    unfolding fail_task_def
    by (auto simp: bind_res_eq_Inr require_task_get require_lease_ok Let_def)
  from af obtain p where p: "stored_retry_policy t = Inr p" "t1 = failure_row p fc force message now t"
    "tasks s1 = tasks (put_task t1 s)"
    unfolding apply_failure_def by (auto simp: bind_res_eq_Inr Let_def dest!: record_task_transition_tables(1))
  note row = get_task_row(1)[OF inv t(1)[folded require_task_get]] and idt = get_task_row(2,3)[OF inv t(1)[folded require_task_get]]
  have "row task_id tid (tasks s) = Some t" using row idt by simp
  then have row1: "row task_id tid (tasks s1) = Some t1" using p(3) idt p(2) by (simp add: put_task_def row_put)
  have np: "tk_status t1 \<noteq> T_PENDING" by (simp add: p(2))
  have e: "engagement_id e = tk_engagement t1" "eng_tenant e = tenant"
    using req by (auto simp: require_engagement_def get_engagement_def dest: find_SomeD split: option.splits)
  from fin obtain e' where e': "sn = snapshot_of e' s'" "engagement_id e' = engagement_id e" "eng_tenant e' = eng_tenant e"
    and keep: "\<And>j x. row task_id j (tasks s1) = Some x \<Longrightarrow> tk_status x \<noteq> T_PENDING \<Longrightarrow> row task_id j (tasks s') = Some x"
    by (rule finish_with_reconcile_effect) simp
  note row' = keep[OF row1 np]
  have "of_engagement (eng_tenant e') (engagement_id e') t1"
    using e'(2,3) e idt(2) by (simp add: of_engagement_def p(2) failure_row_def Let_def)
  then have "snapshot_task t1 \<in> set (es_tasks sn)"
    using row_Some[OF row'] by (auto simp: e'(1) snapshot_of_def list_tasks_def)
  moreover have "set (es_tasks sn) \<subseteq> snapshot_task ` set (tasks s')" by (auto simp: e'(1) snapshot_of_def list_tasks_def)
  ultimately show thesis using that[OF t p(1)] row' p(2) by simp
qed

text \<open>
  Only the lease holder acts: completing, failing or extending a task with a worker that does
  not hold an unexpired lease on it raises the lease conflict, so the transaction changes
  nothing.
\<close>

lemma lease_required:
  assumes "orch_reach s" and "get_task tenant tid s = Some t" and "\<not> lease_matches t worker now"
  shows "complete_task tenant tid worker r now s = Inl LeaseConflictError \<and>
    fail_task tenant tid worker fc message force now s = Inl LeaseConflictError \<and>
    (0 < secs \<longrightarrow> heartbeat tenant tid worker secs now s = Inl LeaseConflictError)"
proof -
  have inv: "orch_inv s" using assms(1) unfolding orch_reach_def by (rule orch.reachable_inv)
  have t: "row task_id tid (tasks s) = Some t"
    using get_task_row[OF inv assms(2)[folded require_task_get]] by simp
  have "find (\<lambda>x. tk_tenant x = tenant \<and> task_id x = tid \<and> lease_matches x worker now) (tasks s) = None"
    using row_unique[OF inv_distinct_tasks[OF inv] t] assms(3) by (auto simp: find_None_iff)
  then have "heartbeat tenant tid worker secs now s = Inl LeaseConflictError" if "0 < secs"
    using that by (simp add: heartbeat_def extend_lease_def)
  with assms(2,3) show ?thesis
    by (simp add: complete_task_def fail_task_def require_task_def require_lease_def)
qed

lemma retry_policy_validate_ok: "retry_policy_validate v = Inr p \<Longrightarrow> retry_policy_ok p"
  by (auto simp: retry_policy_validate_def bind_res_eq_Inr Let_def split: pyval.splits if_splits)

lemma delay_for_attempt_bounds:
  assumes "retry_policy_ok p"
  shows "0 \<le> delay_for_attempt p n" "delay_for_attempt p n \<le> max_delay_seconds p"
    "delay_for_attempt p n \<le> delay_for_attempt p (Suc n)"
proof -
  have "backoff_multiplier p ^ (n - 1) \<le> backoff_multiplier p ^ n"
    using assms by (intro power_increasing) (simp_all add: retry_policy_ok_def)
  then have "initial_delay_seconds p * backoff_multiplier p ^ (n - 1) \<le> initial_delay_seconds p * backoff_multiplier p ^ n"
    using assms by (intro mult_left_mono) (simp_all add: retry_policy_ok_def)
  then show "delay_for_attempt p n \<le> delay_for_attempt p (Suc n)" by (simp add: delay_for_attempt_def min_le_iff_disj)
qed (rule delay_nonneg[OF assms], simp add: delay_for_attempt_def)

text \<open>
  What a failure does: an accepted failure report releases the lease and either schedules a
  retry, exactly when the failure counts as retryable, the stored policy has attempts left and
  the deadline has not passed, or fails the task for good. The retry becomes available after the
  policy's delay, which lies between zero and the policy's maximum and does not shrink from one
  attempt to the next.
\<close>

lemma fail_task_outcome:
  assumes "orch_reach s" and "fail_task tenant tid worker fc message force now s = Inr (sn, s')"
  shows "\<exists>t p t'. get_task tenant tid s = Some t \<and> stored_retry_policy t = Inr p \<and>
    row task_id tid (tasks s') = Some t' \<and> lease_owner t' = None \<and> error_class t' = Some (failure_class_value fc) \<and>
    (if (case force of None \<Rightarrow> fc \<in> retryable_failures p | Some b \<Rightarrow> b) \<and> int (attempt_count t) < max_attempts p \<and>
        \<not> at_most (deadline_at t) now
     then tk_status t' = T_RETRY_WAIT \<and> (\<exists>d. available_at t' = Some (now + d) \<and> 0 \<le> d \<and> d \<le> max_delay_seconds p \<and>
            d = delay_for_attempt p (attempt_count t) \<and> d \<le> delay_for_attempt p (Suc (attempt_count t)))
     else tk_status t' = T_FAILED \<and> tk_completed_at t' = Some now)"
proof -
  have inv: "orch_inv s" using assms(1) unfolding orch_reach_def by (rule orch.reachable_inv)
  from inv assms(2) obtain t p where t: "get_task tenant tid s = Some t" "stored_retry_policy t = Inr p"
    "row task_id tid (tasks s') = Some (failure_row p fc force message now t)" by (rule fail_task_effect)
  have "retry_policy_ok p" using t(2) unfolding stored_retry_policy_def by (rule retry_policy_validate_ok)
  note d = delay_for_attempt_bounds[OF this, of "attempt_count t"]
  show ?thesis
    by (rule exI[of _ t], rule exI[of _ p], rule exI[of _ "failure_row p fc force message now t"])
      (use t d in \<open>simp add: failure_row_def retry_allowed_def failure_retryable_def Let_def\<close>)
qed

section \<open>The queue\<close>

definition queue_key :: "task_row \<Rightarrow> int \<times> time \<times> string" where
  "queue_key t = (priority t, tk_created_at t, task_key t)"

lemma hd_sort_key_le: "x \<in> set xs \<Longrightarrow> f (hd (sort_key f xs)) \<le> (f x :: 'k :: linorder)"
proof -
  assume "x \<in> set xs"
  then have "x \<in> set (sort_key f xs)" by simp
  then obtain y ys where ys: "sort_key f xs = y # ys" by (cases "sort_key f xs") auto
  have "sorted (map f (sort_key f xs))" by simp
  with ys \<open>x \<in> set (sort_key f xs)\<close> show ?thesis by auto
qed

text \<open>
  Queue discipline: a claim returns nothing exactly when no task of the tenant is ready,
  available, within its deadline and of the requested engagement, types and roles; otherwise it
  leases, for the requested time, one that comes first by priority, creation time and key, opens
  its next attempt, and leaves every other task alone.
\<close>

lemma claim_next_first:
  assumes "orch_reach s" and "claim_next tenant worker secs eng types roles now s = Inr (res, s')"
  shows "case res of
      None \<Rightarrow> (\<forall>x \<in> set (tasks s). \<not> claim_filter tenant now eng types roles x) \<and> s' = s
    | Some l \<Rightarrow> (\<exists>t \<in> set (tasks s). claim_filter tenant now eng types roles t \<and>
        (\<forall>x \<in> set (tasks s). claim_filter tenant now eng types roles x \<longrightarrow> queue_key t \<le> queue_key x) \<and>
        tl_task_id l = task_id t \<and> tl_lease_owner l = worker \<and> tl_lease_expires_at l = now + of_int secs \<and>
        tl_attempt_count l = Suc (attempt_count t) \<and>
        tasks s' = put task_id (claim_update worker now secs t) (tasks s))"
proof -
  have inv: "orch_inv s" using assms(1) unfolding orch_reach_def by (rule orch.reachable_inv)
  let ?fs = "filter (claim_filter tenant now eng types roles) (tasks s)"
  let ?cs = "take 20 (sort_key queue_key ?fs)"
  have key: "queue_key = (\<lambda>t. (priority t, tk_created_at t, task_key t))" by (auto simp: queue_key_def)
  have secs: "0 < secs" using assms(2) by (auto simp: claim_next_def split: if_splits)
  show ?thesis
  proof (cases "?fs = []")
    case True
    then have "repo_claim_next tenant worker now secs eng types roles s = (None, s)" by (simp add: repo_claim_next_def)
    with assms(2) secs have "res = None" "s' = s" by (auto simp: claim_next_def)
    with True show ?thesis by (simp add: filter_empty_conv)
  next
    case False
    define t where "t = hd (sort_key queue_key ?fs)"
    have ne: "sort_key queue_key ?fs \<noteq> []" using False by (metis set_sort set_empty)
    then have cs: "?cs = t # tl ?cs" unfolding t_def by (cases "sort_key queue_key ?fs") auto
    have tin: "t \<in> set (tasks s)" "claim_filter tenant now eng types roles t"
      using hd_in_set[OF ne] unfolding t_def by auto
    have first: "\<forall>x \<in> set (tasks s). claim_filter tenant now eng types roles x \<longrightarrow> queue_key t \<le> queue_key x"
      using hd_sort_key_le[of _ ?fs queue_key] by (auto simp: t_def)
    let ?t = "claim_update worker now secs t"
    have row: "row task_id (task_id t) (tasks s) = Some t" by (rule row_distinct[OF inv_distinct_tasks[OF inv] tin(1)])
    have "find (\<lambda>x. task_id x = task_id t \<and> tk_tenant x = tenant \<and> claimable now x) (tasks s) = Some t"
      using row tin(2) unfolding row_def by (auto simp: find_Some_iff claim_filter_def)
    then have "repo_claim_next tenant worker now secs eng types roles s = (Some ?t, put_task ?t s)"
      unfolding repo_claim_next_def key[symmetric] by (subst cs) (simp add: Let_def)
    with assms(2) secs obtain s2 s3 l where o: "start_attempt ?t worker now None (put_task ?t s) = Inr s2"
      "record_task_transition ?t T_READY T_RUNNING ''worker_claimed'' now
         [(''worker_id'', PStr worker), (''lease_expires_at'', opt_time (lease_expires_at ?t))] s2 = Inr s3"
      "lease_from_task ?t = Inr l" "res = Some l" "s' = s3" by (auto simp: claim_next_def bind_res_eq_Inr)
    have "tasks s' = put task_id ?t (tasks s)"
      using start_attempt_Inr(3)[OF o(1)] record_task_transition_tables(1)[OF o(2)] o(5) by simp
    moreover have "tl_task_id l = task_id t \<and> tl_lease_owner l = worker \<and> tl_lease_expires_at l = now + of_int secs \<and>
        tl_attempt_count l = Suc (attempt_count t)"
      using o(3) by (auto simp: lease_from_task_def)
    ultimately show ?thesis using tin first o(4) by auto
  qed
qed

section \<open>Reconciliation reaches a fixed point\<close>

lemma reconcile_task_flag:
  "reconcile_task ids deps now i cs = Inr cs' \<Longrightarrow> cs' = cs \<or> fst cs'"
  by (erule reconcile_task_cases) auto

lemma reconcile_tasks_unchanged:
  "fold_res (reconcile_task ids deps now) is cs = Inr cs' \<Longrightarrow> (fst cs \<longrightarrow> fst cs') \<and>
   (\<not> fst cs' \<longrightarrow> cs' = cs \<and> (\<forall>i \<in> set is. reconcile_task ids deps now i cs = Inr cs))"
proof (induction "is" arbitrary: cs)
  case (Cons i "is")
  then obtain u where u: "reconcile_task ids deps now i cs = Inr u"
    "fold_res (reconcile_task ids deps now) is u = Inr cs'" by (auto simp: res_simps)
  with Cons.IH[OF u(2)] reconcile_task_flag[OF u(1)] show ?case by auto
qed simp

lemma reconcile_loop_fixed:
  "reconcile_loop ids deps now s = Inr s' \<Longrightarrow> i \<in> set ids \<Longrightarrow> reconcile_task ids deps now i (False, s') = Inr (False, s')"
proof (induction ids deps now s rule: reconcile_loop.induct)
  case (1 ids deps now s)
  from 1(2) obtain cs where cs: "reconcile_pass ids deps now s = Inr cs"
    "(if fst cs then reconcile_loop ids deps now (snd cs) else Inr (snd cs)) = Inr s'"
    unfolding reconcile_loop.simps[of ids deps now s] by (auto simp: bind_res_eq_Inr)
  show ?case
  proof (cases "fst cs")
    case True
    with 1(1)[OF cs(1) True _ 1(3)] cs(2) show ?thesis by simp
  next
    case False
    with reconcile_tasks_unchanged[OF cs(1)[unfolded reconcile_pass_def]] cs(2) 1(3) show ?thesis by auto
  qed
qed

text \<open>A pending task that the fixed point leaves pending waits for an unfinished prerequisite.\<close>

lemma fixed_task_waits:
  assumes fix_i: "reconcile_task ids deps now i (False, s) = Inr (False, s)"
    and t: "row task_id i (tasks s) = Some t" "tk_status t = T_PENDING"
  shows "(\<forall>d \<in> set deps. dp_task d = i \<longrightarrow> (\<exists>r. row task_id (depends_on_task_id d) (tasks s) = Some r \<and>
            tk_status r \<notin> FAILURE_TASK_STATUSES)) \<and>
    (\<exists>d \<in> set deps. dp_task d = i \<and> (\<exists>r. row task_id (depends_on_task_id d) (tasks s) = Some r \<and>
            PStr (task_status_value (tk_status r)) \<notin> set (allowed_statuses d)))"
proof -
  have tid: "task_id t = i" using row_Some[OF t(1)] by simp
  let ?ds = "filter (\<lambda>d. dp_task d = i) deps"
  from fix_i t tid obtain rows where
    rows: "list_all2 (\<lambda>d r. tasks_by_id ids s (depends_on_task_id d) = Inr r) ?ds rows"
    and body: "settle_pending now t ?ds rows (False, s) = Inr (False, s)"
    unfolding reconcile_task_def by (auto simp: bind_res_eq_Inr tasks_by_id_Inr map_res_Inr)
  from body have no: "\<not> (\<exists>r \<in> set rows. tk_status r \<in> FAILURE_TASK_STATUSES)"
    "\<not> dependencies_satisfied (zip ?ds rows)"
    unfolding settle_pending_def by (auto simp: bind_res_eq_Inr split: if_splits)
  have look: "list_all2 (\<lambda>d r. row task_id (depends_on_task_id d) (tasks s) = Some r) ?ds rows"
    using rows by (rule list_all2_mono) (simp add: tasks_by_id_Inr)
  have "\<exists>r. row task_id (depends_on_task_id d) (tasks s) = Some r \<and> tk_status r \<notin> FAILURE_TASK_STATUSES"
    if "d \<in> set deps" "dp_task d = i" for d
    using list_all2_setD(2)[OF look, of d] that no(1) by auto
  moreover from no(2) obtain d r where dr: "(d, r) \<in> set (zip ?ds rows)"
    "PStr (task_status_value (tk_status r)) \<notin> set (allowed_statuses d)" by (auto simp: dependencies_satisfied_def)
  then have "d \<in> set ?ds" "row task_id (depends_on_task_id d) (tasks s) = Some r"
    using look by (auto simp: list_all2_iff dest: set_zip_leftD)
  ultimately show ?thesis using dr(2) by auto
qed

lemma reconcile_engagement_fixed:
  assumes inv: "orch_inv s" and op: "reconcile_engagement e now s = Inr (e', s')"
    and t: "t \<in> set (tasks s')" "of_engagement (eng_tenant e) (engagement_id e) t" "tk_status t = T_PENDING"
  shows "(\<forall>d \<in> set (dependencies s'). dp_task d = task_id t \<longrightarrow> (\<exists>r. row task_id (depends_on_task_id d) (tasks s') = Some r \<and>
            tk_status r \<notin> FAILURE_TASK_STATUSES)) \<and>
    (\<exists>d \<in> set (dependencies s'). dp_task d = task_id t \<and> (\<exists>r. row task_id (depends_on_task_id d) (tasks s') = Some r \<and>
            PStr (task_status_value (tk_status r)) \<notin> set (allowed_statuses d)))"
proof -
  let ?ids = "map task_id (list_tasks (eng_tenant e) (engagement_id e) s)"
  let ?deps = "list_dependencies (eng_tenant e) (engagement_id e) s"
  have ne: "?ids \<noteq> []"
  proof
    assume no: "?ids = []"
    with op have "s' = s" by (simp add: reconcile_engagement_def)
    with t no show False by (auto simp: list_tasks_def filter_empty_conv dest: arg_cong[where f = set])
  qed
  with op obtain u ts where u: "reconcile_loop ?ids ?deps now s = Inr u" "map_res (tasks_by_id ?ids u) ?ids = Inr ts"
    "reconcile_engagement_status e ts now u = Inr (e', s')"
    by (auto simp: reconcile_engagement_def bind_res_eq_Inr Let_def)
  note same = reconcile_status_tasks(1,2)[OF u(3)]
  have p: "prog s u" using reconcile_loop_prog[OF inv deps_complete_list[OF inv] u(1)] by simp
  then have ui: "orch_inv u" "skeleton u = skeleton s" by (simp_all add: prog_def)
  have "t \<in> set ts" using tasks_by_ids_of[OF ui refl u(2)] t same by simp
  with u(2) have i: "task_id t \<in> set ?ids" "row task_id (task_id t) (tasks u) = Some t"
    using row_distinct[OF inv_distinct_tasks[OF ui(1)]] t(1) same
    by (auto simp: map_res_Inr tasks_by_id_Inr dest!: list_all2_setD(1) dest: row_Some)
  have dc: "deps_complete ?ids ?deps u"
    using deps_complete_skeleton[OF deps_complete_list[OF inv] ui(2)] .
  then have sub: "set ?deps \<subseteq> set (dependencies u)"
    "\<And>d. d \<in> set (dependencies u) \<Longrightarrow> dp_task d = task_id t \<Longrightarrow> d \<in> set ?deps"
    using i(1) by (auto simp: deps_complete_def)
  from fixed_task_waits[OF reconcile_loop_fixed[OF u(1) i(1)] i(2) t(3)] show ?thesis
    unfolding same using sub by (meson subsetD)
qed

section \<open>Waiting cannot be circular\<close>

definition dep_edges :: "orch_store \<Rightarrow> (ident \<times> ident) set" where
  "dep_edges s = (\<lambda>d. (depends_on_task_id d, dp_task d)) ` set (dependencies s)"

lemma trancl_map:
  assumes "(a, b) \<in> R\<^sup>+" "\<And>x y. (x, y) \<in> R \<Longrightarrow> (f x, f y) \<in> S"
  shows "(f a, f b) \<in> S\<^sup>+"
  using assms(1) by induction (auto intro: r_into_trancl trancl_into_trancl dest: assms(2))

lemma acyclic_disjoint_union:
  assumes "acyclic R" "acyclic N" "Range R \<inter> Domain N = {}" "Range N \<inter> Domain R = {}"
  shows "acyclic (R \<union> N)"
proof -
  have "(a, b) \<in> (R \<union> N)\<^sup>+ \<Longrightarrow> (a, b) \<in> R\<^sup>+ \<or> (a, b) \<in> N\<^sup>+" for a b
  proof (induction rule: trancl_induct)
    case (step y z)
    have "(a, y) \<in> R\<^sup>+ \<Longrightarrow> y \<in> Range R" "(a, y) \<in> N\<^sup>+ \<Longrightarrow> y \<in> Range N"
      using trancl_range by (metis RangeI)+
    with step assms(3,4) show ?case by (blast intro: trancl_into_trancl)
  qed auto
  with assms(1,2) show ?thesis unfolding acyclic_def by blast
qed

lemma acyclic_compiled:
  assumes inv: "orch_inv s" and ac: "acyclic (dep_edges s)" and c: "compiled_as tenant eid w now s s' c"
  shows "acyclic (dep_edges s')"
proof -
  let ?new = "(\<lambda>d. (depends_on_task_id d, dp_task d)) ` set (cp_deps c)"
  define f where "f i = (case row task_id i (tasks s') of Some t \<Rightarrow> task_key t | None \<Rightarrow> [])" for i
  have dst: "distinct (map task_id (tasks s'))" using inv_distinct_tasks[OF inv] c unfolding compiled_as_def by blast
  have deps: "dependencies s' = dependencies s @ cp_deps c" and ts: "tasks s' = tasks s @ cp_rows c"
    and val: "validate w = Inr ()" and
    l2: "list_all2 (is_new_dependency tenant (cp_ids c)) (dependency_pairs w) (cp_deps c)"
    using c by (simp_all add: compiled_as_def)
  have new: "(f a, f b) \<in> dep_rel (wf_tasks w) \<and> a \<in> task_id ` set (cp_rows c) \<and> b \<in> task_id ` set (cp_rows c)"
    if "(a, b) \<in> ?new" for a b
  proof -
    from that obtain d where d: "d \<in> set (cp_deps c)" "a = depends_on_task_id d" "b = dp_task d" by auto
    from list_all2_setD(1)[OF l2 d(1)] obtain p where p: "p \<in> set (dependency_pairs w)"
      "map_of (cp_ids c) (td_key (fst p)) = Some b" "map_of (cp_ids c) (dd_task_key (snd p)) = Some a"
      using d by (auto simp: is_new_dependency_def)
    from compiled_id_row[OF c p(2) dst] obtain tb where tb: "tb \<in> set (cp_rows c)" "row task_id b (tasks s') = Some tb"
      "task_key tb = td_key (fst p)" by blast
    from compiled_id_row[OF c p(3) dst] obtain ta where ta: "ta \<in> set (cp_rows c)" "row task_id a (tasks s') = Some ta"
      "task_key ta = dd_task_key (snd p)" by blast
    have "fst p \<in> set (wf_tasks w)" "snd p \<in> set (td_dependencies (fst p))" using p(1) by (auto simp: dependency_pairs_def)
    then have "(dd_task_key (snd p), td_key (fst p)) \<in> dep_rel (wf_tasks w)"
      by (auto simp: dep_rel_def deps_of_def td_deps_def)
    with ta tb show ?thesis using row_Some[OF ta(2)] row_Some[OF tb(2)] by (auto simp: f_def)
  qed
  have "(x, x) \<notin> ?new\<^sup>+" for x
  proof
    assume "(x, x) \<in> ?new\<^sup>+"
    then have "(f x, f x) \<in> (dep_rel (wf_tasks w))\<^sup>+" by (rule trancl_map) (use new in blast)
    with validated_acyclic[OF val] show False by (simp only: acyclic_def)
  qed
  then have "acyclic ?new" unfolding acyclic_def by blast
  moreover have old: "Domain (dep_edges s) \<union> Range (dep_edges s) \<subseteq> task_id ` set (tasks s)"
  proof -
    have "\<exists>t r. row task_id (dp_task d) (tasks s) = Some t \<and> row task_id (depends_on_task_id d) (tasks s) = Some r"
      if "d \<in> set (dependencies s)" for d
      using inv that unfolding orch_inv_def tables_ok_def by blast
    then have "dp_task d \<in> task_id ` set (tasks s) \<and> depends_on_task_id d \<in> task_id ` set (tasks s)"
      if "d \<in> set (dependencies s)" for d
      using that unfolding has_key_image[symmetric] has_key_row by fastforce
    then show ?thesis by (auto simp: dep_edges_def)
  qed
  moreover have "task_id ` set (tasks s) \<inter> task_id ` set (cp_rows c) = {}" using dst by (auto simp: ts)
  ultimately have "acyclic (dep_edges s \<union> ?new)"
    using new ac by (intro acyclic_disjoint_union) blast+
  moreover have "dep_edges s' = dep_edges s \<union> ?new" by (simp add: dep_edges_def deps image_Un)
  ultimately show ?thesis by simp
qed

lemma acyclic_ostep:
  assumes "orch_inv s" "acyclic (dep_edges s)" "ostep s s'"
  shows "acyclic (dep_edges s')"
  using assms(3)
proof cases
  case (workflow_compiled w tenant eid now sn)
  from workflow_compiled(2) obtain c where "compiled_as tenant eid w now s s' c" by (rule compile_workflow_effect)
  then show ?thesis by (rule acyclic_compiled[OF assms(1,2)])
qed (use assms(2) in \<open>auto simp: dep_edges_def tables_unchanged_def put_engagement_def add_engagement_def split: if_splits\<close>)

lemma acyclic_osteps:
  "ostep\<^sup>*\<^sup>* s s' \<Longrightarrow> orch_inv s \<Longrightarrow> acyclic (dep_edges s) \<Longrightarrow> orch_inv s' \<and> acyclic (dep_edges s')"
  by (induction rule: rtranclp_induct) (auto intro: orch_inv_ostep acyclic_ostep)

interpretation unwound: guarded_machine orch_init orch_step "\<lambda>s. orch_inv s \<and> acyclic (dep_edges s)"
proof
  show "orch_init s \<Longrightarrow> orch_inv s \<and> acyclic (dep_edges s)" for s
    using orch_inv_init by (auto simp: orch_init_def dep_edges_def acyclic_def)
  show "orch_inv s \<and> acyclic (dep_edges s) \<Longrightarrow> orch_step a s = Inr t \<Longrightarrow> orch_inv t \<and> acyclic (dep_edges t)" for s t a
    using orch_step_refines acyclic_osteps by blast
qed

text \<open>
  C23. No deadlock but one: in every reachable state, when a task of a reconciled engagement is
  still pending, then some task of that engagement is ready, running, waiting for a retry or
  waiting for a human decision, or else the only other reason holds: a pending task of it depends
  on a task that ended succeeded or skipped while the dependency does not accept that ending (a
  workflow may accept \<open>succeeded\<close> alone, and a task can be skipped by hand). The engagement never
  waits for itself in a circle, and never behind a failed, blocked or cancelled task.
\<close>

theorem reconcile_no_deadlock:
  assumes "orch_reach s" and "get_engagement tenant eid s = Some e"
    and "reconcile_engagement e now s = Inr (e', s')"
    and "t \<in> set (tasks s')" and "of_engagement tenant eid t" and "tk_status t = T_PENDING"
  shows "(\<exists>r \<in> set (tasks s'). of_engagement tenant eid r \<and>
      tk_status r \<in> {T_READY, T_RUNNING, T_RETRY_WAIT, T_WAITING_APPROVAL}) \<or>
    (\<exists>x \<in> set (tasks s'). \<exists>d \<in> set (dependencies s'). \<exists>r. of_engagement tenant eid x \<and> tk_status x = T_PENDING \<and>
      dp_task d = task_id x \<and> row task_id (depends_on_task_id d) (tasks s') = Some r \<and> of_engagement tenant eid r \<and>
      tk_status r \<in> {T_SUCCEEDED, T_SKIPPED} \<and> PStr (task_status_value (tk_status r)) \<notin> set (allowed_statuses d))"
proof -
  have inv: "orch_inv s" "acyclic (dep_edges s)"
    using unwound.reachable_inv assms(1) by (auto simp: orch_reach_def)
  have "require_engagement tenant eid s = Inr e" by (simp add: require_engagement_def assms(2))
  note e = require_engagement_live[OF inv(1) this]
  have p: "prog s s'" using reconcile_engagement_prog[OF inv(1) e(1) assms(3)] by simp
  then have inv': "orch_inv s'" "dependencies s' = dependencies s" by (simp_all add: prog_def skeleton_def)
  have "finite (dep_edges s')" by (simp add: dep_edges_def)
  moreover have "acyclic (dep_edges s')" using inv(2) by (simp add: dep_edges_def inv'(2))
  ultimately have wf: "wf (dep_edges s')" by (rule finite_acyclic_wf)
  let ?P = "{task_id x | x. x \<in> set (tasks s') \<and> of_engagement tenant eid x \<and> tk_status x = T_PENDING}"
  have "task_id t \<in> ?P" using assms(4-6) by blast
  with wf have "\<exists>i \<in> ?P. \<forall>y. (y, i) \<in> dep_edges s' \<longrightarrow> y \<notin> ?P" by (simp only: wf_eq_minimal)
  then obtain i where i: "i \<in> ?P" "\<forall>y. (y, i) \<in> dep_edges s' \<longrightarrow> y \<notin> ?P" by (elim bexE)
  from i(1) obtain x where x: "x \<in> set (tasks s')" "of_engagement tenant eid x" "tk_status x = T_PENDING" "task_id x = i"
    by blast
  have "of_engagement (eng_tenant e) (engagement_id e) x" using x(2) e by simp
  note waits = reconcile_engagement_fixed[OF inv(1) assms(3) x(1) this x(3)]
  from conjunct2[OF waits] obtain d r where
    d: "d \<in> set (dependencies s')" "dp_task d = task_id x" "row task_id (depends_on_task_id d) (tasks s') = Some r"
      "PStr (task_status_value (tk_status r)) \<notin> set (allowed_statuses d)" by blast
  from bspec[OF conjunct1[OF waits] d(1)] d(2,3) have nf: "tk_status r \<notin> FAILURE_TASK_STATUSES" by simp
  have xr: "row task_id i (tasks s') = Some x" using row_distinct[OF inv_distinct_tasks[OF inv'(1)] x(1)] x(4) by simp
  have "tk_tenant r = tk_tenant x \<and> tk_engagement r = tk_engagement x"
    using inv'(1) d(1-3) xr x(4) unfolding orch_inv_def tables_ok_def by fastforce
  with x(2) have ofr: "of_engagement tenant eid r" by (simp add: of_engagement_def)
  have rin: "r \<in> set (tasks s')" "task_id r = depends_on_task_id d" using row_Some[OF d(3)] by simp_all
  have "(task_id r, i) \<in> dep_edges s'" unfolding dep_edges_def rin(2) x(4)[symmetric] d(2)[symmetric] using d(1) by (rule imageI)
  from i(2)[rule_format, OF this] have "tk_status r \<noteq> T_PENDING" using rin(1) ofr by blast
  with nf have "tk_status r \<in> {T_READY, T_RUNNING, T_RETRY_WAIT, T_WAITING_APPROVAL} \<or> tk_status r \<in> {T_SUCCEEDED, T_SKIPPED}"
    by (cases "tk_status r") (auto simp: FAILURE_TASK_STATUSES_def)
  then show ?thesis
  proof
    assume "tk_status r \<in> {T_READY, T_RUNNING, T_RETRY_WAIT, T_WAITING_APPROVAL}"
    with rin(1) ofr show ?thesis by blast
  next
    assume "tk_status r \<in> {T_SUCCEEDED, T_SKIPPED}"
    with x(1-3) d ofr show ?thesis by blast
  qed
qed

section \<open>Cancellation\<close>

text \<open>A loop whose iterations each rewrite the row they were given.\<close>

lemma fold_rows_map:
  assumes "fold_res f xs s = Inr s'" "distinct (map key xs)" "P s"
    and "\<And>x. x \<in> set xs \<Longrightarrow> row key (key x) (tbl s) = Some x"
    and "\<And>x a b. x \<in> set xs \<Longrightarrow> P a \<Longrightarrow> row key (key x) (tbl a) = Some x \<Longrightarrow> f x a = Inr b \<Longrightarrow>
       P b \<and> (\<forall>i. row key i (tbl b) = (if i = key x then Some (g x) else row key i (tbl a)))"
  shows "P s' \<and> (\<forall>x \<in> set xs. row key (key x) (tbl s') = Some (g x)) \<and>
    (\<forall>i. i \<notin> key ` set xs \<longrightarrow> row key i (tbl s') = row key i (tbl s))"
  using assms
proof (induction xs arbitrary: s)
  case (Cons x xs)
  from Cons.prems(1) obtain u where u: "f x s = Inr u" "fold_res f xs u = Inr s'" by (auto simp: res_simps)
  have step: "P u" "\<And>i. row key i (tbl u) = (if i = key x then Some (g x) else row key i (tbl s))"
    using Cons.prems(5)[of x s u] Cons.prems(3,4) u(1) by auto
  have nx: "key x \<notin> key ` set xs" using Cons.prems(2) by simp
  have "P s' \<and> (\<forall>x \<in> set xs. row key (key x) (tbl s') = Some (g x)) \<and>
    (\<forall>i. i \<notin> key ` set xs \<longrightarrow> row key i (tbl s') = row key i (tbl u))"
  proof (rule Cons.IH[OF u(2) _ step(1)])
    show "distinct (map key xs)" using Cons.prems(2) by simp
    fix y assume y: "y \<in> set xs"
    then have "key y \<noteq> key x" using nx by (metis imageI)
    then show "row key (key y) (tbl u) = Some y" using Cons.prems(4)[of y] y by (simp add: step(2))
  next
    fix y a b assume "y \<in> set xs" "P a" "row key (key y) (tbl a) = Some y" "f y a = Inr b"
    then show "P b \<and> (\<forall>i. row key i (tbl b) = (if i = key y then Some (g y) else row key i (tbl a)))"
      by (intro Cons.prems(5)) simp_all
  qed
  with nx step(2) show ?case by auto
next
  case Nil
  from Nil(1) have "s' = s" by simp
  with Nil(3) show ?case by simp
qed

lemma cancel_task_effect:
  assumes "cancel_task actor reason now t s = Inr s'" "row task_id (task_id t) (tasks s) = Some t"
  shows "engagements s' = engagements s \<and> (\<forall>i. row task_id i (tasks s') = (if i = task_id t then
     Some (if tk_status t \<in> TERMINAL_TASK_STATUSES then t else cancel_row reason now t) else row task_id i (tasks s)))"
proof (cases "tk_status t \<in> TERMINAL_TASK_STATUSES")
  case False
  let ?t = "cancel_row reason now t"
  let ?u = "if tk_status t = T_RUNNING
            then finish_attempt ?t A_cancelled now (Some ''engagement_cancelled'') (Some reason) None [] (put_task ?t s)
            else put_task ?t s"
  from assms(1) False have rec: "record_task_transition ?t (tk_status t) T_CANCELLED ''engagement_cancelled'' now
             (decision_extra actor reason) ?u = Inr s'"
    by (simp add: cancel_task_def Let_def)
  have "tasks ?u = put task_id ?t (tasks s)" "engagements ?u = engagements s" by simp_all
  with record_task_transition_tables(1,2)[OF rec] assms(2) False show ?thesis by (simp add: row_put)
qed (use assms in \<open>auto simp: cancel_task_def\<close>)

text \<open>
  Cancellation stops an engagement: an accepted cancellation has a reason and an engagement
  that was neither completed nor cancelled; it marks the engagement cancelled at that time,
  cancels every task of the engagement that had not ended, drops its lease, leaves tasks that had
  ended and tasks of other engagements as they were, and closes no other engagement.
\<close>

lemma cancel_engagement_stops:
  assumes "orch_reach s" and "cancel_engagement tenant eid actor reason now s = Inr (sn, s')"
  shows "str_strip reason \<noteq> [] \<and> (\<exists>e. get_engagement tenant eid s = Some e \<and>
      eng_status e \<notin> {E_COMPLETED, E_CANCELLED} \<and>
      engagements s' = put engagement_id (e\<lparr>eng_completed_at := Some now, eng_status := E_CANCELLED\<rparr>) (engagements s)) \<and>
    (\<forall>t \<in> set (tasks s). row task_id (task_id t) (tasks s') = Some
       (if of_engagement tenant eid t \<and> tk_status t \<notin> TERMINAL_TASK_STATUSES then cancel_row reason now t else t))"
proof -
  have inv: "orch_inv s" using assms(1) unfolding orch_reach_def by (rule orch.reachable_inv)
  let ?ts = "list_tasks tenant eid s"
  from assms(2) obtain e s1 e2 where ok: "str_strip reason \<noteq> []" and e: "require_engagement tenant eid s = Inr e"
    and st: "eng_status e \<notin> {E_COMPLETED, E_CANCELLED}"
    and loop: "fold_res (cancel_task actor reason now) ?ts s = Inr s1"
    and tr: "transition_engagement (e\<lparr>eng_completed_at := Some now\<rparr>) E_CANCELLED ''cancelled_by_user'' now
        (decision_extra actor reason) (put_engagement (e\<lparr>eng_completed_at := Some now\<rparr>) s1) = Inr (e2, s')"
    unfolding cancel_engagement_def Let_def by (auto simp: bind_res_eq_Inr split: if_splits)
  let ?g = "\<lambda>t. if tk_status t \<in> TERMINAL_TASK_STATUSES then t else cancel_row reason now t"
  have all: "engagements s1 = engagements s \<and> (\<forall>t \<in> set ?ts. row task_id (task_id t) (tasks s1) = Some (?g t)) \<and>
    (\<forall>i. i \<notin> task_id ` set ?ts \<longrightarrow> row task_id i (tasks s1) = row task_id i (tasks s))"
  proof (rule fold_rows_map[where f = "cancel_task actor reason now", OF loop])
    show "distinct (map task_id ?ts)" unfolding list_tasks_def by (rule distinct_ids_sort[OF inv])
    show "row task_id (task_id x) (tasks s) = Some x" if "x \<in> set ?ts" for x
      using fetched_list_live(1)[OF inv] that unfolding list_tasks_def by blast
    fix x a b assume "engagements a = engagements s" "row task_id (task_id x) (tasks a) = Some x" "cancel_task actor reason now x a = Inr b"
    then show "engagements b = engagements s \<and> (\<forall>i. row task_id i (tasks b) = (if i = task_id x then Some (?g x) else row task_id i (tasks a)))"
      using cancel_task_effect[of actor reason now x a b] by simp
  qed simp
  then have rows: "engagements s1 = engagements s"
    "\<And>t. t \<in> set ?ts \<Longrightarrow> row task_id (task_id t) (tasks s1) = Some (?g t)"
    "\<And>i. i \<notin> task_id ` set ?ts \<Longrightarrow> row task_id i (tasks s1) = row task_id i (tasks s)"
    by blast+
  have ts: "tasks s' = tasks s1"
    "engagements s' = put engagement_id (e\<lparr>eng_completed_at := Some now, eng_status := E_CANCELLED\<rparr>) (engagements s)"
    using tr st rows(1) unfolding transition_engagement_def
    by (auto simp: Let_def bind_res_eq_Inr put_engagement_def put_def dest!: record_event_more tables_more_eq)
  have "row task_id (task_id t) (tasks s') = Some
       (if of_engagement tenant eid t \<and> tk_status t \<notin> TERMINAL_TASK_STATUSES then cancel_row reason now t else t)"
    if t: "t \<in> set (tasks s)" for t
  proof (cases "of_engagement tenant eid t")
    case True
    with t have "t \<in> set ?ts" by (simp add: list_tasks_def)
    from rows(2)[OF this] True show ?thesis by (simp add: ts)
  next
    case False
    note rt = row_distinct[OF inv_distinct_tasks[OF inv] t]
    have "task_id t \<notin> task_id ` set ?ts"
    proof
      assume "task_id t \<in> task_id ` set ?ts"
      then obtain x where x: "x \<in> set ?ts" "task_id t = task_id x" by blast
      then have "x \<in> set (tasks s)" "of_engagement tenant eid x" by (simp_all add: list_tasks_def)
      with row_unique[OF inv_distinct_tasks[OF inv] rt, of x] x(2) False show False by simp
    qed
    from rows(3)[OF this] rt False show ?thesis by (simp add: ts)
  qed
  with ok e st ts(2) show ?thesis by (auto simp: require_engagement_def split: option.splits)
qed

section \<open>The tick\<close>

text \<open>Reconciling moves pending tasks only, and never into a running or waiting-for-retry state.\<close>

definition pending_settled :: "orch_store \<Rightarrow> orch_store \<Rightarrow> bool" where
  "pending_settled s s' \<longleftrightarrow> (\<forall>i y. row task_id i (tasks s') = Some y \<longrightarrow> row task_id i (tasks s) = Some y \<or>
     (\<exists>x. row task_id i (tasks s) = Some x \<and> tk_status x = T_PENDING \<and> deadline_at y = deadline_at x \<and> tk_tenant y = tk_tenant x \<and>
          tk_status y \<in> {T_READY, T_WAITING_APPROVAL, T_FAILED, T_BLOCKED}))"

lemma pending_settled_refl: "pending_settled s s"
  by (simp add: pending_settled_def)

lemma pending_settled_cong: "tasks s' = tasks s \<Longrightarrow> pending_settled s s'"
  by (simp add: pending_settled_def)

lemma pending_settled_trans:
  assumes "pending_settled a b" "pending_settled b c"
  shows "pending_settled a c"
  unfolding pending_settled_def
proof (intro allI impI)
  fix i z assume "row task_id i (tasks c) = Some z"
  with assms(2) consider "row task_id i (tasks b) = Some z"
    | y where "row task_id i (tasks b) = Some y" "tk_status y = T_PENDING" "deadline_at z = deadline_at y"
      "tk_tenant z = tk_tenant y" "tk_status z \<in> {T_READY, T_WAITING_APPROVAL, T_FAILED, T_BLOCKED}"
    unfolding pending_settled_def by blast
  then show "row task_id i (tasks a) = Some z \<or>
     (\<exists>x. row task_id i (tasks a) = Some x \<and> tk_status x = T_PENDING \<and> deadline_at z = deadline_at x \<and> tk_tenant z = tk_tenant x \<and>
          tk_status z \<in> {T_READY, T_WAITING_APPROVAL, T_FAILED, T_BLOCKED})"
  proof cases
    case 1
    then show ?thesis using assms(1) unfolding pending_settled_def by blast
  next
    case (2 y)
    with assms(1) have "row task_id i (tasks a) = Some y" unfolding pending_settled_def by fastforce
    with 2 show ?thesis by blast
  qed
qed

lemma pending_settled_put:
  assumes "row task_id (task_id t) (tasks s) = Some t" "tk_status t = T_PENDING" "task_id t' = task_id t"
    "deadline_at t' = deadline_at t" "tk_tenant t' = tk_tenant t"
    "tk_status t' \<in> {T_READY, T_WAITING_APPROVAL, T_FAILED, T_BLOCKED}" "tasks s' = put task_id t' (tasks s)"
  shows "pending_settled s s'"
  unfolding pending_settled_def
proof (intro allI impI)
  fix i y assume "row task_id i (tasks s') = Some y"
  then have "i = task_id t \<and> y = t' \<or> row task_id i (tasks s) = Some y"
    using assms(1,3) by (auto simp: assms(7) row_put split: if_splits)
  then show "row task_id i (tasks s) = Some y \<or>
     (\<exists>x. row task_id i (tasks s) = Some x \<and> tk_status x = T_PENDING \<and> deadline_at y = deadline_at x \<and> tk_tenant y = tk_tenant x \<and>
          tk_status y \<in> {T_READY, T_WAITING_APPROVAL, T_FAILED, T_BLOCKED})"
    using assms(1,2,4-6) by blast
qed

lemma reconcile_task_settled:
  assumes "reconcile_task ids deps now i cs = Inr cs'"
  shows "pending_settled (snd cs) (snd cs')"
  using assms
proof (cases rule: reconcile_task_cases)
  case (blocked t rows)
  have "task_id t = i" using row_Some[OF blocked(1)] by simp
  then show ?thesis
    using blocked record_task_transition_tables(1)[OF blocked(6)]
    by (intro pending_settled_put[of t _ "block_row now t"]) (simp_all add: block_row_def)
next
  case (promoted t rows)
  have "task_id t = i" using row_Some[OF promoted(1)] by simp
  then show ?thesis
    using promoted record_task_transition_tables(1)[OF promoted(6)]
    by (intro pending_settled_put[of t _ "fst (promote_pending now t)"]) (simp_all add: promote_pending_def)
qed (simp add: pending_settled_refl)

lemma reconcile_loop_settled: "reconcile_loop ids deps now s = Inr s' \<Longrightarrow> pending_settled s s'"
proof (induction ids deps now s rule: reconcile_loop.induct)
  case (1 ids deps now s)
  from 1(2) obtain cs where cs: "reconcile_pass ids deps now s = Inr cs"
    "(if fst cs then reconcile_loop ids deps now (snd cs) else Inr (snd cs)) = Inr s'"
    unfolding reconcile_loop.simps[of ids deps now s] by (auto simp: bind_res_eq_Inr)
  have "pending_settled s (snd cs)"
    by (rule fold_res_invariant[where P = "\<lambda>cs. pending_settled s (snd cs)", OF cs(1)[unfolded reconcile_pass_def]])
      (auto simp: pending_settled_refl intro: pending_settled_trans reconcile_task_settled)
  with 1(1)[OF cs(1)] cs(2) show ?case by (auto intro: pending_settled_trans split: if_splits)
qed

lemma reconcile_engagement_settled:
  assumes "reconcile_engagement e now s = Inr (e', s')"
  shows "pending_settled s s'"
proof -
  let ?ids = "map task_id (list_tasks (eng_tenant e) (engagement_id e) s)"
  show ?thesis
  proof (cases "?ids = []")
    case True
    with assms show ?thesis by (simp add: reconcile_engagement_def pending_settled_refl)
  next
    case False
    with assms obtain u ts where u: "reconcile_loop ?ids (list_dependencies (eng_tenant e) (engagement_id e) s) now s = Inr u"
      "reconcile_engagement_status e ts now u = Inr (e', s')"
      by (auto simp: reconcile_engagement_def bind_res_eq_Inr Let_def)
    with reconcile_loop_settled[OF u(1)] pending_settled_cong[OF reconcile_status_tasks(1)[OF u(2)]]
    show ?thesis by (blast intro: pending_settled_trans)
  qed
qed

lemma loop_rows:
  assumes inv: "orch_inv s" and loop: "fold_res f (sort_key k (filter Q (tasks s))) s = Inr s'"
    and step: "\<And>x a b. Q x \<Longrightarrow> row task_id (task_id x) (tasks a) = Some x \<Longrightarrow> f x a = Inr b \<Longrightarrow>
       \<forall>i. row task_id i (tasks b) = (if i = task_id x then Some (g x) else row task_id i (tasks a))"
    and y: "row task_id i (tasks s') = Some y"
  shows "row task_id i (tasks s) = Some y \<and> \<not> Q y \<or> (\<exists>x. row task_id i (tasks s) = Some x \<and> Q x \<and> y = g x)"
proof -
  let ?ts = "sort_key k (filter Q (tasks s))"
  have all: "True \<and> (\<forall>x \<in> set ?ts. row task_id (task_id x) (tasks s') = Some (g x)) \<and>
    (\<forall>i. i \<notin> task_id ` set ?ts \<longrightarrow> row task_id i (tasks s') = row task_id i (tasks s))"
  proof (rule fold_rows_map[where f = f, OF loop distinct_ids_sort[OF inv] TrueI])
    show "row task_id (task_id x) (tasks s) = Some x" if "x \<in> set ?ts" for x
      by (rule fetched_list_live(1)[OF inv that])
    fix x a b assume x: "x \<in> set ?ts" "row task_id (task_id x) (tasks a) = Some x" "f x a = Inr b"
    from step[OF fetched_list_live(2)[OF inv x(1)] x(2,3)]
    show "True \<and> (\<forall>i. row task_id i (tasks b) = (if i = task_id x then Some (g x) else row task_id i (tasks a)))" by simp
  qed
  show ?thesis
  proof (cases "i \<in> task_id ` set ?ts")
    case True
    then obtain x where x: "x \<in> set ?ts" "i = task_id x" by blast
    with all y have "y = g x" by simp
    with fetched_list_live[OF inv x(1)] x(2) show ?thesis by blast
  next
    case False
    with all y have old: "row task_id i (tasks s) = Some y" by metis
    have "\<not> Q y"
    proof
      assume "Q y"
      then have "y \<in> set ?ts" using row_Some[OF old] by simp
      with False row_Some[OF old] show False by (metis imageI)
    qed
    with old show ?thesis by blast
  qed
qed

lemma recover_rows:
  assumes "row task_id (task_id t) (tasks s) = Some t" "recover_expired_lease now t s = Inr s'"
  shows "\<forall>i. row task_id i (tasks s') = (if i = task_id t then
     Some (failure_row (projr (stored_retry_policy t)) LEASE_EXPIRED None lease_expired_message now t) else row task_id i (tasks s))"
  using assms unfolding recover_expired_lease_def apply_failure_def
  by (auto simp: bind_res_eq_Inr Let_def row_put dest!: record_task_transition_tables(1))

lemma overdue_rows:
  assumes "row task_id (task_id t) (tasks s) = Some t" "fail_overdue_task now t s = Inr s'"
  shows "\<forall>i. row task_id i (tasks s') = (if i = task_id t then Some (overdue_row now t) else row task_id i (tasks s))"
  using assms unfolding fail_overdue_task_def
  by (auto simp: Let_def row_put dest!: record_task_transition_tables(1))

lemma retry_rows:
  assumes "row task_id (task_id t) (tasks s) = Some t" "promote_due_retry now t s = Inr s'"
  shows "\<forall>i. row task_id i (tasks s') = (if i = task_id t then Some (promote_retry_row t) else row task_id i (tasks s))"
  using assms unfolding promote_due_retry_def
  by (auto simp: row_put dest!: record_task_transition_tables(1))

text \<open>
  C22. The tick catches up: after a tick at some time no task of the tenant is still running under
  a lease that has expired by then, none is still open past its deadline, and no retry that is
  due is still waiting.
\<close>

theorem tick_catches_up:
  assumes "orch_reach s" and "tick tenant now s = Inr (report, s')" and "y \<in> set (tasks s')" and "tk_tenant y = tenant"
  shows "\<not> (tk_status y = T_RUNNING \<and> at_most (lease_expires_at y) now) \<and>
    \<not> (tk_status y \<notin> TERMINAL_TASK_STATUSES \<and> at_most (deadline_at y) now) \<and>
    \<not> (tk_status y = T_RETRY_WAIT \<and> at_most (available_at y) now)"
proof -
  have inv: "orch_inv s" using assms(1) unfolding orch_reach_def by (rule orch.reachable_inv)
  from assms(2) obtain n1 s1 n2 s2 n3 s3 where
    1: "recover_expired_leases tenant now s = Inr (n1, s1)" and 2: "fail_overdue_tasks tenant now s1 = Inr (n2, s2)"
    and 3: "promote_due_retries tenant now s2 = Inr (n3, s3)"
    and 4: "fold_res (reconcile_active now) (list_active_engagements tenant s3) s3 = Inr s'"
    unfolding tick_def by (auto simp: bind_res_eq_Inr Let_def)
  have inv1: "orch_inv s1" using recover_expired_leases_prog[OF inv 1] by (simp add: prog_def)
  have inv2: "orch_inv s2" using fail_overdue_tasks_prog[OF inv1 2] by (simp add: prog_def)
  have inv': "orch_inv s'" using tick_prog[OF inv assms(2)] by (simp add: prog_def)
  let ?i = "task_id y"
  have y: "row task_id ?i (tasks s') = Some y" by (rule row_distinct[OF inv_distinct_tasks[OF inv'] assms(3)])
  have "pending_settled s3 s'"
    by (rule fold_res_invariant[where P = "pending_settled s3", OF 4])
      (auto simp: pending_settled_refl reconcile_active_def bind_res_eq_Inr intro: pending_settled_trans reconcile_engagement_settled)
  with y obtain x3 where x3: "row task_id ?i (tasks s3) = Some x3" "tk_tenant x3 = tenant" "x3 = y \<or> tk_status x3 = T_PENDING \<and>
      deadline_at y = deadline_at x3 \<and> tk_status y \<in> {T_READY, T_WAITING_APPROVAL, T_FAILED, T_BLOCKED}"
    using assms(4) unfolding pending_settled_def by metis
  from 3 have "fold_res (promote_due_retry now) (due_retry_tasks tenant now s2) s2 = Inr s3"
    by (auto simp: promote_due_retries_def Let_def bind_res_eq_Inr)
  from this[unfolded due_retry_tasks_def] have "row task_id ?i (tasks s2) = Some x3 \<and>
      \<not> (tk_tenant x3 = tenant \<and> tk_status x3 = T_RETRY_WAIT \<and> at_most (available_at x3) now) \<or>
    (\<exists>x. row task_id ?i (tasks s2) = Some x \<and> (tk_tenant x = tenant \<and> tk_status x = T_RETRY_WAIT \<and> at_most (available_at x) now) \<and>
      x3 = promote_retry_row x)"
    by (rule loop_rows[OF inv2 _ _ x3(1)]) (rule retry_rows)
  then obtain x2 where
    x2: "row task_id ?i (tasks s2) = Some x2" "tk_tenant x2 = tenant"
      "x3 = x2 \<and> \<not> (tk_status x2 = T_RETRY_WAIT \<and> at_most (available_at x2) now) \<or> tk_status x2 = T_RETRY_WAIT \<and> x3 = promote_retry_row x2"
    using x3(2) by (auto simp: promote_retry_row_def)
  from 2 have "fold_res (fail_overdue_task now) (overdue_nonterminal_tasks tenant now s1) s1 = Inr s2"
    by (auto simp: fail_overdue_tasks_def Let_def bind_res_eq_Inr)
  from this[unfolded overdue_nonterminal_tasks_def] have "row task_id ?i (tasks s1) = Some x2 \<and>
      \<not> (tk_tenant x2 = tenant \<and> tk_status x2 \<notin> TERMINAL_TASK_STATUSES \<and> at_most (deadline_at x2) now) \<or>
    (\<exists>x. row task_id ?i (tasks s1) = Some x \<and>
      (tk_tenant x = tenant \<and> tk_status x \<notin> TERMINAL_TASK_STATUSES \<and> at_most (deadline_at x) now) \<and> x2 = overdue_row now x)"
    by (rule loop_rows[OF inv1 _ _ x2(1)]) (rule overdue_rows)
  then obtain x1 where
    x1: "row task_id ?i (tasks s1) = Some x1" "tk_tenant x1 = tenant"
      "x2 = x1 \<and> \<not> (tk_status x1 \<notin> TERMINAL_TASK_STATUSES \<and> at_most (deadline_at x1) now) \<or> x2 = overdue_row now x1"
    using x2(2) by (auto simp: overdue_row_def)
  from 1 have "fold_res (recover_expired_lease now) (expired_running_tasks tenant now s) s = Inr s1"
    by (auto simp: recover_expired_leases_def Let_def bind_res_eq_Inr)
  from this[unfolded expired_running_tasks_def] have "row task_id ?i (tasks s) = Some x1 \<and>
      \<not> (tk_tenant x1 = tenant \<and> tk_status x1 = T_RUNNING \<and> at_most (lease_expires_at x1) now) \<or>
    (\<exists>x. row task_id ?i (tasks s) = Some x \<and>
      (tk_tenant x = tenant \<and> tk_status x = T_RUNNING \<and> at_most (lease_expires_at x) now) \<and>
      x1 = failure_row (projr (stored_retry_policy x)) LEASE_EXPIRED None lease_expired_message now x)"
    by (rule loop_rows[OF inv _ _ x1(1)]) (rule recover_rows)
  then have x0: "\<not> (tk_status x1 = T_RUNNING \<and> at_most (lease_expires_at x1) now)"
    using x1(2) by (auto split: if_splits)
  have y2: "\<not> (tk_status x2 = T_RUNNING \<and> at_most (lease_expires_at x2) now)"
    "\<not> (tk_status x2 \<notin> TERMINAL_TASK_STATUSES \<and> at_most (deadline_at x2) now)"
    using x1(3) x0 by (elim disjE; simp add: TERMINAL_TASK_STATUSES_def)+
  have y3: "\<not> (tk_status x3 = T_RUNNING \<and> at_most (lease_expires_at x3) now)"
    "\<not> (tk_status x3 \<notin> TERMINAL_TASK_STATUSES \<and> at_most (deadline_at x3) now)"
    "\<not> (tk_status x3 = T_RETRY_WAIT \<and> at_most (available_at x3) now)"
    using x2(3) y2 by (elim disjE; simp add: TERMINAL_TASK_STATUSES_def promote_retry_row_def)+
  show ?thesis
    using x3(3) y3 by (elim disjE; simp add: TERMINAL_TASK_STATUSES_def) auto
qed

section \<open>Witnesses\<close>

definition holds :: "'a res \<Rightarrow> ('a \<Rightarrow> bool) \<Rightarrow> bool" where
  "holds m P = (case m of Inl _ \<Rightarrow> False | Inr x \<Rightarrow> P x)"

lemma holdsE: "holds m P \<Longrightarrow> (\<And>x. m = Inr x \<Longrightarrow> P x \<Longrightarrow> Q) \<Longrightarrow> Q"
  by (cases m) (auto simp: holds_def)

lemma demo_running_operations:
  "let s = demo demo_running in
     (case get_task ''acme'' ''tsk_0'' s of None \<Rightarrow> False | Some t \<Rightarrow> \<not> lease_matches t ''w2'' 3) \<and>
     (case get_engagement ''acme'' ''e1'' s of None \<Rightarrow> False
      | Some e \<Rightarrow> holds (reconcile_engagement e 5 s) (\<lambda>(e', s').
          list_ex (\<lambda>t. of_engagement ''acme'' ''e1'' t \<and> tk_status t = T_PENDING) (tasks s') \<and>
          list_all (\<lambda>d. PStr ''succeeded'' \<in> set (allowed_statuses d) \<and> PStr ''skipped'' \<in> set (allowed_statuses d)) (dependencies s')))"
  by code_simp

lemma demo_running_requests:
  "let s = demo demo_running in
     holds (tick ''acme'' 100 s) (\<lambda>(r, s'). \<exists>t \<in> set (tasks s'). tk_tenant t = ''acme'') \<and>
     holds (cancel_engagement ''acme'' ''e1'' ''maria'' ''stop'' 4 s) (\<lambda>_. True) \<and>
     holds (fail_task ''acme'' ''tsk_0'' ''w1'' MODEL_TIMEOUT ''timed out'' None 3 s) (\<lambda>_. True)"
  by code_simp

lemma demo_claim:
  "holds (claim_next ''acme'' ''w1'' 60 None [] [] 2 (demo (take 3 demo_running))) (\<lambda>(l, s'). l \<noteq> None)"
  by code_simp

theorem reconcile_no_deadlock_witness:
  "\<exists>e e' s' r. reconcile_engagement e 5 (demo demo_running) = Inr (e', s') \<and> r \<in> set (tasks s') \<and>
     tk_status r \<in> {T_READY, T_RUNNING, T_RETRY_WAIT, T_WAITING_APPROVAL}"
proof -
  let ?s = "demo demo_running"
  from demo_running_operations obtain e where e: "get_engagement ''acme'' ''e1'' ?s = Some e"
    and r: "holds (reconcile_engagement e 5 ?s) (\<lambda>(e', s'). list_ex (\<lambda>t. of_engagement ''acme'' ''e1'' t \<and> tk_status t = T_PENDING) (tasks s') \<and>
      list_all (\<lambda>d. PStr ''succeeded'' \<in> set (allowed_statuses d) \<and> PStr ''skipped'' \<in> set (allowed_statuses d)) (dependencies s'))"
    by (auto simp: Let_def split: option.splits)
  from r obtain e' s' t where t: "reconcile_engagement e 5 ?s = Inr (e', s')" "t \<in> set (tasks s')"
    "of_engagement ''acme'' ''e1'' t" "tk_status t = T_PENDING"
    and d: "\<forall>d \<in> set (dependencies s'). PStr ''succeeded'' \<in> set (allowed_statuses d) \<and> PStr ''skipped'' \<in> set (allowed_statuses d)"
    by (auto elim!: holdsE simp: list_ex_iff list_all_iff)
  from reconcile_no_deadlock[OF demo_reach e t] d t(1) show ?thesis by auto
qed

theorem tick_catches_up_witness:
  "\<exists>r s' t. tick ''acme'' 100 (demo demo_running) = Inr (r, s') \<and> t \<in> set (tasks s') \<and>
     \<not> (tk_status t = T_RUNNING \<and> at_most (lease_expires_at t) 100)"
proof -
  from demo_running_requests obtain r s' t where
    c: "tick ''acme'' 100 (demo demo_running) = Inr (r, s')" "t \<in> set (tasks s')" "tk_tenant t = ''acme''"
    by (auto simp: Let_def elim!: holdsE)
  from tick_catches_up[OF demo_reach c] c show ?thesis by blast
qed

end
