(* ===== verification/Py_Text.thy ===== *)
theory Py_Text
  imports Prelude "HOL-Library.Multiset" "HOL-Library.Code_Target_Nat"
begin

text \<open>
  Text the services produce: \<open>repr\<close> and decimal renderings of the standard library, the
  helpers of \<open>text.py\<close>, rounding, and the compact JSON text of strings and lists of strings,
  with its injectivity (distinct values have distinct texts, whatever follows them).
\<close>

section \<open>Numbers\<close>

definition digit :: "nat \<Rightarrow> char" where
  "digit n = char_of (48 + n)"

fun nat_str :: "nat \<Rightarrow> string" where
  "nat_str n = (if n < 10 then [digit n] else nat_str (n div 10) @ [digit (n mod 10)])"

declare nat_str.simps [simp del]

definition int_str :: "int \<Rightarrow> string" where
  "int_str i = (if i < 0 then CHR ''-'' # nat_str (nat (- i)) else nat_str (nat i))"

text \<open>\<open>round\<close> breaks ties towards the even neighbour.\<close>

definition round_half_even :: "rat \<Rightarrow> int" where
  "round_half_even x =
     (let f = \<lfloor>x\<rfloor>; d = x - of_int f in
      if d < 1 / 2 then f else if 1 / 2 < d then f + 1 else if even f then f else f + 1)"

definition py_round :: "rat \<Rightarrow> nat \<Rightarrow> rat" where
  "py_round x k = of_int (round_half_even (x * 10 ^ k)) / 10 ^ k"

text \<open>The formats \<open>.kf\<close> and \<open>.k%\<close>.\<close>

definition zero_pad :: "nat \<Rightarrow> string \<Rightarrow> string" where
  "zero_pad k s = replicate (k - length s) (CHR ''0'') @ s"

definition format_fixed :: "nat \<Rightarrow> rat \<Rightarrow> string" where
  "format_fixed k x =
     (let n = nat (round_half_even (\<bar>x\<bar> * 10 ^ k)) in
      (if x < 0 then ''-'' else []) @ nat_str (n div 10 ^ k) @
      (if k = 0 then [] else CHR ''.'' # zero_pad k (nat_str (n mod 10 ^ k))))"

definition format_percent :: "nat \<Rightarrow> rat \<Rightarrow> string" where
  "format_percent k x = format_fixed k (x * 100) @ ''%''"

text \<open>
  \<open>str\<close> of a non-negative float that was rounded to six decimals: positional between
  \<open>0.0001\<close> and \<open>10 ** 16\<close>, with an exponent outside.
\<close>

definition strip_zeros :: "string \<Rightarrow> string" where
  "strip_zeros s = rev (dropWhile (\<lambda>c. c = CHR ''0'') (rev s))"

definition mantissa :: "string \<Rightarrow> string" where
  "mantissa ds = (let m = strip_zeros ds in if length m \<le> 1 then m else hd m # CHR ''.'' # tl m)"

definition rounded_str :: "rat \<Rightarrow> string" where
  "rounded_str x =
     (let n = nat (round_half_even (x * 10 ^ 6)); frac = strip_zeros (zero_pad 6 (nat_str (n mod 10 ^ 6))) in
      if n = 0 then ''0.0''
      else if n < 100 then mantissa (nat_str n) @ (if n < 10 then ''e-06'' else ''e-05'')
      else if n < 10 ^ 22 then nat_str (n div 10 ^ 6) @ CHR ''.'' # (if frac = [] then ''0'' else frac)
      else mantissa (nat_str (n div 10 ^ 6)) @ ''e+'' @ nat_str (length (nat_str (n div 10 ^ 6)) - 1))"

lemma round_half_even_ge: "of_int k \<le> x \<Longrightarrow> k \<le> round_half_even x"
proof -
  assume "of_int k \<le> x"
  then have "k \<le> \<lfloor>x\<rfloor>" by (simp add: le_floor_iff)
  then show ?thesis by (simp add: round_half_even_def Let_def)
qed

lemma py_round_nonneg: "0 \<le> x \<Longrightarrow> 0 \<le> py_round x k"
  using round_half_even_ge[of 0 "x * 10 ^ k"] by (simp add: py_round_def)

section \<open>Counting words\<close>

definition plural :: "nat \<Rightarrow> string \<Rightarrow> string option \<Rightarrow> string" where
  "plural n singular plural_form =
     (if n = 1 then singular else case plural_form of Some p \<Rightarrow> p | None \<Rightarrow> singular @ ''s'')"

definition counted :: "nat \<Rightarrow> string \<Rightarrow> string option \<Rightarrow> string" where
  "counted n singular plural_form = nat_str n @ '' '' @ plural n singular plural_form"

fun join :: "string \<Rightarrow> string list \<Rightarrow> string" where
  "join sep [] = []"
| "join sep [x] = x"
| "join sep (x # y # xs) = x @ sep @ join sep (y # xs)"

section \<open>Quoted strings\<close>

abbreviation backslash :: char where "backslash \<equiv> CHR 0x5C"
abbreviation double_quote :: char where "double_quote \<equiv> CHR 0x22"
abbreviation single_quote :: char where "single_quote \<equiv> CHR 0x27"

definition hex_digit :: "nat \<Rightarrow> char" where
  "hex_digit n = ''0123456789abcdef'' ! n"

definition repr_char :: "char \<Rightarrow> char \<Rightarrow> string" where
  "repr_char quote c =
     (let n = of_char c :: nat in
      if c = quote \<or> c = backslash then [backslash, c]
      else if n = 10 then [backslash, CHR ''n''] else if n = 13 then [backslash, CHR ''r'']
      else if n = 9 then [backslash, CHR ''t'']
      else if n < 32 \<or> 127 \<le> n \<and> n < 161 \<or> n = 173
      then [backslash, CHR ''x'', hex_digit (n div 16), hex_digit (n mod 16)]
      else [c])"

definition str_repr :: "string \<Rightarrow> string" where
  "str_repr s =
     (let quote = (if single_quote \<in> set s \<and> double_quote \<notin> set s then double_quote else single_quote)
      in quote # concat (map (repr_char quote) s) @ [quote])"

section \<open>Compact JSON\<close>

text \<open>\<open>json.dumps\<close> with \<open>ensure_ascii\<close>: everything outside the printable ASCII range is escaped.\<close>

definition json_char :: "char \<Rightarrow> string" where
  "json_char c =
     (let n = of_char c :: nat in
      if n = 34 \<or> n = 92 then [backslash, c]
      else if n = 10 then [backslash, CHR ''n''] else if n = 13 then [backslash, CHR ''r'']
      else if n = 9 then [backslash, CHR ''t''] else if n = 8 then [backslash, CHR ''b'']
      else if n = 12 then [backslash, CHR ''f'']
      else if n < 32 \<or> 126 < n then [backslash, CHR ''u'', CHR ''0'', CHR ''0'', hex_digit (n div 16), hex_digit (n mod 16)]
      else [c])"

definition json_string :: "string \<Rightarrow> string" where
  "json_string s = double_quote # concat (map json_char s) @ [double_quote]"

definition json_array :: "string list \<Rightarrow> string" where
  "json_array xs = ''['' @ join '','' xs @ '']''"

definition json_strings :: "string list \<Rightarrow> string" where
  "json_strings xs = json_array (map json_string xs)"

definition json_object :: "(string \<times> string) list \<Rightarrow> string" where
  "json_object members = ''{'' @ join '','' (map (\<lambda>(k, v). json_string k @ '':'' @ v) members) @ ''}''"

text \<open>Reading one character back.\<close>

definition hex_value :: "char \<Rightarrow> nat" where
  "hex_value c = (let n = of_char c in if n < 58 then n - 48 else n - 87)"

fun json_unescape :: "string \<Rightarrow> char \<times> string" where
  "json_unescape (c # rest) =
     (if c \<noteq> backslash then (c, rest)
      else case rest of
        d # r \<Rightarrow>
          (if d = CHR ''n'' then (CHR 0x0A, r) else if d = CHR ''r'' then (CHR 0x0D, r)
           else if d = CHR ''t'' then (CHR 0x09, r) else if d = CHR ''b'' then (CHR 0x08, r)
           else if d = CHR ''f'' then (CHR 0x0C, r)
           else if d = CHR ''u'' then (char_of (16 * hex_value (r ! 2) + hex_value (r ! 3)), drop 4 r)
           else (d, r))
      | [] \<Rightarrow> (c, []))"
| "json_unescape [] = undefined"

lemma hex_value_digit: "n < 16 \<Longrightarrow> hex_value (hex_digit n) = n"
proof -
  have "\<forall>n \<in> set [0..<16]. hex_value (hex_digit n) = n" by code_simp
  then show "n < 16 \<Longrightarrow> hex_value (hex_digit n) = n" by simp
qed

lemma json_unescape_char: "json_unescape (json_char c @ r) = (c, r)"
proof -
  let ?n = "of_char c :: nat"
  have c: "c = char_of ?n" by simp
  have lt: "?n < 256" by (metis mod_less_divisor of_char_mod_256 zero_less_numeral)
  then have hex: "16 * hex_value (hex_digit (?n div 16)) + hex_value (hex_digit (?n mod 16)) = ?n"
    by (simp add: hex_value_digit less_mult_imp_div_less)
  consider "?n \<in> {34, 92, 10, 13, 9, 8, 12}" | "?n \<notin> {34, 92, 10, 13, 9, 8, 12}" "?n < 32 \<or> 126 < ?n"
    | "?n \<notin> {34, 92}" "32 \<le> ?n" "?n \<le> 126" by fastforce
  then show ?thesis
  proof cases
    case 1
    then have "?n \<in> of_char ` {CHR 0x22, CHR 0x5C, CHR 0x0A, CHR 0x0D, CHR 0x09, CHR 0x08, CHR 0x0C}" by simp
    then have "c \<in> {CHR 0x22, CHR 0x5C, CHR 0x0A, CHR 0x0D, CHR 0x09, CHR 0x08, CHR 0x0C}"
      by (simp only: inj_image_mem_iff[OF inj_of_char])
    then show ?thesis by (elim insertE emptyE) (simp_all add: json_char_def)
  next
    case 2
    then show ?thesis by (simp add: json_char_def Let_def hex)
  next
    case 3
    then have "c \<noteq> backslash" by (intro notI) simp
    moreover from 3 have "json_char c = [c]" by (simp add: json_char_def Let_def)
    ultimately show ?thesis by simp
  qed
qed

lemma json_char_inj: "json_char c @ x = json_char d @ y \<Longrightarrow> c = d \<and> x = y"
  using arg_cong[of "json_char c @ x" "json_char d @ y" json_unescape] unfolding json_unescape_char by simp

lemma json_char_not_quote: "hd (json_char c @ x) \<noteq> double_quote \<and> json_char c \<noteq> []"
proof (cases "c = double_quote")
  case True
  then show ?thesis by (simp add: json_char_def)
next
  case False
  then show ?thesis by (simp add: json_char_def Let_def)
qed

lemma json_chars_inj:
  "concat (map json_char s) @ double_quote # x = concat (map json_char t) @ double_quote # y \<Longrightarrow> s = t \<and> x = y"
proof (induction s arbitrary: t)
  case Nil
  then show ?case
  proof (cases t)
    case (Cons d t')
    with Nil json_char_not_quote[of d "concat (map json_char t') @ double_quote # y"] show ?thesis
      by (metis append.left_neutral append_assoc concat.simps(1,2) list.sel(1) list.simps(8,9))
  qed simp
next
  case (Cons c s)
  show ?case
  proof (cases t)
    case Nil
    with Cons.prems json_char_not_quote[of c "concat (map json_char s) @ double_quote # x"] show ?thesis
      by (metis append.left_neutral append_assoc concat.simps(1,2) list.sel(1) list.simps(8,9))
  next
    case t: (Cons d t')
    from Cons.prems have "json_char c @ (concat (map json_char s) @ double_quote # x) = json_char d @ (concat (map json_char t') @ double_quote # y)"
      by (simp add: t)
    from json_char_inj[OF this] Cons.IH[of t'] t show ?thesis by simp
  qed
qed

lemma json_string_inj: "json_string s @ x = json_string t @ y \<Longrightarrow> s = t \<and> x = y"
  using json_chars_inj[of s x t y] by (simp add: json_string_def)

lemma join_Cons: "join sep (x # xs) = x @ concat (map (\<lambda>y. sep @ y) xs)"
  by (induction xs arbitrary: x) auto

lemma json_items_inj:
  "concat (map (\<lambda>y. '','' @ json_string y) xs) @ CHR '']'' # x = concat (map (\<lambda>y. '','' @ json_string y) ys) @ CHR '']'' # y
   \<Longrightarrow> xs = ys \<and> x = y"
proof (induction xs arbitrary: ys)
  case Nil
  then show ?case by (cases ys) auto
next
  case (Cons a xs)
  show ?case
  proof (cases ys)
    case Nil
    with Cons.prems show ?thesis by simp
  next
    case ys: (Cons b ys')
    with Cons.prems have "json_string a @ (concat (map (\<lambda>y. '','' @ json_string y) xs) @ CHR '']'' # x)
        = json_string b @ (concat (map (\<lambda>y. '','' @ json_string y) ys') @ CHR '']'' # y)" by simp
    from json_string_inj[OF this] Cons.IH[of ys'] ys show ?thesis by simp
  qed
qed

lemma json_strings_inj: "json_strings xs @ x = json_strings ys @ y \<Longrightarrow> xs = ys \<and> x = y"
proof (cases xs; cases ys)
  fix a xs' b ys' assume *: "json_strings xs @ x = json_strings ys @ y" "xs = a # xs'" "ys = b # ys'"
  then have "json_string a @ (concat (map (\<lambda>y. '','' @ json_string y) xs') @ CHR '']'' # x)
        = json_string b @ (concat (map (\<lambda>y. '','' @ json_string y) ys') @ CHR '']'' # y)"
    by (simp add: json_strings_def json_array_def join_Cons comp_def)
  from json_string_inj[OF this] json_items_inj[of xs' x ys' y] show ?thesis using * by simp
qed (simp_all add: json_strings_def json_array_def join_Cons json_string_def)

end
