(* ===== verification/Worker.thy ===== *)
theory Worker
  imports Orch_Func Orch_Props Py_Text
begin

text \<open>
  The worker loop body (\<open>orchestration/worker.py\<close>): tick, claim, run the handler, report. The
  handlers are parameters; a handler takes time, so besides its outcome it yields the state in
  which it returns. Every report is an orchestrator transaction of its own, at its own reading
  of the clock.
\<close>

section \<open>Model\<close>

datatype handler_outcome =
    HandlerReturned task_execution_result
  | RaisedRetryableTaskError failure_class string
  | RaisedPermanentTaskError failure_class string
  | RaisedTaskExecutionError failure_class string
  | RaisedException string string

type_synonym handler = "task_lease \<Rightarrow> orch_store \<Rightarrow> handler_outcome \<times> orch_store"

record worker_run =
  wr_task_id :: ident
  wr_task_key :: string
  wr_outcome :: string
  wr_attempt_count :: nat

record local_worker =
  lw_tenant :: ident
  lw_worker :: ident
  lw_handlers :: "(string \<times> handler) list"
  lw_lease_seconds :: int

definition outcome_for :: "engagement_snapshot \<Rightarrow> ident \<Rightarrow> string res" where
  "outcome_for sn tid =
     (case find (\<lambda>t. sn_task_id t = tid) (es_tasks sn) of
        None \<Rightarrow> Inl StopIteration
      | Some t \<Rightarrow> Inr (if sn_status t = T_RETRY_WAIT then ''retry_scheduled'' else ''failed''))"

definition run_of :: "task_lease \<Rightarrow> string \<Rightarrow> worker_run option" where
  "run_of l outcome = Some \<lparr>wr_task_id = tl_task_id l, wr_task_key = tl_task_key l, wr_outcome = outcome,
     wr_attempt_count = tl_attempt_count l\<rparr>"

text \<open>\<open>LocalWorker._fail\<close> and the branch for other exceptions: report and read the outcome back.\<close>

definition worker_fail ::
  "local_worker \<Rightarrow> task_lease \<Rightarrow> failure_class \<Rightarrow> string \<Rightarrow> bool option \<Rightarrow> time \<Rightarrow> orch_store
   \<Rightarrow> worker_run option res \<times> orch_store"
where
  "worker_fail w l fc message force now s =
     (case fail_task (lw_tenant w) (tl_task_id l) (lw_worker w) fc message force now s of
        Inl x \<Rightarrow> (Inl x, s)
      | Inr (sn, s') \<Rightarrow>
          (case outcome_for sn (tl_task_id l) of Inl x \<Rightarrow> (Inl x, s') | Inr outcome \<Rightarrow> (Inr (run_of l outcome), s')))"

definition report_outcome ::
  "local_worker \<Rightarrow> task_lease \<Rightarrow> handler_outcome \<Rightarrow> time \<Rightarrow> orch_store \<Rightarrow> worker_run option res \<times> orch_store"
where
  "report_outcome w l out now s =
     (case out of
        HandlerReturned r \<Rightarrow>
          (case complete_task (lw_tenant w) (tl_task_id l) (lw_worker w) r now s of
             Inl x \<Rightarrow> (Inl x, s) | Inr (sn, s') \<Rightarrow> (Inr (run_of l ''completed''), s'))
      | RaisedRetryableTaskError fc m \<Rightarrow> worker_fail w l fc m (Some True) now s
      | RaisedPermanentTaskError fc m \<Rightarrow> worker_fail w l fc m (Some False) now s
      | RaisedTaskExecutionError fc m \<Rightarrow> worker_fail w l fc m None now s
      | RaisedException tname m \<Rightarrow>
          worker_fail w l INTERNAL_ERROR (''unhandled handler error: '' @ tname @ '': '' @ m) None now s)"

definition run_once ::
  "local_worker \<Rightarrow> ident option \<Rightarrow> time \<Rightarrow> time \<Rightarrow> time \<Rightarrow> orch_store \<Rightarrow> worker_run option res \<times> orch_store"
where
  "run_once w eng now1 now2 now3 s =
     (case tick (lw_tenant w) now1 s of
        Inl x \<Rightarrow> (Inl x, s)
      | Inr (_, s1) \<Rightarrow>
          (case claim_next (lw_tenant w) (lw_worker w) (lw_lease_seconds w) eng (map fst (lw_handlers w)) [] now2 s1 of
             Inl x \<Rightarrow> (Inl x, s1)
           | Inr (None, s2) \<Rightarrow> (Inr None, s2)
           | Inr (Some l, s2) \<Rightarrow>
               (case map_of (lw_handlers w) (tl_task_type l) of
                  None \<Rightarrow>
                    (case fail_task (lw_tenant w) (tl_task_id l) (lw_worker w) CONFIGURATION_ERROR
                            (''no handler registered for task type '' @ str_repr (tl_task_type l)) (Some False) now3 s2 of
                       Inl x \<Rightarrow> (Inl x, s2) | Inr (_, s3) \<Rightarrow> (Inr (run_of l ''failed''), s3))
                | Some h \<Rightarrow> (case h l s2 of (out, s3) \<Rightarrow> report_outcome w l out now3 s3))))"

section \<open>The worker only makes requests\<close>

lemma run_op_single: "step a s = Inr t \<Longrightarrow> run_ops step [a] s = t"
  by simp

definition requests :: "orch_store \<Rightarrow> orch_store \<Rightarrow> bool" where
  "requests s s' \<longleftrightarrow> (\<exists>ops. s' = run_ops orch_step ops s)"

lemma requests_refl: "requests s s"
  unfolding requests_def by (rule exI[of _ "[]"]) simp

lemma requests_trans:
  assumes "requests a b" "requests b c"
  shows "requests a c"
proof -
  from assms(1) obtain as where 1: "b = run_ops orch_step as a" unfolding requests_def by (elim exE)
  from assms(2) obtain bs where 2: "c = run_ops orch_step bs b" unfolding requests_def by (elim exE)
  have "c = run_ops orch_step (as @ bs) a" unfolding run_ops_append 1[symmetric] by (rule 2)
  then show ?thesis unfolding requests_def by (rule exI)
qed

lemma requests_step: "orch_step a s = Inr t \<Longrightarrow> requests s t"
  unfolding requests_def by (rule exI[of _ "[a]"]) simp

lemma requests_reach: "orch_reach s \<Longrightarrow> requests s s' \<Longrightarrow> orch_reach s'"
  unfolding requests_def orch_reach_def by (elim exE) (simp add: reach_run_ops)

lemma requests_ops:
  "tick tenant now s = Inr (r, s') \<Longrightarrow> requests s s'"
  "claim_next tenant worker secs eng types roles now s = Inr (l, s') \<Longrightarrow> requests s s'"
  "complete_task tenant tid worker er now s = Inr (sn, s') \<Longrightarrow> requests s s'"
  "fail_task tenant tid worker fc m force now s = Inr (sn, s') \<Longrightarrow> requests s s'"
  using requests_step[of "Tick tenant now" s s'] requests_step[of "ClaimNext tenant worker secs eng types roles now" s s']
    requests_step[of "CompleteTask tenant tid worker er now" s s'] requests_step[of "FailTask tenant tid worker fc m force now" s s']
  by (simp_all add: state_of_def)

lemma worker_fail_requests: "requests s (snd (worker_fail w l fc m force now s))"
  unfolding worker_fail_def by (auto split: sum.splits prod.splits intro: requests_refl requests_ops)

lemma report_outcome_requests: "requests s (snd (report_outcome w l out now s))"
  unfolding report_outcome_def
  by (auto split: handler_outcome.splits sum.splits prod.splits intro: requests_refl requests_ops worker_fail_requests)

text \<open>
  A worker has no other effect than requests: whatever its handlers return or raise, as long
  as they themselves only make requests to the orchestrator, one turn of the worker, however it
  ends, leaves the state of a sequence of orchestrator requests, so every property of reachable
  states holds of it.
\<close>

lemma worker_turn_is_requests:
  assumes "\<And>ty h l u. map_of (lw_handlers w) ty = Some h \<Longrightarrow> \<exists>ops. snd (h l u) = run_ops orch_step ops u"
  shows "\<exists>ops. snd (run_once w eng now1 now2 now3 s) = run_ops orch_step ops s"
proof -
  have h: "requests u (snd (h l u))" if "map_of (lw_handlers w) ty = Some h" for ty h l u
    using assms[OF that] by (simp add: requests_def)
  have "requests s (snd (run_once w eng now1 now2 now3 s))"
  proof (cases "tick (lw_tenant w) now1 s")
    case (Inl x)
    then show ?thesis by (simp add: run_once_def requests_refl)
  next
    case (Inr p)
    obtain r s1 where p: "p = (r, s1)" by fastforce
    have s1: "requests s s1" using requests_ops(1) Inr p by blast
    show ?thesis
    proof (cases "claim_next (lw_tenant w) (lw_worker w) (lw_lease_seconds w) eng (map fst (lw_handlers w)) [] now2 s1")
      case (Inl x)
      then show ?thesis using Inr p s1 by (simp add: run_once_def)
    next
      case claim: (Inr q)
      obtain lo s2 where q: "q = (lo, s2)" by fastforce
      have s2: "requests s s2" using requests_trans[OF s1 requests_ops(2)] claim q by blast
      show ?thesis
      proof (cases lo)
        case None
        then show ?thesis using Inr p claim q s2 by (simp add: run_once_def)
      next
        case (Some l)
        show ?thesis
        proof (cases "map_of (lw_handlers w) (tl_task_type l)")
          case None
          then show ?thesis using Inr p claim q s2 Some
            by (auto simp: run_once_def split: sum.splits intro: requests_trans[OF s2 requests_ops(4)])
        next
          case (Some h)
          have "requests s (snd (h l s2))" using requests_trans[OF s2 h[OF Some]] .
          from requests_trans[OF this report_outcome_requests] show ?thesis
            using Inr p claim q \<open>lo = Some l\<close> Some by (simp add: run_once_def split_beta)
        qed
      qed
    qed
  qed
  then show ?thesis by (simp add: requests_def)
qed

section \<open>What a turn reports\<close>

definition reported :: "string \<Rightarrow> task_row \<Rightarrow> bool" where
  "reported outcome t \<longleftrightarrow> lease_owner t = None \<and>
     (outcome = ''completed'' \<and> tk_status t \<in> {T_SUCCEEDED, T_WAITING_APPROVAL} \<or>
      outcome = ''retry_scheduled'' \<and> tk_status t = T_RETRY_WAIT \<or>
      outcome = ''failed'' \<and> tk_status t = T_FAILED)"

lemma worker_fail_reported:
  assumes inv: "orch_inv s" and run: "worker_fail w l fc m force now s = (Inr (Some run), s')"
  shows "\<exists>t. row task_id (wr_task_id run) (tasks s') = Some t \<and> reported (wr_outcome run) t"
proof -
  let ?tid = "tl_task_id l"
  from run obtain sn where f: "fail_task (lw_tenant w) ?tid (lw_worker w) fc m force now s = Inr (sn, s')"
    and o: "outcome_for sn ?tid = Inr (wr_outcome run)" "wr_task_id run = ?tid"
    by (auto simp: worker_fail_def run_of_def split: sum.splits prod.splits)
  from inv f obtain t p where t: "row task_id ?tid (tasks s') = Some (failure_row p fc force m now t)"
    "set (es_tasks sn) \<subseteq> snapshot_task ` set (tasks s')" by (rule fail_task_effect)
  have inv': "orch_inv s'" using fail_task_prog[OF inv f] by (simp add: prog_def)
  from o(1) obtain z where z: "find (\<lambda>t. sn_task_id t = ?tid) (es_tasks sn) = Some z"
    "wr_outcome run = (if sn_status z = T_RETRY_WAIT then ''retry_scheduled'' else ''failed'')"
    by (auto simp: outcome_for_def split: option.splits)
  from find_SomeD[OF z(1)] t(2) obtain x where x: "x \<in> set (tasks s')" "z = snapshot_task x" "task_id x = ?tid"
    by (auto simp: snapshot_task_def)
  have "x = failure_row p fc force m now t" by (rule row_unique[OF inv_distinct_tasks[OF inv'] t(1) x(1,3)])
  with z(2) x(2) have "reported (wr_outcome run) (failure_row p fc force m now t)"
    by (simp add: reported_def snapshot_task_def split: if_splits)
  with t(1) o(2) show ?thesis by auto
qed

lemma report_outcome_reported:
  assumes inv: "orch_inv s" and run: "report_outcome w l out now s = (Inr (Some run), s')"
  shows "\<exists>t. row task_id (wr_task_id run) (tasks s') = Some t \<and> reported (wr_outcome run) t"
proof (cases out)
  case (HandlerReturned r)
  with run obtain sn where c: "complete_task (lw_tenant w) (tl_task_id l) (lw_worker w) r now s = Inr (sn, s')"
    "run = \<lparr>wr_task_id = tl_task_id l, wr_task_key = tl_task_key l, wr_outcome = ''completed'', wr_attempt_count = tl_attempt_count l\<rparr>"
    by (auto simp: report_outcome_def run_of_def split: sum.splits prod.splits)
  from inv c(1) obtain t where "row task_id (tl_task_id l) (tasks s') = Some (complete_row r now t)"
    by (rule complete_task_effect)
  with c(2) show ?thesis by (simp add: reported_def)
qed (use run worker_fail_reported[OF inv] in \<open>auto simp: report_outcome_def\<close>)

text \<open>
  Turns report what happened: when a turn of a worker in a reachable state returns a run, the
  task it names holds no lease any more, and it has succeeded or waits for approval, waits for a
  retry, or has failed, exactly as the outcome of the run says.
\<close>

lemma worker_turn_reports:
  assumes "orch_reach s"
    and "\<And>ty h l u. map_of (lw_handlers w) ty = Some h \<Longrightarrow> \<exists>ops. snd (h l u) = run_ops orch_step ops u"
    and "run_once w eng now1 now2 now3 s = (Inr (Some run), s')"
  shows "\<exists>t. row task_id (wr_task_id run) (tasks s') = Some t \<and> reported (wr_outcome run) t"
proof -
  from assms(3) obtain r s1 l s2 where 1: "tick (lw_tenant w) now1 s = Inr (r, s1)"
    and 2: "claim_next (lw_tenant w) (lw_worker w) (lw_lease_seconds w) eng (map fst (lw_handlers w)) [] now2 s1 = Inr (Some l, s2)"
    and 3: "(case map_of (lw_handlers w) (tl_task_type l) of
        None \<Rightarrow> (case fail_task (lw_tenant w) (tl_task_id l) (lw_worker w) CONFIGURATION_ERROR
                  (''no handler registered for task type '' @ str_repr (tl_task_type l)) (Some False) now3 s2 of
                  Inl x \<Rightarrow> (Inl x, s2) | Inr (_, s3) \<Rightarrow> (Inr (run_of l ''failed''), s3))
      | Some h \<Rightarrow> (case h l s2 of (out, s3) \<Rightarrow> report_outcome w l out now3 s3)) = (Inr (Some run), s')"
    by (auto simp: run_once_def split: sum.splits prod.splits option.splits)
  have s2: "orch_reach s2" using requests_reach[OF requests_reach[OF assms(1) requests_ops(1)[OF 1]] requests_ops(2)[OF 2]] .
  show ?thesis
  proof (cases "map_of (lw_handlers w) (tl_task_type l)")
    case None
    with 3 obtain sn where f: "fail_task (lw_tenant w) (tl_task_id l) (lw_worker w) CONFIGURATION_ERROR
        (''no handler registered for task type '' @ str_repr (tl_task_type l)) (Some False) now3 s2 = Inr (sn, s')"
      and run: "run = \<lparr>wr_task_id = tl_task_id l, wr_task_key = tl_task_key l, wr_outcome = ''failed'', wr_attempt_count = tl_attempt_count l\<rparr>"
      by (auto simp: run_of_def split: sum.splits prod.splits)
    from reach_orch_inv[OF s2] f obtain t p where "row task_id (tl_task_id l) (tasks s') = Some (failure_row p CONFIGURATION_ERROR (Some False)
        (''no handler registered for task type '' @ str_repr (tl_task_type l)) now3 t)" by (rule fail_task_effect)
    then show ?thesis by (simp add: run reported_def retry_allowed_def failure_retryable_def)
  next
    case (Some h)
    have "orch_reach (snd (h l s2))"
      by (rule requests_reach[OF s2]) (use assms(2)[OF Some] in \<open>simp add: requests_def\<close>)
    from report_outcome_reported[OF reach_orch_inv[OF this]] 3 Some show ?thesis by (simp add: split_beta)
  qed
qed

section \<open>A worker without handlers\<close>

text \<open>
  A worker with an empty table of handlers asks for tasks of any type, so it claims the first
  task of the queue and its turn fails that task permanently as a configuration error, although
  claim filtering is meant to keep workers from tasks they cannot run.
\<close>

lemma worker_without_handlers_fails_tasks:
  assumes "orch_reach s" and "lw_handlers w = []"
    and "run_once w eng now1 now2 now3 s = (Inr (Some run), s')"
  shows "wr_outcome run = ''failed'' \<and> (\<exists>t. row task_id (wr_task_id run) (tasks s') = Some t \<and> tk_status t = T_FAILED \<and>
    error_class t = Some ''configuration_error'')"
proof -
  from assms(2,3) obtain r s1 l s2 sn where 1: "tick (lw_tenant w) now1 s = Inr (r, s1)"
    and 2: "claim_next (lw_tenant w) (lw_worker w) (lw_lease_seconds w) eng [] [] now2 s1 = Inr (Some l, s2)"
    and 3: "fail_task (lw_tenant w) (tl_task_id l) (lw_worker w) CONFIGURATION_ERROR
        (''no handler registered for task type '' @ str_repr (tl_task_type l)) (Some False) now3 s2 = Inr (sn, s')"
      and run: "run = \<lparr>wr_task_id = tl_task_id l, wr_task_key = tl_task_key l, wr_outcome = ''failed'', wr_attempt_count = tl_attempt_count l\<rparr>"
    by (auto simp: run_once_def run_of_def split: sum.splits prod.splits option.splits)
  have s2: "orch_reach s2" using requests_reach[OF requests_reach[OF assms(1) requests_ops(1)[OF 1]] requests_ops(2)[OF 2]] .
  from reach_orch_inv[OF s2] 3 obtain t p where "row task_id (tl_task_id l) (tasks s') = Some (failure_row p CONFIGURATION_ERROR (Some False)
      (''no handler registered for task type '' @ str_repr (tl_task_type l)) now3 t)" by (rule fail_task_effect)
  then show ?thesis by (simp add: run failure_row_def retry_allowed_def failure_retryable_def Let_def)
qed

section \<open>Witnesses\<close>

definition demo_worker :: "(string \<times> handler) list \<Rightarrow> local_worker" where
  "demo_worker hs = \<lparr>lw_tenant = ''acme'', lw_worker = ''w1'', lw_handlers = hs, lw_lease_seconds = 60\<rparr>"

definition demo_handlers :: "(string \<times> handler) list" where
  "demo_handlers = [(''fieldwork'', \<lambda>l s. (HandlerReturned demo_result, s))]"

lemma demo_handlers_quiet: "map_of (lw_handlers (demo_worker demo_handlers)) ty = Some h \<Longrightarrow> \<exists>ops. snd (h l u) = run_ops orch_step ops u"
  by (auto simp: demo_worker_def demo_handlers_def split: if_splits intro: exI[of _ "[]"])

lemma demo_turns:
  "(case fst (run_once (demo_worker demo_handlers) None 2 2 3 (demo (take 3 demo_skipped))) of Inr (Some r) \<Rightarrow> wr_outcome r = ''completed'' | _ \<Rightarrow> False) \<and>
   (case fst (run_once (demo_worker []) None 2 2 3 (demo (take 3 demo_skipped))) of Inr (Some r) \<Rightarrow> wr_outcome r = ''failed'' | _ \<Rightarrow> False)"
  by code_simp

end
