(* ===== verification/Materiality.thy ===== *)
theory Materiality
  imports Py_Text
begin

text \<open>
  Materiality of a finding (\<open>adjudication/materiality.py\<close>): the policy and the measured inputs
  with the bounds their models enforce, the score and the severity floor it implies, and the
  canonical text behind the digest that binds reviews and assessments to the content of a finding.
\<close>

section \<open>Severities\<close>

definition SEVERITY_ORDER :: "string list" where
  "SEVERITY_ORDER = [''low'', ''medium'', ''high'', ''critical'']"

definition severity_rank :: "string \<Rightarrow> nat" where
  "severity_rank severity =
     (let i = length (takeWhile (\<lambda>x. x \<noteq> severity) SEVERITY_ORDER) in
      if i < length SEVERITY_ORDER then i else length SEVERITY_ORDER - 1)"

section \<open>Policy and inputs\<close>

datatype qualitative_factor =
    REGULATORY_REPORTABLE
  | FRAUD_INDICATOR
  | REPEAT_FINDING
  | CUSTOMER_IMPACT
  | FINANCIAL_STATEMENT_IMPACT
  | PERVASIVE_ACROSS_UNITS
  | CONTROL_ENVIRONMENT_WEAKNESS
  | MANAGEMENT_OVERRIDE

primrec factor_value :: "qualitative_factor \<Rightarrow> string" where
  "factor_value REGULATORY_REPORTABLE = ''regulatory_reportable''"
| "factor_value FRAUD_INDICATOR = ''fraud_indicator''"
| "factor_value REPEAT_FINDING = ''repeat_finding''"
| "factor_value CUSTOMER_IMPACT = ''customer_impact''"
| "factor_value FINANCIAL_STATEMENT_IMPACT = ''financial_statement_impact''"
| "factor_value PERVASIVE_ACROSS_UNITS = ''pervasive_across_units''"
| "factor_value CONTROL_ENVIRONMENT_WEAKNESS = ''control_environment_weakness''"
| "factor_value MANAGEMENT_OVERRIDE = ''management_override''"

definition DEFAULT_FACTOR_WEIGHTS :: "(qualitative_factor \<times> rat) list" where
  "DEFAULT_FACTOR_WEIGHTS =
     [(REGULATORY_REPORTABLE, 2), (FRAUD_INDICATOR, 3), (MANAGEMENT_OVERRIDE, 3), (REPEAT_FINDING, 3 / 2),
      (FINANCIAL_STATEMENT_IMPACT, 2), (CUSTOMER_IMPACT, 1), (PERVASIVE_ACROSS_UNITS, 3 / 2),
      (CONTROL_ENVIRONMENT_WEAKNESS, 1)]"

record factor_assertion =
  fa_factor :: qualitative_factor
  fa_rationale :: string
  fa_evidence_ids :: "string list"

definition factor_assertion_ok :: "factor_assertion \<Rightarrow> bool" where
  "factor_assertion_ok a \<longleftrightarrow> 3 \<le> length (fa_rationale a) \<and> length (fa_rationale a) \<le> 2000 \<and> fa_evidence_ids a \<noteq> []"

record materiality_policy =
  policy_id :: string
  exception_rate_threshold :: rat
  population_floor :: nat
  monetary_threshold :: "rat option"
  factor_weights :: "(qualitative_factor \<times> rat) list"
  severity_bands :: "(rat \<times> string) list"

definition default_policy :: materiality_policy where
  "default_policy = \<lparr>policy_id = ''default-v1'', exception_rate_threshold = 1 / 20, population_floor = 20,
     monetary_threshold = None, factor_weights = DEFAULT_FACTOR_WEIGHTS,
     severity_bands = [(3, ''critical''), (2, ''high''), (1, ''medium'')]\<rparr>"

text \<open>Field bounds and \<open>bands_must_descend\<close>.\<close>

definition materiality_policy_ok :: "materiality_policy \<Rightarrow> bool" where
  "materiality_policy_ok p \<longleftrightarrow>
     1 \<le> length (policy_id p) \<and> length (policy_id p) \<le> 64 \<and>
     0 < exception_rate_threshold p \<and> exception_rate_threshold p \<le> 1 \<and>
     (case monetary_threshold p of None \<Rightarrow> True | Some m \<Rightarrow> 0 < m) \<and>
     map fst (severity_bands p) = rev (sort (map fst (severity_bands p))) \<and>
     set (map snd (severity_bands p)) \<subseteq> set SEVERITY_ORDER"

record materiality_inputs =
  mi_population_size :: nat
  mi_exception_count :: nat
  mi_monetary_exposure :: "rat option"
  mi_factors :: "factor_assertion list"

text \<open>Field bounds and \<open>population_must_reconcile\<close>.\<close>

definition materiality_inputs_ok :: "materiality_inputs \<Rightarrow> bool" where
  "materiality_inputs_ok i \<longleftrightarrow>
     (case mi_monetary_exposure i of None \<Rightarrow> True | Some m \<Rightarrow> 0 \<le> m) \<and>
     list_all factor_assertion_ok (mi_factors i) \<and>
     mi_exception_count i \<le> mi_population_size i \<and>
     list_all (\<lambda>a. count_list (map fa_factor (mi_factors i)) (fa_factor a) \<le> 1) (mi_factors i)"

section \<open>The score\<close>

definition exception_rate :: "materiality_inputs \<Rightarrow> rat" where
  "exception_rate i = (if mi_population_size i = 0 then 0 else of_nat (mi_exception_count i) / of_nat (mi_population_size i))"

definition quantitative_term :: "materiality_inputs \<Rightarrow> materiality_policy \<Rightarrow> rat" where
  "quantitative_term i p =
     (if population_floor p \<le> mi_population_size i \<and> 0 < mi_population_size i
      then exception_rate i / exception_rate_threshold p else 0)"

definition monetary_term :: "materiality_inputs \<Rightarrow> materiality_policy \<Rightarrow> rat" where
  "monetary_term i p =
     (case (monetary_threshold p, mi_monetary_exposure i) of
        (Some t, Some x) \<Rightarrow> if t \<noteq> 0 then x / t else 0
      | _ \<Rightarrow> 0)"

definition factor_weight :: "materiality_policy \<Rightarrow> qualitative_factor \<Rightarrow> rat" where
  "factor_weight p f = (case map_of (factor_weights p) f of None \<Rightarrow> 0 | Some w \<Rightarrow> w)"

definition qualitative_term :: "materiality_inputs \<Rightarrow> materiality_policy \<Rightarrow> rat" where
  "qualitative_term i p = sum_list (map (\<lambda>a. factor_weight p (fa_factor a)) (mi_factors i))"

definition raw_score :: "materiality_inputs \<Rightarrow> materiality_policy \<Rightarrow> rat" where
  "raw_score i p = max (max (quantitative_term i p) (monetary_term i p)) (qualitative_term i p)"

definition severity_floor_of :: "rat \<Rightarrow> materiality_policy \<Rightarrow> string" where
  "severity_floor_of x p = (case find (\<lambda>(t, _). t \<le> x) (severity_bands p) of None \<Rightarrow> ''low'' | Some (_, n) \<Rightarrow> n)"

definition dominant_term :: "materiality_inputs \<Rightarrow> materiality_policy \<Rightarrow> string" where
  "dominant_term i p =
     (let q = quantitative_term i p; m = monetary_term i p; l = qualitative_term i p in
      if raw_score i p = 0 then ''none''
      else if m \<le> q \<and> l \<le> q then ''quantitative'' else if l \<le> m then ''monetary'' else ''qualitative'')"

record materiality_result =
  mr_policy_id :: string
  mr_score :: rat
  mr_material :: bool
  mr_severity_floor :: string
  mr_components :: pydict
  mr_rationale :: string

definition materiality_components :: "materiality_inputs \<Rightarrow> materiality_policy \<Rightarrow> pydict" where
  "materiality_components i p =
     [(''quantitative'', PFloat (py_round (quantitative_term i p) 6)),
      (''monetary'', PFloat (py_round (monetary_term i p) 6)),
      (''qualitative'', if mi_factors i = [] then PInt 0 else PFloat (py_round (qualitative_term i p) 6)),
      (''exception_rate'', PFloat (py_round (exception_rate i) 6)),
      (''population_below_floor'', PBool (mi_population_size i < population_floor p)),
      (''dominant_term'', PStr (dominant_term i p)),
      (''factors'', PList (map (\<lambda>a. PStr (factor_value (fa_factor a))) (mi_factors i)))]"

definition materiality_rationale :: "materiality_inputs \<Rightarrow> materiality_policy \<Rightarrow> string" where
  "materiality_rationale i p =
     (let basis =
        (if mi_population_size i < population_floor p
         then ''population '' @ nat_str (mi_population_size i) @ '' is below the policy floor ''
           @ nat_str (population_floor p) @ '', so the exception rate is not scored''
         else nat_str (mi_exception_count i) @ '' of '' @ nat_str (mi_population_size i) @ '' (''
           @ format_percent 1 (exception_rate i) @ '') against a ''
           @ format_percent 1 (exception_rate_threshold p) @ '' threshold'');
        factor_text =
        (if mi_factors i = [] then ''; no qualitative factors asserted''
         else ''; qualitative factors: '' @ join '', '' (map (\<lambda>a. factor_value (fa_factor a)) (mi_factors i)))
      in ''score '' @ format_fixed 2 (raw_score i p) @ '' under policy '' @ policy_id p @ '' driven by the ''
         @ dominant_term i p @ '' term: '' @ basis @ factor_text)"

definition assess :: "materiality_inputs \<Rightarrow> materiality_policy option \<Rightarrow> materiality_result" where
  "assess i policy =
     (let p = (case policy of None \<Rightarrow> default_policy | Some p \<Rightarrow> p) in
      \<lparr>mr_policy_id = policy_id p, mr_score = py_round (raw_score i p) 6, mr_material = 1 \<le> raw_score i p,
       mr_severity_floor = severity_floor_of (raw_score i p) p,
       mr_components = materiality_components i p, mr_rationale = materiality_rationale i p\<rparr>)"

section \<open>The canonical text of a finding\<close>

record finding_content =
  fc_code :: string
  fc_title :: string
  fc_severity :: string
  fc_criteria :: string
  fc_observed_condition :: string
  fc_risk_statement :: string
  fc_evidence_ids :: "string list"
  fc_exception_keys :: "string list"

text \<open>The JSON text with sorted keys and compact separators.\<close>

definition content_text :: "finding_content \<Rightarrow> string" where
  "content_text c = json_object
     [(''code'', json_string (fc_code c)), (''criteria'', json_string (fc_criteria c)),
      (''evidence_ids'', json_strings (sort (fc_evidence_ids c))),
      (''exception_keys'', json_strings (sort (fc_exception_keys c))),
      (''observed_condition'', json_string (fc_observed_condition c)),
      (''risk_statement'', json_string (fc_risk_statement c)),
      (''severity'', json_string (fc_severity c)), (''title'', json_string (fc_title c))]"

text \<open>\<open>sha256\<close> stands for the hexadecimal SHA-256 digest of a text.\<close>

definition content_hash :: "(string \<Rightarrow> string) \<Rightarrow> finding_content \<Rightarrow> string" where
  "content_hash sha256 c = sha256 (content_text c)"

section \<open>Score and floor\<close>

lemma severity_rank_simps [simp]:
  "severity_rank ''low'' = 0" "severity_rank ''medium'' = 1" "severity_rank ''high'' = 2" "severity_rank ''critical'' = 3"
  by (simp_all add: severity_rank_def SEVERITY_ORDER_def)

lemma severity_rank_le: "severity_rank x \<le> 3"
  by (simp add: severity_rank_def SEVERITY_ORDER_def Let_def)

lemma severity_rank_inj: "x \<in> set SEVERITY_ORDER \<Longrightarrow> y \<in> set SEVERITY_ORDER \<Longrightarrow> severity_rank x = severity_rank y \<longleftrightarrow> x = y"
  by (auto simp: SEVERITY_ORDER_def)

lemma quantitative_term_nonneg: "0 < exception_rate_threshold p \<Longrightarrow> 0 \<le> quantitative_term i p"
  by (simp add: quantitative_term_def exception_rate_def)

lemma raw_score_nonneg: "0 < exception_rate_threshold p \<Longrightarrow> 0 \<le> raw_score i p"
  using quantitative_term_nonneg[of p i] by (simp add: raw_score_def le_max_iff_disj)

lemma bands_descend: "materiality_policy_ok p \<Longrightarrow> sorted_wrt (\<lambda>a b. fst b \<le> fst a) (severity_bands p)"
proof -
  assume "materiality_policy_ok p"
  then have "map fst (severity_bands p) = rev (sort (map fst (severity_bands p)))" by (simp add: materiality_policy_ok_def)
  then have "sorted (rev (map fst (severity_bands p)))" by (metis rev_rev_ident sorted_sort)
  then have "sorted_wrt (\<lambda>a b. b \<le> a) (map fst (severity_bands p))" by (simp add: sorted_wrt_rev)
  then show ?thesis by (simp add: sorted_wrt_map)
qed

lemma find_descending:
  "sorted_wrt (\<lambda>a b. fst b \<le> fst a) bs \<Longrightarrow> find (\<lambda>(t, _). t \<le> x) bs = Some (t :: rat, n) \<Longrightarrow>
   (t, n) \<in> set bs \<and> t \<le> x \<and> (\<forall>(t', _) \<in> set bs. t' \<le> x \<longrightarrow> t' \<le> t)"
  by (induction bs) (auto split: if_splits)

lemma severity_floor_cases:
  assumes "materiality_policy_ok p"
  obtains (band) t where "(t, severity_floor_of x p) \<in> set (severity_bands p)" "t \<le> x"
      "\<forall>(t', _) \<in> set (severity_bands p). t' \<le> x \<longrightarrow> t' \<le> t"
    | (none) "severity_floor_of x p = ''low''" "\<forall>(t, _) \<in> set (severity_bands p). x < t"
proof (cases "find (\<lambda>(t, _). t \<le> x) (severity_bands p)")
  case None
  then have "severity_floor_of x p = ''low''" by (simp add: severity_floor_of_def)
  moreover from None have "\<forall>(t, _) \<in> set (severity_bands p). x < t" by (auto simp: find_None_iff)
  ultimately show ?thesis by (rule none)
next
  case (Some b)
  with find_descending[OF bands_descend[OF assms], of x "fst b" "snd b"] show ?thesis
    by (intro band[of "fst b"]) (auto simp: severity_floor_of_def)
qed

text \<open>
  The materiality score is the largest of its three terms: the score is not negative, a finding
  is material exactly when one of the terms alone reaches the threshold of one, the severity floor
  is a known severity, and it is the severity of the highest band whose threshold the unrounded
  score reaches, or low when it reaches none.
\<close>

lemma assess_floor_is_highest_band:
  assumes "materiality_policy_ok p" and "materiality_inputs_ok i" and "r = assess i (Some p)"
  shows "0 \<le> mr_score r \<and>
    (mr_material r \<longleftrightarrow> 1 \<le> quantitative_term i p \<or> 1 \<le> monetary_term i p \<or> 1 \<le> qualitative_term i p) \<and>
    mr_severity_floor r \<in> set SEVERITY_ORDER \<and>
    ((\<exists>t. (t, mr_severity_floor r) \<in> set (severity_bands p) \<and> t \<le> raw_score i p \<and>
        (\<forall>(t', _) \<in> set (severity_bands p). t' \<le> raw_score i p \<longrightarrow> t' \<le> t)) \<or>
     mr_severity_floor r = ''low'' \<and> (\<forall>(t, _) \<in> set (severity_bands p). raw_score i p < t))"
proof (intro conjI)
  have p: "0 < exception_rate_threshold p" "snd ` set (severity_bands p) \<subseteq> set SEVERITY_ORDER"
    using assms(1) by (auto simp: materiality_policy_ok_def)
  show "0 \<le> mr_score r" using py_round_nonneg[OF raw_score_nonneg[OF p(1)]] by (simp add: assms(3) assess_def)
  show "mr_material r \<longleftrightarrow> 1 \<le> quantitative_term i p \<or> 1 \<le> monetary_term i p \<or> 1 \<le> qualitative_term i p"
    by (auto simp: assms(3) assess_def raw_score_def le_max_iff_disj)
  have floor: "mr_severity_floor r = severity_floor_of (raw_score i p) p" by (simp add: assms(3) assess_def)
  show "mr_severity_floor r \<in> set SEVERITY_ORDER"
    unfolding floor by (rule severity_floor_cases[OF assms(1)]) (use p(2) in \<open>force simp: SEVERITY_ORDER_def\<close>)+
  show "(\<exists>t. (t, mr_severity_floor r) \<in> set (severity_bands p) \<and> t \<le> raw_score i p \<and>
        (\<forall>(t', _) \<in> set (severity_bands p). t' \<le> raw_score i p \<longrightarrow> t' \<le> t)) \<or>
     mr_severity_floor r = ''low'' \<and> (\<forall>(t, _) \<in> set (severity_bands p). raw_score i p < t)"
    unfolding floor by (rule severity_floor_cases[OF assms(1)]) blast+
qed

section \<open>Monotonicity\<close>

lemma round_half_even_mono: "x \<le> y \<Longrightarrow> round_half_even x \<le> round_half_even y"
proof -
  assume xy: "x \<le> y"
  have bounds: "\<lfloor>z\<rfloor> \<le> round_half_even z \<and> round_half_even z \<le> \<lfloor>z\<rfloor> + 1" for z
    by (simp add: round_half_even_def Let_def)
  show ?thesis
  proof (cases "\<lfloor>x\<rfloor> = \<lfloor>y\<rfloor>")
    case True
    then show ?thesis using xy by (auto simp: round_half_even_def Let_def)
  next
    case False
    with xy have "\<lfloor>x\<rfloor> + 1 \<le> \<lfloor>y\<rfloor>" by (meson floor_mono order_le_less zless_imp_add1_zle)
    with bounds[of x] bounds[of y] show ?thesis by linarith
  qed
qed

lemma py_round_mono: "x \<le> y \<Longrightarrow> py_round x k \<le> py_round y k"
  by (simp add: py_round_def divide_right_mono round_half_even_mono mult_right_mono)

definition exposure_le :: "rat option \<Rightarrow> rat option \<Rightarrow> bool" where
  "exposure_le a b \<longleftrightarrow> (case (a, b) of (None, _) \<Rightarrow> True | (Some x, Some y) \<Rightarrow> x \<le> y | _ \<Rightarrow> False)"

text \<open>Inputs that are at least as serious: same population, nothing measured less, nothing asserted dropped.\<close>

definition at_least_as_serious :: "materiality_inputs \<Rightarrow> materiality_inputs \<Rightarrow> bool" where
  "at_least_as_serious i j \<longleftrightarrow>
     mi_population_size i = mi_population_size j \<and> mi_exception_count i \<le> mi_exception_count j \<and>
     exposure_le (mi_monetary_exposure i) (mi_monetary_exposure j) \<and>
     set (map fa_factor (mi_factors i)) \<subseteq> set (map fa_factor (mi_factors j))"

definition descending_policy :: "materiality_policy \<Rightarrow> bool" where
  "descending_policy p \<longleftrightarrow>
     sorted_wrt (\<lambda>a b. severity_rank (snd b) \<le> severity_rank (snd a)) (severity_bands p) \<and>
     (\<forall>(f, w) \<in> set (factor_weights p). 0 \<le> w)"

lemma count_list_distinct: "(\<And>x. x \<in> set xs \<Longrightarrow> count_list xs x \<le> 1) \<Longrightarrow> distinct xs"
proof (induction xs)
  case (Cons a xs)
  from Cons.prems[of a] have "a \<notin> set xs" by (simp add: count_list_0_iff)
  moreover have "distinct xs"
  proof (rule Cons.IH)
    fix x assume "x \<in> set xs"
    then show "count_list xs x \<le> 1" using Cons.prems[of x] \<open>a \<notin> set xs\<close> by (auto split: if_splits)
  qed
  ultimately show ?case by simp
next
  case Nil
  show ?case by simp
qed

lemma inputs_distinct_factors: "materiality_inputs_ok i \<Longrightarrow> distinct (map fa_factor (mi_factors i))"
  by (rule count_list_distinct) (auto simp: materiality_inputs_ok_def list_all_iff)

lemma quantitative_term_mono:
  assumes "materiality_policy_ok p" and "at_least_as_serious i j"
  shows "quantitative_term i p \<le> quantitative_term j p"
proof -
  have "exception_rate i \<le> exception_rate j"
    using assms(2) by (simp add: exception_rate_def at_least_as_serious_def divide_right_mono)
  with assms show ?thesis
    by (simp add: quantitative_term_def at_least_as_serious_def materiality_policy_ok_def divide_right_mono)
qed

lemma monetary_term_mono:
  assumes "materiality_policy_ok p" and "materiality_inputs_ok j" and "at_least_as_serious i j"
  shows "monetary_term i p \<le> monetary_term j p"
  using assms
  by (auto simp: monetary_term_def at_least_as_serious_def exposure_le_def materiality_policy_ok_def materiality_inputs_ok_def
      divide_right_mono split: option.splits)

lemma qualitative_term_mono:
  assumes "descending_policy p" and "materiality_inputs_ok i" and "materiality_inputs_ok j" and "at_least_as_serious i j"
  shows "qualitative_term i p \<le> qualitative_term j p"
proof -
  have sum: "qualitative_term k p = sum (factor_weight p) (set (map fa_factor (mi_factors k)))" if "materiality_inputs_ok k" for k
    using sum.distinct_set_conv_list[OF inputs_distinct_factors[OF that], of "factor_weight p"]
    by (simp add: qualitative_term_def comp_def)
  have "0 \<le> factor_weight p f" for f
    using assms(1) by (auto simp: descending_policy_def factor_weight_def split: option.split dest: map_of_SomeD)
  then show ?thesis
    using assms(4) unfolding sum[OF assms(2)] sum[OF assms(3)] at_least_as_serious_def by (intro sum_mono2) auto
qed

lemma raw_score_mono:
  assumes "materiality_policy_ok p" and "descending_policy p" and "materiality_inputs_ok i" and "materiality_inputs_ok j"
    and "at_least_as_serious i j"
  shows "raw_score i p \<le> raw_score j p"
  unfolding raw_score_def
  by (intro max.mono quantitative_term_mono monetary_term_mono qualitative_term_mono) (rule assms)+

lemma find_rank_mono:
  "sorted_wrt (\<lambda>a b. severity_rank (snd b) \<le> severity_rank (snd a)) bs \<Longrightarrow> x \<le> (y :: rat) \<Longrightarrow>
   severity_rank (case find (\<lambda>(t, _). t \<le> x) bs of None \<Rightarrow> ''low'' | Some (_, n) \<Rightarrow> n)
   \<le> severity_rank (case find (\<lambda>(t, _). t \<le> y) bs of None \<Rightarrow> ''low'' | Some (_, n) \<Rightarrow> n)"
proof (induction bs)
  case (Cons b bs)
  show ?case
  proof (cases "fst b \<le> y")
    case True
    then have "find (\<lambda>(t, _). t \<le> y) (b # bs) = Some b" by (simp add: split_beta)
    moreover have "severity_rank (case find (\<lambda>(t, _). t \<le> x) (b # bs) of None \<Rightarrow> ''low'' | Some (_, n) \<Rightarrow> n) \<le> severity_rank (snd b)"
      using Cons.prems(1) by (auto split: option.split prod.split dest!: find_SomeD)
    ultimately show ?thesis by (cases b) (simp del: find.simps)
  next
    case False
    with Cons show ?thesis by (auto simp: split_beta)
  qed
qed simp

text \<open>
  More serious facts never lower a severity: under a policy whose stronger severities belong to
  higher bands and whose weights are not negative, as in the default policy, inputs with the same
  population and at least as many exceptions, as much exposure and the same factors or more score
  at least as high and have at least as high a severity floor, and stay material.
\<close>

lemma assess_monotone:
  assumes "materiality_policy_ok p" and "descending_policy p" and "materiality_inputs_ok i" and "materiality_inputs_ok j"
    and "at_least_as_serious i j"
  shows "mr_score (assess i (Some p)) \<le> mr_score (assess j (Some p)) \<and>
    severity_rank (mr_severity_floor (assess i (Some p))) \<le> severity_rank (mr_severity_floor (assess j (Some p))) \<and>
    (mr_material (assess i (Some p)) \<longrightarrow> mr_material (assess j (Some p)))"
proof -
  have le: "raw_score i p \<le> raw_score j p" by (rule raw_score_mono) (rule assms)+
  with assms(2) show ?thesis
    by (auto simp: assess_def severity_floor_of_def descending_policy_def intro: py_round_mono find_rank_mono)
qed

section \<open>The canonical text\<close>

text \<open>
  C24. The digest covers the content and nothing else: two findings have the same canonical text,
  the input of the digest, exactly when they agree in code, title, severity, criteria, condition
  and risk statement and cite the same evidence and exception keys up to order. Editing any of
  these changes the text the digest is computed from, and no two contents share a text.
\<close>

theorem content_text_canonical:
  "content_text a = content_text b \<longleftrightarrow>
     fc_code a = fc_code b \<and> fc_title a = fc_title b \<and> fc_severity a = fc_severity b \<and> fc_criteria a = fc_criteria b \<and>
     fc_observed_condition a = fc_observed_condition b \<and> fc_risk_statement a = fc_risk_statement b \<and>
     mset (fc_evidence_ids a) = mset (fc_evidence_ids b) \<and> mset (fc_exception_keys a) = mset (fc_exception_keys b)"
  (is "?l \<longleftrightarrow> ?r")
proof
  have sorted: "sort xs = sort ys \<longleftrightarrow> mset xs = mset ys" for xs ys :: "string list"
    by (metis mset_sort properties_for_sort sorted_sort)
  show "?r \<Longrightarrow> ?l" by (simp add: content_text_def sorted[symmetric])
  assume ?l
  note eq = this[unfolded content_text_def json_object_def list.map prod.case join.simps append_assoc]
  show ?r using eq
    by (auto simp only: sorted[symmetric] append_assoc same_append_eq dest!: json_string_inj json_strings_inj)
qed

section \<open>Witnesses\<close>

definition demo_factor :: factor_assertion where
  "demo_factor = \<lparr>fa_factor = FRAUD_INDICATOR, fa_rationale = ''invoices reissued'', fa_evidence_ids = [''ev-7'']\<rparr>"

definition demo_inputs :: "nat \<Rightarrow> factor_assertion list \<Rightarrow> materiality_inputs" where
  "demo_inputs n fs = \<lparr>mi_population_size = 100, mi_exception_count = n, mi_monetary_exposure = None, mi_factors = fs\<rparr>"

lemma demo_policy_ok:
  "materiality_policy_ok default_policy \<and> descending_policy default_policy"
  by (simp add: materiality_policy_ok_def descending_policy_def default_policy_def SEVERITY_ORDER_def DEFAULT_FACTOR_WEIGHTS_def)

lemma demo_inputs_ok:
  "materiality_inputs_ok (demo_inputs 3 []) \<and> materiality_inputs_ok (demo_inputs 7 [demo_factor])"
  by (simp add: materiality_inputs_ok_def demo_inputs_def demo_factor_def factor_assertion_ok_def)

end
