(* ===== verification/Finding_Types.thy ===== *)
theory Finding_Types
  imports Materiality Ledger
begin

text \<open>
  The vocabulary of finding adjudication (\<open>adjudication/definitions.py\<close>): the lifecycle states
  with the table of permitted transitions, decisions, disputes and retest outcomes, and the
  requests with the bounds their models enforce. A date is its day number; dates are compared
  by it and printed by a function the environment provides.
\<close>

type_synonym date = int

section \<open>Lifecycle\<close>

datatype finding_status =
    PROPOSED | REJECTED | APPROVED | DISPUTED | WITHDRAWN | REMEDIATION_OPEN
  | REMEDIATION_DECLARED_COMPLETE | RETEST_IN_PROGRESS | CLOSED_VERIFIED | REOPENED
  | RISK_ACCEPTED | DEFERRED

primrec finding_status_value :: "finding_status \<Rightarrow> string" where
  "finding_status_value PROPOSED = ''proposed''"
| "finding_status_value REJECTED = ''rejected''"
| "finding_status_value APPROVED = ''approved''"
| "finding_status_value DISPUTED = ''disputed''"
| "finding_status_value WITHDRAWN = ''withdrawn''"
| "finding_status_value REMEDIATION_OPEN = ''remediation_open''"
| "finding_status_value REMEDIATION_DECLARED_COMPLETE = ''remediation_declared_complete''"
| "finding_status_value RETEST_IN_PROGRESS = ''retest_in_progress''"
| "finding_status_value CLOSED_VERIFIED = ''closed_verified''"
| "finding_status_value REOPENED = ''reopened''"
| "finding_status_value RISK_ACCEPTED = ''risk_accepted''"
| "finding_status_value DEFERRED = ''deferred''"

primrec ALLOWED_TRANSITIONS :: "finding_status \<Rightarrow> finding_status list" where
  "ALLOWED_TRANSITIONS PROPOSED = [APPROVED, REJECTED, DEFERRED, RISK_ACCEPTED, DISPUTED]"
| "ALLOWED_TRANSITIONS APPROVED = [REMEDIATION_OPEN, DISPUTED]"
| "ALLOWED_TRANSITIONS DISPUTED = [PROPOSED, APPROVED, REJECTED, WITHDRAWN]"
| "ALLOWED_TRANSITIONS WITHDRAWN = []"
| "ALLOWED_TRANSITIONS REMEDIATION_OPEN = [REMEDIATION_DECLARED_COMPLETE]"
| "ALLOWED_TRANSITIONS REMEDIATION_DECLARED_COMPLETE = [RETEST_IN_PROGRESS]"
| "ALLOWED_TRANSITIONS RETEST_IN_PROGRESS = [CLOSED_VERIFIED, REOPENED]"
| "ALLOWED_TRANSITIONS REOPENED = [REMEDIATION_OPEN]"
| "ALLOWED_TRANSITIONS CLOSED_VERIFIED = []"
| "ALLOWED_TRANSITIONS REJECTED = []"
| "ALLOWED_TRANSITIONS RISK_ACCEPTED = []"
| "ALLOWED_TRANSITIONS DEFERRED = [APPROVED, REJECTED]"

datatype human_decision = APPROVE | REJECT | RETURN_FOR_REWORK | DEFER | ACCEPT_RISK

primrec human_decision_value :: "human_decision \<Rightarrow> string" where
  "human_decision_value APPROVE = ''approve''"
| "human_decision_value REJECT = ''reject''"
| "human_decision_value RETURN_FOR_REWORK = ''return_for_rework''"
| "human_decision_value DEFER = ''defer''"
| "human_decision_value ACCEPT_RISK = ''accept_risk''"

datatype dispute_ground =
    CRITERIA_INCORRECT | CONDITION_INACCURATE | SEVERITY_OVERSTATED | MATERIALITY_DISPUTED
  | EVIDENCE_SUPERSEDED | COMPENSATING_CONTROL_OMITTED | OUT_OF_SCOPE

primrec dispute_ground_value :: "dispute_ground \<Rightarrow> string" where
  "dispute_ground_value CRITERIA_INCORRECT = ''criteria_incorrect''"
| "dispute_ground_value CONDITION_INACCURATE = ''condition_inaccurate''"
| "dispute_ground_value SEVERITY_OVERSTATED = ''severity_overstated''"
| "dispute_ground_value MATERIALITY_DISPUTED = ''materiality_disputed''"
| "dispute_ground_value EVIDENCE_SUPERSEDED = ''evidence_superseded''"
| "dispute_ground_value COMPENSATING_CONTROL_OMITTED = ''compensating_control_omitted''"
| "dispute_ground_value OUT_OF_SCOPE = ''out_of_scope''"

datatype dispute_resolution = DR_UPHELD | DR_MODIFIED | DR_WITHDRAWN

primrec dispute_resolution_value :: "dispute_resolution \<Rightarrow> string" where
  "dispute_resolution_value DR_UPHELD = ''upheld''"
| "dispute_resolution_value DR_MODIFIED = ''modified''"
| "dispute_resolution_value DR_WITHDRAWN = ''withdrawn''"

datatype retest_outcome =
  RO_CLOSED_VERIFIED | RO_PARTIALLY_REMEDIATED | RO_INEFFECTIVE | RO_INSUFFICIENT_EVIDENCE | RO_REOPEN

primrec retest_outcome_value :: "retest_outcome \<Rightarrow> string" where
  "retest_outcome_value RO_CLOSED_VERIFIED = ''closed_verified''"
| "retest_outcome_value RO_PARTIALLY_REMEDIATED = ''partially_remediated''"
| "retest_outcome_value RO_INEFFECTIVE = ''ineffective''"
| "retest_outcome_value RO_INSUFFICIENT_EVIDENCE = ''insufficient_evidence''"
| "retest_outcome_value RO_REOPEN = ''reopen''"

definition CLOSING_OUTCOMES :: "retest_outcome set" where
  "CLOSING_OUTCOMES = {RO_CLOSED_VERIFIED}"

section \<open>Contradictions and verdicts\<close>

datatype contradiction_kind =
  APPROVED_EXCEPTION | OUT_OF_PERIOD | COMPENSATING_CONTROL | SUPERSEDED_EVIDENCE | DUPLICATE_OF_EXISTING

primrec contradiction_kind_value :: "contradiction_kind \<Rightarrow> string" where
  "contradiction_kind_value APPROVED_EXCEPTION = ''approved_exception''"
| "contradiction_kind_value OUT_OF_PERIOD = ''out_of_period''"
| "contradiction_kind_value COMPENSATING_CONTROL = ''compensating_control''"
| "contradiction_kind_value SUPERSEDED_EVIDENCE = ''superseded_evidence''"
| "contradiction_kind_value DUPLICATE_OF_EXISTING = ''duplicate_of_existing''"

record contradiction =
  ct_kind :: contradiction_kind
  ct_subject_ref :: string
  ct_detail :: string
  ct_evidence_ids :: "string list"

text \<open>Constructing the model checks the length of the detail.\<close>

definition mk_contradiction :: "contradiction_kind \<Rightarrow> string \<Rightarrow> string \<Rightarrow> string list \<Rightarrow> contradiction res" where
  "mk_contradiction kind subject detail evidence =
     (if 3 \<le> length detail \<and> length detail \<le> 2000
      then Inr \<lparr>ct_kind = kind, ct_subject_ref = subject, ct_detail = detail, ct_evidence_ids = evidence\<rparr>
      else Inl ValidationError)"

definition contradiction_json :: "contradiction \<Rightarrow> pyval" where
  "contradiction_json c = PDict
     [(''kind'', PStr (contradiction_kind_value (ct_kind c))), (''subject_ref'', PStr (ct_subject_ref c)),
      (''detail'', PStr (ct_detail c)), (''evidence_ids'', PList (map PStr (ct_evidence_ids c)))]"

record skeptic_verdict =
  sv_supported :: bool
  sv_contradictions :: "contradiction list"
  sv_rationale :: string

definition rejection_reason :: "skeptic_verdict \<Rightarrow> string" where
  "rejection_reason v =
     (if sv_supported v then []
      else let kinds = join '', '' (sort (remdups (map (\<lambda>c. contradiction_kind_value (ct_kind c)) (sv_contradictions v))))
           in if kinds \<noteq> [] then ''contradicted by '' @ kinds @ '': '' @ sv_rationale v else sv_rationale v)"

section \<open>Requests\<close>

record proposed_finding =
  pf_code :: string
  pf_title :: string
  pf_severity :: string
  pf_confidence :: rat
  pf_criteria :: string
  pf_observed_condition :: string
  pf_risk_statement :: string
  pf_cause :: "string option"
  pf_consequence :: "string option"
  pf_business_objective :: "string option"
  pf_evidence_ids :: "string list"
  pf_exception_keys :: "string list"
  pf_affected_population :: pydict
  pf_limitations :: "string list"
  pf_source_run_id :: "string option"

definition is_upper :: "char \<Rightarrow> bool" where
  "is_upper c \<longleftrightarrow> (let n = of_char c :: nat in 65 \<le> n \<and> n \<le> 90)"

text \<open>The pattern \<open>^[A-Z][A-Z0-9_-]{2,63}$\<close>.\<close>

definition finding_code_ok :: "string \<Rightarrow> bool" where
  "finding_code_ok code \<longleftrightarrow>
     3 \<le> length code \<and> length code \<le> 64 \<and> is_upper (hd code) \<and>
     list_all (\<lambda>c. is_upper c \<or> is_digit c \<or> c = CHR ''_'' \<or> c = CHR ''-'') (tl code)"

definition len_within :: "nat \<Rightarrow> nat \<Rightarrow> string \<Rightarrow> bool" where
  "len_within lo hi s \<longleftrightarrow> lo \<le> length s \<and> length s \<le> hi"

text \<open>Field bounds and \<open>must_cite_evidence\<close>.\<close>

definition proposed_finding_ok :: "proposed_finding \<Rightarrow> bool" where
  "proposed_finding_ok f \<longleftrightarrow>
     finding_code_ok (pf_code f) \<and> len_within 3 255 (pf_title f) \<and> pf_severity f \<in> set SEVERITY_ORDER \<and>
     0 \<le> pf_confidence f \<and> pf_confidence f \<le> 1 \<and> 3 \<le> length (pf_criteria f) \<and>
     3 \<le> length (pf_observed_condition f) \<and> 3 \<le> length (pf_risk_statement f) \<and> pf_evidence_ids f \<noteq> []"

record adjudication_request =
  ar_finding_id :: ident
  ar_decision :: human_decision
  ar_actor_id :: ident
  ar_reason :: string
  ar_idempotency_key :: string

definition adjudication_request_ok :: "adjudication_request \<Rightarrow> bool" where
  "adjudication_request_ok r \<longleftrightarrow>
     len_within 1 128 (ar_actor_id r) \<and> len_within 3 4000 (ar_reason r) \<and> len_within 3 255 (ar_idempotency_key r)"

record materiality_request =
  mq_finding_id :: ident
  mq_inputs :: materiality_inputs
  mq_policy :: "materiality_policy option"
  mq_assessed_by :: ident

definition materiality_request_ok :: "materiality_request \<Rightarrow> bool" where
  "materiality_request_ok r \<longleftrightarrow>
     materiality_inputs_ok (mq_inputs r) \<and>
     (case mq_policy r of None \<Rightarrow> True | Some p \<Rightarrow> materiality_policy_ok p) \<and> len_within 1 128 (mq_assessed_by r)"

record severity_override_request =
  so_finding_id :: ident
  so_severity :: string
  so_actor_id :: ident
  so_reason :: string

definition severity_override_request_ok :: "severity_override_request \<Rightarrow> bool" where
  "severity_override_request_ok r \<longleftrightarrow>
     so_severity r \<in> set SEVERITY_ORDER \<and> len_within 1 128 (so_actor_id r) \<and> len_within 10 4000 (so_reason r)"

record quality_review_request =
  qr_finding_id :: ident
  qr_reviewer_id :: ident
  qr_notes :: "string option"

definition quality_review_request_ok :: "quality_review_request \<Rightarrow> bool" where
  "quality_review_request_ok r \<longleftrightarrow>
     len_within 1 128 (qr_reviewer_id r) \<and> (case qr_notes r of None \<Rightarrow> True | Some n \<Rightarrow> length n \<le> 4000)"

record dispute_request =
  dq_finding_id :: ident
  dq_ground :: dispute_ground
  dq_statement :: string
  dq_raised_by :: ident
  dq_evidence_ids :: "string list"

definition dispute_request_ok :: "dispute_request \<Rightarrow> bool" where
  "dispute_request_ok r \<longleftrightarrow> len_within 10 4000 (dq_statement r) \<and> len_within 1 128 (dq_raised_by r)"

record dispute_resolution_request =
  dr_dispute_id :: ident
  dr_resolution :: dispute_resolution
  dr_reason :: string
  dr_resolved_by :: ident

definition dispute_resolution_request_ok :: "dispute_resolution_request \<Rightarrow> bool" where
  "dispute_resolution_request_ok r \<longleftrightarrow> len_within 10 4000 (dr_reason r) \<and> len_within 1 128 (dr_resolved_by r)"

record remediation_request =
  rq_finding_id :: ident
  rq_owner_ref :: ident
  rq_due_date :: date
  rq_action_plan :: string
  rq_idempotency_key :: string
  rq_closure_evidence_required :: bool
  rq_escalation_policy :: pydict
  rq_external_system :: string
  rq_external_target :: "string option"

definition remediation_request_ok :: "remediation_request \<Rightarrow> bool" where
  "remediation_request_ok r \<longleftrightarrow>
     len_within 1 255 (rq_owner_ref r) \<and> len_within 3 4000 (rq_action_plan r) \<and> len_within 3 255 (rq_idempotency_key r) \<and>
     rq_external_system r \<in> {''none'', ''jira'', ''servicenow''} \<and>
     (case rq_external_target r of None \<Rightarrow> True | Some t \<Rightarrow> length t \<le> 128)"

record closure_submission =
  cs_action_id :: ident
  cs_response_text :: string
  cs_submitted_by :: ident
  cs_closure_evidence_ids :: "string list"
  cs_action_plan :: "string option"

definition closure_submission_ok :: "closure_submission \<Rightarrow> bool" where
  "closure_submission_ok r \<longleftrightarrow> len_within 3 4000 (cs_response_text r) \<and> len_within 1 128 (cs_submitted_by r)"

record retest_request =
  rr_action_id :: ident
  rr_procedure_ref :: string
  rr_performed_by :: ident
  rr_idempotency_key :: string
  rr_outcome :: retest_outcome
  rr_evidence_ids :: "string list"
  rr_detail :: string
  rr_fresh_evidence_collected_at :: "time option"

definition retest_request_ok :: "retest_request \<Rightarrow> bool" where
  "retest_request_ok r \<longleftrightarrow>
     len_within 1 255 (rr_procedure_ref r) \<and> len_within 1 128 (rr_performed_by r) \<and> len_within 3 255 (rr_idempotency_key r) \<and>
     length (rr_detail r) \<le> 4000"

section \<open>Results\<close>

record finding_view =
  fv_finding_id :: ident
  fv_tenant :: ident
  fv_engagement :: ident
  fv_code :: string
  fv_version :: nat
  fv_title :: string
  fv_status :: finding_status
  fv_severity :: string
  fv_confidence :: rat
  fv_requires_human_approval :: bool
  fv_evidence_ids :: "string list"
  fv_limitations :: "string list"
  fv_decisions :: "pydict list"
  fv_actions :: "pydict list"
  fv_retests :: "pydict list"
  fv_content_hash :: string
  fv_materiality :: "pydict option"
  fv_quality_reviews :: "pydict list"
  fv_disputes :: "pydict list"
  fv_approval_ready :: bool
  fv_approval_blockers :: "string list"

record recurrence_match =
  rm_code :: string
  rm_engagement_ids :: "ident list"
  rm_occurrences :: nat
  rm_latest_status :: finding_status

end
