(* ===== verification/Skeptic.thy ===== *)
theory Skeptic
  imports Finding_Types
begin

text \<open>
  The contradiction search over a proposed finding (\<open>adjudication/skeptic.py\<close>). The rows, the
  register of approved exceptions and the compensating controls are dictionaries of arbitrary
  values. What the standard library does with dates and with \<open>str\<close> of compound values is a
  parameter (\<open>renderings\<close>).
\<close>

section \<open>Values\<close>

datatype cell =
    CNone
  | CBool bool
  | CInt int
  | CFloat rat
  | CStr string
  | CDate date
  | CDateTime time
  | CList "cell list"
  | CMap "(string \<times> cell) list"

type_synonym cells = "(string \<times> cell) list"

text \<open>
  \<open>date_text\<close> and \<open>time_text\<close> are \<open>isoformat\<close>, \<open>parse_date\<close> is \<open>date.fromisoformat\<close> with its
  \<open>ValueError\<close> as None, \<open>cell_text\<close> is \<open>str\<close> of a float, a date or a container.
\<close>

record renderings =
  date_text :: "date \<Rightarrow> string"
  time_text :: "time \<Rightarrow> string"
  parse_date :: "string \<Rightarrow> date option"
  cell_text :: "cell \<Rightarrow> string"

fun cell_str :: "renderings \<Rightarrow> cell \<Rightarrow> string" where
  "cell_str rd CNone = ''None''"
| "cell_str rd (CBool b) = (if b then ''True'' else ''False'')"
| "cell_str rd (CInt i) = int_str i"
| "cell_str rd (CStr s) = s"
| "cell_str rd v = cell_text rd v"

fun cell_true :: "cell \<Rightarrow> bool" where
  "cell_true CNone = False"
| "cell_true (CBool b) = b"
| "cell_true (CInt i) = (i \<noteq> 0)"
| "cell_true (CFloat x) = (x \<noteq> 0)"
| "cell_true (CStr s) = (s \<noteq> [])"
| "cell_true (CDate d) = True"
| "cell_true (CDateTime t) = True"
| "cell_true (CList xs) = (xs \<noteq> [])"
| "cell_true (CMap m) = (m \<noteq> [])"

definition cell_get :: "cells \<Rightarrow> string \<Rightarrow> cell" where
  "cell_get rw key = (case map_of rw key of None \<Rightarrow> CNone | Some v \<Rightarrow> v)"

definition cell_or :: "cell \<Rightarrow> cell \<Rightarrow> cell" where
  "cell_or a b = (if cell_true a then a else b)"

text \<open>Iterating over a value.\<close>

fun cell_iter :: "cell \<Rightarrow> cell list res" where
  "cell_iter (CList xs) = Inr xs"
| "cell_iter (CStr s) = Inr (map (\<lambda>c. CStr [c]) s)"
| "cell_iter (CMap m) = Inr (map (\<lambda>(k, _). CStr k) m)"
| "cell_iter _ = Inl TypeError"

text \<open>
  \<open>_as_date\<close>: a \<open>datetime\<close> is a \<open>date\<close> too and is kept as it is; comparing one with a date
  raises.
\<close>

datatype day = Day date | Instant time

fun as_date :: "renderings \<Rightarrow> cell \<Rightarrow> day option" where
  "as_date rd (CDate d) = Some (Day d)"
| "as_date rd (CDateTime t) = Some (Instant t)"
| "as_date rd (CStr s) = map_option Day (parse_date rd (take 10 s))"
| "as_date rd _ = None"

fun day_text :: "renderings \<Rightarrow> day \<Rightarrow> string" where
  "day_text rd (Day d) = date_text rd d"
| "day_text rd (Instant t) = time_text rd t"

fun day_date :: "day \<Rightarrow> date res" where
  "day_date (Day d) = Inr d"
| "day_date (Instant t) = Inl TypeError"

section \<open>The reviewer\<close>

record skeptic_reviewer =
  sk_approved_exceptions :: "cells list"
  sk_period_start :: "date option"
  sk_period_end :: "date option"
  sk_compensating_controls :: "cells list"
  sk_existing_codes :: "string set"

definition default_skeptic :: skeptic_reviewer where
  "default_skeptic = \<lparr>sk_approved_exceptions = [], sk_period_start = None, sk_period_end = None,
     sk_compensating_controls = [], sk_existing_codes = {}\<rparr>"

text \<open>The searches name a row by its subject or exception key, or by the empty text.\<close>

definition row_subject :: "renderings \<Rightarrow> cells \<Rightarrow> string" where
  "row_subject rd rw = cell_str rd (cell_or (cell_or (cell_get rw ''subject_ref'') (cell_get rw ''exception_key'')) (CStr []))"

text \<open>The verdict counts subjects by the same fields without that default.\<close>

definition counted_subject :: "renderings \<Rightarrow> cells \<Rightarrow> string" where
  "counted_subject rd rw = cell_str rd (cell_or (cell_get rw ''subject_ref'') (cell_get rw ''exception_key''))"

definition evidence_of :: "renderings \<Rightarrow> cells \<Rightarrow> string list" where
  "evidence_of rd c = (if cell_true (cell_get c ''evidence_id'') then [cell_str rd (cell_get c ''evidence_id'')] else [])"

definition reference_of :: "renderings \<Rightarrow> cells \<Rightarrow> string \<Rightarrow> string" where
  "reference_of rd c key = (case map_of c key of None \<Rightarrow> ''unknown'' | Some v \<Rightarrow> cell_str rd v)"

text \<open>Whether a waiver has lapsed by the end of the audit period.\<close>

definition waiver_lapsed :: "renderings \<Rightarrow> skeptic_reviewer \<Rightarrow> cells \<Rightarrow> bool res" where
  "waiver_lapsed rd sk approval =
     (case (as_date rd (cell_get approval ''expires_on''), sk_period_end sk) of
        (Some d, Some e) \<Rightarrow> bind_res (day_date d) (\<lambda>x. Inr (x < e))
      | _ \<Rightarrow> Inr False)"

fun approved_exception_for :: "renderings \<Rightarrow> skeptic_reviewer \<Rightarrow> string \<Rightarrow> cells list \<Rightarrow> contradiction list res" where
  "approved_exception_for rd sk subject [] = Inr []"
| "approved_exception_for rd sk subject (a # as) =
     (if cell_str rd (cell_get a ''subject_ref'') \<noteq> subject then approved_exception_for rd sk subject as
      else bind_res (waiver_lapsed rd sk a) (\<lambda>lapsed.
        if lapsed then approved_exception_for rd sk subject as
        else bind_res (mk_contradiction APPROVED_EXCEPTION subject
               (subject @ '' is covered by approved exception '' @ reference_of rd a ''reference'' @
                (case as_date rd (cell_get a ''expires_on'') of None \<Rightarrow> [] | Some d \<Rightarrow> '', valid to '' @ day_text rd d))
               (evidence_of rd a)) (\<lambda>c. Inr [c])))"

fun collect :: "(cells \<Rightarrow> contradiction list res) \<Rightarrow> cells list \<Rightarrow> contradiction list res" where
  "collect f [] = Inr []"
| "collect f (r # rs) = bind_res (f r) (\<lambda>cs. bind_res (collect f rs) (\<lambda>ds. Inr (cs @ ds)))"

definition approved_exceptions :: "renderings \<Rightarrow> skeptic_reviewer \<Rightarrow> cells list \<Rightarrow> contradiction list res" where
  "approved_exceptions rd sk rows =
     collect (\<lambda>rw. approved_exception_for rd sk (row_subject rd rw) (sk_approved_exceptions sk)) rows"

definition occurred_on :: "renderings \<Rightarrow> cells \<Rightarrow> day option" where
  "occurred_on rd rw =
     (case as_date rd (case cell_get rw ''attributes'' of CMap m \<Rightarrow> cell_get m ''occurred_on'' | _ \<Rightarrow> CNone) of
        Some d \<Rightarrow> Some d
      | None \<Rightarrow> as_date rd (cell_get rw ''occurred_on''))"

definition out_of_period_row :: "renderings \<Rightarrow> date \<Rightarrow> date \<Rightarrow> cells \<Rightarrow> contradiction list res" where
  "out_of_period_row rd ps pe rw =
     (case occurred_on rd rw of
        None \<Rightarrow> Inr []
      | Some d \<Rightarrow> bind_res (day_date d) (\<lambda>x.
          if ps \<le> x \<and> x \<le> pe then Inr []
          else bind_res (mk_contradiction OUT_OF_PERIOD (row_subject rd rw)
                 (row_subject rd rw @ '' occurred on '' @ day_text rd d @ '', outside the audit period '' @
                  date_text rd ps @ '' to '' @ date_text rd pe) []) (\<lambda>c. Inr [c])))"

definition out_of_period :: "renderings \<Rightarrow> skeptic_reviewer \<Rightarrow> cells list \<Rightarrow> contradiction list res" where
  "out_of_period rd sk rows =
     (case (sk_period_start sk, sk_period_end sk) of
        (Some ps, Some pe) \<Rightarrow> collect (out_of_period_row rd ps pe) rows
      | _ \<Rightarrow> Inr [])"

fun compensating_for :: "renderings \<Rightarrow> string \<Rightarrow> cells list \<Rightarrow> contradiction list res" where
  "compensating_for rd subject [] = Inr []"
| "compensating_for rd subject (c # cs) =
     bind_res (cell_iter (cell_or (cell_get c ''covers_subjects'') (CList []))) (\<lambda>covered.
       if subject \<notin> set (map (cell_str rd) covered) \<or> \<not> cell_true (cell_get c ''tested_effective'')
       then compensating_for rd subject cs
       else bind_res (mk_contradiction COMPENSATING_CONTROL subject
              (subject @ '' is covered by compensating control '' @ reference_of rd c ''control_ref'' @ '', tested effective'')
              (evidence_of rd c)) (\<lambda>x. Inr [x]))"

definition compensating :: "renderings \<Rightarrow> skeptic_reviewer \<Rightarrow> cells list \<Rightarrow> contradiction list res" where
  "compensating rd sk rows = collect (\<lambda>rw. compensating_for rd (row_subject rd rw) (sk_compensating_controls sk)) rows"

definition duplicate :: "skeptic_reviewer \<Rightarrow> proposed_finding \<Rightarrow> contradiction list res" where
  "duplicate sk f =
     (if pf_code f \<notin> sk_existing_codes sk then Inr []
      else bind_res (mk_contradiction DUPLICATE_OF_EXISTING (pf_code f)
             (''a finding with code '' @ pf_code f @ '' already exists in this engagement'') []) (\<lambda>c. Inr [c]))"

definition all_contradictions :: "renderings \<Rightarrow> skeptic_reviewer \<Rightarrow> proposed_finding \<Rightarrow> cells list \<Rightarrow> contradiction list res" where
  "all_contradictions rd sk f rows =
     bind_res (approved_exceptions rd sk rows) (\<lambda>a.
     bind_res (out_of_period rd sk rows) (\<lambda>b.
     bind_res (compensating rd sk rows) (\<lambda>c.
     bind_res (duplicate sk f) (\<lambda>d. Inr (a @ b @ c @ d)))))"

definition review :: "renderings \<Rightarrow> skeptic_reviewer \<Rightarrow> proposed_finding \<Rightarrow> cells list \<Rightarrow> skeptic_verdict res" where
  "review rd sk f rows =
     bind_res (all_contradictions rd sk f rows) (\<lambda>found.
       let subjects = remdups (map (counted_subject rd) rows);
           contradicted = map ct_subject_ref (filter (\<lambda>c. ct_kind c \<noteq> DUPLICATE_OF_EXISTING) found);
           surviving = filter (\<lambda>x. x \<notin> set contradicted) subjects
       in if rows = [] then Inr \<lparr>sv_supported = True, sv_contradictions = found, sv_rationale = []\<rparr>
          else if \<exists>c \<in> set found. ct_kind c = DUPLICATE_OF_EXISTING
          then Inr \<lparr>sv_supported = False, sv_contradictions = found,
                    sv_rationale = pf_code f @ '' is already raised in this engagement''\<rparr>
          else if surviving = []
          then Inr \<lparr>sv_supported = False, sv_contradictions = found,
                    sv_rationale = ''all '' @ counted (length subjects) ''exception'' None @ '' behind '' @ pf_code f @
                      '' are explained by canonical records''\<rparr>
          else Inr \<lparr>sv_supported = True, sv_contradictions = found,
                    sv_rationale = nat_str (length surviving) @ '' of '' @ counted (length subjects) ''exception'' None @
                      '' remain unexplained''\<rparr>)"

section \<open>What the verdict means\<close>

definition waived :: "renderings \<Rightarrow> skeptic_reviewer \<Rightarrow> cells \<Rightarrow> bool" where
  "waived rd sk r \<longleftrightarrow> (\<exists>a \<in> set (sk_approved_exceptions sk).
     cell_str rd (cell_get a ''subject_ref'') = row_subject rd r \<and> waiver_lapsed rd sk a = Inr False)"

definition outside_period :: "renderings \<Rightarrow> skeptic_reviewer \<Rightarrow> cells \<Rightarrow> bool" where
  "outside_period rd sk r \<longleftrightarrow> (\<exists>ps pe d. sk_period_start sk = Some ps \<and> sk_period_end sk = Some pe \<and>
     occurred_on rd r = Some (Day d) \<and> \<not> (ps \<le> d \<and> d \<le> pe))"

definition covering :: "renderings \<Rightarrow> string \<Rightarrow> cells \<Rightarrow> bool" where
  "covering rd subject c \<longleftrightarrow>
     (case cell_iter (cell_or (cell_get c ''covers_subjects'') (CList [])) of
        Inr covered \<Rightarrow> subject \<in> set (map (cell_str rd) covered) \<and> cell_true (cell_get c ''tested_effective'')
      | Inl _ \<Rightarrow> False)"

definition compensated :: "renderings \<Rightarrow> skeptic_reviewer \<Rightarrow> cells \<Rightarrow> bool" where
  "compensated rd sk r \<longleftrightarrow> (\<exists>c \<in> set (sk_compensating_controls sk). covering rd (row_subject rd r) c)"

definition explained :: "renderings \<Rightarrow> skeptic_reviewer \<Rightarrow> cells \<Rightarrow> bool" where
  "explained rd sk r \<longleftrightarrow> waived rd sk r \<or> outside_period rd sk r \<or> compensated rd sk r"

text \<open>A search finds something for exactly the rows it explains, and names their subjects.\<close>

definition finds :: "contradiction_kind \<Rightarrow> string \<Rightarrow> bool \<Rightarrow> contradiction list \<Rightarrow> bool" where
  "finds kind subject hit cs \<longleftrightarrow> (cs \<noteq> [] \<longleftrightarrow> hit) \<and> (\<forall>c \<in> set cs. ct_kind c = kind \<and> ct_subject_ref c = subject)"

lemma mk_contradiction_finds:
  "bind_res (mk_contradiction kind subject detail ev) (\<lambda>c. Inr [c]) = Inr cs \<Longrightarrow> finds kind subject True cs"
  by (auto simp: mk_contradiction_def finds_def res_simps split: if_splits)

lemma approved_exception_for_finds:
  "approved_exception_for rd sk subject as = Inr cs \<Longrightarrow>
   finds APPROVED_EXCEPTION subject (\<exists>a \<in> set as. cell_str rd (cell_get a ''subject_ref'') = subject \<and> waiver_lapsed rd sk a = Inr False) cs"
proof (induction as)
  case Nil
  then show ?case by (simp add: finds_def)
next
  case (Cons a as)
  show ?case
  proof (cases "cell_str rd (cell_get a ''subject_ref'') = subject \<and> waiver_lapsed rd sk a = Inr False")
    case True
    with Cons.prems show ?thesis by (auto dest: mk_contradiction_finds)
  next
    case False
    with Cons.prems have "approved_exception_for rd sk subject as = Inr cs" by (auto simp: res_simps split: if_splits)
    from Cons.IH[OF this] False show ?thesis by (auto simp: finds_def)
  qed
qed

lemma compensating_for_finds:
  "compensating_for rd subject cs = Inr xs \<Longrightarrow> finds COMPENSATING_CONTROL subject (\<exists>c \<in> set cs. covering rd subject c) xs"
proof (induction cs)
  case Nil
  then show ?case by (simp add: finds_def)
next
  case (Cons c cs)
  from Cons.prems obtain covered where covered: "cell_iter (cell_or (cell_get c ''covers_subjects'') (CList [])) = Inr covered"
    by (auto simp: res_simps)
  show ?case
  proof (cases "covering rd subject c")
    case True
    with Cons.prems covered show ?thesis by (auto simp: covering_def dest: mk_contradiction_finds)
  next
    case False
    with Cons.prems covered have "compensating_for rd subject cs = Inr xs" by (simp add: covering_def split: if_splits)
    from Cons.IH[OF this] False show ?thesis by simp
  qed
qed

lemma out_of_period_row_finds:
  assumes "out_of_period_row rd ps pe r = Inr cs"
  shows "finds OUT_OF_PERIOD (row_subject rd r) (\<exists>d. occurred_on rd r = Some (Day d) \<and> \<not> (ps \<le> d \<and> d \<le> pe)) cs"
proof (cases "occurred_on rd r")
  case None
  with assms show ?thesis by (simp add: out_of_period_row_def finds_def)
next
  case (Some d)
  with assms obtain x where d: "d = Day x" by (cases d) (auto simp: out_of_period_row_def)
  show ?thesis
  proof (cases "ps \<le> x \<and> x \<le> pe")
    case True
    with assms Some d show ?thesis by (simp add: out_of_period_row_def finds_def)
  next
    case False
    with assms Some d show ?thesis by (auto simp: out_of_period_row_def dest: mk_contradiction_finds)
  qed
qed

lemma collect_finds:
  assumes "collect f rows = Inr cs" and "\<And>r xs. f r = Inr xs \<Longrightarrow> finds kind (sub r) (hit r) xs"
  shows "(\<forall>c \<in> set cs. ct_kind c = kind) \<and> ct_subject_ref ` set cs = {sub r |r. r \<in> set rows \<and> hit r}"
  using assms(1)
proof (induction rows arbitrary: cs)
  case Nil
  then show ?case by simp
next
  case (Cons r rows)
  from Cons.prems obtain a b where a: "f r = Inr a" and b: "collect f rows = Inr b" and cs: "cs = a @ b"
    by (auto simp: res_simps)
  from assms(2)[OF a] have "(\<forall>c \<in> set a. ct_kind c = kind) \<and> ct_subject_ref ` set a = {x. x = sub r \<and> hit r}"
    by (cases a) (auto simp: finds_def)
  with Cons.IH[OF b] show ?case unfolding cs by auto
qed

lemma review_contradictions:
  assumes "all_contradictions rd sk f rows = Inr found"
  shows "(\<exists>c \<in> set found. ct_kind c = DUPLICATE_OF_EXISTING) \<longleftrightarrow> pf_code f \<in> sk_existing_codes sk"
    and "set (map ct_subject_ref (filter (\<lambda>c. ct_kind c \<noteq> DUPLICATE_OF_EXISTING) found))
         = {row_subject rd r |r. r \<in> set rows \<and> explained rd sk r}"
proof -
  from assms obtain a b c d where a: "approved_exceptions rd sk rows = Inr a" and b: "out_of_period rd sk rows = Inr b"
    and c: "compensating rd sk rows = Inr c" and d: "duplicate sk f = Inr d" and found: "found = a @ b @ c @ d"
    by (auto simp: all_contradictions_def res_simps)
  have a': "(\<forall>c \<in> set a. ct_kind c = APPROVED_EXCEPTION) \<and> ct_subject_ref ` set a = {row_subject rd r |r. r \<in> set rows \<and> waived rd sk r}"
    by (rule collect_finds[OF a[unfolded approved_exceptions_def]])
      (unfold waived_def, rule approved_exception_for_finds)
  have b': "(\<forall>c \<in> set b. ct_kind c = OUT_OF_PERIOD) \<and> ct_subject_ref ` set b = {row_subject rd r |r. r \<in> set rows \<and> outside_period rd sk r}"
  proof (cases "\<exists>ps pe. sk_period_start sk = Some ps \<and> sk_period_end sk = Some pe")
    case True
    then obtain ps pe where p: "sk_period_start sk = Some ps" "sk_period_end sk = Some pe" by blast
    from b p have "collect (out_of_period_row rd ps pe) rows = Inr b" by (simp add: out_of_period_def)
    from collect_finds[OF this out_of_period_row_finds] p show ?thesis by (simp add: outside_period_def)
  next
    case False
    with b have "b = []" by (auto simp: out_of_period_def split: option.splits)
    with False show ?thesis by (auto simp: outside_period_def)
  qed
  have c': "(\<forall>x \<in> set c. ct_kind x = COMPENSATING_CONTROL) \<and> ct_subject_ref ` set c = {row_subject rd r |r. r \<in> set rows \<and> compensated rd sk r}"
    by (rule collect_finds[OF c[unfolded compensating_def]]) (unfold compensated_def, rule compensating_for_finds)
  have d': "(d \<noteq> [] \<longleftrightarrow> pf_code f \<in> sk_existing_codes sk) \<and> (\<forall>x \<in> set d. ct_kind x = DUPLICATE_OF_EXISTING)"
    using d by (auto simp: duplicate_def mk_contradiction_def res_simps split: if_splits)
  show "(\<exists>c \<in> set found. ct_kind c = DUPLICATE_OF_EXISTING) \<longleftrightarrow> pf_code f \<in> sk_existing_codes sk"
    unfolding found using a' b' c' d' by (cases d) auto
  have keep: "filter (\<lambda>c. ct_kind c \<noteq> DUPLICATE_OF_EXISTING) found = a @ b @ c"
    unfolding found using a' b' c' d' by (simp add: filter_id_conv filter_empty_conv)
  show "set (map ct_subject_ref (filter (\<lambda>c. ct_kind c \<noteq> DUPLICATE_OF_EXISTING) found))
         = {row_subject rd r |r. r \<in> set rows \<and> explained rd sk r}"
    unfolding keep set_map set_append image_Un using a' b' c' by (auto simp: explained_def)
qed

text \<open>
  What the skeptic decides: a finding without exception rows stands; otherwise it falls exactly
  when its code was already raised or every exception row names a subject that canonical records
  explain, that is, some row of that subject is covered by an approved exception that has not
  lapsed by the end of the period, happened outside the audit period, or is covered by a
  compensating control that was tested effective.
\<close>

lemma review_verdict:
  assumes "review rd sk f rows = Inr v"
  shows "sv_supported v \<longleftrightarrow> rows = [] \<or>
    pf_code f \<notin> sk_existing_codes sk \<and>
    (\<exists>r \<in> set rows. \<forall>r' \<in> set rows. explained rd sk r' \<longrightarrow> row_subject rd r' \<noteq> counted_subject rd r)"
proof -
  from assms obtain found where found: "all_contradictions rd sk f rows = Inr found" by (auto simp: review_def res_simps)
  note spec = review_contradictions[OF found]
  show ?thesis
  proof (cases "rows = [] \<or> pf_code f \<in> sk_existing_codes sk")
    case True
    with assms found spec(1) show ?thesis by (auto simp: review_def Let_def split: if_splits)
  next
    case False
    let ?gone = "{row_subject rd r |r. r \<in> set rows \<and> explained rd sk r}"
    have "sv_supported v \<longleftrightarrow> filter (\<lambda>x. x \<notin> ?gone) (remdups (map (counted_subject rd) rows)) \<noteq> []"
      using assms found False spec(1) unfolding review_def spec(2)[symmetric] by (auto simp: Let_def split: if_splits)
    also have "\<dots> \<longleftrightarrow> (\<exists>r \<in> set rows. counted_subject rd r \<notin> ?gone)" by (auto simp: filter_empty_conv)
    also have "\<dots> \<longleftrightarrow> (\<exists>r \<in> set rows. \<forall>r' \<in> set rows. explained rd sk r' \<longrightarrow> row_subject rd r' \<noteq> counted_subject rd r)"
      by (intro bex_cong refl) (simp, metis)
    finally show ?thesis using False by simp
  qed
qed

section \<open>Witnesses\<close>

definition demo_renderings :: renderings where
  "demo_renderings = \<lparr>date_text = (\<lambda>d. int_str d), time_text = (\<lambda>t. ''1970''),
     parse_date = (\<lambda>s. case int_of_str s of Inr d \<Rightarrow> Some d | Inl _ \<Rightarrow> None), cell_text = (\<lambda>_. ''?'')\<rparr>"

definition demo_finding :: proposed_finding where
  "demo_finding = \<lparr>pf_code = ''SCM-01'', pf_title = ''Unapproved changes'', pf_severity = ''medium'', pf_confidence = 7 / 10,
     pf_criteria = ''changes need approval'', pf_observed_condition = ''two changes without ticket'',
     pf_risk_statement = ''unreviewed code'', pf_cause = None, pf_consequence = None, pf_business_objective = None,
     pf_evidence_ids = [''ev-1''], pf_exception_keys = [''k1'', ''k2''], pf_affected_population = [], pf_limitations = [],
     pf_source_run_id = None\<rparr>"

definition demo_skeptic :: skeptic_reviewer where
  "demo_skeptic = \<lparr>sk_approved_exceptions = [[(''subject_ref'', CStr ''a''), (''expires_on'', CStr ''90'')]],
     sk_period_start = Some 10, sk_period_end = Some 50, sk_compensating_controls = [], sk_existing_codes = {}\<rparr>"

definition demo_rows :: "cells list" where
  "demo_rows = [[(''subject_ref'', CStr ''a'')], [(''subject_ref'', CStr ''b''), (''occurred_on'', CStr ''20'')]]"

lemma demo_review:
  "case review demo_renderings demo_skeptic demo_finding demo_rows of Inr v \<Rightarrow> sv_supported v \<and> length (sv_contradictions v) = 1 | Inl _ \<Rightarrow> False"
  by code_simp

end
