(* ===== verification/Quality.thy ===== *)
theory Quality
  imports Finding_Types
begin

text \<open>
  The methodology gate (\<open>adjudication/quality.py\<close>): nine mechanical checks over the stored state
  of a finding.
\<close>

section \<open>Model\<close>

datatype quality_check =
    EVIDENCE_CITED | CONTRADICTIONS_SEARCHED | POPULATION_RECONCILED | CRITERIA_STATED | CONDITION_OBSERVED
  | MATERIALITY_ASSESSED | SEVERITY_SUPPORTED | LIMITATIONS_DISCLOSED | NOT_SELF_REVIEWED

primrec quality_check_value :: "quality_check \<Rightarrow> string" where
  "quality_check_value EVIDENCE_CITED = ''evidence_cited''"
| "quality_check_value CONTRADICTIONS_SEARCHED = ''contradictions_searched''"
| "quality_check_value POPULATION_RECONCILED = ''population_reconciled''"
| "quality_check_value CRITERIA_STATED = ''criteria_stated''"
| "quality_check_value CONDITION_OBSERVED = ''condition_observed''"
| "quality_check_value MATERIALITY_ASSESSED = ''materiality_assessed''"
| "quality_check_value SEVERITY_SUPPORTED = ''severity_supported''"
| "quality_check_value LIMITATIONS_DISCLOSED = ''limitations_disclosed''"
| "quality_check_value NOT_SELF_REVIEWED = ''not_self_reviewed''"

record check_result =
  cr_check :: quality_check
  cr_passed :: bool
  cr_detail :: string

text \<open>Constructing the model checks the length of the detail.\<close>

definition mk_check :: "quality_check \<Rightarrow> bool \<Rightarrow> string \<Rightarrow> check_result res" where
  "mk_check check ok detail =
     (if length detail \<le> 2000 then Inr \<lparr>cr_check = check, cr_passed = ok, cr_detail = detail\<rparr> else Inl ValidationError)"

definition check_json :: "check_result \<Rightarrow> pyval" where
  "check_json c = PDict [(''check'', PStr (quality_check_value (cr_check c))), (''passed'', PBool (cr_passed c)),
     (''detail'', PStr (cr_detail c))]"

record quality_review_outcome =
  qo_passed :: bool
  qo_checks :: "check_result list"
  qo_content_hash :: string
  qo_reviewer_id :: ident

definition failures :: "quality_review_outcome \<Rightarrow> check_result list" where
  "failures q = filter (\<lambda>c. \<not> cr_passed c) (qo_checks q)"

definition summary :: "quality_review_outcome \<Rightarrow> string" where
  "summary q =
     (if qo_passed q then nat_str (length (qo_checks q)) @ '' quality checks passed''
      else ''quality review failed on: '' @ join '', '' (map (\<lambda>c. quality_check_value (cr_check c)) (failures q)))"

text \<open>What the gate reads of the stored assessment.\<close>

record materiality_summary =
  ms_score :: rat
  ms_severity_floor :: string
  ms_override_severity :: "string option"

text \<open>Two identities are the same when they agree up to surrounding space and case.\<close>

definition identity :: "ident \<Rightarrow> string" where
  "identity x = str_lower (str_strip x)"

text \<open>Each check as its name, verdict and detail; recording them stops at the first detail that is too long.\<close>

type_synonym check_spec = "quality_check \<times> bool \<times> string"

fun record_checks :: "check_spec list \<Rightarrow> check_result list res" where
  "record_checks [] = Inr []"
| "record_checks ((check, ok, detail) # rest) =
     bind_res (mk_check check ok detail) (\<lambda>c. bind_res (record_checks rest) (\<lambda>cs. Inr (c # cs)))"

definition severity_check :: "string \<Rightarrow> materiality_summary option \<Rightarrow> check_spec" where
  "severity_check severity materiality =
     (case materiality of
        None \<Rightarrow> (SEVERITY_SUPPORTED, False, ''severity cannot be checked without a materiality assessment'')
      | Some m \<Rightarrow>
          let meets = severity_rank (ms_severity_floor m) \<le> severity_rank severity;
              override = truthy (ms_override_severity m);
              sev = str_repr severity; floor = str_repr (ms_severity_floor m)
          in (SEVERITY_SUPPORTED, meets \<or> override,
               (if meets then ''severity '' @ sev @ '' meets the '' @ floor @ '' floor''
                else if override then ''severity '' @ sev @ '' is below the '' @ floor @ '' floor under recorded override''
                else ''severity '' @ sev @ '' is below the computed '' @ floor @ '' floor and carries no override'')))"

definition independence_check :: "ident \<Rightarrow> ident option \<Rightarrow> check_spec" where
  "independence_check reviewer authored_by =
     (let independent = (truthy authored_by \<and> identity reviewer \<noteq> identity (the authored_by)) in
      (NOT_SELF_REVIEWED, independent,
        (if independent then ''reviewer '' @ str_repr reviewer @ '' is independent of author '' @ str_repr (the authored_by)
         else if truthy authored_by then ''reviewer '' @ str_repr reviewer @ '' authored the finding''
         else ''the finding records no author, so independence cannot be established'')))"

definition quality_checks ::
  "ident \<Rightarrow> ident option \<Rightarrow> string \<Rightarrow> string list \<Rightarrow> pyval list \<Rightarrow> string list \<Rightarrow> string \<Rightarrow> string \<Rightarrow> string list
   \<Rightarrow> materiality_summary option \<Rightarrow> bool \<Rightarrow> check_spec list"
where
  "quality_checks reviewer authored_by severity evidence contradictions exception_keys criteria observed_condition limitations
     materiality skeptic_ran =
     (let undisclosed = (contradictions \<noteq> [] \<and> limitations = []);
          criteria_ok = 10 \<le> length (str_strip criteria);
          condition_ok = 10 \<le> length (str_strip observed_condition)
      in
        [(EVIDENCE_CITED, evidence \<noteq> [],
           if evidence \<noteq> [] then counted (length evidence) ''evidence record'' None @ '' cited'' else ''the finding cites no evidence''),
         (CONTRADICTIONS_SEARCHED, skeptic_ran,
           if skeptic_ran then ''contradiction search ran and recorded '' @ counted (length contradictions) ''result'' None
           else ''no contradiction search is recorded against this finding''),
         (POPULATION_RECONCILED, exception_keys \<noteq> [] \<or> evidence \<noteq> [],
           if exception_keys \<noteq> [] then counted (length exception_keys) ''exception key'' None @ '' trace to the tested population''
           else ''no exception keys; the finding rests on cited evidence alone''),
         (CRITERIA_STATED, criteria_ok,
           if criteria_ok then ''criteria are stated'' else ''criteria are missing or too short to identify a standard''),
         (CONDITION_OBSERVED, condition_ok,
           if condition_ok then ''the observed condition is stated'' else ''the observed condition is missing or too short''),
         (MATERIALITY_ASSESSED, materiality \<noteq> None,
           case materiality of
              Some m \<Rightarrow> ''materiality scored '' @ rounded_str (ms_score m) @ '' ('' @ ms_severity_floor m @ '' floor)''
            | None \<Rightarrow> ''no materiality assessment exists for this version of the finding''),
         severity_check severity materiality,
         (LIMITATIONS_DISCLOSED, \<not> undisclosed,
           if undisclosed then counted (length contradictions) ''contradiction'' None @ '' found but no limitation is disclosed''
           else counted (length limitations) ''limitation'' None @ '' disclosed''),
         independence_check reviewer authored_by])"

definition evaluate ::
  "ident \<Rightarrow> ident option \<Rightarrow> string \<Rightarrow> string list \<Rightarrow> pyval list \<Rightarrow> string list \<Rightarrow> string \<Rightarrow> string \<Rightarrow> string list
   \<Rightarrow> materiality_summary option \<Rightarrow> bool \<Rightarrow> string \<Rightarrow> quality_review_outcome res"
where
  "evaluate reviewer authored_by severity evidence contradictions exception_keys criteria observed_condition limitations
     materiality skeptic_ran digest =
     bind_res (record_checks (quality_checks reviewer authored_by severity evidence contradictions exception_keys criteria
        observed_condition limitations materiality skeptic_ran))
      (\<lambda>checks. Inr \<lparr>qo_passed = list_all cr_passed checks, qo_checks = checks, qo_content_hash = digest, qo_reviewer_id = reviewer\<rparr>)"

section \<open>What passing means\<close>

lemma record_checks_Inr:
  "record_checks specs = Inr cs \<Longrightarrow> map cr_check cs = map fst specs \<and> (list_all cr_passed cs \<longleftrightarrow> list_all (\<lambda>x. fst (snd x)) specs)"
proof (induction specs arbitrary: cs rule: record_checks.induct)
  case (2 check ok detail rest)
  from "2.prems" obtain c cs' where c: "mk_check check ok detail = Inr c" and rest: "record_checks rest = Inr cs'" and cs: "cs = c # cs'"
    by (auto simp: res_simps)
  from c have "cr_check c = check \<and> cr_passed c = ok" by (auto simp: mk_check_def split: if_splits)
  moreover have "map cr_check cs' = map fst rest \<and> (list_all cr_passed cs' \<longleftrightarrow> list_all (\<lambda>x. fst (snd x)) rest)"
    by (rule "2.IH"[OF c rest])
  ultimately show ?case by (simp add: cs)
next
  case 1
  then show ?case by simp
qed

definition severity_supported :: "string \<Rightarrow> materiality_summary option \<Rightarrow> bool" where
  "severity_supported severity materiality \<longleftrightarrow> (\<exists>m. materiality = Some m \<and>
     (severity_rank (ms_severity_floor m) \<le> severity_rank severity \<or> truthy (ms_override_severity m)))"

definition independent_of :: "ident \<Rightarrow> ident option \<Rightarrow> bool" where
  "independent_of reviewer author \<longleftrightarrow> (\<exists>a. author = Some a \<and> a \<noteq> [] \<and> identity reviewer \<noteq> identity a)"

lemma severity_check_parts:
  "fst (severity_check severity m) = SEVERITY_SUPPORTED" "fst (snd (severity_check severity m)) \<longleftrightarrow> severity_supported severity m"
  by (auto simp: severity_check_def severity_supported_def Let_def split: option.split)

lemma independence_check_parts:
  "fst (independence_check r a) = NOT_SELF_REVIEWED" "fst (snd (independence_check r a)) \<longleftrightarrow> independent_of r a"
  by (auto simp: independence_check_def independent_of_def truthy_def Let_def split: option.split)

lemma quality_checks_parts:
  assumes "specs = quality_checks reviewer author severity evidence contradictions keys criteria observed limitations m searched"
  shows "map fst specs = [EVIDENCE_CITED, CONTRADICTIONS_SEARCHED, POPULATION_RECONCILED, CRITERIA_STATED,
      CONDITION_OBSERVED, MATERIALITY_ASSESSED, SEVERITY_SUPPORTED, LIMITATIONS_DISCLOSED, NOT_SELF_REVIEWED]"
    and "list_all (\<lambda>x. fst (snd x)) specs \<longleftrightarrow>
      evidence \<noteq> [] \<and> searched \<and> 10 \<le> length (str_strip criteria) \<and> 10 \<le> length (str_strip observed) \<and>
      severity_supported severity m \<and> (contradictions \<noteq> [] \<longrightarrow> limitations \<noteq> []) \<and> independent_of reviewer author"
  unfolding assms quality_checks_def Let_def
  by (simp add: severity_check_parts independence_check_parts)
    (auto simp: severity_check_parts independence_check_parts severity_supported_def)

text \<open>
  The quality gate passes exactly when the work supports the finding: evidence is cited, the
  contradiction search ran, criteria and condition are stated in at least ten characters, a
  materiality assessment exists and the severity reaches its floor or carries an override, every
  contradiction found is matched by a disclosed limitation, and the finding has an author other
  than the reviewer up to case and surrounding space. All nine checks are recorded in order, and
  the gate fails exactly when one of them did.
\<close>

lemma evaluate_passes:
  assumes "evaluate reviewer author severity evidence contradictions keys criteria observed limitations m searched digest = Inr q"
  shows "map cr_check (qo_checks q) = [EVIDENCE_CITED, CONTRADICTIONS_SEARCHED, POPULATION_RECONCILED, CRITERIA_STATED,
      CONDITION_OBSERVED, MATERIALITY_ASSESSED, SEVERITY_SUPPORTED, LIMITATIONS_DISCLOSED, NOT_SELF_REVIEWED] \<and>
    qo_content_hash q = digest \<and> qo_reviewer_id q = reviewer \<and> (qo_passed q \<longleftrightarrow> failures q = []) \<and>
    (qo_passed q \<longleftrightarrow> evidence \<noteq> [] \<and> searched \<and> 10 \<le> length (str_strip criteria) \<and> 10 \<le> length (str_strip observed) \<and>
      severity_supported severity m \<and> (contradictions \<noteq> [] \<longrightarrow> limitations \<noteq> []) \<and> independent_of reviewer author)"
proof -
  let ?specs = "quality_checks reviewer author severity evidence contradictions keys criteria observed limitations m searched"
  from assms obtain cs where cs: "record_checks ?specs = Inr cs" and q: "q = \<lparr>qo_passed = list_all cr_passed cs,
      qo_checks = cs, qo_content_hash = digest, qo_reviewer_id = reviewer\<rparr>"
    by (auto simp: evaluate_def res_simps)
  show ?thesis
    using record_checks_Inr[OF cs] unfolding quality_checks_parts[OF refl]
    by (simp add: q failures_def filter_empty_conv list_all_iff)
qed

section \<open>Witness\<close>

definition demo_summary :: materiality_summary where
  "demo_summary = \<lparr>ms_score = 7 / 5, ms_severity_floor = ''medium'', ms_override_severity = None\<rparr>"

lemma demo_evaluate:
  "case evaluate ''Ines'' (Some ''agent:tester'') ''high'' [''ev-1''] [] [''k1''] ''policy 4.2 approval''
     ''two changes unapproved'' [] (Some demo_summary) True ''d'' of Inr q \<Rightarrow> qo_passed q | Inl _ \<Rightarrow> False"
  by code_simp

end
