(* ===== verification/Findings.thy ===== *)
theory Findings
  imports Skeptic Quality
begin

text \<open>
  The tables of the finding lifecycle (\<open>db/models/findings.py\<close>) and their repository
  (\<open>adjudication/repository.py\<close>). A table lists its rows in insertion order, and a query that
  orders by a column keeps that order among equal values. Adding a row checks the primary key,
  the unique constraints, the check constraints and the foreign keys of its table. The column
  \<open>updated_at\<close> is left out: nothing reads it.
\<close>

section \<open>Rows\<close>

record finding_row =
  finding_id :: ident
  fn_tenant :: ident
  fn_engagement :: ident
  fn_code :: string
  fn_version :: nat
  fn_title :: string
  fn_status :: finding_status
  fn_severity :: string
  fn_confidence :: rat
  fn_business_objective :: "string option"
  fn_risk_statement :: string
  fn_criteria :: string
  fn_observed_condition :: string
  fn_cause :: "string option"
  fn_consequence :: "string option"
  fn_affected_population :: pydict
  fn_limitations :: "string list"
  fn_requires_human_approval :: bool
  fn_evidence_ids :: "string list"
  fn_contradictions :: "pyval list"
  fn_exception_keys :: "string list"
  fn_skeptic_reviewed_at :: "time option"
  fn_skeptic_rationale :: "string option"
  fn_source_run_id :: "string option"
  fn_authored_by :: "ident option"
  fn_created_at :: time

record decision_row =
  decision_id :: ident
  ad_tenant :: ident
  ad_engagement :: "ident option"
  ad_finding :: "ident option"
  decision_type :: string
  ad_actor_id :: ident
  ad_reason :: string
  decided_at :: time

record response_row =
  response_id :: ident
  mg_tenant :: ident
  mg_finding :: ident
  mg_version :: nat
  response_text :: string
  mg_action_plan :: "string option"
  submitted_by :: ident
  submitted_at :: time
  closure_evidence_ids :: "string list"

record action_row =
  action_id :: ident
  ra_tenant :: ident
  ra_finding :: ident
  owner_ref :: ident
  ra_status :: string
  due_date :: date
  action_plan :: string
  escalation_policy :: pydict
  closure_evidence_required :: bool
  declared_complete_at :: "time option"
  ra_idempotency_key :: "string option"
  external_system :: string
  external_target :: "string option"
  external_ref :: "string option"
  external_url :: "string option"
  external_sync_state :: string
  external_synced_at :: "time option"
  external_error :: "string option"
  completed_by :: "ident option"
  ra_created_at :: time

record assessment_row =
  assessment_id :: ident
  ma_tenant :: ident
  ma_finding :: ident
  ma_content_hash :: string
  ma_policy_id :: string
  ma_policy :: pydict
  ma_population_size :: nat
  ma_exception_count :: nat
  ma_monetary_exposure :: "rat option"
  ma_factors :: "pyval list"
  ma_components :: pydict
  ma_score :: rat
  ma_material :: bool
  ma_severity_floor :: string
  ma_rationale :: string
  ma_assessed_by :: ident
  assessed_at :: time
  override_severity_to :: "string option"
  override_reason :: "string option"
  override_by :: "ident option"

record review_row =
  review_id :: ident
  qv_tenant :: ident
  qv_finding :: ident
  qv_content_hash :: string
  qv_reviewer_id :: ident
  qv_passed :: bool
  qv_checks :: "pyval list"
  qv_notes :: "string option"
  reviewed_at :: time

record dispute_row =
  dispute_id :: ident
  ds_tenant :: ident
  ds_finding :: ident
  round_no :: nat
  ds_ground :: string
  ds_statement :: string
  raised_by :: ident
  raised_at :: time
  ds_evidence_ids :: "string list"
  prior_status :: finding_status
  ds_status :: string
  ds_resolution :: "string option"
  resolution_reason :: "string option"
  resolved_by :: "ident option"
  resolved_at :: "time option"
  escalated :: bool

record retest_row =
  retest_id :: ident
  rt_tenant :: ident
  rt_action :: ident
  rt_engagement :: "ident option"
  rt_status :: string
  rt_outcome :: "string option"
  rt_procedure_ref :: string
  rt_performed_by :: "ident option"
  rt_result :: pydict
  rt_completed_at :: "time option"
  rt_evidence_ids :: "string list"
  rt_idempotency_key :: "string option"
  rt_independence_basis :: pydict
  rt_created_at :: time

text \<open>
  \<open>tenant_ids\<close> and \<open>engagement_ids\<close> are the keys of the two tables the foreign keys refer to;
  \<open>sha256\<close> is the hexadecimal digest of a text.
\<close>

record adj_store = store +
  tenant_ids :: "ident list"
  engagement_ids :: "ident list"
  findings :: "finding_row list"
  decisions :: "decision_row list"
  responses :: "response_row list"
  actions :: "action_row list"
  assessments :: "assessment_row list"
  reviews :: "review_row list"
  disputes :: "dispute_row list"
  retests :: "retest_row list"
  sha256 :: "string \<Rightarrow> string"
  rendering :: renderings

section \<open>Repository\<close>

definition first_row :: "'r list \<Rightarrow> 'r option" where
  "first_row rows = (case rows of [] \<Rightarrow> None | r # _ \<Rightarrow> Some r)"

definition optional_key :: "ident list \<Rightarrow> ident option \<Rightarrow> bool" where
  "optional_key ids x = (case x of None \<Rightarrow> True | Some i \<Rightarrow> i \<in> set ids)"

definition add_finding :: "finding_row \<Rightarrow> adj_store \<Rightarrow> adj_store res" where
  "add_finding f s =
     (if has_key finding_id (finding_id f) (findings s)
         \<or> has_key (\<lambda>r. (fn_engagement r, fn_code r, fn_version r)) (fn_engagement f, fn_code f, fn_version f) (findings s)
         \<or> \<not> (0 \<le> fn_confidence f \<and> fn_confidence f \<le> 1)
         \<or> fn_tenant f \<notin> set (tenant_ids s) \<or> fn_engagement f \<notin> set (engagement_ids s)
      then Inl IntegrityError
      else Inr (s\<lparr>findings := findings s @ [f]\<rparr>))"

definition put_finding :: "finding_row \<Rightarrow> adj_store \<Rightarrow> adj_store" where
  "put_finding f s = s\<lparr>findings := put finding_id f (findings s)\<rparr>"

definition get_finding :: "ident \<Rightarrow> ident \<Rightarrow> adj_store \<Rightarrow> finding_row option" where
  "get_finding tenant fid s = find (\<lambda>f. fn_tenant f = tenant \<and> finding_id f = fid) (findings s)"

definition find_by_code :: "ident \<Rightarrow> ident \<Rightarrow> string \<Rightarrow> adj_store \<Rightarrow> finding_row option" where
  "find_by_code tenant engagement code s =
     first_row (sort_key (\<lambda>f. - int (fn_version f))
       (filter (\<lambda>f. fn_tenant f = tenant \<and> fn_engagement f = engagement \<and> fn_code f = code) (findings s)))"

definition repo_list_findings :: "ident \<Rightarrow> ident option \<Rightarrow> adj_store \<Rightarrow> finding_row list" where
  "repo_list_findings tenant engagement s =
     sort_key (\<lambda>f. (fn_code f, fn_version f))
       (filter (\<lambda>f. fn_tenant f = tenant \<and> (truthy engagement \<longrightarrow> Some (fn_engagement f) = engagement)) (findings s))"

definition list_findings_by_code :: "ident \<Rightarrow> string \<Rightarrow> adj_store \<Rightarrow> finding_row list" where
  "list_findings_by_code tenant code s =
     sort_key fn_created_at (filter (\<lambda>f. fn_tenant f = tenant \<and> fn_code f = code) (findings s))"

definition add_decision :: "decision_row \<Rightarrow> adj_store \<Rightarrow> adj_store res" where
  "add_decision d s =
     (if has_key decision_id (decision_id d) (decisions s) \<or> ad_tenant d \<notin> set (tenant_ids s)
         \<or> \<not> optional_key (engagement_ids s) (ad_engagement d)
         \<or> \<not> optional_key (map finding_id (findings s)) (ad_finding d)
      then Inl IntegrityError else Inr (s\<lparr>decisions := decisions s @ [d]\<rparr>))"

definition decisions_of :: "ident \<Rightarrow> ident \<Rightarrow> adj_store \<Rightarrow> decision_row list" where
  "decisions_of tenant fid s =
     sort_key (\<lambda>d. (decided_at d, decision_id d))
       (filter (\<lambda>d. ad_tenant d = tenant \<and> ad_finding d = Some fid) (decisions s))"

definition add_action :: "action_row \<Rightarrow> adj_store \<Rightarrow> adj_store res" where
  "add_action a s =
     (if has_key action_id (action_id a) (actions s) \<or> ra_tenant a \<notin> set (tenant_ids s)
         \<or> \<not> has_key finding_id (ra_finding a) (findings s)
      then Inl IntegrityError else Inr (s\<lparr>actions := actions s @ [a]\<rparr>))"

definition put_action :: "action_row \<Rightarrow> adj_store \<Rightarrow> adj_store" where
  "put_action a s = s\<lparr>actions := put action_id a (actions s)\<rparr>"

definition get_action :: "ident \<Rightarrow> ident \<Rightarrow> adj_store \<Rightarrow> action_row option" where
  "get_action tenant aid s = find (\<lambda>a. ra_tenant a = tenant \<and> action_id a = aid) (actions s)"

definition actions_of :: "ident \<Rightarrow> ident \<Rightarrow> adj_store \<Rightarrow> action_row list" where
  "actions_of tenant fid s =
     sort_key ra_created_at (filter (\<lambda>a. ra_tenant a = tenant \<and> ra_finding a = fid) (actions s))"

definition open_action_for :: "ident \<Rightarrow> ident \<Rightarrow> adj_store \<Rightarrow> action_row option" where
  "open_action_for tenant fid s = first_row (actions_of tenant fid s)"

definition add_response :: "response_row \<Rightarrow> adj_store \<Rightarrow> adj_store res" where
  "add_response r s =
     (if has_key response_id (response_id r) (responses s)
         \<or> has_key (\<lambda>x. (mg_finding x, mg_version x)) (mg_finding r, mg_version r) (responses s)
         \<or> mg_tenant r \<notin> set (tenant_ids s) \<or> \<not> has_key finding_id (mg_finding r) (findings s)
      then Inl IntegrityError else Inr (s\<lparr>responses := responses s @ [r]\<rparr>))"

definition responses_of :: "ident \<Rightarrow> ident \<Rightarrow> adj_store \<Rightarrow> response_row list" where
  "responses_of tenant fid s =
     sort_key mg_version (filter (\<lambda>r. mg_tenant r = tenant \<and> mg_finding r = fid) (responses s))"

definition add_retest :: "retest_row \<Rightarrow> adj_store \<Rightarrow> adj_store res" where
  "add_retest r s =
     (if has_key retest_id (retest_id r) (retests s) \<or> rt_tenant r \<notin> set (tenant_ids s)
         \<or> \<not> has_key action_id (rt_action r) (actions s) \<or> \<not> optional_key (engagement_ids s) (rt_engagement r)
      then Inl IntegrityError else Inr (s\<lparr>retests := retests s @ [r]\<rparr>))"

definition retests_of :: "ident \<Rightarrow> ident \<Rightarrow> adj_store \<Rightarrow> retest_row list" where
  "retests_of tenant aid s =
     sort_key rt_created_at (filter (\<lambda>r. rt_tenant r = tenant \<and> rt_action r = aid) (retests s))"

definition add_assessment :: "assessment_row \<Rightarrow> adj_store \<Rightarrow> adj_store res" where
  "add_assessment a s =
     (if has_key assessment_id (assessment_id a) (assessments s) \<or> ma_tenant a \<notin> set (tenant_ids s)
         \<or> \<not> has_key finding_id (ma_finding a) (findings s) \<or> ma_score a < 0
      then Inl IntegrityError else Inr (s\<lparr>assessments := assessments s @ [a]\<rparr>))"

definition put_assessment :: "assessment_row \<Rightarrow> adj_store \<Rightarrow> adj_store" where
  "put_assessment a s = s\<lparr>assessments := put assessment_id a (assessments s)\<rparr>"

definition latest_assessment :: "ident \<Rightarrow> ident \<Rightarrow> string option \<Rightarrow> adj_store \<Rightarrow> assessment_row option" where
  "latest_assessment tenant fid digest s =
     first_row (sort_key (\<lambda>a. - assessed_at a)
       (filter (\<lambda>a. ma_tenant a = tenant \<and> ma_finding a = fid \<and> (digest = None \<or> Some (ma_content_hash a) = digest))
         (assessments s)))"

definition add_quality_review :: "review_row \<Rightarrow> adj_store \<Rightarrow> adj_store res" where
  "add_quality_review r s =
     (if has_key review_id (review_id r) (reviews s) \<or> qv_tenant r \<notin> set (tenant_ids s)
         \<or> \<not> has_key finding_id (qv_finding r) (findings s)
      then Inl IntegrityError else Inr (s\<lparr>reviews := reviews s @ [r]\<rparr>))"

definition passing_review :: "ident \<Rightarrow> ident \<Rightarrow> string \<Rightarrow> adj_store \<Rightarrow> review_row option" where
  "passing_review tenant fid digest s =
     first_row (sort_key (\<lambda>r. - reviewed_at r)
       (filter (\<lambda>r. qv_tenant r = tenant \<and> qv_finding r = fid \<and> qv_content_hash r = digest \<and> qv_passed r) (reviews s)))"

definition quality_reviews :: "ident \<Rightarrow> ident \<Rightarrow> adj_store \<Rightarrow> review_row list" where
  "quality_reviews tenant fid s =
     sort_key reviewed_at (filter (\<lambda>r. qv_tenant r = tenant \<and> qv_finding r = fid) (reviews s))"

definition add_dispute :: "dispute_row \<Rightarrow> adj_store \<Rightarrow> adj_store res" where
  "add_dispute d s =
     (if has_key dispute_id (dispute_id d) (disputes s)
         \<or> has_key (\<lambda>x. (ds_finding x, round_no x)) (ds_finding d, round_no d) (disputes s)
         \<or> ds_tenant d \<notin> set (tenant_ids s) \<or> \<not> has_key finding_id (ds_finding d) (findings s)
      then Inl IntegrityError else Inr (s\<lparr>disputes := disputes s @ [d]\<rparr>))"

definition put_dispute :: "dispute_row \<Rightarrow> adj_store \<Rightarrow> adj_store" where
  "put_dispute d s = s\<lparr>disputes := put dispute_id d (disputes s)\<rparr>"

definition get_dispute :: "ident \<Rightarrow> ident \<Rightarrow> adj_store \<Rightarrow> dispute_row option" where
  "get_dispute tenant did s = find (\<lambda>d. ds_tenant d = tenant \<and> dispute_id d = did) (disputes s)"

definition disputes_of :: "ident \<Rightarrow> ident \<Rightarrow> adj_store \<Rightarrow> dispute_row list" where
  "disputes_of tenant fid s =
     sort_key round_no (filter (\<lambda>d. ds_tenant d = tenant \<and> ds_finding d = fid) (disputes s))"

definition open_dispute :: "ident \<Rightarrow> ident \<Rightarrow> adj_store \<Rightarrow> dispute_row option" where
  "open_dispute tenant fid s =
     first_row (sort_key (\<lambda>d. - int (round_no d))
       (filter (\<lambda>d. ds_tenant d = tenant \<and> ds_finding d = fid \<and> ds_status d = ''open'') (disputes s)))"

end
