(* ===== verification/Adjudication.thy ===== *)
theory Adjudication
  imports Findings
begin

text \<open>
  The adjudication service (\<open>adjudication/service.py\<close>): every operation as the transaction it
  runs. The requests have passed the validation of their models (\<open>Finding_Types\<close>); an operation
  that raises is rolled back. The settings of the service are a record.
\<close>

record adj_config =
  agent_role_prefixes :: "string list"
  require_quality_review :: bool
  max_dispute_rounds :: int

definition default_config :: adj_config where
  "default_config = \<lparr>agent_role_prefixes = [''agent:'', ''svc:'', ''system:''], require_quality_review = True,
     max_dispute_rounds = 3\<rparr>"

definition automated_actor :: "adj_config \<Rightarrow> ident \<Rightarrow> bool" where
  "automated_actor cfg actor \<longleftrightarrow> starts_with (agent_role_prefixes cfg) (str_lower actor)"

primrec decision_target :: "human_decision \<Rightarrow> finding_status" where
  "decision_target APPROVE = APPROVED"
| "decision_target REJECT = REJECTED"
| "decision_target DEFER = DEFERRED"
| "decision_target ACCEPT_RISK = RISK_ACCEPTED"
| "decision_target RETURN_FOR_REWORK = PROPOSED"

section \<open>Internals\<close>

definition require_finding :: "ident \<Rightarrow> ident \<Rightarrow> adj_store \<Rightarrow> finding_row res" where
  "require_finding tenant fid s =
     (case get_finding tenant fid s of None \<Rightarrow> Inl (FindingNotFoundError fid) | Some f \<Rightarrow> Inr f)"

definition require_action :: "ident \<Rightarrow> ident \<Rightarrow> adj_store \<Rightarrow> action_row res" where
  "require_action tenant aid s =
     (case get_action tenant aid s of None \<Rightarrow> Inl (RemediationNotFoundError aid) | Some a \<Rightarrow> Inr a)"

definition require_transition :: "finding_status \<Rightarrow> finding_status \<Rightarrow> unit res" where
  "require_transition current target =
     (if target \<in> set (ALLOWED_TRANSITIONS current) then Inr ()
      else Inl (InvalidTransitionError (finding_status_value current) (finding_status_value target)))"

definition content_of :: "finding_row \<Rightarrow> finding_content" where
  "content_of f = \<lparr>fc_code = fn_code f, fc_title = fn_title f, fc_severity = fn_severity f, fc_criteria = fn_criteria f,
     fc_observed_condition = fn_observed_condition f, fc_risk_statement = fn_risk_statement f,
     fc_evidence_ids = fn_evidence_ids f, fc_exception_keys = fn_exception_keys f\<rparr>"

definition finding_hash :: "finding_row \<Rightarrow> adj_store \<Rightarrow> string" where
  "finding_hash f s = content_hash (sha256 s) (content_of f)"

definition emit ::
  "ident \<Rightarrow> ident option \<Rightarrow> ident \<Rightarrow> string \<Rightarrow> pydict \<Rightarrow> string \<Rightarrow> string \<Rightarrow> bool \<Rightarrow> 'a store_scheme \<Rightarrow> 'a store_scheme res"
where
  "emit tenant engagement aggregate_id etype data key aggregate_type outbox s =
     (let (eid, s1) = new_event_id s; (now, s2) = utc_now s1 in
      bind_res (append_event \<lparr>event_id = eid, event_type = etype, event_tenant = tenant, event_engagement = engagement,
                              event_task = None, occurred_at = now, payload = data\<rparr> s2)
        (\<lambda>s3. if outbox then outbox_add tenant aggregate_type aggregate_id etype data key s3 else Inr s3))"

definition decide :: "ident \<Rightarrow> finding_row \<Rightarrow> string \<Rightarrow> ident \<Rightarrow> string \<Rightarrow> adj_store \<Rightarrow> adj_store res" where
  "decide tenant f dtype actor reason s =
     (let (did, s1) = new_id ''apd'' s; (now, s2) = utc_now s1 in
      add_decision \<lparr>decision_id = did, ad_tenant = tenant, ad_engagement = Some (fn_engagement f),
        ad_finding = Some (finding_id f), decision_type = dtype, ad_actor_id = actor, ad_reason = reason,
        decided_at = now\<rparr> s2)"

definition open_gates :: "adj_config \<Rightarrow> ident \<Rightarrow> finding_row \<Rightarrow> adj_store \<Rightarrow> string list" where
  "open_gates cfg tenant f s =
     (let digest = finding_hash f s in
      (if open_dispute tenant (finding_id f) s \<noteq> None then [''an open dispute must be resolved before approval''] else []) @
      (if latest_assessment tenant (finding_id f) (Some digest) s = None
       then [''no materiality assessment exists for the current text of the finding''] else []) @
      (if require_quality_review cfg \<and> passing_review tenant (finding_id f) digest s = None
       then [if filter (\<lambda>r. qv_passed r \<and> qv_content_hash r \<noteq> digest) (quality_reviews tenant (finding_id f) s) \<noteq> []
             then ''the finding changed after its last passing quality review''
             else ''no passing quality review exists for the current text of the finding'']
       else []))"

definition require_approval_preconditions :: "adj_config \<Rightarrow> ident \<Rightarrow> finding_row \<Rightarrow> ident \<Rightarrow> adj_store \<Rightarrow> unit res" where
  "require_approval_preconditions cfg tenant f approver s =
     (let blockers = open_gates cfg tenant f s in
      if blockers \<noteq> [] then Inl (QualityGateError blockers)
      else if require_quality_review cfg then
        (case passing_review tenant (finding_id f) (finding_hash f s) s of
           None \<Rightarrow> Inr ()
         | Some r \<Rightarrow> if identity (qv_reviewer_id r) = identity approver then Inl (IndependenceError approver) else Inr ())
      else Inr ())"

definition text_or_empty :: "string option \<Rightarrow> string" where
  "text_or_empty x = (case x of None \<Rightarrow> [] | Some v \<Rightarrow> v)"

definition retest_conflicts :: "finding_row \<Rightarrow> action_row \<Rightarrow> string list" where
  "retest_conflicts f a =
     [identity (text_or_empty (fn_authored_by f)), identity (owner_ref a), identity (text_or_empty (completed_by a))]"

definition require_independence :: "finding_row \<Rightarrow> action_row \<Rightarrow> ident \<Rightarrow> unit res" where
  "require_independence f a performed_by =
     (if \<exists>actor \<in> set (retest_conflicts f a). actor \<noteq> [] \<and> actor = identity performed_by
      then Inl (IndependenceError performed_by) else Inr ())"

section \<open>Proposal\<close>

definition new_finding :: "ident \<Rightarrow> ident \<Rightarrow> ident \<Rightarrow> nat \<Rightarrow> proposed_finding \<Rightarrow> ident \<Rightarrow> skeptic_verdict \<Rightarrow> time \<Rightarrow> time \<Rightarrow> finding_row" where
  "new_finding fid tenant engagement version f authored_by v reviewed created =
     \<lparr>finding_id = fid, fn_tenant = tenant, fn_engagement = engagement, fn_code = pf_code f, fn_version = version,
      fn_title = pf_title f, fn_status = (if sv_supported v then PROPOSED else REJECTED), fn_severity = pf_severity f,
      fn_confidence = pf_confidence f, fn_business_objective = pf_business_objective f,
      fn_risk_statement = pf_risk_statement f, fn_criteria = pf_criteria f,
      fn_observed_condition = pf_observed_condition f, fn_cause = pf_cause f, fn_consequence = pf_consequence f,
      fn_affected_population = pf_affected_population f, fn_limitations = pf_limitations f,
      fn_requires_human_approval = True, fn_evidence_ids = pf_evidence_ids f,
      fn_contradictions = map contradiction_json (sv_contradictions v), fn_exception_keys = pf_exception_keys f,
      fn_skeptic_reviewed_at = Some reviewed,
      fn_skeptic_rationale = (if sv_rationale v = [] then None else Some (sv_rationale v)),
      fn_source_run_id = pf_source_run_id f, fn_authored_by = Some authored_by, fn_created_at = created\<rparr>"

definition propose ::
  "ident \<Rightarrow> ident \<Rightarrow> proposed_finding \<Rightarrow> ident \<Rightarrow> skeptic_reviewer option \<Rightarrow> cells list \<Rightarrow> adj_store
   \<Rightarrow> ((ident \<times> skeptic_verdict) \<times> adj_store) res"
where
  "propose tenant engagement f authored_by skeptic exception_rows s =
     bind_res (review (rendering s) (case skeptic of None \<Rightarrow> default_skeptic | Some k \<Rightarrow> k) f exception_rows) (\<lambda>v.
       let version = (case find_by_code tenant engagement (pf_code f) s of None \<Rightarrow> 1 | Some e \<Rightarrow> fn_version e + 1);
           (fid, s1) = new_id ''fnd'' s; (reviewed, s2) = utc_now s1; (created, s3) = utc_now s2;
           rec = new_finding fid tenant engagement version f authored_by v reviewed created
       in bind_res (add_finding rec s3) (\<lambda>s4.
          bind_res (if sv_supported v then Inr s4
                    else decide tenant rec ''skeptic_reject'' ''agent:skeptic'' (rejection_reason v) s4) (\<lambda>s5.
          bind_res (emit tenant (Some engagement) fid
             (if sv_supported v then ''finding.proposed'' else ''finding.skeptic_rejected'')
             [(''finding_id'', PStr fid), (''code'', PStr (pf_code f)), (''version'', PInt (int version)),
              (''severity'', PStr (pf_severity f)), (''status'', PStr (finding_status_value (fn_status rec))),
              (''authored_by'', PStr authored_by), (''evidence_ids'', PList (map PStr (pf_evidence_ids f))),
              (''contradictions'', PList (map contradiction_json (sv_contradictions v)))]
             (''finding-proposed:'' @ fid) ''finding'' True s5) (\<lambda>s6. Inr ((fid, v), s6)))))"

section \<open>Human adjudication\<close>

definition adjudicate :: "adj_config \<Rightarrow> ident \<Rightarrow> adjudication_request \<Rightarrow> adj_store \<Rightarrow> (finding_status \<times> adj_store) res" where
  "adjudicate cfg tenant r s =
     (if automated_actor cfg (ar_actor_id r) then Inl (HumanGateError (ar_actor_id r))
      else bind_res (require_finding tenant (ar_finding_id r) s) (\<lambda>f.
        let current = fn_status f; target = decision_target (ar_decision r);
            dtype = ''human:'' @ human_decision_value (ar_decision r)
        in if \<exists>d \<in> set (decisions_of tenant (finding_id f) s). decision_type d = dtype \<and> ad_actor_id d = ar_actor_id r
           then Inr (current, s)
           else bind_res
             (if ar_decision r = RETURN_FOR_REWORK
              then (if current = PROPOSED then Inr ()
                    else Inl (InvalidTransitionError (finding_status_value current) (finding_status_value target)))
              else require_transition current target) (\<lambda>_.
           bind_res (if ar_decision r = APPROVE then require_approval_preconditions cfg tenant f (ar_actor_id r) s else Inr ()) (\<lambda>_.
           bind_res (decide tenant f dtype (ar_actor_id r) (ar_reason r) (put_finding (f\<lparr>fn_status := target\<rparr>) s)) (\<lambda>s1.
           bind_res (emit tenant (Some (fn_engagement f)) (finding_id f) (''finding.'' @ human_decision_value (ar_decision r))
             [(''finding_id'', PStr (finding_id f)), (''code'', PStr (fn_code f)), (''status'', PStr (finding_status_value target)),
              (''actor_id'', PStr (ar_actor_id r)), (''reason'', PStr (ar_reason r))]
             (''finding-decision:'' @ ar_idempotency_key r) ''finding'' True s1) (\<lambda>s2. Inr (target, s2)))))))"

section \<open>Materiality\<close>

definition policy_json :: "materiality_policy \<Rightarrow> pydict" where
  "policy_json p =
     [(''policy_id'', PStr (policy_id p)), (''exception_rate_threshold'', PFloat (exception_rate_threshold p)),
      (''population_floor'', PInt (int (population_floor p))),
      (''monetary_threshold'', case monetary_threshold p of None \<Rightarrow> PNone | Some m \<Rightarrow> PFloat m),
      (''factor_weights'', PDict (map (\<lambda>(f, w). (factor_value f, PFloat w)) (factor_weights p))),
      (''severity_bands'', PList (map (\<lambda>(t, n). PList [PFloat t, PStr n]) (severity_bands p)))]"

definition factor_json :: "factor_assertion \<Rightarrow> pyval" where
  "factor_json a = PDict [(''factor'', PStr (factor_value (fa_factor a))), (''rationale'', PStr (fa_rationale a)),
     (''evidence_ids'', PList (map PStr (fa_evidence_ids a)))]"

definition opt_str :: "string option \<Rightarrow> pyval" where
  "opt_str x = (case x of None \<Rightarrow> PNone | Some v \<Rightarrow> PStr v)"

definition escalate :: "string \<Rightarrow> finding_row \<Rightarrow> finding_row" where
  "escalate minimum f = (if severity_rank (fn_severity f) < severity_rank minimum then f\<lparr>fn_severity := minimum\<rparr> else f)"

definition new_assessment ::
  "ident \<Rightarrow> ident \<Rightarrow> ident \<Rightarrow> string \<Rightarrow> materiality_policy \<Rightarrow> materiality_request \<Rightarrow> materiality_result \<Rightarrow> time \<Rightarrow> assessment_row"
where
  "new_assessment aid tenant fid digest p r result now =
     \<lparr>assessment_id = aid, ma_tenant = tenant, ma_finding = fid, ma_content_hash = digest, ma_policy_id = policy_id p,
      ma_policy = policy_json p, ma_population_size = mi_population_size (mq_inputs r),
      ma_exception_count = mi_exception_count (mq_inputs r), ma_monetary_exposure = mi_monetary_exposure (mq_inputs r),
      ma_factors = map factor_json (mi_factors (mq_inputs r)), ma_components = mr_components result,
      ma_score = mr_score result, ma_material = mr_material result, ma_severity_floor = mr_severity_floor result,
      ma_rationale = mr_rationale result, ma_assessed_by = mq_assessed_by r, assessed_at = now,
      override_severity_to = None, override_reason = None, override_by = None\<rparr>"

definition assess_materiality :: "ident \<Rightarrow> materiality_request \<Rightarrow> adj_store \<Rightarrow> (assessment_row \<times> adj_store) res" where
  "assess_materiality tenant r s =
     (let p = (case mq_policy r of None \<Rightarrow> default_policy | Some p \<Rightarrow> p); result = assess (mq_inputs r) (Some p) in
      bind_res (require_finding tenant (mq_finding_id r) s) (\<lambda>f.
        let f' = escalate (mr_severity_floor result) f;
            (aid, s1) = new_id ''mat'' (put_finding f' s); (now, s2) = utc_now s1;
            a = new_assessment aid tenant (finding_id f) (finding_hash f' s) p r result now
        in bind_res (add_assessment a s2) (\<lambda>s3.
           bind_res (emit tenant (Some (fn_engagement f)) (finding_id f) ''finding.materiality_assessed''
             [(''finding_id'', PStr (finding_id f)), (''assessment_id'', PStr aid), (''score'', PFloat (mr_score result)),
              (''material'', PBool (mr_material result)), (''severity_floor'', PStr (mr_severity_floor result)),
              (''severity_escalated_from'', if f' = f then PNone else PStr (fn_severity f)),
              (''policy_id'', PStr (policy_id p)), (''components'', PDict (mr_components result)),
              (''assessed_by'', PStr (mq_assessed_by r))]
             (''materiality:'' @ aid) ''finding'' True s3) (\<lambda>s4. Inr (a, s4)))))"

definition override_severity :: "adj_config \<Rightarrow> ident \<Rightarrow> severity_override_request \<Rightarrow> adj_store \<Rightarrow> (assessment_row \<times> adj_store) res" where
  "override_severity cfg tenant r s =
     (if automated_actor cfg (so_actor_id r) then Inl (HumanGateError (so_actor_id r))
      else bind_res (require_finding tenant (so_finding_id r) s) (\<lambda>f.
        case latest_assessment tenant (finding_id f) (Some (finding_hash f s)) s of
          None \<Rightarrow> Inl MaterialityError
        | Some a \<Rightarrow>
            if severity_rank (ma_severity_floor a) \<le> severity_rank (so_severity r) then Inl MaterialityError
            else
              let f' = f\<lparr>fn_severity := so_severity r\<rparr>;
                  a' = a\<lparr>override_severity_to := Some (so_severity r), override_reason := Some (so_reason r),
                         override_by := Some (so_actor_id r), ma_content_hash := finding_hash f' s\<rparr>
              in bind_res (decide tenant f ''human:severity_override'' (so_actor_id r) (so_reason r)
                    (put_assessment a' (put_finding f' s))) (\<lambda>s1.
                 bind_res (emit tenant (Some (fn_engagement f)) (finding_id f) ''finding.severity_overridden''
                   [(''finding_id'', PStr (finding_id f)), (''from_severity'', PStr (fn_severity f)),
                    (''to_severity'', PStr (so_severity r)), (''computed_floor'', PStr (ma_severity_floor a)),
                    (''actor_id'', PStr (so_actor_id r)), (''reason'', PStr (so_reason r))]
                   (''severity-override:'' @ finding_id f @ '':'' @ so_severity r) ''finding'' True s1) (\<lambda>s2. Inr (a', s2)))))"

section \<open>Quality review\<close>

definition summary_of :: "assessment_row \<Rightarrow> materiality_summary" where
  "summary_of a = \<lparr>ms_score = ma_score a, ms_severity_floor = ma_severity_floor a, ms_override_severity = override_severity_to a\<rparr>"

definition new_review :: "ident \<Rightarrow> ident \<Rightarrow> string \<Rightarrow> quality_review_request \<Rightarrow> quality_review_outcome \<Rightarrow> time \<Rightarrow> finding_row \<Rightarrow> review_row" where
  "new_review rid tenant digest r q now f =
     \<lparr>review_id = rid, qv_tenant = tenant, qv_finding = finding_id f, qv_content_hash = digest,
      qv_reviewer_id = qr_reviewer_id r, qv_passed = qo_passed q, qv_checks = map check_json (qo_checks q),
      qv_notes = qr_notes r, reviewed_at = now\<rparr>"

definition review_quality :: "ident \<Rightarrow> quality_review_request \<Rightarrow> adj_store \<Rightarrow> (quality_review_outcome \<times> adj_store) res" where
  "review_quality tenant r s =
     bind_res (require_finding tenant (qr_finding_id r) s) (\<lambda>f.
       let digest = finding_hash f s in
       bind_res (evaluate (qr_reviewer_id r) (fn_authored_by f) (fn_severity f) (fn_evidence_ids f) (fn_contradictions f)
          (fn_exception_keys f) (fn_criteria f) (fn_observed_condition f) (fn_limitations f)
          (map_option summary_of (latest_assessment tenant (finding_id f) (Some digest) s))
          (fn_skeptic_reviewed_at f \<noteq> None) digest) (\<lambda>q.
       let (rid, s1) = new_id ''qrv'' s; (now, s2) = utc_now s1 in
       bind_res (add_quality_review (new_review rid tenant digest r q now f) s2) (\<lambda>s3.
       bind_res (emit tenant (Some (fn_engagement f)) (finding_id f)
          (if qo_passed q then ''finding.quality_review_passed'' else ''finding.quality_review_failed'')
          [(''finding_id'', PStr (finding_id f)), (''reviewer_id'', PStr (qr_reviewer_id r)), (''passed'', PBool (qo_passed q)),
           (''content_hash'', PStr digest),
           (''failed_checks'', PList (map (\<lambda>c. PStr (quality_check_value (cr_check c))) (failures q))),
           (''summary'', PStr (summary q))]
          (''quality-review:'' @ rid) ''finding'' True s3) (\<lambda>s4. Inr (q, s4)))))"

section \<open>Disputes\<close>

definition new_dispute :: "ident \<Rightarrow> ident \<Rightarrow> nat \<Rightarrow> bool \<Rightarrow> dispute_request \<Rightarrow> time \<Rightarrow> finding_row \<Rightarrow> dispute_row" where
  "new_dispute did tenant n esc r now f =
     \<lparr>dispute_id = did, ds_tenant = tenant, ds_finding = finding_id f, round_no = n,
      ds_ground = dispute_ground_value (dq_ground r), ds_statement = dq_statement r, raised_by = dq_raised_by r,
      raised_at = now, ds_evidence_ids = dq_evidence_ids r, prior_status = fn_status f, ds_status = ''open'',
      ds_resolution = None, resolution_reason = None, resolved_by = None, resolved_at = None, escalated = esc\<rparr>"

definition raise_dispute :: "adj_config \<Rightarrow> ident \<Rightarrow> dispute_request \<Rightarrow> adj_store \<Rightarrow> (ident \<times> adj_store) res" where
  "raise_dispute cfg tenant r s =
     bind_res (require_finding tenant (dq_finding_id r) s) (\<lambda>f.
       if open_dispute tenant (finding_id f) s \<noteq> None then Inl DisputeError
       else bind_res (require_transition (fn_status f) DISPUTED) (\<lambda>_.
         let n = length (disputes_of tenant (finding_id f) s) + 1; esc = (max_dispute_rounds cfg < int n);
             (did, s1) = new_id ''dsp'' s; (now, s2) = utc_now s1
         in bind_res (add_dispute (new_dispute did tenant n esc r now f) s2) (\<lambda>s3.
            bind_res (emit tenant (Some (fn_engagement f)) (finding_id f) ''finding.disputed''
              [(''finding_id'', PStr (finding_id f)), (''dispute_id'', PStr did), (''round_no'', PInt (int n)),
               (''ground'', PStr (dispute_ground_value (dq_ground r))), (''raised_by'', PStr (dq_raised_by r)),
               (''prior_status'', PStr (finding_status_value (fn_status f))), (''escalated'', PBool esc),
               (''evidence_ids'', PList (map PStr (dq_evidence_ids r)))]
              (''dispute-raised:'' @ did) ''finding'' True (put_finding (f\<lparr>fn_status := DISPUTED\<rparr>) s3)) (\<lambda>s4. Inr (did, s4)))))"

definition resolution_target :: "dispute_resolution \<Rightarrow> dispute_row \<Rightarrow> finding_status" where
  "resolution_target res d = (case res of DR_UPHELD \<Rightarrow> prior_status d | DR_MODIFIED \<Rightarrow> PROPOSED | DR_WITHDRAWN \<Rightarrow> WITHDRAWN)"

definition resolve_dispute :: "adj_config \<Rightarrow> ident \<Rightarrow> dispute_resolution_request \<Rightarrow> adj_store \<Rightarrow> (finding_status \<times> adj_store) res" where
  "resolve_dispute cfg tenant r s =
     (if automated_actor cfg (dr_resolved_by r) then Inl (HumanGateError (dr_resolved_by r))
      else case get_dispute tenant (dr_dispute_id r) s of
        None \<Rightarrow> Inl DisputeError
      | Some d \<Rightarrow>
          if ds_status d \<noteq> ''open'' then Inl DisputeError
          else bind_res (require_finding tenant (ds_finding d) s) (\<lambda>f.
            let resolver = identity (dr_resolved_by r) in
            if resolver = identity (raised_by d) then Inl (IndependenceError (dr_resolved_by r))
            else if truthy (fn_authored_by f) \<and> resolver = identity (the (fn_authored_by f))
            then Inl (IndependenceError (dr_resolved_by r))
            else
              let target = resolution_target (dr_resolution r) d in
              bind_res (require_transition DISPUTED target) (\<lambda>_.
                let (now, s1) = utc_now s;
                    d' = d\<lparr>ds_status := ''resolved'', ds_resolution := Some (dispute_resolution_value (dr_resolution r)),
                           resolution_reason := Some (dr_reason r), resolved_by := Some (dr_resolved_by r),
                           resolved_at := Some now\<rparr>
                in bind_res (decide tenant f (''dispute:'' @ dispute_resolution_value (dr_resolution r)) (dr_resolved_by r)
                       (dr_reason r) (put_finding (f\<lparr>fn_status := target\<rparr>) (put_dispute d' s1))) (\<lambda>s2.
                   bind_res (emit tenant (Some (fn_engagement f)) (finding_id f)
                     (''finding.dispute_'' @ dispute_resolution_value (dr_resolution r))
                     [(''finding_id'', PStr (finding_id f)), (''dispute_id'', PStr (dispute_id d)),
                      (''round_no'', PInt (int (round_no d))),
                      (''resolution'', PStr (dispute_resolution_value (dr_resolution r))),
                      (''resolved_by'', PStr (dr_resolved_by r)), (''status'', PStr (finding_status_value target)),
                      (''reason'', PStr (dr_reason r))]
                     (''dispute-resolved:'' @ dispute_id d) ''finding'' True s2) (\<lambda>s3. Inr (target, s3))))))"

end
