(* ===== verification/Remediation.thy ===== *)
theory Remediation
  imports Adjudication
begin

text \<open>
  The second half of the adjudication service (\<open>adjudication/service.py\<close>): remediation, the
  ticket in an external system (\<open>adjudication/ticketing.py\<close>, the writer is a parameter), closure,
  independent retest, recurrence and the read views.
\<close>

section \<open>Remediation\<close>

definition new_action :: "ident \<Rightarrow> ident \<Rightarrow> remediation_request \<Rightarrow> time \<Rightarrow> finding_row \<Rightarrow> action_row" where
  "new_action aid tenant r now f =
     \<lparr>action_id = aid, ra_tenant = tenant, ra_finding = finding_id f, owner_ref = rq_owner_ref r, ra_status = ''open'',
      due_date = rq_due_date r, action_plan = rq_action_plan r, escalation_policy = rq_escalation_policy r,
      closure_evidence_required = rq_closure_evidence_required r, declared_complete_at = None,
      ra_idempotency_key = Some (rq_idempotency_key r), external_system = rq_external_system r,
      external_target = rq_external_target r, external_ref = None, external_url = None,
      external_sync_state = (if rq_external_system r = ''none'' then ''not_applicable'' else ''pending''),
      external_synced_at = None, external_error = None, completed_by = None, ra_created_at = now\<rparr>"

definition open_remediation :: "ident \<Rightarrow> remediation_request \<Rightarrow> adj_store \<Rightarrow> ((ident \<times> bool) \<times> adj_store) res" where
  "open_remediation tenant r s =
     bind_res (require_finding tenant (rq_finding_id r) s) (\<lambda>f.
       case open_action_for tenant (finding_id f) s of
         Some a \<Rightarrow>
           if truthy (ra_idempotency_key a) \<and> ra_idempotency_key a \<noteq> Some (rq_idempotency_key r)
              \<and> action_plan a \<noteq> rq_action_plan r
           then Inl IdempotencyConflictError else Inr ((action_id a, False), s)
       | None \<Rightarrow>
           bind_res (require_transition (fn_status f) REMEDIATION_OPEN) (\<lambda>_.
             let (aid, s1) = new_id ''rma'' s; (now, s2) = utc_now s1 in
             bind_res (add_action (new_action aid tenant r now f) s2) (\<lambda>s3.
             bind_res (emit tenant (Some (fn_engagement f)) aid ''remediation.opened''
               [(''action_id'', PStr aid), (''finding_id'', PStr (finding_id f)), (''owner_ref'', PStr (rq_owner_ref r)),
                (''due_date'', PStr (date_text (rendering s) (rq_due_date r))), (''external_system'', PStr (rq_external_system r)),
                (''closure_evidence_required'', PBool (rq_closure_evidence_required r))]
               (''remediation-opened:'' @ aid) ''remediation_action'' True (put_finding (f\<lparr>fn_status := REMEDIATION_OPEN\<rparr>) s3))
             (\<lambda>s4. Inr ((aid, True), s4)))))"

section \<open>External tickets\<close>

definition correlation_key :: "ident \<Rightarrow> string" where
  "correlation_key aid = ''assuranceos:'' @ aid"

record ticket_request =
  tq_action_id :: ident
  tq_finding_code :: string
  tq_title :: string
  tq_description :: string
  tq_owner_ref :: ident
  tq_due_date :: date
  tq_severity :: string
  tq_project_or_table :: string
  tq_labels :: "string list"

record ticket_ref =
  tr_system :: string
  tr_external_ref :: string
  tr_url :: "string option"
  tr_created :: bool
  tr_details :: pydict

text \<open>
  A writer files tickets in one system. Its call takes time, so besides a ticket or the text of
  the exception it raised it yields the state of the store when it returns.
\<close>

record ticket_writer =
  tw_system :: string
  tw_create_or_get :: "ticket_request \<Rightarrow> adj_store \<Rightarrow> (string + ticket_ref) \<times> adj_store"

definition null_ticket_writer :: ticket_writer where
  "null_ticket_writer = \<lparr>tw_system = ''none'', tw_create_or_get = (\<lambda>q s.
     (Inr \<lparr>tr_system = ''none'', tr_external_ref = correlation_key (tq_action_id q), tr_url = None, tr_created = False,
           tr_details = [(''tracked_in'', PStr ''assuranceos'')]\<rparr>, s))\<rparr>"

definition blank_line :: string where
  "blank_line = [CHR 0x0A, CHR 0x0A]"

definition ticket_request_for :: "action_row \<Rightarrow> finding_row \<Rightarrow> ticket_request" where
  "ticket_request_for a f =
     \<lparr>tq_action_id = action_id a, tq_finding_code = fn_code f, tq_title = ''['' @ fn_code f @ ''] '' @ fn_title f,
      tq_description = ''Remediation for AssuranceOS finding '' @ fn_code f @ '' (severity '' @ fn_severity f @ '').'' @ blank_line @
        ''Criteria: '' @ fn_criteria f @ blank_line @ ''Observed condition: '' @ fn_observed_condition f @ blank_line @
        ''Agreed action: '' @ action_plan a,
      tq_owner_ref = owner_ref a, tq_due_date = due_date a, tq_severity = fn_severity f,
      tq_project_or_table = (if truthy (external_target a) then the (external_target a) else ''none''),
      tq_labels = [''assuranceos'', ''finding-'' @ str_lower (fn_code f)]\<rparr>"

definition existing_ticket :: "action_row \<Rightarrow> string \<Rightarrow> pydict" where
  "existing_ticket a reason =
     [(''action_id'', PStr (action_id a)), (''external_system'', PStr (external_system a)),
      (''external_ref'', opt_str (external_ref a)), (''external_url'', opt_str (external_url a)),
      (''created'', PBool False), (''reason'', PStr reason)]"

text \<open>The first, reading transaction: either there is a ticket, or what to file.\<close>

definition ticket_to_file :: "ident \<Rightarrow> ident \<Rightarrow> ticket_writer \<Rightarrow> adj_store \<Rightarrow> (pydict + (finding_row \<times> ticket_request)) res" where
  "ticket_to_file tenant aid w s =
     bind_res (require_action tenant aid s) (\<lambda>a.
     bind_res (require_finding tenant (ra_finding a) s) (\<lambda>f.
       if truthy (external_ref a) then Inr (Inl (existing_ticket a ''already filed''))
       else if tw_system w \<noteq> external_system a then Inl TicketingError
       else if external_system a \<noteq> ''none'' \<and> \<not> truthy (external_target a) then Inl TicketingError
       else Inr (Inr (f, ticket_request_for a f))))"

definition ticket_failed :: "ident \<Rightarrow> ident \<Rightarrow> finding_row \<Rightarrow> string \<Rightarrow> string \<Rightarrow> adj_store \<Rightarrow> adj_store res" where
  "ticket_failed tenant aid f system text s =
     emit tenant (Some (fn_engagement f)) aid ''remediation.ticket_failed''
       [(''action_id'', PStr aid), (''finding_id'', PStr (finding_id f)), (''external_system'', PStr system),
        (''error'', PStr (take 1000 text))]
       (''ticket-failed:'' @ aid) ''remediation_action'' False
       (case get_action tenant aid s of
          None \<Rightarrow> s
        | Some a \<Rightarrow> put_action (a\<lparr>external_sync_state := ''failed'', external_error := Some (take 4000 text)\<rparr>) s)"

definition ticket_filed :: "ident \<Rightarrow> ident \<Rightarrow> finding_row \<Rightarrow> ticket_ref \<Rightarrow> adj_store \<Rightarrow> (pydict \<times> adj_store) res" where
  "ticket_filed tenant aid f t s =
     bind_res (require_action tenant aid s) (\<lambda>a.
       if truthy (external_ref a) then Inr (existing_ticket a ''filed concurrently'', s)
       else
         let (now, s1) = utc_now s;
             a' = a\<lparr>external_ref := Some (tr_external_ref t), external_url := tr_url t, external_sync_state := ''synced'',
                    external_synced_at := Some now, external_error := None\<rparr>
         in bind_res (emit tenant (Some (fn_engagement f)) aid
              (if tr_created t then ''remediation.ticket_filed'' else ''remediation.ticket_reconciled'')
              [(''action_id'', PStr aid), (''finding_id'', PStr (finding_id f)), (''external_system'', PStr (tr_system t)),
               (''external_ref'', PStr (tr_external_ref t)), (''external_url'', opt_str (tr_url t)),
               (''correlation_key'', PStr (correlation_key aid)), (''created'', PBool (tr_created t))]
              (if tr_created t then ''ticket-filed:'' @ aid else ''ticket-reconciled:'' @ aid @ '':'' @ tr_external_ref t)
              ''remediation_action'' True (put_action a' s1))
            (\<lambda>s2. Inr ([(''action_id'', PStr aid), (''external_system'', PStr (tr_system t)),
              (''external_ref'', PStr (tr_external_ref t)), (''external_url'', opt_str (tr_url t)),
              (''created'', PBool (tr_created t)), (''correlation_key'', PStr (correlation_key aid))], s2)))"

text \<open>
  The provider is called between two transactions, so a failed call leaves its record and still
  raises: the result comes with the state in every case.
\<close>

definition sync_remediation_ticket :: "ident \<Rightarrow> ident \<Rightarrow> ticket_writer option \<Rightarrow> adj_store \<Rightarrow> pydict res \<times> adj_store" where
  "sync_remediation_ticket tenant aid writer s =
     (let w = (case writer of None \<Rightarrow> null_ticket_writer | Some w \<Rightarrow> w) in
      case ticket_to_file tenant aid w s of
        Inl x \<Rightarrow> (Inl x, s)
      | Inr (Inl report) \<Rightarrow> (Inr report, s)
      | Inr (Inr (f, q)) \<Rightarrow>
          (case tw_create_or_get w q s of
             (Inl text, s1) \<Rightarrow>
               (case ticket_failed tenant aid f (tw_system w) text s1 of Inl x \<Rightarrow> (Inl x, s1) | Inr s2 \<Rightarrow> (Inl TicketingError, s2))
           | (Inr t, s1) \<Rightarrow>
               (case ticket_filed tenant aid f t s1 of Inl x \<Rightarrow> (Inl x, s1) | Inr (report, s2) \<Rightarrow> (Inr report, s2))))"

section \<open>Closure and retest\<close>

definition new_response ::
  "ident \<Rightarrow> ident \<Rightarrow> nat \<Rightarrow> closure_submission \<Rightarrow> time \<Rightarrow> finding_row \<Rightarrow> action_row \<Rightarrow> response_row"
where
  "new_response rid tenant version r now f a =
     \<lparr>response_id = rid, mg_tenant = tenant, mg_finding = finding_id f, mg_version = version,
      response_text = cs_response_text r,
      mg_action_plan = Some (if truthy (cs_action_plan r) then the (cs_action_plan r) else action_plan a),
      submitted_by = cs_submitted_by r, submitted_at = now, closure_evidence_ids = cs_closure_evidence_ids r\<rparr>"

definition submit_closure :: "ident \<Rightarrow> closure_submission \<Rightarrow> adj_store \<Rightarrow> (ident \<times> adj_store) res" where
  "submit_closure tenant r s =
     bind_res (require_action tenant (cs_action_id r) s) (\<lambda>a.
     bind_res (require_finding tenant (ra_finding a) s) (\<lambda>f.
       if closure_evidence_required a \<and> cs_closure_evidence_ids r = [] then Inl ClosureEvidenceError
       else bind_res (require_transition (fn_status f) REMEDIATION_DECLARED_COMPLETE) (\<lambda>_.
         let version = length (responses_of tenant (finding_id f) s) + 1;
             (rid, s1) = new_id ''mgr'' s; (now, s2) = utc_now s1
         in bind_res (add_response (new_response rid tenant version r now f a) s2) (\<lambda>s3.
            let (declared, s4) = utc_now s3;
                a' = a\<lparr>ra_status := ''declared_complete'', declared_complete_at := Some declared,
                       completed_by := Some (cs_submitted_by r)\<rparr>
            in bind_res (emit tenant (Some (fn_engagement f)) (action_id a) ''remediation.closure_submitted''
                 [(''action_id'', PStr (action_id a)), (''finding_id'', PStr (finding_id f)), (''response_id'', PStr rid),
                  (''submitted_by'', PStr (cs_submitted_by r)),
                  (''closure_evidence_ids'', PList (map PStr (cs_closure_evidence_ids r)))]
                 (''closure-submitted:'' @ rid) ''remediation_action'' True
                 (put_finding (f\<lparr>fn_status := REMEDIATION_DECLARED_COMPLETE\<rparr>) (put_action a' s4)))
               (\<lambda>s5. Inr (rid, s5))))))"

definition new_retest ::
  "ident \<Rightarrow> ident \<Rightarrow> retest_request \<Rightarrow> finding_status \<Rightarrow> time \<Rightarrow> time \<Rightarrow> finding_row \<Rightarrow> action_row \<Rightarrow> adj_store \<Rightarrow> retest_row"
where
  "new_retest rid tenant r final completed created f a s =
     \<lparr>retest_id = rid, rt_tenant = tenant, rt_action = action_id a, rt_engagement = Some (fn_engagement f),
      rt_status = ''completed'', rt_outcome = Some (retest_outcome_value (rr_outcome r)), rt_procedure_ref = rr_procedure_ref r,
      rt_performed_by = Some (rr_performed_by r),
      rt_result = [(''detail'', PStr (rr_detail r)),
        (''fresh_evidence_collected_at'', opt_str (map_option (isoformat s) (rr_fresh_evidence_collected_at r))),
        (''resulting_status'', PStr (finding_status_value final))],
      rt_completed_at = Some completed, rt_evidence_ids = rr_evidence_ids r, rt_idempotency_key = Some (rr_idempotency_key r),
      rt_independence_basis = [(''authored_by'', opt_str (fn_authored_by f)), (''remediated_by'', opt_str (completed_by a)),
        (''performed_by'', PStr (rr_performed_by r))],
      rt_created_at = created\<rparr>"

definition retest :: "ident \<Rightarrow> retest_request \<Rightarrow> adj_store \<Rightarrow> ((ident \<times> finding_status) \<times> adj_store) res" where
  "retest tenant r s =
     bind_res (require_action tenant (rr_action_id r) s) (\<lambda>a.
     bind_res (require_finding tenant (ra_finding a) s) (\<lambda>f.
     bind_res (require_independence f a (rr_performed_by r)) (\<lambda>_.
       case find (\<lambda>p. rt_idempotency_key p = Some (rr_idempotency_key r)) (retests_of tenant (action_id a) s) of
         Some p \<Rightarrow> Inr ((retest_id p, fn_status f), s)
       | None \<Rightarrow>
           bind_res (require_transition (fn_status f) RETEST_IN_PROGRESS) (\<lambda>_.
             let closed = rr_outcome r \<in> CLOSING_OUTCOMES in
             if closed \<and> rr_evidence_ids r = [] then Inl ClosureEvidenceError
             else
               let final = (if closed then CLOSED_VERIFIED else REOPENED);
                   (rid, s1) = new_id ''rts'' s; (completed, s2) = utc_now s1; (created, s3) = utc_now s2
               in bind_res (add_retest (new_retest rid tenant r final completed created f a s) s3) (\<lambda>s4.
                  bind_res (emit tenant (Some (fn_engagement f)) (finding_id f)
                    (if closed then ''finding.closed_verified'' else ''finding.reopened'')
                    [(''finding_id'', PStr (finding_id f)), (''action_id'', PStr (action_id a)), (''retest_id'', PStr rid),
                     (''outcome'', PStr (retest_outcome_value (rr_outcome r))), (''performed_by'', PStr (rr_performed_by r)),
                     (''status'', PStr (finding_status_value final)), (''evidence_ids'', PList (map PStr (rr_evidence_ids r)))]
                    (''retest-completed:'' @ rid) ''finding'' True
                    (put_finding (f\<lparr>fn_status := final\<rparr>)
                      (put_action (a\<lparr>ra_status := (if closed then ''closed'' else ''reopened'')\<rparr>) s4)))
                  (\<lambda>s5. Inr ((rid, final), s5)))))))"

definition reopen_for_remediation :: "ident \<Rightarrow> ident \<Rightarrow> remediation_request \<Rightarrow> adj_store \<Rightarrow> (ident \<times> adj_store) res" where
  "reopen_for_remediation tenant fid r s =
     bind_res (require_finding tenant fid s) (\<lambda>f.
     bind_res (require_transition (fn_status f) REMEDIATION_OPEN) (\<lambda>_.
       case open_action_for tenant fid s of
         None \<Rightarrow> Inl (RemediationNotFoundError fid)
       | Some a \<Rightarrow>
           let a' = a\<lparr>ra_status := ''open'', due_date := rq_due_date r, action_plan := rq_action_plan r,
                      declared_complete_at := None, completed_by := None\<rparr>
           in bind_res (emit tenant (Some (fn_engagement f)) (action_id a) ''remediation.reopened''
                [(''action_id'', PStr (action_id a)), (''finding_id'', PStr fid),
                 (''due_date'', PStr (date_text (rendering s) (rq_due_date r)))]
                (''remediation-reopened:'' @ action_id a @ '':'' @ rq_idempotency_key r) ''remediation_action'' True
                (put_finding (f\<lparr>fn_status := REMEDIATION_OPEN\<rparr>) (put_action a' s)))
              (\<lambda>s1. Inr (action_id a, s1))))"

end
