(* ===== verification/Finding_Views.thy ===== *)
theory Finding_Views
  imports Remediation
begin

text \<open>
  The reading side of the adjudication service (\<open>adjudication/service.py\<close>): recurrence across
  engagements, the full view of a finding, the gates that are still open, listings, and the
  finding an agent builds from accepted exceptions.
\<close>

section \<open>Recurrence\<close>

definition recurrence :: "ident \<Rightarrow> string \<Rightarrow> adj_store \<Rightarrow> recurrence_match option" where
  "recurrence tenant code s =
     (let raised = filter (\<lambda>f. fn_status f \<noteq> REJECTED) (list_findings_by_code tenant code s);
          engagements = sort (remdups (map fn_engagement raised))
      in if length engagements < 2 then None
         else Some \<lparr>rm_code = code, rm_engagement_ids = engagements, rm_occurrences = length raised,
                    rm_latest_status = fn_status (last raised)\<rparr>)"

section \<open>Views\<close>

definition retest_view :: "retest_row \<Rightarrow> pydict" where
  "retest_view r =
     [(''retest_id'', PStr (retest_id r)), (''action_id'', PStr (rt_action r)), (''outcome'', opt_str (rt_outcome r)),
      (''performed_by'', opt_str (rt_performed_by r)), (''evidence_ids'', PList (map PStr (rt_evidence_ids r))),
      (''independence_basis'', PDict (rt_independence_basis r))]"

definition materiality_view :: "assessment_row \<Rightarrow> pydict" where
  "materiality_view a =
     [(''assessment_id'', PStr (assessment_id a)), (''score'', PFloat (ma_score a)), (''material'', PBool (ma_material a)),
      (''severity_floor'', PStr (ma_severity_floor a)), (''policy_id'', PStr (ma_policy_id a)),
      (''components'', PDict (ma_components a)), (''rationale'', PStr (ma_rationale a)), (''assessed_by'', PStr (ma_assessed_by a)),
      (''override_severity'', opt_str (override_severity_to a)), (''override_reason'', opt_str (override_reason a)),
      (''override_by'', opt_str (override_by a))]"

text \<open>The checks are read back from their stored JSON.\<close>

fun failed_check_name :: "pyval \<Rightarrow> pyval list" where
  "failed_check_name (PDict d) =
     (case map_of d ''passed'' of Some (PBool True) \<Rightarrow> []
      | _ \<Rightarrow> (case map_of d ''check'' of Some v \<Rightarrow> [v] | None \<Rightarrow> []))"
| "failed_check_name _ = []"

definition review_view :: "string \<Rightarrow> adj_store \<Rightarrow> review_row \<Rightarrow> pydict" where
  "review_view digest s r =
     [(''review_id'', PStr (review_id r)), (''reviewer_id'', PStr (qv_reviewer_id r)), (''passed'', PBool (qv_passed r)),
      (''content_hash'', PStr (qv_content_hash r)), (''applies_to_current_text'', PBool (qv_content_hash r = digest)),
      (''failed_checks'', PList (concat (map failed_check_name (qv_checks r)))), (''notes'', opt_str (qv_notes r)),
      (''reviewed_at'', PStr (isoformat s (reviewed_at r)))]"

definition dispute_view :: "dispute_row \<Rightarrow> pydict" where
  "dispute_view d =
     [(''dispute_id'', PStr (dispute_id d)), (''round_no'', PInt (int (round_no d))), (''ground'', PStr (ds_ground d)),
      (''statement'', PStr (ds_statement d)), (''raised_by'', PStr (raised_by d)), (''status'', PStr (ds_status d)),
      (''resolution'', opt_str (ds_resolution d)), (''resolution_reason'', opt_str (resolution_reason d)),
      (''resolved_by'', opt_str (resolved_by d)), (''escalated'', PBool (escalated d)),
      (''evidence_ids'', PList (map PStr (ds_evidence_ids d)))]"

definition decision_view :: "adj_store \<Rightarrow> decision_row \<Rightarrow> pydict" where
  "decision_view s d =
     [(''decision_id'', PStr (decision_id d)), (''decision_type'', PStr (decision_type d)), (''actor_id'', PStr (ad_actor_id d)),
      (''reason'', PStr (ad_reason d)), (''decided_at'', PStr (isoformat s (decided_at d)))]"

definition action_view :: "adj_store \<Rightarrow> action_row \<Rightarrow> pydict" where
  "action_view s a =
     [(''action_id'', PStr (action_id a)), (''status'', PStr (ra_status a)), (''owner_ref'', PStr (owner_ref a)),
      (''due_date'', PStr (date_text (rendering s) (due_date a))), (''external_system'', PStr (external_system a)),
      (''external_target'', opt_str (external_target a)), (''external_ref'', opt_str (external_ref a)),
      (''external_url'', opt_str (external_url a)), (''external_sync_state'', PStr (external_sync_state a)),
      (''completed_by'', opt_str (completed_by a))]"

definition view :: "adj_config \<Rightarrow> ident \<Rightarrow> ident \<Rightarrow> adj_store \<Rightarrow> finding_view res" where
  "view cfg tenant fid s =
     bind_res (require_finding tenant fid s) (\<lambda>f.
       let digest = finding_hash f s; blockers = open_gates cfg tenant f s; acts = actions_of tenant fid s in
       Inr \<lparr>fv_finding_id = finding_id f, fv_tenant = fn_tenant f, fv_engagement = fn_engagement f, fv_code = fn_code f,
            fv_version = fn_version f, fv_title = fn_title f, fv_status = fn_status f, fv_severity = fn_severity f,
            fv_confidence = fn_confidence f, fv_requires_human_approval = fn_requires_human_approval f,
            fv_evidence_ids = fn_evidence_ids f, fv_limitations = fn_limitations f,
            fv_decisions = map (decision_view s) (decisions_of tenant fid s),
            fv_actions = map (action_view s) acts,
            fv_retests = map retest_view (concat (map (\<lambda>a. retests_of tenant (action_id a) s) acts)),
            fv_content_hash = digest,
            fv_materiality = map_option materiality_view (latest_assessment tenant (finding_id f) (Some digest) s),
            fv_quality_reviews = map (review_view digest s) (quality_reviews tenant fid s),
            fv_disputes = map dispute_view (disputes_of tenant fid s),
            fv_approval_ready = (blockers = []), fv_approval_blockers = blockers\<rparr>)"

definition list_findings :: "ident \<Rightarrow> ident option \<Rightarrow> adj_store \<Rightarrow> pydict list" where
  "list_findings tenant engagement s =
     map (\<lambda>f. [(''finding_id'', PStr (finding_id f)), (''code'', PStr (fn_code f)), (''version'', PInt (int (fn_version f))),
       (''title'', PStr (fn_title f)), (''status'', PStr (finding_status_value (fn_status f))),
       (''severity'', PStr (fn_severity f)), (''engagement_id'', PStr (fn_engagement f))])
       (repo_list_findings tenant engagement s)"

definition get_remediation_action :: "ident \<Rightarrow> ident \<Rightarrow> adj_store \<Rightarrow> pydict res" where
  "get_remediation_action tenant aid s =
     bind_res (require_action tenant aid s) (\<lambda>a. Inr
       [(''action_id'', PStr (action_id a)), (''external_system'', PStr (external_system a)),
        (''external_target'', opt_str (external_target a)), (''external_ref'', opt_str (external_ref a))])"

definition approval_blockers :: "adj_config \<Rightarrow> ident \<Rightarrow> ident \<Rightarrow> adj_store \<Rightarrow> string list" where
  "approval_blockers cfg tenant fid s =
     (case get_finding tenant fid s of
        None \<Rightarrow> []
      | Some f \<Rightarrow> if fn_status f \<noteq> PROPOSED then [] else open_gates cfg tenant f s)"

section \<open>A finding from exceptions\<close>

definition finding_from_exceptions ::
  "renderings \<Rightarrow> string \<Rightarrow> string \<Rightarrow> string \<Rightarrow> string \<Rightarrow> string \<Rightarrow> cells list \<Rightarrow> string list \<Rightarrow> string option \<Rightarrow> rat
   \<Rightarrow> (date \<times> date) option \<Rightarrow> string list \<Rightarrow> proposed_finding res"
where
  "finding_from_exceptions rd code title severity criteria risk_statement exceptions evidence source_run confidence period limitations =
     (let subjects = map (counted_subject rd) exceptions;
          condition = (if subjects = [] then ''no exceptions identified''
             else counted (length subjects) ''exception'' None @ '' identified: '' @ join '', '' (take 20 (sort subjects)))
            @ (case period of None \<Rightarrow> [] | Some (a, b) \<Rightarrow> '' (period '' @ date_text rd a @ '' to '' @ date_text rd b @ '')'');
          f = \<lparr>pf_code = code, pf_title = title, pf_severity = severity, pf_confidence = confidence, pf_criteria = criteria,
               pf_observed_condition = condition, pf_risk_statement = risk_statement, pf_cause = None, pf_consequence = None,
               pf_business_objective = None, pf_evidence_ids = evidence,
               pf_exception_keys = map (\<lambda>r. cell_str rd (cell_get r ''exception_key'')) exceptions,
               pf_affected_population = [(''exception_count'', PInt (int (length subjects))), (''subjects'', PList (map PStr (sort subjects)))],
               pf_limitations = limitations, pf_source_run_id = source_run\<rparr>
      in if proposed_finding_ok f then Inr f else Inl ValidationError)"

end
