(* ===== verification/Adj_Spec.thy ===== *)
theory Adj_Spec
  imports Remediation Outbox
begin

text \<open>
  The contract of the adjudication service: which changes of the tables its transactions make,
  as a relation with one rule per kind of transaction. A rule keeps the guards the properties rest
  on and leaves out the ledger. Requests of clients are the operations of \<open>adj_step\<close>.
\<close>

section \<open>Operations\<close>

datatype adj_op =
    AddTenantId ident
  | AddEngagementId ident
  | Propose ident ident proposed_finding ident "skeptic_reviewer option" "cells list"
  | Adjudicate ident adjudication_request
  | AssessMateriality ident materiality_request
  | OverrideSeverity ident severity_override_request
  | ReviewQuality ident quality_review_request
  | RaiseDispute ident dispute_request
  | ResolveDispute ident dispute_resolution_request
  | OpenRemediation ident remediation_request
  | TicketFailed ident ident finding_row string string
  | TicketFiled ident ident finding_row ticket_ref
  | SubmitClosure ident closure_submission
  | PerformRetest ident retest_request
  | ReopenForRemediation ident ident remediation_request
  | DispatchClaim ident time int int
  | DispatchPublished ident ident string time
  | DispatchFailed ident ident string time rat bool

text \<open>A request that its model refuses never reaches the service.\<close>

definition validated :: "bool \<Rightarrow> ('a \<times> adj_store) res \<Rightarrow> adj_store res" where
  "validated ok m = (if ok then bind_res m (\<lambda>(_, s). Inr s) else Inl ValidationError)"

fun adj_step :: "adj_config \<Rightarrow> adj_op \<Rightarrow> adj_store \<Rightarrow> adj_store res" where
  "adj_step cfg (AddTenantId i) s = Inr (s\<lparr>tenant_ids := i # tenant_ids s\<rparr>)"
| "adj_step cfg (AddEngagementId i) s = Inr (s\<lparr>engagement_ids := i # engagement_ids s\<rparr>)"
| "adj_step cfg (Propose tenant eng f author sk rows) s = validated (proposed_finding_ok f) (propose tenant eng f author sk rows s)"
| "adj_step cfg (Adjudicate tenant r) s = validated (adjudication_request_ok r) (adjudicate cfg tenant r s)"
| "adj_step cfg (AssessMateriality tenant r) s = validated (materiality_request_ok r) (assess_materiality tenant r s)"
| "adj_step cfg (OverrideSeverity tenant r) s = validated (severity_override_request_ok r) (override_severity cfg tenant r s)"
| "adj_step cfg (ReviewQuality tenant r) s = validated (quality_review_request_ok r) (review_quality tenant r s)"
| "adj_step cfg (RaiseDispute tenant r) s = validated (dispute_request_ok r) (raise_dispute cfg tenant r s)"
| "adj_step cfg (ResolveDispute tenant r) s = validated (dispute_resolution_request_ok r) (resolve_dispute cfg tenant r s)"
| "adj_step cfg (OpenRemediation tenant r) s = validated (remediation_request_ok r) (open_remediation tenant r s)"
| "adj_step cfg (TicketFailed tenant aid f system msg) s = ticket_failed tenant aid f system msg s"
| "adj_step cfg (TicketFiled tenant aid f t) s = validated True (ticket_filed tenant aid f t s)"
| "adj_step cfg (SubmitClosure tenant r) s = validated (closure_submission_ok r) (submit_closure tenant r s)"
| "adj_step cfg (PerformRetest tenant r) s = validated (retest_request_ok r) (retest tenant r s)"
| "adj_step cfg (ReopenForRemediation tenant fid r) s = validated (remediation_request_ok r) (reopen_for_remediation tenant fid r s)"
| "adj_step cfg (DispatchClaim w now secs limit) s = validated True (outbox_claim w now secs limit s)"
| "adj_step cfg (DispatchPublished oid w mid now) s = Inr (snd (mark_published oid w now mid s))"
| "adj_step cfg (DispatchFailed oid w err now delay dead) s = Inr (snd (mark_failed oid w now err delay dead s))"

section \<open>Tables\<close>

definition tabs :: "adj_store \<Rightarrow> _" where
  "tabs s = (tenant_ids s, engagement_ids s, findings s, decisions s, responses s, actions s, assessments s, reviews s,
     disputes s, retests s, sha256 s, rendering s)"

definition human_verdict :: "adj_config \<Rightarrow> ident \<Rightarrow> ident \<Rightarrow> string \<Rightarrow> ident \<Rightarrow> decision_row \<Rightarrow> bool" where
  "human_verdict cfg tenant fid dtype actor d \<longleftrightarrow>
     ad_tenant d = tenant \<and> ad_finding d = Some fid \<and> decision_type d = dtype \<and> ad_actor_id d = actor \<and>
     \<not> automated_actor cfg actor"

text \<open>The same remediation, whatever its ticket.\<close>

definition same_remediation :: "action_row \<Rightarrow> action_row \<Rightarrow> bool" where
  "same_remediation a a' \<longleftrightarrow>
     action_id a' = action_id a \<and> ra_tenant a' = ra_tenant a \<and> ra_finding a' = ra_finding a \<and> owner_ref a' = owner_ref a \<and>
     ra_status a' = ra_status a \<and> closure_evidence_required a' = closure_evidence_required a \<and> completed_by a' = completed_by a"

definition independent_retester :: "finding_row \<Rightarrow> action_row \<Rightarrow> ident \<Rightarrow> bool" where
  "independent_retester f a who \<longleftrightarrow> (\<forall>actor \<in> set (retest_conflicts f a). actor = [] \<or> actor \<noteq> identity who)"

text \<open>A decision row that the repository accepts, on the finding it names.\<close>

definition new_decision :: "finding_row \<Rightarrow> decision_row \<Rightarrow> adj_store \<Rightarrow> bool" where
  "new_decision f d s \<longleftrightarrow> \<not> has_key decision_id (decision_id d) (decisions s) \<and> ad_tenant d = fn_tenant f \<and>
     ad_finding d = Some (finding_id f) \<and> ad_engagement d = Some (fn_engagement f)"

inductive adj_change :: "adj_config \<Rightarrow> adj_store \<Rightarrow> adj_store \<Rightarrow> bool" for cfg where
  ch_same: "tabs s' = tabs s \<Longrightarrow> adj_change cfg s s'"
| ch_environment:
    "tabs s' = tabs (s\<lparr>tenant_ids := ts, engagement_ids := es\<rparr>) \<Longrightarrow> set (tenant_ids s) \<subseteq> set ts \<Longrightarrow>
     set (engagement_ids s) \<subseteq> set es \<Longrightarrow> adj_change cfg s s'"
| ch_proposed:
    "\<not> has_key finding_id (finding_id f) (findings s) \<Longrightarrow> fn_status f \<in> {PROPOSED, REJECTED} \<Longrightarrow>
     fn_severity f \<in> set SEVERITY_ORDER \<Longrightarrow> fn_evidence_ids f \<noteq> [] \<Longrightarrow> fn_skeptic_reviewed_at f \<noteq> None \<Longrightarrow> fn_authored_by f \<noteq> None \<Longrightarrow>
     \<not> has_key (\<lambda>r. (fn_engagement r, fn_code r, fn_version r)) (fn_engagement f, fn_code f, fn_version f) (findings s) \<Longrightarrow>
     tabs s' = tabs (s\<lparr>findings := findings s @ [f], decisions := decisions s @ ds\<rparr>) \<Longrightarrow>
     fn_tenant f \<in> set (tenant_ids s) \<Longrightarrow> fn_engagement f \<in> set (engagement_ids s) \<Longrightarrow>
     ds = [] \<or> (\<exists>d. ds = [d] \<and> new_decision f d s) \<Longrightarrow> adj_change cfg s s'"
| ch_decided:
    "get_finding tenant fid s = Some f \<Longrightarrow>
     (if dec = RETURN_FOR_REWORK then fn_status f = PROPOSED
      else decision_target dec \<in> set (ALLOWED_TRANSITIONS (fn_status f))) \<Longrightarrow>
     (dec = APPROVE \<Longrightarrow> require_approval_preconditions cfg tenant f actor s = Inr ()) \<Longrightarrow>
     human_verdict cfg tenant fid (''human:'' @ human_decision_value dec) actor d \<Longrightarrow>
     tabs s' = tabs (put_finding (f\<lparr>fn_status := decision_target dec\<rparr>) (s\<lparr>decisions := decisions s @ [d]\<rparr>)) \<Longrightarrow>
     new_decision f d s \<Longrightarrow> adj_change cfg s s'"
| ch_assessed:
    "get_finding tenant fid s = Some f \<Longrightarrow> minimum \<in> set SEVERITY_ORDER \<Longrightarrow>
     ma_tenant a = tenant \<Longrightarrow> ma_finding a = fid \<Longrightarrow> ma_severity_floor a = minimum \<Longrightarrow>
     ma_content_hash a = finding_hash (escalate minimum f) s \<Longrightarrow> override_severity_to a = None \<Longrightarrow>
     \<not> has_key assessment_id (assessment_id a) (assessments s) \<Longrightarrow>
     tabs s' = tabs (put_finding (escalate minimum f) (s\<lparr>assessments := assessments s @ [a]\<rparr>)) \<Longrightarrow> adj_change cfg s s'"
| ch_overridden:
    "get_finding tenant fid s = Some f \<Longrightarrow> a \<in> set (assessments s) \<Longrightarrow> sev \<in> set SEVERITY_ORDER \<Longrightarrow>
     severity_rank sev < severity_rank (ma_severity_floor a) \<Longrightarrow> f' = f\<lparr>fn_severity := sev\<rparr> \<Longrightarrow>
     a' = a\<lparr>override_severity_to := Some sev, override_reason := Some why, override_by := Some actor, ma_content_hash := finding_hash f' s\<rparr> \<Longrightarrow>
     human_verdict cfg tenant fid ''human:severity_override'' actor d \<Longrightarrow>
     tabs s' = tabs (put_assessment a' (put_finding f' (s\<lparr>decisions := decisions s @ [d]\<rparr>))) \<Longrightarrow> new_decision f d s \<Longrightarrow>
     adj_change cfg s s'"
| ch_reviewed:
    "get_finding tenant fid s = Some f \<Longrightarrow> qv_tenant r = tenant \<Longrightarrow> qv_finding r = fid \<Longrightarrow>
     qv_content_hash r = finding_hash f s \<Longrightarrow> (qv_passed r \<Longrightarrow> independent_of (qv_reviewer_id r) (fn_authored_by f)) \<Longrightarrow>
     tabs s' = tabs (s\<lparr>reviews := reviews s @ [r]\<rparr>) \<Longrightarrow> \<not> has_key review_id (review_id r) (reviews s) \<Longrightarrow> adj_change cfg s s'"
| ch_disputed:
    "get_finding tenant fid s = Some f \<Longrightarrow> open_dispute tenant fid s = None \<Longrightarrow> DISPUTED \<in> set (ALLOWED_TRANSITIONS (fn_status f)) \<Longrightarrow>
     ds_tenant d = tenant \<Longrightarrow> ds_finding d = fid \<Longrightarrow> ds_status d = ''open'' \<Longrightarrow> prior_status d = fn_status f \<Longrightarrow>
     \<not> has_key dispute_id (dispute_id d) (disputes s) \<Longrightarrow>
     tabs s' = tabs (put_finding (f\<lparr>fn_status := DISPUTED\<rparr>) (s\<lparr>disputes := disputes s @ [d]\<rparr>)) \<Longrightarrow>
     \<not> has_key (\<lambda>x. (ds_finding x, round_no x)) (ds_finding d, round_no d) (disputes s) \<Longrightarrow> adj_change cfg s s'"
| ch_resolved:
    "get_dispute tenant did s = Some d \<Longrightarrow> ds_status d = ''open'' \<Longrightarrow> get_finding tenant (ds_finding d) s = Some f \<Longrightarrow>
     resolution_target res d \<in> set (ALLOWED_TRANSITIONS DISPUTED) \<Longrightarrow>
     dispute_id d' = dispute_id d \<Longrightarrow> ds_tenant d' = ds_tenant d \<Longrightarrow> ds_finding d' = ds_finding d \<Longrightarrow> ds_status d' = ''resolved'' \<Longrightarrow>
     human_verdict cfg tenant (ds_finding d) (''dispute:'' @ dispute_resolution_value res) actor dec \<Longrightarrow>
     identity actor \<noteq> identity (raised_by d) \<Longrightarrow>
     tabs s' = tabs (put_finding (f\<lparr>fn_status := resolution_target res d\<rparr>) (put_dispute d' (s\<lparr>decisions := decisions s @ [dec]\<rparr>))) \<Longrightarrow>
     new_decision f dec s \<Longrightarrow> round_no d' = round_no d \<Longrightarrow> adj_change cfg s s'"
| ch_opened:
    "get_finding tenant fid s = Some f \<Longrightarrow> open_action_for tenant fid s = None \<Longrightarrow>
     REMEDIATION_OPEN \<in> set (ALLOWED_TRANSITIONS (fn_status f)) \<Longrightarrow> a = new_action aid tenant r now f \<Longrightarrow>
     \<not> has_key action_id aid (actions s) \<Longrightarrow>
     tabs s' = tabs (put_finding (f\<lparr>fn_status := REMEDIATION_OPEN\<rparr>) (s\<lparr>actions := actions s @ [a]\<rparr>)) \<Longrightarrow> adj_change cfg s s'"
| ch_ticket:
    "get_action tenant aid s = Some a \<Longrightarrow> same_remediation a a' \<Longrightarrow> (truthy (external_ref a) \<Longrightarrow> external_ref a' = external_ref a) \<Longrightarrow>
     tabs s' = tabs (put_action a' s) \<Longrightarrow> adj_change cfg s s'"
| ch_declared:
    "get_action tenant aid s = Some a \<Longrightarrow> get_finding tenant (ra_finding a) s = Some f \<Longrightarrow>
     REMEDIATION_DECLARED_COMPLETE \<in> set (ALLOWED_TRANSITIONS (fn_status f)) \<Longrightarrow>
     mg_finding r = ra_finding a \<Longrightarrow> (closure_evidence_required a \<Longrightarrow> closure_evidence_ids r \<noteq> []) \<Longrightarrow>
     a' = a\<lparr>ra_status := ''declared_complete'', declared_complete_at := Some now, completed_by := Some (submitted_by r)\<rparr> \<Longrightarrow>
     tabs s' = tabs (put_finding (f\<lparr>fn_status := REMEDIATION_DECLARED_COMPLETE\<rparr>) (put_action a' (s\<lparr>responses := responses s @ [r]\<rparr>))) \<Longrightarrow>
     mg_tenant r = tenant \<Longrightarrow> \<not> has_key response_id (response_id r) (responses s) \<Longrightarrow>
     \<not> has_key (\<lambda>x. (mg_finding x, mg_version x)) (mg_finding r, mg_version r) (responses s) \<Longrightarrow> adj_change cfg s s'"
| ch_retested:
    "get_action tenant aid s = Some a \<Longrightarrow> get_finding tenant (ra_finding a) s = Some f \<Longrightarrow>
     RETEST_IN_PROGRESS \<in> set (ALLOWED_TRANSITIONS (fn_status f)) \<Longrightarrow> independent_retester f a who \<Longrightarrow>
     rt_action t = aid \<Longrightarrow> rt_performed_by t = Some who \<Longrightarrow> rt_outcome t = Some (retest_outcome_value outcome) \<Longrightarrow>
     (outcome \<in> CLOSING_OUTCOMES \<Longrightarrow> rt_evidence_ids t \<noteq> []) \<Longrightarrow>
     tabs s' = tabs (put_finding (f\<lparr>fn_status := (if outcome \<in> CLOSING_OUTCOMES then CLOSED_VERIFIED else REOPENED)\<rparr>)
       (put_action (a\<lparr>ra_status := (if outcome \<in> CLOSING_OUTCOMES then ''closed'' else ''reopened'')\<rparr>)
         (s\<lparr>retests := retests s @ [t]\<rparr>))) \<Longrightarrow>
     rt_tenant t = tenant \<Longrightarrow> \<not> has_key retest_id (retest_id t) (retests s) \<Longrightarrow> adj_change cfg s s'"
| ch_reopened:
    "get_finding tenant fid s = Some f \<Longrightarrow> open_action_for tenant fid s = Some a \<Longrightarrow>
     REMEDIATION_OPEN \<in> set (ALLOWED_TRANSITIONS (fn_status f)) \<Longrightarrow>
     a' = a\<lparr>ra_status := ''open'', due_date := due, action_plan := plan, declared_complete_at := None, completed_by := None\<rparr> \<Longrightarrow>
     tabs s' = tabs (put_finding (f\<lparr>fn_status := REMEDIATION_OPEN\<rparr>) (put_action a' s)) \<Longrightarrow> adj_change cfg s s'"

section \<open>Frames\<close>

text \<open>
  One event is appended to the ledger. Either one message that carries it is appended to the outbox,
  or the event is a failed attempt to file a ticket, which is not meant to be published.
\<close>

definition appended :: "audit_event \<Rightarrow> 'a store_scheme \<Rightarrow> 'a store_scheme \<Rightarrow> bool" where
  "appended e s s' \<longleftrightarrow> \<not> has_key event_id (event_id e) (audit_events s) \<and>
     audit_events s' = audit_events s @ [ledger_row e (next_sequence (event_tenant e) (event_stream e) (audit_events s))]"

definition published :: "'a store_scheme \<Rightarrow> 'a store_scheme \<Rightarrow> bool" where
  "published s s' \<longleftrightarrow> (\<exists>e m. appended e s s' \<and> event_type e \<noteq> ''remediation.ticket_failed'' \<and>
     outbox_events s' = outbox_events s @ [m] \<and> ob_tenant m = event_tenant e \<and> ob_event_type m = event_type e \<and>
     ob_payload m = payload e \<and> unsent m \<and> \<not> has_key outbox_id (outbox_id m) (outbox_events s) \<and>
     \<not> has_key (\<lambda>x. (ob_tenant x, ob_idempotency_key x)) (ob_tenant m, ob_idempotency_key m) (outbox_events s))"

definition unpublished :: "'a store_scheme \<Rightarrow> 'a store_scheme \<Rightarrow> bool" where
  "unpublished s s' \<longleftrightarrow> (\<exists>e. appended e s s' \<and> event_type e = ''remediation.ticket_failed'' \<and> outbox_events s' = outbox_events s)"

lemma tabs_more: "store.more s' = store.more s \<Longrightarrow> tabs s' = tabs s"
  by (cases s; cases s') (simp add: tabs_def)

lemma tabs_draws [simp]:
  "tabs (snd (new_id p s)) = tabs s" "tabs (snd (utc_now s)) = tabs s" "tabs (snd (new_event_id s)) = tabs s"
  by (rule tabs_more, simp)+

lemma tabs_fields:
  assumes "tabs s' = tabs s"
  shows "tenant_ids s' = tenant_ids s" "engagement_ids s' = engagement_ids s" "findings s' = findings s" "decisions s' = decisions s"
    "responses s' = responses s" "actions s' = actions s" "assessments s' = assessments s" "reviews s' = reviews s"
    "disputes s' = disputes s" "retests s' = retests s" "sha256 s' = sha256 s" "rendering s' = rendering s"
  using assms by (simp_all add: tabs_def)

lemmas draw_fields [simp] = tabs_fields[OF tabs_draws(1)] tabs_fields[OF tabs_draws(2)]

lemma emit_Inr:
  assumes "emit tenant eng aid etype data key atype outbox s = Inr s'" and "outbox \<longleftrightarrow> etype \<noteq> ''remediation.ticket_failed''"
  shows "tabs s' = tabs s \<and> (if outbox then published s s' else unpublished s s')"
proof -
  let ?e = "\<lparr>event_id = fst (new_event_id s), event_type = etype, event_tenant = tenant, event_engagement = eng, event_task = None,
      occurred_at = fst (utc_now (snd (new_event_id s))), payload = data\<rparr>"
  from assms(1) obtain s3 where s3: "append_event ?e (snd (utc_now (snd (new_event_id s)))) = Inr s3"
    and s': "(if outbox then outbox_add tenant atype aid etype data key s3 else Inr s3) = Inr s'"
    by (auto simp: emit_def Let_def split_beta res_simps)
  note a = append_event_Inr[OF s3]
  have s3': "outbox_events s3 = outbox_events s" "tabs s3 = tabs s"
    using a(1) by (simp_all add: tabs_def new_event_id_def utc_now_def draw_uuid_def Let_def)
  have app: "appended ?e s s3"
    using a by (simp add: appended_def new_event_id_def utc_now_def draw_uuid_def Let_def)
  show ?thesis
  proof (cases outbox)
    case True
    with s' have add: "outbox_add tenant atype aid etype data key s3 = Inr s'" by simp
    show ?thesis
    proof (rule outbox_add_Inr[OF add])
      fix m
      assume m: "outbox_events s' = outbox_events s3 @ [m]" "audit_events s' = audit_events s3"
        "\<not> has_key outbox_id (outbox_id m) (outbox_events s3)"
        "\<not> has_key (\<lambda>r. (ob_tenant r, ob_idempotency_key r)) (tenant, key) (outbox_events s3)"
        "ob_tenant m = tenant" "ob_idempotency_key m = key" "ob_event_type m = etype" "ob_payload m = data"
        "store.more s' = store.more s3"
      have "unsent m" using add m(1) by (auto simp: outbox_add_def Let_def split_beta res_simps unsent_def)
      moreover have "appended ?e s s'" using app m(2) by (simp add: appended_def)
      ultimately have "published s s'" using m s3' assms(2) True unfolding published_def by (intro exI[of _ ?e] exI[of _ m] conjI) simp_all
      with tabs_more[OF m(9)] s3' True show ?thesis by simp
    qed
  next
    case False
    with s' have "s' = s3" by simp
    with app s3' assms(2) False show ?thesis by (auto simp: unpublished_def)
  qed
qed

text \<open>A state after an emission, as the operations compose it with their table changes.\<close>

definition emits :: "adj_store \<Rightarrow> adj_store \<Rightarrow> bool" where
  "emits s s' \<longleftrightarrow> tabs s' = tabs s \<and> published s s'"

lemma emitsI:
  "emit tenant eng aid etype data key atype True s = Inr s' \<Longrightarrow> etype \<noteq> ''remediation.ticket_failed'' \<Longrightarrow> emits s s'"
  using emit_Inr[of tenant eng aid etype data key atype True s s'] by (simp add: emits_def)

lemma emits_after:
  "emits s1 s' \<Longrightarrow> audit_events s1 = audit_events s \<Longrightarrow> outbox_events s1 = outbox_events s \<Longrightarrow> tabs s' = tabs s1 \<and> published s s'"
  by (simp add: emits_def published_def appended_def)

text \<open>Event types are literals or a choice between two.\<close>

lemma if_neq [simp]: "a \<noteq> x \<Longrightarrow> b \<noteq> x \<Longrightarrow> (if c then a else b) \<noteq> x"
  by simp

lemma decide_Inr:
  assumes "decide tenant f dtype actor reason s = Inr s'"
  obtains d where "ad_tenant d = tenant" "ad_finding d = Some (finding_id f)" "decision_type d = dtype" "ad_actor_id d = actor"
    "tabs s' = tabs (s\<lparr>decisions := decisions s @ [d]\<rparr>)" "audit_events s' = audit_events s" "outbox_events s' = outbox_events s"
    "\<not> has_key decision_id (decision_id d) (decisions s)" "ad_engagement d = Some (fn_engagement f)"
proof -
  have "\<exists>d. ad_tenant d = tenant \<and> ad_finding d = Some (finding_id f) \<and> decision_type d = dtype \<and> ad_actor_id d = actor \<and>
      tabs s' = tabs (s\<lparr>decisions := decisions s @ [d]\<rparr>) \<and> audit_events s' = audit_events s \<and> outbox_events s' = outbox_events s \<and>
      \<not> has_key decision_id (decision_id d) (decisions s) \<and> ad_engagement d = Some (fn_engagement f)"
    using assms unfolding decide_def add_decision_def
    by (auto simp: Let_def split_beta res_simps tabs_def new_id_def draw_uuid_def utc_now_def)
  then show thesis using that by blast
qed

end
