(* ===== verification/Adj_Refine.thy ===== *)
theory Adj_Refine
  imports Adj_Spec
begin

text \<open>
  The operations of the adjudication service implement the contract: an accepted operation either
  leaves the store alone or makes one change of the contract and records one event for it.
\<close>

section \<open>Every operation is a change of the contract\<close>

text \<open>
  An accepted operation changes nothing, or makes one change and records one event for it with its
  message. The record of a failed ticket attempt is the exception: its event has no message, and
  it changes at most the ticket columns of one action.
\<close>

definition recorded_change :: "adj_config \<Rightarrow> adj_store \<Rightarrow> adj_store \<Rightarrow> bool" where
  "recorded_change cfg s s' \<longleftrightarrow> s' = s \<or> adj_change cfg s s' \<and> published s s'"

definition ticket_failure :: "adj_store \<Rightarrow> adj_store \<Rightarrow> bool" where
  "ticket_failure s s' \<longleftrightarrow> unpublished s s' \<and> (tabs s' = tabs s \<or>
     (\<exists>a \<in> set (actions s). \<exists>msg.
        tabs s' = tabs (put_action (a\<lparr>external_sync_state := ''failed'', external_error := Some msg\<rparr>) s)))"

lemma require_finding_Inr: "require_finding tenant fid s = Inr f \<Longrightarrow> get_finding tenant fid s = Some f \<and> finding_id f = fid \<and> fn_tenant f = tenant"
  by (auto simp: require_finding_def get_finding_def find_Some_iff split: option.splits)

lemma require_action_Inr: "require_action tenant aid s = Inr a \<Longrightarrow> get_action tenant aid s = Some a \<and> action_id a = aid \<and> ra_tenant a = tenant"
  by (auto simp: require_action_def get_action_def find_Some_iff split: option.splits)

lemma require_transition_Inr: "require_transition a b = Inr u \<longleftrightarrow> b \<in> set (ALLOWED_TRANSITIONS a)"
  by (simp add: require_transition_def)

lemma adjudicate_change:
  assumes "adjudicate cfg tenant r s = Inr (st, s')"
  shows "recorded_change cfg s s'"
proof -
  from assms obtain f where rf: "require_finding tenant (ar_finding_id r) s = Inr f" and na: "\<not> automated_actor cfg (ar_actor_id r)"
    by (auto simp: adjudicate_def res_simps)
  note f = require_finding_Inr[OF rf]
  let ?dtype = "''human:'' @ human_decision_value (ar_decision r)"
  show ?thesis
  proof (cases "\<exists>d \<in> set (decisions_of tenant (finding_id f) s). decision_type d = ?dtype \<and> ad_actor_id d = ar_actor_id r")
    case True
    with assms rf na show ?thesis by (simp add: adjudicate_def recorded_change_def)
  next
    case False
    with assms rf na obtain s1 where
      "(if ar_decision r = RETURN_FOR_REWORK then fn_status f = PROPOSED
        else decision_target (ar_decision r) \<in> set (ALLOWED_TRANSITIONS (fn_status f)))"
      "ar_decision r = APPROVE \<Longrightarrow> require_approval_preconditions cfg tenant f (ar_actor_id r) s = Inr ()"
      "decide tenant f ?dtype (ar_actor_id r) (ar_reason r) (put_finding (f\<lparr>fn_status := decision_target (ar_decision r)\<rparr>) s) = Inr s1"
      "emits s1 s'"
      by (auto simp: adjudicate_def Let_def res_simps require_transition_Inr dest!: emitsI split: if_splits)
    note ok = this
    from ok(3) obtain d where d: "ad_tenant d = tenant" "ad_finding d = Some (finding_id f)" "decision_type d = ?dtype"
      "ad_actor_id d = ar_actor_id r" "tabs s1 = tabs (put_finding (f\<lparr>fn_status := decision_target (ar_decision r)\<rparr>) s
        \<lparr>decisions := decisions (put_finding (f\<lparr>fn_status := decision_target (ar_decision r)\<rparr>) s) @ [d]\<rparr>)"
      "audit_events s1 = audit_events s" "outbox_events s1 = outbox_events s"
      "\<not> has_key decision_id (decision_id d) (decisions s)" "ad_engagement d = Some (fn_engagement f)"
      by (rule decide_Inr) (simp add: put_finding_def)
    have "adj_change cfg s s'"
    proof (rule ch_decided)
      show "get_finding tenant (ar_finding_id r) s = Some f" using f by simp
      show "tabs s' = tabs (put_finding (f\<lparr>fn_status := decision_target (ar_decision r)\<rparr>) (s\<lparr>decisions := decisions s @ [d]\<rparr>))"
        using emits_after[OF ok(4) d(6,7)] d(5) by (simp add: tabs_def put_finding_def)
      show "human_verdict cfg tenant (ar_finding_id r) ?dtype (ar_actor_id r) d" using d f na by (simp add: human_verdict_def)
      show "new_decision f d s" using d f by (simp add: new_decision_def)
    qed (rule ok(1,2), assumption?)+
    with emits_after[OF ok(4) d(6,7)] show ?thesis by (simp add: recorded_change_def)
  qed
qed

lemma propose_change:
  assumes "propose tenant eng f author sk rows s = Inr (x, s')" and "proposed_finding_ok f"
  shows "recorded_change cfg s s'"
proof -
  let ?version = "case find_by_code tenant eng (pf_code f) s of None \<Rightarrow> 1 | Some e \<Rightarrow> fn_version e + 1"
  obtain v rc s3 s4 s5 where rc: "rc = new_finding (fst (new_id ''fnd'' s)) tenant eng ?version f author v
        (fst (utc_now (snd (new_id ''fnd'' s)))) (fst (utc_now (snd (utc_now (snd (new_id ''fnd'' s))))))"
    and s3: "s3 = snd (utc_now (snd (utc_now (snd (new_id ''fnd'' s)))))" and s4: "add_finding rc s3 = Inr s4"
    and s5: "(if sv_supported v then Inr s4 else decide tenant rc ''skeptic_reject'' ''agent:skeptic'' (rejection_reason v) s4) = Inr s5"
    and em: "emits s5 s'"
    using assms(1) unfolding propose_def Let_def split_beta bind_res_eq_Inr
    by (elim exE conjE) (rule that, (assumption | rule refl)+, drule emitsI, simp, simp)
  have base: "tabs s3 = tabs s" "audit_events s3 = audit_events s" "outbox_events s3 = outbox_events s" by (simp_all add: s3)
  from s4 have add: "s4 = s3\<lparr>findings := findings s3 @ [rc]\<rparr>" "\<not> has_key finding_id (finding_id rc) (findings s)"
    "\<not> has_key (\<lambda>r. (fn_engagement r, fn_code r, fn_version r)) (fn_engagement rc, fn_code rc, fn_version rc) (findings s)"
    using tabs_fields(3)[OF base(1)] by (auto simp: add_finding_def split: if_splits)
  have ids: "fn_tenant rc \<in> set (tenant_ids s)" "fn_engagement rc \<in> set (engagement_ids s)"
    using s4 tabs_fields(1,2)[OF base(1)] by (auto simp: add_finding_def split: if_splits)
  have s5': "\<exists>ds. tabs s5 = tabs (s\<lparr>findings := findings s @ [rc], decisions := decisions s @ ds\<rparr>) \<and>
      audit_events s5 = audit_events s \<and> outbox_events s5 = outbox_events s \<and>
      (ds = [] \<or> (\<exists>d. ds = [d] \<and> new_decision rc d s))"
  proof (cases "sv_supported v")
    case True
    with s5 add(1) have "s5 = s3\<lparr>findings := findings s3 @ [rc]\<rparr>" by simp
    with base show ?thesis by (intro exI[of _ "[]"]) (simp add: tabs_def)
  next
    case False
    with s5 have "decide tenant rc ''skeptic_reject'' ''agent:skeptic'' (rejection_reason v) s4 = Inr s5" by simp
    then obtain d where d: "ad_tenant d = tenant" "ad_finding d = Some (finding_id rc)"
      "tabs s5 = tabs (s4\<lparr>decisions := decisions s4 @ [d]\<rparr>)" "audit_events s5 = audit_events s4" "outbox_events s5 = outbox_events s4"
      "\<not> has_key decision_id (decision_id d) (decisions s4)" "ad_engagement d = Some (fn_engagement rc)" by (rule decide_Inr)
    have "new_decision rc d s" using d add(1) tabs_fields(4)[OF base(1)] by (simp add: new_decision_def rc new_finding_def)
    with d(3-5) add(1) base show ?thesis by (intro exI[of _ "[d]"]) (simp add: tabs_def)
  qed
  then obtain ds where ds: "tabs s5 = tabs (s\<lparr>findings := findings s @ [rc], decisions := decisions s @ ds\<rparr>)"
    "audit_events s5 = audit_events s" "outbox_events s5 = outbox_events s" "ds = [] \<or> (\<exists>d. ds = [d] \<and> new_decision rc d s)"
    by (elim exE conjE)
  have "adj_change cfg s s'"
    by (rule ch_proposed[OF add(2) _ _ _ _ _ add(3) _ ids ds(4)])
      (use assms(2) emits_after[OF em ds(2,3)] ds(1) in \<open>simp_all add: rc new_finding_def proposed_finding_ok_def\<close>)
  with emits_after[OF em ds(2,3)] show ?thesis by (simp add: recorded_change_def)
qed

lemma severity_floor_known:
  assumes "materiality_policy_ok p"
  shows "mr_severity_floor (assess i (Some p)) \<in> set SEVERITY_ORDER"
proof -
  let ?x = "raw_score i p"
  have bands: "snd ` set (severity_bands p) \<subseteq> set SEVERITY_ORDER" using assms by (auto simp: materiality_policy_ok_def)
  have "severity_floor_of ?x p \<in> set SEVERITY_ORDER"
  proof (cases rule: severity_floor_cases[OF assms, of ?x])
    case (1 t)
    then show ?thesis using bands by force
  next
    case 2
    then show ?thesis by (simp add: SEVERITY_ORDER_def)
  qed
  then show ?thesis by (simp add: assess_def)
qed

lemma assess_materiality_change:
  assumes "assess_materiality tenant r s = Inr (x, s')" and "materiality_request_ok r"
  shows "recorded_change cfg s s'"
proof -
  let ?p = "case mq_policy r of None \<Rightarrow> default_policy | Some p \<Rightarrow> p"
  let ?res = "assess (mq_inputs r) (Some ?p)"
  let ?min = "mr_severity_floor ?res"
  from assms(1) obtain f where rf: "require_finding tenant (mq_finding_id r) s = Inr f"
    by (auto simp: assess_materiality_def Let_def res_simps)
  note f = require_finding_Inr[OF rf]
  let ?s0 = "put_finding (escalate ?min f) s"
  let ?aid = "fst (new_id ''mat'' ?s0)"
  let ?s2 = "snd (utc_now (snd (new_id ''mat'' ?s0)))"
  let ?a = "new_assessment ?aid tenant (finding_id f) (finding_hash (escalate ?min f) s) ?p r ?res (fst (utc_now (snd (new_id ''mat'' ?s0))))"
  obtain s3 where s3: "add_assessment ?a ?s2 = Inr s3" and em: "emits s3 s'"
    using assms(1) unfolding assess_materiality_def Let_def split_beta bind_res_eq_Inr rf
    by (elim exE conjE) (auto dest!: emitsI)
  have base: "tabs ?s2 = tabs ?s0" "audit_events ?s2 = audit_events s" "outbox_events ?s2 = outbox_events s" by (simp_all add: put_finding_def)
  from s3 have add: "s3 = ?s2\<lparr>assessments := assessments ?s2 @ [?a]\<rparr>" "\<not> has_key assessment_id (assessment_id ?a) (assessments s)"
    by (auto simp: add_assessment_def put_finding_def split: if_splits)
  have ds: "audit_events s3 = audit_events s" "outbox_events s3 = outbox_events s" using base unfolding add(1) by simp_all
  have "?min \<in> set SEVERITY_ORDER"
    by (rule severity_floor_known) (use assms(2) demo_policy_ok in \<open>auto simp: materiality_request_ok_def split: option.splits\<close>)
  then have "adj_change cfg s s'"
    by (rule ch_assessed[OF conjunct1[OF f], of _ ?a])
      (use f add(2) emits_after[OF em ds] add(1) base(1) in \<open>simp_all add: new_assessment_def tabs_def put_finding_def\<close>)
  with emits_after[OF em ds] show ?thesis by (simp add: recorded_change_def)
qed

lemma first_row_cases: "first_row ys = Some x \<Longrightarrow> x \<in> set ys" "first_row ys = None \<longleftrightarrow> ys = []"
  by (cases ys; simp add: first_row_def)+

lemma first_row_sorted: "first_row (sort_key k (filter P xs)) = Some x \<Longrightarrow> x \<in> set xs \<and> P x"
  using first_row_cases(1)[of "sort_key k (filter P xs)" x] by simp

lemma first_row_None: "first_row (sort_key k (filter P xs)) = None \<longleftrightarrow> (\<forall>x \<in> set xs. \<not> P x)"
  unfolding first_row_cases(2) by (metis filter_empty_conv set_empty set_sort)

lemma override_severity_change:
  assumes "override_severity cfg tenant r s = Inr (x, s')" and "severity_override_request_ok r"
  shows "recorded_change cfg s s'"
proof -
  from assms(1) obtain f where rf: "require_finding tenant (so_finding_id r) s = Inr f" and na: "\<not> automated_actor cfg (so_actor_id r)"
    by (auto simp: override_severity_def res_simps)
  note f = require_finding_Inr[OF rf]
  let ?f' = "f\<lparr>fn_severity := so_severity r\<rparr>"
  from assms(1) rf na obtain a where la: "latest_assessment tenant (finding_id f) (Some (finding_hash f s)) s = Some a"
    by (auto simp: override_severity_def split: option.splits)
  have a: "a \<in> set (assessments s)" using first_row_sorted[OF la[unfolded latest_assessment_def]] by simp
  let ?a' = "a\<lparr>override_severity_to := Some (so_severity r), override_reason := Some (so_reason r),
      override_by := Some (so_actor_id r), ma_content_hash := finding_hash ?f' s\<rparr>"
  from assms(1) rf na la obtain s1 where lt: "severity_rank (so_severity r) < severity_rank (ma_severity_floor a)"
    and dec: "decide tenant f ''human:severity_override'' (so_actor_id r) (so_reason r) (put_assessment ?a' (put_finding ?f' s)) = Inr s1"
    and em: "emits s1 s'"
    by (auto simp: override_severity_def Let_def res_simps not_le dest!: emitsI)
  from dec obtain d where d: "ad_tenant d = tenant" "ad_finding d = Some (finding_id f)" "decision_type d = ''human:severity_override''"
    "ad_actor_id d = so_actor_id r" "tabs s1 = tabs (put_assessment ?a' (put_finding ?f' (s\<lparr>decisions := decisions s @ [d]\<rparr>)))"
    "audit_events s1 = audit_events s" "outbox_events s1 = outbox_events s"
    "\<not> has_key decision_id (decision_id d) (decisions s)" "ad_engagement d = Some (fn_engagement f)"
    by (rule decide_Inr) (simp add: put_finding_def put_assessment_def tabs_def)
  have "adj_change cfg s s'"
    by (rule ch_overridden[OF conjunct1[OF f] a _ lt refl refl])
      (use assms(2) na d f emits_after[OF em d(6,7)] in \<open>simp_all add: severity_override_request_ok_def human_verdict_def new_decision_def\<close>)
  with emits_after[OF em d(6,7)] show ?thesis by (simp add: recorded_change_def)
qed

lemma passed_review_independent:
  assumes "evaluate reviewer author severity evidence contradictions keys criteria observed limitations m searched digest = Inr q"
    and "qo_passed q"
  shows "independent_of reviewer author"
proof -
  from assms obtain cs where "record_checks (quality_checks reviewer author severity evidence contradictions keys criteria observed
      limitations m searched) = Inr cs" "list_all cr_passed cs"
    by (auto simp: evaluate_def res_simps)
  with record_checks_Inr[OF this(1)] show ?thesis by (simp add: quality_checks_parts(2)[OF refl])
qed

lemma review_quality_change:
  assumes "review_quality tenant r s = Inr (x, s')"
  shows "recorded_change cfg s s'"
proof -
  from assms obtain f where rf: "require_finding tenant (qr_finding_id r) s = Inr f" by (auto simp: review_quality_def res_simps)
  note f = require_finding_Inr[OF rf]
  let ?digest = "finding_hash f s"
  let ?s2 = "snd (utc_now (snd (new_id ''qrv'' s)))"
  obtain q s3 where q: "evaluate (qr_reviewer_id r) (fn_authored_by f) (fn_severity f) (fn_evidence_ids f) (fn_contradictions f)
          (fn_exception_keys f) (fn_criteria f) (fn_observed_condition f) (fn_limitations f)
          (map_option summary_of (latest_assessment tenant (finding_id f) (Some ?digest) s))
          (fn_skeptic_reviewed_at f \<noteq> None) ?digest = Inr q"
    and s3: "add_quality_review (new_review (fst (new_id ''qrv'' s)) tenant ?digest r q (fst (utc_now (snd (new_id ''qrv'' s)))) f) ?s2 = Inr s3"
    and em: "emits s3 s'"
    using assms unfolding review_quality_def Let_def split_beta bind_res_eq_Inr rf
    by (elim exE conjE) (auto dest!: emitsI)
  define v where "v = new_review (fst (new_id ''qrv'' s)) tenant ?digest r q (fst (utc_now (snd (new_id ''qrv'' s)))) f"
  from s3 have add: "s3 = ?s2\<lparr>reviews := reviews s @ [v]\<rparr>" "\<not> has_key review_id (review_id v) (reviews s)"
    unfolding v_def[symmetric] by (auto simp: add_quality_review_def split: if_splits)
  have ds: "audit_events s3 = audit_events s" "outbox_events s3 = outbox_events s" unfolding add(1) by simp_all
  have "adj_change cfg s s'"
    by (rule ch_reviewed[OF conjunct1[OF f] _ _ _ _ _ add(2)])
      (use f passed_review_independent[OF q] emits_after[OF em ds] in \<open>simp_all add: v_def new_review_def tabs_def add(1)\<close>)
  with emits_after[OF em ds] show ?thesis by (simp add: recorded_change_def)
qed

lemma raise_dispute_change:
  assumes "raise_dispute cfg tenant r s = Inr (x, s')"
  shows "recorded_change cfg s s'"
proof -
  from assms obtain f where rf: "require_finding tenant (dq_finding_id r) s = Inr f" by (auto simp: raise_dispute_def res_simps)
  note f = require_finding_Inr[OF rf]
  let ?n = "length (disputes_of tenant (finding_id f) s) + 1"
  let ?s2 = "snd (utc_now (snd (new_id ''dsp'' s)))"
  let ?d = "new_dispute (fst (new_id ''dsp'' s)) tenant ?n (max_dispute_rounds cfg < int ?n) r (fst (utc_now (snd (new_id ''dsp'' s)))) f"
  obtain s3 where none: "open_dispute tenant (finding_id f) s = None" and tr: "DISPUTED \<in> set (ALLOWED_TRANSITIONS (fn_status f))"
    and s3: "add_dispute ?d ?s2 = Inr s3" and em: "emits (put_finding (f\<lparr>fn_status := DISPUTED\<rparr>) s3) s'"
    using assms unfolding raise_dispute_def Let_def split_beta bind_res_eq_Inr rf if_Inl_eq_Inr require_transition_Inr
    by (elim exE conjE) (auto dest!: emitsI)
  from s3 have add: "s3 = ?s2\<lparr>disputes := disputes s @ [?d]\<rparr>" "\<not> has_key dispute_id (dispute_id ?d) (disputes s)"
    "\<not> has_key (\<lambda>x. (ds_finding x, round_no x)) (ds_finding ?d, round_no ?d) (disputes s)"
    by (auto simp: add_dispute_def split: if_splits)
  have ds: "audit_events (put_finding (f\<lparr>fn_status := DISPUTED\<rparr>) s3) = audit_events s"
    "outbox_events (put_finding (f\<lparr>fn_status := DISPUTED\<rparr>) s3) = outbox_events s" unfolding add(1) by (simp_all add: put_finding_def)
  have "adj_change cfg s s'"
    by (rule ch_disputed[OF conjunct1[OF f] _ _ _ _ _ _ add(2) _ add(3)])
      (use f none tr emits_after[OF em ds] in \<open>simp_all add: new_dispute_def tabs_def add(1) put_finding_def\<close>)
  with emits_after[OF em ds] show ?thesis by (simp add: recorded_change_def)
qed

lemma resolve_dispute_change:
  assumes "resolve_dispute cfg tenant r s = Inr (x, s')"
  shows "recorded_change cfg s s'"
proof -
  let ?actor = "dr_resolved_by r"
  from assms obtain d f where na: "\<not> automated_actor cfg ?actor" and d: "get_dispute tenant (dr_dispute_id r) s = Some d" "ds_status d = ''open''"
    and rf: "require_finding tenant (ds_finding d) s = Inr f"
    by (auto simp: resolve_dispute_def res_simps)
  note f = require_finding_Inr[OF rf]
  let ?t = "resolution_target (dr_resolution r) d"
  let ?s1 = "snd (utc_now s)"
  let ?d' = "d\<lparr>ds_status := ''resolved'', ds_resolution := Some (dispute_resolution_value (dr_resolution r)),
      resolution_reason := Some (dr_reason r), resolved_by := Some ?actor, resolved_at := Some (fst (utc_now s))\<rparr>"
  let ?dtype = "''dispute:'' @ dispute_resolution_value (dr_resolution r)"
  obtain s2 where other: "identity ?actor \<noteq> identity (raised_by d)" and tr: "?t \<in> set (ALLOWED_TRANSITIONS DISPUTED)"
    and dec: "decide tenant f ?dtype ?actor (dr_reason r) (put_finding (f\<lparr>fn_status := ?t\<rparr>) (put_dispute ?d' ?s1)) = Inr s2"
    and em: "emits s2 s'"
    using assms na d rf unfolding resolve_dispute_def Let_def split_beta
    by (auto simp: res_simps require_transition_Inr dest!: emitsI simp del: set_simps)
  from dec obtain e where e: "ad_tenant e = tenant" "ad_finding e = Some (finding_id f)" "decision_type e = ?dtype" "ad_actor_id e = ?actor"
    "tabs s2 = tabs (put_finding (f\<lparr>fn_status := ?t\<rparr>) (put_dispute ?d' (s\<lparr>decisions := decisions s @ [e]\<rparr>)))"
    "audit_events s2 = audit_events s" "outbox_events s2 = outbox_events s"
    "\<not> has_key decision_id (decision_id e) (decisions s)" "ad_engagement e = Some (fn_engagement f)"
    by (rule decide_Inr) (simp add: put_finding_def put_dispute_def tabs_def)
  have "adj_change cfg s s'"
    by (rule ch_resolved[OF d conjunct1[OF f] tr, where d' = ?d' and actor = ?actor and dec = e])
      (use na e f other emits_after[OF em e(6,7)] in \<open>simp_all add: human_verdict_def new_decision_def\<close>)
  with emits_after[OF em e(6,7)] show ?thesis by (simp add: recorded_change_def)
qed

section \<open>Remediation\<close>

lemma open_remediation_change:
  assumes "open_remediation tenant r s = Inr (x, s')"
  shows "recorded_change cfg s s'"
proof -
  from assms obtain f where rf: "require_finding tenant (rq_finding_id r) s = Inr f" by (auto simp: open_remediation_def res_simps)
  note f = require_finding_Inr[OF rf]
  show ?thesis
  proof (cases "open_action_for tenant (finding_id f) s")
    case (Some a)
    with assms rf show ?thesis by (auto simp: open_remediation_def recorded_change_def split: if_splits)
  next
    case None
    let ?s2 = "snd (utc_now (snd (new_id ''rma'' s)))"
    let ?a = "new_action (fst (new_id ''rma'' s)) tenant r (fst (utc_now (snd (new_id ''rma'' s)))) f"
    let ?f' = "f\<lparr>fn_status := REMEDIATION_OPEN\<rparr>"
    obtain s3 where tr: "REMEDIATION_OPEN \<in> set (ALLOWED_TRANSITIONS (fn_status f))"
      and s3: "add_action ?a ?s2 = Inr s3" and em: "emits (put_finding ?f' s3) s'"
      using assms unfolding open_remediation_def Let_def split_beta bind_res_eq_Inr rf
      by (elim exE conjE) (auto simp: None require_transition_Inr res_simps dest!: emitsI simp del: set_simps)
    from s3 have add: "s3 = ?s2\<lparr>actions := actions s @ [?a]\<rparr>" "\<not> has_key action_id (fst (new_id ''rma'' s)) (actions s)"
      by (auto simp: add_action_def new_action_def split: if_splits)
    have ds: "audit_events (put_finding ?f' s3) = audit_events s" "outbox_events (put_finding ?f' s3) = outbox_events s"
      unfolding add by (simp_all add: put_finding_def)
    have "adj_change cfg s s'"
      by (rule ch_opened[OF conjunct1[OF f] _ tr refl add(2)])
        (use f None emits_after[OF em ds] in \<open>simp_all add: tabs_def add put_finding_def\<close>)
    with emits_after[OF em ds] show ?thesis by (simp add: recorded_change_def)
  qed
qed

lemma ticket_failed_change:
  assumes "ticket_failed tenant aid f system msg s = Inr s'"
  shows "ticket_failure s s' \<and> adj_change cfg s s'"
proof (cases "get_action tenant aid s")
  case None
  with emit_Inr[OF assms[unfolded ticket_failed_def]] show ?thesis by (simp add: ticket_failure_def ch_same)
next
  case (Some a)
  let ?a' = "a\<lparr>external_sync_state := ''failed'', external_error := Some (take 4000 msg)\<rparr>"
  from emit_Inr[OF assms[unfolded ticket_failed_def]] Some have em: "tabs s' = tabs (put_action ?a' s)" "unpublished (put_action ?a' s) s'"
    by simp_all
  have "unpublished s s'" using em(2) by (simp add: unpublished_def appended_def put_action_def)
  moreover have "a \<in> set (actions s)" using Some by (auto simp: get_action_def find_Some_iff)
  moreover have "adj_change cfg s s'"
    by (rule ch_ticket[OF Some, of ?a']) (use em(1) in \<open>simp_all add: same_remediation_def\<close>)
  ultimately show ?thesis using em(1) by (auto simp: ticket_failure_def)
qed

lemma ticket_filed_change:
  assumes "ticket_filed tenant aid f t s = Inr (x, s')"
  shows "recorded_change cfg s s'"
proof -
  from assms obtain a where ra: "require_action tenant aid s = Inr a" by (auto simp: ticket_filed_def res_simps)
  note a = require_action_Inr[OF ra]
  show ?thesis
  proof (cases "truthy (external_ref a)")
    case True
    with assms ra show ?thesis by (simp add: ticket_filed_def recorded_change_def)
  next
    case False
    let ?a' = "a\<lparr>external_ref := Some (tr_external_ref t), external_url := tr_url t, external_sync_state := ''synced'',
        external_synced_at := Some (fst (utc_now s)), external_error := None\<rparr>"
    let ?s1 = "put_action ?a' (snd (utc_now s))"
    have em: "emits ?s1 s'"
      using assms False ra unfolding ticket_filed_def Let_def split_beta by (auto simp: res_simps dest!: emitsI)
    have ds: "audit_events ?s1 = audit_events s" "outbox_events ?s1 = outbox_events s" by (simp_all add: put_action_def)
    have "adj_change cfg s s'"
      by (rule ch_ticket[OF conjunct1[OF a], of ?a'])
        (use False emits_after[OF em ds] in \<open>simp_all add: same_remediation_def tabs_def put_action_def\<close>)
    with emits_after[OF em ds] show ?thesis by (simp add: recorded_change_def)
  qed
qed

lemma submit_closure_change:
  assumes "submit_closure tenant r s = Inr (x, s')"
  shows "recorded_change cfg s s'"
proof -
  from assms obtain a f where ra: "require_action tenant (cs_action_id r) s = Inr a" and rf: "require_finding tenant (ra_finding a) s = Inr f"
    by (auto simp: submit_closure_def res_simps)
  note a = require_action_Inr[OF ra] and f = require_finding_Inr[OF rf]
  let ?s2 = "snd (utc_now (snd (new_id ''mgr'' s)))"
  let ?f' = "f\<lparr>fn_status := REMEDIATION_DECLARED_COMPLETE\<rparr>"
  define p where "p = new_response (fst (new_id ''mgr'' s)) tenant (length (responses_of tenant (finding_id f) s) + 1) r
      (fst (utc_now (snd (new_id ''mgr'' s)))) f a"
  obtain s3 where tr: "REMEDIATION_DECLARED_COMPLETE \<in> set (ALLOWED_TRANSITIONS (fn_status f))"
    and ev: "\<not> (closure_evidence_required a \<and> cs_closure_evidence_ids r = [])" and s3: "add_response p ?s2 = Inr s3"
    and em: "emits (put_finding ?f' (put_action (a\<lparr>ra_status := ''declared_complete'', declared_complete_at := Some (fst (utc_now s3)),
          completed_by := Some (cs_submitted_by r)\<rparr>) (snd (utc_now s3)))) s'"
    using assms unfolding submit_closure_def Let_def split_beta bind_res_eq_Inr ra rf if_Inl_eq_Inr require_transition_Inr p_def
    by (elim exE conjE) (auto simp: rf dest!: emitsI simp del: set_simps)
  have p: "mg_finding p = finding_id f" "submitted_by p = cs_submitted_by r" "closure_evidence_ids p = cs_closure_evidence_ids r"
    by (simp_all add: p_def new_response_def)
  let ?a' = "a\<lparr>ra_status := ''declared_complete'', declared_complete_at := Some (fst (utc_now s3)), completed_by := Some (submitted_by p)\<rparr>"
  let ?s5 = "put_finding ?f' (put_action ?a' (snd (utc_now s3)))"
  from s3 have add: "s3 = ?s2\<lparr>responses := responses s @ [p]\<rparr>" and fresh: "\<not> has_key response_id (response_id p) (responses s)"
    "\<not> has_key (\<lambda>x. (mg_finding x, mg_version x)) (mg_finding p, mg_version p) (responses s)"
    by (auto simp: add_response_def split: if_splits)
  have pt: "mg_tenant p = tenant" by (simp add: p_def new_response_def)
  have ds: "audit_events ?s5 = audit_events s" "outbox_events ?s5 = outbox_events s"
    using add by (simp_all add: put_finding_def put_action_def)
  have tabs3: "tabs (snd (utc_now s3)) = tabs (s\<lparr>responses := responses s @ [p]\<rparr>)" using add by (simp add: tabs_def)
  have "adj_change cfg s s'"
    by (rule ch_declared[OF conjunct1[OF a] conjunct1[OF f] tr _ _ refl _ pt fresh])
      (use a f ev p tabs3 emits_after[OF em[folded p(2)] ds] in \<open>simp_all add: tabs_def put_finding_def put_action_def\<close>)
  with emits_after[OF em[folded p(2)] ds] show ?thesis by (simp add: recorded_change_def)
qed

lemma require_independence_Inr: "require_independence f a who = Inr u \<longleftrightarrow> independent_retester f a who"
  by (auto simp: require_independence_def independent_retester_def)

lemma retest_change:
  assumes "retest tenant r s = Inr (x, s')"
  shows "recorded_change cfg s s'"
proof -
  from assms obtain a f where ra: "require_action tenant (rr_action_id r) s = Inr a" and rf: "require_finding tenant (ra_finding a) s = Inr f"
    and ind: "independent_retester f a (rr_performed_by r)"
    by (auto simp: retest_def res_simps require_independence_Inr)
  note a = require_action_Inr[OF ra] and f = require_finding_Inr[OF rf]
  show ?thesis
  proof (cases "find (\<lambda>p. rt_idempotency_key p = Some (rr_idempotency_key r)) (retests_of tenant (action_id a) s)")
    case (Some p)
    with assms ra rf show ?thesis by (auto simp: retest_def res_simps recorded_change_def)
  next
    case None
    let ?closed = "rr_outcome r \<in> CLOSING_OUTCOMES"
    let ?final = "if ?closed then CLOSED_VERIFIED else REOPENED"
    let ?s3 = "snd (utc_now (snd (utc_now (snd (new_id ''rts'' s)))))"
    let ?f' = "f\<lparr>fn_status := ?final\<rparr>" and ?a' = "a\<lparr>ra_status := if ?closed then ''closed'' else ''reopened''\<rparr>"
    define t where "t = new_retest (fst (new_id ''rts'' s)) tenant r ?final (fst (utc_now (snd (new_id ''rts'' s))))
        (fst (utc_now (snd (utc_now (snd (new_id ''rts'' s)))))) f a s"
    obtain s4 where tr: "RETEST_IN_PROGRESS \<in> set (ALLOWED_TRANSITIONS (fn_status f))"
      and ev: "\<not> (?closed \<and> rr_evidence_ids r = [])" and s4: "add_retest t ?s3 = Inr s4"
      and em: "emits (put_finding ?f' (put_action ?a' s4)) s'"
      using assms unfolding retest_def Let_def split_beta bind_res_eq_Inr ra rf t_def
      by (elim exE conjE) (auto simp: rf None require_transition_Inr res_simps dest!: emitsI simp del: set_simps)
    from s4 have add: "s4 = ?s3\<lparr>retests := retests s @ [t]\<rparr>" and fresh: "\<not> has_key retest_id (retest_id t) (retests s)"
      by (auto simp: add_retest_def split: if_splits)
    have ds: "audit_events (put_finding ?f' (put_action ?a' s4)) = audit_events s" "outbox_events (put_finding ?f' (put_action ?a' s4)) = outbox_events s"
      unfolding add by (simp_all add: put_finding_def put_action_def)
    have "adj_change cfg s s'"
      by (rule ch_retested[OF conjunct1[OF a] conjunct1[OF f] tr ind, where t = t and outcome = "rr_outcome r", OF _ _ _ _ _ _ fresh])
        (use a f ev emits_after[OF em ds] in \<open>simp_all add: t_def new_retest_def tabs_def add put_finding_def put_action_def\<close>)
    with emits_after[OF em ds] show ?thesis by (simp add: recorded_change_def)
  qed
qed

lemma reopen_for_remediation_change:
  assumes "reopen_for_remediation tenant fid r s = Inr (x, s')"
  shows "recorded_change cfg s s'"
proof -
  from assms obtain f where rf: "require_finding tenant fid s = Inr f" by (auto simp: reopen_for_remediation_def res_simps)
  note f = require_finding_Inr[OF rf]
  from assms obtain a where oa: "open_action_for tenant fid s = Some a"
    by (auto simp: reopen_for_remediation_def res_simps)
  let ?f' = "f\<lparr>fn_status := REMEDIATION_OPEN\<rparr>"
  let ?a' = "a\<lparr>ra_status := ''open'', due_date := rq_due_date r, action_plan := rq_action_plan r, declared_complete_at := None, completed_by := None\<rparr>"
  from assms rf oa have tr: "REMEDIATION_OPEN \<in> set (ALLOWED_TRANSITIONS (fn_status f))" and em: "emits (put_finding ?f' (put_action ?a' s)) s'"
    by (auto simp: reopen_for_remediation_def Let_def require_transition_Inr res_simps dest!: emitsI simp del: set_simps)
  have ds: "audit_events (put_finding ?f' (put_action ?a' s)) = audit_events s" "outbox_events (put_finding ?f' (put_action ?a' s)) = outbox_events s"
    by (simp_all add: put_finding_def put_action_def)
  have "adj_change cfg s s'"
    by (rule ch_reopened[OF conjunct1[OF f] oa tr refl]) (use emits_after[OF em ds] in simp)
  with emits_after[OF em ds] show ?thesis by (simp add: recorded_change_def)
qed

section \<open>The ledger\<close>

text \<open>
  What the ledger and the outbox hold: streams are numbered without gaps, message keys are unique,
  and the messages carry, in order, the events that are meant to be published.
\<close>

definition carries :: "outbox_row \<Rightarrow> audit_event_row \<Rightarrow> bool" where
  "carries m e \<longleftrightarrow> ob_tenant m = event_tenant e \<and> ob_event_type m = event_type e \<and> ob_payload m = payload e"

definition adj_log_ok :: "'a store_scheme \<Rightarrow> bool" where
  "adj_log_ok s \<longleftrightarrow> ledger_ok s \<and> outbox_keys_ok s \<and>
     list_all2 carries (outbox_events s) (filter (\<lambda>e. event_type e \<noteq> ''remediation.ticket_failed'') (audit_events s))"

lemma adj_log_ok_emitted:
  assumes "adj_log_ok s" "published s s' \<or> unpublished s s'"
  shows "adj_log_ok s'"
proof -
  from assms(2) obtain e where e: "appended e s s'"
    and out: "outbox_events s' = outbox_events s \<and> event_type e = ''remediation.ticket_failed'' \<or>
      event_type e \<noteq> ''remediation.ticket_failed'' \<and> (\<exists>m. outbox_events s' = outbox_events s @ [m] \<and> ob_tenant m = event_tenant e \<and>
        ob_event_type m = event_type e \<and> ob_payload m = payload e \<and> unsent m \<and> \<not> has_key outbox_id (outbox_id m) (outbox_events s) \<and>
        \<not> has_key (\<lambda>x. (ob_tenant x, ob_idempotency_key x)) (ob_tenant m, ob_idempotency_key m) (outbox_events s))"
    unfolding published_def unpublished_def by blast
  have "append_event e s = Inr (s\<lparr>audit_events := audit_events s'\<rparr>)" using e by (simp add: appended_def append_event_def ledger_row_def)
  with assms(1) have "ledger_ok (s\<lparr>audit_events := audit_events s'\<rparr>)" by (auto simp: adj_log_ok_def dest: ledger_ok_append)
  then have "ledger_ok s'" by (simp add: ledger_ok_def)
  moreover have "outbox_keys_ok s'" using assms(1) out by (auto simp: adj_log_ok_def outbox_keys_ok_def has_key_image)
  ultimately show ?thesis using assms(1) out e by (auto simp: appended_def adj_log_ok_def carries_def intro!: list_all2_appendI)
qed

lemma adj_log_ok_follow:
  assumes "adj_log_ok s" "outbox_follow s s'"
  shows "adj_log_ok s'"
proof -
  have aud: "audit_events s' = audit_events s" using assms(2) by (simp add: outbox_follow_def)
  have same: "list_all2 same_message (outbox_events s) (outbox_events s')"
    using assms(2) by (auto simp: outbox_follow_def elim: list_all2_mono intro: outbox_edges(1))
  then have keys: "map outbox_id (outbox_events s') = map outbox_id (outbox_events s)"
    "map (\<lambda>r. (ob_tenant r, ob_idempotency_key r)) (outbox_events s') = map (\<lambda>r. (ob_tenant r, ob_idempotency_key r)) (outbox_events s)"
    by (auto simp: list_all2_conv_all_nth same_message_def intro!: nth_equalityI)
  have "list_all2 carries (outbox_events s') es" if "list_all2 carries (outbox_events s) es" for es
    using same that by (auto simp: list_all2_conv_all_nth same_message_def carries_def)
  with assms(1) keys aud show ?thesis by (simp add: adj_log_ok_def outbox_keys_ok_def ledger_ok_def)
qed

section \<open>All operations\<close>

definition adj_init :: "adj_store \<Rightarrow> bool" where
  "adj_init s \<longleftrightarrow> audit_events s = [] \<and> outbox_events s = [] \<and> findings s = [] \<and> decisions s = [] \<and> responses s = [] \<and>
     actions s = [] \<and> assessments s = [] \<and> reviews s = [] \<and> disputes s = [] \<and> retests s = []"

definition adj_move :: "adj_config \<Rightarrow> adj_store \<Rightarrow> adj_store \<Rightarrow> bool" where
  "adj_move cfg s s' \<longleftrightarrow> recorded_change cfg s s' \<or> ticket_failure s s' \<and> adj_change cfg s s' \<or> outbox_follow s s' \<or>
     (\<exists>ts. s' = s\<lparr>tenant_ids := ts\<rparr> \<and> set (tenant_ids s) \<subseteq> set ts) \<or>
     (\<exists>es. s' = s\<lparr>engagement_ids := es\<rparr> \<and> set (engagement_ids s) \<subseteq> set es)"

lemma validated_Inr: "validated ok m = Inr s' \<longleftrightarrow> ok \<and> (\<exists>x. m = Inr (x, s'))"
  by (auto simp: validated_def res_simps)

lemmas operation_changes = propose_change adjudicate_change assess_materiality_change override_severity_change review_quality_change
  raise_dispute_change resolve_dispute_change open_remediation_change ticket_filed_change submit_closure_change
  retest_change reopen_for_remediation_change

lemma adj_step_cases:
  assumes "adj_log_ok s" "adj_step cfg op s = Inr s'"
  shows "recorded_change cfg s s' \<or> outbox_follow s s' \<or>
     (\<exists>ts. s' = s\<lparr>tenant_ids := ts\<rparr> \<and> set (tenant_ids s) \<subseteq> set ts) \<or>
     (\<exists>es. s' = s\<lparr>engagement_ids := es\<rparr> \<and> set (engagement_ids s) \<subseteq> set es) \<or>
     (\<exists>tenant aid f system msg. op = TicketFailed tenant aid f system msg) \<and> ticket_failure s s' \<and> adj_change cfg s s'"
proof -
  have keys: "distinct (map outbox_id (outbox_events s))" using assms(1) by (simp add: adj_log_ok_def outbox_keys_ok_def)
  have claim: "outbox_claim w now secs limit s = Inr (x, t) \<Longrightarrow> outbox_follow s t" for w now secs limit x t
    using claim_rows_follow[OF keys, of w now "of_int secs" "outbox_pending (Some now) (nat limit) s"]
    by (auto simp: outbox_claim_def split: if_splits)
  show ?thesis
  proof (cases "recorded_change cfg s s'")
    case False
    then show ?thesis
      using assms(2) mark_published_follow[OF keys] mark_failed_follow[OF keys]
      by (cases op) (auto simp: validated_Inr dest: operation_changes claim ticket_failed_change)
  qed simp
qed

lemma adj_step_moves: "adj_log_ok s \<Longrightarrow> adj_step cfg op s = Inr s' \<Longrightarrow> adj_move cfg s s'"
  unfolding adj_move_def by (drule adj_step_cases, assumption) (elim disjE conjE, simp_all)

lemma adj_log_ok_cong: "audit_events s' = audit_events s \<Longrightarrow> outbox_events s' = outbox_events s \<Longrightarrow> adj_log_ok s' \<longleftrightarrow> adj_log_ok s"
  by (simp add: adj_log_ok_def ledger_ok_def outbox_keys_ok_def)

lemma adj_move_log:
  assumes "adj_log_ok s" "adj_move cfg s s'"
  shows "adj_log_ok s'"
proof -
  consider "s' = s" | "published s s' \<or> unpublished s s'" | "outbox_follow s s'" | "audit_events s' = audit_events s" "outbox_events s' = outbox_events s"
    using assms(2) by (auto simp: adj_move_def recorded_change_def ticket_failure_def)
  then show ?thesis
    by cases (use assms(1) adj_log_ok_emitted adj_log_ok_follow adj_log_ok_cong in blast)+
qed

lemma adj_move_change:
  assumes "adj_move cfg s s'"
  shows "adj_change cfg s s'"
proof -
  consider "adj_change cfg s s'" | "tabs s' = tabs s" | "\<exists>ts. s' = s\<lparr>tenant_ids := ts\<rparr> \<and> set (tenant_ids s) \<subseteq> set ts"
    | "\<exists>es. s' = s\<lparr>engagement_ids := es\<rparr> \<and> set (engagement_ids s) \<subseteq> set es"
    using assms by (auto simp: adj_move_def recorded_change_def outbox_follow_def dest: tabs_more)
  then show ?thesis
  proof cases
    case 3
    then obtain ts where "s' = s\<lparr>tenant_ids := ts\<rparr>" "set (tenant_ids s) \<subseteq> set ts" by (elim exE conjE)
    then show ?thesis by (intro ch_environment[where ts = ts and es = "engagement_ids s"]) (simp_all add: tabs_def)
  next
    case 4
    then obtain es where "s' = s\<lparr>engagement_ids := es\<rparr>" "set (engagement_ids s) \<subseteq> set es" by (elim exE conjE)
    then show ?thesis by (intro ch_environment[where ts = "tenant_ids s" and es = es]) (simp_all add: tabs_def)
  qed (auto intro: ch_same)
qed

end
