(* ===== verification/Adj_Inv.thy ===== *)
theory Adj_Inv
  imports Adj_Refine
begin

text \<open>
  Invariants of the adjudication tables, in layers: keys and references, the lifecycle state of
  each finding against its approvals, actions and open disputes, and the record behind a closure.
  Each layer is preserved by every change of the contract.
\<close>

section \<open>Keys and references\<close>

definition keys_ok :: "adj_store \<Rightarrow> bool" where
  "keys_ok s \<longleftrightarrow>
     distinct (map finding_id (findings s)) \<and> distinct (map action_id (actions s)) \<and> distinct (map dispute_id (disputes s)) \<and>
     distinct (map assessment_id (assessments s)) \<and> distinct (map ra_finding (actions s)) \<and>
     distinct (map (\<lambda>f. (fn_engagement f, fn_code f, fn_version f)) (findings s)) \<and>
     (\<forall>a \<in> set (actions s). \<exists>f \<in> set (findings s). finding_id f = ra_finding a \<and> fn_tenant f = ra_tenant a) \<and>
     (\<forall>d \<in> set (disputes s). \<exists>f \<in> set (findings s). finding_id f = ds_finding d \<and> fn_tenant f = ds_tenant d)"

text \<open>What no change alters of a finding.\<close>

definition same_finding :: "finding_row \<Rightarrow> finding_row \<Rightarrow> bool" where
  "same_finding f f' \<longleftrightarrow> f' = f\<lparr>fn_status := fn_status f', fn_severity := fn_severity f'\<rparr>"

lemma same_finding_simps [simp]:
  "same_finding f (f\<lparr>fn_status := st\<rparr>)" "same_finding f (f\<lparr>fn_severity := sv\<rparr>)" "same_finding f (escalate m f)" "same_finding f f"
  by (simp_all add: same_finding_def escalate_def)

lemma same_finding_fields:
  assumes "same_finding f f'"
  shows "finding_id f' = finding_id f" "fn_tenant f' = fn_tenant f" "fn_engagement f' = fn_engagement f" "fn_code f' = fn_code f"
    "fn_version f' = fn_version f" "fn_authored_by f' = fn_authored_by f" "fn_evidence_ids f' = fn_evidence_ids f"
    "fn_skeptic_reviewed_at f' = fn_skeptic_reviewed_at f"
proof -
  obtain st sv where "f' = f\<lparr>fn_status := st, fn_severity := sv\<rparr>" using assms unfolding same_finding_def by (rule that)
  then show "finding_id f' = finding_id f" "fn_tenant f' = fn_tenant f" "fn_engagement f' = fn_engagement f" "fn_code f' = fn_code f"
    "fn_version f' = fn_version f" "fn_authored_by f' = fn_authored_by f" "fn_evidence_ids f' = fn_evidence_ids f"
    "fn_skeptic_reviewed_at f' = fn_skeptic_reviewed_at f" by simp_all
qed

lemma get_finding_Some: "get_finding tenant fid s = Some f \<Longrightarrow> f \<in> set (findings s) \<and> finding_id f = fid \<and> fn_tenant f = tenant"
  by (auto simp: get_finding_def find_Some_iff)

lemma get_action_Some: "get_action tenant aid s = Some a \<Longrightarrow> a \<in> set (actions s) \<and> action_id a = aid \<and> ra_tenant a = tenant"
  by (auto simp: get_action_def find_Some_iff)

lemma get_dispute_Some: "get_dispute tenant did s = Some d \<Longrightarrow> d \<in> set (disputes s) \<and> dispute_id d = did \<and> ds_tenant d = tenant"
  by (auto simp: get_dispute_def find_Some_iff)

lemma open_action_for_Some: "open_action_for tenant fid s = Some a \<Longrightarrow> a \<in> set (actions s) \<and> ra_finding a = fid \<and> ra_tenant a = tenant"
  using first_row_sorted[of ra_created_at "\<lambda>a. ra_tenant a = tenant \<and> ra_finding a = fid" "actions s" a]
  by (simp add: open_action_for_def actions_of_def)

lemma open_action_for_None: "open_action_for tenant fid s = None \<longleftrightarrow> (\<forall>a \<in> set (actions s). \<not> (ra_tenant a = tenant \<and> ra_finding a = fid))"
  unfolding open_action_for_def actions_of_def by (rule first_row_None)

lemma open_dispute_None:
  "open_dispute tenant fid s = None \<longleftrightarrow> (\<forall>d \<in> set (disputes s). \<not> (ds_tenant d = tenant \<and> ds_finding d = fid \<and> ds_status d = ''open''))"
  unfolding open_dispute_def by (rule first_row_None)

text \<open>
  Every change keeps the findings: at most one is replaced, by the same finding with another status
  or severity, and at most one is added.
\<close>

definition keeps_findings :: "adj_store \<Rightarrow> adj_store \<Rightarrow> bool" where
  "keeps_findings s s' \<longleftrightarrow>
     findings s' = findings s \<or>
     (\<exists>f f'. f \<in> set (findings s) \<and> same_finding f f' \<and> findings s' = put finding_id f' (findings s)) \<or>
     (\<exists>f. \<not> has_key finding_id (finding_id f) (findings s) \<and>
        \<not> has_key (\<lambda>r. (fn_engagement r, fn_code r, fn_version r)) (fn_engagement f, fn_code f, fn_version f) (findings s) \<and>
        findings s' = findings s @ [f])"

lemma keeps_same: "findings s' = findings s \<Longrightarrow> keeps_findings s s'"
  by (simp add: keeps_findings_def)

lemma keeps_put: "findings s' = put finding_id f' (findings s) \<Longrightarrow> f \<in> set (findings s) \<Longrightarrow> same_finding f f' \<Longrightarrow> keeps_findings s s'"
  unfolding keeps_findings_def by blast

lemmas put_defs = put_finding_def put_assessment_def put_action_def put_dispute_def

lemma adj_change_keeps: "adj_change cfg s s' \<Longrightarrow> keeps_findings s s'"
proof (induction rule: adj_change.induct)
  case (ch_proposed f s s' ds)
  then show ?case unfolding keeps_findings_def by (intro disjI2 exI[of _ f]) (simp add: tabs_def)
qed (auto dest!: get_finding_Some tabs_fields(3) simp: put_defs intro: keeps_same elim!: keeps_put)

text \<open>The other tables with rows that change.\<close>

definition keeps_actions :: "adj_store \<Rightarrow> adj_store \<Rightarrow> bool" where
  "keeps_actions s s' \<longleftrightarrow>
     actions s' = actions s \<or>
     (\<exists>a a'. a \<in> set (actions s) \<and> action_id a' = action_id a \<and> ra_tenant a' = ra_tenant a \<and> ra_finding a' = ra_finding a \<and>
        owner_ref a' = owner_ref a \<and> closure_evidence_required a' = closure_evidence_required a \<and>
        (truthy (external_ref a) \<longrightarrow> external_ref a' = external_ref a) \<and> actions s' = put action_id a' (actions s)) \<or>
     (\<exists>a f. \<not> has_key action_id (action_id a) (actions s) \<and> f \<in> set (findings s) \<and> finding_id f = ra_finding a \<and>
        fn_tenant f = ra_tenant a \<and> open_action_for (ra_tenant a) (ra_finding a) s = None \<and> actions s' = actions s @ [a])"

lemma keeps_actions_put:
  "actions s' = put action_id a' (actions s) \<Longrightarrow> a \<in> set (actions s) \<Longrightarrow> action_id a' = action_id a \<Longrightarrow> ra_tenant a' = ra_tenant a \<Longrightarrow>
   ra_finding a' = ra_finding a \<Longrightarrow> owner_ref a' = owner_ref a \<Longrightarrow> closure_evidence_required a' = closure_evidence_required a \<Longrightarrow>
   (truthy (external_ref a) \<Longrightarrow> external_ref a' = external_ref a) \<Longrightarrow> keeps_actions s s'"
  unfolding keeps_actions_def by blast

lemma keeps_actions_same: "actions s' = actions s \<Longrightarrow> keeps_actions s s'"
  by (simp add: keeps_actions_def)

lemma adj_change_keeps_actions: "adj_change cfg s s' \<Longrightarrow> keeps_actions s s'"
proof (induction rule: adj_change.induct)
  case (ch_opened tenant fid s f a aid r now s')
  then have "f \<in> set (findings s)" "finding_id f = fid" "fn_tenant f = tenant" "actions s' = actions s @ [a]"
    by (auto dest!: get_finding_Some tabs_fields(6) simp: put_defs)
  with ch_opened show ?case unfolding keeps_actions_def by (intro disjI2 exI[of _ a] exI[of _ f]) (simp add: new_action_def)
next
  case (ch_reopened tenant fid s f a a' due plan s')
  then show ?case
    by (intro keeps_actions_put[where a = a and a' = a']) (auto dest!: open_action_for_Some tabs_fields(6) simp: put_defs)
qed (auto dest!: get_action_Some tabs_fields(6) simp: put_defs same_remediation_def intro: keeps_actions_same elim!: keeps_actions_put)

definition keeps_disputes :: "adj_store \<Rightarrow> adj_store \<Rightarrow> bool" where
  "keeps_disputes s s' \<longleftrightarrow>
     disputes s' = disputes s \<or>
     (\<exists>d d'. d \<in> set (disputes s) \<and> dispute_id d' = dispute_id d \<and> ds_tenant d' = ds_tenant d \<and> ds_finding d' = ds_finding d \<and>
        disputes s' = put dispute_id d' (disputes s)) \<or>
     (\<exists>d f. \<not> has_key dispute_id (dispute_id d) (disputes s) \<and> f \<in> set (findings s) \<and> finding_id f = ds_finding d \<and>
        fn_tenant f = ds_tenant d \<and> disputes s' = disputes s @ [d])"

lemma keeps_disputes_same: "disputes s' = disputes s \<Longrightarrow> keeps_disputes s s'"
  by (simp add: keeps_disputes_def)

lemma adj_change_keeps_disputes: "adj_change cfg s s' \<Longrightarrow> keeps_disputes s s'"
proof (induction rule: adj_change.induct)
  case (ch_disputed tenant fid s f d s')
  then have "f \<in> set (findings s)" "finding_id f = fid" "fn_tenant f = tenant" "disputes s' = disputes s @ [d]"
    by (auto dest!: get_finding_Some tabs_fields(9) simp: put_defs)
  with ch_disputed show ?case unfolding keeps_disputes_def by (intro disjI2 exI[of _ d] exI[of _ f]) simp
next
  case (ch_resolved tenant did s d f res d' actor dec s')
  then have "d \<in> set (disputes s)" "disputes s' = put dispute_id d' (disputes s)"
    by (auto dest!: get_dispute_Some tabs_fields(9) simp: put_defs)
  with ch_resolved show ?case unfolding keeps_disputes_def by (intro disjI2 disjI1 exI[of _ d] exI[of _ d']) simp
qed (auto dest!: tabs_fields(9) simp: put_defs intro: keeps_disputes_same)

lemma adj_change_assessments: "adj_change cfg s s' \<Longrightarrow> distinct (map assessment_id (assessments s)) \<Longrightarrow> distinct (map assessment_id (assessments s'))"
  by (induction rule: adj_change.induct) (auto dest!: tabs_fields(7) simp: put_defs map_key_put has_key_image)

lemma keeps_findings_rows:
  assumes "keeps_findings s s'" "distinct (map finding_id (findings s))" "f \<in> set (findings s)"
  shows "\<exists>f' \<in> set (findings s'). same_finding f f'"
  using assms(1) unfolding keeps_findings_def
proof (elim disjE exE conjE)
  fix g g' assume g: "g \<in> set (findings s)" "same_finding g g'" "findings s' = put finding_id g' (findings s)"
  show ?thesis
  proof (cases "f = g")
    case True
    with g same_finding_fields(1)[OF g(2)] show ?thesis
      by (intro bexI[of _ g']) (auto simp: in_set_put[OF assms(2)] has_key_def)
  next
    case False
    then have "finding_id f \<noteq> finding_id g'" using same_finding_fields(1)[OF g(2)] g(1) assms(2,3) by (metis row_distinct option.inject)
    with g(3) assms(3) show ?thesis by (intro bexI[of _ f]) (auto simp: in_set_put[OF assms(2)])
  qed
qed (use assms(3) in \<open>auto intro!: bexI[of _ f]\<close>)

lemma same_key: "distinct (map key xs) \<Longrightarrow> x \<in> set xs \<Longrightarrow> y \<in> set xs \<Longrightarrow> key x = key y \<Longrightarrow> x = y"
  by (simp add: distinct_map inj_on_def)

lemma keys_ok_change:
  assumes "keys_ok s" "adj_change cfg s s'"
  shows "keys_ok s'"
proof -
  note k = assms(1)[unfolded keys_ok_def]
  note f = adj_change_keeps[OF assms(2)] and a = adj_change_keeps_actions[OF assms(2)] and d = adj_change_keeps_disputes[OF assms(2)]
  have there: "\<exists>f' \<in> set (findings s'). finding_id f' = i \<and> fn_tenant f' = t" if "\<exists>g \<in> set (findings s). finding_id g = i \<and> fn_tenant g = t" for i t
  proof -
    from that obtain g where g: "g \<in> set (findings s)" "finding_id g = i" "fn_tenant g = t" by blast
    from keeps_findings_rows[OF f conjunct1[OF k] g(1)] obtain g' where "g' \<in> set (findings s')" "same_finding g g'" by blast
    note g' = this
    show ?thesis by (rule bexI[OF _ g'(1)]) (simp add: same_finding_fields(1,2)[OF g'(2)] g(2,3))
  qed
  have "distinct (map finding_id (findings s'))"
    using f k unfolding keeps_findings_def by (auto simp: map_key_put has_key_image)
  moreover have "distinct (map (\<lambda>f. (fn_engagement f, fn_code f, fn_version f)) (findings s'))"
  proof -
    have same: "map (\<lambda>f. (fn_engagement f, fn_code f, fn_version f)) (put finding_id g' (findings s))
        = map (\<lambda>f. (fn_engagement f, fn_code f, fn_version f)) (findings s)" if g: "g \<in> set (findings s)" "same_finding g g'" for g g'
    proof (rule map_put_same)
      fix x assume x: "x \<in> set (findings s)" "finding_id x = finding_id g'"
      then have "x = g" by (intro same_key[OF conjunct1[OF k]] g(1)) (simp_all add: same_finding_fields(1)[OF g(2)])
      with same_finding_fields[OF g(2)] show "(fn_engagement g', fn_code g', fn_version g') = (fn_engagement x, fn_code x, fn_version x)" by simp
    qed
    show ?thesis using f k unfolding keeps_findings_def by (auto simp: same has_key_image)
  qed
  moreover have "distinct (map action_id (actions s'))" using a k unfolding keeps_actions_def by (auto simp: map_key_put has_key_image)
  moreover have "distinct (map dispute_id (disputes s'))" using d k unfolding keeps_disputes_def by (auto simp: map_key_put has_key_image)
  moreover have "distinct (map assessment_id (assessments s'))" using adj_change_assessments[OF assms(2)] k by simp
  moreover have "distinct (map ra_finding (actions s'))"
    using a unfolding keeps_actions_def
  proof (elim disjE exE conjE)
    fix b b' assume b: "b \<in> set (actions s)" "action_id b' = action_id b" "ra_finding b' = ra_finding b" "actions s' = put action_id b' (actions s)"
    have "map ra_finding (put action_id b' (actions s)) = map ra_finding (actions s)"
    proof (rule map_put_same)
      fix x assume "x \<in> set (actions s)" "action_id x = action_id b'"
      then have "x = b" by (intro same_key[OF conjunct1[OF conjunct2[OF k]]] b(1)) (simp_all add: b(2))
      with b(3) show "ra_finding b' = ra_finding x" by simp
    qed
    with b(4) k show ?thesis by simp
  next
    fix b g assume b: "g \<in> set (findings s)" "finding_id g = ra_finding b" "fn_tenant g = ra_tenant b"
      "open_action_for (ra_tenant b) (ra_finding b) s = None" "actions s' = actions s @ [b]"
    have "ra_finding b \<notin> ra_finding ` set (actions s)"
    proof
      assume "ra_finding b \<in> ra_finding ` set (actions s)"
      then obtain x where x: "x \<in> set (actions s)" "ra_finding x = ra_finding b" by auto
      from k x(1) obtain h where "h \<in> set (findings s)" "finding_id h = ra_finding x" "fn_tenant h = ra_tenant x" by blast
      moreover from this have "h = g" by (intro same_key[OF conjunct1[OF k]] b(1)) (simp_all add: b(2) x(2))
      ultimately show False using b x by (auto simp: open_action_for_None)
    qed
    with b(5) k show ?thesis by simp
  qed (use k in simp)
  moreover have "\<forall>a \<in> set (actions s'). \<exists>f \<in> set (findings s'). finding_id f = ra_finding a \<and> fn_tenant f = ra_tenant a"
  proof
    fix x assume "x \<in> set (actions s')"
    then have "\<exists>g \<in> set (findings s). finding_id g = ra_finding x \<and> fn_tenant g = ra_tenant x"
      using a k unfolding keeps_actions_def by (elim disjE exE conjE) (auto simp: put_def)
    then show "\<exists>f \<in> set (findings s'). finding_id f = ra_finding x \<and> fn_tenant f = ra_tenant x" by (rule there)
  qed
  moreover have "\<forall>d \<in> set (disputes s'). \<exists>f \<in> set (findings s'). finding_id f = ds_finding d \<and> fn_tenant f = ds_tenant d"
  proof
    fix x assume "x \<in> set (disputes s')"
    then have "\<exists>g \<in> set (findings s). finding_id g = ds_finding x \<and> fn_tenant g = ds_tenant x"
      using d k unfolding keeps_disputes_def by (elim disjE exE conjE) (auto simp: put_def)
    then show "\<exists>f \<in> set (findings s'). finding_id f = ds_finding x \<and> fn_tenant f = ds_tenant x" by (rule there)
  qed
  ultimately show ?thesis by (simp add: keys_ok_def)
qed

section \<open>The state of a finding\<close>

definition human_approved :: "adj_config \<Rightarrow> adj_store \<Rightarrow> ident \<Rightarrow> bool" where
  "human_approved cfg s fid \<longleftrightarrow> (\<exists>d \<in> set (decisions s). ad_finding d = Some fid \<and> decision_type d = ''human:approve'' \<and>
     \<not> automated_actor cfg (ad_actor_id d))"

definition acted :: "adj_store \<Rightarrow> ident \<Rightarrow> bool" where
  "acted s fid \<longleftrightarrow> fid \<in> ra_finding ` set (actions s)"

definition contested :: "adj_store \<Rightarrow> ident \<Rightarrow> bool" where
  "contested s fid \<longleftrightarrow> (\<exists>d \<in> set (disputes s). ds_finding d = fid \<and> ds_status d = ''open'')"

definition past_approval :: "finding_status set" where
  "past_approval = {APPROVED, REMEDIATION_OPEN, REMEDIATION_DECLARED_COMPLETE, RETEST_IN_PROGRESS, CLOSED_VERIFIED, REOPENED}"

definition remediated :: "finding_status set" where
  "remediated = {REMEDIATION_OPEN, REMEDIATION_DECLARED_COMPLETE, CLOSED_VERIFIED, REOPENED}"

definition status_ok :: "finding_status \<Rightarrow> bool \<Rightarrow> bool \<Rightarrow> bool \<Rightarrow> bool" where
  "status_ok st approved act cont \<longleftrightarrow>
     (st \<in> past_approval \<longrightarrow> approved) \<and> (st \<in> remediated \<longleftrightarrow> act) \<and> (st = DISPUTED \<longrightarrow> cont) \<and>
     (cont \<longrightarrow> st \<in> {DISPUTED, REJECTED}) \<and> st \<noteq> RETEST_IN_PROGRESS"

lemmas status_defs = status_ok_def past_approval_def remediated_def

lemma status_ok_remediated: "status_ok st ap True c \<Longrightarrow> st' \<in> remediated \<Longrightarrow> status_ok st' ap True c"
  by (cases st) (auto simp: status_defs)

lemma status_ok_opened: "status_ok st ap act c \<Longrightarrow> REMEDIATION_OPEN \<in> set (ALLOWED_TRANSITIONS st) \<Longrightarrow> status_ok REMEDIATION_OPEN ap True c"
  by (cases st) (simp_all add: status_defs)

definition finding_wf :: "finding_row \<Rightarrow> bool" where
  "finding_wf f \<longleftrightarrow> fn_severity f \<in> set SEVERITY_ORDER \<and> fn_evidence_ids f \<noteq> [] \<and> fn_skeptic_reviewed_at f \<noteq> None \<and> fn_authored_by f \<noteq> None"

definition finding_ok :: "adj_config \<Rightarrow> adj_store \<Rightarrow> finding_row \<Rightarrow> bool" where
  "finding_ok cfg s f \<longleftrightarrow> finding_wf f \<and>
     status_ok (fn_status f) (human_approved cfg s (finding_id f)) (acted s (finding_id f)) (contested s (finding_id f))"

definition disputes_ok :: "adj_config \<Rightarrow> adj_store \<Rightarrow> bool" where
  "disputes_ok cfg s \<longleftrightarrow>
     (\<forall>d \<in> set (disputes s). ds_status d = ''open'' \<longrightarrow> prior_status d \<in> {PROPOSED, APPROVED} \<and>
        (prior_status d = APPROVED \<longrightarrow> human_approved cfg s (ds_finding d))) \<and>
     (\<forall>d \<in> set (disputes s). \<forall>e \<in> set (disputes s). ds_status d = ''open'' \<longrightarrow> ds_status e = ''open'' \<longrightarrow> ds_finding d = ds_finding e \<longrightarrow> d = e)"

definition lifecycle_ok :: "adj_config \<Rightarrow> adj_store \<Rightarrow> bool" where
  "lifecycle_ok cfg s \<longleftrightarrow> (\<forall>f \<in> set (findings s). finding_ok cfg s f) \<and> disputes_ok cfg s"

lemma human_approved_mono: "set (decisions s) \<subseteq> set (decisions s') \<Longrightarrow> human_approved cfg s fid \<Longrightarrow> human_approved cfg s' fid"
  unfolding human_approved_def by blast

lemma disputes_ok_mono:
  "disputes_ok cfg s \<Longrightarrow> disputes s' = disputes s \<Longrightarrow> set (decisions s) \<subseteq> set (decisions s') \<Longrightarrow> disputes_ok cfg s'"
  unfolding disputes_ok_def by (simp, meson human_approved_mono)

lemma finding_ok_mono:
  assumes "finding_ok cfg s f" "set (decisions s) \<subseteq> set (decisions s')" "acted s' (finding_id f) = acted s (finding_id f)"
    "contested s' (finding_id f) = contested s (finding_id f)"
  shows "finding_ok cfg s' f"
  using assms human_approved_mono[OF assms(2), of cfg "finding_id f"] by (auto simp: finding_ok_def status_ok_def)

text \<open>A change that replaces one finding, keeps the decisions and touches no other finding's actions and disputes.\<close>

lemma lifecycle_put:
  assumes "keys_ok s" "lifecycle_ok cfg s" "f \<in> set (findings s)" "same_finding f f'" "findings s' = put finding_id f' (findings s)"
    "set (decisions s) \<subseteq> set (decisions s')"
    "\<And>g. g \<noteq> finding_id f \<Longrightarrow> acted s' g = acted s g \<and> contested s' g = contested s g"
    "fn_severity f' \<in> set SEVERITY_ORDER" "disputes_ok cfg s'"
    "status_ok (fn_status f') (human_approved cfg s' (finding_id f)) (acted s' (finding_id f)) (contested s' (finding_id f))"
  shows "lifecycle_ok cfg s'"
proof -
  have dist: "distinct (map finding_id (findings s))" using assms(1) by (simp add: keys_ok_def)
  note id = same_finding_fields[OF assms(4)]
  have "finding_wf f" using assms(2,3) by (simp add: lifecycle_ok_def finding_ok_def)
  then have f': "finding_ok cfg s' f'" using assms(8,10) by (simp add: finding_ok_def finding_wf_def id)
  have "finding_ok cfg s' x" if x: "x \<in> set (findings s')" for x
  proof (cases "finding_id x = finding_id f")
    case True
    with x dist have "x = f'" by (auto simp: assms(5) in_set_put id(1) has_key_def assms(3) split: if_splits intro: same_key[OF dist])
    with f' show ?thesis by simp
  next
    case False
    with x dist have "x \<in> set (findings s)" by (auto simp: assms(5) in_set_put id(1) split: if_splits)
    with assms(2) False show ?thesis by (intro finding_ok_mono[OF _ assms(6)]) (simp_all add: lifecycle_ok_def assms(7))
  qed
  with assms(9) show ?thesis by (simp add: lifecycle_ok_def)
qed

lemma lifecycle_same:
  assumes "lifecycle_ok cfg s" "findings s' = findings s" "decisions s' = decisions s" "ra_finding ` set (actions s') = ra_finding ` set (actions s)"
    "disputes s' = disputes s"
  shows "lifecycle_ok cfg s'"
  using assms by (auto simp: lifecycle_ok_def disputes_ok_def finding_ok_def human_approved_def acted_def contested_def)

lemma acted_put:
  assumes "keys_ok s" "a \<in> set (actions s)" "action_id a' = action_id a" "ra_finding a' = ra_finding a"
  shows "ra_finding ` set (put action_id a' (actions s)) = ra_finding ` set (actions s)"
proof -
  have "map ra_finding (put action_id a' (actions s)) = map ra_finding (actions s)"
  proof (rule map_put_same)
    fix x assume "x \<in> set (actions s)" "action_id x = action_id a'"
    then have "x = a" using assms by (intro same_key[of action_id "actions s"]) (simp_all add: keys_ok_def)
    then show "ra_finding a' = ra_finding x" using assms(4) by simp
  qed
  then show ?thesis by (metis set_map)
qed

lemma not_contested:
  assumes "keys_ok s" "f \<in> set (findings s)" "open_dispute (fn_tenant f) (finding_id f) s = None"
  shows "\<not> contested s (finding_id f)"
proof
  assume "contested s (finding_id f)"
  then obtain d where d: "d \<in> set (disputes s)" "ds_finding d = finding_id f" "ds_status d = ''open''" by (auto simp: contested_def)
  from assms(1) d(1) obtain g where g: "g \<in> set (findings s)" "finding_id g = ds_finding d" "fn_tenant g = ds_tenant d"
    unfolding keys_ok_def by blast
  have "g = f" using assms(1,2) g d(2) by (intro same_key[of finding_id "findings s"]) (simp_all add: keys_ok_def)
  with g d assms(3) show False by (auto simp: open_dispute_None)
qed

lemma gates_closed: "require_approval_preconditions cfg tenant f actor s = Inr () \<Longrightarrow> open_dispute tenant (finding_id f) s = None"
  by (auto simp: require_approval_preconditions_def open_gates_def Let_def split: if_splits)

lemma fresh_finding_idle:
  assumes "keys_ok s" "\<not> has_key finding_id i (findings s)"
  shows "\<not> acted s i" "\<not> contested s i"
proof -
  show "\<not> acted s i"
  proof
    assume "acted s i"
    then obtain a where "a \<in> set (actions s)" "ra_finding a = i" by (auto simp: acted_def)
    with assms show False by (auto simp: keys_ok_def has_key_def)
  qed
  show "\<not> contested s i"
  proof
    assume "contested s i"
    then obtain d where "d \<in> set (disputes s)" "ds_finding d = i" by (auto simp: contested_def)
    with assms show False by (auto simp: keys_ok_def has_key_def)
  qed
qed

text \<open>A dispute joins the open ones when its finding has none, and leaves them when it is resolved.\<close>

lemma disputes_ok_raise:
  assumes ok: "disputes_ok cfg s" and t: "disputes s' = disputes s @ [d]" "decisions s' = decisions s"
    and d: "prior_status d \<in> {PROPOSED, APPROVED}" "prior_status d = APPROVED \<Longrightarrow> human_approved cfg s (ds_finding d)"
    and nc: "\<not> contested s (ds_finding d)"
  shows "disputes_ok cfg s'"
proof -
  have app: "human_approved cfg s' g = human_approved cfg s g" for g by (simp add: human_approved_def t)
  have lone: "ds_finding e \<noteq> ds_finding d" if "e \<in> set (disputes s)" "ds_status e = ''open''" for e
    using nc that unfolding contested_def by blast
  show ?thesis unfolding disputes_ok_def
  proof (intro conjI ballI impI)
    fix e assume "e \<in> set (disputes s')" "ds_status e = ''open''"
    then show "prior_status e \<in> {PROPOSED, APPROVED}"
      using ok d(1) by (cases "e = d") (simp_all add: t disputes_ok_def)
  next
    fix e assume "e \<in> set (disputes s')" "ds_status e = ''open''" "prior_status e = APPROVED"
    then show "human_approved cfg s' (ds_finding e)"
      using ok d(2) by (cases "e = d") (simp_all add: t disputes_ok_def app)
  next
    fix e x assume "e \<in> set (disputes s')" "x \<in> set (disputes s')" "ds_status e = ''open''" "ds_status x = ''open''" "ds_finding e = ds_finding x"
    then show "e = x" using ok lone[of e] lone[of x] by (cases "e = d"; cases "x = d") (simp_all add: t disputes_ok_def)
  qed
qed

lemma dispute_resolved:
  assumes k: "keys_ok s" and ok: "disputes_ok cfg s" and d: "d \<in> set (disputes s)" "ds_status d = ''open''"
    and d': "dispute_id d' = dispute_id d" "ds_status d' = ''resolved''"
    and t: "disputes s' = put dispute_id d' (disputes s)" "set (decisions s) \<subseteq> set (decisions s')"
  shows "disputes_ok cfg s'" "contested s' g \<longleftrightarrow> contested s g \<and> g \<noteq> ds_finding d"
proof -
  have ids: "distinct (map dispute_id (disputes s))" using k by (simp add: keys_ok_def)
  have live: "e \<in> set (disputes s') \<and> ds_status e = ''open'' \<longleftrightarrow> e \<in> set (disputes s) \<and> ds_status e = ''open'' \<and> e \<noteq> d" for e
    using d d' same_key[OF ids _ d(1)] by (auto simp: t in_set_put[OF ids] has_key_def)
  show "disputes_ok cfg s'" unfolding disputes_ok_def
  proof (intro conjI ballI impI)
    fix e assume "e \<in> set (disputes s')" "ds_status e = ''open''"
    then show "prior_status e \<in> {PROPOSED, APPROVED}" using ok live[of e] by (simp add: disputes_ok_def)
  next
    fix e assume "e \<in> set (disputes s')" "ds_status e = ''open''" "prior_status e = APPROVED"
    then show "human_approved cfg s' (ds_finding e)" using ok live[of e] human_approved_mono[OF t(2)] by (simp add: disputes_ok_def)
  next
    fix e x assume "e \<in> set (disputes s')" "x \<in> set (disputes s')" "ds_status e = ''open''" "ds_status x = ''open''" "ds_finding e = ds_finding x"
    then show "e = x" using ok live[of e] live[of x] by (simp add: disputes_ok_def)
  qed
  have uniq: "e = d" if "e \<in> set (disputes s)" "ds_status e = ''open''" "ds_finding e = ds_finding d" for e
    using ok that d by (simp add: disputes_ok_def)
  show "contested s' g \<longleftrightarrow> contested s g \<and> g \<noteq> ds_finding d"
    using live uniq unfolding contested_def by blast
qed

text \<open>A finding with a remediation moves between the remediated states.\<close>

lemma lifecycle_remediate:
  assumes k: "keys_ok s" "lifecycle_ok cfg s" "f \<in> set (findings s)" "a \<in> set (actions s)"
    and a': "ra_finding a = finding_id f" "action_id a' = action_id a" "ra_finding a' = ra_finding a" and st: "st \<in> remediated"
    and t: "findings s' = put finding_id (f\<lparr>fn_status := st\<rparr>) (findings s)" "actions s' = put action_id a' (actions s)"
      "decisions s' = decisions s" "disputes s' = disputes s"
  shows "lifecycle_ok cfg s'"
proof -
  have same: "acted s' g = acted s g" "human_approved cfg s' g = human_approved cfg s g" "contested s' g = contested s g" for g
    using acted_put[OF k(1,4) a'(2,3)] by (simp_all add: acted_def human_approved_def contested_def t)
  have old: "finding_ok cfg s f" using k(2,3) by (simp add: lifecycle_ok_def)
  have "acted s (finding_id f) = True" using imageI[OF k(4), of ra_finding] a'(1) by (simp add: acted_def)
  moreover have "disputes_ok cfg s'" by (rule disputes_ok_mono[of cfg s]) (use k(2) in \<open>auto simp: lifecycle_ok_def t\<close>)
  ultimately show ?thesis
    by (intro lifecycle_put[OF k(1,2,3) _ t(1)])
      (use old st in \<open>simp_all add: t same finding_ok_def finding_wf_def status_ok_remediated[of "fn_status f"]\<close>)
qed

lemma lifecycle_ok_change:
  assumes "adj_change cfg s s'" "keys_ok s" "lifecycle_ok cfg s"
  shows "lifecycle_ok cfg s'"
  using assms
proof (induction rule: adj_change.induct)
  case (ch_same s' s)
  show ?case by (rule lifecycle_same[of cfg s]) (use ch_same in \<open>simp_all add: tabs_def\<close>)
next
  case (ch_environment s' ts es s)
  show ?case by (rule lifecycle_same[of cfg s]) (use ch_environment in \<open>simp_all add: tabs_def\<close>)
next
  case (ch_proposed f s s' ds)
  then have t: "findings s' = findings s @ [f]" "decisions s' = decisions s @ ds" "actions s' = actions s" "disputes s' = disputes s"
    by (simp_all add: tabs_def)
  have same: "acted s' g = acted s g" "contested s' g = contested s g" for g by (simp_all add: acted_def contested_def t)
  have "finding_ok cfg s' f"
    using ch_proposed(2-6) fresh_finding_idle[OF ch_proposed(12,1)] by (auto simp: finding_ok_def finding_wf_def same status_defs)
  moreover have "finding_ok cfg s' x" if "x \<in> set (findings s)" for x
    using ch_proposed(13) that by (auto simp: lifecycle_ok_def t same intro!: finding_ok_mono[of cfg s x s'])
  moreover have "disputes_ok cfg s'"
    by (rule disputes_ok_mono[of cfg s]) (use ch_proposed(13) in \<open>simp_all add: lifecycle_ok_def t\<close>)
  ultimately show ?case by (auto simp: lifecycle_ok_def t)
next
  case (ch_decided tenant fid s f dec actor d s')
  then have t: "findings s' = put finding_id (f\<lparr>fn_status := decision_target dec\<rparr>) (findings s)" "decisions s' = decisions s @ [d]"
    "actions s' = actions s" "disputes s' = disputes s"
    by (simp_all add: tabs_def put_defs)
  note f = get_finding_Some[OF ch_decided(1)]
  have same: "acted s' g = acted s g" "contested s' g = contested s g" for g by (simp_all add: acted_def contested_def t)
  have old: "finding_ok cfg s f" using ch_decided(8) f by (simp add: lifecycle_ok_def)
  have app: "human_approved cfg s' fid" if "dec = APPROVE \<or> human_approved cfg s fid"
    using that ch_decided(4) by (auto simp: human_approved_def t human_verdict_def)
  have nc: "\<not> contested s fid" if "dec = APPROVE"
    using not_contested[OF ch_decided(7), of f] gates_closed[OF ch_decided(3)[OF that]] f by simp
  have "status_ok (decision_target dec) (human_approved cfg s' fid) (acted s fid) (contested s fid)"
    using old app nc ch_decided(2) f
    by (cases dec; cases "fn_status f") (auto simp: finding_ok_def status_defs)
  moreover have "disputes_ok cfg s'"
    by (rule disputes_ok_mono[of cfg s]) (use ch_decided(8) in \<open>auto simp: lifecycle_ok_def t\<close>)
  ultimately show ?case
    by (intro lifecycle_put[OF ch_decided(7,8) conjunct1[OF f] _ t(1)])
      (use f old in \<open>auto simp: t same finding_ok_def finding_wf_def\<close>)
next
  case (ch_assessed tenant fid s f minimum a s')
  then have t: "findings s' = put finding_id (escalate minimum f) (findings s)" "decisions s' = decisions s"
    "actions s' = actions s" "disputes s' = disputes s"
    by (simp_all add: tabs_def put_defs)
  note f = get_finding_Some[OF ch_assessed(1)]
  have same: "acted s' g = acted s g" "contested s' g = contested s g" "human_approved cfg s' g = human_approved cfg s g" for g
    by (simp_all add: acted_def contested_def human_approved_def t)
  have old: "finding_ok cfg s f" using ch_assessed(11) f by (simp add: lifecycle_ok_def)
  have st: "fn_status (escalate minimum f) = fn_status f" "fn_severity (escalate minimum f) \<in> set SEVERITY_ORDER"
    using old ch_assessed(2) by (simp_all add: escalate_def finding_ok_def finding_wf_def)
  have "disputes_ok cfg s'"
    by (rule disputes_ok_mono[of cfg s]) (use ch_assessed(11) in \<open>auto simp: lifecycle_ok_def t\<close>)
  then show ?case
    by (intro lifecycle_put[OF ch_assessed(10,11) conjunct1[OF f] _ t(1)])
      (use old st in \<open>simp_all add: t same finding_ok_def\<close>)
next
  case (ch_overridden tenant fid s f a sev f' a' why actor d s')
  then have t: "findings s' = put finding_id f' (findings s)" "decisions s' = decisions s @ [d]" "actions s' = actions s" "disputes s' = disputes s"
    by (simp_all add: tabs_def put_defs)
  note f = get_finding_Some[OF ch_overridden(1)]
  have same: "acted s' g = acted s g" "contested s' g = contested s g" for g by (simp_all add: acted_def contested_def t)
  have old: "finding_ok cfg s f" using ch_overridden(11) f by (simp add: lifecycle_ok_def)
  have "human_approved cfg s fid \<Longrightarrow> human_approved cfg s' fid" by (erule human_approved_mono[rotated]) (auto simp: t)
  moreover have "disputes_ok cfg s'"
    by (rule disputes_ok_mono[of cfg s]) (use ch_overridden(11) in \<open>auto simp: lifecycle_ok_def t\<close>)
  ultimately show ?case
    by (intro lifecycle_put[OF ch_overridden(10,11) conjunct1[OF f] _ t(1)])
      (use ch_overridden(3,5) old f in \<open>auto simp: t same finding_ok_def status_ok_def\<close>)
next
  case (ch_reviewed tenant fid s f r s')
  show ?case by (rule lifecycle_same[of cfg s]) (use ch_reviewed in \<open>simp_all add: tabs_def\<close>)
next
  case (ch_ticket tenant aid s a a' s')
  note a = get_action_Some[OF ch_ticket(1)]
  show ?case
    by (rule lifecycle_same[of cfg s])
      (use ch_ticket in \<open>simp_all add: tabs_def put_defs acted_put[OF ch_ticket(5) conjunct1[OF a]] same_remediation_def\<close>)
next
  case (ch_disputed tenant fid s f d s')
  then have t: "findings s' = put finding_id (f\<lparr>fn_status := DISPUTED\<rparr>) (findings s)" "decisions s' = decisions s"
    "actions s' = actions s" "disputes s' = disputes s @ [d]"
    by (simp_all add: tabs_def put_defs)
  note f = get_finding_Some[OF ch_disputed(1)]
  have old: "finding_ok cfg s f" using ch_disputed(12) f by (simp add: lifecycle_ok_def)
  have nc: "\<not> contested s fid" using not_contested[OF ch_disputed(11), of f] ch_disputed(2) f by simp
  have same: "acted s' g = acted s g" "human_approved cfg s' g = human_approved cfg s g" "contested s' g \<longleftrightarrow> contested s g \<or> g = fid" for g
    using ch_disputed(5,6) by (auto simp: acted_def human_approved_def contested_def t)
  have prior: "fn_status f \<in> {PROPOSED, APPROVED}" using ch_disputed(3) by (cases "fn_status f") auto
  have "disputes_ok cfg s'"
    by (rule disputes_ok_raise[of cfg s, OF _ t(4,2)])
      (use ch_disputed(5,7,12) old prior nc f in \<open>auto simp: lifecycle_ok_def finding_ok_def status_defs\<close>)
  moreover have "\<not> acted s fid" using old prior f by (cases "fn_status f") (simp_all add: finding_ok_def status_defs)
  ultimately show ?case
    by (intro lifecycle_put[OF ch_disputed(11,12) conjunct1[OF f] _ t(1)])
      (use f old in \<open>auto simp: t same finding_ok_def finding_wf_def status_defs\<close>)
next
  case (ch_resolved tenant did s d f res d' actor dec s')
  then have t: "findings s' = put finding_id (f\<lparr>fn_status := resolution_target res d\<rparr>) (findings s)" "decisions s' = decisions s @ [dec]"
    "actions s' = actions s" "disputes s' = put dispute_id d' (disputes s)"
    by (simp_all add: tabs_def put_defs)
  note f = get_finding_Some[OF ch_resolved(3)] and d = get_dispute_Some[OF ch_resolved(1)]
  have old: "finding_ok cfg s f" using ch_resolved(15) f by (simp add: lifecycle_ok_def)
  have dok: "disputes_ok cfg s" using ch_resolved(15) by (simp add: lifecycle_ok_def)
  have same: "acted s' g = acted s g" "human_approved cfg s g \<Longrightarrow> human_approved cfg s' g" for g
    by (auto simp: acted_def human_approved_def t)
  have "set (decisions s) \<subseteq> set (decisions s')" by (auto simp: t)
  note cont = dispute_resolved[OF ch_resolved(14) dok conjunct1[OF d] ch_resolved(2,5,8) t(4) this]
  have was: "contested s (ds_finding d)" using d ch_resolved(2) by (auto simp: contested_def)
  have "status_ok (resolution_target res d) (human_approved cfg s' (ds_finding d)) (acted s' (ds_finding d)) (contested s' (ds_finding d))"
  proof -
    have "\<not> acted s (ds_finding d)" using old was f by (auto simp: finding_ok_def status_defs)
    moreover have "prior_status d \<in> {PROPOSED, APPROVED}" "prior_status d = APPROVED \<Longrightarrow> human_approved cfg s (ds_finding d)"
      using dok d ch_resolved(2) by (auto simp: disputes_ok_def)
    ultimately show ?thesis using same by (cases res) (auto simp: status_defs cont(2) resolution_target_def)
  qed
  then show ?case
    by (intro lifecycle_put[OF ch_resolved(14,15) conjunct1[OF f] _ t(1)] cont(1))
      (use f old in \<open>auto simp: t same cont(2) finding_ok_def finding_wf_def\<close>)
next
  case (ch_opened tenant fid s f a aid r now s')
  then have t: "findings s' = put finding_id (f\<lparr>fn_status := REMEDIATION_OPEN\<rparr>) (findings s)" "decisions s' = decisions s"
    "actions s' = actions s @ [a]" "disputes s' = disputes s"
    by (simp_all add: tabs_def put_defs)
  note f = get_finding_Some[OF ch_opened(1)]
  have old: "finding_ok cfg s f" using ch_opened(8) f by (simp add: lifecycle_ok_def)
  have same: "acted s' g \<longleftrightarrow> acted s g \<or> g = fid" "human_approved cfg s' g = human_approved cfg s g" "contested s' g = contested s g" for g
    using ch_opened(4) f by (auto simp: acted_def human_approved_def contested_def t new_action_def)
  have "disputes_ok cfg s'"
    by (rule disputes_ok_mono[of cfg s]) (use ch_opened(8) in \<open>auto simp: lifecycle_ok_def t\<close>)
  then show ?case
    by (intro lifecycle_put[OF ch_opened(7,8) conjunct1[OF f] _ t(1)])
      (use f old ch_opened(3) in \<open>simp_all add: t same finding_ok_def finding_wf_def status_ok_opened[of "fn_status f" _ "acted s fid"]\<close>)
next
  case (ch_declared tenant aid s a f r a' now s')
  note a = get_action_Some[OF ch_declared(1)] and f = get_finding_Some[OF ch_declared(2)]
  show ?case
    by (rule lifecycle_remediate[OF ch_declared(11,12) conjunct1[OF f] conjunct1[OF a], where st = REMEDIATION_DECLARED_COMPLETE and a' = a'])
      (use ch_declared f in \<open>auto simp: tabs_def put_defs remediated_def\<close>)
next
  case (ch_retested tenant aid s a f who t outcome s')
  note a = get_action_Some[OF ch_retested(1)] and f = get_finding_Some[OF ch_retested(2)]
  show ?case
    by (rule lifecycle_remediate[OF ch_retested(12,13) conjunct1[OF f] conjunct1[OF a],
          where st = "if outcome \<in> CLOSING_OUTCOMES then CLOSED_VERIFIED else REOPENED"
            and a' = "a\<lparr>ra_status := if outcome \<in> CLOSING_OUTCOMES then ''closed'' else ''reopened''\<rparr>"])
      (use ch_retested f in \<open>auto simp: tabs_def put_defs remediated_def\<close>)
next
  case (ch_reopened tenant fid s f a a' due plan s')
  note a = open_action_for_Some[OF ch_reopened(2)] and f = get_finding_Some[OF ch_reopened(1)]
  show ?case
    by (rule lifecycle_remediate[OF ch_reopened(6,7) conjunct1[OF f] conjunct1[OF a], where st = REMEDIATION_OPEN and a' = a'])
      (use ch_reopened a f in \<open>auto simp: tabs_def put_defs remediated_def\<close>)
qed

end
