(* ===== verification/Adj_Closure.thy ===== *)
theory Adj_Closure
  imports Adj_Inv
begin

text \<open>
  The record behind a remediation: the status of an action follows its finding, a completion rests
  on a management response with the evidence the action asked for, and a closure on a retest with
  evidence by somebody who neither authored the finding, nor owns the action, nor completed it.
\<close>

section \<open>Remediation records\<close>

definition answered :: "adj_store \<Rightarrow> action_row \<Rightarrow> bool" where
  "answered s a \<longleftrightarrow> (\<exists>r \<in> set (responses s). mg_finding r = ra_finding a \<and> completed_by a = Some (submitted_by r) \<and>
     (closure_evidence_required a \<longrightarrow> closure_evidence_ids r \<noteq> []))"

definition verified :: "adj_store \<Rightarrow> finding_row \<Rightarrow> action_row \<Rightarrow> bool" where
  "verified s f a \<longleftrightarrow> (\<exists>t \<in> set (retests s). rt_action t = action_id a \<and> rt_outcome t = Some ''closed_verified'' \<and>
     rt_evidence_ids t \<noteq> [] \<and> (\<exists>who. rt_performed_by t = Some who \<and> independent_retester f a who))"

definition remediation_ok :: "adj_store \<Rightarrow> finding_row \<Rightarrow> action_row \<Rightarrow> bool" where
  "remediation_ok s f a \<longleftrightarrow>
     fn_status f = REMEDIATION_OPEN \<and> ra_status a = ''open'' \<or>
     fn_status f = REMEDIATION_DECLARED_COMPLETE \<and> ra_status a = ''declared_complete'' \<and> answered s a \<or>
     fn_status f = CLOSED_VERIFIED \<and> ra_status a = ''closed'' \<and> answered s a \<and> verified s f a \<or>
     fn_status f = REOPENED \<and> ra_status a = ''reopened''"

definition closure_ok :: "adj_store \<Rightarrow> bool" where
  "closure_ok s \<longleftrightarrow> (\<forall>f \<in> set (findings s). \<forall>a \<in> set (actions s). ra_finding a = finding_id f \<longrightarrow> remediation_ok s f a)"

text \<open>Nothing is ever removed from the responses and the retests.\<close>

definition keeps_records :: "adj_store \<Rightarrow> adj_store \<Rightarrow> bool" where
  "keeps_records s s' \<longleftrightarrow> set (responses s) \<subseteq> set (responses s') \<and> set (retests s) \<subseteq> set (retests s')"

lemma independent_retester_cong:
  "fn_authored_by f' = fn_authored_by f \<Longrightarrow> owner_ref a' = owner_ref a \<Longrightarrow> completed_by a' = completed_by a \<Longrightarrow>
   independent_retester f' a' who = independent_retester f a who"
  by (simp add: independent_retester_def retest_conflicts_def)

lemma answered_mono:
  assumes "answered s a" "keeps_records s s'" "same_remediation a a'"
  shows "answered s' a'"
proof -
  from assms(1) obtain r where r: "r \<in> set (responses s)" "mg_finding r = ra_finding a" "completed_by a = Some (submitted_by r)"
    "closure_evidence_required a \<longrightarrow> closure_evidence_ids r \<noteq> []" unfolding answered_def by blast
  from r(1) assms(2) have "r \<in> set (responses s')" unfolding keeps_records_def by blast
  then show ?thesis unfolding answered_def by (rule bexI[rotated]) (use r(2-4) assms(3) in \<open>simp add: same_remediation_def\<close>)
qed

lemma verified_mono:
  assumes "verified s f a" "keeps_records s s'" "same_remediation a a'" "same_finding f f'"
  shows "verified s' f' a'"
proof -
  from assms(1) obtain t who where t: "t \<in> set (retests s)" "rt_action t = action_id a" "rt_outcome t = Some ''closed_verified''"
    "rt_evidence_ids t \<noteq> []" "rt_performed_by t = Some who" "independent_retester f a who" unfolding verified_def by blast
  from t(1) assms(2) have "t \<in> set (retests s')" unfolding keeps_records_def by blast
  moreover have "independent_retester f' a' who"
    using t(6) assms(3) by (simp add: independent_retester_cong[OF same_finding_fields(6)[OF assms(4)]] same_remediation_def)
  ultimately show ?thesis unfolding verified_def by (intro bexI[of _ t]) (use t(2-5) assms(3) in \<open>simp_all add: same_remediation_def\<close>)
qed

lemma remediation_ok_mono:
  assumes "remediation_ok s f a" "keeps_records s s'" "same_remediation a a'" "same_finding f f'" "fn_status f' = fn_status f"
  shows "remediation_ok s' f' a'"
  using assms(1,3,5) answered_mono[OF _ assms(2,3)] verified_mono[OF _ assms(2,3,4)]
  unfolding remediation_ok_def same_remediation_def by (elim disjE conjE) simp_all

lemma same_remediation_refl [simp]: "same_remediation a a"
  by (simp add: same_remediation_def)

section \<open>Preservation\<close>

text \<open>Every pair of a finding and its action is an old one, or the pair the change is about.\<close>

lemma closure_okI:
  assumes ok: "closure_ok s" and rec: "keeps_records s s'"
    and pair: "\<And>f a. f \<in> set (findings s') \<Longrightarrow> a \<in> set (actions s') \<Longrightarrow> ra_finding a = finding_id f \<Longrightarrow>
      remediation_ok s' f a \<or>
      (\<exists>g \<in> set (findings s). \<exists>b \<in> set (actions s). same_finding g f \<and> fn_status f = fn_status g \<and> same_remediation b a)"
  shows "closure_ok s'"
  unfolding closure_ok_def
proof (intro ballI impI)
  fix f a assume fa: "f \<in> set (findings s')" "a \<in> set (actions s')" "ra_finding a = finding_id f"
  from pair[OF fa] show "remediation_ok s' f a"
  proof (elim disjE bexE conjE)
    fix g b assume g: "g \<in> set (findings s)" "b \<in> set (actions s)" "same_finding g f" "fn_status f = fn_status g" "same_remediation b a"
    have "ra_finding b = finding_id g" using fa(3) g(3,5) by (simp add: same_finding_fields same_remediation_def)
    with ok g(1,2) have "remediation_ok s g b" by (simp add: closure_ok_def)
    then show ?thesis by (rule remediation_ok_mono[OF _ rec g(5,3,4)])
  qed
qed

lemma closure_idle:
  assumes "keys_ok s" "closure_ok s" "f \<in> set (findings s)" "same_finding f f'" "findings s' = put finding_id f' (findings s)"
    "actions s' = actions s" "keeps_records s s'" "fn_status f' = fn_status f \<or> \<not> acted s (finding_id f)"
  shows "closure_ok s'"
proof (rule closure_okI[OF assms(2,7)])
  fix g a assume g: "g \<in> set (findings s')" "a \<in> set (actions s')" "ra_finding a = finding_id g"
  have dist: "distinct (map finding_id (findings s))" using assms(1) by (simp add: keys_ok_def)
  from g(1) dist have "g = f' \<or> g \<in> set (findings s)" by (auto simp: assms(5) in_set_put split: if_splits)
  moreover have "fn_status f' = fn_status f" if "g = f'"
    using assms(8) g(2,3) that same_finding_fields(1)[OF assms(4)] by (auto simp: acted_def assms(6) image_iff)
  ultimately show "remediation_ok s' g a \<or>
      (\<exists>h \<in> set (findings s). \<exists>b \<in> set (actions s). same_finding h g \<and> fn_status g = fn_status h \<and> same_remediation b a)"
    using assms(3,4) g(2) unfolding assms(6) by (elim disjE) (blast intro: same_remediation_refl same_finding_simps(4))+
qed

lemma closure_pair:
  assumes k: "keys_ok s" "closure_ok s" and f: "f \<in> set (findings s)" "same_finding f f'" "findings s' = put finding_id f' (findings s)"
    and a: "a \<in> set (actions s)" "action_id a' = action_id a" "ra_finding a' = ra_finding a" "ra_finding a = finding_id f"
      "actions s' = put action_id a' (actions s)"
    and rec: "keeps_records s s'" and new: "remediation_ok s' f' a'"
  shows "closure_ok s'"
proof (rule closure_okI[OF k(2) rec])
  fix g b assume g: "g \<in> set (findings s')" "b \<in> set (actions s')" "ra_finding b = finding_id g"
  have dist: "distinct (map finding_id (findings s))" "distinct (map action_id (actions s))" "distinct (map ra_finding (actions s))"
    using k(1) by (simp_all add: keys_ok_def)
  have b: "b = a' \<or> b \<in> set (actions s) \<and> b \<noteq> a"
    using g(2) dist(2) a(1) by (auto simp: a(5,2) in_set_put has_key_def split: if_splits)
  have g': "g = f' \<or> g \<in> set (findings s) \<and> g \<noteq> f"
    using g(1) dist(1) f(1) same_finding_fields(1)[OF f(2)] by (auto simp: f(3) in_set_put has_key_def split: if_splits)
  have "b = a' \<longleftrightarrow> g = f'"
    using b g' g(3) a(1,3,4) same_finding_fields(1)[OF f(2)] same_key[OF dist(3), of b a] same_key[OF dist(1), of g f] f(1) by auto
  then show "remediation_ok s' g b \<or>
      (\<exists>h \<in> set (findings s). \<exists>c \<in> set (actions s). same_finding h g \<and> fn_status g = fn_status h \<and> same_remediation c b)"
    using b g' new by (cases "b = a'") (auto intro: same_remediation_refl same_finding_simps(4))
qed

lemma closure_rows:
  assumes "closure_ok s" "findings s' = findings s" "actions s' = actions s" "keeps_records s s'"
  shows "closure_ok s'"
  by (rule closure_okI[OF assms(1,4)]) (auto simp: assms(2,3) intro: same_remediation_refl same_finding_simps(4))

lemma not_acted: "finding_ok cfg s f \<Longrightarrow> fn_status f \<notin> remediated \<Longrightarrow> \<not> acted s (finding_id f)"
  by (simp add: finding_ok_def status_ok_def)

lemma no_action:
  assumes "keys_ok s" "f \<in> set (findings s)" "open_action_for (fn_tenant f) (finding_id f) s = None"
  shows "\<not> acted s (finding_id f)"
proof
  assume "acted s (finding_id f)"
  then obtain a where a: "a \<in> set (actions s)" "ra_finding a = finding_id f" by (auto simp: acted_def)
  from assms(1) a(1) obtain g where g: "g \<in> set (findings s)" "finding_id g = ra_finding a" "fn_tenant g = ra_tenant a"
    unfolding keys_ok_def by blast
  have "g = f" using assms(1,2) g a(2) by (intro same_key[of finding_id "findings s"]) (simp_all add: keys_ok_def)
  with g a assms(3) show False by (auto simp: open_action_for_None)
qed

lemma closure_added:
  assumes k: "keys_ok s" "closure_ok s" and f: "f \<in> set (findings s)" "open_action_for (fn_tenant f) (finding_id f) s = None"
    and t: "findings s' = put finding_id (f\<lparr>fn_status := REMEDIATION_OPEN\<rparr>) (findings s)" "actions s' = actions s @ [a]" "keeps_records s s'"
    and a: "ra_finding a = finding_id f" "ra_status a = ''open''"
  shows "closure_ok s'"
proof (rule closure_okI[OF k(2) t(3)])
  fix g b assume g: "g \<in> set (findings s')" "b \<in> set (actions s')" "ra_finding b = finding_id g"
  have dist: "distinct (map finding_id (findings s))" using k(1) by (simp add: keys_ok_def)
  have idle: "b \<in> set (actions s) \<Longrightarrow> ra_finding b \<noteq> finding_id f" using no_action[OF k(1) f] by (auto simp: acted_def image_iff)
  have "g = f\<lparr>fn_status := REMEDIATION_OPEN\<rparr> \<or> g \<in> set (findings s) \<and> finding_id g \<noteq> finding_id f"
    using g(1) dist f(1) by (auto simp: t(1) in_set_put has_key_def split: if_splits)
  then show "remediation_ok s' g b \<or>
      (\<exists>h \<in> set (findings s). \<exists>c \<in> set (actions s). same_finding h g \<and> fn_status g = fn_status h \<and> same_remediation c b)"
    using g(2,3) idle a by (auto simp: t(2) remediation_ok_def intro: same_remediation_refl same_finding_simps(4))
qed

lemma closure_ok_change:
  assumes "adj_change cfg s s'" "keys_ok s" "lifecycle_ok cfg s" "closure_ok s"
  shows "closure_ok s'"
  using assms
proof (induction rule: adj_change.induct)
  case (ch_same s' s)
  show ?case by (rule closure_rows[of s]) (use ch_same in \<open>simp_all add: tabs_def keeps_records_def\<close>)
next
  case (ch_environment s' ts es s)
  show ?case by (rule closure_rows[of s]) (use ch_environment in \<open>simp_all add: tabs_def keeps_records_def\<close>)
next
  case (ch_proposed f s s' ds)
  then have t: "findings s' = findings s @ [f]" "actions s' = actions s" "keeps_records s s'"
    by (simp_all add: tabs_def keeps_records_def)
  have idle: "a \<in> set (actions s) \<Longrightarrow> ra_finding a \<noteq> finding_id f" for a
    using fresh_finding_idle(1)[OF ch_proposed(12,1)] by (auto simp: acted_def image_iff)
  show ?case
    by (rule closure_okI[OF ch_proposed(14) t(3)]) (use idle in \<open>auto simp: t(1,2) intro: same_remediation_refl same_finding_simps(4)\<close>)
next
  case (ch_decided tenant fid s f dec actor d s')
  note f = get_finding_Some[OF ch_decided(1)]
  have ok: "finding_ok cfg s f" using ch_decided(8) f by (simp add: lifecycle_ok_def)
  have "fn_status f \<notin> remediated" using ch_decided(2) by (cases dec; cases "fn_status f") (simp_all add: remediated_def)
  note idle = not_acted[OF ok this]
  show ?case
    by (rule closure_idle[OF ch_decided(7,9) conjunct1[OF f], of "f\<lparr>fn_status := decision_target dec\<rparr>"])
      (use ch_decided(5) idle in \<open>simp_all add: tabs_def put_defs keeps_records_def\<close>)
next
  case (ch_assessed tenant fid s f minimum a s')
  note f = get_finding_Some[OF ch_assessed(1)]
  show ?case
    by (rule closure_idle[OF ch_assessed(10,12) conjunct1[OF f], of "escalate minimum f"])
      (use ch_assessed(9) in \<open>simp_all add: tabs_def put_defs keeps_records_def escalate_def\<close>)
next
  case (ch_overridden tenant fid s f a sev f' a' why actor d s')
  note f = get_finding_Some[OF ch_overridden(1)]
  show ?case
    by (rule closure_idle[OF ch_overridden(10,12) conjunct1[OF f], of f'])
      (use ch_overridden(5,8) in \<open>simp_all add: tabs_def put_defs keeps_records_def\<close>)
next
  case (ch_reviewed tenant fid s f r s')
  show ?case by (rule closure_rows[of s]) (use ch_reviewed in \<open>simp_all add: tabs_def keeps_records_def\<close>)
next
  case (ch_disputed tenant fid s f d s')
  note f = get_finding_Some[OF ch_disputed(1)]
  have ok: "finding_ok cfg s f" using ch_disputed(12) f by (simp add: lifecycle_ok_def)
  have "fn_status f \<notin> remediated" using ch_disputed(3) by (cases "fn_status f") (simp_all add: remediated_def)
  note idle = not_acted[OF ok this]
  show ?case
    by (rule closure_idle[OF ch_disputed(11,13) conjunct1[OF f], of "f\<lparr>fn_status := DISPUTED\<rparr>"])
      (use ch_disputed(9) idle in \<open>simp_all add: tabs_def put_defs keeps_records_def\<close>)
next
  case (ch_resolved tenant did s d f res d' actor dec s')
  note f = get_finding_Some[OF ch_resolved(3)] and d = get_dispute_Some[OF ch_resolved(1)]
  have ok: "finding_ok cfg s f" using ch_resolved(15) f by (simp add: lifecycle_ok_def)
  have "contested s (finding_id f)" using d f ch_resolved(2) by (auto simp: contested_def)
  then have "fn_status f \<notin> remediated" using ok by (cases "fn_status f") (simp_all add: finding_ok_def status_defs)
  note idle = not_acted[OF ok this]
  show ?case
    by (rule closure_idle[OF ch_resolved(14,16) conjunct1[OF f], of "f\<lparr>fn_status := resolution_target res d\<rparr>"])
      (use ch_resolved(11) idle in \<open>simp_all add: tabs_def put_defs keeps_records_def\<close>)
next
  case (ch_opened tenant fid s f a aid r now s')
  note f = get_finding_Some[OF ch_opened(1)]
  show ?case
    by (rule closure_added[OF ch_opened(7,9) conjunct1[OF f], where a = a])
      (use ch_opened(2,4,6) f in \<open>simp_all add: tabs_def put_defs keeps_records_def new_action_def\<close>)
next
  case (ch_ticket tenant aid s a a' s')
  note a = get_action_Some[OF ch_ticket(1)]
  have t: "findings s' = findings s" "actions s' = put action_id a' (actions s)" "keeps_records s s'"
    using ch_ticket(4) by (simp_all add: tabs_def put_defs keeps_records_def)
  have dist: "distinct (map action_id (actions s))" using ch_ticket(5) by (simp add: keys_ok_def)
  show ?case
    by (rule closure_okI[OF ch_ticket(7) t(3)])
      (use a ch_ticket(2) in \<open>auto simp: t(1,2) in_set_put[OF dist] split: if_splits intro: same_remediation_refl same_finding_simps(4)\<close>)
next
  case (ch_declared tenant aid s a f r a' now s')
  note a = get_action_Some[OF ch_declared(1)] and f = get_finding_Some[OF ch_declared(2)]
  have t: "responses s' = responses s @ [r]" using ch_declared(7) by (simp add: tabs_def put_defs)
  have "answered s' a'" unfolding answered_def t by (rule bexI[of _ r]) (use ch_declared(4-6) in simp_all)
  then show ?case
    by (intro closure_pair[OF ch_declared(11,13) conjunct1[OF f], of "f\<lparr>fn_status := REMEDIATION_DECLARED_COMPLETE\<rparr>" _ a a'])
      (use ch_declared(6,7) a f in \<open>simp_all add: tabs_def put_defs keeps_records_def remediation_ok_def subset_insertI\<close>)
next
  case (ch_retested tenant aid s a f who t outcome s')
  note a = get_action_Some[OF ch_retested(1)] and f = get_finding_Some[OF ch_retested(2)]
  let ?st = "if outcome \<in> CLOSING_OUTCOMES then CLOSED_VERIFIED else REOPENED"
  let ?f' = "f\<lparr>fn_status := ?st\<rparr>" and ?a' = "a\<lparr>ra_status := if outcome \<in> CLOSING_OUTCOMES then ''closed'' else ''reopened''\<rparr>"
  have rec: "keeps_records s s'" and ts: "retests s' = retests s @ [t]" using ch_retested(9) by (auto simp: tabs_def put_defs keeps_records_def)
  have "remediation_ok s f a" using ch_retested(14) a f by (simp add: closure_ok_def)
  then have "answered s a" using ch_retested(3) by (cases "fn_status f") (simp_all add: remediation_ok_def)
  then obtain r where "r \<in> set (responses s)" "mg_finding r = ra_finding a" "completed_by a = Some (submitted_by r)"
    "closure_evidence_required a \<longrightarrow> closure_evidence_ids r \<noteq> []" unfolding answered_def by blast
  then have ans: "answered s' ?a'" unfolding answered_def by (intro bexI[of _ r]) (use rec in \<open>auto simp: keeps_records_def\<close>)
  have "verified s' ?f' ?a'" if "outcome \<in> CLOSING_OUTCOMES"
    unfolding verified_def ts by (rule bexI[of _ t])
      (use that ch_retested(4-8) a in \<open>auto simp: CLOSING_OUTCOMES_def independent_retester_def retest_conflicts_def\<close>)
  with ans have "remediation_ok s' ?f' ?a'" by (simp add: remediation_ok_def)
  then show ?case
    by (intro closure_pair[OF ch_retested(12,14) conjunct1[OF f], of ?f' _ a ?a'])
      (use ch_retested(9) a f rec in \<open>simp_all add: tabs_def put_defs\<close>)
next
  case (ch_reopened tenant fid s f a a' due plan s')
  note a = open_action_for_Some[OF ch_reopened(2)] and f = get_finding_Some[OF ch_reopened(1)]
  show ?case
    by (rule closure_pair[OF ch_reopened(6,8) conjunct1[OF f], of "f\<lparr>fn_status := REMEDIATION_OPEN\<rparr>" _ a a'])
      (use ch_reopened(4,5) a f in \<open>simp_all add: tabs_def put_defs keeps_records_def remediation_ok_def\<close>)
qed

section \<open>Reviews\<close>

text \<open>A review passes only when its reviewer is not the author.\<close>

definition reviews_ok :: "adj_store \<Rightarrow> bool" where
  "reviews_ok s \<longleftrightarrow> (\<forall>r \<in> set (reviews s). qv_passed r \<longrightarrow>
     (\<exists>f \<in> set (findings s). finding_id f = qv_finding r \<and> independent_of (qv_reviewer_id r) (fn_authored_by f)))"

lemma reviews_ok_change:
  assumes "adj_change cfg s s'" "keys_ok s" "reviews_ok s"
  shows "reviews_ok s'"
proof -
  have dist: "distinct (map finding_id (findings s))" using assms(2) by (simp add: keys_ok_def)
  have later: "\<exists>f' \<in> set (findings s'). finding_id f' = i \<and> independent_of w (fn_authored_by f')"
    if f: "f \<in> set (findings s)" "finding_id f = i" "independent_of w (fn_authored_by f)" for f i w
  proof -
    from keeps_findings_rows[OF adj_change_keeps[OF assms(1)] dist f(1)] obtain g where g: "g \<in> set (findings s')" "same_finding f g" by blast
    then show ?thesis by (intro bexI[OF _ g(1)]) (simp add: same_finding_fields[OF g(2)] f(2,3))
  qed
  have "reviews s' = reviews s \<or> (\<exists>r f. reviews s' = reviews s @ [r] \<and> f \<in> set (findings s) \<and> finding_id f = qv_finding r \<and>
      (qv_passed r \<longrightarrow> independent_of (qv_reviewer_id r) (fn_authored_by f)))"
    using assms(1)
  proof (cases rule: adj_change.cases)
    case (ch_reviewed tenant fid f r)
    note f = get_finding_Some[OF ch_reviewed(1)]
    have "reviews s' = reviews s @ [r]" using ch_reviewed(6) by (simp add: tabs_def)
    with f ch_reviewed(3,5) show ?thesis by (intro disjI2 exI[of _ r] exI[of _ f]) simp
  qed (simp_all add: tabs_def put_defs)
  then show ?thesis
  proof (elim disjE exE conjE)
    assume "reviews s' = reviews s"
    with assms(3) later show ?thesis unfolding reviews_ok_def by (metis (no_types, lifting))
  next
    fix r f assume r: "reviews s' = reviews s @ [r]" "f \<in> set (findings s)" "finding_id f = qv_finding r"
      "qv_passed r \<longrightarrow> independent_of (qv_reviewer_id r) (fn_authored_by f)"
    show ?thesis unfolding reviews_ok_def
    proof (intro ballI impI)
      fix x assume x: "x \<in> set (reviews s')" "qv_passed x"
      then consider "x = r" | "x \<in> set (reviews s)" using r(1) by auto
      then show "\<exists>f \<in> set (findings s'). finding_id f = qv_finding x \<and> independent_of (qv_reviewer_id x) (fn_authored_by f)"
        by cases (use x(2) r(2-4) assms(3) later in \<open>auto simp: reviews_ok_def\<close>)
    qed
  qed
qed

section \<open>Rows of the other tables\<close>

definition decides_on :: "decision_row \<Rightarrow> finding_row \<Rightarrow> bool" where
  "decides_on d f \<longleftrightarrow> ad_finding d = Some (finding_id f) \<and> ad_tenant d = fn_tenant f \<and> ad_engagement d = Some (fn_engagement f)"

definition of_finding :: "adj_store \<Rightarrow> ident \<Rightarrow> ident \<Rightarrow> bool" where
  "of_finding s fid tenant \<longleftrightarrow> (\<exists>f \<in> set (findings s). finding_id f = fid \<and> fn_tenant f = tenant)"

definition of_action :: "adj_store \<Rightarrow> ident \<Rightarrow> ident \<Rightarrow> bool" where
  "of_action s aid tenant \<longleftrightarrow> (\<exists>a \<in> set (actions s). action_id a = aid \<and> ra_tenant a = tenant)"

text \<open>The keys of the tables that only grow, and the two composite keys of responses and disputes.\<close>

definition row_keys_ok :: "adj_store \<Rightarrow> bool" where
  "row_keys_ok s \<longleftrightarrow> distinct (map decision_id (decisions s)) \<and> distinct (map response_id (responses s)) \<and>
     distinct (map review_id (reviews s)) \<and> distinct (map retest_id (retests s)) \<and>
     distinct (map (\<lambda>r. (mg_finding r, mg_version r)) (responses s)) \<and> distinct (map (\<lambda>d. (ds_finding d, round_no d)) (disputes s))"

definition row_refs_ok :: "adj_store \<Rightarrow> bool" where
  "row_refs_ok s \<longleftrightarrow>
     (\<forall>f \<in> set (findings s). fn_tenant f \<in> set (tenant_ids s) \<and> fn_engagement f \<in> set (engagement_ids s)) \<and>
     (\<forall>d \<in> set (decisions s). \<exists>f \<in> set (findings s). decides_on d f) \<and>
     (\<forall>r \<in> set (responses s). of_finding s (mg_finding r) (mg_tenant r)) \<and>
     (\<forall>a \<in> set (assessments s). of_finding s (ma_finding a) (ma_tenant a)) \<and>
     (\<forall>v \<in> set (reviews s). of_finding s (qv_finding v) (qv_tenant v)) \<and>
     (\<forall>t \<in> set (retests s). of_action s (rt_action t) (rt_tenant t))"

lemma get_finding_of: "get_finding tenant fid s = Some f \<Longrightarrow> of_finding s fid tenant"
  by (auto simp: of_finding_def dest!: get_finding_Some)

text \<open>What a change adds to each table.\<close>

lemma adj_change_decisions:
  assumes "adj_change cfg s s'"
  shows "decisions s' = decisions s \<or> (\<exists>d f. decisions s' = decisions s @ [d] \<and> \<not> has_key decision_id (decision_id d) (decisions s) \<and>
    f \<in> set (findings s) \<union> set (findings s') \<and> decides_on d f)"
  using assms
proof (cases rule: adj_change.cases)
  case (ch_proposed f ds)
  have t: "decisions s' = decisions s @ ds" "f \<in> set (findings s')" using ch_proposed(8) by (simp_all add: tabs_def)
  from ch_proposed(11) show ?thesis
  proof (elim disjE exE conjE)
    fix d assume d: "ds = [d]" "new_decision f d s"
    with t show ?thesis by (intro disjI2 exI[of _ d] exI[of _ f]) (simp add: new_decision_def decides_on_def)
  qed (simp add: t)
next
  case (ch_decided tenant fid f dec actor d)
  have "decisions s' = decisions s @ [d]" using ch_decided(5) by (simp add: tabs_def put_defs)
  with ch_decided(6) get_finding_Some[OF ch_decided(1)] show ?thesis
    by (intro disjI2 exI[of _ d] exI[of _ f]) (simp add: new_decision_def decides_on_def)
next
  case (ch_overridden tenant fid f a sev f' a' why actor d)
  have "decisions s' = decisions s @ [d]" using ch_overridden(8) by (simp add: tabs_def put_defs)
  with ch_overridden(9) get_finding_Some[OF ch_overridden(1)] show ?thesis
    by (intro disjI2 exI[of _ d] exI[of _ f]) (simp add: new_decision_def decides_on_def)
next
  case (ch_resolved tenant did d f res d' actor dec)
  have "decisions s' = decisions s @ [dec]" using ch_resolved(11) by (simp add: tabs_def put_defs)
  with ch_resolved(12) get_finding_Some[OF ch_resolved(3)] show ?thesis
    by (intro disjI2 exI[of _ dec] exI[of _ f]) (simp add: new_decision_def decides_on_def)
qed (simp_all add: tabs_def put_defs)

lemma adj_change_responses:
  assumes "adj_change cfg s s'"
  shows "responses s' = responses s \<or> (\<exists>r. responses s' = responses s @ [r] \<and> \<not> has_key response_id (response_id r) (responses s) \<and>
    \<not> has_key (\<lambda>x. (mg_finding x, mg_version x)) (mg_finding r, mg_version r) (responses s) \<and> of_finding s (mg_finding r) (mg_tenant r))"
  using assms
proof (cases rule: adj_change.cases)
  case (ch_declared tenant aid a f r a' now)
  have "responses s' = responses s @ [r]" using ch_declared(7) by (simp add: tabs_def put_defs)
  with ch_declared(4,8-10) get_finding_of[OF ch_declared(2)] show ?thesis by (intro disjI2 exI[of _ r]) simp
qed (simp_all add: tabs_def put_defs)

lemma adj_change_reviews:
  assumes "adj_change cfg s s'"
  shows "reviews s' = reviews s \<or> (\<exists>r. reviews s' = reviews s @ [r] \<and> \<not> has_key review_id (review_id r) (reviews s) \<and>
    of_finding s (qv_finding r) (qv_tenant r))"
  using assms
proof (cases rule: adj_change.cases)
  case (ch_reviewed tenant fid f r)
  have "reviews s' = reviews s @ [r]" using ch_reviewed(6) by (simp add: tabs_def)
  with ch_reviewed(2,3,7) get_finding_of[OF ch_reviewed(1)] show ?thesis by (intro disjI2 exI[of _ r]) simp
qed (simp_all add: tabs_def put_defs)

lemma adj_change_retests:
  assumes "adj_change cfg s s'"
  shows "retests s' = retests s \<or> (\<exists>t. retests s' = retests s @ [t] \<and> \<not> has_key retest_id (retest_id t) (retests s) \<and>
    of_action s (rt_action t) (rt_tenant t))"
  using assms
proof (cases rule: adj_change.cases)
  case (ch_retested tenant aid a f who t outcome)
  have "retests s' = retests s @ [t]" using ch_retested(9) by (simp add: tabs_def put_defs)
  moreover have "of_action s aid tenant" using get_action_Some[OF ch_retested(1)] by (auto simp: of_action_def)
  ultimately show ?thesis using ch_retested(5,10,11) by (intro disjI2 exI[of _ t]) simp
qed (simp_all add: tabs_def put_defs)

lemma adj_change_assessment_refs:
  assumes "adj_change cfg s s'" "\<forall>a \<in> set (assessments s). of_finding s (ma_finding a) (ma_tenant a)" "a \<in> set (assessments s')"
  shows "of_finding s (ma_finding a) (ma_tenant a)"
  using assms(1)
proof (cases rule: adj_change.cases)
  case (ch_assessed tenant fid f minimum b)
  have "assessments s' = assessments s @ [b]" using ch_assessed(9) by (simp add: tabs_def put_defs)
  with assms(2,3) ch_assessed(3,4) get_finding_of[OF ch_assessed(1)] show ?thesis by auto
next
  case (ch_overridden tenant fid f b sev f' b' why actor d)
  have "assessments s' = put assessment_id b' (assessments s)" using ch_overridden(8) by (simp add: tabs_def put_defs)
  with assms(2,3) ch_overridden(2,6) show ?thesis by (auto simp: put_def)
qed (use assms(2,3) in \<open>simp_all add: tabs_def put_defs\<close>)

lemma adj_change_rounds:
  assumes "adj_change cfg s s'" "distinct (map dispute_id (disputes s))" "distinct (map (\<lambda>d. (ds_finding d, round_no d)) (disputes s))"
  shows "distinct (map (\<lambda>d. (ds_finding d, round_no d)) (disputes s'))"
  using assms(1)
proof (cases rule: adj_change.cases)
  case (ch_disputed tenant fid f d)
  have "disputes s' = disputes s @ [d]" using ch_disputed(9) by (simp add: tabs_def put_defs)
  with ch_disputed(10) assms(3) show ?thesis by (simp add: has_key_image)
next
  case (ch_resolved tenant did d f res d' actor dec)
  note d = get_dispute_Some[OF ch_resolved(1)]
  have "map (\<lambda>d. (ds_finding d, round_no d)) (put dispute_id d' (disputes s)) = map (\<lambda>d. (ds_finding d, round_no d)) (disputes s)"
  proof (rule map_put_same)
    fix x assume "x \<in> set (disputes s)" "dispute_id x = dispute_id d'"
    then have "x = d" using d ch_resolved(5) by (intro same_key[OF assms(2)]) simp_all
    then show "(ds_finding d', round_no d') = (ds_finding x, round_no x)" using ch_resolved(7,13) by simp
  qed
  moreover have "disputes s' = put dispute_id d' (disputes s)" using ch_resolved(11) by (simp add: tabs_def put_defs)
  ultimately show ?thesis using assms(3) by simp
qed (use assms(3) in \<open>simp_all add: tabs_def put_defs\<close>)

lemma adj_change_environment:
  assumes "adj_change cfg s s'"
  shows "set (tenant_ids s) \<subseteq> set (tenant_ids s')" "set (engagement_ids s) \<subseteq> set (engagement_ids s')"
  using assms by (cases rule: adj_change.cases; simp add: tabs_def put_defs)+

lemma adj_change_new_finding:
  assumes "adj_change cfg s s'" "distinct (map finding_id (findings s))" "f \<in> set (findings s')"
  shows "(\<exists>g \<in> set (findings s). fn_tenant f = fn_tenant g \<and> fn_engagement f = fn_engagement g) \<or>
    fn_tenant f \<in> set (tenant_ids s) \<and> fn_engagement f \<in> set (engagement_ids s)"
proof (cases "\<exists>g. findings s' = findings s @ [g]")
  case True
  then obtain g where g: "findings s' = findings s @ [g]" ..
  from assms(1) show ?thesis
    by (cases rule: adj_change.cases) (use g assms(3) in \<open>auto simp: tabs_def put_defs put_def dest!: map_eq_imp_length_eq\<close>)
next
  case False
  with adj_change_keeps[OF assms(1)] consider "findings s' = findings s"
    | h h' where "h \<in> set (findings s)" "same_finding h h'" "findings s' = put finding_id h' (findings s)"
    unfolding keeps_findings_def by blast
  then show ?thesis
  proof cases
    case 2
    from assms(3) 2(3) consider "f \<in> set (findings s)" | "f = h'" by (auto simp: put_def split: if_splits)
    then show ?thesis by cases (use 2(1) same_finding_fields(2,3)[OF 2(2)] in blast)+
  qed (use assms(3) in auto)
qed

lemma of_action_later:
  assumes "adj_change cfg s s'" "distinct (map action_id (actions s))" "of_action s aid tenant"
  shows "of_action s' aid tenant"
proof -
  from assms(3) obtain a where a: "a \<in> set (actions s)" "action_id a = aid" "ra_tenant a = tenant" by (auto simp: of_action_def)
  from adj_change_keeps_actions[OF assms(1)] show ?thesis unfolding keeps_actions_def
  proof (elim disjE exE conjE)
    fix b b' assume b: "b \<in> set (actions s)" "action_id b' = action_id b" "ra_tenant b' = ra_tenant b" "actions s' = put action_id b' (actions s)"
    show ?thesis
    proof (cases "a = b")
      case True
      with a b show ?thesis unfolding of_action_def by (intro bexI[of _ b']) (auto simp: in_set_put[OF assms(2)] has_key_def)
    next
      case False
      then have "action_id a \<noteq> action_id b'" using b(1,2) a(1) same_key[OF assms(2)] by metis
      with a b(4) show ?thesis unfolding of_action_def by (intro bexI[of _ a]) (auto simp: in_set_put[OF assms(2)])
    qed
  qed (use a in \<open>auto simp: of_action_def\<close>)
qed

lemma of_finding_later:
  assumes "adj_change cfg s s'" "distinct (map finding_id (findings s))" "of_finding s fid tenant"
  shows "of_finding s' fid tenant"
proof -
  from assms(3) obtain f where f: "f \<in> set (findings s)" "finding_id f = fid" "fn_tenant f = tenant" by (auto simp: of_finding_def)
  from keeps_findings_rows[OF adj_change_keeps[OF assms(1)] assms(2) f(1)] obtain f' where
    f': "f' \<in> set (findings s')" "same_finding f f'" by blast
  with f same_finding_fields(1,2)[OF f'(2)] show ?thesis unfolding of_finding_def by (intro bexI[OF _ f'(1)]) simp
qed

lemma row_keys_ok_change:
  assumes "row_keys_ok s" "adj_change cfg s s'" "keys_ok s"
  shows "row_keys_ok s'"
  unfolding row_keys_ok_def
proof (intro conjI)
  note k = assms(1)[unfolded row_keys_ok_def]
  show "distinct (map decision_id (decisions s'))"
    using adj_change_decisions[OF assms(2)] k by (auto simp: has_key_image)
  show "distinct (map response_id (responses s'))" "distinct (map (\<lambda>r. (mg_finding r, mg_version r)) (responses s'))"
    using adj_change_responses[OF assms(2)] k by (auto simp: has_key_image)
  show "distinct (map review_id (reviews s'))"
    using adj_change_reviews[OF assms(2)] k by (auto simp: has_key_image)
  show "distinct (map retest_id (retests s'))"
    using adj_change_retests[OF assms(2)] k by (auto simp: has_key_image)
  show "distinct (map (\<lambda>d. (ds_finding d, round_no d)) (disputes s'))"
    by (rule adj_change_rounds[OF assms(2)]) (use k assms(3) in \<open>simp_all add: keys_ok_def\<close>)
qed

lemma row_refs_ok_change:
  assumes "row_refs_ok s" "adj_change cfg s s'" "keys_ok s"
  shows "row_refs_ok s'"
  unfolding row_refs_ok_def
proof (intro conjI ballI)
  note k = assms(1)[unfolded row_refs_ok_def]
  have dist: "distinct (map finding_id (findings s))" "distinct (map action_id (actions s))" using assms(3) by (simp_all add: keys_ok_def)
  note later = of_finding_later[OF assms(2) dist(1)]
  {
    fix f assume "f \<in> set (findings s')"
    from adj_change_new_finding[OF assms(2) dist(1) this] k have "fn_tenant f \<in> set (tenant_ids s) \<and> fn_engagement f \<in> set (engagement_ids s)"
      by auto
    with adj_change_environment[OF assms(2)] show "fn_tenant f \<in> set (tenant_ids s')" "fn_engagement f \<in> set (engagement_ids s')" by auto
  }
  {
    fix d assume d: "d \<in> set (decisions s')"
    have "\<exists>f \<in> set (findings s) \<union> set (findings s'). decides_on d f"
      using adj_change_decisions[OF assms(2)]
    proof (elim disjE exE conjE)
      fix e f assume e: "decisions s' = decisions s @ [e]" "f \<in> set (findings s) \<union> set (findings s')" "decides_on e f"
      show ?thesis
      proof (cases "d = e")
        case False
        with d e(1) k show ?thesis by auto
      qed (use e(2,3) in blast)
    qed (use d k in auto)
    then obtain f where f: "f \<in> set (findings s) \<union> set (findings s')" "decides_on d f" ..
    show "\<exists>f \<in> set (findings s'). decides_on d f"
    proof (cases "f \<in> set (findings s')")
      case False
      with f(1) have "f \<in> set (findings s)" by simp
      from keeps_findings_rows[OF adj_change_keeps[OF assms(2)] dist(1) this] obtain f' where
        f': "f' \<in> set (findings s')" "same_finding f f'" ..
      with f(2) same_finding_fields(1-3)[OF f'(2)] show ?thesis by (intro bexI[OF _ f'(1)]) (simp add: decides_on_def)
    qed (use f(2) in blast)
  }
  {
    fix r assume r: "r \<in> set (responses s')"
    have "of_finding s (mg_finding r) (mg_tenant r)"
      using adj_change_responses[OF assms(2)] by (elim disjE exE conjE) (use r k in auto)
    then show "of_finding s' (mg_finding r) (mg_tenant r)" by (rule later)
  }
  {
    fix a assume a: "a \<in> set (assessments s')"
    show "of_finding s' (ma_finding a) (ma_tenant a)"
      by (rule later[OF adj_change_assessment_refs[OF assms(2) _ a]]) (use k in blast)
  }
  {
    fix v assume v: "v \<in> set (reviews s')"
    have "of_finding s (qv_finding v) (qv_tenant v)"
      using adj_change_reviews[OF assms(2)] by (elim disjE exE conjE) (use v k in auto)
    then show "of_finding s' (qv_finding v) (qv_tenant v)" by (rule later)
  }
  {
    fix t assume t: "t \<in> set (retests s')"
    have "of_action s (rt_action t) (rt_tenant t)"
      using adj_change_retests[OF assms(2)] by (elim disjE exE conjE) (use t k in auto)
    then show "of_action s' (rt_action t) (rt_tenant t)" by (rule of_action_later[OF assms(2) dist(2)])
  }
qed

section \<open>Reachable states\<close>

definition adj_inv :: "adj_config \<Rightarrow> adj_store \<Rightarrow> bool" where
  "adj_inv cfg s \<longleftrightarrow> adj_log_ok s \<and> keys_ok s \<and> lifecycle_ok cfg s \<and> closure_ok s \<and> reviews_ok s \<and> row_keys_ok s \<and> row_refs_ok s"

definition adj_reach :: "adj_config \<Rightarrow> adj_store \<Rightarrow> bool" where
  "adj_reach cfg = reach adj_init (adj_step cfg)"

lemma adj_inv_init: "adj_init s \<Longrightarrow> adj_inv cfg s"
  by (simp add: adj_init_def adj_inv_def adj_log_ok_def ledger_ok_def outbox_keys_ok_def keys_ok_def lifecycle_ok_def disputes_ok_def
      closure_ok_def reviews_ok_def stream_events_def row_keys_ok_def row_refs_ok_def)

lemma adj_inv_step:
  assumes "adj_inv cfg s" "adj_step cfg op s = Inr s'"
  shows "adj_inv cfg s'"
proof -
  have inv: "adj_log_ok s" "keys_ok s" "lifecycle_ok cfg s" "closure_ok s" "reviews_ok s" "row_keys_ok s" "row_refs_ok s"
    using assms(1) by (simp_all add: adj_inv_def)
  note m = adj_step_moves[OF inv(1) assms(2)]
  note c = adj_move_change[OF m]
  show ?thesis unfolding adj_inv_def
    using adj_move_log[OF inv(1) m] keys_ok_change[OF inv(2) c] lifecycle_ok_change[OF c inv(2,3)]
      closure_ok_change[OF c inv(2,3,4)] reviews_ok_change[OF c inv(2,5)] row_keys_ok_change[OF inv(6) c inv(2)]
      row_refs_ok_change[OF inv(7) c inv(2)] by simp
qed

interpretation adj: guarded_machine adj_init "adj_step cfg" "adj_inv cfg" for cfg
  by unfold_locales (auto intro: adj_inv_init adj_inv_step)

lemma adj_reach_inv: "adj_reach cfg s \<Longrightarrow> adj_inv cfg s"
  unfolding adj_reach_def by (rule adj.reachable_inv)

text \<open>The parts of the invariant, and the change a step makes.\<close>

lemma adj_reach_parts:
  assumes "adj_reach cfg s"
  shows "adj_log_ok s" "keys_ok s" "lifecycle_ok cfg s" "closure_ok s" "reviews_ok s"
    "row_keys_ok s" "row_refs_ok s"
  using adj_reach_inv[OF assms] by (simp_all add: adj_inv_def)

lemma adj_reach_change: "adj_reach cfg s \<Longrightarrow> adj_step cfg op s = Inr s' \<Longrightarrow> adj_change cfg s s'"
  by (rule adj_move_change[OF adj_step_moves[OF adj_reach_parts(1)]])

end
