(* ===== verification/Adj_Scenario.thy ===== *)
theory Adj_Scenario
  imports Adj_Closure
begin

text \<open>
  Concrete runs of the adjudication service that the witnesses evaluate: one finding that is
  assessed, reviewed, approved, remediated and closed, and one that is disputed and rejected.
\<close>

declare bind_res_def [code_unfold]

definition adj_demo_init :: adj_store where
  "adj_demo_init = \<lparr>audit_events = [], outbox_events = [],
     uuids = (\<lambda>n. [''0123456789abcdefghijklmnopqrstuvwxyzABCDEFGHIJKLMNOPQRSTUVWXYZ'' ! n]),
     uuids_drawn = 0, wall_clock = (\<lambda>_. 0), clock_reads = 0, isoformat = (\<lambda>_. ''1970''),
     tenant_ids = [''acme''], engagement_ids = [''e1''], findings = [], decisions = [], responses = [], actions = [],
     assessments = [], reviews = [], disputes = [], retests = [], sha256 = (\<lambda>_. ''digest''), rendering = demo_renderings\<rparr>"

definition demo_propose :: adj_op where
  "demo_propose = Propose ''acme'' ''e1'' demo_finding ''agent:tester'' None []"

definition demo_assess :: adj_op where
  "demo_assess = AssessMateriality ''acme'' \<lparr>mq_finding_id = ''fnd_0'',
     mq_inputs = \<lparr>mi_population_size = 100, mi_exception_count = 90, mi_monetary_exposure = None, mi_factors = []\<rparr>,
     mq_policy = None, mq_assessed_by = ''agent:tester''\<rparr>"

definition demo_quality :: adj_op where
  "demo_quality = ReviewQuality ''acme'' \<lparr>qr_finding_id = ''fnd_0'', qr_reviewer_id = ''ines'', qr_notes = None\<rparr>"

definition demo_verdict :: "human_decision \<Rightarrow> adjudication_request" where
  "demo_verdict d = \<lparr>ar_finding_id = ''fnd_0'', ar_decision = d, ar_actor_id = ''maria'', ar_reason = ''reviewed'', ar_idempotency_key = ''k-1''\<rparr>"

definition demo_request :: remediation_request where
  "demo_request = \<lparr>rq_finding_id = ''fnd_0'', rq_owner_ref = ''omar'', rq_due_date = 30, rq_action_plan = ''require approvals'',
     rq_idempotency_key = ''rem-1'', rq_closure_evidence_required = True, rq_escalation_policy = [], rq_external_system = ''none'',
     rq_external_target = None\<rparr>"

definition demo_approval :: "adj_op list" where
  "demo_approval = [demo_propose, demo_assess, demo_quality]"

abbreviation adj_demo :: "adj_op list \<Rightarrow> adj_store" where
  "adj_demo ops \<equiv> run_ops (adj_step default_config) ops adj_demo_init"

lemma adj_demo_reach: "adj_reach default_config (adj_demo ops)"
  unfolding adj_reach_def by (intro reach_run_ops reach_init) (simp add: adj_init_def adj_demo_init_def)

definition finding_summary :: "finding_row \<Rightarrow> ident \<times> finding_status \<times> string" where
  "finding_summary f = (finding_id f, fn_status f, fn_severity f)"

definition demo_remediation :: "adj_op list" where
  "demo_remediation = demo_approval @ [Adjudicate ''acme'' (demo_verdict APPROVE), OpenRemediation ''acme'' demo_request]"

definition demo_retest :: adj_op where
  "demo_retest = PerformRetest ''acme'' \<lparr>rr_action_id = ''rma_c'', rr_procedure_ref = ''proc-1'', rr_performed_by = ''rita'',
     rr_idempotency_key = ''rt-1'', rr_outcome = RO_CLOSED_VERIFIED, rr_evidence_ids = [''ev-3''], rr_detail = [],
     rr_fresh_evidence_collected_at = None\<rparr>"

definition demo_declared :: "adj_op list" where
  "demo_declared = demo_remediation @ [SubmitClosure ''acme'' \<lparr>cs_action_id = ''rma_c'', cs_response_text = ''approvals enforced'',
     cs_submitted_by = ''omar'', cs_closure_evidence_ids = [''ev-2''], cs_action_plan = None\<rparr>]"

definition demo_closure :: "adj_op list" where
  "demo_closure = demo_declared @ [demo_retest]"

definition demo_contest :: "adj_op list" where
  "demo_contest = [demo_propose, RaiseDispute ''acme'' \<lparr>dq_finding_id = ''fnd_0'', dq_ground = OUT_OF_SCOPE,
     dq_statement = ''not in the agreed scope'', dq_raised_by = ''omar'', dq_evidence_ids = []\<rparr>,
     Adjudicate ''acme'' (demo_verdict REJECT)]"

definition demo_override :: adj_op where
  "demo_override = OverrideSeverity ''acme'' \<lparr>so_finding_id = ''fnd_0'', so_severity = ''low'', so_actor_id = ''maria'',
     so_reason = ''compensating control''\<rparr>"

definition demo_uphold :: adj_op where
  "demo_uphold = ResolveDispute ''acme'' \<lparr>dr_dispute_id = ''dsp_3'', dr_resolution = DR_UPHELD, dr_reason = ''scope confirmed'',
     dr_resolved_by = ''paula''\<rparr>"

text \<open>What the runs leave in the tables.\<close>

definition finding_is :: "finding_status \<Rightarrow> string \<Rightarrow> adj_store \<Rightarrow> bool" where
  "finding_is st sev s \<longleftrightarrow> map finding_summary (findings s) = [(''fnd_0'', st, sev)]"

definition steps_to :: "adj_op \<Rightarrow> finding_status \<Rightarrow> string \<Rightarrow> adj_store \<Rightarrow> bool" where
  "steps_to op st sev s \<longleftrightarrow> (case adj_step default_config op s of Inr s' \<Rightarrow> finding_is st sev s' | Inl _ \<Rightarrow> False)"

definition approves :: "adj_store \<Rightarrow> bool" where
  "approves s \<longleftrightarrow> finding_is PROPOSED ''critical'' s \<and>
     (case adjudicate default_config ''acme'' (demo_verdict APPROVE) s of Inr (st, _) \<Rightarrow> st = APPROVED | Inl _ \<Rightarrow> False)"

definition opened_again :: "adj_store \<Rightarrow> bool" where
  "opened_again s \<longleftrightarrow> finding_is REMEDIATION_DECLARED_COMPLETE ''critical'' s \<and> steps_to demo_retest CLOSED_VERIFIED ''critical'' s \<and>
     (case open_remediation ''acme'' demo_request s of Inr ((aid, _), _) \<Rightarrow> aid = ''rma_c'' | Inl _ \<Rightarrow> False)"

definition lowered :: "adj_store \<Rightarrow> bool" where
  "lowered s \<longleftrightarrow> finding_is PROPOSED ''critical'' s \<and> steps_to demo_override PROPOSED ''low'' s"

definition revived :: "adj_store \<Rightarrow> bool" where
  "revived s \<longleftrightarrow> finding_is REJECTED ''medium'' s \<and> steps_to demo_uphold PROPOSED ''medium'' s"

lemma demo_declared_state: "opened_again (adj_demo demo_declared)"
  by code_simp

lemma demo_closure_state: "finding_is CLOSED_VERIFIED ''critical'' (adj_demo demo_closure)"
  by code_simp

lemma demo_approval_state: "approves (adj_demo demo_approval)"
  by code_simp

lemma demo_override_state: "lowered (adj_demo [demo_propose, demo_assess])"
  by code_simp

lemma demo_contest_state: "revived (adj_demo demo_contest)"
  by code_simp

lemma demo_contest_rows:
  "map (\<lambda>f. (finding_id f, fn_status f, fn_authored_by f)) (findings (adj_demo demo_contest)) = [(''fnd_0'', REJECTED, Some ''agent:tester'')] \<and>
   map (\<lambda>d. (dispute_id d, ds_tenant d, ds_finding d, ds_status d, raised_by d, prior_status d)) (disputes (adj_demo demo_contest)) =
     [(''dsp_3'', ''acme'', ''fnd_0'', ''open'', ''omar'', PROPOSED)]"
  by code_simp

text \<open>Reading them off.\<close>

lemma finding_isD:
  assumes "finding_is st sev s"
  obtains f where "findings s = [f]" "finding_id f = ''fnd_0''" "fn_status f = st" "fn_severity f = sev"
  using assms by (auto simp: finding_is_def finding_summary_def)

lemma steps_toD:
  assumes "steps_to op st sev s"
  obtains s' where "adj_step default_config op s = Inr s'" "finding_is st sev s'"
  using assms by (auto simp: steps_to_def split: sum.splits)

end
