(* ===== verification/Adj_Props.thy ===== *)
theory Adj_Props
  imports Adj_Scenario
begin

text \<open>
  What the adjudication service guarantees: the lifecycle of a finding, who approves it and after
  which gates, what a closure rests on, that a finding is remediated once, that a severity only
  falls by a recorded human override, and that every change is in the ledger and the outbox.
\<close>

section \<open>One step on one finding\<close>

lemma put_pair:
  assumes "keys_ok s" "findings s' = put finding_id g' (findings s)" "g \<in> set (findings s)" "finding_id g' = finding_id g"
    "f \<in> set (findings s)" "f' \<in> set (findings s')" "finding_id f' = finding_id f"
  shows "f' = f \<or> f = g \<and> f' = g'"
proof -
  have dist: "distinct (map finding_id (findings s))" using assms(1) by (simp add: keys_ok_def)
  have "f' = g' \<or> f' \<in> set (findings s)" using assms(6) dist by (auto simp: assms(2) in_set_put split: if_splits)
  then show ?thesis using same_key[OF dist] assms(3-5,7) by metis
qed

lemma same_rows:
  assumes "keys_ok s" "findings s' = findings s \<or> (\<exists>g. \<not> has_key finding_id (finding_id g) (findings s) \<and> findings s' = findings s @ [g])"
    "f \<in> set (findings s)" "f' \<in> set (findings s')" "finding_id f' = finding_id f"
  shows "f' = f"
proof -
  have dist: "distinct (map finding_id (findings s))" using assms(1) by (simp add: keys_ok_def)
  have "has_key finding_id (finding_id f) (findings s)" using assms(3) unfolding has_key_def by blast
  then have "f' \<in> set (findings s)" using assms(2,4,5) by auto
  then show ?thesis by (rule same_key[OF dist _ assms(3,5)])
qed

definition status_moves :: "adj_store \<Rightarrow> finding_row \<Rightarrow> finding_status \<Rightarrow> bool" where
  "status_moves s f st \<longleftrightarrow> st = fn_status f \<or> st \<in> set (ALLOWED_TRANSITIONS (fn_status f)) \<or>
     fn_status f = REMEDIATION_DECLARED_COMPLETE \<and> st \<in> set (ALLOWED_TRANSITIONS RETEST_IN_PROGRESS) \<or>
     fn_status f = REJECTED \<and> contested s (finding_id f) \<and> st \<in> set (ALLOWED_TRANSITIONS DISPUTED)"

lemma status_moves_refl [simp]: "status_moves s f (fn_status f)"
  by (simp add: status_moves_def)

definition lowered_by_override :: "adj_config \<Rightarrow> adj_store \<Rightarrow> adj_store \<Rightarrow> finding_row \<Rightarrow> bool" where
  "lowered_by_override cfg s s' f' \<longleftrightarrow>
     (\<exists>d. decisions s' = decisions s @ [d] \<and> ad_finding d = Some (finding_id f') \<and> decision_type d = ''human:severity_override'' \<and>
        \<not> automated_actor cfg (ad_actor_id d) \<and>
        (\<exists>a \<in> set (assessments s'). override_severity_to a = Some (fn_severity f') \<and> override_by a = Some (ad_actor_id d) \<and>
           ma_content_hash a = finding_hash f' s' \<and> severity_rank (fn_severity f') < severity_rank (ma_severity_floor a)))"

lemma finding_hash_cong: "sha256 s' = sha256 s \<Longrightarrow> finding_hash f s' = finding_hash f s"
  by (simp add: finding_hash_def)

lemma finding_moves:
  assumes "adj_change cfg s s'" "keys_ok s" "lifecycle_ok cfg s" "f \<in> set (findings s)" "f' \<in> set (findings s')" "finding_id f' = finding_id f"
  shows "same_finding f f' \<and> status_moves s f (fn_status f') \<and>
    (severity_rank (fn_severity f) \<le> severity_rank (fn_severity f') \<or> lowered_by_override cfg s s' f')"
  using assms(1)
proof (cases rule: adj_change.cases)
  case ch_same
  have "f' = f" by (rule same_rows[OF assms(2) _ assms(4-6)]) (use ch_same in \<open>simp add: tabs_def\<close>)
  then show ?thesis by simp
next
  case (ch_environment ts es)
  have "f' = f" by (rule same_rows[OF assms(2) _ assms(4-6)]) (use ch_environment in \<open>simp add: tabs_def\<close>)
  then show ?thesis by simp
next
  case (ch_proposed g ds)
  have "f' = f" by (rule same_rows[OF assms(2) _ assms(4-6)]) (use ch_proposed(1,8) in \<open>simp add: tabs_def\<close>)
  then show ?thesis by simp
next
  case (ch_reviewed tenant fid g r)
  have "f' = f" by (rule same_rows[OF assms(2) _ assms(4-6)]) (use ch_reviewed(6) in \<open>simp add: tabs_def\<close>)
  then show ?thesis by simp
next
  case (ch_ticket tenant aid a a')
  have "f' = f" by (rule same_rows[OF assms(2) _ assms(4-6)]) (use ch_ticket(4) in \<open>simp add: tabs_def put_defs\<close>)
  then show ?thesis by simp
next
  case (ch_decided tenant fid g dec actor d)
  note g = get_finding_Some[OF ch_decided(1)]
  have "f' = f \<or> f = g \<and> f' = g\<lparr>fn_status := decision_target dec\<rparr>"
    by (rule put_pair[OF assms(2) _ conjunct1[OF g] _ assms(4-6)]) (use ch_decided(5) in \<open>simp_all add: tabs_def put_defs\<close>)
  then show ?thesis using ch_decided(2) by (elim disjE) (auto simp: status_moves_def split: if_splits)
next
  case (ch_assessed tenant fid g minimum a)
  note g = get_finding_Some[OF ch_assessed(1)]
  have "f' = f \<or> f = g \<and> f' = escalate minimum g"
    by (rule put_pair[OF assms(2) _ conjunct1[OF g] _ assms(4-6)])
      (use ch_assessed(9) in \<open>simp_all add: tabs_def put_defs same_finding_fields(1)[OF same_finding_simps(3)]\<close>)
  moreover have "fn_status (escalate minimum g) = fn_status g" "severity_rank (fn_severity g) \<le> severity_rank (fn_severity (escalate minimum g))"
    by (simp_all add: escalate_def)
  ultimately show ?thesis by (elim disjE) (auto simp: status_moves_def)
next
  case (ch_overridden tenant fid g a sev g' a' why actor d)
  note g = get_finding_Some[OF ch_overridden(1)]
  have t: "decisions s' = decisions s @ [d]" "assessments s' = put assessment_id a' (assessments s)" "sha256 s' = sha256 s"
    "findings s' = put finding_id g' (findings s)"
    using ch_overridden(8) by (simp_all add: tabs_def put_defs)
  have dist: "distinct (map assessment_id (assessments s))" using assms(2) by (simp add: keys_ok_def)
  have "a' \<in> set (assessments s')" using ch_overridden(2,6) by (auto simp: t(2) in_set_put[OF dist] has_key_def)
  then have low: "lowered_by_override cfg s s' g'"
    unfolding lowered_by_override_def using ch_overridden(4-7) g
    by (intro exI[of _ d] conjI bexI[of _ a']) (simp_all add: t human_verdict_def finding_hash_cong[OF t(3)])
  have "f' = f \<or> f = g \<and> f' = g'"
    by (rule put_pair[OF assms(2) t(4) conjunct1[OF g] _ assms(4-6)]) (simp add: ch_overridden(5))
  then show ?thesis using low ch_overridden(5) by (elim disjE) (simp_all add: status_moves_def)
next
  case (ch_disputed tenant fid g d)
  note g = get_finding_Some[OF ch_disputed(1)]
  have "f' = f \<or> f = g \<and> f' = g\<lparr>fn_status := DISPUTED\<rparr>"
    by (rule put_pair[OF assms(2) _ conjunct1[OF g] _ assms(4-6)]) (use ch_disputed(9) in \<open>simp_all add: tabs_def put_defs\<close>)
  then show ?thesis using ch_disputed(3) by (elim disjE) (auto simp: status_moves_def simp del: set_simps)
next
  case (ch_resolved tenant did d g res d' actor dec)
  note g = get_finding_Some[OF ch_resolved(3)] and d = get_dispute_Some[OF ch_resolved(1)]
  have pair: "f' = f \<or> f = g \<and> f' = g\<lparr>fn_status := resolution_target res d\<rparr>"
    by (rule put_pair[OF assms(2) _ conjunct1[OF g] _ assms(4-6)]) (use ch_resolved(11) in \<open>simp_all add: tabs_def put_defs\<close>)
  have con: "contested s (finding_id g)" using d g ch_resolved(2) by (auto simp: contested_def)
  have "finding_ok cfg s g" using assms(3) g by (simp add: lifecycle_ok_def)
  with con have "fn_status g \<in> {DISPUTED, REJECTED}" by (simp add: finding_ok_def status_ok_def)
  with pair con show ?thesis using ch_resolved(4) by (elim disjE) (auto simp: status_moves_def simp del: set_simps)
next
  case (ch_opened tenant fid g a aid r now)
  note g = get_finding_Some[OF ch_opened(1)]
  have "f' = f \<or> f = g \<and> f' = g\<lparr>fn_status := REMEDIATION_OPEN\<rparr>"
    by (rule put_pair[OF assms(2) _ conjunct1[OF g] _ assms(4-6)]) (use ch_opened(6) in \<open>simp_all add: tabs_def put_defs\<close>)
  then show ?thesis using ch_opened(3) by (elim disjE) (auto simp: status_moves_def simp del: set_simps)
next
  case (ch_declared tenant aid a g r a' now)
  note g = get_finding_Some[OF ch_declared(2)]
  have "f' = f \<or> f = g \<and> f' = g\<lparr>fn_status := REMEDIATION_DECLARED_COMPLETE\<rparr>"
    by (rule put_pair[OF assms(2) _ conjunct1[OF g] _ assms(4-6)]) (use ch_declared(7) in \<open>simp_all add: tabs_def put_defs\<close>)
  then show ?thesis using ch_declared(3) by (elim disjE) (auto simp: status_moves_def simp del: set_simps)
next
  case (ch_retested tenant aid a g who t outcome)
  note g = get_finding_Some[OF ch_retested(2)]
  have pair: "f' = f \<or> f = g \<and> f' = g\<lparr>fn_status := if outcome \<in> CLOSING_OUTCOMES then CLOSED_VERIFIED else REOPENED\<rparr>"
    by (rule put_pair[OF assms(2) _ conjunct1[OF g] _ assms(4-6)]) (use ch_retested(9) in \<open>simp_all add: tabs_def put_defs\<close>)
  have "fn_status g = REMEDIATION_DECLARED_COMPLETE" using ch_retested(3) by (cases "fn_status g") simp_all
  with pair show ?thesis by (elim disjE) (simp_all add: status_moves_def)
next
  case (ch_reopened tenant fid g a a' due plan)
  note g = get_finding_Some[OF ch_reopened(1)]
  have "f' = f \<or> f = g \<and> f' = g\<lparr>fn_status := REMEDIATION_OPEN\<rparr>"
    by (rule put_pair[OF assms(2) _ conjunct1[OF g] _ assms(4-6)]) (use ch_reopened(5) in \<open>simp_all add: tabs_def put_defs\<close>)
  then show ?thesis using ch_reopened(3) by (elim disjE) (auto simp: status_moves_def simp del: set_simps)
qed

section \<open>Properties\<close>

text \<open>
  C3. In every reachable state, a step moves the status of a finding only along the table
  \<open>ALLOWED_TRANSITIONS\<close>, with two exceptions: a retest passes through \<open>RETEST_IN_PROGRESS\<close> within
  one transaction, and the resolution of a dispute that is still open moves a finding that was
  rejected meanwhile as if it were still disputed.\<close>

theorem lifecycle_transitions:
  assumes "adj_reach cfg s" "adj_step cfg op s = Inr s'" "f \<in> set (findings s)" "f' \<in> set (findings s')" "finding_id f' = finding_id f"
  shows "fn_status f' = fn_status f \<or> fn_status f' \<in> set (ALLOWED_TRANSITIONS (fn_status f)) \<or>
     fn_status f = REMEDIATION_DECLARED_COMPLETE \<and> fn_status f' \<in> set (ALLOWED_TRANSITIONS RETEST_IN_PROGRESS) \<or>
     fn_status f = REJECTED \<and> fn_status f' \<in> set (ALLOWED_TRANSITIONS DISPUTED) \<and>
       (\<exists>d \<in> set (disputes s). ds_finding d = finding_id f \<and> ds_status d = ''open'')"
  using finding_moves[OF adj_reach_change[OF assms(1,2)] adj_reach_parts(2,3)[OF assms(1)] assms(3-5)]
  unfolding status_moves_def contested_def by blast

theorem lifecycle_transitions_witness:
  "\<exists>s s' f f'. adj_step default_config demo_retest s = Inr s' \<and> f \<in> set (findings s) \<and> f' \<in> set (findings s') \<and>
     fn_status f = REMEDIATION_DECLARED_COMPLETE \<and> fn_status f' \<in> set (ALLOWED_TRANSITIONS RETEST_IN_PROGRESS)"
proof -
  note d = demo_declared_state[unfolded opened_again_def]
  from d obtain s' where s': "adj_step default_config demo_retest (adj_demo demo_declared) = Inr s'"
    "finding_is CLOSED_VERIFIED ''critical'' s'" by (blast elim: steps_toD)
  from d obtain f where f: "findings (adj_demo demo_declared) = [f]" "finding_id f = ''fnd_0''" "fn_status f = REMEDIATION_DECLARED_COMPLETE"
    by (blast elim: finding_isD)
  obtain f' where f': "findings s' = [f']" "finding_id f' = ''fnd_0''" "fn_status f' = CLOSED_VERIFIED" using s'(2) by (rule finding_isD)
  have "fn_status f' \<in> set (ALLOWED_TRANSITIONS RETEST_IN_PROGRESS)"
    using lifecycle_transitions[OF adj_demo_reach s'(1), of f f'] f f' by simp
  with s'(1) f f' show ?thesis by (intro exI[of _ "adj_demo demo_declared"] exI[of _ s'] exI[of _ f] exI[of _ f']) simp
qed

text \<open>
  C11. In every reachable state, a finding that is approved, under remediation, declared complete,
  closed or reopened has an approval on record by an actor that is not automated.\<close>

theorem approved_by_human:
  assumes "adj_reach cfg s" "f \<in> set (findings s)"
    "fn_status f \<in> {APPROVED, REMEDIATION_OPEN, REMEDIATION_DECLARED_COMPLETE, RETEST_IN_PROGRESS, CLOSED_VERIFIED, REOPENED}"
  shows "\<exists>d \<in> set (decisions s). ad_finding d = Some (finding_id f) \<and> decision_type d = ''human:approve'' \<and>
     \<not> automated_actor cfg (ad_actor_id d)"
proof -
  have "finding_ok cfg s f" using adj_reach_parts(3)[OF assms(1)] assms(2) by (simp add: lifecycle_ok_def)
  then have "human_approved cfg s (finding_id f)"
    using assms(3) unfolding finding_ok_def status_ok_def past_approval_def by blast
  then show ?thesis by (simp add: human_approved_def)
qed

theorem approved_by_human_witness:
  "\<exists>d \<in> set (decisions (adj_demo demo_closure)). ad_finding d = Some ''fnd_0'' \<and> decision_type d = ''human:approve'' \<and>
     \<not> automated_actor default_config (ad_actor_id d)"
proof -
  obtain f where f: "findings (adj_demo demo_closure) = [f]" "finding_id f = ''fnd_0''" "fn_status f = CLOSED_VERIFIED"
    using demo_closure_state by (rule finding_isD)
  show ?thesis using approved_by_human[OF adj_demo_reach, of f demo_closure] f by simp
qed

text \<open>
  C6. In every reachable state, a closed finding has one remediation behind it: a management
  response answered it, with evidence where the action required it, and a retest verified it, with
  evidence, by somebody who neither authored the finding, nor owns the action, nor completed it.\<close>

theorem closed_after_independent_retest:
  assumes "adj_reach cfg s" "f \<in> set (findings s)" "fn_status f = CLOSED_VERIFIED"
  shows "\<exists>a \<in> set (actions s). ra_finding a = finding_id f \<and> ra_status a = ''closed'' \<and>
     (\<exists>r \<in> set (responses s). mg_finding r = finding_id f \<and> completed_by a = Some (submitted_by r) \<and>
        (closure_evidence_required a \<longrightarrow> closure_evidence_ids r \<noteq> [])) \<and>
     (\<exists>t \<in> set (retests s). \<exists>who. rt_action t = action_id a \<and> rt_outcome t = Some ''closed_verified'' \<and> rt_evidence_ids t \<noteq> [] \<and>
        rt_performed_by t = Some who \<and>
        identity who \<notin> {identity x |x. Some x \<in> {fn_authored_by f, Some (owner_ref a), completed_by a} \<and> identity x \<noteq> []})"
proof -
  have "finding_ok cfg s f" using adj_reach_parts(3)[OF assms(1)] assms(2) by (simp add: lifecycle_ok_def)
  then have "acted s (finding_id f)" using assms(3) by (simp add: finding_ok_def status_defs)
  then obtain a where a: "a \<in> set (actions s)" "ra_finding a = finding_id f" by (auto simp: acted_def)
  with adj_reach_parts(4)[OF assms(1)] assms(2) have "remediation_ok s f a" by (simp add: closure_ok_def)
  with assms(3) have ok: "ra_status a = ''closed''" "answered s a" "verified s f a" by (simp_all add: remediation_ok_def)
  from ok(3) obtain t who where t: "t \<in> set (retests s)" "rt_action t = action_id a" "rt_outcome t = Some ''closed_verified''"
    "rt_evidence_ids t \<noteq> []" "rt_performed_by t = Some who" "independent_retester f a who" unfolding verified_def by blast
  have "identity who \<notin> {identity x |x. Some x \<in> {fn_authored_by f, Some (owner_ref a), completed_by a} \<and> identity x \<noteq> []}"
    using t(6) by (auto simp: independent_retester_def retest_conflicts_def text_or_empty_def split: option.splits)
  with t have "\<exists>t \<in> set (retests s). \<exists>who. rt_action t = action_id a \<and> rt_outcome t = Some ''closed_verified'' \<and> rt_evidence_ids t \<noteq> [] \<and>
      rt_performed_by t = Some who \<and>
      identity who \<notin> {identity x |x. Some x \<in> {fn_authored_by f, Some (owner_ref a), completed_by a} \<and> identity x \<noteq> []}"
    by (intro bexI[OF _ t(1)] exI[of _ who]) simp
  with a ok(1) ok(2)[unfolded answered_def] show ?thesis by (intro bexI[OF _ a(1)]) (simp only: a(2))
qed

theorem closed_after_independent_retest_witness:
  "\<exists>a \<in> set (actions (adj_demo demo_closure)). ra_finding a = ''fnd_0'' \<and> ra_status a = ''closed''"
proof -
  obtain f where f: "findings (adj_demo demo_closure) = [f]" "finding_id f = ''fnd_0''" "fn_status f = CLOSED_VERIFIED"
    using demo_closure_state by (rule finding_isD)
  show ?thesis using closed_after_independent_retest[OF adj_demo_reach, of f demo_closure] f by auto
qed

text \<open>
  C7. An adjudication that approves a finding was not asked for by an automated actor, found no open
  dispute, a materiality assessment of the finding's present content and, where the configuration
  requires a quality review, a review of that content that passed, by somebody who is neither the
  approver nor the author.\<close>

theorem approval_gates:
  assumes "adj_reach cfg s" "get_finding tenant (ar_finding_id r) s = Some f" "ar_decision r = APPROVE" "fn_status f \<noteq> APPROVED"
    "adjudicate cfg tenant r s = Inr (APPROVED, s')"
  shows "\<not> automated_actor cfg (ar_actor_id r) \<and> open_dispute tenant (finding_id f) s = None \<and>
     (\<exists>a \<in> set (assessments s). ma_finding a = finding_id f \<and> ma_content_hash a = finding_hash f s) \<and>
     (require_quality_review cfg \<longrightarrow> (\<exists>v \<in> set (reviews s). qv_finding v = finding_id f \<and> qv_passed v \<and> qv_content_hash v = finding_hash f s \<and>
        identity (qv_reviewer_id v) \<noteq> identity (ar_actor_id r) \<and> independent_of (qv_reviewer_id v) (fn_authored_by f)))"
proof -
  have rf: "require_finding tenant (ar_finding_id r) s = Inr f" using assms(2) by (simp add: require_finding_def)
  note f = get_finding_Some[OF assms(2)]
  have na: "\<not> automated_actor cfg (ar_actor_id r)" using assms(5) by (auto simp: adjudicate_def)
  have gates: "require_approval_preconditions cfg tenant f (ar_actor_id r) s = Inr ()"
    using assms(3-5) by (auto simp: adjudicate_def rf Let_def res_simps split: if_splits)
  then have opened: "open_gates cfg tenant f s = []" by (auto simp: require_approval_preconditions_def Let_def split: if_splits)
  then have "latest_assessment tenant (finding_id f) (Some (finding_hash f s)) s \<noteq> None"
    by (auto simp: open_gates_def Let_def split: if_splits)
  then obtain a where "latest_assessment tenant (finding_id f) (Some (finding_hash f s)) s = Some a" by blast
  note a = first_row_sorted[OF this[unfolded latest_assessment_def]]
  have review: "\<exists>v \<in> set (reviews s). qv_finding v = finding_id f \<and> qv_passed v \<and> qv_content_hash v = finding_hash f s \<and>
        identity (qv_reviewer_id v) \<noteq> identity (ar_actor_id r) \<and> independent_of (qv_reviewer_id v) (fn_authored_by f)"
    if req: "require_quality_review cfg"
  proof -
    from opened req have "passing_review tenant (finding_id f) (finding_hash f s) s \<noteq> None"
      by (auto simp: open_gates_def Let_def split: if_splits)
    then obtain v where pv: "passing_review tenant (finding_id f) (finding_hash f s) s = Some v" by blast
    note v = first_row_sorted[OF pv[unfolded passing_review_def]]
    have "identity (qv_reviewer_id v) \<noteq> identity (ar_actor_id r)"
      using gates opened req pv by (auto simp: require_approval_preconditions_def Let_def split: if_splits)
    moreover from v adj_reach_parts(5)[OF assms(1)] obtain g where
      g: "g \<in> set (findings s)" "finding_id g = finding_id f" "independent_of (qv_reviewer_id v) (fn_authored_by g)"
      unfolding reviews_ok_def by fastforce
    moreover have "g = f" using adj_reach_parts(2)[OF assms(1)] g(1,2) f by (intro same_key[of finding_id "findings s"]) (simp_all add: keys_ok_def)
    ultimately show ?thesis using v by (intro bexI[of _ v]) simp_all
  qed
  have "\<exists>a \<in> set (assessments s). ma_finding a = finding_id f \<and> ma_content_hash a = finding_hash f s"
    using a by (intro bexI[of _ a]) simp_all
  with na gates_closed[OF gates] review show ?thesis by blast
qed

theorem approval_gates_witness:
  "\<exists>v \<in> set (reviews (adj_demo demo_approval)). qv_finding v = ''fnd_0'' \<and> qv_passed v \<and>
     identity (qv_reviewer_id v) \<noteq> identity ''maria''"
proof -
  obtain f where f: "findings (adj_demo demo_approval) = [f]" "finding_id f = ''fnd_0''" "fn_status f = PROPOSED"
    using demo_approval_state unfolding approves_def by (blast elim: finding_isD)
  obtain s' where s': "adjudicate default_config ''acme'' (demo_verdict APPROVE) (adj_demo demo_approval) = Inr (APPROVED, s')"
    using demo_approval_state by (auto simp: approves_def split: sum.splits)
  then obtain g where g: "get_finding ''acme'' (ar_finding_id (demo_verdict APPROVE)) (adj_demo demo_approval) = Some g"
    by (auto simp: adjudicate_def res_simps dest!: require_finding_Inr)
  then have "g = f" using get_finding_Some[OF g] f by simp
  with approval_gates[OF adj_demo_reach g _ _ s'] f show ?thesis
    by (auto simp: demo_verdict_def default_config_def)
qed

text \<open>
  Opening a remediation never gives a finding a second one: after it, the finding has exactly one
  remediation action, the one whose identifier is returned; it is new exactly when the finding had
  none, and otherwise nothing changes.\<close>

lemma remediation_once:
  assumes "adj_reach cfg s" "open_remediation tenant r s = Inr ((aid, new), s')"
  shows "\<exists>a. filter (\<lambda>a. ra_finding a = rq_finding_id r) (actions s') = [a] \<and> action_id a = aid \<and>
     (new \<longleftrightarrow> (\<forall>b \<in> set (actions s). ra_finding b \<noteq> rq_finding_id r)) \<and> (\<not> new \<longrightarrow> s' = s)"
proof -
  from assms(2) obtain f where rf: "require_finding tenant (rq_finding_id r) s = Inr f" by (auto simp: open_remediation_def res_simps)
  note f = require_finding_Inr[OF rf]
  have keys: "keys_ok s" using adj_reach_parts(2)[OF assms(1)] .
  have "adj_change cfg s s'" using open_remediation_change[OF assms(2), of cfg] by (auto simp: recorded_change_def intro: ch_same)
  then have "keys_ok s'" by (rule keys_ok_change[OF keys])
  then have dist: "distinct (map ra_finding (actions s'))" by (simp add: keys_ok_def)
  have one: "filter (\<lambda>x. ra_finding x = ra_finding a) xs = [a]" if "a \<in> set xs" "distinct (map ra_finding xs)" for a xs
    using that by (induction xs) (auto simp: filter_empty_conv image_iff)
  show ?thesis
  proof (cases "open_action_for tenant (finding_id f) s")
    case (Some a)
    note a = open_action_for_Some[OF Some]
    from assms(2) rf Some have "s' = s" "aid = action_id a" "\<not> new" by (auto simp: open_remediation_def split: if_splits)
    with a f one[OF _ dist, of a] show ?thesis by (intro exI[of _ a]) auto
  next
    case None
    let ?s2 = "snd (utc_now (snd (new_id ''rma'' s)))"
    let ?a = "new_action (fst (new_id ''rma'' s)) tenant r (fst (utc_now (snd (new_id ''rma'' s)))) f"
    obtain s3 where s3: "add_action ?a ?s2 = Inr s3" and em: "emits (put_finding (f\<lparr>fn_status := REMEDIATION_OPEN\<rparr>) s3) s'"
      and out: "aid = fst (new_id ''rma'' s)" "new"
      using assms(2) unfolding open_remediation_def Let_def split_beta bind_res_eq_Inr rf
      by (elim exE conjE) (auto simp: None res_simps dest!: emitsI simp del: set_simps)
    have "actions s' = actions s @ [?a]"
      using em s3 by (auto simp: emits_def tabs_def put_finding_def add_action_def split: if_splits)
    then have "filter (\<lambda>a. ra_finding a = rq_finding_id r) (actions s') = [?a]"
      using one[OF _ dist, of ?a] f by (simp add: new_action_def)
    moreover have "\<not> acted s (finding_id f)" using no_action[OF keys, of f] None f get_finding_Some by auto
    ultimately show ?thesis using out f by (intro exI[of _ ?a]) (auto simp: new_action_def acted_def image_iff)
  qed
qed

text \<open>
  C13. A step lowers the severity of a finding only by a recorded override: it appends the decision of
  an actor that is not automated, and an assessment of the new content carries the severity it was
  lowered to, the actor, and a floor above it.\<close>

theorem severity_lowered_only_by_override:
  assumes "adj_reach cfg s" "adj_step cfg op s = Inr s'" "f \<in> set (findings s)" "f' \<in> set (findings s')" "finding_id f' = finding_id f"
    "severity_rank (fn_severity f') < severity_rank (fn_severity f)"
  shows "\<exists>d. decisions s' = decisions s @ [d] \<and> ad_finding d = Some (finding_id f) \<and> decision_type d = ''human:severity_override'' \<and>
     \<not> automated_actor cfg (ad_actor_id d) \<and>
     (\<exists>a \<in> set (assessments s'). override_severity_to a = Some (fn_severity f') \<and> override_by a = Some (ad_actor_id d) \<and>
        ma_content_hash a = finding_hash f' s' \<and> severity_rank (fn_severity f') < severity_rank (ma_severity_floor a))"
  using finding_moves[OF adj_reach_change[OF assms(1,2)] adj_reach_parts(2,3)[OF assms(1)] assms(3-5)] assms(5,6)
  by (simp add: lowered_by_override_def)

theorem severity_lowered_only_by_override_witness:
  "\<exists>s s' d. adj_step default_config demo_override s = Inr s' \<and> decisions s' = decisions s @ [d] \<and>
     decision_type d = ''human:severity_override'' \<and> \<not> automated_actor default_config (ad_actor_id d)"
proof -
  let ?s = "adj_demo [demo_propose, demo_assess]"
  from demo_override_state obtain s' where s': "adj_step default_config demo_override ?s = Inr s'" "finding_is PROPOSED ''low'' s'"
    unfolding lowered_def by (blast elim: steps_toD)
  from demo_override_state obtain f where f: "findings ?s = [f]" "finding_id f = ''fnd_0''" "fn_severity f = ''critical''"
    unfolding lowered_def by (blast elim: finding_isD)
  obtain f' where f': "findings s' = [f']" "finding_id f' = ''fnd_0''" "fn_severity f' = ''low''" using s'(2) by (rule finding_isD)
  have "severity_rank ''low'' < severity_rank ''critical''" by code_simp
  then obtain d where "decisions s' = decisions ?s @ [d]" "decision_type d = ''human:severity_override''"
    "\<not> automated_actor default_config (ad_actor_id d)"
    using severity_lowered_only_by_override[OF adj_demo_reach s'(1), of f f'] f f' by auto
  with s'(1) show ?thesis by blast
qed

text \<open>
  A closed, withdrawn or risk-accepted finding is final: whatever operations follow, it is still
  there with its status and everything else it says, its severity excepted.\<close>

lemma terminal_findings_stay:
  assumes "adj_reach cfg s" "f \<in> set (findings s)" "fn_status f \<in> {CLOSED_VERIFIED, WITHDRAWN, RISK_ACCEPTED}"
  shows "\<exists>f' \<in> set (findings (run_ops (adj_step cfg) ops s)). f' = f\<lparr>fn_severity := fn_severity f'\<rparr>"
  using assms
proof (induction ops arbitrary: s f)
  case Nil
  then show ?case by (intro bexI[of _ f]) simp_all
next
  case (Cons op ops)
  show ?case
  proof (cases "adj_step cfg op s")
    case (Inr t)
    note c = adj_reach_change[OF Cons.prems(1) Inr]
    have dist: "distinct (map finding_id (findings s))" using adj_reach_parts(2)[OF Cons.prems(1)] by (simp add: keys_ok_def)
    from keeps_findings_rows[OF adj_change_keeps[OF c] dist Cons.prems(2)] obtain g where g: "g \<in> set (findings t)" "same_finding f g" by blast
    have "status_moves s f (fn_status g)"
      using finding_moves[OF c adj_reach_parts(2,3)[OF Cons.prems(1)] Cons.prems(2) g(1)] same_finding_fields(1)[OF g(2)] by simp
    then have st: "fn_status g = fn_status f" using Cons.prems(3) by (auto simp: status_moves_def)
    have g': "g = f\<lparr>fn_severity := fn_severity g\<rparr>" using g(2) st by (simp add: same_finding_def)
    have t: "adj_reach cfg t" using Cons.prems(1) Inr unfolding adj_reach_def by (rule reach_step)
    from Cons.IH[OF t g(1)] st Cons.prems(3) obtain h where
      h: "h \<in> set (findings (run_ops (adj_step cfg) ops t))" "h = g\<lparr>fn_severity := fn_severity h\<rparr>" by auto
    have "h = f\<lparr>fn_severity := fn_severity h\<rparr>" by (subst h(2), subst g') simp
    with h(1) show ?thesis by (intro bexI[of _ h]) (simp_all add: Inr)
  qed (use Cons in simp)
qed

text \<open>
  The identifiers that resolving a dispute draws are new, and so is the key of its message.\<close>

definition resolution_fresh :: "ident \<Rightarrow> ident \<Rightarrow> adj_store \<Rightarrow> bool" where
  "resolution_fresh tenant did s \<longleftrightarrow>
     (let (apd, s1) = new_id ''apd'' s; (evt, s2) = new_event_id s1; (obx, _) = new_id ''obx'' s2 in
      \<not> has_key decision_id apd (decisions s) \<and> \<not> has_key event_id evt (audit_events s) \<and>
      \<not> has_key outbox_id obx (outbox_events s) \<and>
      \<not> has_key (\<lambda>m. (ob_tenant m, ob_idempotency_key m)) (tenant, ''dispute-resolved:'' @ did) (outbox_events s))"

lemma demo_contest_fresh: "resolution_fresh ''acme'' ''dsp_3'' (adj_demo demo_contest)"
  by code_simp

lemma find_unique:
  assumes "x \<in> set xs" "P x" "\<And>y. y \<in> set xs \<Longrightarrow> P y \<Longrightarrow> y = x"
  shows "find P xs = Some x"
proof (cases "find P xs")
  case None
  with assms(1,2) show ?thesis by (simp add: find_None_iff)
next
  case (Some y)
  then have "y \<in> set xs" "P y" by (auto simp: find_Some_iff)
  then have "y = x" by (rule assms(3))
  with Some show ?thesis by simp
qed

lemma emit_succeeds:
  assumes "\<not> has_key event_id (fst (new_event_id s)) (audit_events s)"
    "\<not> has_key outbox_id (fst (new_id ''obx'' (snd (new_event_id s)))) (outbox_events s)"
    "\<not> has_key (\<lambda>m. (ob_tenant m, ob_idempotency_key m)) (tenant, key) (outbox_events s)"
  shows "\<exists>s'. emit tenant eng aid etype data key atype True s = Inr s'"
  using assms
  by (simp add: emit_def append_event_def outbox_add_def new_id_def new_event_id_def draw_uuid_def utc_now_def Let_def bind_res_def)

lemma resolution_recorded:
  assumes "resolution_fresh tenant did s" and "f \<in> set (findings s)" and "fn_tenant f = tenant"
    and "tenant \<in> set (tenant_ids s)" "fn_engagement f \<in> set (engagement_ids s)" and "finding_id f' = finding_id f"
  obtains s2 where "decide tenant f dtype who reason (put_finding f' (put_dispute d' (snd (utc_now s)))) = Inr s2"
    and "findings s2 = put finding_id f' (findings s)"
    and "\<And>eng aid etype data atype. \<exists>s'. emit tenant eng aid etype data (''dispute-resolved:'' @ did) atype True s2 = Inr s'"
proof -
  have hk: "has_key finding_id (finding_id f) (findings s)" using assms(2) by (auto simp: has_key_def)
  have "\<exists>s2. decide tenant f dtype who reason (put_finding f' (put_dispute d' (snd (utc_now s)))) = Inr s2 \<and>
      findings s2 = put finding_id f' (findings s) \<and> audit_events s2 = audit_events s \<and>
      outbox_events s2 = outbox_events s \<and> uuids s2 = uuids s \<and> uuids_drawn s2 = Suc (uuids_drawn s)"
    using assms(1,3-6) hk
    by (simp add: decide_def add_decision_def resolution_fresh_def new_id_def new_event_id_def draw_uuid_def utc_now_def Let_def
        optional_key_def put_defs has_key_image map_key_put flip: set_map)
  then obtain s2 where s2: "decide tenant f dtype who reason (put_finding f' (put_dispute d' (snd (utc_now s)))) = Inr s2"
    "findings s2 = put finding_id f' (findings s)" "audit_events s2 = audit_events s"
    "outbox_events s2 = outbox_events s" "uuids s2 = uuids s" "uuids_drawn s2 = Suc (uuids_drawn s)" by (elim exE conjE)
  have "\<exists>s'. emit tenant eng aid etype data (''dispute-resolved:'' @ did) atype True s2 = Inr s'" for eng aid etype data atype
    by (rule emit_succeeds)
      (use assms(1) s2(3-6) in \<open>simp_all add: resolution_fresh_def new_id_def new_event_id_def draw_uuid_def Let_def\<close>)
  from that[OF s2(1,2) this] show thesis .
qed

text \<open>
  C28. A rejected finding can come back, although \<open>ALLOWED_TRANSITIONS\<close> lets nothing leave
  \<open>REJECTED\<close>: the resolution of a dispute checks the table from \<open>DISPUTED\<close>, whatever the finding has
  become. In every reachable state, any rejected finding with a dispute that is still open leaves
  \<open>REJECTED\<close> when a person who neither raised the dispute nor wrote the finding resolves it: upheld,
  the finding returns to the status it had before the dispute, which is proposed or approved;
  modified, it is proposed; withdrawn, it is withdrawn. (That the drawn identifiers are new is all
  that is asked of the store, and nothing else about the finding changes.)\<close>

theorem rejected_finding_revived:
  assumes "adj_reach cfg s" and "f \<in> set (findings s)" and "fn_status f = REJECTED"
    and "d \<in> set (disputes s)" and "ds_finding d = finding_id f" and "ds_status d = ''open''"
    and "dispute_resolution_request_ok r" and "dr_dispute_id r = dispute_id d"
    and "\<not> automated_actor cfg (dr_resolved_by r)"
    and "\<forall>who. who = raised_by d \<or> fn_authored_by f = Some who \<longrightarrow> identity (dr_resolved_by r) \<noteq> identity who"
    and "resolution_fresh (ds_tenant d) (dispute_id d) s"
  shows "ALLOWED_TRANSITIONS (fn_status f) = [] \<and> prior_status d \<in> {PROPOSED, APPROVED} \<and>
    (\<exists>s'. adj_step cfg (ResolveDispute (ds_tenant d) r) s = Inr s' \<and>
       row finding_id (finding_id f) (findings s') = Some (f\<lparr>fn_status := (case dr_resolution r of
         DR_UPHELD \<Rightarrow> prior_status d | DR_MODIFIED \<Rightarrow> PROPOSED | DR_WITHDRAWN \<Rightarrow> WITHDRAWN)\<rparr>))"
proof -
  let ?tenant = "ds_tenant d" and ?t = "resolution_target (dr_resolution r) d"
  note parts = adj_reach_parts[OF assms(1)]
  have dist: "distinct (map finding_id (findings s))" "distinct (map dispute_id (disputes s))" using parts(2) by (simp_all add: keys_ok_def)
  have prior: "prior_status d \<in> {PROPOSED, APPROVED}" using parts(3) assms(4,6) by (simp add: lifecycle_ok_def disputes_ok_def)
  from parts(2) assms(4) obtain g where g: "g \<in> set (findings s)" "finding_id g = ds_finding d" "fn_tenant g = ?tenant"
    unfolding keys_ok_def by blast
  have "g = f" by (rule same_key[OF dist(1) g(1) assms(2)]) (simp add: g(2) assms(5))
  with g have ten: "fn_tenant f = ?tenant" by simp
  have gd: "get_dispute ?tenant (dispute_id d) s = Some d"
    unfolding get_dispute_def by (rule find_unique[OF assms(4)]) (auto intro: same_key[OF dist(2) _ assms(4)])
  have gf: "get_finding ?tenant (finding_id f) s = Some f"
    unfolding get_finding_def by (rule find_unique[OF assms(2)]) (auto simp: ten intro: same_key[OF dist(1) _ assms(2)])
  then have rf: "require_finding ?tenant (ds_finding d) s = Inr f" by (simp add: require_finding_def assms(5))
  have tr: "require_transition DISPUTED ?t = Inr ()"
    using prior by (cases "dr_resolution r") (auto simp: require_transition_def resolution_target_def)
  let ?d' = "d\<lparr>ds_status := ''resolved'', ds_resolution := Some (dispute_resolution_value (dr_resolution r)),
      resolution_reason := Some (dr_reason r), resolved_by := Some (dr_resolved_by r), resolved_at := Some (fst (utc_now s))\<rparr>"
  let ?s1 = "put_finding (f\<lparr>fn_status := ?t\<rparr>) (put_dispute ?d' (snd (utc_now s)))"
  let ?dtype = "''dispute:'' @ dispute_resolution_value (dr_resolution r)"
  let ?key = "''dispute-resolved:'' @ dispute_id d"
  have ids: "?tenant \<in> set (tenant_ids s)" "fn_engagement f \<in> set (engagement_ids s)"
    using parts(7) assms(2) by (simp_all add: row_refs_ok_def flip: ten)
  obtain s2 where s2: "decide ?tenant f ?dtype (dr_resolved_by r) (dr_reason r) ?s1 = Inr s2"
    "findings s2 = put finding_id (f\<lparr>fn_status := ?t\<rparr>) (findings s)"
    and out: "\<And>eng aid etype data atype. \<exists>s'. emit ?tenant eng aid etype data ?key atype True s2 = Inr s'"
    by (rule resolution_recorded[OF assms(11,2) ten ids, of "f\<lparr>fn_status := ?t\<rparr>" ?dtype "dr_resolved_by r" "dr_reason r" ?d']) simp_all
  have author: "\<not> (truthy (fn_authored_by f) \<and> identity (dr_resolved_by r) = identity (the (fn_authored_by f)))"
    using assms(10) by (cases "fn_authored_by f") auto
  let ?data = "[(''finding_id'', PStr (finding_id f)), (''dispute_id'', PStr (dispute_id d)), (''round_no'', PInt (int (round_no d))),
      (''resolution'', PStr (dispute_resolution_value (dr_resolution r))), (''resolved_by'', PStr (dr_resolved_by r)),
      (''status'', PStr (finding_status_value ?t)), (''reason'', PStr (dr_reason r))]"
  from out[of "Some (fn_engagement f)" "finding_id f" "''finding.dispute_'' @ dispute_resolution_value (dr_resolution r)" ?data "''finding''"]
  obtain s' where s': "emit ?tenant (Some (fn_engagement f)) (finding_id f) (''finding.dispute_'' @ dispute_resolution_value (dr_resolution r))
      ?data ?key ''finding'' True s2 = Inr s'" ..
  have "resolve_dispute cfg ?tenant r s = Inr (?t, s')"
    using assms(6,8-10) gd rf tr author s2(1) s' by (simp add: resolve_dispute_def Let_def split_beta bind_res_def)
  then have step: "adj_step cfg (ResolveDispute ?tenant r) s = Inr s'" using assms(7) by (simp add: validated_Inr)
  have "findings s' = findings s2"
    by (rule tabs_fields(3)) (use emit_Inr[OF s'] in \<open>cases "dr_resolution r"; simp\<close>)
  then have "row finding_id (finding_id f) (findings s') = Some (f\<lparr>fn_status := ?t\<rparr>)"
    using s2(2) row_distinct[OF dist(1) assms(2)] by (simp add: row_put)
  with step prior assms(3) show ?thesis by (simp add: resolution_target_def)
qed

theorem rejected_finding_revived_witness:
  "\<exists>s s' f f'. adj_reach default_config s \<and> adj_step default_config demo_uphold s = Inr s' \<and> f \<in> set (findings s) \<and> f' \<in> set (findings s') \<and>
     finding_id f' = finding_id f \<and> fn_status f = REJECTED \<and> fn_status f' = PROPOSED"
proof -
  let ?s = "adj_demo demo_contest"
  obtain f d where f: "findings ?s = [f]" "finding_id f = ''fnd_0''" "fn_status f = REJECTED" "fn_authored_by f = Some ''agent:tester''"
    and d: "disputes ?s = [d]" "ds_finding d = ''fnd_0''" "ds_status d = ''open''" "dispute_id d = ''dsp_3''" "ds_tenant d = ''acme''"
      "raised_by d = ''omar''" "prior_status d = PROPOSED"
    using demo_contest_rows by (auto simp: list.map_comp case_prod_unfold)
  have fresh: "resolution_fresh (ds_tenant d) (dispute_id d) ?s" unfolding d(4,5) by (rule demo_contest_fresh)
  let ?r = "\<lparr>dr_dispute_id = ''dsp_3'', dr_resolution = DR_UPHELD, dr_reason = ''scope confirmed'', dr_resolved_by = ''paula''\<rparr>"
  have ok: "dispute_resolution_request_ok ?r" "\<not> automated_actor default_config (dr_resolved_by ?r)"
    "identity ''paula'' \<noteq> identity ''omar''" "identity ''paula'' \<noteq> identity ''agent:tester''" by code_simp+
  from rejected_finding_revived[OF adj_demo_reach, of f demo_contest d ?r] f d ok fresh
  obtain s' where s': "adj_step default_config (ResolveDispute ''acme'' ?r) ?s = Inr s'"
    "row finding_id ''fnd_0'' (findings s') = Some (f\<lparr>fn_status := PROPOSED\<rparr>)" by auto
  from row_Some[OF s'(2)] f s'(1) show ?thesis
    by (intro exI[of _ ?s] exI[of _ s'] exI[of _ f] exI[of _ "f\<lparr>fn_status := PROPOSED\<rparr>"]) (simp add: demo_uphold_def adj_demo_reach)
qed

text \<open>
  C12. Every change of the service is on record: in every reachable state the outbox holds, in order,
  a message for each event of the ledger but those of failed ticket attempts; and a step that changes
  a finding, a decision, a response, an action, an assessment, a review, a dispute or a retest appends
  exactly one event and exactly one message that carries it, unsent. The one exception is the record
  of a ticket that could not be filed: it appends its event with no message, and the change it makes
  is confined to the two ticket columns of one action.\<close>

theorem adjudication_recorded:
  assumes "adj_reach cfg s"
  shows "list_all2 carries (outbox_events s) (filter (\<lambda>e. event_type e \<noteq> ''remediation.ticket_failed'') (audit_events s)) \<and>
     (\<forall>op s'. adj_step cfg op s = Inr s' \<longrightarrow>
        (findings s', decisions s', responses s', actions s') \<noteq> (findings s, decisions s, responses s, actions s) \<or>
        (assessments s', reviews s', disputes s', retests s') \<noteq> (assessments s, reviews s, disputes s, retests s) \<longrightarrow>
        published s s' \<or>
        (\<exists>tenant aid f system msg. op = TicketFailed tenant aid f system msg) \<and> unpublished s s' \<and>
          (\<exists>a \<in> set (actions s). \<exists>msg.
             tabs s' = tabs (put_action (a\<lparr>external_sync_state := ''failed'', external_error := Some msg\<rparr>) s)))"
proof (intro conjI allI impI)
  show "list_all2 carries (outbox_events s) (filter (\<lambda>e. event_type e \<noteq> ''remediation.ticket_failed'') (audit_events s))"
    using adj_reach_parts(1)[OF assms] by (simp add: adj_log_ok_def)
next
  fix op s' assume step: "adj_step cfg op s = Inr s'" and
    diff: "(findings s', decisions s', responses s', actions s') \<noteq> (findings s, decisions s, responses s, actions s) \<or>
        (assessments s', reviews s', disputes s', retests s') \<noteq> (assessments s, reviews s, disputes s, retests s)"
  have nt: "tabs s' \<noteq> tabs s" using diff by (auto simp: tabs_def)
  from adj_step_cases[OF adj_reach_parts(1)[OF assms] step]
  consider "published s s'" | "(\<exists>tenant aid f system msg. op = TicketFailed tenant aid f system msg) \<and> ticket_failure s s'"
    | "s' = s" | "tabs s' = tabs s" | "\<exists>ts. s' = s\<lparr>tenant_ids := ts\<rparr>" | "\<exists>es. s' = s\<lparr>engagement_ids := es\<rparr>"
    by (auto simp: recorded_change_def outbox_follow_def dest: tabs_more)
  then show "published s s' \<or>
        (\<exists>tenant aid f system msg. op = TicketFailed tenant aid f system msg) \<and> unpublished s s' \<and>
          (\<exists>a \<in> set (actions s). \<exists>msg.
             tabs s' = tabs (put_action (a\<lparr>external_sync_state := ''failed'', external_error := Some msg\<rparr>) s))"
  proof cases
    case 2
    with nt show ?thesis by (simp add: ticket_failure_def)
  qed (use diff in \<open>auto simp: tabs_def\<close>)
qed

theorem adjudication_recorded_witness:
  "\<exists>s'. adj_step default_config demo_uphold (adj_demo demo_contest) = Inr s' \<and> published (adj_demo demo_contest) s'"
proof -
  from demo_contest_state obtain s' where s': "adj_step default_config demo_uphold (adj_demo demo_contest) = Inr s'"
    "finding_is PROPOSED ''medium'' s'" unfolding revived_def by (blast elim: steps_toD)
  have "findings s' \<noteq> findings (adj_demo demo_contest)"
    using demo_contest_state s'(2) by (auto simp: revived_def finding_is_def finding_summary_def)
  moreover have "\<not> (\<exists>tenant aid f system msg. demo_uphold = TicketFailed tenant aid f system msg)" by (simp add: demo_uphold_def)
  moreover note conjunct2[OF adjudication_recorded[OF adj_demo_reach, of demo_contest], rule_format, OF s'(1)]
  ultimately have "published (adj_demo demo_contest) s'" by blast
  with s'(1) show ?thesis by blast
qed

text \<open>
  C25. The tables are well formed in every reachable state. A finding has a severity of the scale,
  cites evidence, has an author and a contradiction search on record, never rests in
  \<open>RETEST_IN_PROGRESS\<close>, and its tenant and engagement are known. Keys: the identifiers of findings,
  decisions, responses, actions, assessments, reviews, disputes and retests are unique, and so are
  the triple of engagement, code and version of a finding, the version of a response and the round
  of a dispute within their finding, and the action of a finding. References: a decision names a
  finding of its tenant and engagement; a response, an action, an assessment, a review and a
  dispute belong to a finding of their tenant, and a retest to an action of its tenant.\<close>

theorem findings_well_formed:
  assumes "adj_reach cfg s"
  shows "(\<forall>f \<in> set (findings s). fn_severity f \<in> set SEVERITY_ORDER \<and> fn_evidence_ids f \<noteq> [] \<and> fn_skeptic_reviewed_at f \<noteq> None \<and>
        fn_authored_by f \<noteq> None \<and> fn_status f \<noteq> RETEST_IN_PROGRESS \<and>
        fn_tenant f \<in> set (tenant_ids s) \<and> fn_engagement f \<in> set (engagement_ids s)) \<and>
     (distinct (map finding_id (findings s)) \<and> distinct (map decision_id (decisions s)) \<and> distinct (map response_id (responses s)) \<and>
      distinct (map action_id (actions s)) \<and> distinct (map assessment_id (assessments s)) \<and> distinct (map review_id (reviews s)) \<and>
      distinct (map dispute_id (disputes s)) \<and> distinct (map retest_id (retests s))) \<and>
     (distinct (map (\<lambda>f. (fn_engagement f, fn_code f, fn_version f)) (findings s)) \<and>
      distinct (map (\<lambda>r. (mg_finding r, mg_version r)) (responses s)) \<and>
      distinct (map (\<lambda>d. (ds_finding d, round_no d)) (disputes s)) \<and> distinct (map ra_finding (actions s))) \<and>
     (\<forall>d \<in> set (decisions s). \<exists>f \<in> set (findings s).
        ad_finding d = Some (finding_id f) \<and> ad_tenant d = fn_tenant f \<and> ad_engagement d = Some (fn_engagement f)) \<and>
     (\<forall>(fid, tenant) \<in> (\<lambda>r. (mg_finding r, mg_tenant r)) ` set (responses s) \<union> (\<lambda>a. (ra_finding a, ra_tenant a)) ` set (actions s) \<union>
          (\<lambda>a. (ma_finding a, ma_tenant a)) ` set (assessments s) \<union> (\<lambda>v. (qv_finding v, qv_tenant v)) ` set (reviews s) \<union>
          (\<lambda>d. (ds_finding d, ds_tenant d)) ` set (disputes s).
        \<exists>f \<in> set (findings s). finding_id f = fid \<and> fn_tenant f = tenant) \<and>
     (\<forall>t \<in> set (retests s). \<exists>a \<in> set (actions s). action_id a = rt_action t \<and> ra_tenant a = rt_tenant t)"
proof (intro conjI)
  note parts = adj_reach_parts[OF assms]
  show "\<forall>f \<in> set (findings s). fn_severity f \<in> set SEVERITY_ORDER \<and> fn_evidence_ids f \<noteq> [] \<and> fn_skeptic_reviewed_at f \<noteq> None \<and>
        fn_authored_by f \<noteq> None \<and> fn_status f \<noteq> RETEST_IN_PROGRESS \<and>
        fn_tenant f \<in> set (tenant_ids s) \<and> fn_engagement f \<in> set (engagement_ids s)"
    using parts(3,7) by (simp add: lifecycle_ok_def finding_ok_def finding_wf_def status_ok_def row_refs_ok_def)
  show "\<forall>(fid, tenant) \<in> (\<lambda>r. (mg_finding r, mg_tenant r)) ` set (responses s) \<union> (\<lambda>a. (ra_finding a, ra_tenant a)) ` set (actions s) \<union>
          (\<lambda>a. (ma_finding a, ma_tenant a)) ` set (assessments s) \<union> (\<lambda>v. (qv_finding v, qv_tenant v)) ` set (reviews s) \<union>
          (\<lambda>d. (ds_finding d, ds_tenant d)) ` set (disputes s). \<exists>f \<in> set (findings s). finding_id f = fid \<and> fn_tenant f = tenant"
    using parts(2,7) by (auto simp: keys_ok_def row_refs_ok_def of_finding_def)
  show "\<forall>d \<in> set (decisions s). \<exists>f \<in> set (findings s).
        ad_finding d = Some (finding_id f) \<and> ad_tenant d = fn_tenant f \<and> ad_engagement d = Some (fn_engagement f)"
    using parts(7) by (simp add: row_refs_ok_def decides_on_def)
  show "\<forall>t \<in> set (retests s). \<exists>a \<in> set (actions s). action_id a = rt_action t \<and> ra_tenant a = rt_tenant t"
    using parts(7) by (simp add: row_refs_ok_def of_action_def)
qed (use adj_reach_parts(2,6)[OF assms] in \<open>simp_all add: keys_ok_def row_keys_ok_def\<close>)

theorem findings_well_formed_witness:
  "\<exists>f. findings (adj_demo demo_closure) = [f] \<and> fn_authored_by f \<noteq> None \<and> fn_evidence_ids f \<noteq> []"
proof -
  obtain f where f: "findings (adj_demo demo_closure) = [f]" "finding_id f = ''fnd_0''" using demo_closure_state by (rule finding_isD)
  with findings_well_formed[OF adj_demo_reach, of demo_closure] show ?thesis by simp
qed

end
