(* ===== verification/Risk_Scoring.thy ===== *)
theory Risk_Scoring
  imports Finding_Types
begin

text \<open>
  Risk ratings (\<open>portfolio/scoring.py\<close>): declared inputs and policies with the bounds their models
  enforce, the reduction that tested controls earn, the reliance on other assurance, the confidence
  the record supports, and the score the planner ranks on.
\<close>

section \<open>Inputs and policy\<close>

definition DEFAULT_RATING_BANDS :: "(rat \<times> string) list" where
  "DEFAULT_RATING_BANDS = [(3 / 4, ''critical''), (1 / 2, ''high''), (1 / 4, ''medium'')]"

datatype assurance_source =
  INTERNAL_AUDIT | EXTERNAL_AUDIT | CONTINUOUS_MONITOR | MANAGEMENT_TESTING | REGULATORY_EXAMINATION | NO_ASSURANCE

primrec assurance_source_value :: "assurance_source \<Rightarrow> string" where
  "assurance_source_value INTERNAL_AUDIT = ''internal_audit''"
| "assurance_source_value EXTERNAL_AUDIT = ''external_audit''"
| "assurance_source_value CONTINUOUS_MONITOR = ''continuous_monitor''"
| "assurance_source_value MANAGEMENT_TESTING = ''management_testing''"
| "assurance_source_value REGULATORY_EXAMINATION = ''regulatory_examination''"
| "assurance_source_value NO_ASSURANCE = ''none''"

definition DEFAULT_RELIANCE :: "(assurance_source \<times> rat) list" where
  "DEFAULT_RELIANCE = [(INTERNAL_AUDIT, 4 / 5), (EXTERNAL_AUDIT, 7 / 10), (REGULATORY_EXAMINATION, 3 / 5),
     (CONTINUOUS_MONITOR, 1 / 2), (MANAGEMENT_TESTING, 1 / 4), (NO_ASSURANCE, 0)]"

record control_evidence =
  ce_control_ref :: string
  ce_maturity :: rat
  ce_coverage :: rat
  ce_tested_effective :: bool
  ce_last_tested_on :: "date option"
  ce_evidence_ids :: "string list"

definition unit_range :: "rat \<Rightarrow> bool" where
  "unit_range x \<longleftrightarrow> 0 \<le> x \<and> x \<le> 1"

text \<open>Field bounds and \<open>a_tested_control_must_say_when\<close>.\<close>

definition control_evidence_ok :: "control_evidence \<Rightarrow> bool" where
  "control_evidence_ok c \<longleftrightarrow>
     len_within 1 64 (ce_control_ref c) \<and> unit_range (ce_maturity c) \<and> unit_range (ce_coverage c) \<and>
     (ce_tested_effective c \<longrightarrow> ce_last_tested_on c \<noteq> None \<and> ce_evidence_ids c \<noteq> [])"

record coverage_record =
  cv_source :: assurance_source
  cv_obtained_on :: date
  cv_scope_note :: string
  cv_reference :: "string option"

definition coverage_record_ok :: "coverage_record \<Rightarrow> bool" where
  "coverage_record_ok r \<longleftrightarrow>
     length (cv_scope_note r) \<le> 2000 \<and> (case cv_reference r of None \<Rightarrow> True | Some x \<Rightarrow> length x \<le> 255)"

record risk_factors =
  rf_impact :: rat
  rf_likelihood :: rat
  rf_velocity :: rat
  rf_change_intensity :: rat
  rf_detectability :: rat
  rf_external_exposure :: rat
  rf_controls :: "control_evidence list"
  rf_coverage :: "coverage_record list"
  rf_evidence_ids :: "string list"

definition risk_factors_ok :: "risk_factors \<Rightarrow> bool" where
  "risk_factors_ok f \<longleftrightarrow>
     unit_range (rf_impact f) \<and> unit_range (rf_likelihood f) \<and> unit_range (rf_velocity f) \<and>
     unit_range (rf_change_intensity f) \<and> unit_range (rf_detectability f) \<and> unit_range (rf_external_exposure f) \<and>
     list_all control_evidence_ok (rf_controls f) \<and> list_all coverage_record_ok (rf_coverage f)"

record scoring_policy =
  sp_policy_id :: string
  max_control_reduction :: rat
  test_staleness_days :: int
  velocity_weight :: rat
  change_weight :: rat
  exposure_weight :: rat
  reliance :: "(assurance_source \<times> rat) list"
  coverage_staleness_days :: int
  rating_bands :: "(rat \<times> string) list"
  confidence_floor :: rat
  uncertainty_premium :: rat

definition default_scoring_policy :: scoring_policy where
  "default_scoring_policy = \<lparr>sp_policy_id = ''default-v1'', max_control_reduction = 3 / 4, test_staleness_days = 365,
     velocity_weight = 3 / 20, change_weight = 1 / 5, exposure_weight = 3 / 20, reliance = DEFAULT_RELIANCE,
     coverage_staleness_days = 548, rating_bands = DEFAULT_RATING_BANDS, confidence_floor = 1 / 2, uncertainty_premium = 1 / 2\<rparr>"

text \<open>Field bounds and \<open>bands_must_descend\<close>.\<close>

definition scoring_policy_ok :: "scoring_policy \<Rightarrow> bool" where
  "scoring_policy_ok p \<longleftrightarrow>
     len_within 1 64 (sp_policy_id p) \<and> 0 < max_control_reduction p \<and> max_control_reduction p < 1 \<and> 1 \<le> test_staleness_days p \<and>
     unit_range (velocity_weight p) \<and> unit_range (change_weight p) \<and> unit_range (exposure_weight p) \<and>
     1 \<le> coverage_staleness_days p \<and> map fst (rating_bands p) = rev (sort (map fst (rating_bands p))) \<and>
     unit_range (confidence_floor p) \<and> 0 \<le> uncertainty_premium p \<and> uncertainty_premium p \<le> 2"

record risk_score =
  rs_policy_id :: string
  rs_inherent :: rat
  rs_residual :: rat
  rs_rating :: string
  rs_confidence :: rat
  rs_audit_priority :: rat
  rs_uncovered :: bool
  rs_components :: pydict
  rs_rationale :: string

section \<open>Terms\<close>

definition rating_for :: "rat \<Rightarrow> scoring_policy \<Rightarrow> string" where
  "rating_for x p = (case find (\<lambda>(t, _). t \<le> x) (rating_bands p) of None \<Rightarrow> ''low'' | Some (_, n) \<Rightarrow> n)"

definition days_between :: "date \<Rightarrow> date \<Rightarrow> int" where
  "days_between later earlier = later - earlier"

definition control_step :: "scoring_policy \<Rightarrow> date \<Rightarrow> control_evidence \<Rightarrow> rat \<times> string list \<Rightarrow> (rat \<times> string list) res" where
  "control_step p as_at c acc =
     (let (remaining, notes) = acc in
      if \<not> ce_tested_effective c
      then Inr (remaining, notes @ [ce_control_ref c @ '': not tested effective, contributes no reduction''])
      else case ce_last_tested_on c of
        None \<Rightarrow> Inl AssertionError
      | Some tested \<Rightarrow>
          let age = days_between as_at tested in
          if test_staleness_days p < age
          then Inr (remaining, notes @ [ce_control_ref c @ '': last tested '' @ int_str age @ '' days ago, beyond the '' @
                      int_str (test_staleness_days p) @ ''-day currency window''])
          else Inr (remaining * (1 - ce_maturity c * ce_coverage c),
                 notes @ [ce_control_ref c @ '': tested effective '' @ int_str age @ '' days ago, maturity '' @
                   format_fixed 2 (ce_maturity c) @ '' x coverage '' @ format_fixed 2 (ce_coverage c)]))"

definition control_reduction :: "risk_factors \<Rightarrow> scoring_policy \<Rightarrow> date \<Rightarrow> (rat \<times> string list) res" where
  "control_reduction f p as_at =
     bind_res (fold_res (control_step p as_at) (rf_controls f) (1, [])) (\<lambda>(remaining, notes).
       Inr ((1 - remaining) * max_control_reduction p, notes))"

definition reliance_step :: "scoring_policy \<Rightarrow> date \<Rightarrow> coverage_record \<Rightarrow> rat \<times> string option \<Rightarrow> rat \<times> string option" where
  "reliance_step p as_at r acc =
     (let (best, best_source) = acc;
          v = (case map_of (reliance p) (cv_source r) of None \<Rightarrow> 0 | Some x \<Rightarrow> x) in
      if coverage_staleness_days p < days_between as_at (cv_obtained_on r) then acc
      else if best < v then (v, Some (assurance_source_value (cv_source r))) else acc)"

definition assurance_reliance :: "risk_factors \<Rightarrow> scoring_policy \<Rightarrow> date \<Rightarrow> rat \<times> string option" where
  "assurance_reliance f p as_at = fold (reliance_step p as_at) (rf_coverage f) (0, None)"

definition confidence_signals :: "risk_factors \<Rightarrow> date \<Rightarrow> rat" where
  "confidence_signals f as_at =
     (if filter ce_tested_effective (rf_controls f) \<noteq> [] then 2 / 5 else 0)
     + (if rf_evidence_ids f \<noteq> [] then 1 / 5 else 0)
     + (if \<exists>c \<in> set (rf_controls f). ce_evidence_ids c \<noteq> [] then 1 / 5 else 0)
     + (if \<exists>r \<in> set (rf_coverage f). days_between as_at (cv_obtained_on r) \<le> 365 then 1 / 5 else 0)"

definition confidence_in :: "risk_factors \<Rightarrow> date \<Rightarrow> rat" where
  "confidence_in f as_at = py_round (min (confidence_signals f as_at) 1) 4"

definition aggravation_of :: "risk_factors \<Rightarrow> scoring_policy \<Rightarrow> rat" where
  "aggravation_of f p = velocity_weight p * rf_velocity f + change_weight p * rf_change_intensity f
     + exposure_weight p * rf_external_exposure f + velocity_weight p * (1 - rf_detectability f)"

definition inherent_of :: "risk_factors \<Rightarrow> scoring_policy \<Rightarrow> rat" where
  "inherent_of f p = (let base = rf_impact f * rf_likelihood f in min 1 (base + (1 - base) * min (aggravation_of f p) 1))"

section \<open>The score\<close>

definition untested_controls :: "risk_factors \<Rightarrow> string list" where
  "untested_controls f = map ce_control_ref (filter (\<lambda>c. \<not> ce_tested_effective c) (rf_controls f))"

definition score_components :: "risk_factors \<Rightarrow> scoring_policy \<Rightarrow> rat \<Rightarrow> rat \<Rightarrow> string option \<Rightarrow> rat \<Rightarrow> string list \<Rightarrow> pydict" where
  "score_components f p reduction rel source uncertainty notes =
     [(''impact'', PFloat (rf_impact f)), (''likelihood'', PFloat (rf_likelihood f)),
      (''aggravation'', PFloat (py_round (min (aggravation_of f p) 1) 6)), (''control_reduction'', PFloat (py_round reduction 6)),
      (''assurance_reliance'', PFloat (py_round rel 6)),
      (''assurance_source'', case source of None \<Rightarrow> PNone | Some x \<Rightarrow> PStr x),
      (''uncertainty_premium'', PFloat (py_round uncertainty 6)),
      (''tested_controls'', PList (map (\<lambda>c. PStr (ce_control_ref c)) (filter ce_tested_effective (rf_controls f)))),
      (''untested_controls'', PList (map PStr (untested_controls f))), (''control_notes'', PList (map PStr notes))]"

definition score_rationale ::
  "risk_factors \<Rightarrow> scoring_policy \<Rightarrow> rat \<Rightarrow> rat \<Rightarrow> string option \<Rightarrow> rat \<Rightarrow> rat \<Rightarrow> string"
where
  "score_rationale f p reduction rel source confidence uncertainty =
     join ''; ''
       ([''inherent '' @ format_fixed 2 (inherent_of f p) @ '' from impact '' @ format_fixed 2 (rf_impact f) @ '' x likelihood '' @
           format_fixed 2 (rf_likelihood f) @ '' aggravated by '' @ format_fixed 2 (min (aggravation_of f p) 1),
         if reduction \<noteq> 0 then ''controls reduce it by '' @ format_fixed 2 reduction else ''no tested control reduces it''] @
        (if untested_controls f \<noteq> []
         then [counted (length (untested_controls f)) ''control'' None @ '' are asserted but untested and contribute nothing: '' @
               join '', '' (sort (untested_controls f))] else []) @
        [case source of
           Some x \<Rightarrow> ''current '' @ x @ '' assurance lowers the need for fresh work by '' @ format_percent 0 rel
         | None \<Rightarrow> ''no current assurance from any source''] @
        (if confidence < confidence_floor p
         then [''confidence '' @ format_fixed 2 confidence @ '' is below the '' @ format_fixed 2 (confidence_floor p) @
               '' floor, raising audit priority by '' @ format_percent 0 uncertainty] else []))"

text \<open>The result model accepts only the four ratings.\<close>

definition score :: "risk_factors \<Rightarrow> scoring_policy option \<Rightarrow> date \<Rightarrow> risk_score res" where
  "score f policy as_at =
     (let p = (case policy of None \<Rightarrow> default_scoring_policy | Some p \<Rightarrow> p) in
      bind_res (control_reduction f p as_at) (\<lambda>(reduction, notes).
        let residual = inherent_of f p * (1 - reduction); (rel, source) = assurance_reliance f p as_at;
            confidence = confidence_in f as_at; uncertainty = uncertainty_premium p * (1 - confidence);
            priority = residual * (1 - rel) * (1 + uncertainty) in
        if rating_for residual p \<notin> set SEVERITY_ORDER then Inl ValidationError
        else Inr \<lparr>rs_policy_id = sp_policy_id p, rs_inherent = py_round (inherent_of f p) 6, rs_residual = py_round residual 6,
             rs_rating = rating_for residual p, rs_confidence = confidence, rs_audit_priority = py_round priority 6,
             rs_uncovered = (source = None), rs_components = score_components f p reduction rel source uncertainty notes,
             rs_rationale = score_rationale f p reduction rel source confidence uncertainty\<rparr>))"

section \<open>What the score rests on\<close>

definition current_control :: "scoring_policy \<Rightarrow> date \<Rightarrow> control_evidence \<Rightarrow> bool" where
  "current_control p as_at c \<longleftrightarrow>
     ce_tested_effective c \<and> (case ce_last_tested_on c of None \<Rightarrow> False | Some d \<Rightarrow> as_at - d \<le> test_staleness_days p)"

definition uncontrolled :: "scoring_policy \<Rightarrow> date \<Rightarrow> control_evidence list \<Rightarrow> rat" where
  "uncontrolled p as_at cs = prod_list (map (\<lambda>c. 1 - ce_maturity c * ce_coverage c) (filter (current_control p as_at) cs))"

lemma unit_range_mult: "unit_range x \<Longrightarrow> unit_range y \<Longrightarrow> unit_range (x * y)"
  by (auto simp: unit_range_def mult_le_one)

lemma unit_range_diff: "unit_range x \<Longrightarrow> unit_range (1 - x)"
  by (simp add: unit_range_def)

lemma control_step_ok:
  assumes "control_evidence_ok c"
  shows "\<exists>ns'. control_step p as_at c (r, ns) = Inr (r * uncontrolled p as_at [c], ns')"
  using assms
  by (cases "ce_last_tested_on c")
    (auto simp: control_step_def uncontrolled_def current_control_def control_evidence_ok_def days_between_def Let_def)

lemma control_fold:
  assumes "list_all control_evidence_ok cs"
  shows "\<exists>ns'. fold_res (control_step p as_at) cs (r, ns) = Inr (r * uncontrolled p as_at cs, ns')"
  using assms
proof (induction cs arbitrary: r ns)
  case (Cons c cs)
  then obtain n1 where n1: "control_step p as_at c (r, ns) = Inr (r * uncontrolled p as_at [c], n1)"
    using control_step_ok by fastforce
  obtain n2 where "fold_res (control_step p as_at) cs (r * uncontrolled p as_at [c], n1)
      = Inr (r * uncontrolled p as_at [c] * uncontrolled p as_at cs, n2)"
    using Cons.IH Cons.prems by fastforce
  moreover have "uncontrolled p as_at (c # cs) = uncontrolled p as_at [c] * uncontrolled p as_at cs"
    by (simp add: uncontrolled_def)
  ultimately show ?case by (simp add: n1 mult.assoc)
qed (simp add: uncontrolled_def)

lemma uncontrolled_unit:
  assumes "list_all control_evidence_ok cs"
  shows "unit_range (uncontrolled p as_at cs)"
  using assms
proof (induction cs)
  case (Cons c cs)
  then have "unit_range (1 - ce_maturity c * ce_coverage c)" "unit_range (uncontrolled p as_at cs)"
    by (auto simp: control_evidence_ok_def intro: unit_range_diff unit_range_mult)
  then show ?case using unit_range_mult by (auto simp: uncontrolled_def)
qed (simp add: uncontrolled_def unit_range_def)

lemma aggravation_nonneg:
  assumes "risk_factors_ok f" "scoring_policy_ok p"
  shows "0 \<le> aggravation_of f p"
proof -
  have "0 \<le> velocity_weight p * rf_velocity f" "0 \<le> change_weight p * rf_change_intensity f"
    "0 \<le> exposure_weight p * rf_external_exposure f" "0 \<le> velocity_weight p * (1 - rf_detectability f)"
    using assms by (simp_all add: risk_factors_ok_def scoring_policy_ok_def unit_range_def)
  then show ?thesis by (simp add: aggravation_of_def)
qed

lemma inherent_bounds:
  assumes "risk_factors_ok f" "scoring_policy_ok p"
  shows "0 \<le> rf_impact f * rf_likelihood f" "rf_impact f * rf_likelihood f \<le> inherent_of f p" "inherent_of f p \<le> 1"
proof -
  let ?b = "rf_impact f * rf_likelihood f"
  have b: "unit_range ?b" using assms(1) by (intro unit_range_mult) (simp_all add: risk_factors_ok_def)
  then show "0 \<le> ?b" by (simp add: unit_range_def)
  have "0 \<le> (1 - ?b) * min (aggravation_of f p) 1" using b aggravation_nonneg[OF assms] by (simp add: unit_range_def)
  then show "?b \<le> inherent_of f p" using b by (simp add: inherent_of_def Let_def unit_range_def)
  show "inherent_of f p \<le> 1" by (simp add: inherent_of_def Let_def)
qed

lemma reliance_fold:
  assumes "\<And>s v. (s, v) \<in> set (reliance p) \<Longrightarrow> v \<le> 1" "0 \<le> b" "b \<le> 1"
  shows "0 \<le> fst (fold (reliance_step p as_at) rs (b, src)) \<and> fst (fold (reliance_step p as_at) rs (b, src)) \<le> 1"
  using assms(2,3)
proof (induction rs arbitrary: b src)
  case (Cons r rs)
  obtain b' src' where step: "reliance_step p as_at r (b, src) = (b', src')" by (cases "reliance_step p as_at r (b, src)")
  then have "0 \<le> b' \<and> b' \<le> 1"
    using Cons.prems assms(1) by (auto simp: reliance_step_def Let_def split: if_splits option.splits dest: map_of_SomeD)
  with Cons.IH[of b' src'] show ?case by (simp add: step)
qed simp

lemma confidence_le_1: "confidence_in f as_at \<le> 1"
proof -
  have "confidence_in f as_at \<le> py_round 1 4" unfolding confidence_in_def by (rule py_round_mono) simp
  also have "py_round 1 4 = (1 :: rat)" by (simp add: py_round_def round_half_even_def)
  finally show ?thesis .
qed

lemma score_Inr:
  assumes "risk_factors_ok f" "score f (Some p) as_at = Inr r"
  defines "raw \<equiv> inherent_of f p * (1 - (1 - uncontrolled p as_at (rf_controls f)) * max_control_reduction p)"
  shows "rs_residual r = py_round raw 6" "rs_inherent r = py_round (inherent_of f p) 6" "rs_rating r = rating_for raw p"
    "rs_rating r \<in> set SEVERITY_ORDER"
    "rs_audit_priority r = py_round (raw * (1 - fst (assurance_reliance f p as_at)) * (1 + uncertainty_premium p * (1 - confidence_in f as_at))) 6"
proof -
  have "list_all control_evidence_ok (rf_controls f)" using assms(1) by (simp add: risk_factors_ok_def)
  from control_fold[OF this, of p as_at 1 "[]"] obtain ns where
    "control_reduction f p as_at = Inr ((1 - uncontrolled p as_at (rf_controls f)) * max_control_reduction p, ns)"
    by (auto simp: control_reduction_def)
  then have "rs_residual r = py_round raw 6 \<and> rs_inherent r = py_round (inherent_of f p) 6 \<and> rs_rating r = rating_for raw p \<and>
    rs_rating r \<in> set SEVERITY_ORDER \<and>
    rs_audit_priority r = py_round (raw * (1 - fst (assurance_reliance f p as_at)) * (1 + uncertainty_premium p * (1 - confidence_in f as_at))) 6"
    using assms(2) by (auto simp: score_def Let_def split_beta raw_def split: if_splits)
  then show "rs_residual r = py_round raw 6" "rs_inherent r = py_round (inherent_of f p) 6" "rs_rating r = rating_for raw p"
    "rs_rating r \<in> set SEVERITY_ORDER"
    "rs_audit_priority r = py_round (raw * (1 - fst (assurance_reliance f p as_at)) * (1 + uncertainty_premium p * (1 - confidence_in f as_at))) 6"
    by blast+
qed

text \<open>
  C18. A risk is only talked down by tests: the residual score and the rating depend on the controls
  through those alone that were tested effective within the currency window, each by its maturity
  times its coverage, and together they take off no more than the policy's share of the inherent
  risk. The inherent score lies between impact times likelihood and one, and what is not known never
  lowers the audit priority: it is at least the residual after reliance, under a policy whose
  reliances are at most one.\<close>

theorem score_needs_tests:
  assumes "risk_factors_ok f" "scoring_policy_ok p" "score f (Some p) as_at = Inr r" "\<forall>(s, v) \<in> set (reliance p). v \<le> 1"
  defines "raw \<equiv> inherent_of f p * (1 - (1 - uncontrolled p as_at (rf_controls f)) * max_control_reduction p)"
  shows "rs_residual r = py_round raw 6 \<and> rs_rating r = rating_for raw p \<and>
     inherent_of f p * (1 - max_control_reduction p) \<le> raw \<and> raw \<le> inherent_of f p \<and>
     0 \<le> rs_residual r \<and> rs_residual r \<le> rs_inherent r \<and> rs_inherent r \<le> 1 \<and> py_round (rf_impact f * rf_likelihood f) 6 \<le> rs_inherent r \<and>
     py_round (raw * (1 - fst (assurance_reliance f p as_at))) 6 \<le> rs_audit_priority r"
proof -
  note r = score_Inr[OF assms(1,3), folded raw_def]
  note inh = inherent_bounds[OF assms(1,2)]
  have i0: "0 \<le> inherent_of f p" using inh(1,2) by linarith
  have p: "0 < max_control_reduction p" "max_control_reduction p < 1" "0 \<le> uncertainty_premium p"
    using assms(2) by (simp_all add: scoring_policy_ok_def)
  have u: "unit_range (uncontrolled p as_at (rf_controls f))"
    using assms(1) by (intro uncontrolled_unit) (simp add: risk_factors_ok_def)
  define m where "m = (1 - uncontrolled p as_at (rf_controls f)) * max_control_reduction p"
  have m: "0 \<le> m" "m \<le> max_control_reduction p"
    using u p by (simp_all add: m_def unit_range_def mult_left_le_one_le)
  have raw: "raw = inherent_of f p * (1 - m)" by (simp add: raw_def m_def)
  have lo: "inherent_of f p * (1 - max_control_reduction p) \<le> raw" unfolding raw using m i0 by (intro mult_left_mono) simp_all
  have hi: "raw \<le> inherent_of f p" unfolding raw using m p i0 by (intro mult_left_le) simp_all
  have r0: "0 \<le> raw" unfolding raw using m p i0 by simp
  have "\<And>s v. (s, v) \<in> set (reliance p) \<Longrightarrow> v \<le> 1" using assms(4) by blast
  then have "0 \<le> fst (assurance_reliance f p as_at) \<and> fst (assurance_reliance f p as_at) \<le> 1"
    unfolding assurance_reliance_def by (rule reliance_fold) simp_all
  then have base: "0 \<le> raw * (1 - fst (assurance_reliance f p as_at))" using r0 by simp
  have "1 \<le> 1 + uncertainty_premium p * (1 - confidence_in f as_at)" using p(3) confidence_le_1[of f as_at] by simp
  then have prio: "raw * (1 - fst (assurance_reliance f p as_at)) \<le>
      raw * (1 - fst (assurance_reliance f p as_at)) * (1 + uncertainty_premium p * (1 - confidence_in f as_at))"
    using base by (metis mult_left_mono mult.right_neutral)
  have one: "py_round 1 6 = (1 :: rat)" by (simp add: py_round_def round_half_even_def)
  show ?thesis
    using r lo hi py_round_nonneg[OF r0, of 6] py_round_mono[OF hi, of 6] py_round_mono[OF inh(3), of 6] py_round_mono[OF inh(2), of 6]
      py_round_mono[OF prio, of 6] one by simp
qed

definition demo_control :: "bool \<Rightarrow> control_evidence" where
  "demo_control tested = \<lparr>ce_control_ref = ''C-1'', ce_maturity = 4 / 5, ce_coverage = 1, ce_tested_effective = tested,
     ce_last_tested_on = Some 100, ce_evidence_ids = [''ev-1'']\<rparr>"

definition demo_factors :: "bool \<Rightarrow> risk_factors" where
  "demo_factors tested = \<lparr>rf_impact = 4 / 5, rf_likelihood = 3 / 4, rf_velocity = 1 / 2, rf_change_intensity = 0, rf_detectability = 1 / 2,
     rf_external_exposure = 0, rf_controls = [demo_control tested], rf_coverage = [], rf_evidence_ids = []\<rparr>"

lemma demo_factors_ok: "risk_factors_ok (demo_factors tested)" "scoring_policy_ok default_scoring_policy"
  "\<forall>(s, v) \<in> set (reliance default_scoring_policy). v \<le> 1"
  by (simp_all add: demo_factors_def demo_control_def risk_factors_ok_def control_evidence_ok_def unit_range_def len_within_def
      scoring_policy_ok_def default_scoring_policy_def DEFAULT_RATING_BANDS_def DEFAULT_RELIANCE_def)

lemma demo_scores:
  "case score (demo_factors False) (Some default_scoring_policy) 200 of Inr r \<Rightarrow> rs_rating r = ''high'' | Inl _ \<Rightarrow> False"
  by code_simp

theorem score_needs_tests_witness:
  "\<exists>r. score (demo_factors False) (Some default_scoring_policy) 200 = Inr r \<and>
     rs_residual r = py_round (inherent_of (demo_factors False) default_scoring_policy) 6 \<and> rs_rating r = ''high''"
proof -
  obtain r where r: "score (demo_factors False) (Some default_scoring_policy) 200 = Inr r" "rs_rating r = ''high''"
    using demo_scores by (auto split: sum.splits)
  have "uncontrolled default_scoring_policy 200 (rf_controls (demo_factors False)) = 1"
    by (simp add: uncontrolled_def demo_factors_def demo_control_def current_control_def)
  with score_needs_tests[OF demo_factors_ok(1,2) r(1) demo_factors_ok(3)] r show ?thesis by simp
qed

end
