(* ===== verification/Planning.thy ===== *)
theory Planning
  imports Risk_Scoring
begin

text \<open>
  The audit plan (\<open>portfolio/planning.py\<close>): candidates and capacity with the bounds their models
  enforce, minimum coverage, and the selection by value density under capacity, with everything
  that is left out and the blind spots that remain. Dates are printed by an argument.
\<close>

section \<open>Candidates and capacity\<close>

record candidate =
  cd_candidate_key :: string
  cd_entity_ref :: string
  cd_risk_ref :: string
  cd_title :: string
  cd_objective :: string
  cd_score :: risk_score
  cd_effort_days :: rat
  cd_criticality :: rat
  cd_disruption :: string
  cd_expertise_required :: "string list"
  cd_expertise_available :: bool
  cd_last_audited_on :: "date option"
  cd_data_dependencies :: "string list"
  cd_suggested_cadence_months :: nat
  cd_audit_pack_ref :: "string option"

definition candidate_ok :: "candidate \<Rightarrow> bool" where
  "candidate_ok c \<longleftrightarrow>
     len_within 1 128 (cd_candidate_key c) \<and> len_within 1 128 (cd_entity_ref c) \<and> len_within 1 64 (cd_risk_ref c) \<and>
     len_within 3 255 (cd_title c) \<and> 10 \<le> length (cd_objective c) \<and> 0 < cd_effort_days c \<and>
     0 \<le> cd_criticality c \<and> cd_criticality c \<le> 5 \<and> cd_disruption c \<in> {''low'', ''medium'', ''high''} \<and>
     1 \<le> cd_suggested_cadence_months c \<and> cd_suggested_cadence_months c \<le> 60"

text \<open>The effort is positive, so the division is one.\<close>

definition value_density :: "candidate \<Rightarrow> rat" where
  "value_density c = rs_audit_priority (cd_score c) / cd_effort_days c"

record capacity_policy =
  cp_horizon_start :: date
  cp_horizon_end :: date
  cp_available_days :: rat
  minimum_coverage_criticality :: rat
  coverage_interval_months :: nat
  contingency_fraction :: rat
  max_high_disruption :: nat

definition capacity_policy_ok :: "capacity_policy \<Rightarrow> bool" where
  "capacity_policy_ok p \<longleftrightarrow>
     cp_horizon_start p < cp_horizon_end p \<and> 0 < cp_available_days p \<and>
     0 \<le> minimum_coverage_criticality p \<and> minimum_coverage_criticality p \<le> 5 \<and>
     1 \<le> coverage_interval_months p \<and> coverage_interval_months p \<le> 120 \<and>
     0 \<le> contingency_fraction p \<and> contingency_fraction p \<le> 1 / 2"

definition plannable_days :: "capacity_policy \<Rightarrow> rat" where
  "plannable_days p = cp_available_days p * (1 - contingency_fraction p)"

record planned_item =
  pl_candidate_key :: string
  pl_entity_ref :: string
  pl_risk_ref :: string
  pl_title :: string
  pl_objective :: string
  pl_effort_days :: rat
  pl_audit_priority :: rat
  pl_value_density :: rat
  pl_rating :: string
  pl_confidence :: rat
  pl_cadence_months :: nat
  pl_reason :: string
  forced_by_minimum_coverage :: bool
  pl_audit_pack_ref :: "string option"

record excluded_item =
  xl_candidate_key :: string
  xl_entity_ref :: string
  xl_risk_ref :: string
  xl_title :: string
  xl_effort_days :: rat
  xl_audit_priority :: rat
  xl_rating :: string
  xl_reason :: string
  xl_uncovered :: bool

record plan_recommendation =
  pr_horizon_start :: date
  pr_horizon_end :: date
  pr_planned :: "planned_item list"
  pr_excluded :: "excluded_item list"
  pr_blind_spots :: "pydict list"
  pr_planned_days :: rat
  pr_plannable_days :: rat
  pr_contingency_days :: rat
  pr_coverage_ratio :: rat
  pr_uncovered_priority :: rat
  pr_policy_notes :: "string list"

definition is_deliverable :: "plan_recommendation \<Rightarrow> bool" where
  "is_deliverable r \<longleftrightarrow> pr_planned_days r \<le> pr_plannable_days r"

section \<open>Selection\<close>

text \<open>The interval in days is truncated; a month counts 30.44 days.\<close>

definition needs_coverage :: "capacity_policy \<Rightarrow> candidate \<Rightarrow> bool" where
  "needs_coverage p c \<longleftrightarrow>
     minimum_coverage_criticality p \<le> cd_criticality c \<and>
     (case cd_last_audited_on c of
        None \<Rightarrow> True
      | Some d \<Rightarrow> d + \<lfloor>of_nat (coverage_interval_months p) * (3044 / 100 :: rat)\<rfloor> \<le> cp_horizon_end p)"

text \<open>The lists and the days the two loops build up.\<close>

record plan_state =
  ps_planned :: "planned_item list"
  ps_excluded :: "excluded_item list"
  ps_spent :: rat
  ps_high_disruption :: nat

definition admit :: "candidate \<Rightarrow> string \<Rightarrow> bool \<Rightarrow> plan_state \<Rightarrow> plan_state" where
  "admit c reason forced s = s\<lparr>ps_spent := ps_spent s + cd_effort_days c, ps_planned := ps_planned s @
     [\<lparr>pl_candidate_key = cd_candidate_key c, pl_entity_ref = cd_entity_ref c, pl_risk_ref = cd_risk_ref c, pl_title = cd_title c,
       pl_objective = cd_objective c, pl_effort_days = cd_effort_days c, pl_audit_priority = rs_audit_priority (cd_score c),
       pl_value_density = py_round (value_density c) 6, pl_rating = rs_rating (cd_score c), pl_confidence = rs_confidence (cd_score c),
       pl_cadence_months = cd_suggested_cadence_months c, pl_reason = reason, forced_by_minimum_coverage = forced,
       pl_audit_pack_ref = cd_audit_pack_ref c\<rparr>]\<rparr>"

definition refuse :: "candidate \<Rightarrow> string \<Rightarrow> plan_state \<Rightarrow> plan_state" where
  "refuse c reason s = s\<lparr>ps_excluded := ps_excluded s @
     [\<lparr>xl_candidate_key = cd_candidate_key c, xl_entity_ref = cd_entity_ref c, xl_risk_ref = cd_risk_ref c, xl_title = cd_title c,
       xl_effort_days = cd_effort_days c, xl_audit_priority = rs_audit_priority (cd_score c), xl_rating = rs_rating (cd_score c),
       xl_reason = reason, xl_uncovered = rs_uncovered (cd_score c)\<rparr>]\<rparr>"

definition forced_step :: "(date \<Rightarrow> string) \<Rightarrow> candidate \<Rightarrow> plan_state \<Rightarrow> plan_state" where
  "forced_step dtext c s =
     (if \<not> cd_expertise_available c
      then refuse c (''minimum coverage requires this audit, but the function does not hold the required expertise ('' @
             join '', '' (cd_expertise_required c) @ ''); it needs sourcing before it can be planned'') s
      else admit c (''minimum coverage: criticality '' @ format_fixed 1 (cd_criticality c) @ '' and '' @
             (case cd_last_audited_on c of None \<Rightarrow> ''never audited'' | Some d \<Rightarrow> ''last audited '' @ dtext d)) True s)"

definition optional_step :: "capacity_policy \<Rightarrow> candidate \<Rightarrow> plan_state \<Rightarrow> plan_state" where
  "optional_step p c s =
     (if \<not> cd_expertise_available c
      then refuse c (''the function does not hold the required expertise: '' @ join '', '' (cd_expertise_required c)) s
      else if cd_disruption c = ''high'' \<and> max_high_disruption p \<le> ps_high_disruption s
      then refuse c (''the plan already carries '' @ nat_str (ps_high_disruption s) @
             '' high-disruption engagement(s), the configured maximum'') s
      else if plannable_days p < ps_spent s + cd_effort_days c
      then refuse c (''does not fit remaining capacity ('' @ format_fixed 1 (plannable_days p - ps_spent s) @ '' of '' @
             format_fixed 1 (plannable_days p) @ '' days left)'') s
      else admit c (''value density '' @ format_fixed 4 (value_density c) @ '' (priority '' @
             format_fixed 3 (rs_audit_priority (cd_score c)) @ '' over '' @ format_fixed 0 (cd_effort_days c) @ '' days)'') False
             (if cd_disruption c = ''high'' then s\<lparr>ps_high_disruption := ps_high_disruption s + 1\<rparr> else s))"

definition plan_forced :: "(date \<Rightarrow> string) \<Rightarrow> candidate list \<Rightarrow> capacity_policy \<Rightarrow> plan_state" where
  "plan_forced dtext cs p =
     fold (forced_step dtext) (sort_key (\<lambda>c. (- cd_criticality c, cd_candidate_key c)) (filter (needs_coverage p) cs))
       \<lparr>ps_planned = [], ps_excluded = [], ps_spent = 0, ps_high_disruption = 0\<rparr>"

text \<open>Every planned item is looked up among all candidates by its key.\<close>

definition high_disruption_of :: "candidate list \<Rightarrow> planned_item list \<Rightarrow> nat" where
  "high_disruption_of cs planned =
     sum_list (map (\<lambda>i. length (filter (\<lambda>c. cd_candidate_key c = pl_candidate_key i \<and> cd_disruption c = ''high'') cs)) planned)"

definition plan_optional :: "(date \<Rightarrow> string) \<Rightarrow> candidate list \<Rightarrow> capacity_policy \<Rightarrow> plan_state" where
  "plan_optional dtext cs p =
     (let s = plan_forced dtext cs p; forced = filter (needs_coverage p) cs in
      fold (optional_step p) (sort_key (\<lambda>c. (- value_density c, cd_candidate_key c)) (filter (\<lambda>c. c \<notin> set forced) cs))
        (s\<lparr>ps_high_disruption := high_disruption_of cs (ps_planned s)\<rparr>))"

definition blind_spots_of :: "candidate list \<Rightarrow> planned_item list \<Rightarrow> candidate list" where
  "blind_spots_of cs planned =
     filter (\<lambda>c. rs_uncovered (cd_score c) \<and> cd_candidate_key c \<notin> set (map pl_candidate_key planned)) cs"

definition blind_spot_json :: "candidate \<Rightarrow> pydict" where
  "blind_spot_json c =
     [(''candidate_key'', PStr (cd_candidate_key c)), (''entity_ref'', PStr (cd_entity_ref c)), (''risk_ref'', PStr (cd_risk_ref c)),
      (''rating'', PStr (rs_rating (cd_score c))), (''audit_priority'', PFloat (rs_audit_priority (cd_score c))),
      (''confidence'', PFloat (rs_confidence (cd_score c))),
      (''why'', PStr ''no current assurance from any source and not covered by this plan'')]"

definition plan_notes :: "(date \<Rightarrow> string) \<Rightarrow> candidate list \<Rightarrow> capacity_policy \<Rightarrow> candidate list \<Rightarrow> string list" where
  "plan_notes dtext cs p blind =
     (let spent = ps_spent (plan_forced dtext cs p);
          found = (if plannable_days p < spent
            then [''minimum coverage alone requires '' @ format_fixed 1 spent @ '' days against '' @
                  format_fixed 1 (plannable_days p) @ '' plannable; capacity or scope needs a decision''] else []) @
           (if blind \<noteq> []
            then [counted (length blind) ''risk'' None @ '' have no assurance from any source and no place in this plan''] else [])
      in if found = [] then [''every constraint was satisfied within the plannable capacity''] else found)"

definition recommend :: "(date \<Rightarrow> string) \<Rightarrow> candidate list \<Rightarrow> capacity_policy \<Rightarrow> plan_recommendation" where
  "recommend dtext cs p =
     (let s = plan_optional dtext cs p; blind = blind_spots_of cs (ps_planned s);
          total = sum_list (map (\<lambda>c. rs_audit_priority (cd_score c)) cs);
          planned = sum_list (map pl_audit_priority (ps_planned s)) in
      \<lparr>pr_horizon_start = cp_horizon_start p, pr_horizon_end = cp_horizon_end p, pr_planned = ps_planned s, pr_excluded = ps_excluded s,
       pr_blind_spots = map blind_spot_json blind, pr_planned_days = py_round (ps_spent s) 4,
       pr_plannable_days = py_round (plannable_days p) 4,
       pr_contingency_days = py_round (cp_available_days p - plannable_days p) 4,
       pr_coverage_ratio = py_round (if total \<noteq> 0 then planned / total else 1) 6,
       pr_uncovered_priority = py_round (total - planned) 6, pr_policy_notes = plan_notes dtext cs p blind\<rparr>)"

section \<open>Accounting\<close>

definition plan_keys :: "plan_state \<Rightarrow> string multiset" where
  "plan_keys s = mset (map pl_candidate_key (ps_planned s)) + mset (map xl_candidate_key (ps_excluded s))"

lemma step_keys:
  "plan_keys (forced_step dtext c s) = plan_keys s + {#cd_candidate_key c#}"
  "plan_keys (optional_step p c s) = plan_keys s + {#cd_candidate_key c#}"
  by (simp_all add: forced_step_def optional_step_def plan_keys_def admit_def refuse_def)

lemma fold_keys:
  assumes "\<And>c s. plan_keys (step c s) = plan_keys s + {#cd_candidate_key c#}"
  shows "plan_keys (fold step cs s) = plan_keys s + mset (map cd_candidate_key cs)"
  by (induction cs arbitrary: s) (simp_all add: assms)

text \<open>Steps only add planned items, and the days spent are theirs.\<close>

definition spent_ok :: "plan_state \<Rightarrow> bool" where
  "spent_ok s \<longleftrightarrow> ps_spent s = sum_list (map pl_effort_days (ps_planned s))"

lemma step_spent:
  "spent_ok s \<Longrightarrow> spent_ok (forced_step dtext c s)" "spent_ok s \<Longrightarrow> spent_ok (optional_step p c s)"
  by (simp_all add: forced_step_def optional_step_def spent_ok_def admit_def refuse_def)

lemma step_planned:
  "set (ps_planned s) \<subseteq> set (ps_planned (forced_step dtext c s))" "set (ps_planned s) \<subseteq> set (ps_planned (optional_step p c s))"
  by (auto simp: forced_step_def optional_step_def admit_def refuse_def)

lemma fold_planned:
  assumes "\<And>c s. set (ps_planned s) \<subseteq> set (ps_planned (step c s))"
  shows "set (ps_planned s) \<subseteq> set (ps_planned (fold step cs s))"
  by (induction cs arbitrary: s) (auto dest: subsetD[OF assms])

lemma fold_spent:
  assumes "\<And>c s. spent_ok s \<Longrightarrow> spent_ok (step c s)"
  shows "spent_ok s \<Longrightarrow> spent_ok (fold step cs s)"
  by (induction cs arbitrary: s) (simp_all add: assms)

lemma forced_admitted:
  assumes "c \<in> set cs" "cd_expertise_available c"
  shows "\<exists>i \<in> set (ps_planned (fold (forced_step dtext) cs s)). pl_candidate_key i = cd_candidate_key c \<and> forced_by_minimum_coverage i"
  using assms(1)
proof (induction cs arbitrary: s)
  case (Cons x cs)
  show ?case
  proof (cases "c \<in> set cs")
    case True
    then show ?thesis using Cons.IH by simp
  next
    case False
    with Cons.prems have x: "x = c" by simp
    have "\<exists>i \<in> set (ps_planned (forced_step dtext c s)). pl_candidate_key i = cd_candidate_key c \<and> forced_by_minimum_coverage i"
      using assms(2) by (simp add: forced_step_def admit_def)
    then show ?thesis using fold_planned[of "forced_step dtext" "forced_step dtext c s" cs, OF step_planned(1)] by (auto simp: x)
  qed
qed simp

lemma forced_spent:
  "ps_spent (fold (forced_step dtext) cs s) = ps_spent s + sum_list (map cd_effort_days (filter cd_expertise_available cs))"
  by (induction cs arbitrary: s) (simp_all add: forced_step_def admit_def refuse_def)

lemma optional_spent:
  assumes "list_all (\<lambda>c. 0 < cd_effort_days c) cs"
  shows "ps_spent s \<le> ps_spent (fold (optional_step p) cs s)"
    "ps_spent (fold (optional_step p) cs s) \<le> max (ps_spent s) (plannable_days p)"
proof -
  have step: "ps_spent s \<le> ps_spent (optional_step p c s)" "ps_spent (optional_step p c s) \<le> max (ps_spent s) (plannable_days p)"
    if "0 < cd_effort_days c" for c s
    using that by (simp_all add: optional_step_def admit_def refuse_def)
  show "ps_spent s \<le> ps_spent (fold (optional_step p) cs s)"
    using assms by (induction cs arbitrary: s) (auto intro: order_trans step(1))
  show "ps_spent (fold (optional_step p) cs s) \<le> max (ps_spent s) (plannable_days p)"
    using assms
  proof (induction cs arbitrary: s)
    case (Cons c cs)
    have "ps_spent (fold (optional_step p) cs (optional_step p c s)) \<le> max (ps_spent (optional_step p c s)) (plannable_days p)"
      using Cons by simp
    also have "\<dots> \<le> max (ps_spent s) (plannable_days p)" using step(2)[of c s] Cons.prems by simp
    finally show ?case by simp
  qed simp
qed

lemma optional_tight:
  assumes "list_all (\<lambda>c. 0 < cd_effort_days c) cs" "c \<in> set cs" "cd_expertise_available c" "cd_disruption c \<noteq> ''high''"
  shows "(\<exists>i \<in> set (ps_planned (fold (optional_step p) cs s)). pl_candidate_key i = cd_candidate_key c) \<or>
     plannable_days p < ps_spent (fold (optional_step p) cs s) + cd_effort_days c"
  using assms(1,2)
proof (induction cs arbitrary: s)
  case (Cons x cs)
  show ?case
  proof (cases "c \<in> set cs")
    case True
    then show ?thesis using Cons by simp
  next
    case False
    with Cons.prems(2) have x: "x = c" by simp
    let ?s = "optional_step p c s"
    have "plannable_days p < ps_spent s + cd_effort_days c \<or> (\<exists>i \<in> set (ps_planned ?s). pl_candidate_key i = cd_candidate_key c)"
      using assms(3,4) by (simp add: optional_step_def admit_def)
    moreover have "ps_spent s \<le> ps_spent (fold (optional_step p) (c # cs) s)"
      using Cons.prems(1) x by (intro optional_spent(1)) simp
    moreover have "set (ps_planned ?s) \<subseteq> set (ps_planned (fold (optional_step p) cs ?s))" by (rule fold_planned[OF step_planned(2)])
    ultimately show ?thesis by (auto simp: x)
  qed
qed simp

lemma recommend_state:
  "pr_planned (recommend dtext cs p) = ps_planned (plan_optional dtext cs p)"
  "pr_excluded (recommend dtext cs p) = ps_excluded (plan_optional dtext cs p)"
  by (simp_all add: recommend_def Let_def)

lemma recommend_keys:
  "mset (map pl_candidate_key (pr_planned (recommend dtext cs p))) + mset (map xl_candidate_key (pr_excluded (recommend dtext cs p)))
     = mset (map cd_candidate_key cs)"
proof -
  let ?forced = "filter (needs_coverage p) cs" and ?rest = "filter (\<lambda>c. c \<notin> set (filter (needs_coverage p) cs)) cs"
  let ?keys = "\<lambda>xs. mset (map cd_candidate_key xs)"
  have rest: "?rest = filter (\<lambda>c. \<not> needs_coverage p c) cs" by (rule filter_cong) auto
  have "plan_keys (plan_forced dtext cs p) = ?keys ?forced"
    unfolding plan_forced_def fold_keys[of "forced_step dtext", OF step_keys(1)] by (simp add: plan_keys_def)
  moreover have "plan_keys (plan_optional dtext cs p) = plan_keys (plan_forced dtext cs p) + ?keys ?rest"
    unfolding plan_optional_def Let_def fold_keys[of "optional_step p", OF step_keys(2)] by (simp add: plan_keys_def)
  moreover have "?keys ?forced + ?keys (filter (\<lambda>c. \<not> needs_coverage p c) cs) = ?keys cs"
    by (simp add: mset_filter image_mset_union[symmetric] del: image_mset_union)
  ultimately show ?thesis
    unfolding rest by (simp add: recommend_state plan_keys_def)
qed

text \<open>
  C19. A plan accounts for every candidate: each is planned or excluded, exactly as often as it was
  proposed; a candidate that minimum coverage requires and the function has the expertise for is
  planned and marked so, whatever its priority; and the blind spots are the candidates without
  assurance from anywhere that the plan does not take up, in the order given.\<close>

theorem recommend_accounts:
  "mset (map pl_candidate_key (pr_planned (recommend dtext cs p))) + mset (map xl_candidate_key (pr_excluded (recommend dtext cs p)))
     = mset (map cd_candidate_key cs) \<and>
   (\<forall>c \<in> set cs. needs_coverage p c \<longrightarrow> cd_expertise_available c \<longrightarrow>
      (\<exists>i \<in> set (pr_planned (recommend dtext cs p)). pl_candidate_key i = cd_candidate_key c \<and> forced_by_minimum_coverage i)) \<and>
   pr_blind_spots (recommend dtext cs p) = map blind_spot_json (filter (\<lambda>c. rs_uncovered (cd_score c) \<and>
      (\<forall>i \<in> set (pr_planned (recommend dtext cs p)). pl_candidate_key i \<noteq> cd_candidate_key c)) cs)"
proof (intro conjI ballI impI)
  show "mset (map pl_candidate_key (pr_planned (recommend dtext cs p))) +
      mset (map xl_candidate_key (pr_excluded (recommend dtext cs p))) = mset (map cd_candidate_key cs)"
    by (rule recommend_keys)
next
  fix c assume c: "c \<in> set cs" "needs_coverage p c" "cd_expertise_available c"
  have "\<exists>i \<in> set (ps_planned (plan_forced dtext cs p)). pl_candidate_key i = cd_candidate_key c \<and> forced_by_minimum_coverage i"
    unfolding plan_forced_def by (rule forced_admitted[OF _ c(3)]) (use c in simp)
  moreover have "set (ps_planned (plan_forced dtext cs p)) \<subseteq> set (ps_planned (plan_optional dtext cs p))"
    using fold_planned[of "optional_step p", OF step_planned(2)] by (force simp: plan_optional_def Let_def)
  ultimately show "\<exists>i \<in> set (pr_planned (recommend dtext cs p)). pl_candidate_key i = cd_candidate_key c \<and> forced_by_minimum_coverage i"
    by (auto simp: recommend_state)
next
  show "pr_blind_spots (recommend dtext cs p) = map blind_spot_json (filter (\<lambda>c. rs_uncovered (cd_score c) \<and>
      (\<forall>i \<in> set (pr_planned (recommend dtext cs p)). pl_candidate_key i \<noteq> cd_candidate_key c)) cs)"
    unfolding recommend_state by (auto simp: recommend_def Let_def blind_spots_of_def image_iff intro!: arg_cong[of _ _ "map blind_spot_json"] filter_cong)
qed

text \<open>
  A plan spends what its items cost and stays within capacity: only minimum coverage can take it
  past the plannable days. Nothing that fits is left out: an optional candidate the function has the
  expertise for, and that does not disrupt highly, is planned or needs more days than the plan leaves.\<close>

lemma recommend_within_capacity:
  fixes dtext :: "date \<Rightarrow> string" and p :: capacity_policy
  assumes "list_all candidate_ok cs"
  defines "spent \<equiv> sum_list (map pl_effort_days (pr_planned (recommend dtext cs p)))"
  shows "pr_planned_days (recommend dtext cs p) = py_round spent 4 \<and>
     spent \<le> max (plannable_days p) (sum_list (map cd_effort_days (filter (\<lambda>c. needs_coverage p c \<and> cd_expertise_available c) cs))) \<and>
     (\<forall>c \<in> set cs. \<not> needs_coverage p c \<longrightarrow> cd_expertise_available c \<longrightarrow> cd_disruption c \<noteq> ''high'' \<longrightarrow>
        (\<exists>i \<in> set (pr_planned (recommend dtext cs p)). pl_candidate_key i = cd_candidate_key c) \<or>
        plannable_days p < spent + cd_effort_days c)"
proof -
  let ?before = "plan_forced dtext cs p" and ?s = "plan_optional dtext cs p"
  let ?start = "?before\<lparr>ps_high_disruption := high_disruption_of cs (ps_planned ?before)\<rparr>"
  let ?opt = "sort_key (\<lambda>c. (- value_density c, cd_candidate_key c)) (filter (\<lambda>c. c \<notin> set (filter (needs_coverage p) cs)) cs)"
  have s: "?s = fold (optional_step p) ?opt ?start" by (simp add: plan_optional_def Let_def)
  have pos: "list_all (\<lambda>c. 0 < cd_effort_days c) ?opt" using assms(1) by (auto simp: list_all_iff candidate_ok_def)
  have "spent_ok ?before" unfolding plan_forced_def by (rule fold_spent[OF step_spent(1)]) (simp_all add: spent_ok_def)
  then have "spent_ok ?start" by (simp add: spent_ok_def)
  then have "spent_ok ?s" unfolding s by (intro fold_spent[OF step_spent(2)])
  then have spent: "spent = ps_spent ?s" by (simp add: spent_def spent_ok_def recommend_state)
  have "ps_spent ?before = sum_list (map cd_effort_days (filter cd_expertise_available
      (sort_key (\<lambda>c. (- cd_criticality c, cd_candidate_key c)) (filter (needs_coverage p) cs))))"
    by (simp add: plan_forced_def forced_spent)
  also have "\<dots> = sum_list (map cd_effort_days (filter (\<lambda>c. needs_coverage p c \<and> cd_expertise_available c) cs))"
    by (simp add: filter_sort[symmetric] sum_mset_sum_list[symmetric] filter_filter conj_commute)
  finally have forced: "ps_spent ?before = sum_list (map cd_effort_days (filter (\<lambda>c. needs_coverage p c \<and> cd_expertise_available c) cs))" .
  have cap: "ps_spent ?s \<le> max (plannable_days p) (ps_spent ?before)"
    using optional_spent(2)[OF pos, of p ?start] by (simp add: s max.commute)
  have tight: "(\<exists>i \<in> set (ps_planned ?s). pl_candidate_key i = cd_candidate_key c) \<or> plannable_days p < ps_spent ?s + cd_effort_days c"
    if c: "c \<in> set cs" "\<not> needs_coverage p c" "cd_expertise_available c" "cd_disruption c \<noteq> ''high''" for c
    unfolding s by (rule optional_tight[OF pos _ c(3,4)]) (use c in simp)
  have "pr_planned_days (recommend dtext cs p) = py_round spent 4" by (simp add: spent recommend_def Let_def)
  with cap tight show ?thesis unfolding forced[symmetric] spent recommend_state by blast
qed

section \<open>Witnesses\<close>

definition demo_candidate :: "string \<Rightarrow> rat \<Rightarrow> rat \<Rightarrow> candidate" where
  "demo_candidate k effort crit = \<lparr>cd_candidate_key = k, cd_entity_ref = ''ent-1'', cd_risk_ref = ''R-1'', cd_title = ''Change management'',
     cd_objective = ''test change approvals'', cd_score = \<lparr>rs_policy_id = ''default-v1'', rs_inherent = 1 / 2, rs_residual = 1 / 2,
       rs_rating = ''high'', rs_confidence = 1 / 5, rs_audit_priority = 7 / 10, rs_uncovered = True, rs_components = [], rs_rationale = []\<rparr>,
     cd_effort_days = effort, cd_criticality = crit, cd_disruption = ''medium'', cd_expertise_required = [], cd_expertise_available = True,
     cd_last_audited_on = None, cd_data_dependencies = [], cd_suggested_cadence_months = 12, cd_audit_pack_ref = None\<rparr>"

definition demo_candidates :: "candidate list" where
  "demo_candidates = [demo_candidate ''a'' 30 1, demo_candidate ''b'' 5 5, demo_candidate ''c'' 4 1]"

definition demo_capacity :: capacity_policy where
  "demo_capacity = \<lparr>cp_horizon_start = 0, cp_horizon_end = 365, cp_available_days = 20, minimum_coverage_criticality = 4,
     coverage_interval_months = 24, contingency_fraction = 3 / 20, max_high_disruption = 2\<rparr>"

lemma demo_candidates_ok: "list_all candidate_ok demo_candidates" "capacity_policy_ok demo_capacity"
  by (simp_all add: demo_candidates_def demo_candidate_def candidate_ok_def len_within_def demo_capacity_def capacity_policy_ok_def)

lemma demo_plan:
  "map pl_candidate_key (pr_planned (recommend int_str demo_candidates demo_capacity)) = [''b'', ''c'']"
  by code_simp

theorem recommend_accounts_witness:
  "needs_coverage demo_capacity (demo_candidate ''b'' 5 5) \<and>
   (\<exists>i \<in> set (pr_planned (recommend int_str demo_candidates demo_capacity)). pl_candidate_key i = ''b'' \<and> forced_by_minimum_coverage i) \<and>
   map xl_candidate_key (pr_excluded (recommend int_str demo_candidates demo_capacity)) = [''a'']"
proof -
  have c: "demo_candidate ''b'' 5 5 \<in> set demo_candidates" "needs_coverage demo_capacity (demo_candidate ''b'' 5 5)"
    "cd_expertise_available (demo_candidate ''b'' 5 5)" "cd_candidate_key (demo_candidate ''b'' 5 5) = ''b''"
    by (simp_all add: demo_candidates_def demo_candidate_def demo_capacity_def needs_coverage_def)
  note r = recommend_accounts[of int_str demo_candidates demo_capacity]
  have keys: "map cd_candidate_key demo_candidates = [''a'', ''b'', ''c'']" by (simp add: demo_candidates_def demo_candidate_def)
  have "mset (map xl_candidate_key (pr_excluded (recommend int_str demo_candidates demo_capacity))) = mset [''a'']"
    using conjunct1[OF r] unfolding demo_plan keys by simp
  then have "map xl_candidate_key (pr_excluded (recommend int_str demo_candidates demo_capacity)) = [''a'']"
    by (metis mset_single_iff_right mset_single_iff mset.simps)
  moreover have "\<exists>i \<in> set (pr_planned (recommend int_str demo_candidates demo_capacity)). pl_candidate_key i = ''b'' \<and> forced_by_minimum_coverage i"
    using bspec[OF conjunct1[OF conjunct2[OF r]] c(1)] c(2,3) unfolding c(4) by blast
  ultimately show ?thesis using c(2) by blast
qed

end
