(* ===== verification/Portfolio.thy ===== *)
theory Portfolio
  imports Planning Outbox
begin

text \<open>
  The audit universe, the risk register and plan proposals (\<open>portfolio/service.py\<close>,
  \<open>portfolio/repository.py\<close>, with the rows of \<open>db/models/portfolio.py\<close>, \<open>organization.py\<close> and
  \<open>planning.py\<close>): every operation as a transaction over the tables, the ledger and the outbox.
  A JSON column that holds the dump of a model holds the model's record here, and reading a key of
  it is reading the field. Columns that no modelled code reads or writes are left out.
\<close>

section \<open>Tables\<close>

record entity_row =
  entity_id :: ident
  en_tenant :: ident
  en_profile :: "ident option"
  entity_type :: string
  en_name :: string
  en_external_ref :: "string option"
  en_criticality :: rat
  en_active :: bool
  en_attributes :: pydict

record risk_row =
  risk_id :: ident
  rk_tenant :: ident
  rk_code :: string
  rk_title :: string
  rk_description :: "string option"
  inherent_impact :: "rat option"
  inherent_likelihood :: "rat option"
  rk_velocity :: "rat option"
  residual_risk :: "rat option"
  rk_confidence :: rat
  rk_evidence :: "string list"

record risk_assessment_row =
  ra_assessment_id :: ident
  rg_tenant :: ident
  rg_risk :: ident
  rg_version :: nat
  rg_policy :: scoring_policy
  rg_factors :: risk_factors
  rg_score :: risk_score
  rg_assessed_by :: ident
  rg_as_at :: date
  rg_assessed_at :: time
  official_rating :: "string option"
  official_reason :: "string option"
  official_by :: "ident option"

record coverage_row =
  coverage_id :: ident
  ac_tenant :: ident
  ac_risk :: ident
  ac_entity :: "ident option"
  ac_source :: string
  ac_obtained_on :: date
  ac_scope_note :: "string option"
  ac_reference :: "string option"
  ac_engagement :: "ident option"
  ac_recorded_by :: ident
  ac_recorded_at :: time

record accepted_residual =
  accepted_by :: ident
  accepted_at :: string
  ar_uncovered_priority :: rat
  ar_excluded :: "(string \<times> string \<times> string \<times> string) list"
  ar_blind_spots :: "(string \<times> string \<times> string) list"

record proposal_row =
  proposal_id :: ident
  pp_tenant :: ident
  pp_plan :: "ident option"
  pp_name :: string
  pp_version :: nat
  pp_status :: string
  pp_scenario :: string
  pp_policy :: capacity_policy
  pp_planned :: "planned_item list"
  pp_excluded :: "excluded_item list"
  pp_blind_spots :: "pydict list"
  pp_planned_days :: rat
  pp_plannable_days :: rat
  pp_coverage_ratio :: rat
  pp_uncovered_priority :: rat
  pp_notes :: "string list"
  pp_proposed_by :: ident
  pp_approved_at :: "time option"
  pp_approved_by :: "ident option"
  pp_approval_reason :: "string option"
  pp_accepted :: "accepted_residual option"

record plan_row =
  plan_id :: ident
  ap_tenant :: ident
  ap_name :: string
  ap_version :: nat
  ap_status :: string
  ap_horizon_start :: date
  ap_horizon_end :: date
  ap_coverage_policy :: capacity_policy
  ap_approved_at :: time
  ap_approved_by :: ident

record pf_store = store +
  pf_tenants :: "ident list"
  pf_profiles :: "ident list"
  pf_engagements :: "ident list"
  entities :: "entity_row list"
  risks :: "risk_row list"
  risk_assessments :: "risk_assessment_row list"
  coverages :: "coverage_row list"
  proposals :: "proposal_row list"
  plans :: "plan_row list"
  date_iso :: "date \<Rightarrow> string"

section \<open>Repository\<close>

definition known :: "ident list \<Rightarrow> ident option \<Rightarrow> bool" where
  "known ids x = (case x of None \<Rightarrow> True | Some i \<Rightarrow> i \<in> set ids)"

definition add_entity :: "entity_row \<Rightarrow> pf_store \<Rightarrow> pf_store res" where
  "add_entity e s =
     (if has_key entity_id (entity_id e) (entities s)
         \<or> (en_external_ref e \<noteq> None \<and>
            has_key (\<lambda>x. (en_tenant x, entity_type x, en_external_ref x)) (en_tenant e, entity_type e, en_external_ref e) (entities s))
         \<or> \<not> (0 \<le> en_criticality e \<and> en_criticality e \<le> 5)
         \<or> en_tenant e \<notin> set (pf_tenants s) \<or> \<not> known (pf_profiles s) (en_profile e)
      then Inl IntegrityError else Inr (s\<lparr>entities := entities s @ [e]\<rparr>))"

definition entity_by_ref :: "ident \<Rightarrow> string \<Rightarrow> string option \<Rightarrow> pf_store \<Rightarrow> entity_row option" where
  "entity_by_ref tenant etype ref s =
     (case ref of None \<Rightarrow> None
      | Some _ \<Rightarrow> find (\<lambda>e. en_tenant e = tenant \<and> entity_type e = etype \<and> en_external_ref e = ref) (entities s))"

definition list_entities :: "ident \<Rightarrow> pf_store \<Rightarrow> entity_row list" where
  "list_entities tenant s = sort_key (\<lambda>e. (entity_type e, en_name e)) (filter (\<lambda>e. en_tenant e = tenant \<and> en_active e) (entities s))"

definition add_risk :: "risk_row \<Rightarrow> pf_store \<Rightarrow> pf_store res" where
  "add_risk r s =
     (if has_key risk_id (risk_id r) (risks s) \<or> has_key (\<lambda>x. (rk_tenant x, rk_code x)) (rk_tenant r, rk_code r) (risks s)
         \<or> rk_tenant r \<notin> set (pf_tenants s)
      then Inl IntegrityError else Inr (s\<lparr>risks := risks s @ [r]\<rparr>))"

definition risk_by_code :: "ident \<Rightarrow> string \<Rightarrow> pf_store \<Rightarrow> risk_row option" where
  "risk_by_code tenant code s = find (\<lambda>r. rk_tenant r = tenant \<and> rk_code r = code) (risks s)"

definition list_risks :: "ident \<Rightarrow> pf_store \<Rightarrow> risk_row list" where
  "list_risks tenant s = sort_key rk_code (filter (\<lambda>r. rk_tenant r = tenant) (risks s))"

definition add_risk_assessment :: "risk_assessment_row \<Rightarrow> pf_store \<Rightarrow> pf_store res" where
  "add_risk_assessment a s =
     (if has_key ra_assessment_id (ra_assessment_id a) (risk_assessments s)
         \<or> has_key (\<lambda>x. (rg_risk x, rg_version x)) (rg_risk a, rg_version a) (risk_assessments s)
         \<or> \<not> (0 \<le> rs_confidence (rg_score a) \<and> rs_confidence (rg_score a) \<le> 1)
         \<or> \<not> (0 \<le> rs_residual (rg_score a) \<and> rs_residual (rg_score a) \<le> 1)
         \<or> rg_tenant a \<notin> set (pf_tenants s) \<or> \<not> has_key risk_id (rg_risk a) (risks s)
      then Inl IntegrityError else Inr (s\<lparr>risk_assessments := risk_assessments s @ [a]\<rparr>))"

definition next_assessment_version :: "ident \<Rightarrow> pf_store \<Rightarrow> nat" where
  "next_assessment_version rid s = foldr max (map rg_version (filter (\<lambda>a. rg_risk a = rid) (risk_assessments s))) 0 + 1"

definition assessment_history :: "ident \<Rightarrow> pf_store \<Rightarrow> risk_assessment_row list" where
  "assessment_history rid s = sort_key rg_version (filter (\<lambda>a. rg_risk a = rid) (risk_assessments s))"

definition latest_risk_assessment :: "ident \<Rightarrow> pf_store \<Rightarrow> risk_assessment_row option" where
  "latest_risk_assessment rid s =
     (case sort_key (\<lambda>a. - int (rg_version a)) (filter (\<lambda>a. rg_risk a = rid) (risk_assessments s)) of [] \<Rightarrow> None | a # _ \<Rightarrow> Some a)"

definition add_coverage :: "coverage_row \<Rightarrow> pf_store \<Rightarrow> pf_store res" where
  "add_coverage c s =
     (if has_key coverage_id (coverage_id c) (coverages s) \<or> ac_tenant c \<notin> set (pf_tenants s)
         \<or> \<not> has_key risk_id (ac_risk c) (risks s) \<or> \<not> known (map entity_id (entities s)) (ac_entity c)
         \<or> \<not> known (pf_engagements s) (ac_engagement c)
      then Inl IntegrityError else Inr (s\<lparr>coverages := coverages s @ [c]\<rparr>))"

definition coverage_for :: "ident \<Rightarrow> ident \<Rightarrow> pf_store \<Rightarrow> coverage_row list" where
  "coverage_for tenant rid s =
     sort_key (\<lambda>c. - ac_obtained_on c) (filter (\<lambda>c. ac_tenant c = tenant \<and> ac_risk c = rid) (coverages s))"

definition add_proposal :: "proposal_row \<Rightarrow> pf_store \<Rightarrow> pf_store res" where
  "add_proposal p s =
     (if has_key proposal_id (proposal_id p) (proposals s)
         \<or> has_key (\<lambda>x. (pp_tenant x, pp_name x, pp_version x)) (pp_tenant p, pp_name p, pp_version p) (proposals s)
         \<or> pp_planned_days p < 0 \<or> pp_tenant p \<notin> set (pf_tenants s)
      then Inl IntegrityError else Inr (s\<lparr>proposals := proposals s @ [p]\<rparr>))"

definition get_proposal :: "ident \<Rightarrow> ident \<Rightarrow> pf_store \<Rightarrow> proposal_row option" where
  "get_proposal tenant pid s = find (\<lambda>p. pp_tenant p = tenant \<and> proposal_id p = pid) (proposals s)"

definition list_proposals :: "ident \<Rightarrow> pf_store \<Rightarrow> proposal_row list" where
  "list_proposals tenant s = sort_key (\<lambda>p. (pp_name p, pp_version p)) (filter (\<lambda>p. pp_tenant p = tenant) (proposals s))"

definition add_plan :: "plan_row \<Rightarrow> pf_store \<Rightarrow> pf_store res" where
  "add_plan p s =
     (if has_key plan_id (plan_id p) (plans s)
         \<or> has_key (\<lambda>x. (ap_tenant x, ap_name x, ap_version x)) (ap_tenant p, ap_name p, ap_version p) (plans s)
         \<or> ap_tenant p \<notin> set (pf_tenants s)
      then Inl IntegrityError else Inr (s\<lparr>plans := plans s @ [p]\<rparr>))"

section \<open>The register\<close>

definition portfolio_automated :: "string list \<Rightarrow> ident \<Rightarrow> bool" where
  "portfolio_automated prefixes actor \<longleftrightarrow> starts_with prefixes (str_lower actor)"

definition pf_emit :: "ident \<Rightarrow> ident \<Rightarrow> string \<Rightarrow> pydict \<Rightarrow> string \<Rightarrow> string \<Rightarrow> pf_store \<Rightarrow> pf_store res" where
  "pf_emit tenant aggregate_id etype data key aggregate_type s =
     (let (eid, s1) = new_event_id s; (now, s2) = utc_now s1 in
      bind_res (append_event \<lparr>event_id = eid, event_type = etype, event_tenant = tenant, event_engagement = None,
                              event_task = None, occurred_at = now, payload = data\<rparr> s2)
        (outbox_add tenant aggregate_type aggregate_id etype data key))"

definition require_risk :: "ident \<Rightarrow> string \<Rightarrow> pf_store \<Rightarrow> risk_row res" where
  "require_risk tenant code s = (case risk_by_code tenant code s of None \<Rightarrow> Inl RiskNotFoundError | Some r \<Rightarrow> Inr r)"

definition register_entity ::
  "ident \<Rightarrow> string \<Rightarrow> string \<Rightarrow> rat \<Rightarrow> string option \<Rightarrow> pydict option \<Rightarrow> ident option \<Rightarrow> pf_store \<Rightarrow> (ident \<times> pf_store) res"
where
  "register_entity tenant etype name criticality ref attributes profile s =
     (let attrs = (case attributes of None \<Rightarrow> [] | Some d \<Rightarrow> d) in
      case (if truthy ref then entity_by_ref tenant etype ref s else None) of
        Some e \<Rightarrow>
          if \<not> (0 \<le> criticality \<and> criticality \<le> 5) then Inl IntegrityError
          else Inr (entity_id e, s\<lparr>entities := put entity_id
            (e\<lparr>en_name := name, en_criticality := criticality, en_attributes := attrs, en_active := True\<rparr>) (entities s)\<rparr>)
      | None \<Rightarrow>
          let (eid, s1) = new_id ''ent'' s in
          bind_res (add_entity \<lparr>entity_id = eid, en_tenant = tenant, en_profile = profile, entity_type = etype, en_name = name,
            en_external_ref = ref, en_criticality = criticality, en_active = True, en_attributes = attrs\<rparr> s1)
            (\<lambda>s2. Inr (eid, s2)))"

definition register_risk :: "ident \<Rightarrow> string \<Rightarrow> string \<Rightarrow> string option \<Rightarrow> pf_store \<Rightarrow> (ident \<times> pf_store) res" where
  "register_risk tenant code title description s =
     (case risk_by_code tenant code s of
        Some r \<Rightarrow>
          let r' = r\<lparr>rk_title := title\<rparr> in
          Inr (risk_id r, s\<lparr>risks := put risk_id (if truthy description then r'\<lparr>rk_description := description\<rparr> else r') (risks s)\<rparr>)
      | None \<Rightarrow>
          let (rid, s1) = new_id ''rsk'' s in
          bind_res (add_risk \<lparr>risk_id = rid, rk_tenant = tenant, rk_code = code, rk_title = title, rk_description = description,
            inherent_impact = None, inherent_likelihood = None, rk_velocity = None, residual_risk = None, rk_confidence = 0,
            rk_evidence = []\<rparr> s1) (\<lambda>s2. Inr (rid, s2)))"

definition record_coverage ::
  "ident \<Rightarrow> string \<Rightarrow> assurance_source \<Rightarrow> date \<Rightarrow> ident \<Rightarrow> string \<Rightarrow> string option \<Rightarrow> ident option \<Rightarrow> ident option \<Rightarrow> pf_store
   \<Rightarrow> (ident \<times> pf_store) res"
where
  "record_coverage tenant code source obtained by scope_note ref engagement entity s =
     bind_res (require_risk tenant code s) (\<lambda>r.
       let (cid, s1) = new_id ''cov'' s; (now, s2) = utc_now s1 in
       bind_res (add_coverage \<lparr>coverage_id = cid, ac_tenant = tenant, ac_risk = risk_id r, ac_entity = entity,
         ac_source = assurance_source_value source, ac_obtained_on = obtained,
         ac_scope_note = (if scope_note = [] then None else Some scope_note), ac_reference = ref, ac_engagement = engagement,
         ac_recorded_by = by, ac_recorded_at = now\<rparr> s2) (\<lambda>s3. Inr (cid, s3)))"

section \<open>Ratings\<close>

definition new_risk_assessment ::
  "ident \<Rightarrow> ident \<Rightarrow> ident \<Rightarrow> nat \<Rightarrow> scoring_policy \<Rightarrow> risk_factors \<Rightarrow> risk_score \<Rightarrow> ident \<Rightarrow> date \<Rightarrow> time \<Rightarrow> risk_assessment_row"
where
  "new_risk_assessment aid tenant rid version p f r assessed_by as_at now =
     \<lparr>ra_assessment_id = aid, rg_tenant = tenant, rg_risk = rid, rg_version = version, rg_policy = p, rg_factors = f, rg_score = r,
      rg_assessed_by = assessed_by, rg_as_at = as_at, rg_assessed_at = now, official_rating = None, official_reason = None,
      official_by = None\<rparr>"

definition assess_risk ::
  "ident \<Rightarrow> string \<Rightarrow> risk_factors \<Rightarrow> ident \<Rightarrow> date \<Rightarrow> scoring_policy option \<Rightarrow> pf_store \<Rightarrow> (risk_assessment_row \<times> pf_store) res"
where
  "assess_risk tenant code f assessed_by as_at policy s =
     (let p = (case policy of None \<Rightarrow> default_scoring_policy | Some p \<Rightarrow> p) in
      bind_res (score f (Some p) as_at) (\<lambda>r.
      bind_res (require_risk tenant code s) (\<lambda>risk.
        let version = next_assessment_version (risk_id risk) s; (aid, s1) = new_id ''rsa'' s; (now, s2) = utc_now s1;
            a = new_risk_assessment aid tenant (risk_id risk) version p f r assessed_by as_at now
        in bind_res (add_risk_assessment a s2) (\<lambda>s3.
           bind_res (pf_emit tenant (risk_id risk) ''risk.assessed''
             [(''risk_id'', PStr (risk_id risk)), (''code'', PStr code), (''version'', PInt (int version)),
              (''inherent'', PFloat (rs_inherent r)), (''residual'', PFloat (rs_residual r)), (''rating'', PStr (rs_rating r)),
              (''confidence'', PFloat (rs_confidence r)), (''audit_priority'', PFloat (rs_audit_priority r)),
              (''untested_controls'', PList (map PStr (untested_controls f))), (''assessed_by'', PStr assessed_by)]
             (''risk-assessed:'' @ aid) ''risk''
             (s3\<lparr>risks := put risk_id (risk\<lparr>inherent_impact := Some (rf_impact f), inherent_likelihood := Some (rf_likelihood f),
               rk_velocity := Some (rf_velocity f), residual_risk := Some (rs_residual r), rk_confidence := rs_confidence r,
               rk_evidence := rf_evidence_ids f\<rparr>) (risks s3)\<rparr>)) (\<lambda>s4. Inr (a, s4))))))"

definition put_risk_assessment :: "risk_assessment_row \<Rightarrow> pf_store \<Rightarrow> pf_store" where
  "put_risk_assessment a s = s\<lparr>risk_assessments := put ra_assessment_id a (risk_assessments s)\<rparr>"

definition set_official_rating ::
  "string list \<Rightarrow> ident \<Rightarrow> string \<Rightarrow> string \<Rightarrow> ident \<Rightarrow> string \<Rightarrow> pf_store \<Rightarrow> (risk_assessment_row \<times> pf_store) res"
where
  "set_official_rating prefixes tenant code rating actor reason s =
     (if portfolio_automated prefixes actor then Inl PlanStateError
      else bind_res (require_risk tenant code s) (\<lambda>risk.
        case latest_risk_assessment (risk_id risk) s of
          None \<Rightarrow> Inl RiskNotFoundError
        | Some a \<Rightarrow>
            let a' = a\<lparr>official_rating := Some rating, official_reason := Some reason, official_by := Some actor\<rparr> in
            bind_res (pf_emit tenant (risk_id risk) ''risk.rating_overridden''
              [(''risk_id'', PStr (risk_id risk)), (''code'', PStr code), (''computed_rating'', PStr (rs_rating (rg_score a))),
               (''official_rating'', PStr rating), (''actor_id'', PStr actor), (''reason'', PStr reason)]
              (''risk-override:'' @ ra_assessment_id a) ''risk'' (put_risk_assessment a' s)) (\<lambda>s1. Inr (a', s1))))"

definition truthy_or :: "string option \<Rightarrow> string \<Rightarrow> string" where
  "truthy_or x y = (case x of None \<Rightarrow> y | Some v \<Rightarrow> if v = [] then y else v)"

definition pf_opt :: "string option \<Rightarrow> pyval" where
  "pf_opt x = (case x of None \<Rightarrow> PNone | Some v \<Rightarrow> PStr v)"

definition register_line :: "pf_store \<Rightarrow> risk_row \<Rightarrow> pydict" where
  "register_line s r =
     [(''code'', PStr (rk_code r)), (''title'', PStr (rk_title r))] @
     (case latest_risk_assessment (risk_id r) s of
        None \<Rightarrow> [(''computed_rating'', PNone), (''official_rating'', PNone), (''effective_rating'', PNone), (''residual'', PNone),
          (''confidence'', PNone), (''audit_priority'', PNone), (''uncovered'', PBool True), (''assessed_as_at'', PNone),
          (''untested_controls'', PList [])]
      | Some a \<Rightarrow> [(''computed_rating'', PStr (rs_rating (rg_score a))), (''official_rating'', pf_opt (official_rating a)),
          (''effective_rating'', PStr (truthy_or (official_rating a) (rs_rating (rg_score a)))),
          (''residual'', PFloat (rs_residual (rg_score a))), (''confidence'', PFloat (rs_confidence (rg_score a))),
          (''audit_priority'', PFloat (rs_audit_priority (rg_score a))), (''uncovered'', PBool (rs_uncovered (rg_score a))),
          (''assessed_as_at'', PStr (date_iso s (rg_as_at a))),
          (''untested_controls'', case map_of (rs_components (rg_score a)) ''untested_controls'' of None \<Rightarrow> PList [] | Some v \<Rightarrow> v)])"

definition register_view :: "ident \<Rightarrow> pf_store \<Rightarrow> pydict list" where
  "register_view tenant s = map (register_line s) (list_risks tenant s)"

section \<open>Plans\<close>

definition next_proposal_version :: "ident \<Rightarrow> string \<Rightarrow> pf_store \<Rightarrow> nat" where
  "next_proposal_version tenant name s =
     foldr max (map pp_version (filter (\<lambda>p. pp_tenant p = tenant \<and> pp_name p = name) (proposals s))) 0 + 1"

definition new_proposal ::
  "ident \<Rightarrow> ident \<Rightarrow> string \<Rightarrow> nat \<Rightarrow> string \<Rightarrow> capacity_policy \<Rightarrow> plan_recommendation \<Rightarrow> ident \<Rightarrow> proposal_row"
where
  "new_proposal pid tenant name version scenario p r by =
     \<lparr>proposal_id = pid, pp_tenant = tenant, pp_plan = None, pp_name = name, pp_version = version, pp_status = ''proposed'',
      pp_scenario = scenario, pp_policy = p, pp_planned = pr_planned r, pp_excluded = pr_excluded r, pp_blind_spots = pr_blind_spots r,
      pp_planned_days = pr_planned_days r, pp_plannable_days = pr_plannable_days r, pp_coverage_ratio = pr_coverage_ratio r,
      pp_uncovered_priority = pr_uncovered_priority r, pp_notes = pr_policy_notes r, pp_proposed_by = by, pp_approved_at = None,
      pp_approved_by = None, pp_approval_reason = None, pp_accepted = None\<rparr>"

text \<open>The reply repeats the proposal and the recommendation.\<close>

definition propose_plan ::
  "ident \<Rightarrow> string \<Rightarrow> candidate list \<Rightarrow> capacity_policy \<Rightarrow> ident \<Rightarrow> string \<Rightarrow> pf_store
   \<Rightarrow> ((proposal_row \<times> plan_recommendation \<times> bool) \<times> pf_store) res"
where
  "propose_plan tenant name cs p by scenario s =
     (if cs = [] then Inl CapacityError
      else
        let r = recommend (date_iso s) cs p; version = next_proposal_version tenant name s; (pid, s1) = new_id ''plp'' s;
            prop = new_proposal pid tenant name version scenario p r by
        in bind_res (add_proposal prop s1) (\<lambda>s2.
           bind_res (pf_emit tenant pid ''plan.proposed''
             [(''proposal_id'', PStr pid), (''name'', PStr name), (''version'', PInt (int version)), (''scenario'', PStr scenario),
              (''planned'', PInt (int (length (pr_planned r)))), (''excluded'', PInt (int (length (pr_excluded r)))),
              (''blind_spots'', PInt (int (length (pr_blind_spots r)))), (''planned_days'', PFloat (pr_planned_days r)),
              (''coverage_ratio'', PFloat (pr_coverage_ratio r)), (''proposed_by'', PStr by)]
             (''plan-proposed:'' @ pid) ''plan_proposal'' s2) (\<lambda>s3. Inr ((prop, r, is_deliverable r), s3))))"

definition simulate :: "candidate list \<Rightarrow> capacity_policy \<Rightarrow> pf_store \<Rightarrow> plan_recommendation \<times> bool" where
  "simulate cs p s = (let r = recommend (date_iso s) cs p in (r, is_deliverable r))"

fun dict_text :: "pydict \<Rightarrow> string \<Rightarrow> string" where
  "dict_text d k = (case map_of d k of Some (PStr v) \<Rightarrow> v | _ \<Rightarrow> [])"

definition residual_of :: "proposal_row \<Rightarrow> ident \<Rightarrow> string \<Rightarrow> accepted_residual" where
  "residual_of p by stamp =
     \<lparr>accepted_by = by, accepted_at = stamp, ar_uncovered_priority = pp_uncovered_priority p,
      ar_excluded = map (\<lambda>x. (xl_candidate_key x, xl_risk_ref x, xl_rating x, xl_reason x)) (pp_excluded p),
      ar_blind_spots = map (\<lambda>d. (dict_text d ''candidate_key'', dict_text d ''risk_ref'', dict_text d ''rating'')) (pp_blind_spots p)\<rparr>"

definition new_plan :: "ident \<Rightarrow> proposal_row \<Rightarrow> time \<Rightarrow> ident \<Rightarrow> plan_row" where
  "new_plan lid p now by =
     \<lparr>plan_id = lid, ap_tenant = pp_tenant p, ap_name = pp_name p, ap_version = pp_version p, ap_status = ''approved'',
      ap_horizon_start = cp_horizon_start (pp_policy p), ap_horizon_end = cp_horizon_end (pp_policy p), ap_coverage_policy = pp_policy p,
      ap_approved_at = now, ap_approved_by = by\<rparr>"

definition put_proposal :: "proposal_row \<Rightarrow> pf_store \<Rightarrow> pf_store" where
  "put_proposal p s = s\<lparr>proposals := put proposal_id p (proposals s)\<rparr>"

definition approve_plan ::
  "string list \<Rightarrow> ident \<Rightarrow> ident \<Rightarrow> ident \<Rightarrow> string \<Rightarrow> pf_store \<Rightarrow> ((ident option \<times> accepted_residual option) \<times> pf_store) res"
where
  "approve_plan prefixes tenant pid by reason s =
     (if portfolio_automated prefixes by then Inl PlanStateError
      else case get_proposal tenant pid s of
        None \<Rightarrow> Inl PlanNotFoundError
      | Some p \<Rightarrow>
          if pp_status p = ''approved'' then Inr ((pp_plan p, None), s)
          else if pp_status p \<noteq> ''proposed'' then Inl PlanStateError
          else if pp_plannable_days p < pp_planned_days p then Inl CapacityError
          else
            let (lid, s1) = new_id ''pln'' s; (t1, s2) = utc_now s1 in
            bind_res (add_plan (new_plan lid p t1 by) s2) (\<lambda>s3.
              let (t2, s4) = utc_now s3; (t3, s5) = utc_now s4; acc = residual_of p by (isoformat s t3);
                  p' = p\<lparr>pp_status := ''approved'', pp_plan := Some lid, pp_approved_at := Some t2, pp_approved_by := Some by,
                         pp_approval_reason := Some reason, pp_accepted := Some acc\<rparr>
              in bind_res (pf_emit tenant pid ''plan.approved''
                   [(''proposal_id'', PStr pid), (''plan_id'', PStr lid), (''approved_by'', PStr by), (''reason'', PStr reason),
                    (''planned'', PInt (int (length (pp_planned p)))), (''excluded'', PInt (int (length (pp_excluded p)))),
                    (''blind_spots'', PInt (int (length (pp_blind_spots p)))), (''uncovered_priority'', PFloat (pp_uncovered_priority p))]
                   (''plan-approved:'' @ pid) ''plan_proposal'' (put_proposal p' s5)) (\<lambda>s6. Inr ((Some lid, Some acc), s6))))"

text \<open>The view repeats the row.\<close>

definition proposal_view :: "ident \<Rightarrow> ident \<Rightarrow> pf_store \<Rightarrow> proposal_row res" where
  "proposal_view tenant pid s = (case get_proposal tenant pid s of None \<Rightarrow> Inl PlanNotFoundError | Some p \<Rightarrow> Inr p)"

section \<open>Operations\<close>

text \<open>
  One call of the service. Its structured arguments are instances of models, which are built only
  when their bounds hold.
\<close>

datatype pf_op =
    RegisterEntity ident string string rat "string option" "pydict option" "ident option"
  | RegisterRisk ident string string "string option"
  | RecordCoverage ident string assurance_source date ident string "string option" "ident option" "ident option"
  | AssessRisk ident string risk_factors ident date "scoring_policy option"
  | SetOfficialRating ident string string ident string
  | ProposePlan ident string "candidate list" capacity_policy ident string
  | ApprovePlan ident ident ident string

fun pf_step :: "string list \<Rightarrow> pf_op \<Rightarrow> pf_store \<Rightarrow> pf_store res" where
  "pf_step prefixes (RegisterEntity tenant etype name crit ref attrs profile) s =
     map_sum id snd (register_entity tenant etype name crit ref attrs profile s)"
| "pf_step prefixes (RegisterRisk tenant code title description) s = map_sum id snd (register_risk tenant code title description s)"
| "pf_step prefixes (RecordCoverage tenant code source obtained by scope ref engagement entity) s =
     map_sum id snd (record_coverage tenant code source obtained by scope ref engagement entity s)"
| "pf_step prefixes (AssessRisk tenant code f by as_at policy) s =
     (if risk_factors_ok f \<and> (case policy of None \<Rightarrow> True | Some p \<Rightarrow> scoring_policy_ok p)
      then map_sum id snd (assess_risk tenant code f by as_at policy s) else Inl ValidationError)"
| "pf_step prefixes (SetOfficialRating tenant code rating actor reason) s =
     map_sum id snd (set_official_rating prefixes tenant code rating actor reason s)"
| "pf_step prefixes (ProposePlan tenant name cs p by scenario) s =
     (if list_all candidate_ok cs \<and> capacity_policy_ok p
      then map_sum id snd (propose_plan tenant name cs p by scenario s) else Inl ValidationError)"
| "pf_step prefixes (ApprovePlan tenant pid by reason) s = map_sum id snd (approve_plan prefixes tenant pid by reason s)"

definition pf_init :: "pf_store \<Rightarrow> bool" where
  "pf_init s \<longleftrightarrow> audit_events s = [] \<and> outbox_events s = [] \<and> entities s = [] \<and> risks s = [] \<and> risk_assessments s = [] \<and>
     coverages s = [] \<and> proposals s = [] \<and> plans s = []"

definition pf_reach :: "string list \<Rightarrow> pf_store \<Rightarrow> bool" where
  "pf_reach prefixes = reach pf_init (pf_step prefixes)"

end
