(* ===== verification/Portfolio_Inv.thy ===== *)
theory Portfolio_Inv
  imports Portfolio
begin

text \<open>
  What the portfolio service maintains: the changes its transactions make to the tables of ratings,
  proposals and plans, as a relation with one rule per kind of transaction, and the invariant of
  these tables (versions, recomputable ratings, informed approvals) over it.
\<close>

section \<open>Tables\<close>

definition okeys :: "pf_store \<Rightarrow> (ident \<times> string) list" where
  "okeys s = map (\<lambda>m. (ob_tenant m, ob_idempotency_key m)) (outbox_events s)"

definition rkeys :: "pf_store \<Rightarrow> (ident \<times> ident) list" where
  "rkeys s = map (\<lambda>r. (risk_id r, rk_tenant r)) (risks s)"

definition pf_tabs :: "pf_store \<Rightarrow> _" where
  "pf_tabs s = (okeys s, rkeys s, risk_assessments s, proposals s, plans s, date_iso s)"

definition rating_of ::
  "pf_store \<Rightarrow> risk_assessment_row \<Rightarrow> bool"
where
  "rating_of s a \<longleftrightarrow> risk_factors_ok (rg_factors a) \<and> scoring_policy_ok (rg_policy a) \<and>
     score (rg_factors a) (Some (rg_policy a)) (rg_as_at a) = Inr (rg_score a) \<and> (rg_risk a, rg_tenant a) \<in> set (rkeys s)"

definition overrides :: "string \<Rightarrow> string \<Rightarrow> ident \<Rightarrow> risk_assessment_row \<Rightarrow> risk_assessment_row" where
  "overrides rating reason actor a = a\<lparr>official_rating := Some rating, official_reason := Some reason, official_by := Some actor\<rparr>"

definition override_key :: "risk_assessment_row \<Rightarrow> string" where
  "override_key a = ''risk-override:'' @ ra_assessment_id a"

definition approves_as :: "ident \<Rightarrow> ident \<Rightarrow> string \<Rightarrow> time \<Rightarrow> string \<Rightarrow> proposal_row \<Rightarrow> proposal_row" where
  "approves_as lid by reason now stamp p = p\<lparr>pp_status := ''approved'', pp_plan := Some lid, pp_approved_at := Some now,
     pp_approved_by := Some by, pp_approval_reason := Some reason, pp_accepted := Some (residual_of p by stamp)\<rparr>"

inductive pf_change :: "string list \<Rightarrow> pf_store \<Rightarrow> pf_store \<Rightarrow> bool" for prefixes where
  pc_same: "pf_tabs s' = pf_tabs s \<Longrightarrow> pf_change prefixes s s'"
| pc_risk:
    "rid \<notin> fst ` set (rkeys s) \<Longrightarrow>
     pf_tabs s' = (okeys s, rkeys s @ [(rid, tenant)], risk_assessments s, proposals s, plans s, date_iso s) \<Longrightarrow> pf_change prefixes s s'"
| pc_assessed:
    "\<not> has_key ra_assessment_id (ra_assessment_id a) (risk_assessments s) \<Longrightarrow> rg_version a = next_assessment_version (rg_risk a) s \<Longrightarrow>
     rating_of s a \<Longrightarrow> official_rating a = None \<Longrightarrow> official_reason a = None \<Longrightarrow> official_by a = None \<Longrightarrow>
     pf_tabs s' = (okeys s @ [k], rkeys s, risk_assessments s @ [a], proposals s, plans s, date_iso s) \<Longrightarrow> pf_change prefixes s s'"
| pc_overridden:
    "\<not> portfolio_automated prefixes actor \<Longrightarrow> a \<in> set (risk_assessments s) \<Longrightarrow> (rg_risk a, tenant) \<in> set (rkeys s) \<Longrightarrow>
     (tenant, override_key a) \<notin> set (okeys s) \<Longrightarrow>
     pf_tabs s' = (okeys s @ [(tenant, override_key a)], rkeys s,
       put ra_assessment_id (overrides rating reason actor a) (risk_assessments s), proposals s, plans s, date_iso s) \<Longrightarrow>
     pf_change prefixes s s'"
| pc_proposed:
    "cs \<noteq> [] \<Longrightarrow> list_all candidate_ok cs \<Longrightarrow> capacity_policy_ok cap \<Longrightarrow>
     p = new_proposal pid tenant name (next_proposal_version tenant name s) scenario cap (recommend (date_iso s) cs cap) by \<Longrightarrow>
     \<not> has_key proposal_id pid (proposals s) \<Longrightarrow>
     pf_tabs s' = (okeys s @ [k], rkeys s, risk_assessments s, proposals s @ [p], plans s, date_iso s) \<Longrightarrow> pf_change prefixes s s'"
| pc_approved:
    "\<not> portfolio_automated prefixes by \<Longrightarrow> p \<in> set (proposals s) \<Longrightarrow> pp_status p = ''proposed'' \<Longrightarrow>
     pp_planned_days p \<le> pp_plannable_days p \<Longrightarrow> \<not> has_key plan_id lid (plans s) \<Longrightarrow>
     pf_tabs s' = (okeys s @ [k], rkeys s, risk_assessments s, put proposal_id (approves_as lid by reason t2 stamp p) (proposals s),
       plans s @ [new_plan lid p t1 by], date_iso s) \<Longrightarrow> pf_change prefixes s s'"

section \<open>The transactions make these changes\<close>

lemma pf_fields:
  assumes "store.more s' = store.more (s :: pf_store)"
  shows "pf_tenants s' = pf_tenants s" "risks s' = risks s" "risk_assessments s' = risk_assessments s" "proposals s' = proposals s"
    "plans s' = plans s" "date_iso s' = date_iso s" "rkeys s' = rkeys s"
  using assms by (cases s; cases s'; simp add: rkeys_def)+

lemma pf_draws [simp]:
  fixes s :: pf_store
  shows "risks (snd (new_id x s)) = risks s" "risk_assessments (snd (new_id x s)) = risk_assessments s"
    "proposals (snd (new_id x s)) = proposals s" "plans (snd (new_id x s)) = plans s" "date_iso (snd (new_id x s)) = date_iso s"
    "risks (snd (utc_now s)) = risks s" "risk_assessments (snd (utc_now s)) = risk_assessments s"
    "proposals (snd (utc_now s)) = proposals s" "plans (snd (utc_now s)) = plans s" "date_iso (snd (utc_now s)) = date_iso s"
  by (simp_all add: new_id_def draw_uuid_def utc_now_def)

lemma pf_emit_Inr:
  assumes "pf_emit tenant aid etype data key atype s = Inr s'"
  shows "okeys s' = okeys s @ [(tenant, key)]" "(tenant, key) \<notin> set (okeys s)" "store.more s' = store.more s"
proof -
  obtain e u where u: "append_event e (snd (utc_now (snd (new_event_id s)))) = Inr u"
    "outbox_add tenant atype aid etype data key u = Inr s'"
    using assms unfolding pf_emit_def by (auto simp: Let_def split_beta res_simps)
  have m: "outbox_events u = outbox_events s" "store.more u = store.more s" using append_event_Inr(1)[OF u(1)] by simp_all
  from u(2) obtain r where r: "outbox_events s' = outbox_events u @ [r]"
    "\<not> has_key (\<lambda>r. (ob_tenant r, ob_idempotency_key r)) (tenant, key) (outbox_events u)"
    "ob_tenant r = tenant" "ob_idempotency_key r = key" "store.more s' = store.more u" by (rule outbox_add_Inr)
  from r m show "okeys s' = okeys s @ [(tenant, key)]" "(tenant, key) \<notin> set (okeys s)" "store.more s' = store.more s"
    by (auto simp: okeys_def has_key_def)
qed

lemma put_rkeys: "risk_by_code tenant code s = Some r \<Longrightarrow> risk_id r' = risk_id r \<Longrightarrow> rk_tenant r' = rk_tenant r \<Longrightarrow> 
    distinct (map fst (rkeys s)) \<Longrightarrow> map (\<lambda>r. (risk_id r, rk_tenant r)) (put risk_id r' (risks s)) = rkeys s"
  unfolding rkeys_def
  by (rule map_put_same) (auto simp: risk_by_code_def comp_def distinct_map inj_on_def dest!: find_SomeD)

lemma require_risk_Inr:
  assumes "require_risk tenant code s = Inr r"
  shows "risk_by_code tenant code s = Some r" "r \<in> set (risks s)" "rk_tenant r = tenant" "(risk_id r, tenant) \<in> set (rkeys s)"
  using assms by (auto simp: require_risk_def risk_by_code_def rkeys_def split: option.splits dest!: find_SomeD)

lemma default_policy_ok: "scoring_policy_ok default_scoring_policy"
  by (simp add: unit_range_def len_within_def scoring_policy_ok_def default_scoring_policy_def DEFAULT_RATING_BANDS_def)

lemma assess_risk_change:
  assumes "assess_risk tenant code f by as_at policy s = Inr (a, s')" "risk_factors_ok f"
    "case policy of None \<Rightarrow> True | Some p \<Rightarrow> scoring_policy_ok p" "distinct (map fst (rkeys s))"
  shows "pf_change prefixes s s'"
proof -
  define p where "p = (case policy of None \<Rightarrow> default_scoring_policy | Some p \<Rightarrow> p)"
  define s2 where "s2 = snd (utc_now (snd (new_id ''rsa'' s)))"
  obtain r risk s3 data where r: "score f (Some p) as_at = Inr r" "require_risk tenant code s = Inr risk"
    "a = new_risk_assessment (fst (new_id ''rsa'' s)) tenant (risk_id risk) (next_assessment_version (risk_id risk) s) p f r by as_at
      (fst (utc_now (snd (new_id ''rsa'' s))))"
    "add_risk_assessment a s2 = Inr s3"
    "pf_emit tenant (risk_id risk) ''risk.assessed'' data (''risk-assessed:'' @ fst (new_id ''rsa'' s)) ''risk''
       (s3\<lparr>risks := put risk_id (risk\<lparr>inherent_impact := Some (rf_impact f), inherent_likelihood := Some (rf_likelihood f),
         rk_velocity := Some (rf_velocity f), residual_risk := Some (rs_residual r), rk_confidence := rs_confidence r,
         rk_evidence := rf_evidence_ids f\<rparr>) (risks s3)\<rparr>) = Inr s'"
    using assms(1) unfolding assess_risk_def p_def[symmetric] by (auto simp: Let_def split_beta res_simps s2_def)
  have p: "scoring_policy_ok p" using assms(3) by (cases policy) (simp_all add: p_def default_policy_ok)
  note risk = require_risk_Inr[OF r(2)]
  have s3: "s3 = s2\<lparr>risk_assessments := risk_assessments s2 @ [a]\<rparr>" "\<not> has_key ra_assessment_id (ra_assessment_id a) (risk_assessments s2)"
    using r(4) by (auto simp: add_risk_assessment_def res_simps)
  have same: "risks s2 = risks s" "risk_assessments s2 = risk_assessments s" "proposals s2 = proposals s" "plans s2 = plans s"
    "date_iso s2 = date_iso s" "outbox_events s2 = outbox_events s" by (simp_all add: s2_def)
  note e = pf_emit_Inr[OF r(5)]
  note fs = pf_fields[OF e(3)]
  show ?thesis
  proof (rule pc_assessed[of a s s' "(tenant, ''risk-assessed:'' @ fst (new_id ''rsa'' s))"])
    show "rating_of s a" using r(1,3) p assms(2) risk(4) by (simp add: rating_of_def new_risk_assessment_def)
    show "pf_tabs s' = (okeys s @ [(tenant, ''risk-assessed:'' @ fst (new_id ''rsa'' s))], rkeys s, risk_assessments s @ [a],
        proposals s, plans s, date_iso s)"
      unfolding pf_tabs_def e(1) fs
      by (simp add: s3(1) same okeys_def rkeys_def put_rkeys[OF risk(1) _ _ assms(4), unfolded rkeys_def])
  qed (use s3(2) in \<open>simp_all add: same r(3) new_risk_assessment_def\<close>)
qed

lemma latest_Some: "latest_risk_assessment rid s = Some a \<Longrightarrow> a \<in> set (risk_assessments s) \<and> rg_risk a = rid"
  unfolding latest_risk_assessment_def
  by (auto split: list.splits dest!: arg_cong[of "sort_key _ _" _ set])

lemma set_official_rating_change:
  assumes "set_official_rating prefixes tenant code rating actor reason s = Inr (a', s')"
  shows "pf_change prefixes s s'"
proof -
  obtain risk a data where r: "\<not> portfolio_automated prefixes actor" "require_risk tenant code s = Inr risk"
    "latest_risk_assessment (risk_id risk) s = Some a" "a' = overrides rating reason actor a"
    "pf_emit tenant (risk_id risk) ''risk.rating_overridden'' data (override_key a) ''risk'' (put_risk_assessment a' s) = Inr s'"
    using assms unfolding set_official_rating_def overrides_def override_key_def by (auto simp: Let_def res_simps split: if_splits)
  note a = latest_Some[OF r(3)]
  note e = pf_emit_Inr[OF r(5)]
  note fs = pf_fields[OF e(3)]
  show ?thesis
  proof (rule pc_overridden[of prefixes actor a s tenant s' rating reason])
    show "pf_tabs s' = (okeys s @ [(tenant, override_key a)], rkeys s,
       put ra_assessment_id (overrides rating reason actor a) (risk_assessments s), proposals s, plans s, date_iso s)"
      unfolding pf_tabs_def e(1) fs by (simp add: put_risk_assessment_def okeys_def rkeys_def r(4))
    show "(tenant, override_key a) \<notin> set (okeys s)" using e(2) by (simp add: put_risk_assessment_def okeys_def)
  qed (use r(1) a require_risk_Inr(4)[OF r(2)] in simp_all)
qed

lemma propose_plan_change:
  assumes "propose_plan tenant name cs p by scenario s = Inr (out, s')" "list_all candidate_ok cs" "capacity_policy_ok p"
  shows "pf_change prefixes s s'"
proof -
  define s1 where "s1 = snd (new_id ''plp'' s)"
  define q where "q = new_proposal (fst (new_id ''plp'' s)) tenant name (next_proposal_version tenant name s) scenario p (recommend (date_iso s) cs p) by"
  obtain s2 data where r: "cs \<noteq> []" "add_proposal q s1 = Inr s2"
    "pf_emit tenant (fst (new_id ''plp'' s)) ''plan.proposed'' data (''plan-proposed:'' @ fst (new_id ''plp'' s)) ''plan_proposal'' s2 = Inr s'"
    using assms(1) unfolding propose_plan_def by (auto simp: Let_def split_beta res_simps s1_def q_def)
  have q: "s2 = s1\<lparr>proposals := proposals s1 @ [q]\<rparr>" "\<not> has_key proposal_id (proposal_id q) (proposals s1)"
    using r(2) by (auto simp: add_proposal_def res_simps)
  have same: "risks s1 = risks s" "risk_assessments s1 = risk_assessments s" "proposals s1 = proposals s" "plans s1 = plans s"
    "date_iso s1 = date_iso s" "outbox_events s1 = outbox_events s" by (simp_all add: s1_def)
  note e = pf_emit_Inr[OF r(3)]
  note fs = pf_fields[OF e(3)]
  show ?thesis
  proof (rule pc_proposed[OF r(1) assms(2,3) q_def])
    show "\<not> has_key proposal_id (fst (new_id ''plp'' s)) (proposals s)" using q(2) by (simp add: same q_def new_proposal_def)
    show "pf_tabs s' = (okeys s @ [(tenant, ''plan-proposed:'' @ fst (new_id ''plp'' s))], rkeys s, risk_assessments s, proposals s @ [q],
        plans s, date_iso s)"
      unfolding pf_tabs_def e(1) fs by (simp add: q(1) same okeys_def rkeys_def)
  qed
qed

lemma approve_plan_change:
  assumes "approve_plan prefixes tenant pid by reason s = Inr (out, s')"
  shows "pf_change prefixes s s'"
proof -
  obtain p where p: "\<not> portfolio_automated prefixes by" "get_proposal tenant pid s = Some p"
    using assms unfolding approve_plan_def by (auto simp: res_simps split: if_splits)
  have mem: "p \<in> set (proposals s)" "proposal_id p = pid" using find_SomeD[OF p(2)[unfolded get_proposal_def]] by simp_all
  show ?thesis
  proof (cases "pp_status p = ''approved''")
    case True
    then have "s' = s" using assms p by (simp add: approve_plan_def)
    then show ?thesis by (simp add: pc_same)
  next
    case False
    define s2 where "s2 = snd (utc_now (snd (new_id ''pln'' s)))"
    define lid t1 where "lid = fst (new_id ''pln'' s)" and "t1 = fst (utc_now (snd (new_id ''pln'' s)))"
    obtain s3 t2 t3 data where r: "pp_status p = ''proposed''" "pp_planned_days p \<le> pp_plannable_days p"
      "add_plan (new_plan lid p t1 by) s2 = Inr s3"
      "pf_emit tenant pid ''plan.approved'' data (''plan-approved:'' @ pid) ''plan_proposal''
        (put_proposal (approves_as lid by reason t2 (isoformat s t3) p) (snd (utc_now (snd (utc_now s3))))) = Inr s'"
      using assms p False unfolding approve_plan_def approves_as_def
      by (auto simp: Let_def split_beta res_simps s2_def lid_def t1_def not_less split: if_splits)
    have s3: "s3 = s2\<lparr>plans := plans s2 @ [new_plan lid p t1 by]\<rparr>" "\<not> has_key plan_id lid (plans s2)"
      using r(3) by (auto simp: add_plan_def res_simps new_plan_def)
    have same: "risks s2 = risks s" "risk_assessments s2 = risk_assessments s" "proposals s2 = proposals s" "plans s2 = plans s"
      "date_iso s2 = date_iso s" "outbox_events s2 = outbox_events s" by (simp_all add: s2_def)
    note e = pf_emit_Inr[OF r(4)]
    note fs = pf_fields[OF e(3)]
    show ?thesis
    proof (rule pc_approved[OF p(1) mem(1) r(1,2)])
      show "\<not> has_key plan_id lid (plans s)" using s3(2) by (simp add: same)
      show "pf_tabs s' = (okeys s @ [(tenant, ''plan-approved:'' @ pid)], rkeys s, risk_assessments s,
          put proposal_id (approves_as lid by reason t2 (isoformat s t3) p) (proposals s), plans s @ [new_plan lid p t1 by], date_iso s)"
        unfolding pf_tabs_def e(1) fs by (simp add: put_proposal_def s3(1) same okeys_def rkeys_def)
    qed
  qed
qed

lemma register_entity_change: "register_entity tenant etype name crit ref attrs profile s = Inr (i, s') \<Longrightarrow> pf_tabs s' = pf_tabs s"
  unfolding register_entity_def
  by (auto simp: Let_def split_beta res_simps add_entity_def pf_tabs_def okeys_def rkeys_def split: option.splits if_splits)

lemma record_coverage_change:
  "record_coverage tenant code source obtained by scope ref engagement entity s = Inr (i, s') \<Longrightarrow> pf_tabs s' = pf_tabs s"
  unfolding record_coverage_def
  by (auto simp: Let_def split_beta res_simps add_coverage_def pf_tabs_def okeys_def rkeys_def split: if_splits)

lemma register_risk_change:
  assumes "register_risk tenant code title description s = Inr (i, s')" "distinct (map fst (rkeys s))"
  shows "pf_change prefixes s s'"
proof (cases "risk_by_code tenant code s")
  case None
  then obtain r where "add_risk r (snd (new_id ''rsk'' s)) = Inr s'"
    using assms(1) unfolding register_risk_def by (auto simp: Let_def split_beta res_simps)
  then have "\<not> has_key risk_id (risk_id r) (risks s)"
    "s' = (snd (new_id ''rsk'' s))\<lparr>risks := risks (snd (new_id ''rsk'' s)) @ [r]\<rparr>"
    by (auto simp: add_risk_def res_simps)
  then show ?thesis
    by (intro pc_risk[of "risk_id r" s s' "rk_tenant r"]) (auto simp: pf_tabs_def okeys_def rkeys_def has_key_def)
next
  case (Some r)
  define r' where "r' = (if truthy description then r\<lparr>rk_title := title, rk_description := description\<rparr> else r\<lparr>rk_title := title\<rparr>)"
  have "s' = s\<lparr>risks := put risk_id r' (risks s)\<rparr>"
    using assms(1) Some unfolding register_risk_def by (auto simp: Let_def r'_def)
  moreover have "risk_id r' = risk_id r" "rk_tenant r' = rk_tenant r" by (simp_all add: r'_def)
  ultimately show ?thesis
    using put_rkeys[OF Some _ _ assms(2), of r'] by (intro pc_same) (simp add: pf_tabs_def okeys_def rkeys_def)
qed

lemma map_sum_Inr: "map_sum id snd m = Inr s' \<longleftrightarrow> (\<exists>x. m = Inr (x, s'))"
  by (cases m) auto

lemma pf_step_change:
  assumes "pf_step prefixes op s = Inr s'" "distinct (map fst (rkeys s))"
  shows "pf_change prefixes s s'"
proof (cases op)
  case RegisterEntity then show ?thesis using assms(1) by (auto simp: map_sum_Inr intro: pc_same register_entity_change)
next
  case RegisterRisk then show ?thesis using assms by (auto simp: map_sum_Inr intro: register_risk_change)
next
  case RecordCoverage then show ?thesis using assms(1) by (auto simp: map_sum_Inr intro: pc_same record_coverage_change)
next
  case AssessRisk then show ?thesis using assms by (auto simp: map_sum_Inr split: if_splits intro: assess_risk_change)
next
  case SetOfficialRating then show ?thesis using assms(1) by (auto simp: map_sum_Inr intro: set_official_rating_change)
next
  case ProposePlan then show ?thesis using assms(1) by (auto simp: map_sum_Inr split: if_splits intro: propose_plan_change)
next
  case ApprovePlan then show ?thesis using assms(1) by (auto simp: map_sum_Inr intro: approve_plan_change)
qed

section \<open>The invariant\<close>

definition override_ok :: "string list \<Rightarrow> pf_store \<Rightarrow> risk_assessment_row \<Rightarrow> bool" where
  "override_ok prefixes s a \<longleftrightarrow>
     (case official_by a of
        None \<Rightarrow> official_rating a = None \<and> official_reason a = None
      | Some who \<Rightarrow> \<not> portfolio_automated prefixes who \<and> official_rating a \<noteq> None \<and> official_reason a \<noteq> None \<and>
          (rg_tenant a, override_key a) \<in> set (okeys s))"

definition ratings_ok :: "string list \<Rightarrow> pf_store \<Rightarrow> bool" where
  "ratings_ok prefixes s \<longleftrightarrow>
     distinct (map fst (rkeys s)) \<and> distinct (map ra_assessment_id (risk_assessments s)) \<and>
     (\<forall>rid. \<exists>n. map rg_version (filter (\<lambda>a. rg_risk a = rid) (risk_assessments s)) = [Suc 0..<Suc n]) \<and>
     (\<forall>a \<in> set (risk_assessments s). rating_of s a \<and> override_ok prefixes s a)"

definition approval_of :: "string list \<Rightarrow> plan_row \<Rightarrow> proposal_row \<Rightarrow> bool" where
  "approval_of prefixes l p \<longleftrightarrow>
     pp_plan p = Some (plan_id l) \<and> pp_approved_by p = Some (ap_approved_by l) \<and> \<not> portfolio_automated prefixes (ap_approved_by l) \<and>
     pp_approved_at p \<noteq> None \<and> pp_approval_reason p \<noteq> None \<and> pp_planned_days p \<le> pp_plannable_days p \<and>
     (\<exists>stamp. pp_accepted p = Some (residual_of p (ap_approved_by l) stamp)) \<and>
     (\<exists>now. l = new_plan (plan_id l) p now (ap_approved_by l))"

definition proposed_from :: "(date \<Rightarrow> string) \<Rightarrow> proposal_row \<Rightarrow> candidate list \<Rightarrow> bool" where
  "proposed_from dtext p cs \<longleftrightarrow>
     (let r = recommend dtext cs (pp_policy p) in
      cs \<noteq> [] \<and> list_all candidate_ok cs \<and> capacity_policy_ok (pp_policy p) \<and>
      pp_planned p = pr_planned r \<and> pp_excluded p = pr_excluded r \<and> pp_blind_spots p = pr_blind_spots r \<and>
      pp_planned_days p = pr_planned_days r \<and> pp_plannable_days p = pr_plannable_days r \<and>
      pp_uncovered_priority p = pr_uncovered_priority r)"

definition proposal_ok :: "string list \<Rightarrow> pf_store \<Rightarrow> proposal_row \<Rightarrow> bool" where
  "proposal_ok prefixes s p \<longleftrightarrow>
     (\<exists>cs. proposed_from (date_iso s) p cs) \<and>
     (pp_status p = ''proposed'' \<and> pp_plan p = None \<and> pp_accepted p = None \<or>
      pp_status p = ''approved'' \<and> (\<exists>l \<in> set (plans s). approval_of prefixes l p))"

definition plans_ok :: "string list \<Rightarrow> pf_store \<Rightarrow> bool" where
  "plans_ok prefixes s \<longleftrightarrow>
     distinct (map proposal_id (proposals s)) \<and> distinct (map plan_id (plans s)) \<and>
     (\<forall>p \<in> set (proposals s). proposal_ok prefixes s p) \<and>
     (\<forall>l \<in> set (plans s). \<exists>p \<in> set (proposals s). pp_status p = ''approved'' \<and> approval_of prefixes l p)"

definition pf_inv :: "string list \<Rightarrow> pf_store \<Rightarrow> bool" where
  "pf_inv prefixes s \<longleftrightarrow> ratings_ok prefixes s \<and> plans_ok prefixes s"

lemma ratings_ok_parts:
  assumes "ratings_ok prefixes s"
  shows "distinct (map fst (rkeys s))" "distinct (map ra_assessment_id (risk_assessments s))"
    "\<And>rid. \<exists>n. map rg_version (filter (\<lambda>a. rg_risk a = rid) (risk_assessments s)) = [Suc 0..<Suc n]"
    "\<And>a. a \<in> set (risk_assessments s) \<Longrightarrow> rating_of s a" "\<And>a. a \<in> set (risk_assessments s) \<Longrightarrow> override_ok prefixes s a"
  using assms by (simp_all add: ratings_ok_def)

lemma rating_of_more: "set (rkeys s) \<subseteq> set (rkeys s') \<Longrightarrow> rating_of s a \<Longrightarrow> rating_of s' a"
  by (auto simp: rating_of_def)

lemma override_ok_more: "set (okeys s) \<subseteq> set (okeys s') \<Longrightarrow> override_ok prefixes s a \<Longrightarrow> override_ok prefixes s' a"
  by (auto simp: override_ok_def split: option.splits)

lemma ratings_ok_same:
  assumes "ratings_ok prefixes s" "set (okeys s) \<subseteq> set (okeys s')" "rkeys s' = rkeys s" "risk_assessments s' = risk_assessments s"
  shows "ratings_ok prefixes s'"
  using assms unfolding ratings_ok_def by (metis rating_of_more override_ok_more order_refl)

lemma overrides_same [simp]:
  "ra_assessment_id (overrides rating reason actor a) = ra_assessment_id a" "rg_risk (overrides rating reason actor a) = rg_risk a"
  "rg_version (overrides rating reason actor a) = rg_version a" "rg_tenant (overrides rating reason actor a) = rg_tenant a"
  "override_key (overrides rating reason actor a) = override_key a" "rating_of s (overrides rating reason actor a) = rating_of s a"
  by (simp_all add: overrides_def override_key_def rating_of_def)

lemma filter_put:
  assumes "\<And>x. x \<in> set rows \<Longrightarrow> key x = key r \<Longrightarrow> f x = f r \<and> g x = g r"
  shows "map g (filter (\<lambda>x. f x = i) (put key r rows)) = map g (filter (\<lambda>x. f x = i) rows)"
  using assms by (induction rows) (auto simp: put_def)

lemma ratings_ok_change:
  assumes "pf_change prefixes s s'" "ratings_ok prefixes s"
  shows "ratings_ok prefixes s'"
  using assms(1)
proof (cases rule: pf_change.cases)
  case pc_same then show ?thesis by (intro ratings_ok_same[OF assms(2)]) (simp_all add: pf_tabs_def)
next
  case (pc_proposed cs cap p pid tenant name scenario by' k)
  then show ?thesis by (intro ratings_ok_same[OF assms(2)]) (auto simp: pf_tabs_def)
next
  case (pc_approved by' p lid k reason t2 stamp t1)
  then show ?thesis by (intro ratings_ok_same[OF assms(2)]) (auto simp: pf_tabs_def)
next
  case (pc_risk rid tenant)
  then have t: "okeys s' = okeys s" "rkeys s' = rkeys s @ [(rid, tenant)]" "risk_assessments s' = risk_assessments s"
    by (simp_all add: pf_tabs_def)
  note r = ratings_ok_parts[OF assms(2)]
  have "distinct (map fst (rkeys s'))" using r(1) pc_risk(1) by (simp add: t(2))
  moreover have "rating_of s' a \<and> override_ok prefixes s' a" if "a \<in> set (risk_assessments s)" for a
    using rating_of_more[of s s' a] override_ok_more[of s s' prefixes a] r(4,5)[OF that] by (simp add: t(1,2) subset_insertI)
  ultimately show ?thesis using r(2,3) by (simp add: ratings_ok_def t(3))
next
  case (pc_assessed a k)
  then have t: "okeys s' = okeys s @ [k]" "rkeys s' = rkeys s" "risk_assessments s' = risk_assessments s @ [a]"
    by (simp_all add: pf_tabs_def)
  note r = ratings_ok_parts[OF assms(2)]
  have "\<exists>n. map rg_version (filter (\<lambda>x. rg_risk x = rid) (risk_assessments s')) = [Suc 0..<Suc n]" for rid
  proof -
    obtain n where n: "map rg_version (filter (\<lambda>x. rg_risk x = rid) (risk_assessments s)) = [Suc 0..<Suc n]" using r(3) by blast
    show ?thesis
    proof (cases "rg_risk a = rid")
      case True
      then have "rg_version a = Suc n" using pc_assessed(2) n foldr_max_upt[of n] by (simp add: next_assessment_version_def)
      then show ?thesis using n True by (intro exI[of _ "Suc n"]) (simp add: t(3) del: upt_Suc, simp)
    next
      case False
      then have "filter (\<lambda>x. rg_risk x = rid) (risk_assessments s') = filter (\<lambda>x. rg_risk x = rid) (risk_assessments s)" by (simp add: t(3))
      then show ?thesis using n by (metis (no_types, lifting))
    qed
  qed
  moreover have "rating_of s' x \<and> override_ok prefixes s' x" if x: "x \<in> set (risk_assessments s')" for x
  proof (cases "x = a")
    case True
    have "rating_of s' a" by (rule rating_of_more[OF _ pc_assessed(3)]) (simp add: t(2))
    then show ?thesis using True pc_assessed(4-6) by (simp add: override_ok_def)
  next
    case False
    then have "x \<in> set (risk_assessments s)" using x by (simp add: t(3))
    then show ?thesis using rating_of_more[of s s' x] override_ok_more[of s s' prefixes x] r(4,5) by (simp add: t(1,2) subset_insertI)
  qed
  moreover have "distinct (map ra_assessment_id (risk_assessments s'))"
    using r(2) pc_assessed(1) by (auto simp: t(3) has_key_def)
  ultimately show ?thesis using r(1) by (simp add: ratings_ok_def t(2))
next
  case (pc_overridden actor a tenant rating reason)
  let ?a = "overrides rating reason actor a"
  have t: "okeys s' = okeys s @ [(tenant, override_key a)]" "rkeys s' = rkeys s" "risk_assessments s' = put ra_assessment_id ?a (risk_assessments s)"
    using pc_overridden(5) by (simp_all add: pf_tabs_def)
  note r = ratings_ok_parts[OF assms(2)]
  have same: "x = a" if "x \<in> set (risk_assessments s)" "ra_assessment_id x = ra_assessment_id a" for x
    using r(2) pc_overridden(2) that by (auto simp: distinct_map inj_on_def)
  have "(rg_risk a, rg_tenant a) \<in> set (rkeys s)" using r(4)[OF pc_overridden(2)] by (simp add: rating_of_def)
  then have tenant: "rg_tenant a = tenant" by (rule eq_key_imp_eq_value[OF r(1) _ pc_overridden(3)])
  have versions: "map rg_version (filter (\<lambda>x. rg_risk x = rid) (risk_assessments s')) =
      map rg_version (filter (\<lambda>x. rg_risk x = rid) (risk_assessments s))" for rid
    unfolding t(3) by (rule filter_put) (use same in auto)
  have "rating_of s' x \<and> override_ok prefixes s' x" if x: "x \<in> set (risk_assessments s')" for x
  proof -
    from x consider "x = ?a" | "x \<in> set (risk_assessments s)" by (auto simp: t(3) put_def split: if_splits)
    then show ?thesis
    proof cases
      case 1
      have "rating_of s' a" by (rule rating_of_more[OF _ r(4)[OF pc_overridden(2)]]) (simp add: t(2))
      moreover have "override_ok prefixes s' ?a"
        using pc_overridden(1) tenant by (simp add: override_ok_def t(1) override_key_def overrides_def)
      ultimately show ?thesis using 1 by simp
    next
      case 2
      then show ?thesis using rating_of_more[of s s' x] override_ok_more[of s s' prefixes x] r(4,5) by (simp add: t(1,2) subset_insertI)
    qed
  qed
  moreover have "distinct (map ra_assessment_id (risk_assessments s'))" using r(2) by (simp add: t(3) map_key_put)
  ultimately show ?thesis using r(1,3) by (simp add: ratings_ok_def t(2) versions)
qed

lemma plans_ok_parts:
  assumes "plans_ok prefixes s"
  shows "distinct (map proposal_id (proposals s))" "distinct (map plan_id (plans s))"
    "\<And>p. p \<in> set (proposals s) \<Longrightarrow> proposal_ok prefixes s p"
    "\<And>l. l \<in> set (plans s) \<Longrightarrow> \<exists>p \<in> set (proposals s). pp_status p = ''approved'' \<and> approval_of prefixes l p"
  using assms by (simp_all add: plans_ok_def)

lemma plans_ok_same:
  assumes "plans_ok prefixes s" "proposals s' = proposals s" "plans s' = plans s" "date_iso s' = date_iso s"
  shows "plans_ok prefixes s'"
  using assms by (simp add: plans_ok_def proposal_ok_def)

lemma proposal_ok_more:
  "proposal_ok prefixes s p \<Longrightarrow> date_iso s' = date_iso s \<Longrightarrow> set (plans s) \<subseteq> set (plans s') \<Longrightarrow> proposal_ok prefixes s' p"
  unfolding proposal_ok_def by auto

lemma approves_as_ok:
  assumes "proposed_from dtext p cs" "\<not> portfolio_automated prefixes by" "pp_planned_days p \<le> pp_plannable_days p"
  shows "proposed_from dtext (approves_as lid by reason now stamp p) cs"
    "approval_of prefixes (new_plan lid p t1 by) (approves_as lid by reason now stamp p)"
proof -
  show "proposed_from dtext (approves_as lid by reason now stamp p) cs"
    using assms(1) by (simp add: proposed_from_def approves_as_def)
  have "residual_of (approves_as lid by reason now stamp p) by stamp = residual_of p by stamp"
    by (simp add: residual_of_def approves_as_def)
  then show "approval_of prefixes (new_plan lid p t1 by) (approves_as lid by reason now stamp p)"
    using assms(2,3) unfolding approval_of_def
    by (intro conjI exI[of _ stamp] exI[of _ t1]) (simp_all add: approves_as_def new_plan_def)
qed

lemma plans_ok_change:
  assumes "pf_change prefixes s s'" "plans_ok prefixes s"
  shows "plans_ok prefixes s'"
  using assms(1)
proof (cases rule: pf_change.cases)
  case pc_same then show ?thesis by (intro plans_ok_same[OF assms(2)]) (simp_all add: pf_tabs_def)
next
  case (pc_risk rid tenant)
  then show ?thesis by (intro plans_ok_same[OF assms(2)]) (auto simp: pf_tabs_def)
next
  case (pc_assessed a k)
  then show ?thesis by (intro plans_ok_same[OF assms(2)]) (auto simp: pf_tabs_def)
next
  case (pc_overridden actor a tenant rating reason)
  then show ?thesis by (intro plans_ok_same[OF assms(2)]) (auto simp: pf_tabs_def)
next
  case (pc_proposed cs cap p pid tenant name scenario by' k)
  then have t: "proposals s' = proposals s @ [p]" "plans s' = plans s" "date_iso s' = date_iso s" by (simp_all add: pf_tabs_def)
  note r = plans_ok_parts[OF assms(2)]
  have "proposed_from (date_iso s) p cs"
    using pc_proposed(1-3) unfolding pc_proposed(4) by (simp add: proposed_from_def new_proposal_def Let_def)
  then have "proposal_ok prefixes s' p"
    unfolding proposal_ok_def t(3) by (intro conjI disjI1 exI[of _ cs]) (simp_all add: pc_proposed(4) new_proposal_def)
  moreover have "proposal_ok prefixes s' q" if "q \<in> set (proposals s)" for q
    by (rule proposal_ok_more[OF r(3)[OF that] t(3)]) (simp add: t(2))
  moreover have "distinct (map proposal_id (proposals s'))"
    using r(1) pc_proposed(4,5) by (auto simp: t(1) has_key_def new_proposal_def)
  ultimately show ?thesis using r(2,4) by (auto simp: plans_ok_def t(1,2))
next
  case (pc_approved by' p lid k reason t2 stamp t1)
  let ?p = "approves_as lid by' reason t2 stamp p" and ?l = "new_plan lid p t1 by'"
  have t: "proposals s' = put proposal_id ?p (proposals s)" "plans s' = plans s @ [?l]" "date_iso s' = date_iso s"
    using pc_approved(6) by (simp_all add: pf_tabs_def)
  have l: "plan_id ?l = lid" "proposal_id ?p = proposal_id p" "pp_status ?p = ''approved''" by (simp_all add: new_plan_def approves_as_def)
  note r = plans_ok_parts[OF assms(2)]
  obtain cs where cs: "proposed_from (date_iso s) p cs" using r(3)[OF pc_approved(2)] by (auto simp: proposal_ok_def)
  note ok = approves_as_ok[OF cs pc_approved(1,4)]
  have in_p: "x \<in> set (proposals s') \<longleftrightarrow> x = ?p \<or> (x \<in> set (proposals s) \<and> proposal_id x \<noteq> proposal_id p)" for x
    using pc_approved(2) by (auto simp: t(1) in_set_put[OF r(1)] l(2) has_key_def)
  have "proposal_ok prefixes s' ?p" unfolding proposal_ok_def t(3)
    by (intro conjI disjI2 exI[of _ cs] bexI[of _ ?l]) (simp_all add: ok l t(2))
  moreover have "proposal_ok prefixes s' q" if "q \<in> set (proposals s)" for q
    by (rule proposal_ok_more[OF r(3)[OF that] t(3)]) (auto simp: t(2))
  moreover have "\<exists>q \<in> set (proposals s'). pp_status q = ''approved'' \<and> approval_of prefixes x q" if "x \<in> set (plans s')" for x
  proof (cases "x = ?l")
    case True
    then show ?thesis using ok(2) l(3) in_p by blast
  next
    case False
    then have "x \<in> set (plans s)" using that by (auto simp: t(2))
    from r(4)[OF this] obtain q where q: "q \<in> set (proposals s)" "pp_status q = ''approved''" "approval_of prefixes x q" by blast
    have "proposal_id q \<noteq> proposal_id p"
    proof
      assume "proposal_id q = proposal_id p"
      then have "q = p" using r(1) q(1) pc_approved(2) by (auto simp: distinct_map inj_on_def)
      then show False using q(2) pc_approved(3) by simp
    qed
    then show ?thesis using q in_p by blast
  qed
  moreover have "distinct (map plan_id (plans s'))" using r(2) pc_approved(5) l(1) by (auto simp: t(2) has_key_def)
  moreover have "distinct (map proposal_id (proposals s'))" using r(1) by (simp add: t(1) map_key_put)
  ultimately show ?thesis using in_p by (auto simp: plans_ok_def)
qed

section \<open>Reachable states\<close>

lemma pf_inv_init: "pf_init s \<Longrightarrow> pf_inv prefixes s"
  by (auto simp: pf_init_def pf_inv_def ratings_ok_def plans_ok_def rkeys_def intro!: exI[of _ 0])

lemma pf_inv_step: "pf_inv prefixes s \<Longrightarrow> pf_step prefixes op s = Inr s' \<Longrightarrow> pf_inv prefixes s'"
  unfolding pf_inv_def using pf_step_change ratings_ok_parts(1) ratings_ok_change plans_ok_change by meson

interpretation pf: guarded_machine pf_init "pf_step prefixes" "pf_inv prefixes" for prefixes
  by unfold_locales (auto intro: pf_inv_init pf_inv_step)

lemma pf_reach_parts:
  assumes "pf_reach prefixes s"
  shows "ratings_ok prefixes s" "plans_ok prefixes s"
  using pf.reachable_inv[of prefixes s] assms by (simp_all add: pf_reach_def pf_inv_def)

lemma pf_reach_change: "pf_reach prefixes s \<Longrightarrow> pf_step prefixes op s = Inr s' \<Longrightarrow> pf_change prefixes s s'"
  by (rule pf_step_change[OF _ ratings_ok_parts(1)[OF pf_reach_parts(1)]])

end
