(* ===== verification/Portfolio_Props.thy ===== *)
theory Portfolio_Props
  imports Portfolio_Inv
begin

text \<open>
  What the portfolio service guarantees in every state it can reach: ratings that recompute and keep
  their history, and plans approved by people who were shown what they left out.
\<close>

section \<open>Views of the rows\<close>

text \<open>The computed part of a rating and the recommended part of a proposal.\<close>

definition computed :: "risk_assessment_row \<Rightarrow> risk_assessment_row" where
  "computed a = a\<lparr>official_rating := None, official_reason := None, official_by := None\<rparr>"

definition recommended :: "proposal_row \<Rightarrow> proposal_row" where
  "recommended p = p\<lparr>pp_status := ''proposed'', pp_plan := None, pp_approved_at := None, pp_approved_by := None,
     pp_approval_reason := None, pp_accepted := None\<rparr>"

lemma computed_overrides [simp]: "computed (overrides rating reason actor a) = computed a"
  by (simp add: computed_def overrides_def)

lemma recommended_approves [simp]: "recommended (approves_as lid by reason now stamp p) = recommended p"
  by (simp add: recommended_def approves_as_def)

lemma map_computed_put:
  assumes "distinct (map ra_assessment_id rows)" "a \<in> set rows" "computed b = computed a" "ra_assessment_id b = ra_assessment_id a"
  shows "map computed (put ra_assessment_id b rows) = map computed rows"
  by (rule map_put_same) (use assms in \<open>auto simp: distinct_map inj_on_def\<close>)

lemma change_ratings:
  assumes "pf_change prefixes s s'" "ratings_ok prefixes s"
  shows "\<exists>new. map computed (risk_assessments s') = map computed (risk_assessments s) @ new"
  using assms(1)
proof (cases rule: pf_change.cases)
  case (pc_assessed a k)
  then show ?thesis by (auto simp: pf_tabs_def)
next
  case (pc_overridden actor a tenant rating reason)
  have "map computed (risk_assessments s') = map computed (risk_assessments s)"
    using pc_overridden(5) map_computed_put[OF ratings_ok_parts(2)[OF assms(2)] pc_overridden(2)] by (simp add: pf_tabs_def)
  then show ?thesis by simp
qed (auto simp: pf_tabs_def)

lemma history_versions:
  assumes "ratings_ok prefixes s"
  shows "assessment_history rid s = filter (\<lambda>a. rg_risk a = rid) (risk_assessments s)"
    "map rg_version (assessment_history rid s) = [Suc 0..<Suc (length (assessment_history rid s))]"
proof -
  obtain n where n: "map rg_version (filter (\<lambda>a. rg_risk a = rid) (risk_assessments s)) = [Suc 0..<Suc n]"
    using ratings_ok_parts(3)[OF assms] by blast
  then have "sorted (map rg_version (filter (\<lambda>a. rg_risk a = rid) (risk_assessments s)))" by (simp only: sorted_upt)
  then show h: "assessment_history rid s = filter (\<lambda>a. rg_risk a = rid) (risk_assessments s)"
    unfolding assessment_history_def by (rule sort_key_id_if_sorted)
  have "length (filter (\<lambda>a. rg_risk a = rid) (risk_assessments s)) = n"
    using arg_cong[OF n, of length] by (simp del: upt_Suc)
  with n show "map rg_version (assessment_history rid s) = [Suc 0..<Suc (length (assessment_history rid s))]" by (simp only: h)
qed

lemma latest_newest:
  assumes "latest_risk_assessment rid s = Some a" "x \<in> set (risk_assessments s)" "rg_risk x = rid"
  shows "rg_version x \<le> rg_version a"
proof -
  let ?f = "\<lambda>a. - int (rg_version a)" and ?xs = "filter (\<lambda>a. rg_risk a = rid) (risk_assessments s)"
  obtain ys where ys: "sort_key ?f ?xs = a # ys"
    using assms(1) unfolding latest_risk_assessment_def by (auto split: list.splits)
  have "sorted (map ?f (a # ys))" using sorted_sort_key[of ?f ?xs] unfolding ys .
  moreover have "x \<in> set (a # ys)" using assms(2,3) arg_cong[OF ys, of set] by auto
  ultimately show ?thesis by auto
qed

section \<open>Properties\<close>

text \<open>
  C17. Ratings are history: a transaction of the service never removes or alters the computed part of
  an assessment, it only appends one; in every reachable state the versions of a risk are 1, 2, ...,
  the latest has the highest, every stored score is what its stored factors, policy and date compute,
  and whoever set a rating aside is not an automated actor and left a reason.\<close>

theorem ratings_history:
  assumes "pf_reach prefixes s" "pf_step prefixes op s = Inr s'"
  shows "(\<exists>new. map computed (risk_assessments s') = map computed (risk_assessments s) @ new) \<and>
     (\<forall>rid. map rg_version (assessment_history rid s) = [Suc 0..<Suc (length (assessment_history rid s))]) \<and>
     (\<forall>rid a x. latest_risk_assessment rid s = Some a \<longrightarrow> x \<in> set (assessment_history rid s) \<longrightarrow> rg_version x \<le> rg_version a) \<and>
     (\<forall>a \<in> set (risk_assessments s). score (rg_factors a) (Some (rg_policy a)) (rg_as_at a) = Inr (rg_score a) \<and>
        (case official_by a of None \<Rightarrow> official_rating a = None
         | Some who \<Rightarrow> \<not> portfolio_automated prefixes who \<and> official_reason a \<noteq> None))"
proof -
  note r = pf_reach_parts(1)[OF assms(1)]
  have "\<forall>rid a x. latest_risk_assessment rid s = Some a \<longrightarrow> x \<in> set (assessment_history rid s) \<longrightarrow> rg_version x \<le> rg_version a"
    unfolding history_versions(1)[OF r] using latest_newest by auto
  moreover have "score (rg_factors a) (Some (rg_policy a)) (rg_as_at a) = Inr (rg_score a) \<and>
      (case official_by a of None \<Rightarrow> official_rating a = None
       | Some who \<Rightarrow> \<not> portfolio_automated prefixes who \<and> official_reason a \<noteq> None)" if "a \<in> set (risk_assessments s)" for a
    using ratings_ok_parts(4,5)[OF r that] by (auto simp: rating_of_def override_ok_def split: option.splits)
  ultimately show ?thesis using change_ratings[OF pf_reach_change[OF assms] r] history_versions(2)[OF r] by blast
qed

text \<open>
  C20. An override is final for its assessment: once a rating was set aside, setting it aside again -
  by whomever, with whatever rating - fails on the outbox key, which names the assessment only, until
  the risk is assessed anew.\<close>

theorem rating_override_once:
  assumes "pf_reach prefixes s" "require_risk tenant code s = Inr risk" "latest_risk_assessment (risk_id risk) s = Some a"
    "official_by a \<noteq> None" "\<not> portfolio_automated prefixes actor"
  shows "set_official_rating prefixes tenant code rating actor reason s = Inl IntegrityError"
proof -
  note r = ratings_ok_parts[OF pf_reach_parts(1)[OF assms(1)]]
  have a: "a \<in> set (risk_assessments s)" "rg_risk a = risk_id risk" using latest_Some[OF assms(3)] by simp_all
  have "(risk_id risk, rg_tenant a) \<in> set (rkeys s)" using r(4)[OF a(1)] by (simp add: rating_of_def a(2))
  then have tenant: "rg_tenant a = tenant" by (rule eq_key_imp_eq_value[OF r(1) _ require_risk_Inr(4)[OF assms(2)]])
  have key: "(tenant, override_key a) \<in> set (okeys s)"
    using r(5)[OF a(1)] assms(4) by (auto simp: override_ok_def tenant split: option.splits)
  have emit: "pf_emit tenant i etype data (override_key a) atype u = Inl IntegrityError" if "okeys u = okeys s" for i etype data atype u
  proof (cases "pf_emit tenant i etype data (override_key a) atype u")
    case (Inl e)
    then show ?thesis
      by (auto simp: pf_emit_def Let_def split_beta bind_res_eq_Inl append_event_def outbox_add_def split: if_splits)
  next
    case (Inr u')
    from pf_emit_Inr(2)[OF Inr] show ?thesis using key that by simp
  qed
  have "okeys (put_risk_assessment b s) = okeys s" for b by (simp add: okeys_def put_risk_assessment_def)
  then show ?thesis
    using assms(2,3,5) emit by (simp add: set_official_rating_def override_key_def Let_def)
qed

text \<open>
  Where the proposals come from. In a run from an initial state, \<open>asked\<close> names the operation that
  made a proposal: the call of \<open>propose_plan\<close> before which its identifier was not in the table and
  after which it is. Identifiers never leave the table, so it is the only one.
\<close>

definition asked :: "string list \<Rightarrow> pf_op list \<Rightarrow> pf_store \<Rightarrow> proposal_row \<Rightarrow> candidate list \<Rightarrow> bool" where
  "asked prefixes ops s0 p cs \<longleftrightarrow>
     (\<exists>before after. ops = before @ ProposePlan (pp_tenant p) (pp_name p) cs (pp_policy p) (pp_proposed_by p) (pp_scenario p) # after \<and>
        \<not> has_key proposal_id (proposal_id p) (proposals (run_ops (pf_step prefixes) before s0)) \<and>
        has_key proposal_id (proposal_id p) (proposals (run_ops (pf_step prefixes)
          (before @ [ProposePlan (pp_tenant p) (pp_name p) cs (pp_policy p) (pp_proposed_by p) (pp_scenario p)]) s0)))"

lemma asked_more: "asked prefixes ops s0 p cs \<Longrightarrow> asked prefixes (ops @ later) s0 p cs"
  unfolding asked_def by (elim exE conjE, intro exI conjI) auto

lemma recommended_fields:
  assumes "recommended p = recommended q"
  shows "proposal_id p = proposal_id q" "pp_tenant p = pp_tenant q" "pp_name p = pp_name q" "pp_policy p = pp_policy q"
    "pp_proposed_by p = pp_proposed_by q" "pp_scenario p = pp_scenario q" "proposed_from dtext p cs = proposed_from dtext q cs"
  using assms by (cases p; cases q; simp add: recommended_def proposed_from_def)+

lemma other_operations_propose_nothing:
  assumes "pf_step prefixes op s = Inr s'" "\<And>tenant name cs cap by sc. op \<noteq> ProposePlan tenant name cs cap by sc"
  shows "length (proposals s') = length (proposals s)"
proof (cases op)
  case RegisterEntity
  then show ?thesis using assms(1) by (auto simp: map_sum_Inr pf_tabs_def dest!: register_entity_change)
next
  case RegisterRisk
  then show ?thesis using assms(1)
    by (auto simp: map_sum_Inr register_risk_def add_risk_def Let_def split_beta res_simps split: option.splits if_splits)
next
  case RecordCoverage
  then show ?thesis using assms(1) by (auto simp: map_sum_Inr pf_tabs_def dest!: record_coverage_change)
next
  case AssessRisk
  then show ?thesis using assms(1)
    by (auto simp: map_sum_Inr assess_risk_def add_risk_assessment_def Let_def split_beta res_simps
        dest!: pf_emit_Inr(3) pf_fields(4) split: if_splits)
next
  case SetOfficialRating
  then show ?thesis using assms(1)
    by (auto simp: map_sum_Inr set_official_rating_def put_risk_assessment_def Let_def res_simps
        dest!: pf_emit_Inr(3) pf_fields(4) split: if_splits option.splits)
next
  case ProposePlan
  with assms(2) show ?thesis by blast
next
  case ApprovePlan
  then show ?thesis using assms(1)
    by (auto simp: map_sum_Inr approve_plan_def add_plan_def put_proposal_def put_def Let_def split_beta res_simps
        dest!: pf_emit_Inr(3) pf_fields(4) split: if_splits option.splits)
qed

lemma step_proposals:
  assumes "pf_reach prefixes s" "pf_step prefixes op s = Inr s'" "p \<in> set (proposals s')"
  shows "(\<exists>q \<in> set (proposals s). recommended q = recommended p) \<or>
    (\<exists>cs. op = ProposePlan (pp_tenant p) (pp_name p) cs (pp_policy p) (pp_proposed_by p) (pp_scenario p) \<and>
       \<not> has_key proposal_id (proposal_id p) (proposals s) \<and> proposed_from (date_iso s) p cs)"
proof (cases "\<exists>tenant name cs cap by sc. op = ProposePlan tenant name cs cap by sc")
  case True
  then obtain tenant name cs cap by' sc where op: "op = ProposePlan tenant name cs cap by' sc" by (elim exE)
  with assms(2) obtain out where ok: "list_all candidate_ok cs" "capacity_policy_ok cap"
    and m: "propose_plan tenant name cs cap by' sc s = Inr (out, s')" by (auto simp: map_sum_Inr split: if_splits)
  define q where "q = new_proposal (fst (new_id ''plp'' s)) tenant name (next_proposal_version tenant name s) sc cap (recommend (date_iso s) cs cap) by'"
  obtain s2 data where r: "cs \<noteq> []" "add_proposal q (snd (new_id ''plp'' s)) = Inr s2"
    "pf_emit tenant (fst (new_id ''plp'' s)) ''plan.proposed'' data (''plan-proposed:'' @ fst (new_id ''plp'' s)) ''plan_proposal'' s2 = Inr s'"
    using m unfolding propose_plan_def by (auto simp: Let_def split_beta res_simps q_def)
  have t: "proposals s' = proposals s @ [q]" "\<not> has_key proposal_id (proposal_id q) (proposals s)"
    using r(2) pf_fields(4)[OF pf_emit_Inr(3)[OF r(3)]] by (auto simp: add_proposal_def res_simps)
  show ?thesis
  proof (cases "p = q")
    case True
    have "op = ProposePlan (pp_tenant p) (pp_name p) cs (pp_policy p) (pp_proposed_by p) (pp_scenario p)"
      "proposed_from (date_iso s) p cs" unfolding True using r(1) ok by (simp_all add: op q_def new_proposal_def proposed_from_def)
    with t(2) True show ?thesis by blast
  next
    case False
    with assms(3) t(1) show ?thesis by auto
  qed
next
  case False
  then have len: "length (proposals s') = length (proposals s)" by (intro other_operations_propose_nothing[OF assms(2)]) blast
  have "\<exists>q \<in> set (proposals s). recommended q = recommended p" using pf_reach_change[OF assms(1,2)]
  proof (cases rule: pf_change.cases)
    case (pc_proposed cs cap q pid tenant name scenario by' k)
    then have "proposals s' = proposals s @ [q]" by (simp add: pf_tabs_def)
    with len show ?thesis by simp
  next
    case (pc_approved by' q lid k reason t2 stamp t1)
    have "proposals s' = put proposal_id (approves_as lid by' reason t2 stamp q) (proposals s)" using pc_approved(6) by (simp add: pf_tabs_def)
    with assms(3) pc_approved(2) show ?thesis by (auto simp: put_def)
  qed (use assms(3) in \<open>auto simp: pf_tabs_def\<close>)
  then show ?thesis by blast
qed

lemma step_date_iso: "pf_reach prefixes s \<Longrightarrow> pf_step prefixes op s = Inr s' \<Longrightarrow> date_iso s' = date_iso s"
  by (drule (1) pf_reach_change, erule pf_change.cases) (auto simp: pf_tabs_def)

lemma proposals_asked:
  assumes "pf_init s0"
  shows "date_iso (run_ops (pf_step prefixes) ops s0) = date_iso s0 \<and>
    (\<forall>p \<in> set (proposals (run_ops (pf_step prefixes) ops s0)). \<exists>cs. asked prefixes ops s0 p cs \<and> proposed_from (date_iso s0) p cs)"
proof (induction ops rule: rev_induct)
  case Nil
  show ?case using assms by (simp add: pf_init_def)
next
  case (snoc op ops)
  let ?s = "run_ops (pf_step prefixes) ops s0"
  have old: "\<exists>cs. asked prefixes (ops @ [op]) s0 p cs \<and> proposed_from (date_iso s0) p cs" if "p \<in> set (proposals ?s)" for p
    using snoc.IH that asked_more by blast
  show ?case
  proof (cases "pf_step prefixes op ?s")
    case (Inl e)
    with snoc.IH old show ?thesis by (simp add: run_ops_append)
  next
    case (Inr t)
    have reach: "pf_reach prefixes ?s" unfolding pf_reach_def by (intro reach_run_ops reach_init assms)
    have run: "run_ops (pf_step prefixes) (ops @ [op]) s0 = t" by (simp add: run_ops_append Inr)
    have "\<exists>cs. asked prefixes (ops @ [op]) s0 p cs \<and> proposed_from (date_iso s0) p cs" if p: "p \<in> set (proposals t)" for p
      using step_proposals[OF reach Inr p]
    proof (elim disjE bexE exE conjE)
      fix q assume q: "q \<in> set (proposals ?s)" "recommended q = recommended p"
      from old[OF q(1)] show ?thesis unfolding asked_def recommended_fields[OF q(2)] .
    next
      fix cs assume "op = ProposePlan (pp_tenant p) (pp_name p) cs (pp_policy p) (pp_proposed_by p) (pp_scenario p)"
        "\<not> has_key proposal_id (proposal_id p) (proposals ?s)" "proposed_from (date_iso ?s) p cs"
      note new = this
      have "has_key proposal_id (proposal_id p) (proposals (run_ops (pf_step prefixes) (ops @ [op]) s0))"
        using p unfolding run by (auto simp: has_key_def)
      with new(1,2) have "asked prefixes (ops @ [op]) s0 p cs" unfolding asked_def by (intro exI[of _ ops] exI[of _ "[]"]) simp
      with new(3) snoc.IH show ?thesis by auto
    qed
    with snoc.IH step_date_iso[OF reach Inr] show ?thesis unfolding run by simp
  qed
qed

text \<open>
  C16. Plans are approved informed. Take any run of the service from empty tables, and any plan in
  its tables. Its approver is not an automated actor, and an approved proposal names it, with the
  plan's tenant, name, version and policy, days that fit its plannable days, and the same approver.
  That proposal was made by one call of the run, and what the approver accepted accounts for the
  candidates of that very call: as a multiset, each candidate is planned or listed in the accepted
  residual as excluded, the planned part and the exclusions with their reasons are those of the
  recommendation for these candidates, and the accepted blind spots are exactly the candidates
  without assurance from anywhere that the plan leaves out.\<close>

theorem plans_approved_informed:
  assumes "pf_init s0" "l \<in> set (plans (run_ops (pf_step prefixes) ops s0))"
  shows "\<not> portfolio_automated prefixes (ap_approved_by l) \<and>
     (\<exists>p \<in> set (proposals (run_ops (pf_step prefixes) ops s0)). \<exists>cs acc. asked prefixes ops s0 p cs \<and>
        pp_status p = ''approved'' \<and> pp_plan p = Some (plan_id l) \<and>
        pp_approved_by p = Some (ap_approved_by l) \<and> ap_tenant l = pp_tenant p \<and> ap_name l = pp_name p \<and> ap_version l = pp_version p \<and>
        ap_coverage_policy l = pp_policy p \<and> pp_planned_days p \<le> pp_plannable_days p \<and>
        pp_accepted p = Some acc \<and> accepted_by acc = ap_approved_by l \<and>
        pp_planned p = pr_planned (recommend (date_iso s0) cs (pp_policy p)) \<and>
        ar_excluded acc = map (\<lambda>x. (xl_candidate_key x, xl_risk_ref x, xl_rating x, xl_reason x))
          (pr_excluded (recommend (date_iso s0) cs (pp_policy p))) \<and>
        mset (map pl_candidate_key (pp_planned p)) + mset (map fst (ar_excluded acc)) = mset (map cd_candidate_key cs) \<and>
        ar_blind_spots acc = map (\<lambda>c. (cd_candidate_key c, cd_risk_ref c, rs_rating (cd_score c)))
          (blind_spots_of cs (pp_planned p)))"
proof -
  let ?s = "run_ops (pf_step prefixes) ops s0" and ?dt = "date_iso s0"
  have reach: "pf_reach prefixes ?s" unfolding pf_reach_def by (intro reach_run_ops reach_init assms(1))
  note r = plans_ok_parts[OF pf_reach_parts(2)[OF reach]]
  obtain p where p: "p \<in> set (proposals ?s)" "pp_status p = ''approved''" "approval_of prefixes l p" using r(4)[OF assms(2)] by blast
  obtain cs where cs: "asked prefixes ops s0 p cs" "proposed_from ?dt p cs" using proposals_asked[OF assms(1)] p(1) by blast
  obtain stamp now where acc: "pp_accepted p = Some (residual_of p (ap_approved_by l) stamp)"
    "l = new_plan (plan_id l) p now (ap_approved_by l)" using p(3) by (auto simp: approval_of_def)
  let ?acc = "residual_of p (ap_approved_by l) stamp"
  have plan: "ap_tenant l = pp_tenant p" "ap_name l = pp_name p" "ap_version l = pp_version p" "ap_coverage_policy l = pp_policy p"
    by (subst acc(2), simp add: new_plan_def)+
  have rec: "pp_planned p = pr_planned (recommend ?dt cs (pp_policy p))" "pp_excluded p = pr_excluded (recommend ?dt cs (pp_policy p))"
    "pp_blind_spots p = pr_blind_spots (recommend ?dt cs (pp_policy p))" using cs(2) by (simp_all add: proposed_from_def Let_def)
  have "map fst (ar_excluded ?acc) = map xl_candidate_key (pp_excluded p)" by (simp add: residual_of_def comp_def)
  then have keys: "mset (map pl_candidate_key (pp_planned p)) + mset (map fst (ar_excluded ?acc)) = mset (map cd_candidate_key cs)"
    using recommend_keys[of ?dt cs "pp_policy p"] by (simp only: rec(1,2))
  have "pp_blind_spots p = map blind_spot_json (blind_spots_of cs (pp_planned p))"
    unfolding rec(1,3) recommend_state by (simp add: recommend_def Let_def)
  then have blind: "ar_blind_spots ?acc = map (\<lambda>c. (cd_candidate_key c, cd_risk_ref c, rs_rating (cd_score c))) (blind_spots_of cs (pp_planned p))"
    by (simp add: residual_of_def blind_spot_json_def)
  have by': "accepted_by ?acc = ap_approved_by l" by (simp add: residual_of_def)
  have excl: "ar_excluded ?acc = map (\<lambda>x. (xl_candidate_key x, xl_risk_ref x, xl_rating x, xl_reason x))
      (pr_excluded (recommend ?dt cs (pp_policy p)))" by (simp add: residual_of_def rec(2))
  have ap: "pp_plan p = Some (plan_id l)" "pp_approved_by p = Some (ap_approved_by l)" "\<not> portfolio_automated prefixes (ap_approved_by l)"
    "pp_planned_days p \<le> pp_plannable_days p" using p(3) by (simp_all add: approval_of_def)
  show ?thesis
    by (intro conjI bexI[OF _ p(1)] exI[of _ cs] exI[of _ ?acc]) (rule ap p(2) plan acc(1) by' rec(1) excl keys blind cs(1))+
qed

text \<open>
  A proposal is fixed when it is made: a transaction leaves every stored proposal as it is, or
  approves one that was still proposed, without touching what it recommends; an approved proposal and
  an approved plan never change again.\<close>

lemma proposals_fixed:
  assumes "pf_reach prefixes s" "pf_step prefixes op s = Inr s'" "p \<in> set (proposals s)"
  shows "(p \<in> set (proposals s') \<or>
      pp_status p = ''proposed'' \<and> (\<exists>p' \<in> set (proposals s'). pp_status p' = ''approved'' \<and> recommended p' = recommended p)) \<and>
     (pp_status p = ''approved'' \<longrightarrow> p \<in> set (proposals s')) \<and> (\<exists>new. plans s' = plans s @ new)"
  using pf_reach_change[OF assms(1,2)]
proof (cases rule: pf_change.cases)
  case (pc_approved by' q lid k reason t2 stamp t1)
  let ?q = "approves_as lid by' reason t2 stamp q"
  note r = plans_ok_parts[OF pf_reach_parts(2)[OF assms(1)]]
  have t: "proposals s' = put proposal_id ?q (proposals s)" "plans s' = plans s @ [new_plan lid q t1 by']"
    using pc_approved(6) by (simp_all add: pf_tabs_def)
  have q: "proposal_id ?q = proposal_id q" "pp_status ?q = ''approved''" by (simp_all add: approves_as_def)
  have in_q: "x \<in> set (proposals s') \<longleftrightarrow> x = ?q \<or> (x \<in> set (proposals s) \<and> proposal_id x \<noteq> proposal_id q)" for x
    using pc_approved(2) by (auto simp: t(1) in_set_put[OF r(1)] q(1) has_key_def)
  show ?thesis
  proof (cases "proposal_id p = proposal_id q")
    case True
    then have "p = q" using r(1) assms(3) pc_approved(2) by (auto simp: distinct_map inj_on_def)
    then show ?thesis using pc_approved(3) in_q q(2) t(2) by auto
  next
    case False
    then show ?thesis using assms(3) in_q t(2) by auto
  qed
qed (use assms(3) in \<open>auto simp: pf_tabs_def\<close>)

section \<open>Witnesses\<close>

definition pf_demo_init :: pf_store where
  "pf_demo_init = \<lparr>audit_events = [], outbox_events = [],
     uuids = (\<lambda>n. [''0123456789abcdefghijklmnopqrstuvwxyzABCDEFGHIJKLMNOPQRSTUVWXYZ'' ! n]),
     uuids_drawn = 0, wall_clock = (\<lambda>_. 0), clock_reads = 0, isoformat = (\<lambda>_. ''1970''), pf_tenants = [''acme''], pf_profiles = [],
     pf_engagements = [], entities = [], risks = [], risk_assessments = [], coverages = [], proposals = [], plans = [], date_iso = int_str\<rparr>"

definition demo_prefixes :: "string list" where
  "demo_prefixes = [''agent:'', ''svc:'', ''system:'']"

abbreviation pf_demo :: "pf_op list \<Rightarrow> pf_store" where
  "pf_demo ops \<equiv> run_ops (pf_step demo_prefixes) ops pf_demo_init"

lemma pf_demo_reach: "pf_reach demo_prefixes (pf_demo ops)"
  unfolding pf_reach_def by (intro reach_run_ops reach_init) (simp add: pf_init_def pf_demo_init_def)

definition demo_override_rating :: pf_op where
  "demo_override_rating = SetOfficialRating ''acme'' ''R-1'' ''low'' ''maria'' ''accepted''"

definition demo_ratings :: "pf_op list" where
  "demo_ratings = [RegisterRisk ''acme'' ''R-1'' ''Unapproved change'' None,
     AssessRisk ''acme'' ''R-1'' (demo_factors False) ''agent:scorer'' 200 None]"

definition demo_planning :: "pf_op list" where
  "demo_planning = [ProposePlan ''acme'' ''FY'' demo_candidates demo_capacity ''agent:planner'' ''baseline'']"

definition demo_approve :: pf_op where
  "demo_approve = ApprovePlan ''acme'' ''plp_0'' ''maria'' ''agreed''"

definition rated_by :: "string \<Rightarrow> ident option \<Rightarrow> pf_store \<Rightarrow> bool" where
  "rated_by rating who s \<longleftrightarrow> map (\<lambda>a. (rg_version a, rs_rating (rg_score a), official_by a)) (risk_assessments s) = [(1, rating, who)]"

definition overridable :: "pf_store \<Rightarrow> bool" where
  "overridable s \<longleftrightarrow> rated_by ''high'' None s \<and>
     (case pf_step demo_prefixes demo_override_rating s of Inr t \<Rightarrow> rated_by ''high'' (Some ''maria'') t | Inl _ \<Rightarrow> False)"

definition overridden :: "pf_store \<Rightarrow> bool" where
  "overridden s \<longleftrightarrow> (case require_risk ''acme'' ''R-1'' s of Inl _ \<Rightarrow> False
     | Inr r \<Rightarrow> (case latest_risk_assessment (risk_id r) s of None \<Rightarrow> False | Some a \<Rightarrow> official_by a \<noteq> None))"

definition approvable :: "pf_store \<Rightarrow> bool" where
  "approvable s \<longleftrightarrow> map (\<lambda>p. (proposal_id p, pp_status p)) (proposals s) = [(''plp_0'', ''proposed'')] \<and>
     is_ok (pf_step demo_prefixes demo_approve s)"

definition planned_by :: "ident \<Rightarrow> pf_store \<Rightarrow> bool" where
  "planned_by who s \<longleftrightarrow> map ap_approved_by (plans s) = [who]"

lemma demo_ratings_state: "overridable (pf_demo demo_ratings)"
  by code_simp

lemma demo_overridden_state: "overridden (pf_demo (demo_ratings @ [demo_override_rating]))"
  by code_simp

lemma demo_planning_state: "approvable (pf_demo demo_planning)"
  by code_simp

lemma demo_approved_state: "planned_by ''maria'' (pf_demo (demo_planning @ [demo_approve]))"
  by code_simp

theorem ratings_history_witness:
  "\<exists>s' a a'. pf_step demo_prefixes demo_override_rating (pf_demo demo_ratings) = Inr s' \<and>
     risk_assessments (pf_demo demo_ratings) = [a] \<and> risk_assessments s' = [a'] \<and> computed a' = computed a \<and>
     rs_rating (rg_score a) = ''high'' \<and> official_by a' = Some ''maria'' \<and>
     score (rg_factors a) (Some (rg_policy a)) (rg_as_at a) = Inr (rg_score a)"
proof -
  let ?s = "pf_demo demo_ratings"
  from demo_ratings_state obtain s' where s': "pf_step demo_prefixes demo_override_rating ?s = Inr s'"
    "rated_by ''high'' None ?s" "rated_by ''high'' (Some ''maria'') s'" by (auto simp: overridable_def split: sum.splits)
  obtain a where a: "risk_assessments ?s = [a]" "rs_rating (rg_score a) = ''high''" using s'(2) unfolding rated_by_def by auto
  obtain a' where a': "risk_assessments s' = [a']" "official_by a' = Some ''maria''" using s'(3) unfolding rated_by_def by auto
  note h = ratings_history[OF pf_demo_reach s'(1)]
  from conjunct1[OF h] have "computed a' = computed a" unfolding a a' by simp
  moreover have "score (rg_factors a) (Some (rg_policy a)) (rg_as_at a) = Inr (rg_score a)" using h unfolding a(1) by simp
  ultimately show ?thesis using s'(1) a a' by blast
qed

theorem rating_override_once_witness:
  "set_official_rating demo_prefixes ''acme'' ''R-1'' ''medium'' ''paula'' ''second thoughts''
     (pf_demo (demo_ratings @ [demo_override_rating])) = Inl IntegrityError"
proof -
  from demo_overridden_state obtain r a where "require_risk ''acme'' ''R-1'' (pf_demo (demo_ratings @ [demo_override_rating])) = Inr r"
    "latest_risk_assessment (risk_id r) (pf_demo (demo_ratings @ [demo_override_rating])) = Some a" "official_by a \<noteq> None"
    unfolding overridden_def by (auto split: sum.splits option.splits)
  then show ?thesis by (rule rating_override_once[OF pf_demo_reach]) code_simp
qed

theorem plans_approved_informed_witness:
  "\<exists>l p cs. l \<in> set (plans (pf_demo (demo_planning @ [demo_approve]))) \<and> ap_approved_by l = ''maria'' \<and>
     asked demo_prefixes (demo_planning @ [demo_approve]) pf_demo_init p cs \<and>
     pp_plan p = Some (plan_id l) \<and> pp_approved_by p = Some ''maria''"
proof -
  have init: "pf_init pf_demo_init" by (simp add: pf_init_def pf_demo_init_def)
  from demo_approved_state obtain l where l: "plans (pf_demo (demo_planning @ [demo_approve])) = [l]" "ap_approved_by l = ''maria''"
    unfolding planned_by_def by auto
  have "l \<in> set (plans (pf_demo (demo_planning @ [demo_approve])))" unfolding l(1) by simp
  from plans_approved_informed[OF init this] l(2) this show ?thesis by auto
qed

end
