(* ===== verification/Calendar.thy ===== *)
theory Calendar
  imports Prelude
begin

text \<open>
  Civil dates as Python's \<open>datetime.date\<close> has them, and the parts of scheduling that rest on them:
  business days and blackout windows (\<open>scheduling/calendar.py\<close>), audit periods
  (\<open>scheduling/periods.py\<close>) and the models that configure both (\<open>scheduling/definitions.py\<close>).
  A date is its proleptic Gregorian ordinal, day 1 being the first of January of year 1.
\<close>

section \<open>Dates\<close>

type_synonym day = int

definition day_max :: day where
  "day_max = 3652059"

definition plus_days :: "day \<Rightarrow> int \<Rightarrow> day res" where
  "plus_days d n = (if 1 \<le> d + n \<and> d + n \<le> day_max then Inr (d + n) else Inl OverflowError)"

definition weekday :: "day \<Rightarrow> int" where
  "weekday d = (d + 6) mod 7"

definition is_leap :: "int \<Rightarrow> bool" where
  "is_leap y \<longleftrightarrow> y mod 4 = 0 \<and> (y mod 100 \<noteq> 0 \<or> y mod 400 = 0)"

definition days_in_month :: "int \<Rightarrow> int \<Rightarrow> int" where
  "days_in_month y m = (if m = 2 then (if is_leap y then 29 else 28) else if m \<in> {4, 6, 9, 11} then 30 else 31)"

definition days_before_year :: "int \<Rightarrow> int" where
  "days_before_year y = (let z = y - 1 in z * 365 + z div 4 - z div 100 + z div 400)"

definition days_before_month :: "int \<Rightarrow> int \<Rightarrow> int" where
  "days_before_month y m =
     [0, 31, 59, 90, 120, 151, 181, 212, 243, 273, 304, 334] ! nat (m - 1) + (if 2 < m \<and> is_leap y then 1 else 0)"

definition ordinal :: "int \<Rightarrow> int \<Rightarrow> int \<Rightarrow> day" where
  "ordinal y m d = days_before_year y + days_before_month y m + d"

text \<open>The year of a day from its average length, the month by counting.\<close>

definition year_of :: "day \<Rightarrow> int" where
  "year_of d = (let y = 400 * (d - 1) div 146097 + 1 in if days_before_year (y + 1) < d then y + 1 else y)"

definition month_of :: "day \<Rightarrow> int" where
  "month_of d =
     (let y = year_of d; k = d - days_before_year y in
      int (length (filter (\<lambda>m. days_before_month y m < k) [1, 2, 3, 4, 5, 6, 7, 8, 9, 10, 11, 12])))"

definition day_of :: "day \<Rightarrow> int" where
  "day_of d = d - days_before_year (year_of d) - days_before_month (year_of d) (month_of d)"

text \<open>Months are numbered through from year 0.\<close>

definition month_index :: "day \<Rightarrow> int" where
  "month_index d = 12 * year_of d + month_of d - 1"

definition first_day :: "int \<Rightarrow> day" where
  "first_day i = ordinal (i div 12) (i mod 12 + 1) 1"

section \<open>Years and months\<close>

lemma div_pred:
  fixes z k :: int
  assumes "1 < k"
  shows "z div k = (z - 1) div k + (if z mod k = 0 then 1 else 0)"
proof -
  have z: "z - 1 = (z mod k - 1) + (z div k) * k" by simp
  have "(z - 1) div k = (z mod k - 1) div k + z div k" using assms by (subst z) simp
  moreover have "(z mod k - 1) div k = (if z mod k = 0 then - 1 else 0)"
  proof (cases "z mod k = 0")
    case True
    then show ?thesis using assms by (simp add: zdiv_eq_0_iff div_eq_minus1)
  next
    case False
    have "0 \<le> z mod k" "z mod k < k" using assms by simp_all
    then have "0 \<le> z mod k - 1" "z mod k - 1 < k" using False by linarith+
    with False show ?thesis by (simp add: div_pos_pos_trivial)
  qed
  ultimately show ?thesis by simp
qed

lemma year_step: "days_before_year (y + 1) = days_before_year y + (if is_leap y then 366 else 365)"
proof -
  have h: "y mod 100 = 0 \<Longrightarrow> y mod 4 = 0" "y mod 400 = 0 \<Longrightarrow> y mod 100 = 0"
    using mod_mod_cancel[of 4 100 y] mod_mod_cancel[of 100 400 y] by simp_all
  have leap: "(if y mod 4 = 0 then 1 else 0) - (if y mod 100 = 0 then 1 else 0) + (if y mod 400 = 0 then 1 else 0) = (if is_leap y then 1 else 0 :: int)"
  proof (cases "y mod 100 = 0")
    case True
    with h(1) show ?thesis by (simp only: is_leap_def) simp
  next
    case False
    have "y mod 400 \<noteq> 0" by (rule contrapos_nn[OF False h(2)])
    with False show ?thesis by (simp only: is_leap_def) simp
  qed
  have "days_before_year (y + 1) = y * 365 + y div 4 - y div 100 + y div 400" by (simp add: days_before_year_def Let_def)
  also have "\<dots> = days_before_year y + 365 + (if is_leap y then 1 else 0)"
  proof -
    have sum: "y * 365 + a - b + c = (y - 1) * 365 + a' - b' + c' + 365 + l"
      if "a = a' + i" "b = b' + j" "c = c' + k" "i - j + k = l" for a a' b b' c c' i j k l :: int
      using that by (simp add: algebra_simps)
    show ?thesis unfolding days_before_year_def Let_def by (rule sum[OF div_pred div_pred div_pred leap]) simp_all
  qed
  finally show ?thesis by simp
qed

lemma year_of_bounds: "days_before_year (year_of d) < d \<and> d \<le> days_before_year (year_of d + 1)"
proof -
  define z where "z = 400 * (d - 1) div 146097"
  have z: "146097 * z \<le> 400 * (d - 1)" "400 * (d - 1) < 146097 * z + 146097"
    using pos_mod_bound[of 146097 "400 * (d - 1)"] pos_mod_sign[of 146097 "400 * (d - 1)"] minus_mult_div_eq_mod[of "400 * (d - 1)" 146097]
    unfolding z_def by linarith+
  have b: "400 * days_before_year (y + 1) \<le> 146097 * y + 399" "146097 * y \<le> 400 * days_before_year (y + 1) + 699" for y
  proof -
    have sum: "400 * (y * 365 + a - b + c) \<le> 146097 * y + 399 \<and> 146097 * y \<le> 400 * (y * 365 + a - b + c) + 699"
      if "y = 4 * a + i" "y = 100 * b + j" "y = 400 * c + k" "0 \<le> i" "i < 4" "0 \<le> j" "j < 100" "0 \<le> k" "k < 400" for a b c i j k :: int
    proof -
      have "400 * a = 100 * y - 100 * i" "400 * b = 4 * y - 4 * j" "400 * c = y - k" using that(1-3) by simp_all
      then have "400 * (y * 365 + a - b + c) = 146097 * y - 100 * i + 4 * j - k" by (simp add: algebra_simps)
      with that(4-9) show ?thesis by simp
    qed
    have "400 * (y * 365 + y div 4 - y div 100 + y div 400) \<le> 146097 * y + 399 \<and>
        146097 * y \<le> 400 * (y * 365 + y div 4 - y div 100 + y div 400) + 699"
      by (rule sum[of _ "y mod 4" _ "y mod 100" _ "y mod 400"]) simp_all
    then show "400 * days_before_year (y + 1) \<le> 146097 * y + 399" "146097 * y \<le> 400 * days_before_year (y + 1) + 699"
      by (simp_all add: days_before_year_def Let_def)
  qed
  have "400 * days_before_year (z + 1) < 400 * d" using b(1)[of z] z(1) by simp
  then have "days_before_year (z + 1) < d" by simp
  moreover have "d \<le> days_before_year (z + 3)" using b(2)[of "z + 2"] z by (simp add: algebra_simps)
  moreover have "year_of d = (if days_before_year (z + 2) < d then z + 2 else z + 1)"
    unfolding year_of_def Let_def z_def[symmetric] by (simp add: add.assoc)
  ultimately show ?thesis by (simp add: add.assoc)
qed


text \<open>Months follow each other without gaps, and every day lies in its month.\<close>

lemma month_cases:
  fixes m :: int
  assumes "1 \<le> m" "m \<le> 12"
  shows "m \<in> {1, 2, 3, 4, 5, 6, 7, 8, 9, 10, 11, 12}"
  using assms by (simp, presburger)

lemma month_step:
  assumes "1 \<le> m" "m < 12"
  shows "days_before_month y (m + 1) = days_before_month y m + days_in_month y m"
proof -
  have "m \<in> {1, 2, 3, 4, 5, 6, 7, 8, 9, 10, 11}" using month_cases[of m] assms by simp
  then show ?thesis by (auto simp: days_before_month_def days_in_month_def)
qed

lemma december: "days_before_month y 12 + days_in_month y 12 = (if is_leap y then 366 else 365)"
  by (simp add: days_before_month_def days_in_month_def)

lemma days_in_month_pos: "28 \<le> days_in_month y m"
  by (simp add: days_in_month_def)

lemma first_day_split: "0 \<le> r \<Longrightarrow> r < 12 \<Longrightarrow> first_day (12 * q + r) = ordinal q (r + 1) 1"
  by (simp add: first_day_def)

lemma first_day_step: "first_day (i + 1) = first_day i + days_in_month (i div 12) (i mod 12 + 1)"
proof -
  define q r where "q = i div 12" and "r = i mod 12"
  have i: "i = 12 * q + r" "0 \<le> r" "r < 12" by (simp_all add: q_def r_def)
  have "first_day (i + 1) = ordinal q (r + 1) 1 + days_in_month q (r + 1)"
  proof (cases "r = 11")
    case True
    then have "first_day (i + 1) = ordinal (q + 1) 1 1" using first_day_split[of 0 "q + 1"] by (simp add: i add.commute)
    then show ?thesis using december[of q] year_step[of q] True by (simp add: ordinal_def days_before_month_def)
  next
    case False
    then have "first_day (i + 1) = ordinal q (r + 1 + 1) 1" using first_day_split[of "r + 1" q] i by (simp add: add.assoc)
    also have "\<dots> = ordinal q (r + 1) 1 + days_in_month q (r + 1)"
      unfolding ordinal_def by (subst month_step) (use i False in simp_all)
    finally show ?thesis .
  qed
  moreover have "first_day i = ordinal q (r + 1) 1" by (subst i(1)) (rule first_day_split[OF i(2,3)])
  ultimately show ?thesis by (simp add: q_def r_def)
qed

lemma first_day_mono: "i \<le> j \<Longrightarrow> first_day i + 28 * (j - i) \<le> first_day j"
proof (induction j rule: int_ge_induct)
  case (step j)
  then show ?case using first_day_step[of j] days_in_month_pos[of "j div 12" "j mod 12 + 1"] by simp
qed simp

lemma first_day_less: "first_day i < first_day j \<longleftrightarrow> i < j"
  using first_day_mono[of i j] first_day_mono[of j i] by (cases "i < j") auto

lemma first_day_le: "first_day i \<le> first_day j \<longleftrightarrow> i \<le> j"
  using first_day_less[of j i] by (simp add: linorder_not_less[symmetric])

lemma month_of_bounds:
  "1 \<le> month_of d \<and> month_of d \<le> 12 \<and> days_before_month (year_of d) (month_of d) < d - days_before_year (year_of d) \<and>
   d - days_before_year (year_of d) \<le> days_before_month (year_of d) (month_of d) + days_in_month (year_of d) (month_of d)"
proof -
  define y k where "y = year_of d" and "k = d - days_before_year y"
  have k: "1 \<le> k" "k \<le> (if is_leap y then 366 else 365)"
    using year_of_bounds[of d] year_step[of y] by (auto simp: k_def y_def)
  have m: "month_of d = int (length (filter (\<lambda>m. days_before_month y m < k) [1, 2, 3, 4, 5, 6, 7, 8, 9, 10, 11, 12]))"
    by (simp add: month_of_def Let_def y_def k_def)
  show ?thesis unfolding y_def[symmetric] k_def[symmetric] m
    using k by (cases "is_leap y") (auto simp: days_before_month_def days_in_month_def)
qed

lemma month_index_bounds: "first_day (month_index d) \<le> d \<and> d < first_day (month_index d + 1)"
proof -
  note m = month_of_bounds[of d]
  have "month_index d = 12 * year_of d + (month_of d - 1)" "0 \<le> month_of d - 1" "month_of d - 1 < 12"
    using m by (simp_all add: month_index_def)
  then have i: "month_index d div 12 = year_of d" "month_index d mod 12 = month_of d - 1" by simp_all
  show ?thesis unfolding first_day_step i using m by (simp add: first_day_def i ordinal_def)
qed

lemma month_indexI: "first_day i \<le> d \<Longrightarrow> d < first_day (i + 1) \<Longrightarrow> month_index d = i"
proof -
  assume "first_day i \<le> d" "d < first_day (i + 1)"
  then have "first_day (month_index d) < first_day (i + 1)" "first_day i < first_day (month_index d + 1)"
    using month_index_bounds[of d] by linarith+
  then show ?thesis unfolding first_day_less by simp
qed


section \<open>Business days and blackouts\<close>

record business_calendar_config =
  weekend_days :: "int list"
  holidays :: "day list"

definition business_calendar_config_ok :: "business_calendar_config \<Rightarrow> bool" where
  "business_calendar_config_ok c \<longleftrightarrow> (\<forall>d \<in> set (weekend_days c). 0 \<le> d \<and> d \<le> 6)"

datatype blackout_behavior = BLACKOUT_DELAY | BLACKOUT_SKIP

record blackout_window =
  bw_start :: day
  bw_end :: day
  bw_behavior :: blackout_behavior
  bw_reason :: string

definition blackout_window_ok :: "blackout_window \<Rightarrow> bool" where
  "blackout_window_ok w \<longleftrightarrow> bw_start w \<le> bw_end w \<and> 1 \<le> length (bw_reason w) \<and> length (bw_reason w) \<le> 500"

definition is_business_day :: "business_calendar_config \<Rightarrow> day \<Rightarrow> bool" where
  "is_business_day c d \<longleftrightarrow> weekday d \<notin> set (weekend_days c) \<and> d \<notin> set (holidays c)"

text \<open>The search ends at the last date Python has, where adding a day overflows.\<close>

function next_business_day :: "business_calendar_config \<Rightarrow> day \<Rightarrow> day res" where
  "next_business_day c d =
     (if is_business_day c d then Inr d else bind_res (plus_days d 1) (\<lambda>_. next_business_day c (d + 1)))"
  by pat_completeness auto

termination
  by (relation "measure (\<lambda>(c, d). nat (day_max - d))") (auto simp: plus_days_def split: if_splits)

declare next_business_day.simps [simp del]

text \<open>A local time of day is the seconds since midnight and the fold.\<close>

type_synonym day_time = "rat \<times> nat"

record local_time =
  lt_day :: day
  lt_clock :: day_time

record blackout_resolution =
  br_eligible_at :: local_time
  br_action :: string
  br_reason :: "string option"

definition resolve_blackout :: "business_calendar_config \<Rightarrow> local_time \<Rightarrow> blackout_window list \<Rightarrow> blackout_resolution res" where
  "resolve_blackout c due ws =
     (case find (\<lambda>w. bw_start w \<le> lt_day due \<and> lt_day due \<le> bw_end w) ws of
        None \<Rightarrow> Inr \<lparr>br_eligible_at = due, br_action = ''none'', br_reason = None\<rparr>
      | Some w \<Rightarrow>
          (case bw_behavior w of
             BLACKOUT_SKIP \<Rightarrow> Inr \<lparr>br_eligible_at = due, br_action = ''skip'', br_reason = Some (bw_reason w)\<rparr>
           | BLACKOUT_DELAY \<Rightarrow>
               bind_res (plus_days (bw_end w) 1) (\<lambda>d.
               bind_res (next_business_day c d) (\<lambda>n.
                 Inr \<lparr>br_eligible_at = due\<lparr>lt_day := n\<rparr>, br_action = ''delay'', br_reason = Some (bw_reason w)\<rparr>))))"

section \<open>Audit periods\<close>

datatype period_kind = CALENDAR_MONTHS | ROLLING_DAYS

record audit_period_rule =
  pr_kind :: period_kind
  pr_months :: int
  pr_days :: int
  end_offset_days :: int

definition audit_period_rule_ok :: "audit_period_rule \<Rightarrow> bool" where
  "audit_period_rule_ok r \<longleftrightarrow> 1 \<le> pr_months r \<and> pr_months r \<le> 60 \<and> 1 \<le> pr_days r \<and> pr_days r \<le> 3660 \<and>
     0 \<le> end_offset_days r \<and> end_offset_days r \<le> 3660"

definition first_of_month :: "day \<Rightarrow> day" where
  "first_of_month d = ordinal (year_of d) (month_of d) 1"

text \<open>
  Subtracting months is \<open>dateutil\<close>'s \<open>relativedelta\<close>, an argument; what the code relies on is that
  it takes the first of a month to the first of the month so many months before.
\<close>

definition relativedelta_ok :: "(day \<Rightarrow> int \<Rightarrow> day res) \<Rightarrow> bool" where
  "relativedelta_ok mb \<longleftrightarrow> (\<forall>i k. 0 \<le> k \<longrightarrow> 12 \<le> i - k \<longrightarrow> mb (first_day i) k = Inr (first_day (i - k)))"

definition calculate_period :: "(day \<Rightarrow> int \<Rightarrow> day res) \<Rightarrow> local_time \<Rightarrow> audit_period_rule \<Rightarrow> (day \<times> day) res" where
  "calculate_period mb due r =
     bind_res (plus_days (lt_day due) (- end_offset_days r)) (\<lambda>e.
       case pr_kind r of
         ROLLING_DAYS \<Rightarrow> bind_res (plus_days e (- (pr_days r - 1))) (\<lambda>b. Inr (b, e))
       | CALENDAR_MONTHS \<Rightarrow>
           bind_res (mb (first_of_month e) (pr_months r - 1)) (\<lambda>b.
             if day_of e \<noteq> days_in_month (year_of e) (month_of e)
             then bind_res (plus_days (first_of_month e) (- 1)) (\<lambda>e'.
                  bind_res (mb (first_of_month e') (pr_months r - 1)) (\<lambda>b'. Inr (b', e')))
             else Inr (b, e)))"


section \<open>Properties\<close>

lemma next_business_day_cases:
  assumes "d \<le> day_max" "1 \<le> d"
  shows "case next_business_day c d of
      Inr n \<Rightarrow> d \<le> n \<and> n \<le> day_max \<and> is_business_day c n \<and> (\<forall>k. d \<le> k \<longrightarrow> k < n \<longrightarrow> \<not> is_business_day c k)
    | Inl e \<Rightarrow> e = OverflowError \<and> (\<forall>k. d \<le> k \<longrightarrow> k \<le> day_max \<longrightarrow> \<not> is_business_day c k)"
  using assms
proof (induction c d rule: next_business_day.induct)
  case (1 c d)
  show ?case
  proof (cases "is_business_day c d")
    case True
    then show ?thesis using 1(2) by (subst next_business_day.simps) simp
  next
    case False
    have first: "(\<forall>k. d + 1 \<le> k \<longrightarrow> P k \<longrightarrow> \<not> is_business_day c k) \<Longrightarrow> (\<forall>k. d \<le> k \<longrightarrow> P k \<longrightarrow> \<not> is_business_day c k)" for P
      using False by (metis add1_zle_eq order_le_less)
    show ?thesis
    proof (cases "d < day_max")
      case True
      then have "plus_days d 1 = Inr (d + 1)" using 1(3) by (simp add: plus_days_def)
      with 1(1)[OF False this] True False 1(3) first show ?thesis
        by (subst (1) next_business_day.simps) (auto split: sum.splits)
    next
      case last: False
      then have "d = day_max" using 1(2) by simp
      then show ?thesis using False 1(3) by (subst next_business_day.simps) (auto simp: plus_days_def)
    qed
  qed
qed

lemma working_day_near:
  assumes "business_calendar_config_ok c" "0 \<le> w" "w \<le> 6" "w \<notin> set (weekend_days c)"
  shows "\<exists>k. d \<le> k \<and> k < d + 7 * int (length (holidays c) + 1) \<and> is_business_day c k"
proof (rule ccontr)
  assume none: "\<not> ?thesis"
  let ?h = "length (holidays c)" and ?d = "d + (w - (d + 6)) mod 7"
  have day: "weekday (?d + 7 * int j) = w" for j
  proof -
    have "?d + 7 * int j + 6 = w + (int j - (w - (d + 6)) div 7) * 7"
      unfolding minus_mult_div_eq_mod[symmetric] by (simp add: algebra_simps)
    then show ?thesis using assms(2,3) by (simp only: weekday_def mod_mult_self1) simp
  qed
  have near: "d \<le> ?d + 7 * int j" "?d + 7 * int j < d + 7 * int (?h + 1)" if "j \<le> ?h" for j
  proof -
    have "0 \<le> (w - (d + 6)) mod 7" "(w - (d + 6)) mod 7 < 7" by simp_all
    then show "d \<le> ?d + 7 * int j" "?d + 7 * int j < d + 7 * int (?h + 1)" using that by simp_all
  qed
  have "(\<lambda>j. ?d + 7 * int j) ` {..?h} \<subseteq> set (holidays c)"
    using none near day assms(4) by (fastforce simp: is_business_day_def)
  then have "card ((\<lambda>j. ?d + 7 * int j) ` {..?h}) \<le> card (set (holidays c))" by (intro card_mono) simp_all
  moreover have "card ((\<lambda>j. ?d + 7 * int j) ` {..?h}) = ?h + 1" by (subst card_image) (auto simp: inj_on_def)
  ultimately show False using card_length[of "holidays c"] by simp
qed

text \<open>
  C39. The search for the next business day ends: it returns the first business day from the given
  one on, or overflows when no date is left. With a weekday that is not declared a weekend day it
  returns within one week more than there are holidays; a calendar that declares all seven, which its
  model admits, makes every search run to the end of the dates and overflow.\<close>

theorem next_business_day_ends:
  assumes "business_calendar_config_ok c" "1 \<le> d" "d \<le> day_max"
  shows "(case next_business_day c d of
        Inr n \<Rightarrow> d \<le> n \<and> is_business_day c n \<and> (\<forall>k. d \<le> k \<longrightarrow> k < n \<longrightarrow> \<not> is_business_day c k)
      | Inl e \<Rightarrow> e = OverflowError \<and> (\<forall>k. d \<le> k \<longrightarrow> k \<le> day_max \<longrightarrow> \<not> is_business_day c k)) \<and>
     ((\<exists>w. 0 \<le> w \<and> w \<le> 6 \<and> w \<notin> set (weekend_days c)) \<longrightarrow> d + 7 * int (length (holidays c) + 1) \<le> day_max \<longrightarrow>
        (\<exists>n. next_business_day c d = Inr n \<and> n < d + 7 * int (length (holidays c) + 1))) \<and>
     ({0, 1, 2, 3, 4, 5, 6} \<subseteq> set (weekend_days c) \<longrightarrow> next_business_day c d = Inl OverflowError)"
proof (intro conjI impI)
  note cs = next_business_day_cases[OF assms(3,2), of c]
  show "case next_business_day c d of
        Inr n \<Rightarrow> d \<le> n \<and> is_business_day c n \<and> (\<forall>k. d \<le> k \<longrightarrow> k < n \<longrightarrow> \<not> is_business_day c k)
      | Inl e \<Rightarrow> e = OverflowError \<and> (\<forall>k. d \<le> k \<longrightarrow> k \<le> day_max \<longrightarrow> \<not> is_business_day c k)"
    using cs by (auto split: sum.splits)
  show "\<exists>n. next_business_day c d = Inr n \<and> n < d + 7 * int (length (holidays c) + 1)"
    if "\<exists>w. 0 \<le> w \<and> w \<le> 6 \<and> w \<notin> set (weekend_days c)" and last: "d + 7 * int (length (holidays c) + 1) \<le> day_max"
  proof -
    from that(1) obtain w where w: "0 \<le> w" "w \<le> 6" "w \<notin> set (weekend_days c)" by (elim exE conjE)
    obtain k where k: "d \<le> k" "k < d + 7 * int (length (holidays c) + 1)" "is_business_day c k"
      using working_day_near[OF assms(1) w, of d] by (elim exE conjE)
    show ?thesis
    proof (cases "next_business_day c d")
      case (Inl e)
      have "k \<le> day_max" using k(2) last by simp
      then have "\<not> is_business_day c k" using cs Inl k(1) by simp
      then show ?thesis using k(3) by (rule notE)
    next
      case (Inr n)
      then have "\<forall>k. d \<le> k \<longrightarrow> k < n \<longrightarrow> \<not> is_business_day c k" using cs by simp
      then have "n \<le> k" using k(1,3) by (metis not_less)
      then show ?thesis using Inr k(2) by simp
    qed
  qed
  show "next_business_day c d = Inl OverflowError" if all: "{0, 1, 2, 3, 4, 5, 6} \<subseteq> set (weekend_days c)"
  proof (cases "next_business_day c d")
    case (Inr n)
    have "weekday n \<in> {0, 1, 2, 3, 4, 5, 6}" unfolding weekday_def by (simp, presburger)
    then show ?thesis using cs Inr all by (auto simp: is_business_day_def)
  qed (use cs in simp)
qed

lemma delayed_past_window:
  assumes "resolve_blackout c due ws = Inr r" "br_action r = ''delay''" "\<forall>w \<in> set ws. bw_end w \<le> day_max" "1 \<le> lt_day due"
  shows "\<exists>w \<in> set ws. bw_start w \<le> lt_day due \<and> lt_day due \<le> bw_end w \<and> bw_end w < lt_day (br_eligible_at r) \<and>
     is_business_day c (lt_day (br_eligible_at r)) \<and> lt_clock (br_eligible_at r) = lt_clock due"
proof -
  obtain w n where w: "find (\<lambda>w. bw_start w \<le> lt_day due \<and> lt_day due \<le> bw_end w) ws = Some w" "plus_days (bw_end w) 1 = Inr (bw_end w + 1)"
    "next_business_day c (bw_end w + 1) = Inr n" "r = \<lparr>br_eligible_at = due\<lparr>lt_day := n\<rparr>, br_action = ''delay'', br_reason = Some (bw_reason w)\<rparr>"
    using assms(1,2) unfolding resolve_blackout_def
    by (auto simp: res_simps plus_days_def split: option.splits blackout_behavior.splits if_splits)
  have b: "bw_end w + 1 \<le> day_max" "1 \<le> bw_end w + 1" using w(2) by (simp_all add: plus_days_def split: if_splits)
  show ?thesis
    using find_SomeD[OF w(1)] next_business_day_cases[OF b, of c] w(3) by (intro bexI[of _ w]) (simp_all add: w(4))
qed


lemma month_start: "first_of_month d = first_day (month_index d)"
proof -
  have "month_index d = 12 * year_of d + (month_of d - 1)" "0 \<le> month_of d - 1" "month_of d - 1 < 12"
    using month_of_bounds[of d] by (simp_all add: month_index_def)
  then show ?thesis using first_day_split[of "month_of d - 1" "year_of d"] by (simp add: first_of_month_def)
qed

lemma month_end: "day_of d = days_in_month (year_of d) (month_of d) \<longleftrightarrow> d + 1 = first_day (month_index d + 1)"
proof -
  have "month_index d = 12 * year_of d + (month_of d - 1)" "0 \<le> month_of d - 1" "month_of d - 1 < 12"
    using month_of_bounds[of d] by (simp_all add: month_index_def)
  then have i: "month_index d div 12 = year_of d" "month_index d mod 12 + 1 = month_of d" by simp_all
  show ?thesis unfolding first_day_step i by (auto simp: first_day_def i ordinal_def day_of_def)
qed

text \<open>
  C40. Audit periods are complete: a rolling period has exactly the configured number of days and ends
  the configured days before the due date; a period of calendar months starts on the first of a month
  and ends with the last day of one, spans exactly the configured number of months, and is the last
  such period: no later month is over by the end offset. Away from the first dates there is always
  one.\<close>

theorem calculate_period_complete:
  assumes "relativedelta_ok mb" "audit_period_rule_ok r" "12 + pr_months r \<le> month_index (lt_day due - end_offset_days r)"
    "lt_day due \<le> day_max" "pr_days r \<le> lt_day due - end_offset_days r"
  shows "\<exists>b e. calculate_period mb due r = Inr (b, e) \<and> b \<le> e \<and> e \<le> lt_day due - end_offset_days r \<and>
     (pr_kind r = ROLLING_DAYS \<longrightarrow> e = lt_day due - end_offset_days r \<and> e - b + 1 = pr_days r) \<and>
     (pr_kind r = CALENDAR_MONTHS \<longrightarrow> b = first_day (month_index b) \<and> e + 1 = first_day (month_index e + 1) \<and>
        month_index e - month_index b + 1 = pr_months r \<and> lt_day due - end_offset_days r + 1 < first_day (month_index e + 2))"
proof -
  let ?e = "lt_day due - end_offset_days r" and ?m = "pr_months r"
  have r: "1 \<le> ?m" "1 \<le> pr_days r" "0 \<le> end_offset_days r" using assms(2) by (simp_all add: audit_period_rule_ok_def)
  have e: "plus_days (lt_day due) (- end_offset_days r) = Inr ?e" using assms(4,5) r by (simp add: plus_days_def)
  show ?thesis
  proof (cases "pr_kind r")
    case ROLLING_DAYS
    have "plus_days ?e (- (pr_days r - 1)) = Inr (?e - (pr_days r - 1))" using assms(4,5) r by (simp add: plus_days_def)
    then show ?thesis using ROLLING_DAYS e r by (simp add: calculate_period_def)
  next
    case CALENDAR_MONTHS
    let ?i = "month_index ?e"
    note i = month_index_bounds[of ?e]
    have mb: "mb (first_day j) (?m - 1) = Inr (first_day (j - (?m - 1)))" if "12 + ?m \<le> j + 1" for j
      using assms(1) r(1) that by (simp add: relativedelta_ok_def)
    have idx: "month_index (first_day j) = j" for j by (rule month_indexI) (use first_day_less[of j "j + 1"] in simp_all)
    show ?thesis
    proof (cases "?e + 1 = first_day (?i + 1)")
      case True
      have "calculate_period mb due r = Inr (first_day (?i - (?m - 1)), ?e)"
        using CALENDAR_MONTHS e mb[of ?i] assms(3) True[folded month_end] by (simp add: calculate_period_def month_start)
      moreover have "first_day (?i - (?m - 1)) \<le> first_day ?i" using r(1) by (simp add: first_day_le)
      moreover have "first_day (?i + 1) < first_day (?i + 2)" by (simp add: first_day_less)
      ultimately show ?thesis using CALENDAR_MONTHS True i by (simp add: idx)
    next
      case False
      let ?l = "first_day ?i - 1"
      have l: "month_index ?l = ?i - 1" by (rule month_indexI) (use first_day_less[of "?i - 1" ?i] in simp_all)
      have "0 < first_day 12" by (simp add: first_day_def ordinal_def days_before_year_def days_before_month_def)
      moreover have "first_day 12 + 28 * (?i - 12) \<le> first_day ?i" using first_day_mono[of 12 ?i] assms(3) r(1) by simp
      ultimately have pos: "1 \<le> ?l" using assms(3) r(1) by simp
      have "plus_days (first_of_month ?e) (- 1) = Inr ?l"
        using pos i assms(4) r(3) by (simp add: plus_days_def month_start)
      moreover have "mb (first_of_month ?l) (?m - 1) = Inr (first_day (?i - 1 - (?m - 1)))"
        unfolding month_start l by (rule mb) (use assms(3) in simp)
      moreover have "mb (first_of_month ?e) (?m - 1) = Inr (first_day (?i - (?m - 1)))"
        unfolding month_start by (rule mb) (use assms(3) in simp)
      ultimately have "calculate_period mb due r = Inr (first_day (?i - 1 - (?m - 1)), ?l)"
        using CALENDAR_MONTHS e False[folded month_end] by (simp add: calculate_period_def)
      moreover have "first_day (?i - 1 - (?m - 1)) \<le> first_day (?i - 1)" using r(1) by (simp add: first_day_le)
      moreover have "first_day (?i - 1) < first_day ?i" by (simp add: first_day_less)
      moreover have "?e + 1 < first_day (month_index ?l + 2)"
      proof -
        have "month_index ?l + 2 = ?i + 1" using l by simp
        then show ?thesis using i False by (simp only:) simp
      qed
      ultimately show ?thesis using CALENDAR_MONTHS i by (simp add: idx l)
    qed
  qed
qed


section \<open>Witnesses\<close>

definition demo_calendar :: business_calendar_config where
  "demo_calendar = \<lparr>weekend_days = [5, 6], holidays = [739250]\<rparr>"

text \<open>Day 739248 is Saturday, 28 December 2024; the Monday after it is a holiday.\<close>

theorem next_business_day_ends_witness:
  "business_calendar_config_ok demo_calendar \<and> next_business_day demo_calendar 739248 = Inr 739251 \<and>
   (\<exists>n. next_business_day demo_calendar 739248 = Inr n \<and> n < 739248 + 14)"
proof -
  have ok: "business_calendar_config_ok demo_calendar" by (simp add: business_calendar_config_ok_def demo_calendar_def)
  have w: "\<exists>w. 0 \<le> w \<and> w \<le> 6 \<and> w \<notin> set (weekend_days demo_calendar)" by (intro exI[of _ 0]) (simp add: demo_calendar_def)
  have "next_business_day demo_calendar 739248 = Inr 739251" by code_simp
  moreover have "\<exists>n. next_business_day demo_calendar 739248 = Inr n \<and> n < 739248 + 7 * int (length (holidays demo_calendar) + 1)"
    using conjunct1[OF conjunct2[OF next_business_day_ends[OF ok, of 739248]]] w by (simp add: day_max_def demo_calendar_def)
  ultimately show ?thesis using ok by (simp add: demo_calendar_def)
qed

definition months_back :: "day \<Rightarrow> int \<Rightarrow> day res" where
  "months_back d k = Inr (first_day (month_index d - k) + (d - first_of_month d))"

lemma months_back_ok: "relativedelta_ok months_back"
  unfolding relativedelta_ok_def
proof (intro allI impI)
  fix i k :: int
  have "month_index (first_day i) = i" by (rule month_indexI) (use first_day_less[of i "i + 1"] in simp_all)
  then show "months_back (first_day i) k = Inr (first_day (i - k))" by (simp add: months_back_def month_start)
qed

definition demo_period :: audit_period_rule where
  "demo_period = \<lparr>pr_kind = CALENDAR_MONTHS, pr_months = 3, pr_days = 30, end_offset_days = 1\<rparr>"

theorem calculate_period_complete_witness:
  "relativedelta_ok months_back \<and> audit_period_rule_ok demo_period \<and>
   (\<exists>b e. calculate_period months_back \<lparr>lt_day = 739248, lt_clock = (0, 0)\<rparr> demo_period = Inr (b, e) \<and> b \<le> e \<and>
      month_index e - month_index b + 1 = 3)"
proof -
  have ok: "audit_period_rule_ok demo_period" "12 + pr_months demo_period \<le> month_index (739248 - end_offset_days demo_period)"
    "739248 \<le> day_max" "pr_days demo_period \<le> 739248 - end_offset_days demo_period" "pr_kind demo_period = CALENDAR_MONTHS"
    "pr_months demo_period = 3" by code_simp+
  let ?due = "\<lparr>lt_day = 739248, lt_clock = (0, 0)\<rparr>"
  obtain b e where be: "calculate_period months_back ?due demo_period = Inr (b, e)" "b \<le> e"
    "pr_kind demo_period = CALENDAR_MONTHS \<longrightarrow> b = first_day (month_index b) \<and> e + 1 = first_day (month_index e + 1) \<and>
       month_index e - month_index b + 1 = pr_months demo_period \<and> lt_day ?due - end_offset_days demo_period + 1 < first_day (month_index e + 2)"
    using calculate_period_complete[OF months_back_ok ok(1), of ?due, unfolded local_time.simps, OF ok(2-4)]
    unfolding local_time.simps by (elim exE conjE)
  from be(3) ok(5,6) have "month_index e - month_index b + 1 = 3" by (simp only:)
  with be(1,2) months_back_ok ok(1) show ?thesis by blast
qed

end
