(* ===== verification/Schedules.thy ===== *)
theory Schedules
  imports Calendar Portfolio Orchestrator
begin

text \<open>
  Recurring audits: the rows of \<open>db/models/planning.py\<close>, the models of \<open>scheduling/definitions.py\<close>,
  the recurrence engine (\<open>scheduling/recurrence.py\<close>), the repository (\<open>scheduling/repository.py\<close>),
  the authoring of schedules (\<open>scheduling/authoring.py\<close>) and the preflight (\<open>scheduling/preflight.py\<close>).
  The columns of an engagement that the orchestrator does not use are in a table of their own with
  the same key. JSON columns that hold the dump of a model hold the model's record.
\<close>

section \<open>Models and rows\<close>

datatype launch_mode = APPROVAL_REQUIRED | PREFLIGHT_THEN_APPROVAL | AUTOMATIC

primrec launch_mode_value :: "launch_mode \<Rightarrow> string" where
  "launch_mode_value APPROVAL_REQUIRED = ''approval_required''"
| "launch_mode_value PREFLIGHT_THEN_APPROVAL = ''preflight_then_approval''"
| "launch_mode_value AUTOMATIC = ''automatic''"

datatype missed_occurrence_policy = LAUNCH_ALL | LAUNCH_LATEST | SKIP_MISSED

datatype overlap_policy = PREVENT_OVERLAP | ALLOW_OVERLAP

primrec overlap_policy_value :: "overlap_policy \<Rightarrow> string" where
  "overlap_policy_value PREVENT_OVERLAP = ''prevent''"
| "overlap_policy_value ALLOW_OVERLAP = ''allow''"

datatype occurrence_status =
  O_DUE | O_DEFERRED | O_SKIPPED | O_PREFLIGHT_BLOCKED | O_WAITING_APPROVAL | O_LAUNCHING | O_LAUNCHED | O_LAUNCH_FAILED | O_CANCELLED

primrec occurrence_status_value :: "occurrence_status \<Rightarrow> string" where
  "occurrence_status_value O_DUE = ''due''"
| "occurrence_status_value O_DEFERRED = ''deferred''"
| "occurrence_status_value O_SKIPPED = ''skipped''"
| "occurrence_status_value O_PREFLIGHT_BLOCKED = ''preflight_blocked''"
| "occurrence_status_value O_WAITING_APPROVAL = ''waiting_approval''"
| "occurrence_status_value O_LAUNCHING = ''launching''"
| "occurrence_status_value O_LAUNCHED = ''launched''"
| "occurrence_status_value O_LAUNCH_FAILED = ''launch_failed''"
| "occurrence_status_value O_CANCELLED = ''cancelled''"

record preflight_context =
  connector_health :: "(string \<times> string) list"
  available_budget_usd :: "rat option"
  available_competencies :: "string list"
  independence_conflicts :: "string list"

definition preflight_context_ok :: "preflight_context \<Rightarrow> bool" where
  "preflight_context_ok c \<longleftrightarrow> (case available_budget_usd c of None \<Rightarrow> True | Some x \<Rightarrow> 0 \<le> x)"

record preflight_check =
  pc_code :: string
  pc_passed :: bool
  pc_message :: string
  pc_details :: pydict

record preflight_report =
  pf_passed :: bool
  pf_checked_at :: time
  pf_checks :: "preflight_check list"

record occurrence_decision =
  od_actor_id :: ident
  od_reason :: string
  od_context :: preflight_context

definition occurrence_decision_ok :: "occurrence_decision \<Rightarrow> bool" where
  "occurrence_decision_ok d \<longleftrightarrow> len_within 1 128 (od_actor_id d) \<and> len_within 1 4000 (od_reason d) \<and> preflight_context_ok (od_context d)"

record tenant_row =
  tn_tenant :: ident
  tn_status :: string

text \<open>A workflow column is empty, or holds JSON that the workflow model refuses or accepts.\<close>

record template_row =
  template_id :: ident
  tp_tenant :: ident
  tp_name :: string
  tp_version :: nat
  tp_status :: string
  tp_audit_pack_ref :: string
  tp_objectives :: "string list"
  tp_scope :: pydict
  tp_preflight_policy :: pydict
  tp_workflow :: "workflow_definition res option"
  tp_workflow_version :: pyval

record schedule_row =
  schedule_id :: ident
  sc_tenant :: ident
  sc_plan :: ident
  sc_template :: ident
  sc_name :: string
  sc_version :: nat
  sc_status :: string
  recurrence_rule :: string
  sc_timezone :: string
  effective_from :: time
  effective_until :: "time option"
  audit_period :: audit_period_rule
  business_calendar :: business_calendar_config
  blackout_windows :: "blackout_window list"
  sc_preflight_policy :: pydict
  sc_launch_mode :: launch_mode
  sc_missed :: missed_occurrence_policy
  catch_up_limit :: nat
  sc_overlap :: overlap_policy
  max_concurrent :: nat
  sc_approved_at :: "time option"
  sc_approved_by :: "ident option"
  sc_approval_reason :: "string option"
  sc_disabled_at :: "time option"
  sc_disabled_by :: "ident option"
  sc_disable_reason :: "string option"
  sc_created_at :: time

record cursor_row =
  cu_schedule :: ident
  cu_tenant :: ident
  last_evaluated_at :: "time option"
  next_due_at :: "time option"
  cu_lease_owner :: "ident option"
  cu_lease_expires_at :: "time option"

record occurrence_row =
  occurrence_id :: ident
  oc_tenant :: ident
  oc_schedule :: ident
  oc_engagement :: "ident option"
  nominal_due :: time
  eligible_at :: time
  oc_period_start :: day
  oc_period_end :: day
  oc_status :: occurrence_status
  decision_reason :: "string option"
  decision_by :: "ident option"
  oc_schedule_version :: nat
  oc_template_version :: nat
  schedule_snapshot :: pydict
  template_snapshot :: pydict
  preflight_result :: pydict
  oc_evaluated_at :: "time option"
  oc_launched_at :: "time option"
  launch_attempts :: nat
  oc_last_error :: "string option"

record engagement_scope =
  eg_engagement :: ident
  eg_tenant :: ident
  eg_template :: "ident option"
  eg_code :: string
  eg_audit_pack_ref :: string
  eg_period_start :: day
  eg_period_end :: day
  eg_scope :: pydict

record sched_store = orch_store +
  sc_tenants :: "tenant_row list"
  sc_plans :: "plan_row list"
  templates :: "template_row list"
  schedules :: "schedule_row list"
  cursors :: "cursor_row list"
  occurrences :: "occurrence_row list"
  engagement_scopes :: "engagement_scope list"

text \<open>
  What the libraries around the scheduler answer: \<open>dateutil\<close>'s recurrences (in local time) and month
  arithmetic, the zone database, SHA-256, and the texts of dates, instants and exceptions.
\<close>

record sched_env =
  rrule_between :: "string \<Rightarrow> local_time \<Rightarrow> local_time \<Rightarrow> local_time \<Rightarrow> local_time list res"
  rrule_after :: "string \<Rightarrow> local_time \<Rightarrow> local_time \<Rightarrow> local_time option res"
  zone_known :: "string \<Rightarrow> bool"
  local_of :: "string \<Rightarrow> time \<Rightarrow> local_time"
  instant_of :: "string \<Rightarrow> local_time \<Rightarrow> time"
  months_before :: "day \<Rightarrow> int \<Rightarrow> day res"
  hexdigest :: "string \<Rightarrow> string"
  day_text :: "day \<Rightarrow> string"
  utc_stamp :: "time \<Rightarrow> string"
  float_of :: "string \<Rightarrow> rat res"
  exn_text :: "exn \<Rightarrow> string"

section \<open>Recurrence\<close>

definition ascii_upper :: "char \<Rightarrow> char" where
  "ascii_upper c = (let n = of_char c :: nat in if 97 \<le> n \<and> n \<le> 122 then char_of (n - 32) else c)"

definition normalize_rule :: "string \<Rightarrow> string" where
  "normalize_rule rule =
     (let t = str_strip rule in if starts_with [''RRULE:'', ''DTSTART''] (map ascii_upper t) then t else ''RRULE:'' @ t)"

text \<open>Datetimes of one zone compare by wall time, whatever their fold.\<close>

definition wall :: "local_time \<Rightarrow> day \<times> rat" where
  "wall t = (lt_day t, fst (lt_clock t))"

definition recurrence_refused :: "'a res \<Rightarrow> 'a res" where
  "recurrence_refused m =
     (case m of Inr x \<Rightarrow> Inr x | Inl e \<Rightarrow> if e \<in> {TypeError, ValueError, RecurrenceError} then Inl RecurrenceError else Inl e)"

definition occurrences_between ::
  "sched_env \<Rightarrow> string \<Rightarrow> string \<Rightarrow> time \<Rightarrow> time \<Rightarrow> time \<Rightarrow> nat \<Rightarrow> time list res"
where
  "occurrences_between env rule tz from start upto_time limit =
     (if limit < 1 then Inl ValueError
      else if \<not> zone_known env tz then Inl RecurrenceError
      else bind_res (recurrence_refused (rrule_between env (normalize_rule rule) (local_of env tz from) (local_of env tz start) (local_of env tz upto_time)))
        (\<lambda>values.
          let found = filter (\<lambda>v. wall (local_of env tz start) < wall v) values in
          if limit < length found then Inl RecurrenceError else Inr (map (instant_of env tz) found)))"

definition next_after :: "sched_env \<Rightarrow> string \<Rightarrow> string \<Rightarrow> time \<Rightarrow> time \<Rightarrow> time option res" where
  "next_after env rule tz from after =
     (if \<not> zone_known env tz then Inl RecurrenceError
      else bind_res (recurrence_refused (rrule_after env (normalize_rule rule) (local_of env tz from) (local_of env tz after)))
        (\<lambda>v. Inr (map_option (instant_of env tz) v)))"

section \<open>Repository\<close>

definition get_plan :: "ident \<Rightarrow> ident \<Rightarrow> sched_store \<Rightarrow> plan_row option" where
  "get_plan tenant pid s = find (\<lambda>p. ap_tenant p = tenant \<and> plan_id p = pid) (sc_plans s)"

definition get_template :: "ident \<Rightarrow> ident \<Rightarrow> sched_store \<Rightarrow> template_row option" where
  "get_template tenant tid s = find (\<lambda>t. tp_tenant t = tenant \<and> template_id t = tid) (templates s)"

definition get_schedule :: "ident \<Rightarrow> ident \<Rightarrow> sched_store \<Rightarrow> schedule_row option" where
  "get_schedule tenant sid s = find (\<lambda>r. sc_tenant r = tenant \<and> schedule_id r = sid) (schedules s)"

definition list_active_schedules :: "ident \<Rightarrow> ident option \<Rightarrow> sched_store \<Rightarrow> schedule_row list" where
  "list_active_schedules tenant sid s =
     sort_key schedule_id (filter (\<lambda>r. sc_tenant r = tenant \<and> sc_status r = ''active'' \<and> (case sid of None \<Rightarrow> True | Some i \<Rightarrow> schedule_id r = i))
       (schedules s))"

definition get_or_create_cursor :: "schedule_row \<Rightarrow> sched_store \<Rightarrow> cursor_row \<times> sched_store" where
  "get_or_create_cursor r s =
     (case row cu_schedule (schedule_id r) (cursors s) of
        Some c \<Rightarrow> (c, s)
      | None \<Rightarrow>
          let c = \<lparr>cu_schedule = schedule_id r, cu_tenant = sc_tenant r, last_evaluated_at = None, next_due_at = None,
                   cu_lease_owner = None, cu_lease_expires_at = None\<rparr>
          in (c, s\<lparr>cursors := cursors s @ [c]\<rparr>))"

definition put_cursor :: "cursor_row \<Rightarrow> sched_store \<Rightarrow> sched_store" where
  "put_cursor c s = s\<lparr>cursors := put cu_schedule c (cursors s)\<rparr>"

definition acquire_cursor_lease ::
  "schedule_row \<Rightarrow> ident \<Rightarrow> time \<Rightarrow> int \<Rightarrow> sched_store \<Rightarrow> cursor_row option \<times> sched_store"
where
  "acquire_cursor_lease r owner now secs s =
     (let (c, s1) = get_or_create_cursor r s in
      if (case cu_lease_expires_at c of None \<Rightarrow> True | Some e \<Rightarrow> e \<le> now) \<or> cu_lease_owner c = Some owner
      then let c' = c\<lparr>cu_lease_owner := Some owner, cu_lease_expires_at := Some (now + of_int secs)\<rparr> in (Some c', put_cursor c' s1)
      else (None, s1))"

definition release_cursor :: "cursor_row \<Rightarrow> time \<Rightarrow> time option \<Rightarrow> sched_store \<Rightarrow> sched_store" where
  "release_cursor c evaluated next_due s =
     put_cursor (c\<lparr>last_evaluated_at := Some evaluated, next_due_at := next_due, cu_lease_owner := None, cu_lease_expires_at := None\<rparr>) s"

definition insert_occurrence :: "occurrence_row \<Rightarrow> sched_store \<Rightarrow> sched_store res" where
  "insert_occurrence r s =
     (if has_key occurrence_id (occurrence_id r) (occurrences s)
         \<or> has_key (\<lambda>x. (oc_schedule x, nominal_due x)) (oc_schedule r, nominal_due r) (occurrences s)
         \<or> (oc_engagement r \<noteq> None \<and> has_key oc_engagement (oc_engagement r) (occurrences s))
         \<or> oc_period_end r < oc_period_start r
      then Inl IntegrityError else Inr (s\<lparr>occurrences := occurrences s @ [r]\<rparr>))"

definition get_occurrence :: "ident \<Rightarrow> ident \<Rightarrow> sched_store \<Rightarrow> occurrence_row option" where
  "get_occurrence tenant oid s = find (\<lambda>r. oc_tenant r = tenant \<and> occurrence_id r = oid) (occurrences s)"

definition get_occurrence_by_due :: "ident \<Rightarrow> ident \<Rightarrow> time \<Rightarrow> sched_store \<Rightarrow> occurrence_row option" where
  "get_occurrence_by_due tenant sid due s =
     find (\<lambda>r. oc_tenant r = tenant \<and> oc_schedule r = sid \<and> nominal_due r = due) (occurrences s)"

definition repo_list_occurrences :: "ident \<Rightarrow> ident \<Rightarrow> sched_store \<Rightarrow> occurrence_row list" where
  "repo_list_occurrences tenant sid s =
     sort_key nominal_due (filter (\<lambda>r. oc_tenant r = tenant \<and> oc_schedule r = sid) (occurrences s))"

definition list_retryable_occurrences :: "ident \<Rightarrow> time \<Rightarrow> ident option \<Rightarrow> sched_store \<Rightarrow> occurrence_row list" where
  "list_retryable_occurrences tenant now sid s =
     sort_key eligible_at (filter (\<lambda>r. oc_tenant r = tenant \<and>
         oc_status r \<in> {O_DEFERRED, O_PREFLIGHT_BLOCKED, O_LAUNCH_FAILED, O_LAUNCHING} \<and> eligible_at r \<le> now \<and>
         (case sid of None \<Rightarrow> True | Some i \<Rightarrow> oc_schedule r = i)) (occurrences s))"

definition put_occurrence :: "occurrence_row \<Rightarrow> sched_store \<Rightarrow> sched_store" where
  "put_occurrence r s = s\<lparr>occurrences := put occurrence_id r (occurrences s)\<rparr>"

definition put_schedule :: "schedule_row \<Rightarrow> sched_store \<Rightarrow> sched_store" where
  "put_schedule r s = s\<lparr>schedules := put schedule_id r (schedules s)\<rparr>"

section \<open>Recording\<close>

text \<open>
  The event of a schedule or an occurrence and its message, in the caller's transaction. The key of
  the message is the event's id, for a schedule followed by the event's type.
\<close>

definition record_planning ::
  "ident \<Rightarrow> ident option \<Rightarrow> string \<Rightarrow> ident \<Rightarrow> string \<Rightarrow> pydict \<Rightarrow> time \<Rightarrow> (ident \<Rightarrow> string) \<Rightarrow> sched_store \<Rightarrow> sched_store res"
where
  "record_planning tenant eng atype aid etype data now key s =
     (let (eid, s1) = new_event_id s in
      bind_res (append_event \<lparr>event_id = eid, event_type = etype, event_tenant = tenant, event_engagement = eng, event_task = None,
                              occurred_at = now, payload = data\<rparr> s1)
        (outbox_add tenant atype aid etype data (key eid)))"

definition record_schedule :: "schedule_row \<Rightarrow> string \<Rightarrow> time \<Rightarrow> pydict \<Rightarrow> sched_store \<Rightarrow> sched_store res" where
  "record_schedule r etype now data =
     record_planning (sc_tenant r) None ''schedule'' (schedule_id r) etype
       (dict_merge [(''schedule_id'', PStr (schedule_id r)), (''schedule_name'', PStr (sc_name r)),
          (''schedule_version'', PInt (int (sc_version r))), (''status'', PStr (sc_status r))] data) now (\<lambda>eid. eid @ '':'' @ etype)"

definition record_occurrence :: "occurrence_row \<Rightarrow> string \<Rightarrow> pydict \<Rightarrow> sched_store \<Rightarrow> sched_store res" where
  "record_occurrence r etype data s =
     (let (now, s1) = utc_now s in
      record_planning (oc_tenant r) (oc_engagement r) ''schedule_occurrence'' (occurrence_id r) etype
        (dict_merge [(''occurrence_id'', PStr (occurrence_id r)), (''schedule_id'', PStr (oc_schedule r))] data) now (\<lambda>eid. eid) s1)"

section \<open>Authoring\<close>

record schedule_draft =
  dr_name :: string
  dr_plan :: ident
  dr_template :: ident
  dr_rule :: string
  dr_timezone :: string
  dr_from :: time
  dr_until :: "time option"
  dr_period :: audit_period_rule
  dr_calendar :: business_calendar_config
  dr_blackout :: "blackout_window list"
  dr_preflight :: pydict
  dr_launch_mode :: launch_mode
  dr_missed :: missed_occurrence_policy
  dr_catch_up :: nat
  dr_overlap :: overlap_policy
  dr_max_concurrent :: nat

definition schedule_draft_ok :: "schedule_draft \<Rightarrow> bool" where
  "schedule_draft_ok d \<longleftrightarrow>
     len_within 1 255 (dr_name d) \<and> len_within 1 64 (dr_plan d) \<and> len_within 1 64 (dr_template d) \<and> len_within 1 2000 (dr_rule d) \<and>
     len_within 1 64 (dr_timezone d) \<and> audit_period_rule_ok (dr_period d) \<and> business_calendar_config_ok (dr_calendar d) \<and>
     list_all blackout_window_ok (dr_blackout d) \<and> 1 \<le> dr_catch_up d \<and> dr_catch_up d \<le> 1000 \<and>
     1 \<le> dr_max_concurrent d \<and> dr_max_concurrent d \<le> 1000"

record schedule_decision =
  sd_actor_id :: ident
  sd_reason :: string

definition schedule_decision_ok :: "schedule_decision \<Rightarrow> bool" where
  "schedule_decision_ok d \<longleftrightarrow> len_within 1 128 (sd_actor_id d) \<and> len_within 1 4000 (sd_reason d)"

text \<open>Computing the first due time checks the rule and the time zone.\<close>

definition validate_definition :: "sched_env \<Rightarrow> schedule_draft \<Rightarrow> unit res" where
  "validate_definition env d =
     (if (case dr_until d of None \<Rightarrow> False | Some u \<Rightarrow> u < dr_from d) then Inl ScheduleConfigurationError
      else bind_res (next_after env (dr_rule d) (dr_timezone d) (dr_from d) (dr_from d - 1)) (\<lambda>_. Inr ()))"

definition next_schedule_version :: "ident \<Rightarrow> string \<Rightarrow> sched_store \<Rightarrow> nat" where
  "next_schedule_version tenant name s =
     foldr max (map sc_version (filter (\<lambda>r. sc_tenant r = tenant \<and> sc_name r = name) (schedules s))) 0 + 1"

definition new_schedule :: "ident \<Rightarrow> ident \<Rightarrow> nat \<Rightarrow> schedule_draft \<Rightarrow> time \<Rightarrow> schedule_row" where
  "new_schedule sid tenant version d now =
     \<lparr>schedule_id = sid, sc_tenant = tenant, sc_plan = dr_plan d, sc_template = dr_template d, sc_name = dr_name d, sc_version = version,
      sc_status = ''draft'', recurrence_rule = dr_rule d, sc_timezone = dr_timezone d, effective_from = dr_from d,
      effective_until = dr_until d, audit_period = dr_period d, business_calendar = dr_calendar d, blackout_windows = dr_blackout d,
      sc_preflight_policy = dr_preflight d, sc_launch_mode = dr_launch_mode d, sc_missed = dr_missed d, catch_up_limit = dr_catch_up d,
      sc_overlap = dr_overlap d, max_concurrent = dr_max_concurrent d, sc_approved_at = None, sc_approved_by = None,
      sc_approval_reason = None, sc_disabled_at = None, sc_disabled_by = None, sc_disable_reason = None, sc_created_at = now\<rparr>"

definition add_schedule :: "schedule_row \<Rightarrow> sched_store \<Rightarrow> sched_store res" where
  "add_schedule r s =
     (if has_key schedule_id (schedule_id r) (schedules s)
         \<or> has_key (\<lambda>x. (sc_tenant x, sc_name x, sc_version x)) (sc_tenant r, sc_name r, sc_version r) (schedules s)
         \<or> (case effective_until r of None \<Rightarrow> False | Some u \<Rightarrow> u < effective_from r)
         \<or> catch_up_limit r = 0 \<or> max_concurrent r = 0
         \<or> \<not> has_key plan_id (sc_plan r) (sc_plans s) \<or> \<not> has_key template_id (sc_template r) (templates s)
      then Inl IntegrityError else Inr (s\<lparr>schedules := schedules s @ [r]\<rparr>))"

definition create_draft :: "sched_env \<Rightarrow> ident \<Rightarrow> schedule_draft \<Rightarrow> sched_store \<Rightarrow> (schedule_row \<times> sched_store) res" where
  "create_draft env tenant d s =
     bind_res (validate_definition env d) (\<lambda>_.
       let (now, s1) = utc_now s in
       if get_plan tenant (dr_plan d) s = None \<or> get_template tenant (dr_template d) s = None then Inl ScheduleConfigurationError
       else
         let (sid, s2) = new_id ''sch'' s1; r = new_schedule sid tenant (next_schedule_version tenant (dr_name d) s) d now in
         bind_res (add_schedule r s2) (\<lambda>s3.
         bind_res (record_schedule r ''scheduler.schedule.draft_created'' now [] s3) (\<lambda>s4. Inr (r, s4))))"

text \<open>A revision of an active schedule is a new version of the same name.\<close>

definition revise :: "sched_env \<Rightarrow> ident \<Rightarrow> ident \<Rightarrow> schedule_draft \<Rightarrow> sched_store \<Rightarrow> (schedule_row \<times> sched_store) res" where
  "revise env tenant sid d s =
     (case get_schedule tenant sid s of
        None \<Rightarrow> Inl ScheduleNotFoundError
      | Some r \<Rightarrow> create_draft env tenant (if sc_status r = ''active'' then d\<lparr>dr_name := sc_name r\<rparr> else d) s)"

definition draft_from_row :: "schedule_row \<Rightarrow> schedule_draft" where
  "draft_from_row r =
     \<lparr>dr_name = sc_name r, dr_plan = sc_plan r, dr_template = sc_template r, dr_rule = recurrence_rule r, dr_timezone = sc_timezone r,
      dr_from = effective_from r, dr_until = effective_until r, dr_period = audit_period r, dr_calendar = business_calendar r,
      dr_blackout = blackout_windows r, dr_preflight = sc_preflight_policy r, dr_launch_mode = sc_launch_mode r, dr_missed = sc_missed r,
      dr_catch_up = catch_up_limit r, dr_overlap = sc_overlap r, dr_max_concurrent = max_concurrent r\<rparr>"

definition supersede_row :: "schedule_row \<Rightarrow> ident \<Rightarrow> time \<Rightarrow> schedule_row \<Rightarrow> schedule_row" where
  "supersede_row by_row actor now r =
     r\<lparr>sc_status := ''superseded'', sc_disabled_at := Some now, sc_disabled_by := Some actor,
       sc_disable_reason := Some (''superseded by schedule version '' @ nat_str (sc_version by_row))\<rparr>"

definition supersede :: "schedule_row \<Rightarrow> ident \<Rightarrow> time \<Rightarrow> schedule_row \<Rightarrow> sched_store \<Rightarrow> sched_store res" where
  "supersede by_row actor now r s =
     (let r' = supersede_row by_row actor now r in
      record_schedule r' ''scheduler.schedule.superseded'' now [(''replacement_schedule_id'', PStr (schedule_id by_row))] (put_schedule r' s))"

definition activate_row :: "schedule_decision \<Rightarrow> time \<Rightarrow> schedule_row \<Rightarrow> schedule_row" where
  "activate_row d now r =
     r\<lparr>sc_status := ''active'', sc_approved_at := Some now, sc_approved_by := Some (sd_actor_id d), sc_approval_reason := Some (sd_reason d),
       sc_disabled_at := None, sc_disabled_by := None, sc_disable_reason := None\<rparr>"

definition approve_schedule ::
  "sched_env \<Rightarrow> ident \<Rightarrow> ident \<Rightarrow> schedule_decision \<Rightarrow> sched_store \<Rightarrow> (schedule_row \<times> sched_store) res"
where
  "approve_schedule env tenant sid d s =
     (let (now, s1) = utc_now s in
      case get_schedule tenant sid s of
        None \<Rightarrow> Inl ScheduleNotFoundError
      | Some r \<Rightarrow>
          if sc_status r = ''active'' then Inr (r, s1)
          else if sc_status r \<noteq> ''draft'' then Inl ScheduleConfigurationError
          else if (case get_plan tenant (sc_plan r) s of None \<Rightarrow> True | Some p \<Rightarrow> ap_status p \<noteq> ''approved'')
               \<or> (case get_template tenant (sc_template r) s of None \<Rightarrow> True | Some t \<Rightarrow> tp_status t \<notin> {''approved'', ''released''})
          then Inl ScheduleConfigurationError
          else if \<not> schedule_draft_ok (draft_from_row r) then Inl ValidationError
          else bind_res (validate_definition env (draft_from_row r)) (\<lambda>_.
            bind_res (fold_res (supersede r (sd_actor_id d) now)
                (filter (\<lambda>x. sc_tenant x = tenant \<and> sc_name x = sc_name r \<and> sc_status x = ''active'' \<and> schedule_id x \<noteq> schedule_id r)
                  (schedules s)) s1) (\<lambda>s2.
            let r' = activate_row d now r; (c, s3) = get_or_create_cursor r' (put_schedule r' s2) in
            bind_res (next_after env (recurrence_rule r) (sc_timezone r) (effective_from r) (max (effective_from r) now)) (\<lambda>due.
            bind_res (record_schedule r' ''scheduler.schedule.approved'' now
                [(''actor_id'', PStr (sd_actor_id d)), (''reason'', PStr (sd_reason d))]
                (put_cursor (c\<lparr>next_due_at := due\<rparr>) s3)) (\<lambda>s4. Inr (r', s4))))))"

definition disable_schedule :: "ident \<Rightarrow> ident \<Rightarrow> schedule_decision \<Rightarrow> sched_store \<Rightarrow> (schedule_row \<times> sched_store) res" where
  "disable_schedule tenant sid d s =
     (let (now, s1) = utc_now s in
      case get_schedule tenant sid s of
        None \<Rightarrow> Inl ScheduleNotFoundError
      | Some r \<Rightarrow>
          if sc_status r = ''disabled'' then Inr (r, s1)
          else if sc_status r \<notin> {''draft'', ''active''} then Inl ScheduleConfigurationError
          else
            let r' = r\<lparr>sc_status := ''disabled'', sc_disabled_at := Some now, sc_disabled_by := Some (sd_actor_id d),
                       sc_disable_reason := Some (sd_reason d)\<rparr>;
                s2 = put_schedule r' s1;
                s3 = (case row cu_schedule (schedule_id r) (cursors s2) of
                        None \<Rightarrow> s2
                      | Some c \<Rightarrow> put_cursor (c\<lparr>cu_lease_owner := None, cu_lease_expires_at := None, next_due_at := None\<rparr>) s2)
            in bind_res (record_schedule r' ''scheduler.schedule.disabled'' now
                 [(''actor_id'', PStr (sd_actor_id d)), (''reason'', PStr (sd_reason d))] s3) (\<lambda>s4. Inr (r', s4)))"

definition view_schedule :: "ident \<Rightarrow> ident \<Rightarrow> sched_store \<Rightarrow> schedule_row res" where
  "view_schedule tenant sid s = (case get_schedule tenant sid s of None \<Rightarrow> Inl ScheduleNotFoundError | Some r \<Rightarrow> Inr r)"

definition list_schedules :: "ident \<Rightarrow> ident option \<Rightarrow> sched_store \<Rightarrow> schedule_row list" where
  "list_schedules tenant pid s =
     sort_key (\<lambda>r. (sc_name r, sc_version r))
       (filter (\<lambda>r. sc_tenant r = tenant \<and> (case pid of None \<Rightarrow> True | Some p \<Rightarrow> sc_plan r = p)) (schedules s))"

section \<open>Preflight\<close>

definition active_engagement_statuses :: "engagement_status list" where
  "active_engagement_statuses = [E_PLANNED, E_RUNNING, E_WAITING_APPROVAL, E_BLOCKED]"

definition mk_preflight :: "string \<Rightarrow> bool \<Rightarrow> string \<Rightarrow> pydict \<Rightarrow> preflight_check" where
  "mk_preflight code passed message details = \<lparr>pc_code = code, pc_passed = passed, pc_message = message, pc_details = details\<rparr>"

text \<open>Configured lists hold strings.\<close>

definition policy_strings :: "pydict \<Rightarrow> string \<Rightarrow> string list res" where
  "policy_strings p k =
     (case map_of p k of
        None \<Rightarrow> Inr []
      | Some (PList vs) \<Rightarrow> fold_res (\<lambda>v acc. case v of PStr x \<Rightarrow> Inr (acc @ [x]) | _ \<Rightarrow> Inl TypeError) vs []
      | Some _ \<Rightarrow> Inl TypeError)"

definition opt_str :: "string option \<Rightarrow> pyval" where
  "opt_str x = (case x of None \<Rightarrow> PNone | Some v \<Rightarrow> PStr v)"

definition connector_checks :: "pydict \<Rightarrow> preflight_context \<Rightarrow> preflight_check list res" where
  "connector_checks p ctx =
     bind_res (policy_strings p ''required_connectors'') (\<lambda>cs. Inr (map (\<lambda>c.
       let state = map_of (connector_health ctx) c in
       mk_preflight (''connector:'' @ c) (state = Some ''healthy'') (''Required connector '' @ str_repr c @ '' must be healthy.'')
         [(''observed_state'', opt_str state)]) cs))"

definition competency_check :: "pydict \<Rightarrow> preflight_context \<Rightarrow> preflight_check res" where
  "competency_check p ctx =
     bind_res (policy_strings p ''required_competencies'') (\<lambda>cs.
       let missing = sort (remdups (filter (\<lambda>c. c \<notin> set (available_competencies ctx)) cs)) in
       Inr (mk_preflight ''competencies_available'' (missing = []) ''Required reviewer and agent competencies must be available.''
         [(''missing'', PList (map PStr missing))]))"

fun py_float :: "(string \<Rightarrow> rat res) \<Rightarrow> pyval \<Rightarrow> rat res" where
  "py_float f (PInt n) = Inr (of_int n)"
| "py_float f (PBool b) = Inr (if b then 1 else 0)"
| "py_float f (PFloat x) = Inr x"
| "py_float f (PStr s) = f s"
| "py_float f (PEnum s) = f s"
| "py_float f _ = Inl TypeError"

definition budget_check :: "sched_env \<Rightarrow> pydict \<Rightarrow> preflight_context \<Rightarrow> preflight_check res" where
  "budget_check env p ctx =
     (let required = (case map_of p ''estimated_cost_usd'' of None \<Rightarrow> PNone | Some v \<Rightarrow> v);
          details = [(''required_usd'', required), (''available_usd'', case available_budget_usd ctx of None \<Rightarrow> PNone | Some x \<Rightarrow> PFloat x)];
          check = (\<lambda>ok. mk_preflight ''budget_available'' ok ''Configured execution budget must be available.'' details)
      in if required = PNone then Inr (check True)
         else case available_budget_usd ctx of
           None \<Rightarrow> Inr (check False)
         | Some x \<Rightarrow> bind_res (py_float (float_of env) required) (\<lambda>r. Inr (check (r \<le> x))))"

definition independence_conflict_check :: "pydict \<Rightarrow> preflight_context \<Rightarrow> preflight_check res" where
  "independence_conflict_check p ctx =
     bind_res (policy_strings p ''independence_roles'') (\<lambda>rs.
       let conflicts = sort (remdups (filter (\<lambda>r. r \<in> set (independence_conflicts ctx)) rs)) in
       Inr (mk_preflight ''independence_clear'' (conflicts = []) ''No configured independence conflict may be present.''
         [(''conflicts'', PList (map PStr conflicts))]))"

definition competing :: "schedule_row \<Rightarrow> occurrence_row \<Rightarrow> sched_store \<Rightarrow> engagement_scope list" where
  "competing r oc s =
     filter (\<lambda>g. eg_tenant g = sc_tenant r \<and> eg_template g = Some (sc_template r) \<and>
         (\<exists>e \<in> set (engagements s). engagement_id e = eg_engagement g \<and> eng_status e \<in> set active_engagement_statuses) \<and>
         (oc_engagement oc = None \<or> oc_engagement oc \<noteq> Some (eg_engagement g))) (engagement_scopes s)"

definition concurrency_check :: "schedule_row \<Rightarrow> occurrence_row \<Rightarrow> sched_store \<Rightarrow> preflight_check" where
  "concurrency_check r oc s =
     (let active = length (competing r oc s) in
      mk_preflight ''concurrency_limit'' (active < max_concurrent r) ''Concurrent engagement limit must not be exceeded.''
        [(''active'', PInt (int active)), (''limit'', PInt (int (max_concurrent r)))])"

definition overlap_check :: "schedule_row \<Rightarrow> occurrence_row \<Rightarrow> sched_store \<Rightarrow> preflight_check" where
  "overlap_check r oc s =
     (if sc_overlap r = ALLOW_OVERLAP then mk_preflight ''period_overlap'' True ''Period overlap is allowed by policy.'' []
      else
        let overlap = map_option eg_engagement
          (find (\<lambda>g. eg_period_start g \<le> oc_period_end oc \<and> oc_period_start oc \<le> eg_period_end g) (competing r oc s)) in
        mk_preflight ''period_overlap'' (overlap = None) ''An equivalent active engagement must not overlap this audit period.''
          [(''conflicting_engagement_id'', opt_str overlap)])"

definition standing_checks :: "schedule_row \<Rightarrow> template_row \<Rightarrow> sched_store \<Rightarrow> preflight_check list" where
  "standing_checks r t s =
     [mk_preflight ''tenant_active'' (case row tn_tenant (sc_tenant r) (sc_tenants s) of None \<Rightarrow> False | Some x \<Rightarrow> tn_status x = ''active'')
        ''Tenant must be active.'' [],
      mk_preflight ''plan_approved'' (case row plan_id (sc_plan r) (sc_plans s) of None \<Rightarrow> False | Some p \<Rightarrow> ap_status p = ''approved'')
        ''Audit plan must be approved.'' [],
      mk_preflight ''schedule_active'' (sc_status r = ''active'') ''Schedule must be active.'' [],
      mk_preflight ''template_released'' (tp_status t \<in> {''released'', ''approved''}) ''Engagement template must be released.'' [],
      mk_preflight ''workflow_present'' (tp_workflow t \<noteq> None) ''Template must contain a workflow definition.'' []]"

definition evaluate_preflight ::
  "sched_env \<Rightarrow> schedule_row \<Rightarrow> template_row \<Rightarrow> occurrence_row \<Rightarrow> preflight_context \<Rightarrow> time \<Rightarrow> sched_store \<Rightarrow> preflight_report res"
where
  "evaluate_preflight env r t oc ctx now s =
     (let p = dict_merge (tp_preflight_policy t) (sc_preflight_policy r) in
      bind_res (connector_checks p ctx) (\<lambda>connectors.
      bind_res (competency_check p ctx) (\<lambda>competency.
      bind_res (budget_check env p ctx) (\<lambda>budget.
      bind_res (independence_conflict_check p ctx) (\<lambda>independence.
        let checks = standing_checks r t s @ connectors @ [competency, budget, independence, concurrency_check r oc s, overlap_check r oc s]
        in Inr \<lparr>pf_passed = list_all pc_passed checks, pf_checked_at = now, pf_checks = checks\<rparr>)))))"

definition check_dict :: "preflight_check \<Rightarrow> pyval" where
  "check_dict c = PDict [(''code'', PStr (pc_code c)), (''passed'', PBool (pc_passed c)), (''message'', PStr (pc_message c)),
     (''details'', PDict (pc_details c))]"

definition report_dict :: "(time \<Rightarrow> string) \<Rightarrow> preflight_report \<Rightarrow> pydict" where
  "report_dict render r = [(''passed'', PBool (pf_passed r)), (''checked_at'', PStr (render (pf_checked_at r))),
     (''checks'', PList (map check_dict (pf_checks r)))]"

end
