(* ===== verification/Scheduling.thy ===== *)
theory Scheduling
  imports Schedules
begin

text \<open>
  The scheduler (\<open>scheduling/service.py\<close>): materialising due occurrences, preflight, approval and
  launch. A method of the service runs several transactions, each committed before the next; the
  model has one definition per transaction, and a job says which one comes next. The launcher calls
  the orchestrator, which works on its own part of the store.
\<close>

section \<open>Selection and creation\<close>

definition select_missed :: "schedule_row \<Rightarrow> time list \<Rightarrow> time list \<times> time list" where
  "select_missed r due =
     (if due = [] then ([], [])
      else case sc_missed r of
        SKIP_MISSED \<Rightarrow> ([], due)
      | LAUNCH_LATEST \<Rightarrow> ([last due], butlast due)
      | LAUNCH_ALL \<Rightarrow>
          (if catch_up_limit r = 0 then due else drop (length due - catch_up_limit r) due,
           if catch_up_limit r < length due \<and> catch_up_limit r \<noteq> 0 then take (length due - catch_up_limit r) due else []))"

definition period_dict :: "audit_period_rule \<Rightarrow> pyval" where
  "period_dict p = PDict [(''kind'', PStr (case pr_kind p of CALENDAR_MONTHS \<Rightarrow> ''calendar_months'' | ROLLING_DAYS \<Rightarrow> ''rolling_days'')),
     (''months'', PInt (pr_months p)), (''days'', PInt (pr_days p)), (''end_offset_days'', PInt (end_offset_days p))]"

definition schedule_snapshot_of :: "schedule_row \<Rightarrow> pydict" where
  "schedule_snapshot_of r = [(''schedule_id'', PStr (schedule_id r)), (''version'', PInt (int (sc_version r))), (''plan_id'', PStr (sc_plan r)),
     (''template_id'', PStr (sc_template r)), (''recurrence_rule'', PStr (recurrence_rule r)), (''timezone'', PStr (sc_timezone r)),
     (''audit_period_rule'', period_dict (audit_period r)), (''launch_mode'', PStr (launch_mode_value (sc_launch_mode r))),
     (''overlap_policy'', PStr (overlap_policy_value (sc_overlap r)))]"

definition template_snapshot_of :: "template_row \<Rightarrow> pydict" where
  "template_snapshot_of t = [(''template_id'', PStr (template_id t)), (''version'', PInt (int (tp_version t))),
     (''audit_pack_ref'', PStr (tp_audit_pack_ref t)), (''objectives'', PList (map PStr (tp_objectives t))), (''scope'', PDict (tp_scope t)),
     (''workflow_version'', tp_workflow_version t)]"

definition occurrence_id_for :: "sched_env \<Rightarrow> sched_store \<Rightarrow> ident \<Rightarrow> time \<Rightarrow> ident" where
  "occurrence_id_for env s sid due = ''occ_'' @ take 20 (hexdigest env (sid @ ''|'' @ isoformat s due))"

definition engagement_id_for :: "sched_env \<Rightarrow> ident \<Rightarrow> ident" where
  "engagement_id_for env oid = ''eng_'' @ take 20 (hexdigest env oid)"

definition new_occurrence ::
  "sched_env \<Rightarrow> sched_store \<Rightarrow> schedule_row \<Rightarrow> template_row \<Rightarrow> time \<Rightarrow> bool \<Rightarrow> blackout_resolution \<Rightarrow> day \<times> day \<Rightarrow> occurrence_row"
where
  "new_occurrence env s r t due forced_skip b period =
     (let (status, reason) =
        (if forced_skip then (O_SKIPPED, Some ''missed occurrence skipped by catch-up policy'')
         else if br_action b = ''skip'' then (O_SKIPPED, br_reason b)
         else if br_action b = ''delay'' then (O_DEFERRED, br_reason b)
         else (O_DUE, None)) in
      \<lparr>occurrence_id = occurrence_id_for env s (schedule_id r) due, oc_tenant = sc_tenant r, oc_schedule = schedule_id r,
       oc_engagement = None, nominal_due = due, eligible_at = instant_of env (sc_timezone r) (br_eligible_at b),
       oc_period_start = fst period, oc_period_end = snd period, oc_status = status, decision_reason = reason, decision_by = None,
       oc_schedule_version = sc_version r, oc_template_version = tp_version t, schedule_snapshot = schedule_snapshot_of r,
       template_snapshot = template_snapshot_of t, preflight_result = [], oc_evaluated_at = None, oc_launched_at = None,
       launch_attempts = 0, oc_last_error = None\<rparr>)"

definition create_occurrence ::
  "sched_env \<Rightarrow> schedule_row \<Rightarrow> time list \<Rightarrow> time \<Rightarrow> sched_store \<Rightarrow> ((occurrence_row \<times> bool) \<times> sched_store) res"
where
  "create_occurrence env r skipped due s =
     (case get_occurrence_by_due (sc_tenant r) (schedule_id r) due s of
        Some oc \<Rightarrow> Inr ((oc, False), s)
      | None \<Rightarrow>
          (case get_template (sc_tenant r) (sc_template r) s of
             None \<Rightarrow> Inl ScheduleConfigurationError
           | Some t \<Rightarrow>
               if \<not> zone_known env (sc_timezone r) then Inl RecurrenceError
               else let due_local = local_of env (sc_timezone r) due in
                 bind_res (resolve_blackout (business_calendar r) due_local (blackout_windows r)) (\<lambda>b.
                 bind_res (calculate_period (months_before env) due_local (audit_period r)) (\<lambda>period.
                   let oc = new_occurrence env s r t due (due \<in> set skipped) b period in
                   bind_res (insert_occurrence oc s) (\<lambda>s1.
                   bind_res (record_occurrence oc ''scheduler.occurrence.created'' [(''status'', PStr (occurrence_status_value (oc_status oc)))] s1)
                     (\<lambda>s2. Inr ((oc, True), s2)))))))"

record materialization =
  mz_created :: nat
  mz_candidates :: "ident list"
  mz_occurrences :: "ident list"
  mz_skipped :: nat
  mz_deferred :: nat

definition nothing_materialized :: materialization where
  "nothing_materialized = \<lparr>mz_created = 0, mz_candidates = [], mz_occurrences = [], mz_skipped = 0, mz_deferred = 0\<rparr>"

definition count_occurrence :: "occurrence_row \<Rightarrow> bool \<Rightarrow> materialization \<Rightarrow> materialization" where
  "count_occurrence oc created m =
     (let n = (if created then 1 else 0);
          m' = m\<lparr>mz_created := mz_created m + n, mz_occurrences := mz_occurrences m @ [occurrence_id oc]\<rparr> in
      if oc_status oc = O_SKIPPED then m'\<lparr>mz_skipped := mz_skipped m + n\<rparr>
      else if oc_status oc = O_DEFERRED then m'\<lparr>mz_deferred := mz_deferred m + n\<rparr>
      else m'\<lparr>mz_candidates := mz_candidates m @ [occurrence_id oc]\<rparr>)"

definition materialize_one ::
  "sched_env \<Rightarrow> schedule_row \<Rightarrow> time list \<Rightarrow> time \<Rightarrow> materialization \<times> sched_store \<Rightarrow> (materialization \<times> sched_store) res"
where
  "materialize_one env r skipped due ms =
     bind_res (create_occurrence env r skipped due (snd ms)) (\<lambda>((oc, created), s'). Inr (count_occurrence oc created (fst ms), s'))"

definition evaluation_start :: "schedule_row \<Rightarrow> cursor_row \<Rightarrow> time" where
  "evaluation_start r c = (case last_evaluated_at c of Some t \<Rightarrow> t | None \<Rightarrow> effective_from r - 1 / 1000000)"

definition evaluation_end :: "schedule_row \<Rightarrow> time \<Rightarrow> time" where
  "evaluation_end r now = (case effective_until r of None \<Rightarrow> now | Some u \<Rightarrow> min now u)"

definition materialize_due_occurrences ::
  "sched_env \<Rightarrow> ident \<Rightarrow> ident \<Rightarrow> time \<Rightarrow> ident \<Rightarrow> int \<Rightarrow> sched_store \<Rightarrow> (materialization \<times> sched_store) res"
where
  "materialize_due_occurrences env tenant sid now worker secs s =
     (case get_schedule tenant sid s of
        None \<Rightarrow> Inl ScheduleNotFoundError
      | Some r \<Rightarrow>
          (case acquire_cursor_lease r worker now secs s of
             (None, s1) \<Rightarrow> Inr (nothing_materialized, s1)
           | (Some c, s1) \<Rightarrow>
               let start = evaluation_start r c; stop = evaluation_end r now;
                   next = next_after env (recurrence_rule r) (sc_timezone r) (effective_from r) stop in
               if stop \<le> start
               then bind_res next (\<lambda>due. Inr (nothing_materialized, release_cursor c now due s1))
               else
                 bind_res (occurrences_between env (recurrence_rule r) (sc_timezone r) (effective_from r) start stop 1000) (\<lambda>dues.
                   let (selected, skipped) = select_missed r dues in
                   bind_res (fold_res (materialize_one env r skipped) (skipped @ selected) (nothing_materialized, s1)) (\<lambda>(m, s2).
                   bind_res next (\<lambda>due. Inr (m, release_cursor c now due s2))))))"

section \<open>Simulation\<close>

record simulation_item =
  si_nominal_due :: time
  si_eligible_at :: time
  si_period_start :: day
  si_period_end :: day
  si_blackout_action :: string
  si_blackout_reason :: "string option"

definition simulate_due :: "sched_env \<Rightarrow> schedule_row \<Rightarrow> time \<Rightarrow> simulation_item res" where
  "simulate_due env r due =
     (let due_local = local_of env (sc_timezone r) due in
      bind_res (resolve_blackout (business_calendar r) due_local (blackout_windows r)) (\<lambda>b.
      bind_res (calculate_period (months_before env) due_local (audit_period r)) (\<lambda>period.
        Inr \<lparr>si_nominal_due = due, si_eligible_at = instant_of env (sc_timezone r) (br_eligible_at b), si_period_start = fst period,
             si_period_end = snd period, si_blackout_action = br_action b, si_blackout_reason = br_reason b\<rparr>)))"

definition simulate_schedule :: "sched_env \<Rightarrow> schedule_row \<Rightarrow> time \<Rightarrow> time \<Rightarrow> nat \<Rightarrow> simulation_item list res" where
  "simulate_schedule env r from upto_time limit =
     (if upto_time < from then Inl ValueError
      else let stop = evaluation_end r upto_time in
        if stop < effective_from r then Inr []
        else
          bind_res (occurrences_between env (recurrence_rule r) (sc_timezone r) (effective_from r) (from - 1 / 1000000) stop limit) (\<lambda>dues.
            fold_res (\<lambda>due acc. bind_res (simulate_due env r due) (\<lambda>i. Inr (acc @ [i]))) dues []))"

definition simulate_occurrences ::
  "sched_env \<Rightarrow> ident \<Rightarrow> ident \<Rightarrow> time \<Rightarrow> time \<Rightarrow> nat \<Rightarrow> sched_store \<Rightarrow> simulation_item list res"
where
  "simulate_occurrences env tenant sid from upto_time limit s =
     bind_res (view_schedule tenant sid s) (\<lambda>r. simulate_schedule env r from upto_time limit)"

section \<open>Transactions of a launch\<close>

definition on_orchestrator :: "(orch_store \<Rightarrow> ('a \<times> orch_store) res) \<Rightarrow> sched_store \<Rightarrow> ('a \<times> sched_store) res" where
  "on_orchestrator f s = bind_res (f (orch_store.truncate s)) (\<lambda>(x, t). Inr (x, orch_store.extend t (orch_store.more s)))"

fun dash_runs :: "bool \<Rightarrow> string \<Rightarrow> string" where
  "dash_runs after_dash [] = []"
| "dash_runs after_dash (c # cs) =
     (let n = of_char c :: nat in
      if 48 \<le> n \<and> n \<le> 57 \<or> 65 \<le> n \<and> n \<le> 90 \<or> 97 \<le> n \<and> n \<le> 122 then c # dash_runs False cs
      else if after_dash then dash_runs True cs else CHR ''-'' # dash_runs True cs)"

definition strip_dashes :: "string \<Rightarrow> string" where
  "strip_dashes s = rev (dropWhile (\<lambda>c. c = CHR ''-'') (rev (dropWhile (\<lambda>c. c = CHR ''-'') s)))"

definition engagement_code :: "sched_env \<Rightarrow> schedule_row \<Rightarrow> occurrence_row \<Rightarrow> string" where
  "engagement_code env r oc =
     (let name = take 40 (map ascii_upper (strip_dashes (dash_runs False (sc_name r)))) in
      (if name = [] then ''AUDIT'' else name) @ ''-'' @ utc_stamp env (nominal_due oc) @ ''-'' @
      map ascii_upper (drop (length (occurrence_id oc) - 6) (occurrence_id oc)))"

text \<open>
  The engagement a launch adds, without its title. Its code, period and scope are kept beside the
  row, since the orchestrator reads none of them; the unique code is therefore checked among the
  engagements that were launched from schedules, and what other clients add has no code here. The
  row is flushed after \<open>launch_retry_seconds\<close> has been read.\<close>

definition add_engagement_for ::
  "sched_env \<Rightarrow> schedule_row \<Rightarrow> template_row \<Rightarrow> occurrence_row \<Rightarrow> ident \<Rightarrow> sched_store \<Rightarrow> sched_store res"
where
  "add_engagement_for env r t oc eid s =
     (let (created, s1) = utc_now s;
          g = \<lparr>eg_engagement = eid, eg_tenant = oc_tenant oc, eg_template = Some (template_id t), eg_code = engagement_code env r oc,
               eg_audit_pack_ref = tp_audit_pack_ref t, eg_period_start = oc_period_start oc, eg_period_end = oc_period_end oc,
               eg_scope = dict_merge (tp_scope t) [(''schedule_occurrence_id'', PStr (occurrence_id oc))]\<rparr> in
      if has_key (\<lambda>x. (eg_tenant x, eg_code x)) (eg_tenant g, eg_code g) (engagement_scopes s) then Inl IntegrityError
      else bind_res (add_engagement \<lparr>engagement_id = eid, eng_tenant = oc_tenant oc, eng_status = E_PLANNED, eng_created_at = created,
                                     eng_started_at = None, eng_completed_at = None\<rparr> s1)
        (\<lambda>s2. Inr (s2\<lparr>engagement_scopes := engagement_scopes s2 @ [g]\<rparr>)))"

definition launch_retry_seconds :: "pydict \<Rightarrow> int res" where
  "launch_retry_seconds p =
     bind_res (py_int (case map_of p ''launch_retry_seconds'' of None \<Rightarrow> PInt 300 | Some v \<Rightarrow> v)) (\<lambda>n. Inr (max n 1))"

text \<open>Assigning an engagement to an occurrence keeps the column unique.\<close>

definition assign_engagement :: "occurrence_row \<Rightarrow> sched_store \<Rightarrow> sched_store res" where
  "assign_engagement oc s =
     (if \<exists>x \<in> set (occurrences s). occurrence_id x \<noteq> occurrence_id oc \<and> oc_engagement x = oc_engagement oc then Inl IntegrityError
      else Inr (put_occurrence oc s))"

text \<open>The first transaction of \<open>_launch\<close>: nothing to do for a launched occurrence.\<close>

record launch_start =
  ls_engagement :: ident
  ls_workflow :: workflow_definition
  ls_now :: time

definition launching_row :: "ident \<Rightarrow> time \<Rightarrow> int \<Rightarrow> occurrence_row \<Rightarrow> occurrence_row" where
  "launching_row eid now secs oc =
     oc\<lparr>oc_engagement := Some eid, oc_status := O_LAUNCHING, launch_attempts := launch_attempts oc + 1, oc_last_error := None,
        eligible_at := now + of_int secs\<rparr>"

definition begin_launch :: "sched_env \<Rightarrow> ident \<Rightarrow> ident \<Rightarrow> sched_store \<Rightarrow> (launch_start option \<times> sched_store) res" where
  "begin_launch env tenant oid s =
     (let (now, s1) = utc_now s in
      case get_occurrence tenant oid s of
        None \<Rightarrow> Inl OccurrenceNotFoundError
      | Some oc \<Rightarrow>
          if oc_status oc = O_LAUNCHED then Inr (None, s1)
          else if oc_status oc \<in> {O_CANCELLED, O_SKIPPED} then Inl OccurrenceStateError
          else (case get_schedule tenant (oc_schedule oc) s of
            None \<Rightarrow> Inl ScheduleConfigurationError
          | Some r \<Rightarrow>
              (case get_template tenant (sc_template r) s of
                 None \<Rightarrow> Inl ScheduleConfigurationError
               | Some t \<Rightarrow>
                   bind_res (case tp_workflow t of None \<Rightarrow> Inl ValidationError | Some w \<Rightarrow> w) (\<lambda>w.
                   let eid = (case oc_engagement oc of Some i \<Rightarrow> if i = [] then engagement_id_for env oid else i
                                                     | None \<Rightarrow> engagement_id_for env oid) in
                   bind_res (launch_retry_seconds (sc_preflight_policy r)) (\<lambda>secs.
                   bind_res (if get_engagement tenant eid s1 = None then add_engagement_for env r t oc eid s1 else Inr s1) (\<lambda>s2.
                   let oc' = launching_row eid now secs oc in
                   bind_res (assign_engagement oc' s2) (\<lambda>s3.
                   bind_res (record_occurrence oc' ''scheduler.launch.started''
                       [(''engagement_id'', PStr eid), (''launch_attempt'', PInt (int (launch_attempts oc'))),
                        (''recovery_eligible_at'', PStr (isoformat s (eligible_at oc')))] s3) (\<lambda>s4.
                     Inr (Some \<lparr>ls_engagement = eid, ls_workflow = w, ls_now = now\<rparr>, s4)))))))))"

definition launched_row :: "time \<Rightarrow> occurrence_row \<Rightarrow> occurrence_row" where
  "launched_row now oc =
     oc\<lparr>oc_status := O_LAUNCHED, oc_launched_at := Some now, eligible_at := now, decision_reason := None, oc_last_error := None\<rparr>"

definition finish_launch :: "ident \<Rightarrow> ident \<Rightarrow> ident \<Rightarrow> time \<Rightarrow> sched_store \<Rightarrow> sched_store res" where
  "finish_launch tenant oid eid now s =
     (case get_occurrence tenant oid s of
        None \<Rightarrow> Inl OccurrenceNotFoundError
      | Some oc \<Rightarrow>
          if oc_status oc = O_LAUNCHED then Inr s
          else let oc' = launched_row now oc in
            record_occurrence oc' ''scheduler.launch.completed'' [(''engagement_id'', PStr eid)] (put_occurrence oc' s))"

definition failed_launch_row :: "string \<Rightarrow> time \<Rightarrow> int \<Rightarrow> occurrence_row \<Rightarrow> occurrence_row" where
  "failed_launch_row err now secs oc =
     oc\<lparr>oc_status := O_LAUNCH_FAILED, oc_last_error := Some err, decision_reason := Some err, eligible_at := now + of_int secs\<rparr>"

text \<open>The exception handler of \<open>_attempt_launch\<close>.\<close>

definition fail_launch :: "sched_env \<Rightarrow> ident \<Rightarrow> ident \<Rightarrow> exn \<Rightarrow> sched_store \<Rightarrow> sched_store res" where
  "fail_launch env tenant oid e s =
     (let (now, s1) = utc_now s in
      case get_occurrence tenant oid s of
        None \<Rightarrow> Inr s1
      | Some oc \<Rightarrow>
          let policy = (case get_schedule tenant (oc_schedule oc) s of None \<Rightarrow> [] | Some r \<Rightarrow> sc_preflight_policy r) in
          bind_res (launch_retry_seconds policy) (\<lambda>secs.
            let oc' = failed_launch_row (exn_text env e) now secs oc in
            record_occurrence oc' ''scheduler.launch.failed''
              [(''error'', PStr (exn_text env e)), (''retry_at'', PStr (isoformat s (eligible_at oc'))),
               (''launch_attempts'', PInt (int (launch_attempts oc')))] (put_occurrence oc' s1)))"

definition waiting_row :: "string \<Rightarrow> occurrence_row \<Rightarrow> occurrence_row" where
  "waiting_row reason oc = oc\<lparr>oc_status := O_WAITING_APPROVAL, decision_reason := Some reason\<rparr>"

definition mark_waiting_approval :: "ident \<Rightarrow> ident \<Rightarrow> sched_store \<Rightarrow> (bool \<times> sched_store) res" where
  "mark_waiting_approval tenant oid s =
     (case get_occurrence tenant oid s of
        None \<Rightarrow> Inr (False, s)
      | Some oc \<Rightarrow>
          if oc_status oc = O_WAITING_APPROVAL then Inr (False, s)
          else let oc' = waiting_row ''start approval required before preflight'' oc in
            bind_res (record_occurrence oc' ''scheduler.occurrence.waiting_approval'' [] (put_occurrence oc' s)) (\<lambda>s1. Inr (True, s1)))"

datatype preflight_outcome = PF_BLOCKED | PF_WAITING | PF_GO

definition blocked_row :: "string \<Rightarrow> occurrence_row \<Rightarrow> occurrence_row" where
  "blocked_row reason oc = oc\<lparr>oc_status := O_PREFLIGHT_BLOCKED, decision_reason := Some reason\<rparr>"

definition preflight_transaction ::
  "sched_env \<Rightarrow> ident \<Rightarrow> ident \<Rightarrow> preflight_context \<Rightarrow> bool \<Rightarrow> sched_store \<Rightarrow> (preflight_outcome \<times> sched_store) res"
where
  "preflight_transaction env tenant oid ctx granted s =
     (let (now, s1) = utc_now s in
      case get_occurrence tenant oid s of
        None \<Rightarrow> Inl OccurrenceNotFoundError
      | Some oc \<Rightarrow>
          (case (case get_schedule tenant (oc_schedule oc) s of None \<Rightarrow> None
                 | Some r \<Rightarrow> map_option (\<lambda>t. (r, t)) (get_template tenant (sc_template r) s)) of
             None \<Rightarrow>
               let oc' = blocked_row ''schedule or template is unavailable'' oc in
               bind_res (record_occurrence oc' ''scheduler.preflight.blocked'' [(''reason'', PStr ''schedule or template is unavailable'')]
                   (put_occurrence oc' s1)) (\<lambda>s2. Inr (PF_BLOCKED, s2))
           | Some (r, t) \<Rightarrow>
               bind_res (evaluate_preflight env r t oc ctx now s1) (\<lambda>report.
                 let dump = report_dict (isoformat s) report; oc1 = oc\<lparr>preflight_result := dump, oc_evaluated_at := Some now\<rparr> in
                 if \<not> pf_passed report
                 then let oc' = blocked_row (join ''; '' (map pc_code (filter (\<lambda>c. \<not> pc_passed c) (pf_checks report)))) oc1 in
                   bind_res (record_occurrence oc' ''scheduler.preflight.blocked'' dump (put_occurrence oc' s1)) (\<lambda>s2. Inr (PF_BLOCKED, s2))
                 else
                   bind_res (record_occurrence oc1 ''scheduler.preflight.passed'' dump s1) (\<lambda>s2.
                     if sc_launch_mode r = PREFLIGHT_THEN_APPROVAL \<and> \<not> granted
                     then Inr (PF_WAITING, put_occurrence (waiting_row ''preflight passed; start approval required'' oc1) s2)
                     else Inr (PF_GO, put_occurrence oc1 s2)))))"

section \<open>Jobs\<close>

text \<open>
  What is left to do for an occurrence. A job is one transaction or one read; it ends, raises, or
  says what comes next. Every exception of \<open>_launch\<close> is caught.
\<close>

datatype job =
    ProcessJob ident preflight_context
  | WaitJob ident
  | PreflightJob ident preflight_context bool
  | LaunchJob ident
  | ReadJob ident launch_start
  | CompileJob ident launch_start bool
  | StartJob ident launch_start
  | FinishJob ident launch_start
  | FailJob ident exn

datatype job_result = Next job | Raised exn | Ended | Ended_waiting | Ended_blocked | Ended_launched | Ended_failed

definition job_result_of :: "(exn \<Rightarrow> job_result) \<Rightarrow> (job_result \<times> sched_store) res \<Rightarrow> sched_store \<Rightarrow> job_result \<times> sched_store" where
  "job_result_of handler m s = (case m of Inl e \<Rightarrow> (handler e, s) | Inr r \<Rightarrow> r)"

definition process_occurrence :: "ident \<Rightarrow> ident \<Rightarrow> preflight_context \<Rightarrow> sched_store \<Rightarrow> job_result" where
  "process_occurrence tenant oid ctx s =
     (case get_occurrence tenant oid s of
        None \<Rightarrow> Ended
      | Some oc \<Rightarrow>
          (case get_schedule tenant (oc_schedule oc) s of
             None \<Rightarrow> Ended
           | Some r \<Rightarrow>
               if oc_status oc = O_LAUNCHING then Next (LaunchJob oid)
               else if sc_launch_mode r = APPROVAL_REQUIRED
               then (if truthy (decision_by oc) then Next (PreflightJob oid ctx True) else Next (WaitJob oid))
               else Next (PreflightJob oid ctx (truthy (decision_by oc)))))"

definition read_launch :: "ident \<Rightarrow> ident \<Rightarrow> launch_start \<Rightarrow> sched_store \<Rightarrow> job_result" where
  "read_launch tenant oid l s =
     (let planned = (case get_engagement tenant (ls_engagement l) s of None \<Rightarrow> False | Some e \<Rightarrow> eng_status e = E_PLANNED) in
      if list_tasks tenant (ls_engagement l) s = [] then Next (CompileJob oid l planned)
      else if planned then Next (StartJob oid l) else Next (FinishJob oid l))"

fun job_step :: "sched_env \<Rightarrow> ident \<Rightarrow> job \<Rightarrow> sched_store \<Rightarrow> job_result \<times> sched_store" where
  "job_step env tenant (ProcessJob oid ctx) s = (process_occurrence tenant oid ctx s, s)"
| "job_step env tenant (WaitJob oid) s =
     job_result_of Raised (bind_res (mark_waiting_approval tenant oid s) (\<lambda>(w, s'). Inr (if w then Ended_waiting else Ended, s'))) s"
| "job_step env tenant (PreflightJob oid ctx granted) s =
     job_result_of Raised (bind_res (preflight_transaction env tenant oid ctx granted s) (\<lambda>(p, s').
       Inr (case p of PF_BLOCKED \<Rightarrow> Ended_blocked | PF_WAITING \<Rightarrow> Ended_waiting | PF_GO \<Rightarrow> Next (LaunchJob oid), s'))) s"
| "job_step env tenant (LaunchJob oid) s =
     job_result_of (\<lambda>e. Next (FailJob oid e)) (bind_res (begin_launch env tenant oid s) (\<lambda>(l, s').
       Inr (case l of None \<Rightarrow> Ended_launched | Some l \<Rightarrow> Next (ReadJob oid l), s'))) s"
| "job_step env tenant (ReadJob oid l) s = (read_launch tenant oid l s, s)"
| "job_step env tenant (CompileJob oid l planned) s =
     job_result_of (\<lambda>e. Next (FailJob oid e))
       (let (now, s1) = utc_now s in
        bind_res (on_orchestrator (compile_workflow tenant (ls_engagement l) (ls_workflow l) now) s1) (\<lambda>(_, s').
          Inr (Next (if planned then StartJob oid l else FinishJob oid l), s'))) s"
| "job_step env tenant (StartJob oid l) s =
     job_result_of (\<lambda>e. Next (FailJob oid e))
       (let (now, s1) = utc_now s in
        bind_res (on_orchestrator (start_engagement tenant (ls_engagement l) now) s1) (\<lambda>(_, s'). Inr (Next (FinishJob oid l), s'))) s"
| "job_step env tenant (FinishJob oid l) s =
     job_result_of (\<lambda>e. Next (FailJob oid e))
       (bind_res (finish_launch tenant oid (ls_engagement l) (ls_now l) s) (\<lambda>s'. Inr (Ended_launched, s'))) s"
| "job_step env tenant (FailJob oid e) s =
     job_result_of Raised (bind_res (fail_launch env tenant oid e s) (\<lambda>s'. Inr (Ended_failed, s'))) s"

text \<open>A job never leads back: a call ends after at most eight transactions.\<close>

fun job_rank :: "job \<Rightarrow> nat" where
  "job_rank (ProcessJob _ _) = 8"
| "job_rank (PreflightJob _ _ _) = 7"
| "job_rank (LaunchJob _) = 6"
| "job_rank (ReadJob _ _) = 5"
| "job_rank (CompileJob _ _ _) = 4"
| "job_rank (StartJob _ _) = 3"
| "job_rank (FinishJob _ _) = 2"
| "job_rank (FailJob _ _) = 1"
| "job_rank (WaitJob _) = 1"

lemma job_result_of_Next:
  "fst (job_result_of handler m s) = Next k \<longleftrightarrow> (\<exists>e. m = Inl e \<and> handler e = Next k) \<or> (\<exists>s'. m = Inr (Next k, s'))"
  by (cases m) (auto simp: job_result_of_def)

lemma job_step_rank: "fst (job_step env tenant j s) = Next k \<Longrightarrow> job_rank k < job_rank j"
proof (cases j)
  case (PreflightJob oid ctx granted)
  moreover assume "fst (job_step env tenant j s) = Next k"
  ultimately obtain p where
    "(case p of PF_BLOCKED \<Rightarrow> Ended_blocked | PF_WAITING \<Rightarrow> Ended_waiting | PF_GO \<Rightarrow> Next (LaunchJob oid)) = Next k"
    by (auto simp: job_result_of_Next split_beta res_simps)
  then show ?thesis using PreflightJob by (cases p) auto
qed (auto simp: job_result_of_Next process_occurrence_def read_launch_def Let_def split_beta res_simps
      split: option.splits if_splits)

function run_job :: "sched_env \<Rightarrow> ident \<Rightarrow> job \<Rightarrow> sched_store \<Rightarrow> job_result \<times> sched_store" where
  "run_job env tenant j s =
     (case fst (job_step env tenant j s) of
        Next k \<Rightarrow> run_job env tenant k (snd (job_step env tenant j s))
      | r \<Rightarrow> (r, snd (job_step env tenant j s)))"
  by pat_completeness auto

termination
  by (relation "measure (\<lambda>(env, tenant, j, s). job_rank j)") (auto dest: job_step_rank)

declare run_job.simps [simp del]

section \<open>The service\<close>

record evaluation_summary =
  es_evaluated_at :: time
  es_schedules :: nat
  es_created :: nat
  es_launched :: nat
  es_waiting :: nat
  es_blocked :: nat
  es_skipped :: nat
  es_deferred :: nat
  es_failures :: nat
  es_occurrences :: "ident list"

definition count_result :: "job_result \<Rightarrow> evaluation_summary \<Rightarrow> evaluation_summary" where
  "count_result r m =
     (case r of
        Ended_waiting \<Rightarrow> m\<lparr>es_waiting := es_waiting m + 1\<rparr>
      | Ended_blocked \<Rightarrow> m\<lparr>es_blocked := es_blocked m + 1\<rparr>
      | Ended_launched \<Rightarrow> m\<lparr>es_launched := es_launched m + 1\<rparr>
      | Ended_failed \<Rightarrow> m\<lparr>es_failures := es_failures m + 1\<rparr>
      | _ \<Rightarrow> m)"

text \<open>A method that raises leaves what its transactions committed.\<close>

type_synonym 'a run = "'a res \<times> sched_store"

definition bind_run :: "'a run \<Rightarrow> ('a \<Rightarrow> sched_store \<Rightarrow> 'b run) \<Rightarrow> 'b run" where
  "bind_run m k = (case fst m of Inl e \<Rightarrow> (Inl e, snd m) | Inr x \<Rightarrow> k x (snd m))"

definition commit :: "('a \<times> sched_store) res \<Rightarrow> sched_store \<Rightarrow> 'a run" where
  "commit m s = (case m of Inl e \<Rightarrow> (Inl e, s) | Inr (x, s') \<Rightarrow> (Inr x, s'))"

fun fold_run :: "('x \<Rightarrow> 'a \<Rightarrow> sched_store \<Rightarrow> 'a run) \<Rightarrow> 'x list \<Rightarrow> 'a \<Rightarrow> sched_store \<Rightarrow> 'a run" where
  "fold_run f [] a s = (Inr a, s)"
| "fold_run f (x # xs) a s = bind_run (f x a s) (fold_run f xs)"

definition process_one ::
  "sched_env \<Rightarrow> ident \<Rightarrow> preflight_context \<Rightarrow> ident \<Rightarrow> evaluation_summary \<Rightarrow> sched_store \<Rightarrow> evaluation_summary run"
where
  "process_one env tenant ctx oid m s =
     (let m1 = (if oid \<in> set (es_occurrences m) then m else m\<lparr>es_occurrences := es_occurrences m @ [oid]\<rparr>);
          (r, s') = run_job env tenant (ProcessJob oid ctx) s in
      case r of Raised e \<Rightarrow> (Inl e, s') | _ \<Rightarrow> (Inr (count_result r m1), s'))"

definition evaluate_schedule ::
  "sched_env \<Rightarrow> ident \<Rightarrow> preflight_context \<Rightarrow> time \<Rightarrow> ident \<Rightarrow> int \<Rightarrow> ident \<Rightarrow> evaluation_summary \<Rightarrow> sched_store \<Rightarrow> evaluation_summary run"
where
  "evaluate_schedule env tenant ctx now worker secs sid m s =
     bind_run (commit (materialize_due_occurrences env tenant sid now worker secs s) s) (\<lambda>mz s1.
       let m1 = m\<lparr>es_schedules := es_schedules m + 1, es_created := es_created m + mz_created mz, es_skipped := es_skipped m + mz_skipped mz,
                  es_deferred := es_deferred m + mz_deferred mz,
                  es_occurrences := fold (\<lambda>i acc. if i \<in> set acc then acc else acc @ [i]) (mz_occurrences mz) (es_occurrences m)\<rparr>
       in fold_run (process_one env tenant ctx) (mz_candidates mz) m1 s1)"

definition evaluate_due ::
  "sched_env \<Rightarrow> ident \<Rightarrow> preflight_context option \<Rightarrow> ident option \<Rightarrow> ident \<Rightarrow> int \<Rightarrow> sched_store \<Rightarrow> evaluation_summary run"
where
  "evaluate_due env tenant context sid worker secs s0 =
     (let (now, s) = utc_now s0;
          ctx = (case context of Some c \<Rightarrow> c
            | None \<Rightarrow> \<lparr>connector_health = [], available_budget_usd = None, available_competencies = [], independence_conflicts = []\<rparr>);
          m = \<lparr>es_evaluated_at = now, es_schedules = 0, es_created = 0, es_launched = 0, es_waiting = 0, es_blocked = 0, es_skipped = 0,
               es_deferred = 0, es_failures = 0, es_occurrences = []\<rparr> in
      if secs \<le> 0 then (Inl ValueError, s)
      else case (case sid of None \<Rightarrow> Inr ()
                 | Some i \<Rightarrow> (case get_schedule tenant i s of None \<Rightarrow> Inl ScheduleNotFoundError
                    | Some r \<Rightarrow> if sc_status r \<noteq> ''active'' then Inl ScheduleConfigurationError else Inr ())) of
        Inl e \<Rightarrow> (Inl e, s)
      | Inr _ \<Rightarrow>
          bind_run (fold_run (evaluate_schedule env tenant ctx now worker secs) (map schedule_id (list_active_schedules tenant sid s)) m s)
            (\<lambda>m1 s1. fold_run (process_one env tenant ctx)
              (filter (\<lambda>i. i \<notin> set (es_occurrences m1)) (map occurrence_id (list_retryable_occurrences tenant now sid s1))) m1 s1))"

definition view_occurrence :: "ident \<Rightarrow> ident \<Rightarrow> sched_store \<Rightarrow> occurrence_row res" where
  "view_occurrence tenant oid s = (case get_occurrence tenant oid s of None \<Rightarrow> Inl OccurrenceNotFoundError | Some oc \<Rightarrow> Inr oc)"

text \<open>The transaction that records an approval; a launched occurrence is returned as it is.\<close>

definition approve_transaction :: "ident \<Rightarrow> ident \<Rightarrow> occurrence_decision \<Rightarrow> sched_store \<Rightarrow> (occurrence_row option \<times> sched_store) res" where
  "approve_transaction tenant oid d s =
     (case get_occurrence tenant oid s of
        None \<Rightarrow> Inl OccurrenceNotFoundError
      | Some oc \<Rightarrow>
          if oc_status oc = O_LAUNCHED then Inr (Some oc, s)
          else if oc_status oc \<noteq> O_WAITING_APPROVAL then Inl OccurrenceStateError
          else let oc' = oc\<lparr>decision_by := Some (od_actor_id d), decision_reason := Some (od_reason d)\<rparr> in
            bind_res (record_occurrence oc' ''scheduler.occurrence.approved'' [(''actor_id'', PStr (od_actor_id d))] (put_occurrence oc' s))
              (\<lambda>s1. Inr (None, s1)))"

definition approve_occurrence :: "sched_env \<Rightarrow> ident \<Rightarrow> ident \<Rightarrow> occurrence_decision \<Rightarrow> sched_store \<Rightarrow> occurrence_row run" where
  "approve_occurrence env tenant oid d s =
     bind_run (commit (approve_transaction tenant oid d s) s) (\<lambda>done s1.
       case done of
         Some oc \<Rightarrow> (Inr oc, s1)
       | None \<Rightarrow>
           let (r, s2) = run_job env tenant (PreflightJob oid (od_context d) True) (snd (utc_now s1)) in
           (case r of Raised e \<Rightarrow> Inl e | _ \<Rightarrow> view_occurrence tenant oid s2, s2))"

definition cancel_occurrence :: "ident \<Rightarrow> ident \<Rightarrow> occurrence_decision \<Rightarrow> sched_store \<Rightarrow> (occurrence_row \<times> sched_store) res" where
  "cancel_occurrence tenant oid d s =
     (case get_occurrence tenant oid s of
        None \<Rightarrow> Inl OccurrenceNotFoundError
      | Some oc \<Rightarrow>
          if oc_status oc \<in> {O_LAUNCHED, O_CANCELLED, O_SKIPPED} then Inl OccurrenceStateError
          else let oc' = oc\<lparr>oc_status := O_CANCELLED, decision_by := Some (od_actor_id d), decision_reason := Some (od_reason d)\<rparr> in
            bind_res (record_occurrence oc' ''scheduler.occurrence.cancelled'' [(''actor_id'', PStr (od_actor_id d))] (put_occurrence oc' s))
              (\<lambda>s1. Inr (oc', s1)))"

definition list_occurrences :: "ident \<Rightarrow> ident \<Rightarrow> sched_store \<Rightarrow> occurrence_row list res" where
  "list_occurrences tenant sid s = bind_res (view_schedule tenant sid s) (\<lambda>_. Inr (repo_list_occurrences tenant sid s))"

end
