(* ===== verification/Sched_Inv.thy ===== *)
theory Sched_Inv
  imports Scheduling Orch_Refine
begin

text \<open>
  What every transaction of the scheduler maintains. The scheduler works on the orchestrator's
  tables only through contract steps of the orchestrator (\<open>quiet\<close>, \<open>orch_progress\<close>), and on its own
  tables by a few row updates; the invariant \<open>store_ok\<close> and the history \<open>grows\<close> are shown once per
  kind of update and then for each transaction.
\<close>

section \<open>The orchestrator's part\<close>

definition orch_part :: "sched_store \<Rightarrow> orch_store" where
  "orch_part s = orch_store.truncate s"

definition orch_progress :: "sched_store \<Rightarrow> sched_store \<Rightarrow> bool" where
  "orch_progress s s' \<longleftrightarrow> ostep\<^sup>*\<^sup>* (orch_part s) (orch_part s')"

definition quiet :: "sched_store \<Rightarrow> sched_store \<Rightarrow> bool" where
  "quiet s s' \<longleftrightarrow> orch_progress s s' \<and> orch_store.more s' = orch_store.more s"

lemma orch_part_fields [simp]:
  "audit_events (orch_part s) = audit_events s" "outbox_events (orch_part s) = outbox_events s"
  "isoformat (orch_part s) = isoformat s" "engagements (orch_part s) = engagements s" "tasks (orch_part s) = tasks s"
  "dependencies (orch_part s) = dependencies s" "attempts (orch_part s) = attempts s"
  by (simp_all add: orch_part_def orch_store.truncate_def)

lemma more_fields:
  assumes "orch_store.more s' = orch_store.more (s :: sched_store)"
  shows "sc_tenants s' = sc_tenants s" "sc_plans s' = sc_plans s" "templates s' = templates s" "schedules s' = schedules s"
    "cursors s' = cursors s" "occurrences s' = occurrences s" "engagement_scopes s' = engagement_scopes s"
  using assms by (cases s; cases s'; simp)+

lemma quiet_refl [simp]: "quiet s s"
  by (simp add: quiet_def orch_progress_def)

lemma quiet_trans: "quiet s t \<Longrightarrow> quiet t u \<Longrightarrow> quiet s u"
  by (auto simp: quiet_def orch_progress_def)

lemma orch_more_of_more: "store.more s' = store.more (s :: sched_store) \<Longrightarrow> orch_store.more s' = orch_store.more s"
  by (cases s; cases s') simp

lemma tables_of_more: "store.more s' = store.more (s :: sched_store) \<Longrightarrow> tables_unchanged (orch_part s) (orch_part s')"
  by (cases s; cases s') (simp add: tables_unchanged_def)

lemma quiet_draws:
  assumes "audit_events s' = audit_events s" "outbox_events s' = outbox_events s" "store.more s' = store.more s"
  shows "quiet s s'"
proof -
  have "ostep (orch_part s) (orch_part s')"
    by (rule environment) (simp_all add: assms tables_of_more list.rel_refl)
  then show ?thesis using orch_more_of_more[OF assms(3)] by (auto simp: quiet_def orch_progress_def)
qed

lemma quiet_now [simp]: "quiet s (snd (utc_now s))"
  and quiet_id [simp]: "quiet s (snd (new_id p s))"
  by (rule quiet_draws; simp)+

section \<open>Recording\<close>

lemma record_planning_logged:
  assumes "record_planning tenant eng atype aid etype data now key s = Inr s'"
    "etype \<notin> projected_types" "\<And>eid. take (length eid) (key eid) = eid"
  obtains e where "logged e s s'" "event_type e = etype" "event_tenant e = tenant" "payload e = data" "quiet s s'"
proof -
  define eid where "eid = fst (new_event_id s)"
  define s1 where "s1 = snd (new_event_id s)"
  define e where "e = \<lparr>event_id = eid, event_type = etype, event_tenant = tenant, event_engagement = eng, event_task = None,
    occurred_at = now, payload = data\<rparr>"
  have s1: "audit_events s1 = audit_events s" "outbox_events s1 = outbox_events s" "isoformat s1 = isoformat s"
    "store.more s1 = store.more s" by (simp_all add: s1_def new_event_id_def draw_uuid_def)
  obtain u where u: "append_event e s1 = Inr u" "outbox_add tenant atype aid etype data (key eid) u = Inr s'"
    using assms(1) by (auto simp: record_planning_def split_beta res_simps e_def eid_def s1_def)
  note ap = append_event_Inr[OF u(1)]
  from u(2) obtain m where m: "outbox_events s' = outbox_events u @ [m]" "audit_events s' = audit_events u"
    "\<not> has_key outbox_id (outbox_id m) (outbox_events u)"
    "\<not> has_key (\<lambda>r. (ob_tenant r, ob_idempotency_key r)) (tenant, key eid) (outbox_events u)"
    "ob_tenant m = tenant" "ob_idempotency_key m = key eid" "ob_event_type m = etype" "ob_payload m = data"
    "unsent m" "isoformat s' = isoformat u" "store.more s' = store.more u"
    unfolding outbox_add_def unsent_def
    by (auto simp: res_simps Let_def split_beta new_id_def draw_uuid_def utc_now_def)
  have more: "store.more s' = store.more s" using m(11) ap(1) s1(4) by simp
  have log: "logged e s s'"
    unfolding logged_def Let_def
  proof (intro conjI exI[of _ m])
    show "\<not> has_key event_id (event_id e) (audit_events s)" using ap(2) s1(1) by simp
  qed (use m s1 ap assms(3) in \<open>simp_all add: mirrors_def e_def\<close>)
  have "ostep (orch_part s) (orch_part s')"
  proof (rule foreign_event)
    show "logged e (orch_part s) (orch_part s')" by (rule logged_cong[OF log]) simp_all
    show "event_type e \<notin> projected_types" using assms(2) by (simp add: e_def)
  qed (rule tables_of_more[OF more])
  then have "quiet s s'" using orch_more_of_more[OF more] by (auto simp: quiet_def orch_progress_def)
  then show thesis using that[OF log] by (simp add: e_def)
qed

definition scheduler_event :: "string \<Rightarrow> bool" where
  "scheduler_event t \<longleftrightarrow> t \<notin> projected_types"

lemma scheduler_events [simp]:
  "scheduler_event ''scheduler.occurrence.created''" "scheduler_event ''scheduler.launch.started''"
  "scheduler_event ''scheduler.launch.completed''" "scheduler_event ''scheduler.launch.failed''"
  "scheduler_event ''scheduler.occurrence.waiting_approval''" "scheduler_event ''scheduler.preflight.blocked''"
  "scheduler_event ''scheduler.preflight.passed''" "scheduler_event ''scheduler.occurrence.approved''"
  "scheduler_event ''scheduler.occurrence.cancelled''" "scheduler_event ''scheduler.schedule.draft_created''"
  "scheduler_event ''scheduler.schedule.superseded''" "scheduler_event ''scheduler.schedule.approved''"
  "scheduler_event ''scheduler.schedule.disabled''"
  by (simp_all add: scheduler_event_def projected_types_def ev_task_created_def ev_task_transitioned_def
      ev_engagement_transitioned_def)

lemma record_occurrence_quiet:
  assumes "record_occurrence oc etype data s = Inr s'" "scheduler_event etype"
  obtains e where "e \<in> set (audit_events s')" "event_type e = etype" "event_tenant e = oc_tenant oc"
    "payload e = dict_merge [(''occurrence_id'', PStr (occurrence_id oc)), (''schedule_id'', PStr (oc_schedule oc))] data"
    "quiet s s'"
proof -
  let ?d = "dict_merge [(''occurrence_id'', PStr (occurrence_id oc)), (''schedule_id'', PStr (oc_schedule oc))] data"
  have "record_planning (oc_tenant oc) (oc_engagement oc) ''schedule_occurrence'' (occurrence_id oc) etype ?d (fst (utc_now s)) (\<lambda>eid. eid)
    (snd (utc_now s)) = Inr s'" using assms(1) by (simp add: record_occurrence_def split_beta)
  then obtain e where e: "logged e (snd (utc_now s)) s'" "event_type e = etype" "event_tenant e = oc_tenant oc" "payload e = ?d"
    "quiet (snd (utc_now s)) s'"
    using assms(2) unfolding scheduler_event_def by (rule record_planning_logged) simp_all
  obtain n where n: "ledger_row e n \<in> set (audit_events s')" using logged_events[OF e(1)] by (metis in_set_conv_decomp)
  show thesis by (rule that[OF n]) (use e quiet_trans[OF quiet_now e(5)] in simp_all)
qed

lemma record_schedule_quiet:
  "record_schedule r etype now data s = Inr s' \<Longrightarrow> scheduler_event etype \<Longrightarrow> quiet s s'"
  unfolding record_schedule_def scheduler_event_def by (elim record_planning_logged) simp_all

section \<open>What the contract keeps\<close>

definition engaged :: "ident \<Rightarrow> ident \<Rightarrow> 'a orch_store_scheme \<Rightarrow> bool" where
  "engaged tenant eid s \<longleftrightarrow> (\<exists>e \<in> set (engagements s). eng_tenant e = tenant \<and> engagement_id e = eid)"

lemma engaged_orch_part [simp]: "engaged tenant eid (orch_part s) = engaged tenant eid s"
  by (simp add: engaged_def)

lemma engaged_get: "get_engagement tenant eid s \<noteq> None \<longleftrightarrow> engaged tenant eid s"
  by (auto simp: get_engagement_def engaged_def find_None_iff)

lemma engaged_put:
  assumes "distinct (map engagement_id (engagements s))" "e \<in> set (engagements s)" "engagement_id e' = engagement_id e"
    "eng_tenant e' = eng_tenant e" "engagements s' = put engagement_id e' (engagements s)"
  shows "engaged tenant eid s' \<longleftrightarrow> engaged tenant eid s"
proof -
  let ?f = "\<lambda>e. (eng_tenant e, engagement_id e)"
  have "map ?f (engagements s') = map ?f (engagements s)"
    unfolding assms(5)
  proof (rule map_put_same)
    fix x assume x: "x \<in> set (engagements s)" "engagement_id x = engagement_id e'"
    have "x = e" by (rule inj_onD[OF distinct_map[THEN iffD1, OF assms(1), THEN conjunct2] _ x(1) assms(2)]) (simp add: x assms(3))
    then show "?f e' = ?f x" using assms(3,4) by simp
  qed
  then have "(tenant, eid) \<in> set (map ?f (engagements s')) \<longleftrightarrow> (tenant, eid) \<in> set (map ?f (engagements s))" by (rule arg_cong)
  moreover have "engaged tenant eid s' \<longleftrightarrow> (tenant, eid) \<in> set (map ?f (engagements s'))"
    "engaged tenant eid s \<longleftrightarrow> (tenant, eid) \<in> set (map ?f (engagements s))" by (auto simp: engaged_def)
  ultimately show ?thesis by simp
qed

lemma logs_grow_events: "logs es s s' \<Longrightarrow> set (audit_events s) \<subseteq> set (audit_events s')"
proof (induction es arbitrary: s)
  case (Cons e es)
  then obtain u where u: "logged e s u" "logs es u s'" by auto
  show ?case using Cons.IH[OF u(2)] logged_events[OF u(1)] by auto
qed (simp add: same_log_def)

lemma ostep_keeps:
  assumes "orch_inv s" "ostep s s'"
  shows "set (audit_events s) \<subseteq> set (audit_events s')" "engaged tenant eid s \<Longrightarrow> engaged tenant eid s'"
proof -
  note dst = inv_distinct_engagements[OF assms(1)]
  show "set (audit_events s) \<subseteq> set (audit_events s')"
    using assms(2)
  proof cases
    case (workflow_compiled w tenant eid now sn)
    from workflow_compiled(2) obtain c where "compiled_as tenant eid w now s s' c" by (rule compile_workflow_effect)
    then have "logs (cp_events c @ [cp_final c]) s s'" by (simp add: compiled_as_def)
    then show ?thesis by (rule logs_grow_events)
  qed (auto dest!: logged_events simp: put_engagement_def add_engagement_def split: if_splits)
  assume e: "engaged tenant eid s"
  show "engaged tenant eid s'"
    using assms(2)
  proof cases
    case (engagement_moved x target x' ev)
    show ?thesis
      using engaged_put[OF dst _ _ _ engagement_moved(7), of x] row_Some[OF engagement_moved(1)] engagement_moved(4) e by simp
  next
    case (engagement_touched x x' st ct)
    show ?thesis
      using engaged_put[OF dst, of x x' s'] row_Some[OF engagement_touched(1)] engagement_touched(2,3) e
      by (simp add: put_engagement_def)
  next
    case (workflow_compiled w tenant eid now sn)
    from workflow_compiled(2) obtain c where "compiled_as tenant eid w now s s' c" by (rule compile_workflow_effect)
    then show ?thesis using e by (simp add: engaged_def compiled_as_def)
  qed (use e in \<open>auto simp: engaged_def add_engagement_def tables_unchanged_def split: if_splits\<close>)
qed

lemma osteps_keep:
  assumes "ostep\<^sup>*\<^sup>* s s'" "orch_inv s"
  shows "set (audit_events s) \<subseteq> set (audit_events s') \<and> (\<forall>tenant eid. engaged tenant eid s \<longrightarrow> engaged tenant eid s')"
  using assms
proof (induction rule: rtranclp_induct)
  case (step t u)
  have "orch_inv t" using orch_inv_osteps[OF step(1)] step.prems by simp
  then show ?case using ostep_keeps[OF _ step(2)] step by blast
qed simp

section \<open>Invariant and history\<close>

definition same_schedule :: "schedule_row \<Rightarrow> schedule_row \<Rightarrow> bool" where
  "same_schedule r r' \<longleftrightarrow> r' = r\<lparr>sc_status := sc_status r', sc_approved_at := sc_approved_at r', sc_approved_by := sc_approved_by r',
     sc_approval_reason := sc_approval_reason r', sc_disabled_at := sc_disabled_at r', sc_disabled_by := sc_disabled_by r',
     sc_disable_reason := sc_disable_reason r'\<rparr>"

definition schedule_leads :: "string \<Rightarrow> string \<Rightarrow> bool" where
  "schedule_leads a b \<longleftrightarrow> a = b \<or> a = ''draft'' \<and> b \<in> {''active'', ''superseded'', ''disabled''} \<or>
     a = ''active'' \<and> b \<in> {''superseded'', ''disabled''}"

definition schedule_follows :: "schedule_row \<Rightarrow> schedule_row \<Rightarrow> bool" where
  "schedule_follows r r' \<longleftrightarrow> same_schedule r r' \<and> schedule_leads (sc_status r) (sc_status r')"

definition same_occurrence :: "occurrence_row \<Rightarrow> occurrence_row \<Rightarrow> bool" where
  "same_occurrence oc oc' \<longleftrightarrow> occurrence_id oc' = occurrence_id oc \<and> oc_tenant oc' = oc_tenant oc \<and> oc_schedule oc' = oc_schedule oc \<and>
     nominal_due oc' = nominal_due oc \<and> oc_period_start oc' = oc_period_start oc \<and> oc_period_end oc' = oc_period_end oc \<and>
     oc_schedule_version oc' = oc_schedule_version oc \<and> oc_template_version oc' = oc_template_version oc \<and>
     schedule_snapshot oc' = schedule_snapshot oc \<and> template_snapshot oc' = template_snapshot oc"

text \<open>An engagement once assigned stays, and so does a decision.\<close>

definition occurrence_follows :: "occurrence_row \<Rightarrow> occurrence_row \<Rightarrow> bool" where
  "occurrence_follows oc oc' \<longleftrightarrow> same_occurrence oc oc' \<and> (oc_engagement oc = None \<or> oc_engagement oc' = oc_engagement oc) \<and>
     (truthy (decision_by oc) \<longrightarrow> truthy (decision_by oc'))"

text \<open>What a launch requires: a passed preflight on the ledger, and a decision where the mode asks for one.\<close>

definition preflight_passed :: "sched_store \<Rightarrow> occurrence_row \<Rightarrow> bool" where
  "preflight_passed s oc \<longleftrightarrow>
     (\<exists>e \<in> set (audit_events s). event_type e = ''scheduler.preflight.passed'' \<and> event_tenant e = oc_tenant oc \<and>
        map_of (payload e) ''occurrence_id'' = Some (PStr (occurrence_id oc)) \<and> map_of (payload e) ''passed'' = Some (PBool True))"

definition owner_schedule :: "sched_store \<Rightarrow> occurrence_row \<Rightarrow> schedule_row \<Rightarrow> bool" where
  "owner_schedule s oc r \<longleftrightarrow> r \<in> set (schedules s) \<and> sc_tenant r = oc_tenant oc \<and> schedule_id r = oc_schedule oc"

definition cleared :: "sched_store \<Rightarrow> occurrence_row \<Rightarrow> bool" where
  "cleared s oc \<longleftrightarrow> preflight_passed s oc \<and>
     (\<exists>r. owner_schedule s oc r \<and> (sc_launch_mode r = AUTOMATIC \<or> truthy (decision_by oc)))"

definition occurrence_ok :: "sched_store \<Rightarrow> occurrence_row \<Rightarrow> bool" where
  "occurrence_ok s oc \<longleftrightarrow> (\<exists>r. owner_schedule s oc r) \<and> oc_period_start oc \<le> oc_period_end oc \<and>
     (oc_status oc \<in> {O_LAUNCHING, O_LAUNCHED} \<longrightarrow> oc_engagement oc \<noteq> None) \<and>
     (\<forall>eid. oc_engagement oc = Some eid \<longrightarrow> eid \<noteq> [] \<and> engaged (oc_tenant oc) eid s \<and> cleared s oc)"

definition active_name :: "schedule_row \<Rightarrow> ident \<times> string" where
  "active_name r = (sc_tenant r, sc_name r)"

definition schedules_ok :: "schedule_row list \<Rightarrow> bool" where
  "schedules_ok rs \<longleftrightarrow> distinct (map schedule_id rs) \<and> distinct (map (\<lambda>r. (sc_tenant r, sc_name r, sc_version r)) rs) \<and>
     inj_on active_name {r \<in> set rs. sc_status r = ''active''}"

definition occurrences_ok :: "sched_store \<Rightarrow> bool" where
  "occurrences_ok s \<longleftrightarrow> distinct (map occurrence_id (occurrences s)) \<and>
     distinct (map (\<lambda>oc. (oc_schedule oc, nominal_due oc)) (occurrences s)) \<and>
     inj_on oc_engagement {oc \<in> set (occurrences s). oc_engagement oc \<noteq> None} \<and> (\<forall>oc \<in> set (occurrences s). occurrence_ok s oc)"

definition workflows_ok :: "template_row list \<Rightarrow> bool" where
  "workflows_ok ts \<longleftrightarrow> list_all (\<lambda>t. case tp_workflow t of Some (Inr w) \<Rightarrow> workflow_definition_ok w | _ \<Rightarrow> True) ts"

lemma workflows_okD: "workflows_ok ts \<Longrightarrow> t \<in> set ts \<Longrightarrow> tp_workflow t = Some (Inr w) \<Longrightarrow> workflow_definition_ok w"
  by (auto simp: workflows_ok_def list_all_iff split: option.splits sum.splits)

definition store_ok :: "sched_store \<Rightarrow> bool" where
  "store_ok s \<longleftrightarrow> orch_inv (orch_part s) \<and> workflows_ok (templates s) \<and> schedules_ok (schedules s) \<and> occurrences_ok s"

definition grows :: "sched_store \<Rightarrow> sched_store \<Rightarrow> bool" where
  "grows s s' \<longleftrightarrow> orch_progress s s' \<and>
     (\<forall>r \<in> set (schedules s). \<exists>r' \<in> set (schedules s'). schedule_follows r r') \<and>
     (\<forall>oc \<in> set (occurrences s). \<exists>oc' \<in> set (occurrences s'). occurrence_follows oc oc')"

definition advances :: "sched_store \<Rightarrow> sched_store \<Rightarrow> bool" where
  "advances s s' \<longleftrightarrow> store_ok s' \<and> grows s s'"

section \<open>Kinds of updates\<close>

lemma schedule_follows_refl [simp]: "schedule_follows r r"
  by (simp add: schedule_follows_def same_schedule_def schedule_leads_def)

lemma schedule_follows_trans:
  assumes "schedule_follows a b" "schedule_follows b c"
  shows "schedule_follows a c"
proof -
  have "same_schedule a c"
    using assms by (cases a; cases b; cases c) (simp add: schedule_follows_def same_schedule_def)
  with assms show ?thesis by (auto simp: schedule_follows_def schedule_leads_def)
qed

lemma same_scheduleD:
  assumes "same_schedule r r'"
  shows "schedule_id r' = schedule_id r" "sc_tenant r' = sc_tenant r" "sc_name r' = sc_name r" "sc_version r' = sc_version r"
    "sc_launch_mode r' = sc_launch_mode r" "sc_plan r' = sc_plan r" "sc_template r' = sc_template r"
    "recurrence_rule r' = recurrence_rule r" "sc_timezone r' = sc_timezone r" "effective_from r' = effective_from r"
    "effective_until r' = effective_until r"
  using assms by (cases r; cases r'; simp add: same_schedule_def)+

lemma occurrence_follows_refl [simp]: "occurrence_follows oc oc"
  by (simp add: occurrence_follows_def same_occurrence_def)

lemma occurrence_follows_trans: "occurrence_follows a b \<Longrightarrow> occurrence_follows b c \<Longrightarrow> occurrence_follows a c"
  by (auto simp: occurrence_follows_def same_occurrence_def)

lemma grows_refl [simp]: "grows s s"
  by (auto simp: grows_def orch_progress_def intro: schedule_follows_refl occurrence_follows_refl)

lemma grows_trans:
  assumes "grows s t" "grows t u"
  shows "grows s u"
  unfolding grows_def
proof (intro conjI ballI)
  show "orch_progress s u" using assms by (auto simp: grows_def orch_progress_def)
next
  fix r assume "r \<in> set (schedules s)"
  with assms obtain r' where "r' \<in> set (schedules t)" "schedule_follows r r'" by (auto simp: grows_def)
  moreover from this assms obtain r'' where "r'' \<in> set (schedules u)" "schedule_follows r' r''" by (auto simp: grows_def)
  ultimately show "\<exists>r'\<in>set (schedules u). schedule_follows r r'" by (auto intro: schedule_follows_trans)
next
  fix oc assume "oc \<in> set (occurrences s)"
  with assms obtain x where "x \<in> set (occurrences t)" "occurrence_follows oc x" by (auto simp: grows_def)
  moreover from this assms obtain y where "y \<in> set (occurrences u)" "occurrence_follows x y" by (auto simp: grows_def)
  ultimately show "\<exists>oc'\<in>set (occurrences u). occurrence_follows oc oc'" by (auto intro: occurrence_follows_trans)
qed

lemma advances_refl: "store_ok s \<Longrightarrow> advances s s"
  by (simp add: advances_def)

lemma advances_trans: "advances s t \<Longrightarrow> advances t u \<Longrightarrow> advances s u"
  by (auto simp: advances_def intro: grows_trans)

lemma advances_ok: "advances s s' \<Longrightarrow> store_ok s'"
  by (simp add: advances_def)

lemma grows_keeps:
  assumes "grows s s'" "orch_inv (orch_part s)"
  shows "set (audit_events s) \<subseteq> set (audit_events s')" "engaged tenant eid s \<Longrightarrow> engaged tenant eid s'" "orch_inv (orch_part s')"
  using osteps_keep[of "orch_part s" "orch_part s'"] orch_inv_osteps[of "orch_part s" "orch_part s'"] assms
  by (auto simp: grows_def orch_progress_def)

lemma owner_schedule_grows:
  assumes "grows s s'" "owner_schedule s oc r" "same_occurrence oc oc'"
  obtains r' where "owner_schedule s' oc' r'" "same_schedule r r'"
  using assms unfolding grows_def owner_schedule_def schedule_follows_def same_occurrence_def
  by (metis same_scheduleD(1,2))

lemma cleared_grows:
  assumes "grows s s'" "orch_inv (orch_part s)" "occurrence_follows oc oc'" "cleared s oc"
  shows "cleared s' oc'"
proof -
  from assms(4) obtain r where r: "owner_schedule s oc r" "sc_launch_mode r = AUTOMATIC \<or> truthy (decision_by oc)"
    by (auto simp: cleared_def)
  have same: "same_occurrence oc oc'" using assms(3) by (simp add: occurrence_follows_def)
  from assms(1) r(1) same obtain r' where r': "owner_schedule s' oc' r'" "same_schedule r r'" by (rule owner_schedule_grows)
  have "sc_launch_mode r' = AUTOMATIC \<or> truthy (decision_by oc')"
    using r(2) assms(3) by (auto simp: same_scheduleD(5)[OF r'(2)] occurrence_follows_def)
  moreover have "preflight_passed s' oc'"
    using assms(4) grows_keeps(1)[OF assms(1,2)] same unfolding cleared_def preflight_passed_def same_occurrence_def by auto
  ultimately show ?thesis using r'(1) by (auto simp: cleared_def)
qed

lemma occurrence_ok_grows:
  assumes "grows s s'" "orch_inv (orch_part s)" "occurrence_ok s oc"
  shows "occurrence_ok s' oc"
proof -
  from assms(3) obtain r where "owner_schedule s oc r" by (auto simp: occurrence_ok_def)
  then obtain r' where "owner_schedule s' oc r'"
    by (rule owner_schedule_grows[OF assms(1)]) (simp add: same_occurrence_def)
  then show ?thesis
    using assms(3) cleared_grows[OF assms(1,2) occurrence_follows_refl] grows_keeps(2)[OF assms(1,2)]
    by (auto simp: occurrence_ok_def)
qed

text \<open>The occurrences of the next store are old ones, or are shown well formed in the old one.\<close>

lemma advancesI:
  assumes "store_ok s" "grows s s'" "workflows_ok (templates s')" "schedules_ok (schedules s')"
    "distinct (map occurrence_id (occurrences s'))" "distinct (map (\<lambda>oc. (oc_schedule oc, nominal_due oc)) (occurrences s'))"
    "inj_on oc_engagement {oc \<in> set (occurrences s'). oc_engagement oc \<noteq> None}"
    "\<And>oc. oc \<in> set (occurrences s') \<Longrightarrow> occurrence_ok s oc"
  shows "advances s s'"
proof -
  have i: "orch_inv (orch_part s)" using assms(1) by (simp add: store_ok_def)
  have "occurrences_ok s'" using assms(5-7) occurrence_ok_grows[OF assms(2) i assms(8)] by (simp add: occurrences_ok_def)
  with assms(2-4) grows_keeps(3)[OF assms(2) i] show ?thesis by (simp add: advances_def store_ok_def)
qed

lemma store_okD:
  assumes "store_ok s"
  shows "workflows_ok (templates s)" "schedules_ok (schedules s)" "distinct (map occurrence_id (occurrences s))"
    "distinct (map (\<lambda>oc. (oc_schedule oc, nominal_due oc)) (occurrences s))"
    "inj_on oc_engagement {oc \<in> set (occurrences s). oc_engagement oc \<noteq> None}"
    "oc \<in> set (occurrences s) \<Longrightarrow> occurrence_ok s oc" "orch_inv (orch_part s)" "distinct (map schedule_id (schedules s))"
  using assms by (simp_all add: store_ok_def occurrences_ok_def schedules_ok_def)

lemma advances_same:
  assumes "store_ok s" "orch_progress s s'" "templates s' = templates s" "schedules s' = schedules s" "occurrences s' = occurrences s"
  shows "advances s s'"
  using assms(1)
proof (rule advancesI)
  show "grows s s'" using assms(2,4,5) by (auto simp: grows_def intro: schedule_follows_refl occurrence_follows_refl)
qed (use store_okD[OF assms(1)] assms(3-5) in auto)

lemma quiet_advances: "store_ok s \<Longrightarrow> quiet s s' \<Longrightarrow> advances s s'"
  using more_fields[of s' s] by (intro advances_same) (auto simp: quiet_def)

lemma schedules_advances:
  assumes "store_ok s" "schedules_ok rs" "\<And>r. r \<in> set (schedules s) \<Longrightarrow> \<exists>r' \<in> set rs. schedule_follows r r'"
  shows "advances s (s\<lparr>schedules := rs\<rparr>)"
  using assms(1)
proof (rule advancesI)
  show "grows s (s\<lparr>schedules := rs\<rparr>)"
    using assms(3) by (auto simp: grows_def orch_progress_def orch_part_def orch_store.truncate_def intro: occurrence_follows_refl)
qed (use store_okD[OF assms(1)] assms(2) in auto)

lemma put_occurrence_advances:
  assumes "store_ok s" "oc \<in> set (occurrences s)" "occurrence_follows oc oc'" "occurrence_ok s oc'"
    "\<And>x. x \<in> set (occurrences s) \<Longrightarrow> occurrence_id x \<noteq> occurrence_id oc \<Longrightarrow> oc_engagement oc' \<noteq> None \<Longrightarrow> oc_engagement x \<noteq> oc_engagement oc'"
  shows "advances s (put_occurrence oc' s)"
  using assms(1)
proof (rule advancesI)
  note ok = store_okD[OF assms(1)]
  have key: "occurrence_id oc' = occurrence_id oc" using assms(3) by (simp add: occurrence_follows_def same_occurrence_def)
  have mem: "x \<in> set (occurrences (put_occurrence oc' s)) \<longleftrightarrow> x = oc' \<or> x \<in> set (occurrences s) \<and> occurrence_id x \<noteq> occurrence_id oc" for x
    using assms(2) key by (auto simp: put_occurrence_def in_set_put[OF ok(3)] has_key_def)
  have same: "x = oc" if "x \<in> set (occurrences s)" "occurrence_id x = occurrence_id oc" for x
    using ok(3) that assms(2) by (auto simp: distinct_map dest: inj_onD)
  show "grows s (put_occurrence oc' s)"
    unfolding grows_def
  proof (intro conjI ballI)
    show "orch_progress s (put_occurrence oc' s)"
      by (simp add: orch_progress_def orch_part_def put_occurrence_def orch_store.truncate_def)
  next
    fix x assume x: "x \<in> set (occurrences s)"
    show "\<exists>y \<in> set (occurrences (put_occurrence oc' s)). occurrence_follows x y"
    proof (cases "occurrence_id x = occurrence_id oc")
      case True
      with x have "x = oc" by (rule same)
      with assms(3) mem[of oc'] show ?thesis by auto
    next
      case False
      with x mem[of x] occurrence_follows_refl[of x] show ?thesis by blast
    qed
  qed (auto simp: put_occurrence_def intro: schedule_follows_refl)
  show "distinct (map occurrence_id (occurrences (put_occurrence oc' s)))"
    using ok(3) by (simp add: put_occurrence_def map_key_put)
  have "map (\<lambda>oc. (oc_schedule oc, nominal_due oc)) (put occurrence_id oc' (occurrences s))
      = map (\<lambda>oc. (oc_schedule oc, nominal_due oc)) (occurrences s)"
    by (rule map_put_same) (use same key assms(3) in \<open>auto simp: occurrence_follows_def same_occurrence_def\<close>)
  then show "distinct (map (\<lambda>oc. (oc_schedule oc, nominal_due oc)) (occurrences (put_occurrence oc' s)))"
    using ok(4) by (simp add: put_occurrence_def)
  show "inj_on oc_engagement {oc \<in> set (occurrences (put_occurrence oc' s)). oc_engagement oc \<noteq> None}"
  proof (rule inj_onI)
    fix x y assume xy: "x \<in> {oc \<in> set (occurrences (put_occurrence oc' s)). oc_engagement oc \<noteq> None}"
      "y \<in> {oc \<in> set (occurrences (put_occurrence oc' s)). oc_engagement oc \<noteq> None}" "oc_engagement x = oc_engagement y"
    then consider "x = oc'" "y = oc'" | "x = oc'" "y \<in> set (occurrences s)" "occurrence_id y \<noteq> occurrence_id oc" 
      | "y = oc'" "x \<in> set (occurrences s)" "occurrence_id x \<noteq> occurrence_id oc"
      | "x \<in> set (occurrences s)" "y \<in> set (occurrences s)"
      by (auto simp: mem)
    then show "x = y"
    proof cases
      case 4
      with xy inj_onD[OF ok(5) xy(3)] show ?thesis by auto
    qed (use xy assms(5) in auto)
  qed
  show "occurrence_ok s x" if "x \<in> set (occurrences (put_occurrence oc' s))" for x
    using that ok(6) assms(4) by (auto simp: mem)
qed (use store_okD[OF assms(1)] in \<open>auto simp: put_occurrence_def\<close>)

lemma insert_occurrence_advances:
  assumes "store_ok s" "insert_occurrence oc s = Inr s'" "occurrence_ok s oc" "oc_engagement oc = None"
  shows "advances s s'"
proof -
  note ok = store_okD[OF assms(1)]
  have s': "s' = s\<lparr>occurrences := occurrences s @ [oc]\<rparr>" "\<not> has_key occurrence_id (occurrence_id oc) (occurrences s)"
    "\<not> has_key (\<lambda>x. (oc_schedule x, nominal_due x)) (oc_schedule oc, nominal_due oc) (occurrences s)"
    using assms(2) by (auto simp: insert_occurrence_def res_simps)
  show ?thesis
    using assms(1)
  proof (rule advancesI)
    show "grows s s'"
      by (auto simp: grows_def orch_progress_def orch_part_def s'(1) orch_store.truncate_def
          intro: occurrence_follows_refl schedule_follows_refl)
    show "distinct (map occurrence_id (occurrences s'))" using ok(3) s'(2) by (auto simp: s'(1) has_key_image)
    show "distinct (map (\<lambda>oc. (oc_schedule oc, nominal_due oc)) (occurrences s'))"
      using ok(4) s'(3) by (auto simp: s'(1) has_key_image)
    have "{x \<in> set (occurrences s'). oc_engagement x \<noteq> None} = {x \<in> set (occurrences s). oc_engagement x \<noteq> None}"
      using assms(4) by (auto simp: s'(1))
    then show "inj_on oc_engagement {x \<in> set (occurrences s'). oc_engagement x \<noteq> None}" using ok(5) by simp
    show "\<And>x. x \<in> set (occurrences s') \<Longrightarrow> occurrence_ok s x" using ok(6) assms(3) by (auto simp: s'(1))
  qed (use ok(1,2) in \<open>simp_all add: s'(1)\<close>)
qed

section \<open>Occurrences\<close>

lemma get_occurrence_Some: "get_occurrence tenant oid s = Some oc \<Longrightarrow> oc \<in> set (occurrences s) \<and> oc_tenant oc = tenant \<and> occurrence_id oc = oid"
  by (auto simp: get_occurrence_def dest!: find_SomeD)

lemma get_schedule_Some: "get_schedule tenant sid s = Some r \<Longrightarrow> r \<in> set (schedules s) \<and> sc_tenant r = tenant \<and> schedule_id r = sid"
  by (auto simp: get_schedule_def dest!: find_SomeD)

lemma get_template_Some: "get_template tenant tid s = Some t \<Longrightarrow> t \<in> set (templates s) \<and> tp_tenant t = tenant \<and> template_id t = tid"
  by (auto simp: get_template_def dest!: find_SomeD)

lemma get_schedule_owner:
  assumes "distinct (map schedule_id (schedules s))"
  shows "get_schedule (oc_tenant oc) (oc_schedule oc) s = Some r \<longleftrightarrow> owner_schedule s oc r"
proof
  assume "get_schedule (oc_tenant oc) (oc_schedule oc) s = Some r"
  then show "owner_schedule s oc r" by (auto simp: owner_schedule_def dest: get_schedule_Some)
next
  assume r: "owner_schedule s oc r"
  then obtain x where x: "get_schedule (oc_tenant oc) (oc_schedule oc) s = Some x"
    unfolding get_schedule_def owner_schedule_def by (metis (mono_tags, lifting) find_None_iff option.exhaust)
  have "inj_on schedule_id (set (schedules s))" using assms by (simp add: distinct_map)
  from inj_onD[OF this, of x r] have "x = r" using get_schedule_Some[OF x] r by (auto simp: owner_schedule_def)
  with x show "get_schedule (oc_tenant oc) (oc_schedule oc) s = Some r" by simp
qed

text \<open>An update that leaves engagement alone and does not enter a launch keeps the row well formed.\<close>

lemma occurrence_ok_update:
  assumes "occurrence_ok s oc" "occurrence_follows oc oc'" "oc_engagement oc' = oc_engagement oc"
    "oc_status oc' \<in> {O_LAUNCHING, O_LAUNCHED} \<Longrightarrow> oc_engagement oc \<noteq> None" "orch_inv (orch_part s)"
  shows "occurrence_ok s oc'"
proof -
  have same: "same_occurrence oc oc'" using assms(2) by (simp add: occurrence_follows_def)
  have "\<exists>r. owner_schedule s oc' r" "oc_period_start oc' \<le> oc_period_end oc'" "oc_tenant oc' = oc_tenant oc"
    using assms(1) same by (auto simp: occurrence_ok_def owner_schedule_def same_occurrence_def)
  moreover have "cleared s oc \<Longrightarrow> cleared s oc'" using cleared_grows[OF grows_refl assms(5,2)] .
  ultimately show ?thesis using assms(1,3,4) by (auto simp: occurrence_ok_def)
qed

lemma update_occurrence_advances:
  assumes "store_ok s" "oc \<in> set (occurrences s)" "occurrence_follows oc oc'" "oc_engagement oc' = oc_engagement oc"
    "oc_status oc' \<in> {O_LAUNCHING, O_LAUNCHED} \<Longrightarrow> oc_engagement oc \<noteq> None"
  shows "advances s (put_occurrence oc' s)"
proof (rule put_occurrence_advances[OF assms(1-3)])
  note ok = store_okD[OF assms(1)]
  show "occurrence_ok s oc'" by (rule occurrence_ok_update[OF ok(6)[OF assms(2)] assms(3-5) ok(7)])
  show "oc_engagement x \<noteq> oc_engagement oc'"
    if "x \<in> set (occurrences s)" "occurrence_id x \<noteq> occurrence_id oc" "oc_engagement oc' \<noteq> None" for x
    using that inj_onD[OF ok(5), of x oc] assms(2,4) by auto
qed

text \<open>The common end of the transactions: the row is written and the event recorded.\<close>

lemma recorded_advances:
  assumes "advances s0 s" "record_occurrence oc etype data s = Inr s'" "scheduler_event etype"
  shows "advances s0 s'"
  using assms(2,3)
proof (rule record_occurrence_quiet)
  assume "quiet s s'"
  then show ?thesis using assms(1) advances_ok quiet_advances advances_trans by blast
qed

lemma quiet_get:
  assumes "quiet s s'"
  shows "occurrences s' = occurrences s" "schedules s' = schedules s" "templates s' = templates s"
  using assms more_fields[of s' s] by (auto simp: quiet_def)

lemma fetched_tables [simp]:
  "occurrences (snd (utc_now (s :: sched_store))) = occurrences s" "schedules (snd (utc_now s)) = schedules s"
  "templates (snd (utc_now s)) = templates s"
  by (simp_all add: utc_now_def)

lemma put_after_quiet:
  assumes "store_ok s" "quiet s s1" "oc \<in> set (occurrences s)" "occurrence_follows oc oc'" "oc_engagement oc' = oc_engagement oc"
    "oc_status oc' \<in> {O_LAUNCHING, O_LAUNCHED} \<Longrightarrow> oc_engagement oc \<noteq> None"
  shows "advances s (put_occurrence oc' s1)"
proof -
  have a: "advances s s1" by (rule quiet_advances[OF assms(1,2)])
  have "oc \<in> set (occurrences s1)" using assms(3) quiet_get(1)[OF assms(2)] by simp
  from update_occurrence_advances[OF advances_ok[OF a] this assms(4-6)] a show ?thesis by (blast intro: advances_trans)
qed

lemma row_updates [simp]:
  "occurrence_follows oc (waiting_row reason oc)" "occurrence_follows oc (blocked_row reason oc)"
  "occurrence_follows oc (failed_launch_row err now secs oc)" "occurrence_follows oc (launched_row now oc)"
  "occurrence_follows oc (oc\<lparr>preflight_result := p, oc_evaluated_at := t\<rparr>)"
  "oc_engagement (waiting_row reason oc) = oc_engagement oc" "oc_engagement (blocked_row reason oc) = oc_engagement oc"
  "oc_engagement (failed_launch_row err now secs oc) = oc_engagement oc" "oc_engagement (launched_row now oc) = oc_engagement oc"
  "oc_status (waiting_row reason oc) = O_WAITING_APPROVAL" "oc_status (blocked_row reason oc) = O_PREFLIGHT_BLOCKED"
  "oc_status (failed_launch_row err now secs oc) = O_LAUNCH_FAILED" "oc_status (launched_row now oc) = O_LAUNCHED"
  by (simp_all add: occurrence_follows_def same_occurrence_def waiting_row_def blocked_row_def failed_launch_row_def launched_row_def)

lemma mark_waiting_advances:
  assumes "store_ok s" "mark_waiting_approval tenant oid s = Inr (w, s')"
  shows "advances s s'"
proof (cases "get_occurrence tenant oid s")
  case None
  with assms show ?thesis by (simp add: mark_waiting_approval_def advances_refl)
next
  case (Some oc)
  note oc = get_occurrence_Some[OF Some]
  show ?thesis
  proof (cases "oc_status oc = O_WAITING_APPROVAL")
    case True
    with Some assms show ?thesis by (simp add: mark_waiting_approval_def advances_refl)
  next
    case False
    let ?oc = "waiting_row ''start approval required before preflight'' oc"
    from False Some assms(2) have rec: "record_occurrence ?oc ''scheduler.occurrence.waiting_approval'' [] (put_occurrence ?oc s) = Inr s'"
      by (auto simp: mark_waiting_approval_def Let_def res_simps)
    have "advances s (put_occurrence ?oc s)" using update_occurrence_advances[OF assms(1) conjunct1[OF oc], of ?oc] by simp
    from recorded_advances[OF this rec] show ?thesis by simp
  qed
qed

lemma fail_launch_advances:
  assumes "store_ok s" "fail_launch env tenant oid e s = Inr s'"
  shows "advances s s'"
proof (cases "get_occurrence tenant oid s")
  case None
  with assms show ?thesis by (auto simp: fail_launch_def split_beta intro: quiet_advances)
next
  case (Some oc)
  note oc = get_occurrence_Some[OF Some]
  obtain secs data where rec: "record_occurrence (failed_launch_row (exn_text env e) (fst (utc_now s)) secs oc) ''scheduler.launch.failed'' data
      (put_occurrence (failed_launch_row (exn_text env e) (fst (utc_now s)) secs oc) (snd (utc_now s))) = Inr s'"
    using assms(2) Some by (auto simp: fail_launch_def split_beta Let_def res_simps)
  show ?thesis
    by (rule recorded_advances[OF put_after_quiet[OF assms(1) quiet_now conjunct1[OF oc]] rec]) simp_all
qed

lemma cancel_advances:
  assumes "store_ok s" "cancel_occurrence tenant oid d s = Inr (oc', s')" "od_actor_id d \<noteq> []"
  shows "advances s s'"
proof -
  obtain oc where oc: "get_occurrence tenant oid s = Some oc" using assms(2) by (auto simp: cancel_occurrence_def split: option.splits)
  let ?oc = "oc\<lparr>oc_status := O_CANCELLED, decision_by := Some (od_actor_id d), decision_reason := Some (od_reason d)\<rparr>"
  have rec: "record_occurrence ?oc ''scheduler.occurrence.cancelled'' [(''actor_id'', PStr (od_actor_id d))] (put_occurrence ?oc s) = Inr s'"
    using assms(2) oc by (auto simp: cancel_occurrence_def Let_def res_simps split: if_splits)
  have "advances s (put_occurrence ?oc s)"
    by (rule update_occurrence_advances[OF assms(1) conjunct1[OF get_occurrence_Some[OF oc]]])
      (simp_all add: occurrence_follows_def same_occurrence_def assms(3))
  from recorded_advances[OF this rec] show ?thesis by simp
qed

lemma get_occurrence_iff:
  assumes "distinct (map occurrence_id (occurrences s))"
  shows "get_occurrence tenant oid s = Some oc \<longleftrightarrow> oc \<in> set (occurrences s) \<and> oc_tenant oc = tenant \<and> occurrence_id oc = oid"
proof
  assume oc: "oc \<in> set (occurrences s) \<and> oc_tenant oc = tenant \<and> occurrence_id oc = oid"
  then obtain x where x: "get_occurrence tenant oid s = Some x"
    unfolding get_occurrence_def by (metis (mono_tags, lifting) find_None_iff option.exhaust)
  have "inj_on occurrence_id (set (occurrences s))" using assms by (simp add: distinct_map)
  from inj_onD[OF this, of x oc] have "x = oc" using get_occurrence_Some[OF x] oc by auto
  with x show "get_occurrence tenant oid s = Some oc" by simp
qed (rule get_occurrence_Some)

definition has_occ :: "ident \<Rightarrow> ident \<Rightarrow> (occurrence_row \<Rightarrow> bool) \<Rightarrow> sched_store \<Rightarrow> bool" where
  "has_occ tenant oid P s \<longleftrightarrow> (\<exists>oc \<in> set (occurrences s). oc_tenant oc = tenant \<and> occurrence_id oc = oid \<and> P oc)"

lemma has_occ_get:
  assumes "store_ok s" "get_occurrence tenant oid s = Some oc" "has_occ tenant oid P s"
  shows "P oc"
proof -
  from assms(3) obtain x where x: "x \<in> set (occurrences s)" "oc_tenant x = tenant" "occurrence_id x = oid" "P x"
    by (auto simp: has_occ_def)
  then have "get_occurrence tenant oid s = Some x" by (simp add: get_occurrence_iff[OF store_okD(3)[OF assms(1)]])
  with assms(2) x(4) show ?thesis by simp
qed

lemma has_occ_put:
  assumes "store_ok s" "get_occurrence tenant oid s = Some oc" "same_occurrence oc oc'" "P oc'"
  shows "has_occ tenant oid P (put_occurrence oc' s)"
proof -
  note oc = get_occurrence_Some[OF assms(2)]
  have id: "occurrence_id oc' = oid" "oc_tenant oc' = tenant" using assms(3) oc by (simp_all add: same_occurrence_def)
  have "has_key occurrence_id (occurrence_id oc') (occurrences s)" using oc id by (auto simp: has_key_def)
  then have "oc' \<in> set (occurrences (put_occurrence oc' s))"
    by (simp add: put_occurrence_def in_set_put[OF store_okD(3)[OF assms(1)]])
  with id assms(4) show ?thesis by (auto simp: has_occ_def)
qed

lemma has_occ_grows:
  assumes "has_occ tenant oid P s" "grows s s'" "\<And>oc oc'. occurrence_follows oc oc' \<Longrightarrow> P oc \<Longrightarrow> Q oc'"
  shows "has_occ tenant oid Q s'"
  using assms unfolding has_occ_def grows_def occurrence_follows_def same_occurrence_def by metis

lemma recorded_occ:
  assumes "has_occ tenant oid P s" "record_occurrence oc etype data s = Inr s'" "scheduler_event etype"
  shows "has_occ tenant oid P s'"
  using assms(2,3) by (rule record_occurrence_quiet) (use assms(1) quiet_get(1)[of s s'] in \<open>simp add: has_occ_def\<close>)

lemma approve_transaction_advances:
  assumes "store_ok s" "approve_transaction tenant oid d s = Inr (r, s')" "od_actor_id d \<noteq> []"
  shows "advances s s'" and "r = None \<Longrightarrow> has_occ tenant oid (\<lambda>oc. truthy (decision_by oc)) s'"
proof -
  obtain oc where oc: "get_occurrence tenant oid s = Some oc" using assms(2) by (auto simp: approve_transaction_def split: option.splits)
  let ?oc = "oc\<lparr>decision_by := Some (od_actor_id d), decision_reason := Some (od_reason d)\<rparr>"
  consider "s' = s" "r = Some oc" | "oc_status oc = O_WAITING_APPROVAL"
    "record_occurrence ?oc ''scheduler.occurrence.approved'' [(''actor_id'', PStr (od_actor_id d))] (put_occurrence ?oc s) = Inr s'"
    using assms(2) oc by (auto simp: approve_transaction_def Let_def res_simps split: if_splits)
  then have "advances s s' \<and> (r = None \<longrightarrow> has_occ tenant oid (\<lambda>oc. truthy (decision_by oc)) s')"
  proof cases
    case 1
    with assms(1) show ?thesis by (simp add: advances_refl)
  next
    case 2
    have "advances s (put_occurrence ?oc s)"
      by (rule update_occurrence_advances[OF assms(1) conjunct1[OF get_occurrence_Some[OF oc]]])
        (simp_all add: occurrence_follows_def same_occurrence_def assms(3) 2(1))
    moreover have "has_occ tenant oid (\<lambda>oc. truthy (decision_by oc)) (put_occurrence ?oc s)"
      by (rule has_occ_put[OF assms(1) oc]) (simp_all add: same_occurrence_def assms(3))
    ultimately show ?thesis using recorded_advances[OF _ 2(2)] recorded_occ[OF _ 2(2)] by simp
  qed
  then show "advances s s'" "r = None \<Longrightarrow> has_occ tenant oid (\<lambda>oc. truthy (decision_by oc)) s'" by blast+
qed

end
