(* ===== verification/Sched_Steps.thy ===== *)
theory Sched_Steps
  imports Sched_Inv
begin

text \<open>
  The larger transactions of the scheduler keep the invariant: materialising due occurrences, the
  preflight, the launch and the authoring of schedules.
\<close>

section \<open>Materialising\<close>

definition due_occurrence :: "ident \<Rightarrow> ident \<Rightarrow> time \<Rightarrow> sched_store \<Rightarrow> bool" where
  "due_occurrence tenant sid due s \<longleftrightarrow>
     (\<exists>oc \<in> set (occurrences s). oc_tenant oc = tenant \<and> oc_schedule oc = sid \<and> nominal_due oc = due)"

lemma due_occurrence_grows: "grows s s' \<Longrightarrow> due_occurrence tenant sid due s \<Longrightarrow> due_occurrence tenant sid due s'"
  unfolding grows_def due_occurrence_def occurrence_follows_def same_occurrence_def by metis

definition same_tables :: "sched_store \<Rightarrow> sched_store \<Rightarrow> bool" where
  "same_tables s s' \<longleftrightarrow> schedules s' = schedules s \<and> cursors s' = cursors s \<and> templates s' = templates s"

lemma same_tables_refl [simp]: "same_tables s s"
  by (simp add: same_tables_def)

lemma same_tables_trans: "same_tables s t \<Longrightarrow> same_tables t u \<Longrightarrow> same_tables s u"
  by (simp add: same_tables_def)

lemma same_tables_now [simp]: "same_tables s (snd (utc_now s))"
  by (simp add: same_tables_def utc_now_def)

lemma same_tables_put [simp]: "same_tables s (put_occurrence oc s)"
  by (simp add: same_tables_def put_occurrence_def)

lemma quiet_tables: "quiet s s' \<Longrightarrow> same_tables s s'"
  using more_fields[of s' s] by (auto simp: quiet_def same_tables_def)

lemma record_occurrence_tables: "record_occurrence oc etype data s = Inr s' \<Longrightarrow> scheduler_event etype \<Longrightarrow> same_tables s s'"
  by (erule record_occurrence_quiet) (auto intro: quiet_tables)

lemma new_occurrence_fields [simp]:
  "oc_tenant (new_occurrence env s r t due skip b period) = sc_tenant r" "oc_schedule (new_occurrence env s r t due skip b period) = schedule_id r"
  "nominal_due (new_occurrence env s r t due skip b period) = due" "oc_engagement (new_occurrence env s r t due skip b period) = None"
  "oc_status (new_occurrence env s r t due skip b period) \<in> {O_SKIPPED, O_DEFERRED, O_DUE}"
  by (simp_all add: new_occurrence_def split_beta)

lemma create_occurrence_advances:
  assumes "store_ok s" "r \<in> set (schedules s)" "create_occurrence env r skipped due s = Inr ((oc, created), s')"
  shows "advances s s'" "same_tables s s'" "due_occurrence (sc_tenant r) (schedule_id r) due s'"
proof -
  have "advances s s' \<and> same_tables s s' \<and> due_occurrence (sc_tenant r) (schedule_id r) due s'"
  proof (cases "get_occurrence_by_due (sc_tenant r) (schedule_id r) due s")
    case (Some x)
    with assms show ?thesis
      by (auto simp: create_occurrence_def advances_refl due_occurrence_def get_occurrence_by_due_def dest!: find_SomeD)
  next
    case None
    then obtain t b period s1 data where c: "insert_occurrence oc s = Inr s1"
      "record_occurrence oc ''scheduler.occurrence.created'' data s1 = Inr s'"
      "oc = new_occurrence env s r t due (due \<in> set skipped) b period"
      using assms(3) by (auto simp: create_occurrence_def Let_def res_simps split: option.splits)
    have ins: "oc \<in> set (occurrences s1)" "same_tables s s1" "oc_period_start oc \<le> oc_period_end oc"
      using c(1) by (auto simp: insert_occurrence_def res_simps same_tables_def)
    have "owner_schedule s oc r" using assms(2) by (simp add: owner_schedule_def c(3))
    then have "occurrence_ok s oc"
      using ins(3) new_occurrence_fields(4,5)[of env s r t due "due \<in> set skipped" b period] by (auto simp: occurrence_ok_def c(3))
    from insert_occurrence_advances[OF assms(1) c(1) this] have a: "advances s s1" by (simp add: c(3))
    have "due_occurrence (sc_tenant r) (schedule_id r) due s1"
      unfolding due_occurrence_def by (rule bexI[OF _ ins(1)]) (simp add: c(3))
    moreover from c(2) scheduler_events(1) have "quiet s1 s'" by (rule record_occurrence_quiet)
    moreover from this have "grows s1 s'" using quiet_advances[OF advances_ok[OF a]] by (auto simp: advances_def)
    ultimately show ?thesis
      using recorded_advances[OF a c(2)] same_tables_trans[OF ins(2) quiet_tables] by (auto intro: due_occurrence_grows)
  qed
  then show "advances s s'" "same_tables s s'" "due_occurrence (sc_tenant r) (schedule_id r) due s'" by blast+
qed

lemma materialize_fold:
  assumes "fold_res (materialize_one env r skipped) dues (m, s) = Inr (m', s')" "store_ok s" "r \<in> set (schedules s)"
  shows "advances s s' \<and> same_tables s s' \<and> (\<forall>due \<in> set dues. due_occurrence (sc_tenant r) (schedule_id r) due s')"
  using assms
proof (induction dues arbitrary: m s)
  case Nil
  then show ?case by (simp add: advances_refl)
next
  case (Cons due dues)
  from Cons.prems(1) obtain x where x: "materialize_one env r skipped due (m, s) = Inr x"
    "fold_res (materialize_one env r skipped) dues x = Inr (m', s')" by (auto simp: res_simps)
  from x(1) obtain oc c where "create_occurrence env r skipped due s = Inr ((oc, c), snd x)"
    by (auto simp: materialize_one_def res_simps)
  with x(2) have one: "create_occurrence env r skipped due s = Inr ((oc, c), snd x)"
    "fold_res (materialize_one env r skipped) dues (fst x, snd x) = Inr (m', s')" by simp_all
  note o = create_occurrence_advances[OF Cons.prems(2,3) one(1)]
  have "r \<in> set (schedules (snd x))" using o(2) Cons.prems(3) by (simp add: same_tables_def)
  note rest = Cons.IH[OF one(2) advances_ok[OF o(1)] this]
  then have "grows (snd x) s'" by (simp add: advances_def)
  with rest o(3) advances_trans[OF o(1)] same_tables_trans[OF o(2)] show ?case by (auto intro: due_occurrence_grows)
qed

lemma select_missed_set: "set (fst (select_missed r dues)) \<union> set (snd (select_missed r dues)) = set dues"
proof (cases "sc_missed r")
  case LAUNCH_LATEST
  then show ?thesis by (cases dues rule: rev_cases) (auto simp: select_missed_def)
next
  case LAUNCH_ALL
  have "set (drop n dues) \<union> set (take n dues) = set dues" for n by (metis append_take_drop_id set_append Un_commute)
  from this[of "length dues - catch_up_limit r"] LAUNCH_ALL show ?thesis
    by (cases "catch_up_limit r < length dues") (simp_all add: select_missed_def)
qed (auto simp: select_missed_def)

lemma cursor_advances:
  assumes "store_ok s"
  shows "advances s (s\<lparr>cursors := cs\<rparr>)"
  by (rule advances_same[OF assms]) (simp_all add: orch_progress_def orch_part_def orch_store.truncate_def)

lemma acquire_effect:
  assumes "acquire_cursor_lease r worker now secs s = (c, s')"
  obtains cs where "s' = s\<lparr>cursors := cs\<rparr>"
proof -
  have "s' = s\<lparr>cursors := cursors s'\<rparr>"
    using assms by (auto simp: acquire_cursor_lease_def get_or_create_cursor_def put_cursor_def Let_def split: option.splits if_splits)
  then show thesis by (rule that)
qed

lemma release_effect: "release_cursor c evaluated next_due s = s\<lparr>cursors := cursors (release_cursor c evaluated next_due s)\<rparr>"
  by (simp add: release_cursor_def put_cursor_def)

lemma materialize_cases:
  assumes "materialize_due_occurrences env tenant sid now worker secs s = Inr (m, s')"
  obtains (held) r cs where "get_schedule tenant sid s = Some r" "acquire_cursor_lease r worker now secs s = (None, s')" "s' = s\<lparr>cursors := cs\<rparr>"
  | (early) r c s1 due where "get_schedule tenant sid s = Some r" "acquire_cursor_lease r worker now secs s = (Some c, s1)"
      "evaluation_end r now \<le> evaluation_start r c" "s' = release_cursor c now due s1"
  | (evaluated) r c s1 dues s2 due where "get_schedule tenant sid s = Some r" "acquire_cursor_lease r worker now secs s = (Some c, s1)"
      "evaluation_start r c < evaluation_end r now"
      "occurrences_between env (recurrence_rule r) (sc_timezone r) (effective_from r) (evaluation_start r c) (evaluation_end r now) 1000 = Inr dues"
      "fold_res (materialize_one env r (snd (select_missed r dues))) (snd (select_missed r dues) @ fst (select_missed r dues))
         (nothing_materialized, s1) = Inr (m, s2)" "s' = release_cursor c now due s2"
proof -
  from assms obtain r where r: "get_schedule tenant sid s = Some r" by (auto simp: materialize_due_occurrences_def res_simps)
  obtain c s1 where a: "acquire_cursor_lease r worker now secs s = (c, s1)" by fastforce
  show thesis
  proof (cases c)
    case None
    with a r assms have "s' = s1" by (simp add: materialize_due_occurrences_def)
    with a None r held show thesis by (metis acquire_effect)
  next
    case (Some c)
    show thesis
    proof (cases "evaluation_end r now \<le> evaluation_start r c")
      case True
      with a Some r assms obtain due where "s' = release_cursor c now due s1"
        by (auto simp: materialize_due_occurrences_def Let_def res_simps)
      with early r a Some True show thesis by blast
    next
      case False
      with a Some r assms obtain dues s2 due where
        "occurrences_between env (recurrence_rule r) (sc_timezone r) (effective_from r) (evaluation_start r c) (evaluation_end r now) 1000 = Inr dues"
        "fold_res (materialize_one env r (snd (select_missed r dues))) (snd (select_missed r dues) @ fst (select_missed r dues))
           (nothing_materialized, s1) = Inr (m, s2)" "s' = release_cursor c now due s2"
        by (auto simp: materialize_due_occurrences_def Let_def res_simps split_beta)
      then show thesis using evaluated[OF r a[unfolded Some]] False by simp
    qed
  qed
qed

lemma materialize_advances:
  assumes "store_ok s" "materialize_due_occurrences env tenant sid now worker secs s = Inr (m, s')"
  shows "advances s s'"
  using assms(2)
proof (cases rule: materialize_cases)
  case (held r cs)
  then show ?thesis using cursor_advances[OF assms(1)] by simp
next
  case (early r c s1 due)
  from early(2) obtain cs where "s1 = s\<lparr>cursors := cs\<rparr>" by (rule acquire_effect)
  with early(4) have "s' = s\<lparr>cursors := cursors s'\<rparr>" using release_effect[of c now due s1] by simp
  then show ?thesis using cursor_advances[OF assms(1)] by metis
next
  case (evaluated r c s1 dues s2 due)
  from evaluated(2) obtain cs where s1: "s1 = s\<lparr>cursors := cs\<rparr>" by (rule acquire_effect)
  have a: "advances s s1" using cursor_advances[OF assms(1)] by (simp add: s1)
  have "r \<in> set (schedules s1)" using get_schedule_Some[OF evaluated(1)] by (simp add: s1)
  from materialize_fold[OF evaluated(5) advances_ok[OF a] this] have b: "advances s1 s2" by simp
  have "advances s2 s'" using cursor_advances[OF advances_ok[OF b]] release_effect[of c now due s2] evaluated(6) by metis
  with a b show ?thesis by (blast intro: advances_trans)
qed

section \<open>Preflight\<close>

definition ready :: "bool \<Rightarrow> sched_store \<Rightarrow> occurrence_row \<Rightarrow> bool" where
  "ready granted s oc \<longleftrightarrow> (granted \<longrightarrow> truthy (decision_by oc)) \<and>
     (\<forall>r. owner_schedule s oc r \<longrightarrow> sc_launch_mode r = APPROVAL_REQUIRED \<longrightarrow> granted)"

lemma report_payload:
  "map_of (dict_merge [(''occurrence_id'', PStr i), (''schedule_id'', PStr j)] (report_dict f rep)) ''occurrence_id'' = Some (PStr i)"
  "map_of (dict_merge [(''occurrence_id'', PStr i), (''schedule_id'', PStr j)] (report_dict f rep)) ''passed'' = Some (PBool (pf_passed rep))"
  by (simp_all add: dict_merge_def report_dict_def)

lemma recorded_passed:
  assumes "record_occurrence oc ''scheduler.preflight.passed'' (report_dict f rep) s = Inr s'" "pf_passed rep"
    "same_occurrence oc oc'"
  shows "preflight_passed s' oc'"
  using assms(1) scheduler_events(7)
proof (rule record_occurrence_quiet)
  fix e assume e: "e \<in> set (audit_events s')" "event_type e = ''scheduler.preflight.passed''" "event_tenant e = oc_tenant oc"
    "payload e = dict_merge [(''occurrence_id'', PStr (occurrence_id oc)), (''schedule_id'', PStr (oc_schedule oc))] (report_dict f rep)"
  show ?thesis
    unfolding preflight_passed_def
    by (rule bexI[OF _ e(1)]) (use e(2,3) assms(2,3) in \<open>simp add: e(4) report_payload same_occurrence_def\<close>)
qed

lemma blocked_advances:
  assumes "store_ok s" "quiet s s1" "oc \<in> set (occurrences s)" "occurrence_follows oc oc1" "oc_engagement oc1 = oc_engagement oc"
    "record_occurrence (blocked_row reason oc1) etype data (put_occurrence (blocked_row reason oc1) s1) = Inr s'" "scheduler_event etype"
  shows "advances s s'"
proof (rule recorded_advances[OF _ assms(6,7)])
  show "advances s (put_occurrence (blocked_row reason oc1) s1)"
    by (rule put_after_quiet[OF assms(1-3)]) (use assms(4,5) in \<open>auto intro: occurrence_follows_trans\<close>)
qed

lemma preflight_cases:
  assumes "preflight_transaction env tenant oid ctx granted s = Inr (out, s')"
  obtains (unavailable) oc reason data where "get_occurrence tenant oid s = Some oc" "out = PF_BLOCKED"
      "record_occurrence (blocked_row reason oc) ''scheduler.preflight.blocked'' data (put_occurrence (blocked_row reason oc) (snd (utc_now s))) = Inr s'"
  | (refused) oc oc1 reason data where "get_occurrence tenant oid s = Some oc" "out = PF_BLOCKED" "occurrence_follows oc oc1"
      "oc_engagement oc1 = oc_engagement oc"
      "record_occurrence (blocked_row reason oc1) ''scheduler.preflight.blocked'' data (put_occurrence (blocked_row reason oc1) (snd (utc_now s))) = Inr s'"
      "decision_by oc1 = decision_by oc"
  | (passed) oc oc1 r rep s2 where "get_occurrence tenant oid s = Some oc" "occurrence_follows oc oc1"
      "oc_engagement oc1 = oc_engagement oc" "oc_status oc1 = oc_status oc" "decision_by oc1 = decision_by oc"
      "get_schedule tenant (oc_schedule oc) s = Some r" "pf_passed rep"
      "record_occurrence oc1 ''scheduler.preflight.passed'' (report_dict (isoformat s) rep) (snd (utc_now s)) = Inr s2"
      "(out, s') = (if sc_launch_mode r = PREFLIGHT_THEN_APPROVAL \<and> \<not> granted
          then (PF_WAITING, put_occurrence (waiting_row ''preflight passed; start approval required'' oc1) s2) else (PF_GO, put_occurrence oc1 s2))"
proof -
  from assms obtain oc where oc: "get_occurrence tenant oid s = Some oc"
    by (auto simp: preflight_transaction_def split_beta split: option.splits)
  show thesis
  proof (cases "case get_schedule tenant (oc_schedule oc) s of None \<Rightarrow> None
      | Some r \<Rightarrow> map_option (\<lambda>t. (r, t)) (get_template tenant (sc_template r) s)")
    case None
    with assms oc obtain data where "out = PF_BLOCKED"
      "record_occurrence (blocked_row ''schedule or template is unavailable'' oc) ''scheduler.preflight.blocked'' data
         (put_occurrence (blocked_row ''schedule or template is unavailable'' oc) (snd (utc_now s))) = Inr s'"
      by (auto simp: preflight_transaction_def split_beta Let_def res_simps)
    with unavailable[OF oc] show thesis by blast
  next
    case (Some rt)
    obtain r t where rt: "rt = (r, t)" by (cases rt)
    have r: "get_schedule tenant (oc_schedule oc) s = Some r" using Some rt by (auto split: option.splits)
    obtain rep where rep: "evaluate_preflight env r t oc ctx (fst (utc_now s)) (snd (utc_now s)) = Inr rep"
      using assms oc Some rt by (auto simp: preflight_transaction_def split_beta Let_def res_simps)
    define oc1 where "oc1 = oc\<lparr>preflight_result := report_dict (isoformat s) rep, oc_evaluated_at := Some (fst (utc_now s))\<rparr>"
    have oc1: "occurrence_follows oc oc1" "oc_engagement oc1 = oc_engagement oc" "oc_status oc1 = oc_status oc"
      "decision_by oc1 = decision_by oc" by (simp_all add: oc1_def)
    show thesis
    proof (cases "pf_passed rep")
      case False
      with assms oc Some rt rep obtain reason data where "out = PF_BLOCKED"
        "record_occurrence (blocked_row reason oc1) ''scheduler.preflight.blocked'' data (put_occurrence (blocked_row reason oc1) (snd (utc_now s))) = Inr s'"
        by (auto simp: preflight_transaction_def split_beta Let_def res_simps oc1_def)
      with refused[OF oc _ oc1(1,2)] oc1(4) show thesis by blast
    next
      case True
      with assms oc Some rt rep obtain s2 where
        "record_occurrence oc1 ''scheduler.preflight.passed'' (report_dict (isoformat s) rep) (snd (utc_now s)) = Inr s2"
        "(out, s') = (if sc_launch_mode r = PREFLIGHT_THEN_APPROVAL \<and> \<not> granted
          then (PF_WAITING, put_occurrence (waiting_row ''preflight passed; start approval required'' oc1) s2) else (PF_GO, put_occurrence oc1 s2))"
        by (auto simp: preflight_transaction_def split_beta Let_def res_simps oc1_def split: if_splits)
      with passed[OF oc oc1 r True] show thesis by blast
    qed
  qed
qed

lemma preflight_advances:
  assumes "store_ok s" "preflight_transaction env tenant oid ctx granted s = Inr (out, s')"
  shows "advances s s'" "out = PF_GO \<Longrightarrow> has_occ tenant oid (ready granted s) s \<Longrightarrow> has_occ tenant oid (cleared s') s'"
proof -
  have "advances s s' \<and> (out = PF_GO \<longrightarrow> has_occ tenant oid (ready granted s) s \<longrightarrow> has_occ tenant oid (cleared s') s')"
    using assms(2)
  proof (cases rule: preflight_cases)
    case (unavailable oc reason data)
    then show ?thesis
      using blocked_advances[OF assms(1) quiet_now conjunct1[OF get_occurrence_Some[OF unavailable(1)]] _ _ unavailable(3)] by simp
  next
    case (refused oc oc1 reason data)
    then show ?thesis
      using blocked_advances[OF assms(1) quiet_now conjunct1[OF get_occurrence_Some[OF refused(1)]] refused(3,4,5)] by simp
  next
    case (passed oc oc1 r rep s2)
    note oc = get_occurrence_Some[OF passed(1)]
    have "quiet (snd (utc_now s)) s2" by (rule record_occurrence_quiet[OF passed(8)]) simp_all
    with quiet_now have q: "quiet s s2" by (rule quiet_trans)
    define out_row where "out_row = (if out = PF_GO then oc1 else waiting_row ''preflight passed; start approval required'' oc1)"
    have s': "s' = put_occurrence out_row s2" using passed(9) by (auto simp: out_row_def split: if_splits)
    have f: "occurrence_follows oc out_row" "oc_engagement out_row = oc_engagement oc"
      using passed(2,3) by (auto simp: out_row_def intro: occurrence_follows_trans)
    have "oc_status out_row \<in> {O_LAUNCHING, O_LAUNCHED} \<Longrightarrow> oc_status oc \<in> {O_LAUNCHING, O_LAUNCHED}"
      using passed(4) by (auto simp: out_row_def split: if_splits)
    then have st: "oc_status out_row \<in> {O_LAUNCHING, O_LAUNCHED} \<Longrightarrow> oc_engagement oc \<noteq> None"
      using store_okD(6)[OF assms(1) conjunct1[OF oc]] by (simp add: occurrence_ok_def)
    have a: "advances s s'" unfolding s' using put_after_quiet[OF assms(1) q conjunct1[OF oc] f st] .
    moreover have "has_occ tenant oid (cleared s') s'" if go: "out = PF_GO" and rdy: "has_occ tenant oid (ready granted s) s"
    proof -
      have a2: "advances s s2" by (rule quiet_advances[OF assms(1) q])
      have get2: "get_occurrence tenant oid s2 = Some oc" using passed(1) quiet_get(1)[OF q] by (simp add: get_occurrence_def)
      have same: "same_occurrence oc oc1" using passed(2) by (simp add: occurrence_follows_def)
      have "preflight_passed s2 oc1"
        by (rule recorded_passed[OF passed(8,7)]) (simp add: same_occurrence_def)
      then have pp: "preflight_passed s' oc1" by (simp add: s' preflight_passed_def put_occurrence_def)
      from rdy have r: "ready granted s oc" by (rule has_occ_get[OF assms(1) passed(1)])
      have own: "owner_schedule s oc r"
        using passed(6) oc get_schedule_owner[OF store_okD(8)[OF assms(1)], of oc r] by simp
      have "owner_schedule s' oc1 r"
        using own quiet_get(2)[OF q] same by (simp add: owner_schedule_def s' put_occurrence_def same_occurrence_def)
      moreover have "sc_launch_mode r = AUTOMATIC \<or> truthy (decision_by oc1)"
        using r own passed(5,9) go by (cases "sc_launch_mode r") (auto simp: ready_def split: if_splits)
      ultimately have "cleared s' oc1" using pp by (auto simp: cleared_def)
      then show ?thesis
        unfolding s' by (intro has_occ_put[OF advances_ok[OF a2] get2]) (use go same in \<open>simp_all add: out_row_def s'[symmetric] s'\<close>)
    qed
    ultimately show ?thesis by blast
  qed
  then show "advances s s'" "out = PF_GO \<Longrightarrow> has_occ tenant oid (ready granted s) s \<Longrightarrow> has_occ tenant oid (cleared s') s'" by blast+
qed

section \<open>Launch\<close>

lemma add_engagement_for_effect:
  assumes "add_engagement_for env r t oc eid s = Inr s'"
  shows "orch_progress s s'" "same_tables s s'" "occurrences s' = occurrences s" "engaged (oc_tenant oc) eid s'"
proof -
  define s1 where "s1 = snd (utc_now s)"
  obtain e s2 g where e: "add_engagement e s1 = Inr s2" "s' = s2\<lparr>engagement_scopes := engagement_scopes s2 @ [g]\<rparr>"
    "engagement_id e = eid" "eng_tenant e = oc_tenant oc" "eng_status e = E_PLANNED"
    using assms by (auto simp: add_engagement_for_def split_beta Let_def res_simps s1_def)
  then have s2: "s2 = s1\<lparr>engagements := engagements s1 @ [e]\<rparr>" "\<not> has_key engagement_id eid (engagements s1)"
    by (auto simp: add_engagement_def split: if_splits)
  have "add_engagement e (orch_part s1) = Inr (orch_part s')"
    using s2 e(3) by (simp add: add_engagement_def e(2) orch_part_def orch_store.truncate_def)
  then have "ostep (orch_part s1) (orch_part s')" using e(5) by (rule engagement_added)
  moreover have "orch_progress s s1" using quiet_now[of s] by (simp add: quiet_def s1_def)
  ultimately show "orch_progress s s'" by (auto simp: orch_progress_def)
  show "same_tables s s'" "occurrences s' = occurrences s"
    by (simp_all add: same_tables_def e(2) s2(1) s1_def utc_now_def)
  show "engaged (oc_tenant oc) eid s'" using e(3,4) by (auto simp: engaged_def e(2) s2(1))
qed

definition launched_for :: "launch_start \<Rightarrow> sched_store \<Rightarrow> occurrence_row \<Rightarrow> bool" where
  "launched_for l s oc \<longleftrightarrow> oc_engagement oc = Some (ls_engagement l) \<and> cleared s oc"

lemma engagement_id_nonempty: "engagement_id_for env oid \<noteq> []"
  by (simp add: engagement_id_for_def)

lemma begin_launch_cases:
  assumes "begin_launch env tenant oid s = Inr (out, s')"
  obtains (finished) "out = None" "s' = snd (utc_now s)"
  | (started) oc r t l s2 s3 secs where "get_occurrence tenant oid s = Some oc" "out = Some l"
      "get_template tenant (sc_template r) s = Some t" "tp_workflow t = Some (Inr (ls_workflow l))"
      "ls_engagement l = (case oc_engagement oc of Some i \<Rightarrow> if i = [] then engagement_id_for env oid else i | None \<Rightarrow> engagement_id_for env oid)"
      "engaged tenant (ls_engagement l) (snd (utc_now s)) \<and> s2 = snd (utc_now s) \<or>
       add_engagement_for env r t oc (ls_engagement l) (snd (utc_now s)) = Inr s2"
      "assign_engagement (launching_row (ls_engagement l) (ls_now l) secs oc) s2 = Inr s3"
      "\<exists>data. record_occurrence (launching_row (ls_engagement l) (ls_now l) secs oc) ''scheduler.launch.started'' data s3 = Inr s'"
proof -
  from assms obtain oc where oc: "get_occurrence tenant oid s = Some oc"
    by (auto simp: begin_launch_def split_beta split: option.splits)
  show thesis
  proof (cases "oc_status oc = O_LAUNCHED")
    case True
    with assms oc show thesis using finished by (simp add: begin_launch_def split_beta)
  next
    case False
    define eid where "eid = (case oc_engagement oc of Some i \<Rightarrow> if i = [] then engagement_id_for env oid else i | None \<Rightarrow> engagement_id_for env oid)"
    define s1 where "s1 = snd (utc_now s)"
    define now where "now = fst (utc_now s)"
    from assms oc False obtain r t w s2 secs s3 data where b: "get_schedule tenant (oc_schedule oc) s = Some r"
      "get_template tenant (sc_template r) s = Some t" "tp_workflow t = Some (Inr w)"
      "(if get_engagement tenant eid s1 = None then add_engagement_for env r t oc eid s1 else Inr s1) = Inr s2"
      "assign_engagement (launching_row eid now secs oc) s2 = Inr s3"
      "record_occurrence (launching_row eid now secs oc) ''scheduler.launch.started'' data s3 = Inr s'"
      "out = Some \<lparr>ls_engagement = eid, ls_workflow = w, ls_now = now\<rparr>"
      by (auto simp: begin_launch_def split_beta Let_def res_simps eid_def[symmetric] s1_def[symmetric] now_def[symmetric])
    have "engaged tenant eid s1 \<and> s2 = s1 \<or> add_engagement_for env r t oc eid s1 = Inr s2"
      using b(4) engaged_get[of tenant eid s1] by (auto split: if_splits)
    then show thesis
      using started[OF oc b(7) b(2)] b(3,5,6) by (auto simp: s1_def eid_def)
  qed
qed

lemma begin_launch_advances:
  assumes "store_ok s" "begin_launch env tenant oid s = Inr (out, s')" "has_occ tenant oid (cleared s) s"
  shows "advances s s'"
    "out = Some l \<Longrightarrow> has_occ tenant oid (launched_for l s') s' \<and> workflow_definition_ok (ls_workflow l)"
proof -
  have "advances s s' \<and> (\<forall>l. out = Some l \<longrightarrow> has_occ tenant oid (launched_for l s') s' \<and> workflow_definition_ok (ls_workflow l))"
    using assms(2)
  proof (cases rule: begin_launch_cases)
    case finished
    then show ?thesis using quiet_advances[OF assms(1) quiet_now] by simp
  next
    case (started oc r t l s2 s3 secs)
    note oc = get_occurrence_Some[OF started(1)]
    let ?row = "launching_row (ls_engagement l) (ls_now l) secs oc"
    define s1 where "s1 = snd (utc_now s)"
    have a1: "advances s s1" unfolding s1_def by (rule quiet_advances[OF assms(1) quiet_now])
    have t1: "templates s1 = templates s" "schedules s1 = schedules s" "occurrences s1 = occurrences s" by (simp_all add: s1_def)
    have two: "orch_progress s1 s2" "same_tables s1 s2" "occurrences s2 = occurrences s1" "engaged tenant (ls_engagement l) s2"
      using started(6) add_engagement_for_effect[of env r t oc "ls_engagement l" s1 s2] oc
      by (auto simp: s1_def[symmetric] orch_progress_def)
    have a2: "advances s1 s2"
      using two by (intro advances_same[OF advances_ok[OF a1]]) (simp_all add: same_tables_def)
    have a12: "advances s s2" using a1 a2 by (rule advances_trans)
    have eng: "ls_engagement l \<noteq> []" "oc_engagement oc = None \<or> oc_engagement oc = Some (ls_engagement l)"
      using store_okD(6)[OF assms(1) conjunct1[OF oc]] started(5) engagement_id_nonempty[of env oid]
      by (auto simp: occurrence_ok_def split: option.splits)
    have f: "occurrence_follows oc ?row" using eng(2) by (auto simp: occurrence_follows_def same_occurrence_def launching_row_def)
    have fields: "oc_engagement ?row = Some (ls_engagement l)" "oc_tenant ?row = tenant" "occurrence_id ?row = oid"
      using oc by (simp_all add: launching_row_def)
    have get2: "get_occurrence tenant oid s2 = Some oc" using started(1) two(3) t1(3) by (simp add: get_occurrence_def)
    have "cleared s oc" using assms(3) by (rule has_occ_get[OF assms(1) started(1)])
    then have cl: "cleared s2 ?row"
      using cleared_grows[OF _ store_okD(7)[OF assms(1)] f] a12 by (simp add: advances_def)
    have mem2: "oc \<in> set (occurrences s2)" using get_occurrence_Some[OF get2] by simp
    have rowok: "occurrence_ok s2 ?row"
      using store_okD(6)[OF advances_ok[OF a12] mem2] cl two(4) eng(1) fields
      by (auto simp: occurrence_ok_def owner_schedule_def launching_row_def)
    have s3: "s3 = put_occurrence ?row s2" "\<And>x. x \<in> set (occurrences s2) \<Longrightarrow> occurrence_id x \<noteq> oid \<Longrightarrow> oc_engagement x \<noteq> oc_engagement ?row"
      using started(7) fields(3) by (auto simp: assign_engagement_def split: if_splits)
    have a3: "advances s2 s3"
      unfolding s3(1) by (rule put_occurrence_advances[OF advances_ok[OF a12] mem2 f rowok]) (use s3(2) oc in auto)
    have occ3: "has_occ tenant oid (launched_for l s3) s3"
      unfolding s3(1)
    proof (rule has_occ_put[OF advances_ok[OF a12] get2])
      show "same_occurrence oc ?row" using f by (simp add: occurrence_follows_def)
      show "launched_for l (put_occurrence ?row s2) ?row"
        using cl fields(1) by (simp add: launched_for_def cleared_def preflight_passed_def owner_schedule_def put_occurrence_def)
    qed
    from started(8) obtain data where rec: "record_occurrence ?row ''scheduler.launch.started'' data s3 = Inr s'" ..
    have a4: "advances s3 s'" using recorded_advances[OF advances_refl[OF advances_ok[OF a3]] rec] by simp
    have "has_occ tenant oid (launched_for l s') s'"
    proof (rule has_occ_grows[OF occ3])
      show "grows s3 s'" using a4 by (simp add: advances_def)
      show "launched_for l s' y" if "occurrence_follows x y" "launched_for l s3 x" for x y
        using cleared_grows[OF \<open>grows s3 s'\<close> store_okD(7)[OF advances_ok[OF a3]] that(1)] that
        by (auto simp: launched_for_def occurrence_follows_def)
    qed
    moreover have "workflow_definition_ok (ls_workflow l)"
      using workflows_okD[OF store_okD(1)[OF assms(1)] _ started(4)] get_template_Some[OF started(3)] by blast
    ultimately show ?thesis using a12 a3 a4 started(2) by (auto intro: advances_trans)
  qed
  then show "advances s s'" "out = Some l \<Longrightarrow> has_occ tenant oid (launched_for l s') s' \<and> workflow_definition_ok (ls_workflow l)" by blast+
qed

lemma finish_launch_advances:
  assumes "store_ok s" "finish_launch tenant oid eid now s = Inr s'" "has_occ tenant oid (\<lambda>oc. oc_engagement oc \<noteq> None) s"
  shows "advances s s'"
proof -
  from assms(2) obtain oc where oc: "get_occurrence tenant oid s = Some oc" by (auto simp: finish_launch_def split: option.splits)
  show ?thesis
  proof (cases "oc_status oc = O_LAUNCHED")
    case True
    with assms oc show ?thesis by (simp add: finish_launch_def advances_refl)
  next
    case False
    with assms(2) oc obtain data where rec: "record_occurrence (launched_row now oc) ''scheduler.launch.completed'' data (put_occurrence (launched_row now oc) s) = Inr s'"
      by (auto simp: finish_launch_def Let_def)
    have "oc_engagement oc \<noteq> None" using assms(3) by (rule has_occ_get[OF assms(1) oc])
    then have "advances s (put_occurrence (launched_row now oc) s)"
      using update_occurrence_advances[OF assms(1) conjunct1[OF get_occurrence_Some[OF oc]], of "launched_row now oc"] by simp
    from recorded_advances[OF this rec] show ?thesis by simp
  qed
qed

section \<open>Authoring\<close>

lemma same_schedule_orch [simp]: "orch_part (s\<lparr>schedules := rs\<rparr>) = orch_part s" "orch_part (s\<lparr>cursors := cs\<rparr>) = orch_part s"
  by (simp_all add: orch_part_def orch_store.truncate_def)

lemma schedule_rows_inj: "store_ok s \<Longrightarrow> x \<in> set (schedules s) \<Longrightarrow> y \<in> set (schedules s) \<Longrightarrow> schedule_id x = schedule_id y \<Longrightarrow> x = y"
  using store_okD(8)[of s] by (auto simp: distinct_map dest: inj_onD)

lemma put_schedule_advances:
  assumes "store_ok s" "r \<in> set (schedules s)" "schedule_follows r r'"
    "\<And>x. sc_status r' = ''active'' \<Longrightarrow> x \<in> set (schedules s) \<Longrightarrow> sc_status x = ''active'' \<Longrightarrow> active_name x = active_name r \<Longrightarrow>
       schedule_id x = schedule_id r"
  shows "advances s (put_schedule r' s)"
  unfolding put_schedule_def
proof (rule schedules_advances[OF assms(1)])
  note ok = store_okD[OF assms(1)]
  have same: "same_schedule r r'" using assms(3) by (simp add: schedule_follows_def)
  note f = same_scheduleD[OF same]
  have mem: "x \<in> set (put schedule_id r' (schedules s)) \<longleftrightarrow> x = r' \<or> x \<in> set (schedules s) \<and> schedule_id x \<noteq> schedule_id r" for x
    using assms(2) f(1) by (auto simp: in_set_put[OF ok(8)] has_key_def)
  show "\<exists>y \<in> set (put schedule_id r' (schedules s)). schedule_follows x y" if "x \<in> set (schedules s)" for x
  proof (cases "schedule_id x = schedule_id r")
    case True
    with that assms(2) have "x = r" by (rule schedule_rows_inj[OF assms(1)])
    with assms(3) mem[of r'] show ?thesis by auto
  next
    case False
    with that mem[of x] schedule_follows_refl[of x] show ?thesis by blast
  qed
  let ?f = "\<lambda>r. (sc_tenant r, sc_name r, sc_version r)"
  have "map ?f (put schedule_id r' (schedules s)) = map ?f (schedules s)"
  proof (rule map_put_same)
    fix x assume "x \<in> set (schedules s)" "schedule_id x = schedule_id r'"
    then have "x = r" using assms(2) f(1) by (intro schedule_rows_inj[OF assms(1)]) simp_all
    then show "?f r' = ?f x" using f by simp
  qed
  moreover have "inj_on active_name {x \<in> set (put schedule_id r' (schedules s)). sc_status x = ''active''}"
  proof (rule inj_onI)
    fix x y assume xy: "x \<in> {x \<in> set (put schedule_id r' (schedules s)). sc_status x = ''active''}"
      "y \<in> {x \<in> set (put schedule_id r' (schedules s)). sc_status x = ''active''}" "active_name x = active_name y"
    have n: "active_name r' = active_name r" using f by (simp add: active_name_def)
    from xy consider "x = r'" "y = r'" | "x = r'" "y \<in> set (schedules s)" "schedule_id y \<noteq> schedule_id r"
      | "y = r'" "x \<in> set (schedules s)" "schedule_id x \<noteq> schedule_id r" | "x \<in> set (schedules s)" "y \<in> set (schedules s)"
      by (auto simp: mem)
    then show "x = y"
    proof cases
      case 4
      have "inj_on active_name {r \<in> set (schedules s). sc_status r = ''active''}" using ok(2) by (simp add: schedules_ok_def)
      from inj_onD[OF this xy(3)] xy 4 show ?thesis by simp
    qed (use xy n assms(4) in auto)
  qed
  ultimately show "schedules_ok (put schedule_id r' (schedules s))"
    using ok(2) by (simp add: schedules_ok_def map_key_put)
qed

lemma record_schedule_advances:
  assumes "advances s0 s" "record_schedule r etype now data s = Inr s'" "scheduler_event etype"
  shows "advances s0 s'"
  using quiet_advances[OF advances_ok[OF assms(1)] record_schedule_quiet[OF assms(2,3)]] assms(1) by (blast intro: advances_trans)

lemma create_draft_advances:
  assumes "store_ok s" "create_draft env tenant d s = Inr (r, s')"
  shows "advances s s'" "sc_status r = ''draft''" "cursors s' = cursors s"
proof -
  define s2 where "s2 = snd (new_id ''sch'' (snd (utc_now s)))"
  have a2: "advances s s2"
    unfolding s2_def by (rule quiet_advances[OF assms(1) quiet_trans[OF quiet_now quiet_id]])
  obtain sid v now s3 where c: "r = new_schedule sid tenant v d now" "add_schedule r s2 = Inr s3"
    "record_schedule r ''scheduler.schedule.draft_created'' now [] s3 = Inr s'"
    using assms(2) by (auto simp: create_draft_def split_beta Let_def res_simps s2_def)
  have s3: "s3 = s2\<lparr>schedules := schedules s2 @ [r]\<rparr>" "\<not> has_key schedule_id (schedule_id r) (schedules s2)"
    "\<not> has_key (\<lambda>x. (sc_tenant x, sc_name x, sc_version x)) (sc_tenant r, sc_name r, sc_version r) (schedules s2)"
    using c(2) by (auto simp: add_schedule_def res_simps)
  show st: "sc_status r = ''draft''" by (simp add: c(1) new_schedule_def)
  have "{x \<in> set (schedules s2 @ [r]). sc_status x = ''active''} = {x \<in> set (schedules s2). sc_status x = ''active''}"
    using st by auto
  then have "schedules_ok (schedules s2 @ [r])"
    using store_okD(2)[OF advances_ok[OF a2]] s3(2,3) by (auto simp: schedules_ok_def has_key_image)
  then have a3: "advances s2 s3"
    unfolding s3(1) by (rule schedules_advances[OF advances_ok[OF a2]]) (auto intro: schedule_follows_refl)
  show "advances s s'" using record_schedule_advances[OF advances_trans[OF a2 a3] c(3)] by simp
  have "quiet s3 s'" using c(3) by (rule record_schedule_quiet) simp
  then show "cursors s' = cursors s"
    using quiet_tables[of s3 s'] by (simp add: same_tables_def s3(1) s2_def new_id_def draw_uuid_def utc_now_def)
qed

lemma revise_advances:
  assumes "store_ok s" "revise env tenant sid d s = Inr (r, s')"
  shows "advances s s'" "cursors s' = cursors s"
  using assms create_draft_advances by (auto simp: revise_def split: option.splits)

lemma supersede_row_follows: "sc_status x = ''active'' \<Longrightarrow> schedule_follows x (supersede_row r actor now x)"
  by (simp add: schedule_follows_def same_schedule_def supersede_row_def schedule_leads_def)

lemma supersede_row_id [simp]: "schedule_id (supersede_row r actor now x) = schedule_id x"
  by (simp add: supersede_row_def)

lemma supersede_fold:
  assumes "fold_res (supersede r actor now) xs s = Inr s'" "store_ok s" "distinct (map schedule_id xs)"
    "\<And>x. x \<in> set xs \<Longrightarrow> x \<in> set (schedules s) \<and> sc_status x = ''active''"
  shows "advances s s' \<and> cursors s' = cursors s \<and>
    schedules s' = map (\<lambda>y. if schedule_id y \<in> schedule_id ` set xs then supersede_row r actor now y else y) (schedules s)"
  using assms
proof (induction xs arbitrary: s)
  case Nil
  then show ?case by (simp add: advances_refl)
next
  case (Cons x xs)
  let ?x = "supersede_row r actor now x"
  from Cons.prems(1) obtain u where u0: "supersede r actor now x s = Inr u" "fold_res (supersede r actor now) xs u = Inr s'"
    by (auto simp: res_simps)
  from u0(1) obtain data where "record_schedule ?x ''scheduler.schedule.superseded'' now data (put_schedule ?x s) = Inr u"
    by (auto simp: supersede_def Let_def)
  note u = this u0(2)
  have x: "x \<in> set (schedules s)" "sc_status x = ''active''" using Cons.prems(4) by simp_all
  have st: "sc_status ?x = ''superseded''" by (simp add: supersede_row_def)
  have a: "advances s (put_schedule ?x s)"
    by (rule put_schedule_advances[OF Cons.prems(2) x(1) supersede_row_follows[OF x(2)]]) (use st in simp)
  have b: "advances s u" using record_schedule_advances[OF a u(1)] by simp
  have q: "quiet (put_schedule ?x s) u" by (rule record_schedule_quiet[OF u(1)]) simp
  have eq: "schedules u = map (\<lambda>y. if schedule_id y = schedule_id x then ?x else y) (schedules s)" "cursors u = cursors s"
    using quiet_tables[OF q] by (simp_all add: same_tables_def put_schedule_def put_def)
  have new: "y = x" if "y \<in> set (schedules s)" "schedule_id y = schedule_id x" for y
    by (rule schedule_rows_inj[OF Cons.prems(2) that(1) x(1) that(2)])
  have rest: "advances u s' \<and> cursors s' = cursors u \<and>
    schedules s' = map (\<lambda>y. if schedule_id y \<in> schedule_id ` set xs then supersede_row r actor now y else y) (schedules u)"
  proof (rule Cons.IH[OF u(2) advances_ok[OF b]])
    show "distinct (map schedule_id xs)" using Cons.prems(3) by simp
    fix z assume z: "z \<in> set xs"
    then have "schedule_id z \<noteq> schedule_id x" using Cons.prems(3) by (metis distinct.simps(2) image_eqI list.simps(9) set_map)
    with z Cons.prems(4)[of z] show "z \<in> set (schedules u) \<and> sc_status z = ''active''" by (auto simp: eq(1))
  qed
  have "schedule_id x \<notin> schedule_id ` set xs" using Cons.prems(3) by simp
  then have "map (\<lambda>y. if schedule_id y \<in> schedule_id ` set xs then supersede_row r actor now y else y) (schedules u)
    = map (\<lambda>y. if schedule_id y \<in> schedule_id ` set (x # xs) then supersede_row r actor now y else y) (schedules s)"
    unfolding eq(1) map_map by (intro map_cong refl) (auto simp: comp_def dest: new)
  with rest b eq(2) show ?case by (auto intro: advances_trans)
qed

definition same_marks :: "sched_store \<Rightarrow> sched_store \<Rightarrow> bool" where
  "same_marks s s' \<longleftrightarrow> (\<forall>c' \<in> set (cursors s'). last_evaluated_at c' = None \<or>
     (\<exists>c \<in> set (cursors s). cu_schedule c = cu_schedule c' \<and> last_evaluated_at c = last_evaluated_at c'))"

lemma same_marks_cursors: "cursors s' = cursors s \<Longrightarrow> same_marks s s'"
  by (auto simp: same_marks_def)

lemma same_marks_put: "c \<in> set (cursors s) \<Longrightarrow> cu_schedule c' = cu_schedule c \<Longrightarrow> last_evaluated_at c' = last_evaluated_at c \<Longrightarrow>
    cursors s' = put cu_schedule c' (cursors s) \<Longrightarrow> same_marks s s'"
  by (auto simp: same_marks_def put_def)

lemma approve_schedule_advances:
  assumes "store_ok s" "approve_schedule env tenant sid d s = Inr (r', s')"
  shows "advances s s'" "same_marks s s'"
proof -
  define s1 where "s1 = snd (utc_now s)"
  have s1: "quiet s s1" "schedules s1 = schedules s" "cursors s1 = cursors s" by (simp_all add: s1_def utc_now_def quiet_draws)
  from assms(2) obtain r where r: "get_schedule tenant sid s = Some r" by (auto simp: approve_schedule_def split_beta split: option.splits)
  note rs = get_schedule_Some[OF r]
  have "advances s s' \<and> same_marks s s'"
  proof (cases "sc_status r = ''active''")
    case True
    with r assms(2) have "s' = s1" by (simp add: approve_schedule_def split_beta s1_def)
    with quiet_advances[OF assms(1) s1(1)] s1(3) show ?thesis by (simp add: same_marks_cursors)
  next
    case False
    let ?xs = "filter (\<lambda>x. sc_tenant x = tenant \<and> sc_name x = sc_name r \<and> sc_status x = ''active'' \<and> schedule_id x \<noteq> schedule_id r) (schedules s)"
    define now where "now = fst (utc_now s)"
    define n where "n = activate_row d now r"
    have "\<exists>s2 data due. sc_status r = ''draft'' \<and> fold_res (supersede r (sd_actor_id d) now) ?xs s1 = Inr s2 \<and>
      record_schedule n ''scheduler.schedule.approved'' now data
         (put_cursor ((fst (get_or_create_cursor n (put_schedule n s2)))\<lparr>next_due_at := due\<rparr>) (snd (get_or_create_cursor n (put_schedule n s2)))) = Inr s'"
      using assms(2) r False
      by (simp add: approve_schedule_def split_beta Let_def res_simps s1_def[symmetric] now_def[symmetric] n_def[symmetric])
        (elim exE conjE, intro exI conjI, assumption+)
    then obtain s2 data due where c: "sc_status r = ''draft''" "fold_res (supersede r (sd_actor_id d) now) ?xs s1 = Inr s2"
      "record_schedule n ''scheduler.schedule.approved'' now data
         (put_cursor ((fst (get_or_create_cursor n (put_schedule n s2)))\<lparr>next_due_at := due\<rparr>) (snd (get_or_create_cursor n (put_schedule n s2)))) = Inr s'"
      by (elim exE conjE)
    have a1: "advances s s1" by (rule quiet_advances[OF assms(1) s1(1)])
    have dist: "distinct (map schedule_id ?xs)" using store_okD(8)[OF assms(1)] by (simp add: distinct_map_filter)
    have "x \<in> set (schedules s1) \<and> sc_status x = ''active''" if "x \<in> set ?xs" for x using that s1(2) by simp
    note sup = supersede_fold[OF c(2) advances_ok[OF a1] dist this]
    have a2: "advances s1 s2" "cursors s2 = cursors s"
      "schedules s2 = map (\<lambda>y. if schedule_id y \<in> schedule_id ` set ?xs then supersede_row r (sd_actor_id d) now y else y) (schedules s)"
      using sup unfolding s1(2,3) by blast+
    have r2: "r \<in> set (schedules s2)" using rs by (auto simp: a2(3))
    have f: "schedule_follows r n"
      using c(1) by (simp add: n_def activate_row_def schedule_follows_def same_schedule_def schedule_leads_def)
    have ns: "schedule_id n = schedule_id r" by (simp add: n_def activate_row_def)
    have a3: "advances s2 (put_schedule n s2)"
    proof (rule put_schedule_advances[OF advances_ok[OF a2(1)] r2 f])
      fix x assume x: "x \<in> set (schedules s2)" "sc_status x = ''active''" "active_name x = active_name r"
      show "schedule_id x = schedule_id r"
      proof (rule ccontr)
        assume ne: "schedule_id x \<noteq> schedule_id r"
        from x(1) obtain y where y: "y \<in> set (schedules s)"
          "x = (if schedule_id y \<in> schedule_id ` set ?xs then supersede_row r (sd_actor_id d) now y else y)" by (auto simp: a2(3))
        with x(2) have "schedule_id y \<notin> schedule_id ` set ?xs" "x = y" by (auto simp: supersede_row_def split: if_splits)
        moreover have "y \<in> set ?xs" using x(2,3) y(1) ne rs \<open>x = y\<close> by (simp add: active_name_def)
        ultimately show False by blast
      qed
    qed
    let ?t = "put_schedule n s2"
    obtain c0 s3 where g: "get_or_create_cursor n ?t = (c0, s3)" by fastforce
    have g3: "s3 = ?t\<lparr>cursors := cursors s3\<rparr>" "c0 \<in> set (cursors s3)" "same_marks s s3"
      using g a2(2) by (auto simp: get_or_create_cursor_def Let_def put_schedule_def same_marks_def split: option.splits dest: row_Some)
    have a4: "advances ?t s3" using cursor_advances[OF advances_ok[OF a3]] g3(1) by metis
    define s4 where "s4 = put_cursor (c0\<lparr>next_due_at := due\<rparr>) s3"
    have a5: "advances s3 s4" unfolding s4_def put_cursor_def by (rule cursor_advances[OF advances_ok[OF a4]])
    have rec: "record_schedule n ''scheduler.schedule.approved'' now data s4 = Inr s'" using c(3) by (simp add: g s4_def)
    have a04: "advances s s4" using a1 a2(1) a3 a4 a5 by (blast intro: advances_trans)
    have "same_marks s3 s4" by (rule same_marks_put[OF g3(2)]) (simp_all add: s4_def put_cursor_def)
    then have m4: "same_marks s s4" using g3(3) unfolding same_marks_def by metis
    have "cursors s' = cursors s4" using quiet_tables[OF record_schedule_quiet[OF rec]] by (simp add: same_tables_def)
    then have "same_marks s s'" using m4 by (simp add: same_marks_def)
    with record_schedule_advances[OF a04 rec] show ?thesis by simp
  qed
  then show "advances s s'" "same_marks s s'" by blast+
qed

lemma disable_schedule_advances:
  assumes "store_ok s" "disable_schedule tenant sid d s = Inr (r', s')"
  shows "advances s s'" "same_marks s s'"
proof -
  define s1 where "s1 = snd (utc_now s)"
  have s1: "quiet s s1" "schedules s1 = schedules s" "cursors s1 = cursors s" by (simp_all add: s1_def utc_now_def quiet_draws)
  have a1: "advances s s1" by (rule quiet_advances[OF assms(1) s1(1)])
  from assms(2) obtain r where r: "get_schedule tenant sid s = Some r" by (auto simp: disable_schedule_def split_beta split: option.splits)
  note rs = get_schedule_Some[OF r]
  have "advances s s' \<and> same_marks s s'"
  proof (cases "sc_status r = ''disabled''")
    case True
    with r assms(2) have "s' = s1" by (simp add: disable_schedule_def split_beta s1_def)
    with a1 s1(3) show ?thesis by (simp add: same_marks_cursors)
  next
    case False
    define now where "now = fst (utc_now s)"
    define n where "n = r\<lparr>sc_status := ''disabled'', sc_disabled_at := Some now, sc_disabled_by := Some (sd_actor_id d),
      sc_disable_reason := Some (sd_reason d)\<rparr>"
    from assms(2) r False obtain data where c0: "sc_status r = ''draft'' \<or> sc_status r = ''active''"
      "record_schedule n ''scheduler.schedule.disabled'' now data
         (case row cu_schedule (schedule_id r) (cursors (put_schedule n s1)) of None \<Rightarrow> put_schedule n s1
          | Some c \<Rightarrow> put_cursor (c\<lparr>cu_lease_owner := None, cu_lease_expires_at := None, next_due_at := None\<rparr>) (put_schedule n s1)) = Inr s'"
      by (auto simp: disable_schedule_def split_beta Let_def res_simps s1_def[symmetric] now_def[symmetric] n_def[symmetric])
    define s2 where "s2 = put_schedule n s1"
    define s3 where "s3 = (case row cu_schedule (schedule_id r) (cursors s2) of None \<Rightarrow> s2
      | Some c \<Rightarrow> put_cursor (c\<lparr>cu_lease_owner := None, cu_lease_expires_at := None, next_due_at := None\<rparr>) s2)"
    note c = c0[folded s2_def, folded s3_def]
    have f: "schedule_follows r n" using c(1) by (auto simp: n_def schedule_follows_def same_schedule_def schedule_leads_def)
    have a2: "advances s1 s2"
      unfolding s2_def by (rule put_schedule_advances[OF advances_ok[OF a1] _ f]) (use rs s1(2) in \<open>simp_all add: n_def\<close>)
    have m2: "cursors s2 = cursors s" by (simp add: s2_def put_schedule_def s1(3))
    have a3: "advances s2 s3 \<and> same_marks s s3"
    proof (cases "row cu_schedule (schedule_id r) (cursors s2)")
      case None
      then show ?thesis using m2 by (simp add: s3_def advances_refl[OF advances_ok[OF a2]] same_marks_cursors)
    next
      case (Some c)
      let ?c = "c\<lparr>cu_lease_owner := None, cu_lease_expires_at := None, next_due_at := None\<rparr>"
      have s3: "s3 = s2\<lparr>cursors := put cu_schedule ?c (cursors s)\<rparr>" using Some m2 by (simp add: s3_def put_cursor_def)
      have "same_marks s s3" by (rule same_marks_put[of c]) (use row_Some[OF Some] m2 in \<open>simp_all add: s3\<close>)
      then show ?thesis using cursor_advances[OF advances_ok[OF a2]] by (simp add: s3)
    qed
    have "cursors s' = cursors s3" using quiet_tables[OF record_schedule_quiet[OF c(2)]] by (simp add: same_tables_def)
    then have "same_marks s s'" using a3 by (simp add: same_marks_def)
    moreover have "advances s s3" using a1 a2 a3 by (blast intro: advances_trans)
    ultimately show ?thesis using record_schedule_advances[OF _ c(2)] by simp
  qed
  then show "advances s s'" "same_marks s s'" by blast+
qed

end
