(* ===== verification/Sched_Machine.thy ===== *)
theory Sched_Machine
  imports Sched_Steps
begin

text \<open>
  The scheduler as a machine: its transactions interleave in any order, each launch in flight is a
  job that may be advanced or lost, and the orchestrator and its other clients work on the same
  store in between.
\<close>

section \<open>The system\<close>

record sched_sys =
  sy_store :: sched_store
  sy_jobs :: "(ident \<times> job) list"

datatype sched_op =
    CreateDraft ident schedule_draft
  | ReviseSchedule ident ident schedule_draft
  | ApproveSchedule ident ident schedule_decision
  | DisableSchedule ident ident schedule_decision
  | Materialize ident ident time ident int
  | Process ident ident preflight_context
  | ApproveOccurrence ident ident occurrence_decision
  | CancelOccurrence ident ident occurrence_decision
  | Advance nat
  | Crash nat
  | ReadClock
  | Orchestrate orch_op
  | Reference "tenant_row list" "plan_row list" "template_row list"

definition put_store :: "sched_sys \<Rightarrow> sched_store res \<Rightarrow> sched_sys res" where
  "put_store y m = bind_res m (\<lambda>s. Inr (y\<lparr>sy_store := s\<rparr>))"

definition drop_job :: "nat \<Rightarrow> (ident \<times> job) list \<Rightarrow> (ident \<times> job) list" where
  "drop_job n js = take n js @ drop (Suc n) js"

text \<open>
  Drafts and decisions exist only when their validators passed. An approval leaves a preflight to
  do. Other services write tenants, plans and templates, whose workflows are validated.
\<close>

fun sched_step :: "sched_env \<Rightarrow> sched_op \<Rightarrow> sched_sys \<Rightarrow> sched_sys res" where
  "sched_step env (CreateDraft tenant d) y =
     (if schedule_draft_ok d then put_store y (bind_res (create_draft env tenant d (sy_store y)) (\<lambda>(r, s). Inr s)) else Inl ValidationError)"
| "sched_step env (ReviseSchedule tenant sid d) y =
     (if schedule_draft_ok d then put_store y (bind_res (revise env tenant sid d (sy_store y)) (\<lambda>(r, s). Inr s)) else Inl ValidationError)"
| "sched_step env (ApproveSchedule tenant sid d) y =
     (if schedule_decision_ok d then put_store y (bind_res (approve_schedule env tenant sid d (sy_store y)) (\<lambda>(r, s). Inr s))
      else Inl ValidationError)"
| "sched_step env (DisableSchedule tenant sid d) y =
     (if schedule_decision_ok d then put_store y (bind_res (disable_schedule tenant sid d (sy_store y)) (\<lambda>(r, s). Inr s))
      else Inl ValidationError)"
| "sched_step env (Materialize tenant sid now worker secs) y =
     put_store y (bind_res (materialize_due_occurrences env tenant sid now worker secs (sy_store y)) (\<lambda>(m, s). Inr s))"
| "sched_step env (Process tenant oid ctx) y = Inr (y\<lparr>sy_jobs := sy_jobs y @ [(tenant, ProcessJob oid ctx)]\<rparr>)"
| "sched_step env (ApproveOccurrence tenant oid d) y =
     (if occurrence_decision_ok d
      then bind_res (approve_transaction tenant oid d (sy_store y)) (\<lambda>(r, s).
        Inr (y\<lparr>sy_store := s, sy_jobs := sy_jobs y @ (if r = None then [(tenant, PreflightJob oid (od_context d) True)] else [])\<rparr>))
      else Inl ValidationError)"
| "sched_step env (CancelOccurrence tenant oid d) y =
     (if occurrence_decision_ok d then put_store y (bind_res (cancel_occurrence tenant oid d (sy_store y)) (\<lambda>(r, s). Inr s))
      else Inl ValidationError)"
| "sched_step env (Advance n) y =
     (if n < length (sy_jobs y)
      then let (tenant, j) = sy_jobs y ! n; (r, s) = job_step env tenant j (sy_store y) in
        Inr (y\<lparr>sy_store := s, sy_jobs := (case r of Next k \<Rightarrow> (sy_jobs y)[n := (tenant, k)] | _ \<Rightarrow> drop_job n (sy_jobs y))\<rparr>)
      else Inl ValueError)"
| "sched_step env (Crash n) y = Inr (y\<lparr>sy_jobs := drop_job n (sy_jobs y)\<rparr>)"
| "sched_step env ReadClock y = Inr (y\<lparr>sy_store := snd (utc_now (sy_store y))\<rparr>)"
| "sched_step env (Orchestrate a) y =
     put_store y (bind_res (on_orchestrator (\<lambda>t. bind_res (orch_step a t) (\<lambda>t'. Inr ((), t'))) (sy_store y)) (\<lambda>(x, s). Inr s))"
| "sched_step env (Reference ts ps ms) y =
     (if workflows_ok ms then Inr (y\<lparr>sy_store := (sy_store y)\<lparr>sc_tenants := ts, sc_plans := ps, templates := ms\<rparr>\<rparr>) else Inl ValidationError)"

definition sched_init :: "sched_sys \<Rightarrow> bool" where
  "sched_init y \<longleftrightarrow> orch_init (orch_part (sy_store y)) \<and> workflows_ok (templates (sy_store y)) \<and> schedules (sy_store y) = [] \<and>
     cursors (sy_store y) = [] \<and> occurrences (sy_store y) = [] \<and> engagement_scopes (sy_store y) = [] \<and> sy_jobs y = []"

definition sched_reach :: "sched_env \<Rightarrow> sched_sys \<Rightarrow> bool" where
  "sched_reach env y \<longleftrightarrow> reach sched_init (sched_step env) y"

section \<open>Jobs\<close>

definition launching_job :: "ident \<Rightarrow> ident \<Rightarrow> launch_start \<Rightarrow> sched_store \<Rightarrow> bool" where
  "launching_job tenant oid l s \<longleftrightarrow> has_occ tenant oid (launched_for l s) s \<and> workflow_definition_ok (ls_workflow l)"

fun job_ok :: "sched_store \<Rightarrow> ident \<Rightarrow> job \<Rightarrow> bool" where
  "job_ok s tenant (PreflightJob oid ctx granted) \<longleftrightarrow> has_occ tenant oid (ready granted s) s"
| "job_ok s tenant (LaunchJob oid) \<longleftrightarrow> has_occ tenant oid (cleared s) s"
| "job_ok s tenant (ReadJob oid l) \<longleftrightarrow> launching_job tenant oid l s"
| "job_ok s tenant (CompileJob oid l planned) \<longleftrightarrow> launching_job tenant oid l s"
| "job_ok s tenant (StartJob oid l) \<longleftrightarrow> launching_job tenant oid l s"
| "job_ok s tenant (FinishJob oid l) \<longleftrightarrow> launching_job tenant oid l s"
| "job_ok s tenant _ \<longleftrightarrow> True"

lemma owner_schedule_unique: "store_ok s \<Longrightarrow> owner_schedule s oc r \<Longrightarrow> owner_schedule s oc x \<Longrightarrow> x = r"
  by (auto simp: owner_schedule_def intro: schedule_rows_inj)

lemma ready_grows:
  assumes "store_ok s" "store_ok s'" "grows s s'" "oc \<in> set (occurrences s)" "occurrence_follows oc oc'" "ready granted s oc"
  shows "ready granted s' oc'"
  unfolding ready_def
proof (intro conjI allI impI)
  show "granted \<Longrightarrow> truthy (decision_by oc')" using assms(5,6) by (simp add: ready_def occurrence_follows_def)
  fix x assume x: "owner_schedule s' oc' x" "sc_launch_mode x = APPROVAL_REQUIRED"
  from store_okD(6)[OF assms(1,4)] obtain r where r: "owner_schedule s oc r" by (auto simp: occurrence_ok_def)
  have same: "same_occurrence oc oc'" using assms(5) by (simp add: occurrence_follows_def)
  from assms(3) r same obtain r' where r': "owner_schedule s' oc' r'" "same_schedule r r'" by (rule owner_schedule_grows)
  have "x = r'" by (rule owner_schedule_unique[OF assms(2) r'(1) x(1)])
  with x(2) r'(2) have "sc_launch_mode r = APPROVAL_REQUIRED" by (simp add: same_scheduleD(5))
  with r assms(6) show granted by (simp add: ready_def)
qed

lemma has_occ_advances:
  assumes "has_occ tenant oid (P s) s" "store_ok s" "advances s s'"
    "\<And>oc oc'. oc \<in> set (occurrences s) \<Longrightarrow> occurrence_follows oc oc' \<Longrightarrow> P s oc \<Longrightarrow> P s' oc'"
  shows "has_occ tenant oid (P s') s'"
proof -
  from assms(1) obtain oc where oc: "oc \<in> set (occurrences s)" "oc_tenant oc = tenant" "occurrence_id oc = oid" "P s oc"
    by (auto simp: has_occ_def)
  with assms(3) obtain oc' where "oc' \<in> set (occurrences s')" "occurrence_follows oc oc'" by (auto simp: advances_def grows_def)
  moreover from this oc have "P s' oc'" "oc_tenant oc' = tenant" "occurrence_id oc' = oid"
    using assms(4) by (auto simp: occurrence_follows_def same_occurrence_def)
  ultimately show ?thesis by (auto simp: has_occ_def)
qed

lemma cleared_advances: "store_ok s \<Longrightarrow> advances s s' \<Longrightarrow> occurrence_follows oc oc' \<Longrightarrow> cleared s oc \<Longrightarrow> cleared s' oc'"
  using cleared_grows store_okD(7) by (auto simp: advances_def)

lemma launching_job_advances:
  assumes "launching_job tenant oid l s" "store_ok s" "advances s s'"
  shows "launching_job tenant oid l s'"
  unfolding launching_job_def
proof (intro conjI has_occ_advances[OF _ assms(2,3)])
  show "has_occ tenant oid (launched_for l s) s" "workflow_definition_ok (ls_workflow l)" using assms(1) by (simp_all add: launching_job_def)
  show "launched_for l s' oc'" if "occurrence_follows oc oc'" "launched_for l s oc" for oc oc'
    using cleared_advances[OF assms(2,3) that(1)] that by (auto simp: launched_for_def occurrence_follows_def)
qed

lemma job_ok_advances:
  assumes "job_ok s tenant j" "store_ok s" "advances s s'"
  shows "job_ok s' tenant j"
proof (cases j)
  case (PreflightJob oid ctx granted)
  then have "has_occ tenant oid (ready granted s) s" using assms(1) by simp
  then have "has_occ tenant oid (ready granted s') s'"
    by (rule has_occ_advances[OF _ assms(2,3)]) (use ready_grows assms(2,3) in \<open>auto simp: advances_def\<close>)
  then show ?thesis by (simp add: PreflightJob)
next
  case (LaunchJob oid)
  then have "has_occ tenant oid (cleared s) s" using assms(1) by simp
  then have "has_occ tenant oid (cleared s') s'" by (rule has_occ_advances[OF _ assms(2,3)]) (rule cleared_advances[OF assms(2,3)])
  then show ?thesis by (simp add: LaunchJob)
qed (use assms(1) launching_job_advances[OF _ assms(2,3)] in auto)

lemma orch_extend [simp]:
  "orch_store.truncate (orch_store.extend t m) = t" "orch_store.more (orch_store.extend t m) = m"
  by (cases t; simp add: orch_store.truncate_def orch_store.extend_def)+

lemma on_orchestrator_Inr:
  assumes "on_orchestrator f s = Inr (x, s')"
  shows "f (orch_part s) = Inr (x, orch_part s')" "orch_store.more s' = orch_store.more s"
  using assms by (auto simp: on_orchestrator_def orch_part_def res_simps)

lemma orchestrated:
  assumes "store_ok s" "on_orchestrator f s = Inr (x, s')" "\<And>t. orch_inv (orch_part s) \<Longrightarrow> f (orch_part s) = Inr (x, t) \<Longrightarrow> ostep\<^sup>*\<^sup>* (orch_part s) t"
  shows "advances s s'" "same_tables s s'"
proof -
  have "quiet s s'" using on_orchestrator_Inr[OF assms(2)] assms(3) store_okD(7)[OF assms(1)] by (simp add: quiet_def orch_progress_def)
  then show "advances s s'" "same_tables s s'" using quiet_advances[OF assms(1)] quiet_tables by blast+
qed

lemma process_occurrence_ok:
  assumes "store_ok s" "process_occurrence tenant oid ctx s = Next k"
  shows "job_ok s tenant k"
proof -
  from assms(2) obtain oc where oc: "get_occurrence tenant oid s = Some oc" by (auto simp: process_occurrence_def split: option.splits)
  from assms(2) oc obtain r where r: "get_schedule tenant (oc_schedule oc) s = Some r" by (auto simp: process_occurrence_def split: option.splits)
  note mem = get_occurrence_Some[OF oc]
  have own: "owner_schedule s oc r" using r mem get_schedule_owner[OF store_okD(8)[OF assms(1)], of oc r] by simp
  have has: "P oc \<Longrightarrow> has_occ tenant oid P s" for P using mem by (auto simp: has_occ_def)
  show ?thesis
  proof (cases "oc_status oc = O_LAUNCHING")
    case True
    then have "cleared s oc" using store_okD(6)[OF assms(1) conjunct1[OF mem]] by (auto simp: occurrence_ok_def)
    then have "has_occ tenant oid (cleared s) s" by (rule has)
    moreover have "k = LaunchJob oid" using True assms(2) oc r by (simp add: process_occurrence_def)
    ultimately show ?thesis by simp
  next
    case False
    have rdy: "ready granted s oc"
      if "granted \<Longrightarrow> truthy (decision_by oc)" "sc_launch_mode r = APPROVAL_REQUIRED \<Longrightarrow> granted" for granted
      unfolding ready_def using that owner_schedule_unique[OF assms(1) own] by blast
    consider "k = PreflightJob oid ctx (truthy (decision_by oc))" "sc_launch_mode r = APPROVAL_REQUIRED \<longrightarrow> truthy (decision_by oc)"
      | "k = WaitJob oid"
      using assms(2) oc r False by (auto simp: process_occurrence_def split: if_splits)
    then show ?thesis
    proof cases
      case 1
      then have "ready (truthy (decision_by oc)) s oc" by (intro rdy) auto
      then have "has_occ tenant oid (ready (truthy (decision_by oc)) s) s" by (rule has)
      with 1(1) show ?thesis by simp
    qed simp
  qed
qed

section \<open>A job keeps the invariant\<close>

lemma put_recorded_tables:
  "record_occurrence oc etype data (put_occurrence oc s) = Inr s' \<Longrightarrow> scheduler_event etype \<Longrightarrow> same_tables s s'"
  by (rule same_tables_trans[OF same_tables_put record_occurrence_tables])

lemma mark_waiting_tables: "mark_waiting_approval tenant oid s = Inr (w, s') \<Longrightarrow> same_tables s s'"
  by (cases "get_occurrence tenant oid s")
    (auto simp: mark_waiting_approval_def Let_def res_simps intro: put_recorded_tables split: if_splits)

lemma finish_launch_tables: "finish_launch tenant oid eid now s = Inr s' \<Longrightarrow> same_tables s s'"
  by (cases "get_occurrence tenant oid s") (auto simp: finish_launch_def Let_def intro: put_recorded_tables split: if_splits)

lemma fail_launch_tables:
  assumes "fail_launch env tenant oid e s = Inr s'"
  shows "same_tables s s'"
proof (cases "get_occurrence tenant oid s")
  case None
  with assms have "s' = snd (utc_now s)" by (simp add: fail_launch_def split_beta)
  then show ?thesis by simp
next
  case (Some oc)
  with assms obtain oc' data where "record_occurrence oc' ''scheduler.launch.failed'' data (put_occurrence oc' (snd (utc_now s))) = Inr s'"
    by (auto simp: fail_launch_def split_beta Let_def res_simps)
  then have "same_tables (snd (utc_now s)) s'" by (rule put_recorded_tables) simp
  with same_tables_now show ?thesis by (rule same_tables_trans)
qed

lemma preflight_tables:
  assumes "preflight_transaction env tenant oid ctx granted s = Inr (out, s')"
  shows "same_tables s s'"
  using assms
proof (cases rule: preflight_cases)
  case (unavailable oc reason data)
  then show ?thesis using record_occurrence_tables[OF unavailable(3)] by (simp add: same_tables_def put_occurrence_def utc_now_def)
next
  case (refused oc oc1 reason data)
  then show ?thesis using record_occurrence_tables[OF refused(5)] by (simp add: same_tables_def put_occurrence_def utc_now_def)
next
  case (passed oc oc1 r rep s2)
  then show ?thesis using record_occurrence_tables[OF passed(8)] by (auto simp: same_tables_def put_occurrence_def utc_now_def split: if_splits)
qed

lemma begin_launch_tables:
  assumes "begin_launch env tenant oid s = Inr (out, s')"
  shows "same_tables s s'"
  using assms
proof (cases rule: begin_launch_cases)
  case (started oc r t l s2 s3 secs)
  have "same_tables s s2"
    using started(6) add_engagement_for_effect(2)[of env r t oc "ls_engagement l" "snd (utc_now s)" s2]
      same_tables_trans[OF same_tables_now, of s s2] by auto
  moreover have "same_tables s2 s3" using started(7) by (auto simp: assign_engagement_def split: if_splits)
  moreover from started(8) have "same_tables s3 s'" by (auto intro: record_occurrence_tables)
  ultimately show ?thesis by (blast intro: same_tables_trans)
qed simp

lemma job_step_advances:
  assumes "store_ok s" "job_ok s tenant j" "job_step env tenant j s = (r, s')"
  shows "advances s s' \<and> same_tables s s' \<and> (\<forall>k. r = Next k \<longrightarrow> job_ok s' tenant k)"
proof (cases j)
  case (ProcessJob oid ctx)
  with assms process_occurrence_ok[OF assms(1)] show ?thesis by (auto simp: advances_refl)
next
  case (WaitJob oid)
  with assms(3) show ?thesis
    using mark_waiting_advances[OF assms(1), of tenant oid] mark_waiting_tables[of tenant oid s] advances_refl[OF assms(1)]
    by (cases "mark_waiting_approval tenant oid s") (auto simp: job_result_of_def split: if_splits)
next
  case (PreflightJob oid ctx granted)
  show ?thesis
  proof (cases "preflight_transaction env tenant oid ctx granted s")
    case (Inr q)
    obtain out t where q: "q = (out, t)" by (cases q)
    from Inr assms(2,3) PreflightJob preflight_advances[OF assms(1) Inr[unfolded q]] preflight_tables[OF Inr[unfolded q]]
    show ?thesis by (cases out) (auto simp: job_result_of_def q)
  qed (use assms PreflightJob in \<open>auto simp: job_result_of_def advances_refl\<close>)
next
  case (LaunchJob oid)
  show ?thesis
  proof (cases "begin_launch env tenant oid s")
    case (Inr q)
    obtain out t where q: "q = (out, t)" by (cases q)
    from assms(2) LaunchJob have "has_occ tenant oid (cleared s) s" by simp
    note b = begin_launch_advances[OF assms(1) Inr[unfolded q] this] begin_launch_tables[OF Inr[unfolded q]]
    from Inr assms(3) LaunchJob b show ?thesis
      by (cases out) (auto simp: job_result_of_def q launching_job_def)
  qed (use assms LaunchJob in \<open>auto simp: job_result_of_def advances_refl\<close>)
next
  case (ReadJob oid l)
  with assms show ?thesis by (auto simp: read_launch_def Let_def advances_refl split: if_splits)
next
  case (CompileJob oid l planned)
  let ?f = "compile_workflow tenant (ls_engagement l) (ls_workflow l) (fst (utc_now s))"
  have w: "launching_job tenant oid l s" using assms(2) CompileJob by simp
  have a1: "advances s (snd (utc_now s))" by (rule quiet_advances[OF assms(1) quiet_now])
  show ?thesis
  proof (cases "on_orchestrator ?f (snd (utc_now s))")
    case (Inr q)
    obtain x t where q: "q = (x, t)" by (cases q)
    have "advances (snd (utc_now s)) t" "same_tables (snd (utc_now s)) t"
      by (rule orchestrated[OF advances_ok[OF a1] Inr[unfolded q]], use w workflow_compiled in \<open>auto simp: launching_job_def\<close>)+
    then have "advances s t" "same_tables s t" using a1 same_tables_now[of s] by (blast intro: advances_trans same_tables_trans)+
    with Inr assms(3) CompileJob launching_job_advances[OF w assms(1)] show ?thesis
      by (auto simp: job_result_of_def split_beta q Let_def)
  qed (use assms CompileJob in \<open>auto simp: job_result_of_def advances_refl split_beta Let_def\<close>)
next
  case (StartJob oid l)
  let ?f = "start_engagement tenant (ls_engagement l) (fst (utc_now s))"
  have w: "launching_job tenant oid l s" using assms(2) StartJob by simp
  have a1: "advances s (snd (utc_now s))" by (rule quiet_advances[OF assms(1) quiet_now])
  show ?thesis
  proof (cases "on_orchestrator ?f (snd (utc_now s))")
    case (Inr q)
    obtain x t where q: "q = (x, t)" by (cases q)
    have "advances (snd (utc_now s)) t" "same_tables (snd (utc_now s)) t"
      by (rule orchestrated[OF advances_ok[OF a1] Inr[unfolded q]], use start_engagement_prog in \<open>auto simp: prog_def\<close>)+
    then have "advances s t" "same_tables s t" using a1 same_tables_now[of s] by (blast intro: advances_trans same_tables_trans)+
    with Inr assms(3) StartJob launching_job_advances[OF w assms(1)] show ?thesis
      by (auto simp: job_result_of_def split_beta q Let_def)
  qed (use assms StartJob in \<open>auto simp: job_result_of_def advances_refl split_beta Let_def\<close>)
next
  case (FinishJob oid l)
  show ?thesis
  proof (cases "finish_launch tenant oid (ls_engagement l) (ls_now l) s")
    case (Inr t)
    have "has_occ tenant oid (\<lambda>oc. oc_engagement oc \<noteq> None) s"
      using assms(2) FinishJob by (auto simp: launching_job_def has_occ_def launched_for_def)
    from finish_launch_advances[OF assms(1) Inr this] finish_launch_tables[OF Inr] Inr assms(3) FinishJob
    show ?thesis by (auto simp: job_result_of_def)
  qed (use assms FinishJob in \<open>auto simp: job_result_of_def advances_refl\<close>)
next
  case (FailJob oid e)
  with assms(3) show ?thesis
    using fail_launch_advances[OF assms(1), of env tenant oid e] fail_launch_tables[of env tenant oid e s] advances_refl[OF assms(1)]
    by (cases "fail_launch env tenant oid e s") (auto simp: job_result_of_def)
qed

section \<open>Every step keeps the invariant\<close>

definition sys_ok :: "sched_sys \<Rightarrow> bool" where
  "sys_ok y \<longleftrightarrow> store_ok (sy_store y) \<and> (\<forall>(tenant, j) \<in> set (sy_jobs y). job_ok (sy_store y) tenant j)"

lemma sys_okI:
  assumes "sys_ok y" "advances (sy_store y) s'" "\<And>tenant j. (tenant, j) \<in> set js \<Longrightarrow> (tenant, j) \<in> set (sy_jobs y) \<or> job_ok s' tenant j"
  shows "sys_ok (y\<lparr>sy_store := s', sy_jobs := js\<rparr>)"
  using assms advances_ok[OF assms(2)] job_ok_advances[of "sy_store y" _ _ s'] by (fastforce simp: sys_ok_def)

lemma drop_job_subset: "set (drop_job n js) \<subseteq> set js"
  using set_take_subset[of n js] set_drop_subset[of "Suc n" js] by (auto simp: drop_job_def)

lemma advance_ok:
  assumes "sys_ok y" "n < length (sy_jobs y)" "sy_jobs y ! n = (tenant, j)" "job_step env tenant j (sy_store y) = (r, s')"
  shows "sys_ok (y\<lparr>sy_store := s', sy_jobs := (case r of Next k \<Rightarrow> (sy_jobs y)[n := (tenant, k)] | _ \<Rightarrow> drop_job n (sy_jobs y))\<rparr>)"
    "advances (sy_store y) s'" "same_tables (sy_store y) s'"
proof -
  have "job_ok (sy_store y) tenant j" using assms(1-3) nth_mem[OF assms(2)] by (auto simp: sys_ok_def)
  from job_step_advances[OF _ this assms(4)] assms(1)
  have a: "advances (sy_store y) s' \<and> same_tables (sy_store y) s' \<and> (\<forall>k. r = Next k \<longrightarrow> job_ok s' tenant k)" by (simp add: sys_ok_def)
  then show "advances (sy_store y) s'" "same_tables (sy_store y) s'" by blast+
  show "sys_ok (y\<lparr>sy_store := s', sy_jobs := (case r of Next k \<Rightarrow> (sy_jobs y)[n := (tenant, k)] | _ \<Rightarrow> drop_job n (sy_jobs y))\<rparr>)"
  proof (rule sys_okI[OF assms(1)])
    fix t i assume i: "(t, i) \<in> set (case r of Next k \<Rightarrow> (sy_jobs y)[n := (tenant, k)] | _ \<Rightarrow> drop_job n (sy_jobs y))"
    show "(t, i) \<in> set (sy_jobs y) \<or> job_ok s' t i"
    proof (cases "\<exists>k. r = Next k")
      case True
      then obtain k where k: "r = Next k" ..
      with i have "(t, i) \<in> set (sy_jobs y) \<or> (t, i) = (tenant, k)" using set_update_subset_insert[of "sy_jobs y" n "(tenant, k)"] by auto
      with a k show ?thesis by auto
    next
      case False
      with i have "(t, i) \<in> set (drop_job n (sy_jobs y))" by (cases r) auto
      then show ?thesis using drop_job_subset by fastforce
    qed
  qed (use a in blast)
qed

lemma reference_advances:
  assumes "store_ok s" "workflows_ok ms"
  shows "advances s (s\<lparr>sc_tenants := ts, sc_plans := ps, templates := ms\<rparr>)"
  using assms(1)
proof (rule advancesI)
  show "grows s (s\<lparr>sc_tenants := ts, sc_plans := ps, templates := ms\<rparr>)"
    by (auto simp: grows_def orch_progress_def orch_part_def orch_store.truncate_def intro: schedule_follows_refl occurrence_follows_refl)
qed (use store_okD[OF assms(1)] assms(2) in auto)

lemma store_step_ok:
  assumes "sys_ok y" "put_store y (bind_res m (\<lambda>(r, s). Inr s)) = Inr y'" "\<And>r s'. m = Inr (r, s') \<Longrightarrow> advances (sy_store y) s'"
  obtains r s' where "m = Inr (r, s')" "y' = y\<lparr>sy_store := s'\<rparr>" "advances (sy_store y) s'" "sys_ok y'"
proof -
  from assms(2) obtain r s' where m: "m = Inr (r, s')" "y' = y\<lparr>sy_store := s'\<rparr>" by (auto simp: put_store_def res_simps)
  have "sys_ok (y\<lparr>sy_store := s', sy_jobs := sy_jobs y\<rparr>)" by (rule sys_okI[OF assms(1) assms(3)[OF m(1)]]) simp
  with m assms(3)[OF m(1)] show thesis by (intro that) simp_all
qed

lemma decision_actor: "occurrence_decision_ok d \<Longrightarrow> od_actor_id d \<noteq> []"
  by (auto simp: occurrence_decision_ok_def len_within_def)

definition moves_marks :: "sched_op \<Rightarrow> bool" where
  "moves_marks a \<longleftrightarrow> (case a of Materialize _ _ _ _ _ \<Rightarrow> True | _ \<Rightarrow> False)"

lemma sched_step_ok:
  assumes "sys_ok y" "sched_step env a y = Inr y'"
  shows "sys_ok y' \<and> advances (sy_store y) (sy_store y') \<and> (\<not> moves_marks a \<longrightarrow> same_marks (sy_store y) (sy_store y'))"
proof -
  have ok: "store_ok (sy_store y)" using assms(1) by (simp add: sys_ok_def)
  show ?thesis
  proof (cases a)
    case (CreateDraft tenant d)
    with assms(2) have "put_store y (bind_res (create_draft env tenant d (sy_store y)) (\<lambda>(r, s). Inr s)) = Inr y'" by (simp split: if_splits)
    with assms(1) obtain r s' where "create_draft env tenant d (sy_store y) = Inr (r, s')" "y' = y\<lparr>sy_store := s'\<rparr>"
      "advances (sy_store y) s'" "sys_ok y'" by (rule store_step_ok) (rule create_draft_advances(1)[OF ok])
    then show ?thesis using create_draft_advances(3)[OF ok] by (simp add: same_marks_cursors)
  next
    case (ReviseSchedule tenant sid d)
    with assms(2) have "put_store y (bind_res (revise env tenant sid d (sy_store y)) (\<lambda>(r, s). Inr s)) = Inr y'" by (simp split: if_splits)
    with assms(1) obtain r s' where "revise env tenant sid d (sy_store y) = Inr (r, s')" "y' = y\<lparr>sy_store := s'\<rparr>"
      "advances (sy_store y) s'" "sys_ok y'" by (rule store_step_ok) (rule revise_advances(1)[OF ok])
    then show ?thesis using revise_advances(2)[OF ok] by (simp add: same_marks_cursors)
  next
    case (ApproveSchedule tenant sid d)
    with assms(2) have "put_store y (bind_res (approve_schedule env tenant sid d (sy_store y)) (\<lambda>(r, s). Inr s)) = Inr y'" by (simp split: if_splits)
    with assms(1) obtain r s' where "approve_schedule env tenant sid d (sy_store y) = Inr (r, s')" "y' = y\<lparr>sy_store := s'\<rparr>"
      "advances (sy_store y) s'" "sys_ok y'" by (rule store_step_ok) (rule approve_schedule_advances(1)[OF ok])
    then show ?thesis using approve_schedule_advances(2)[OF ok] by simp
  next
    case (DisableSchedule tenant sid d)
    with assms(2) have "put_store y (bind_res (disable_schedule tenant sid d (sy_store y)) (\<lambda>(r, s). Inr s)) = Inr y'" by (simp split: if_splits)
    with assms(1) obtain r s' where "disable_schedule tenant sid d (sy_store y) = Inr (r, s')" "y' = y\<lparr>sy_store := s'\<rparr>"
      "advances (sy_store y) s'" "sys_ok y'" by (rule store_step_ok) (rule disable_schedule_advances(1)[OF ok])
    then show ?thesis using disable_schedule_advances(2)[OF ok] by simp
  next
    case (Materialize tenant sid now worker secs)
    with assms(2) have "put_store y (bind_res (materialize_due_occurrences env tenant sid now worker secs (sy_store y)) (\<lambda>(r, s). Inr s)) = Inr y'" by simp
    with assms(1) show ?thesis
      by (rule store_step_ok) (use materialize_advances[OF ok] Materialize in \<open>auto simp: moves_marks_def\<close>)
  next
    case (Process tenant oid ctx)
    have "sys_ok (y\<lparr>sy_store := sy_store y, sy_jobs := sy_jobs y @ [(tenant, ProcessJob oid ctx)]\<rparr>)"
      by (rule sys_okI[OF assms(1) advances_refl[OF ok]]) auto
    with Process assms(2) show ?thesis by (auto simp: advances_refl[OF ok] same_marks_cursors)
  next
    case (ApproveOccurrence tenant oid d)
    with assms(2) obtain r s' where m: "occurrence_decision_ok d" "approve_transaction tenant oid d (sy_store y) = Inr (r, s')"
      "y' = y\<lparr>sy_store := s', sy_jobs := sy_jobs y @ (if r = None then [(tenant, PreflightJob oid (od_context d) True)] else [])\<rparr>"
      by (auto simp: res_simps split: if_splits)
    note ap = approve_transaction_advances[OF ok m(2) decision_actor[OF m(1)]]
    have "sys_ok y'"
      unfolding m(3) by (rule sys_okI[OF assms(1) ap(1)]) (use ap(2) in \<open>auto simp: has_occ_def ready_def split: if_splits\<close>)
    moreover have "cursors s' = cursors (sy_store y)"
      using m(2) by (auto simp: approve_transaction_def Let_def res_simps same_tables_def split: option.splits if_splits
          dest!: put_recorded_tables)
    ultimately show ?thesis using ap(1) by (simp add: m(3) same_marks_cursors)
  next
    case (CancelOccurrence tenant oid d)
    with assms(2) have d: "occurrence_decision_ok d"
      and p: "put_store y (bind_res (cancel_occurrence tenant oid d (sy_store y)) (\<lambda>(r, s). Inr s)) = Inr y'" by (simp_all split: if_splits)
    from assms(1) p obtain r s' where c: "cancel_occurrence tenant oid d (sy_store y) = Inr (r, s')" "y' = y\<lparr>sy_store := s'\<rparr>"
      "advances (sy_store y) s'" "sys_ok y'" by (rule store_step_ok) (rule cancel_advances[OF ok _ decision_actor[OF d]])
    have "cursors s' = cursors (sy_store y)"
      using c(1) by (auto simp: cancel_occurrence_def Let_def res_simps same_tables_def split: option.splits if_splits dest!: put_recorded_tables)
    with c show ?thesis by (simp add: same_marks_cursors)
  next
    case (Advance n)
    obtain tenant j where nth: "sy_jobs y ! n = (tenant, j)" by fastforce
    obtain r s' where js: "job_step env tenant j (sy_store y) = (r, s')" by fastforce
    from Advance assms(2) nth js have n: "n < length (sy_jobs y)"
      "y' = y\<lparr>sy_store := s', sy_jobs := (case r of Next k \<Rightarrow> (sy_jobs y)[n := (tenant, k)] | _ \<Rightarrow> drop_job n (sy_jobs y))\<rparr>"
      by (auto split: if_splits)
    note ad = advance_ok[OF assms(1) n(1) nth js]
    show ?thesis using ad by (simp add: n(2) same_marks_cursors same_tables_def)
  next
    case (Crash n)
    have "sys_ok (y\<lparr>sy_store := sy_store y, sy_jobs := drop_job n (sy_jobs y)\<rparr>)"
      by (rule sys_okI[OF assms(1) advances_refl[OF ok]]) (use drop_job_subset in fastforce)
    with Crash assms(2) show ?thesis by (auto simp: advances_refl[OF ok] same_marks_cursors)
  next
    case ReadClock
    have a: "advances (sy_store y) (snd (utc_now (sy_store y)))" by (rule quiet_advances[OF ok quiet_now])
    have "sys_ok (y\<lparr>sy_store := snd (utc_now (sy_store y)), sy_jobs := sy_jobs y\<rparr>)" by (rule sys_okI[OF assms(1) a]) simp
    with ReadClock assms(2) a show ?thesis by (auto simp: same_marks_cursors utc_now_def)
  next
    case (Orchestrate b)
    let ?f = "\<lambda>t. bind_res (orch_step b t) (\<lambda>t'. Inr ((), t'))"
    from Orchestrate assms(2) have p: "put_store y (bind_res (on_orchestrator ?f (sy_store y)) (\<lambda>(r, s). Inr s)) = Inr y'" by simp
    have orch: "advances (sy_store y) s' \<and> same_tables (sy_store y) s'" if "on_orchestrator ?f (sy_store y) = Inr (x, s')" for x s'
      using orchestrated[OF ok that] orch_step_refines by (auto simp: res_simps)
    from assms(1) p obtain x s' where "on_orchestrator ?f (sy_store y) = Inr (x, s')" "y' = y\<lparr>sy_store := s'\<rparr>"
      "advances (sy_store y) s'" "sys_ok y'" by (rule store_step_ok) (use orch in blast)
    with orch show ?thesis by (auto simp: same_marks_cursors same_tables_def)
  next
    case (Reference ts ps ms)
    with assms(2) have w: "workflows_ok ms" "y' = y\<lparr>sy_store := (sy_store y)\<lparr>sc_tenants := ts, sc_plans := ps, templates := ms\<rparr>\<rparr>"
      by (auto split: if_splits)
    note a = reference_advances[OF ok w(1), where ts = ts and ps = ps]
    have "sys_ok (y\<lparr>sy_store := (sy_store y)\<lparr>sc_tenants := ts, sc_plans := ps, templates := ms\<rparr>, sy_jobs := sy_jobs y\<rparr>)"
      by (rule sys_okI[OF assms(1) a]) simp
    with a show ?thesis by (simp add: w(2) same_marks_cursors)
  qed
qed

lemma sys_ok_init: "sched_init y \<Longrightarrow> sys_ok y"
  by (simp add: sched_init_def sys_ok_def store_ok_def orch_inv_init schedules_ok_def occurrences_ok_def)

interpretation scheduler: guarded_machine sched_init "sched_step env" sys_ok for env
  by unfold_locales (auto intro: sys_ok_init dest: sched_step_ok)

lemma reach_sys_ok: "sched_reach env y \<Longrightarrow> sys_ok y"
  unfolding sched_reach_def by (rule scheduler.reachable_inv)

end
