(* ===== verification/Sched_Demo.thy ===== *)
theory Sched_Demo
  imports Sched_Machine Scenario
begin

text \<open>
  A small schedule that the witnesses of the properties run: one due point, start approval
  required, a workflow of one task; UTC, with \<open>dateutil\<close> and the digest replaced by concrete functions.
\<close>

definition demo_point :: local_time where
  "demo_point = \<lparr>lt_day = 739250, lt_clock = (32400, 0)\<rparr>"

definition utc_of :: "time \<Rightarrow> local_time" where
  "utc_of t = \<lparr>lt_day = \<lfloor>t / 86400\<rfloor>, lt_clock = (t - of_int \<lfloor>t / 86400\<rfloor> * 86400, 0)\<rparr>"

definition of_utc :: "local_time \<Rightarrow> time" where
  "of_utc v = of_int (lt_day v) * 86400 + fst (lt_clock v)"

definition demo_env :: sched_env where
  "demo_env = \<lparr>rrule_between = (\<lambda>rule from a b. Inr (filter (\<lambda>v. wall a \<le> wall v \<and> wall v \<le> wall b) [demo_point])),
     rrule_after = (\<lambda>rule from a. Inr (find (\<lambda>v. wall a < wall v) [demo_point])), zone_known = (\<lambda>tz. tz = ''UTC''),
     local_of = (\<lambda>tz. utc_of), instant_of = (\<lambda>tz. of_utc), months_before = (\<lambda>d k. Inr (d - 30 * k)), hexdigest = (\<lambda>x. x),
     day_text = int_str, utc_stamp = (\<lambda>t. ''20241230T0900''), float_of = (\<lambda>x. Inl ValueError), exn_text = (\<lambda>e. ''refused'')\<rparr>"

definition demo_dues :: "string \<Rightarrow> local_time \<Rightarrow> local_time set" where
  "demo_dues rule from = {demo_point}"

lemma demo_rrule_lists: "rrule_between demo_env rule from a b = Inr vs \<Longrightarrow> v \<in> demo_dues rule from \<Longrightarrow> wall a < wall v \<Longrightarrow> wall v \<le> wall b \<Longrightarrow> v \<in> set vs"
  by (auto simp: demo_env_def demo_dues_def)

text \<open>UTC neither repeats nor skips a wall time, so it orders instants as their wall times.\<close>

lemma utc_order:
  assumes "0 \<le> fst (lt_clock v)" "fst (lt_clock v) < 86400"
  shows "wall (utc_of t) < wall v \<longleftrightarrow> t < of_utc v"
proof -
  define k where "k = \<lfloor>t / 86400\<rfloor>"
  have k: "of_int k * 86400 \<le> t" "t < of_int k * 86400 + 86400"
    using of_int_floor_le[of "t / 86400"] floor_correct[of "t / 86400"] unfolding k_def by linarith+
  have w: "wall (utc_of t) = (k, t - of_int k * 86400)" by (simp add: wall_def utc_of_def k_def)
  have v: "wall v = (lt_day v, fst (lt_clock v))" by (simp add: wall_def)
  consider "k \<le> lt_day v - 1" | "k = lt_day v" | "lt_day v + 1 \<le> k" by linarith
  then show ?thesis
  proof cases
    case 1
    then have "(of_int k :: rat) \<le> of_int (lt_day v) - 1" by linarith
    with k assms have "t < of_utc v" unfolding of_utc_def by linarith
    with 1 show ?thesis unfolding w v by simp
  next
    case 2
    then show ?thesis unfolding w v of_utc_def by (simp add: algebra_simps)
  next
    case 3
    then have "(of_int (lt_day v) + 1 :: rat) \<le> of_int k" by linarith
    with k assms have "\<not> t < of_utc v" unfolding of_utc_def by linarith
    with 3 show ?thesis unfolding w v by simp
  qed
qed

definition demo_draft :: schedule_draft where
  "demo_draft = \<lparr>dr_name = ''Access review'', dr_plan = ''pln_1'', dr_template = ''tpl_1'', dr_rule = ''FREQ=YEARLY'', dr_timezone = ''UTC'',
     dr_from = 739200 * 86400, dr_until = None,
     dr_period = \<lparr>pr_kind = ROLLING_DAYS, pr_months = 1, pr_days = 30, end_offset_days = 1\<rparr>,
     dr_calendar = \<lparr>weekend_days = [5, 6], holidays = []\<rparr>, dr_blackout = [], dr_preflight = [], dr_launch_mode = APPROVAL_REQUIRED,
     dr_missed = LAUNCH_ALL, dr_catch_up = 3, dr_overlap = PREVENT_OVERLAP, dr_max_concurrent = 1\<rparr>"

definition demo_template :: template_row where
  "demo_template = \<lparr>template_id = ''tpl_1'', tp_tenant = ''acme'', tp_name = ''Access'', tp_version = 1, tp_status = ''released'',
     tp_audit_pack_ref = ''pack'', tp_objectives = [], tp_scope = [], tp_preflight_policy = [], tp_workflow = Some (Inr (demo_one None)),
     tp_workflow_version = PStr ''1''\<rparr>"

definition demo_audit_plan :: plan_row where
  "demo_audit_plan = \<lparr>plan_id = ''pln_1'', ap_tenant = ''acme'', ap_name = ''FY'', ap_version = 1, ap_status = ''approved'',
     ap_horizon_start = 739200, ap_horizon_end = 739500, ap_coverage_policy = demo_capacity, ap_approved_at = 0, ap_approved_by = ''maria''\<rparr>"

definition sched_demo_init :: sched_sys where
  "sched_demo_init = \<lparr>sy_store = orch_store.extend (demo_init\<lparr>wall_clock := (\<lambda>_. 739251 * 86400)\<rparr>)
     \<lparr>sc_tenants = [\<lparr>tn_tenant = ''acme'', tn_status = ''active''\<rparr>], sc_plans = [demo_audit_plan], templates = [demo_template], schedules = [],
      cursors = [], occurrences = [], engagement_scopes = []\<rparr>, sy_jobs = []\<rparr>"

definition demo_decided :: occurrence_decision where
  "demo_decided = \<lparr>od_actor_id = ''maria'', od_reason = ''agreed'',
     od_context = \<lparr>connector_health = [], available_budget_usd = None, available_competencies = [], independence_conflicts = []\<rparr>\<rparr>"

definition demo_due :: "sched_op list" where
  "demo_due = [CreateDraft ''acme'' demo_draft, ApproveSchedule ''acme'' ''sch_0'' \<lparr>sd_actor_id = ''maria'', sd_reason = ''agreed''\<rparr>,
     Materialize ''acme'' ''sch_0'' (739251 * 86400) ''w1'' 60]"

abbreviation demo_occ :: ident where
  "demo_occ \<equiv> ''occ_sch_0|1970''"

definition demo_approving :: "sched_op list" where
  "demo_approving = demo_due @ [Process ''acme'' demo_occ (od_context demo_decided), Advance 0, Advance 0,
     ApproveOccurrence ''acme'' demo_occ demo_decided, Advance 0]"

definition demo_launching :: "sched_op list" where
  "demo_launching = demo_approving @ [Advance 0]"

abbreviation sched_demo :: "sched_op list \<Rightarrow> sched_sys" where
  "sched_demo ops \<equiv> run_ops (sched_step demo_env) ops sched_demo_init"

lemma demo_workflows: "workflows_ok [demo_template]"
  by code_simp

lemma sched_demo_reach: "sched_reach demo_env (sched_demo ops)"
  unfolding sched_reach_def
proof (intro reach_run_ops reach_init)
  show "sched_init sched_demo_init"
    by (simp add: sched_init_def sched_demo_init_def demo_init_def orch_init_def orch_store.extend_def demo_workflows)
qed

definition occ_summary :: "sched_sys \<Rightarrow> (ident \<times> ident \<times> time \<times> occurrence_status \<times> ident option) list" where
  "occ_summary y = map (\<lambda>oc. (occurrence_id oc, oc_schedule oc, nominal_due oc, oc_status oc, oc_engagement oc)) (occurrences (sy_store y))"

definition demo_cancelled :: "sched_op list" where
  "demo_cancelled = demo_approving @ [CancelOccurrence ''acme'' demo_occ demo_decided]"

definition fails_when_cancelled :: "sched_sys \<Rightarrow> bool" where
  "fails_when_cancelled y \<longleftrightarrow>
     (case get_occurrence ''acme'' demo_occ (sy_store y) of None \<Rightarrow> False
      | Some oc \<Rightarrow> oc_status oc = O_CANCELLED \<and> truthy (decision_by oc) \<and>
          (case fst (run_job demo_env ''acme'' (LaunchJob demo_occ) (sy_store y)) of Ended_failed \<Rightarrow> True | _ \<Rightarrow> False))"

lemma fails_when_cancelledE:
  assumes "fails_when_cancelled y"
  obtains oc s' where "get_occurrence ''acme'' demo_occ (sy_store y) = Some oc" "oc_status oc = O_CANCELLED" "truthy (decision_by oc)"
    "run_job demo_env ''acme'' (LaunchJob demo_occ) (sy_store y) = (Ended_failed, s')"
proof (cases "run_job demo_env ''acme'' (LaunchJob demo_occ) (sy_store y)")
  case (Pair r s')
  with assms that show thesis by (cases r) (auto simp: fails_when_cancelled_def split: option.splits)
qed

lemma demo_due_state:
  "occ_summary (sched_demo demo_due) = [(demo_occ, ''sch_0'', 739250 * 86400 + 32400, O_DUE, None)]"
  "map (\<lambda>r. (schedule_id r, sc_status r, effective_from r, effective_until r)) (schedules (sy_store (sched_demo demo_due))) =
     [(''sch_0'', ''active'', 739200 * 86400, None)]"
  "map (\<lambda>c. (cu_schedule c, last_evaluated_at c)) (cursors (sy_store (sched_demo demo_due))) = [(''sch_0'', Some (739251 * 86400))]"
  by code_simp+

lemma demo_launching_state:
  "occ_summary (sched_demo demo_launching) =
     [(demo_occ, ''sch_0'', 739250 * 86400 + 32400, O_LAUNCHING, Some ''eng_occ_sch_0|1970'')]"
  by code_simp

lemma demo_steps:
  "is_ok (sched_step demo_env (Advance 0) (sched_demo demo_approving))"
  "is_ok (sched_step demo_env (DisableSchedule ''acme'' ''sch_0'' \<lparr>sd_actor_id = ''maria'', sd_reason = ''closed''\<rparr>) (sched_demo demo_due))"
  by code_simp+

lemma demo_cancelled_state: "fails_when_cancelled (sched_demo demo_cancelled)"
  by code_simp

end
