(* ===== verification/Sched_Func.thy ===== *)
theory Sched_Func
  imports Sched_Demo
begin

text \<open>
  What single operations of the scheduler compute: the catch-up selection, the preflight, the
  simulation, an evaluation with a long backlog, a launch of a cancelled occurrence, and that the
  service's methods are runs of the machine.
\<close>

section \<open>Catch-up\<close>

text \<open>
  Selecting missed occurrences: whatever the policy, the skipped due points followed by the
  selected ones are exactly the due points, and the number of those selected is none for
  skipping, one for the latest, and the catch-up limit (the most recent ones) otherwise.
\<close>

lemma select_missed_splits:
  "snd (select_missed r due) @ fst (select_missed r due) = due
   \<and> length (fst (select_missed r due)) = (case sc_missed r of SKIP_MISSED \<Rightarrow> 0 | LAUNCH_LATEST \<Rightarrow> min 1 (length due)
       | LAUNCH_ALL \<Rightarrow> if catch_up_limit r = 0 then length due else min (catch_up_limit r) (length due))"
proof (cases "sc_missed r")
  case LAUNCH_LATEST
  then show ?thesis by (cases due rule: rev_cases) (auto simp: select_missed_def)
qed (auto simp: select_missed_def min_def)

section \<open>Preflight\<close>

definition preflight_clear :: "sched_env \<Rightarrow> schedule_row \<Rightarrow> template_row \<Rightarrow> occurrence_row \<Rightarrow> preflight_context \<Rightarrow> sched_store \<Rightarrow> bool" where
  "preflight_clear env r t oc ctx s \<longleftrightarrow>
     (let p = dict_merge (tp_preflight_policy t) (sc_preflight_policy r);
          wanted = (\<lambda>k. case policy_strings p k of Inl _ \<Rightarrow> {} | Inr xs \<Rightarrow> set xs) in
      (\<exists>x. row tn_tenant (sc_tenant r) (sc_tenants s) = Some x \<and> tn_status x = ''active'') \<and>
      (\<exists>x. row plan_id (sc_plan r) (sc_plans s) = Some x \<and> ap_status x = ''approved'') \<and>
      sc_status r = ''active'' \<and> tp_status t \<in> {''released'', ''approved''} \<and> tp_workflow t \<noteq> None \<and>
      (\<forall>c \<in> wanted ''required_connectors''. map_of (connector_health ctx) c = Some ''healthy'') \<and>
      wanted ''required_competencies'' \<subseteq> set (available_competencies ctx) \<and>
      wanted ''independence_roles'' \<inter> set (independence_conflicts ctx) = {} \<and>
      (\<forall>v. map_of p ''estimated_cost_usd'' = Some v \<longrightarrow> v \<noteq> PNone \<longrightarrow>
         (\<exists>x q. available_budget_usd ctx = Some x \<and> py_float (float_of env) v = Inr q \<and> q \<le> x)) \<and>
      length (competing r oc s) < max_concurrent r \<and>
      (sc_overlap r = ALLOW_OVERLAP \<or>
       (\<forall>g \<in> set (competing r oc s). eg_period_end g < oc_period_start oc \<or> oc_period_end oc < eg_period_start g)))"

lemma pc_passed_mk [simp]: "pc_passed (mk_preflight c b m d) = b"
  by (simp add: mk_preflight_def)

lemma sort_remdups_Nil [simp]: "sort (remdups xs) = [] \<longleftrightarrow> xs = []"
  by (metis length_0_conv length_sort remdups_eq_nil_iff)

lemma budget_check_passed:
  assumes "budget_check env p ctx = Inr c"
  shows "pc_passed c \<longleftrightarrow> (\<forall>v. map_of p ''estimated_cost_usd'' = Some v \<longrightarrow> v \<noteq> PNone \<longrightarrow>
    (\<exists>x q. available_budget_usd ctx = Some x \<and> py_float (float_of env) v = Inr q \<and> q \<le> x))"
  using assms by (auto simp: budget_check_def Let_def res_simps split: option.splits if_splits)

lemma find_None_none: "find P xs = None \<longleftrightarrow> (\<forall>x \<in> set xs. \<not> P x)"
  by (auto simp: find_None_iff)

text \<open>
  C34. The preflight passes exactly when everything it is there to check holds: tenant active, plan
  approved, schedule active, template released with a workflow, the connectors required by the
  merged policies healthy, competencies present, no conflict of interest, the budget
  sufficient, fewer competing engagements than allowed, and no overlap unless allowed.
\<close>

theorem preflight_passes_iff:
  assumes "evaluate_preflight env r t oc ctx now s = Inr rep"
  shows "pf_passed rep \<longleftrightarrow> preflight_clear env r t oc ctx s"
proof -
  define p where "p = dict_merge (tp_preflight_policy t) (sc_preflight_policy r)"
  obtain cs comp bud ind where c: "connector_checks p ctx = Inr cs" "competency_check p ctx = Inr comp" "budget_check env p ctx = Inr bud"
    "independence_conflict_check p ctx = Inr ind"
    "rep = \<lparr>pf_passed = list_all pc_passed (standing_checks r t s @ cs @ [comp, bud, ind, concurrency_check r oc s, overlap_check r oc s]),
       pf_checked_at = now, pf_checks = standing_checks r t s @ cs @ [comp, bud, ind, concurrency_check r oc s, overlap_check r oc s]\<rparr>"
    using assms by (auto simp: evaluate_preflight_def Let_def res_simps p_def)
  obtain k1 where k1: "policy_strings p ''required_connectors'' = Inr k1"
    "cs = map (\<lambda>c. mk_preflight (''connector:'' @ c) (map_of (connector_health ctx) c = Some ''healthy'')
      (''Required connector '' @ str_repr c @ '' must be healthy.'') [(''observed_state'', opt_str (map_of (connector_health ctx) c))]) k1"
    using c(1) by (auto simp: connector_checks_def Let_def res_simps)
  obtain k2 where k2: "policy_strings p ''required_competencies'' = Inr k2" "pc_passed comp \<longleftrightarrow> set k2 \<subseteq> set (available_competencies ctx)"
    using c(2) by (auto simp: competency_check_def Let_def res_simps filter_empty_conv subset_eq)
  obtain k3 where k3: "policy_strings p ''independence_roles'' = Inr k3" "pc_passed ind \<longleftrightarrow> set k3 \<inter> set (independence_conflicts ctx) = {}"
    using c(4) by (auto simp: independence_conflict_check_def Let_def res_simps filter_empty_conv disjoint_iff Ball_def)
  have cs: "list_all pc_passed cs \<longleftrightarrow> (\<forall>c \<in> set k1. map_of (connector_health ctx) c = Some ''healthy'')"
    by (simp add: k1(2) list_all_iff)
  have st: "list_all pc_passed (standing_checks r t s) \<longleftrightarrow>
      (\<exists>x. row tn_tenant (sc_tenant r) (sc_tenants s) = Some x \<and> tn_status x = ''active'') \<and>
      (\<exists>x. row plan_id (sc_plan r) (sc_plans s) = Some x \<and> ap_status x = ''approved'') \<and>
      sc_status r = ''active'' \<and> tp_status t \<in> {''released'', ''approved''} \<and> tp_workflow t \<noteq> None"
    by (auto simp: standing_checks_def split: option.splits)
  have ov: "pc_passed (overlap_check r oc s) \<longleftrightarrow> sc_overlap r = ALLOW_OVERLAP \<or>
      (\<forall>g \<in> set (competing r oc s). eg_period_end g < oc_period_start oc \<or> oc_period_end oc < eg_period_start g)"
    by (auto simp: overlap_check_def Let_def find_None_none not_le)
  have cc: "pc_passed (concurrency_check r oc s) \<longleftrightarrow> length (competing r oc s) < max_concurrent r"
    by (simp add: concurrency_check_def Let_def)
  have "pf_passed rep \<longleftrightarrow> list_all pc_passed (standing_checks r t s) \<and> list_all pc_passed cs \<and> pc_passed comp \<and> pc_passed bud \<and>
      pc_passed ind \<and> pc_passed (concurrency_check r oc s) \<and> pc_passed (overlap_check r oc s)"
    by (simp add: c(5))
  also have "\<dots> \<longleftrightarrow> preflight_clear env r t oc ctx s"
    unfolding st cs k2(2) k3(2) ov cc budget_check_passed[OF c(3)] preflight_clear_def Let_def p_def[symmetric]
    by (simp only: k1(1) k2(1) k3(1) sum.case) blast
  finally show ?thesis .
qed

section \<open>Simulation\<close>

text \<open>
  C38. The simulation predicts what materialising creates: for every due point for which an
  occurrence is created, simulating that due point succeeds and shows the same eligible time, the
  same audit period and the blackout action and reason that decide the occurrence's status.
\<close>

theorem simulation_predicts:
  assumes "create_occurrence env r skipped due s = Inr ((oc, True), s')"
  shows "\<exists>i. simulate_due env r due = Inr i \<and> si_nominal_due i = nominal_due oc \<and> si_eligible_at i = eligible_at oc \<and>
    si_period_start i = oc_period_start oc \<and> si_period_end i = oc_period_end oc \<and>
    oc_status oc = (if due \<in> set skipped \<or> si_blackout_action i = ''skip'' then O_SKIPPED
      else if si_blackout_action i = ''delay'' then O_DEFERRED else O_DUE) \<and>
    (due \<notin> set skipped \<longrightarrow> si_blackout_action i \<in> {''skip'', ''delay''} \<longrightarrow> decision_reason oc = si_blackout_reason i)"
proof -
  from assms obtain t b period where c: "resolve_blackout (business_calendar r) (local_of env (sc_timezone r) due) (blackout_windows r) = Inr b"
    "calculate_period (months_before env) (local_of env (sc_timezone r) due) (audit_period r) = Inr period"
    "oc = new_occurrence env s r t due (due \<in> set skipped) b period"
    by (auto simp: create_occurrence_def Let_def res_simps split: option.splits)
  then show ?thesis by (auto simp: simulate_due_def Let_def new_occurrence_def split_beta)
qed

section \<open>A backlog\<close>

text \<open>
  C37. A backlog of more than a thousand due points is never worked off: materialising the schedule
  raises, so its cursor stays where it was, and an evaluation of the tenant stops there without
  evaluating the schedules that come after it.
\<close>

theorem backlog_blocks_evaluation:
  assumes "get_schedule tenant sid s = Some r" "acquire_cursor_lease r worker now secs s = (Some c, s1)"
    and "evaluation_start r c < evaluation_end r now" "zone_known env (sc_timezone r)"
    and "rrule_between env (normalize_rule (recurrence_rule r)) (local_of env (sc_timezone r) (effective_from r))
      (local_of env (sc_timezone r) (evaluation_start r c)) (local_of env (sc_timezone r) (evaluation_end r now)) = Inr vs"
    and "1000 < length (filter (\<lambda>v. wall (local_of env (sc_timezone r) (evaluation_start r c)) < wall v) vs)"
  shows "materialize_due_occurrences env tenant sid now worker secs s = Inl RecurrenceError
    \<and> fold_run (evaluate_schedule env tenant ctx now worker secs) (sid # later) m s = (Inl RecurrenceError, s)"
proof -
  have "materialize_due_occurrences env tenant sid now worker secs s = Inl RecurrenceError"
    using assms by (simp add: materialize_due_occurrences_def Let_def occurrences_between_def recurrence_refused_def)
  then show ?thesis by (simp add: evaluate_schedule_def commit_def bind_run_def)
qed

section \<open>A cancelled launch\<close>

text \<open>
  C36. Cancelling an occurrence whose launch is already under way does not stop it for good: the
  launch fails, but the failure is recorded over the cancellation, the occurrence is
  due for a retry, and since the canceller is on record as the one who decided, the retry
  counts as approved whatever the launch mode asks.
\<close>

theorem cancelled_launch_retried:
  assumes "store_ok s" "get_occurrence tenant oid s = Some oc" "oc_status oc = O_CANCELLED" "truthy (decision_by oc)"
    and "run_job env tenant (LaunchJob oid) s = (Ended_failed, s')"
  shows "\<exists>oc'. get_occurrence tenant oid s' = Some oc' \<and> oc_status oc' = O_LAUNCH_FAILED \<and> decision_by oc' = decision_by oc \<and>
    oc' \<in> set (list_retryable_occurrences tenant (eligible_at oc') None s') \<and>
    process_occurrence tenant oid ctx s' = Next (PreflightJob oid ctx True)"
proof -
  have "begin_launch env tenant oid s = Inl OccurrenceStateError"
    using assms(2,3) by (simp add: begin_launch_def split_beta)
  then have j: "job_step env tenant (LaunchJob oid) s = (Next (FailJob oid OccurrenceStateError), s)" by (simp add: job_result_of_def)
  have run: "run_job env tenant (FailJob oid OccurrenceStateError) s = (Ended_failed, s')"
    using assms(5) unfolding run_job.simps[of env tenant "LaunchJob oid" s] j by simp
  have "fail_launch env tenant oid OccurrenceStateError s = Inr s'"
    using run unfolding run_job.simps[of env tenant "FailJob oid OccurrenceStateError" s]
    by (cases "fail_launch env tenant oid OccurrenceStateError s") (auto simp: job_result_of_def)
  then obtain secs data where rec: "record_occurrence (failed_launch_row (exn_text env OccurrenceStateError) (fst (utc_now s)) secs oc)
      ''scheduler.launch.failed'' data
      (put_occurrence (failed_launch_row (exn_text env OccurrenceStateError) (fst (utc_now s)) secs oc) (snd (utc_now s))) = Inr s'"
    using assms(2) by (auto simp: fail_launch_def split_beta Let_def res_simps)
  define oc' where "oc' = failed_launch_row (exn_text env OccurrenceStateError) (fst (utc_now s)) secs oc"
  define s1 where "s1 = snd (utc_now s)"
  have a1: "advances s s1" unfolding s1_def by (rule quiet_advances[OF assms(1) quiet_now])
  note oc = get_occurrence_Some[OF assms(2)]
  have get1: "get_occurrence tenant oid s1 = Some oc" using assms(2) by (simp add: get_occurrence_def s1_def)
  have same: "same_occurrence oc oc'" by (simp add: oc'_def failed_launch_row_def same_occurrence_def)
  have "has_occ tenant oid (\<lambda>x. x = oc') (put_occurrence oc' s1)" by (rule has_occ_put[OF advances_ok[OF a1] get1 same]) simp
  then have "has_occ tenant oid (\<lambda>x. x = oc') s'" by (rule recorded_occ[OF _ rec[folded oc'_def s1_def]]) simp
  then have mem: "oc' \<in> set (occurrences s')" "oc_tenant oc' = tenant" "occurrence_id oc' = oid" by (auto simp: has_occ_def)
  have adv: "advances s s'"
    using recorded_advances[OF put_after_quiet[OF assms(1) quiet_now conjunct1[OF oc]] rec] by simp
  have get: "get_occurrence tenant oid s' = Some oc'"
    using mem by (simp add: get_occurrence_iff[OF store_okD(3)[OF advances_ok[OF adv]]])
  have st: "oc_status oc' = O_LAUNCH_FAILED" "decision_by oc' = decision_by oc" "oc_schedule oc' = oc_schedule oc"
    by (simp_all add: oc'_def failed_launch_row_def)
  from store_okD(6)[OF advances_ok[OF adv] mem(1)] obtain r where "owner_schedule s' oc' r" by (auto simp: occurrence_ok_def)
  then have r: "get_schedule tenant (oc_schedule oc') s' = Some r"
    using get_schedule_owner[OF store_okD(8)[OF advances_ok[OF adv]], of oc' r] mem(2) by simp
  have "process_occurrence tenant oid ctx s' = Next (PreflightJob oid ctx True)"
    using get r st assms(4) by (simp add: process_occurrence_def)
  moreover have "oc' \<in> set (list_retryable_occurrences tenant (eligible_at oc') None s')"
    using mem(1,2) st(1) by (simp add: list_retryable_occurrences_def)
  ultimately show ?thesis using get st(1,2) by blast
qed

section \<open>The methods are runs of the machine\<close>

definition sched_runs :: "sched_env \<Rightarrow> sched_sys \<Rightarrow> sched_sys \<Rightarrow> bool" where
  "sched_runs env = (\<lambda>y y'. \<exists>a. sched_step env a y = Inr y')\<^sup>*\<^sup>*"

lemma sched_runs_step: "sched_step env a y = Inr y' \<Longrightarrow> sched_runs env y y'"
  by (auto simp: sched_runs_def)

lemma sched_runs_trans: "sched_runs env x y \<Longrightarrow> sched_runs env y z \<Longrightarrow> sched_runs env x z"
  by (simp add: sched_runs_def)

lemma sched_runs_refl [simp]: "sched_runs env y y"
  by (simp add: sched_runs_def)

lemma run_job_runs:
  "run_job env tenant j s = (r, s') \<Longrightarrow>
   sched_runs env \<lparr>sy_store = s, sy_jobs = [(tenant, j)]\<rparr> \<lparr>sy_store = s', sy_jobs = []\<rparr>"
proof (induction env tenant j s arbitrary: r s' rule: run_job.induct)
  case (1 env tenant j s)
  obtain r1 s1 where js: "job_step env tenant j s = (r1, s1)" by fastforce
  have step: "sched_step env (Advance 0) \<lparr>sy_store = s, sy_jobs = [(tenant, j)]\<rparr> =
    Inr \<lparr>sy_store = s1, sy_jobs = (case r1 of Next k \<Rightarrow> [(tenant, k)] | _ \<Rightarrow> [])\<rparr>"
    by (simp add: js drop_job_def split: job_result.splits)
  show ?case
  proof (cases "\<exists>k. r1 = Next k")
    case True
    then obtain k where k: "r1 = Next k" ..
    then have "run_job env tenant k s1 = (r, s')" using 1(2) by (subst (asm) run_job.simps) (simp add: js)
    then have "sched_runs env \<lparr>sy_store = s1, sy_jobs = [(tenant, k)]\<rparr> \<lparr>sy_store = s', sy_jobs = []\<rparr>"
      using 1(1)[of k r s'] js k by simp
    moreover have "sched_runs env \<lparr>sy_store = s, sy_jobs = [(tenant, j)]\<rparr> \<lparr>sy_store = s1, sy_jobs = [(tenant, k)]\<rparr>"
      using step k by (intro sched_runs_step) (simp del: sched_step.simps)
    ultimately show ?thesis by (blast intro: sched_runs_trans)
  next
    case False
    then have jobs: "(case r1 of Next k \<Rightarrow> [(tenant, k)] | _ \<Rightarrow> []) = []" by (cases r1) auto
    have "run_job env tenant j s = (r1, s1)"
      using False unfolding run_job.simps[of env tenant j s] by (cases r1) (auto simp: js)
    with 1(2) have "s' = s1" by simp
    with sched_runs_step[OF step[unfolded jobs]] show ?thesis by simp
  qed
qed

definition idle :: "sched_store \<Rightarrow> sched_sys" where
  "idle s = \<lparr>sy_store = s, sy_jobs = []\<rparr>"

lemma process_one_runs:
  assumes "process_one env tenant ctx oid m s = (r, s')"
  shows "sched_runs env (idle s) (idle s')"
proof -
  obtain r1 where "run_job env tenant (ProcessJob oid ctx) s = (r1, s')"
    using assms by (auto simp: process_one_def Let_def split: prod.splits job_result.splits)
  from run_job_runs[OF this] have "sched_runs env \<lparr>sy_store = s, sy_jobs = [(tenant, ProcessJob oid ctx)]\<rparr> (idle s')" by (simp add: idle_def)
  moreover have "sched_step env (Process tenant oid ctx) (idle s) = Inr \<lparr>sy_store = s, sy_jobs = [(tenant, ProcessJob oid ctx)]\<rparr>"
    by (simp add: idle_def)
  ultimately show ?thesis by (blast intro: sched_runs_trans sched_runs_step)
qed

lemma fold_run_runs:
  assumes "fold_run f xs m s = (r, s')" "\<And>x m s r s'. f x m s = (r, s') \<Longrightarrow> sched_runs env (idle s) (idle s')"
  shows "sched_runs env (idle s) (idle s')"
  using assms(1)
proof (induction xs arbitrary: m s)
  case (Cons x xs)
  obtain r1 s1 where f: "f x m s = (r1, s1)" by fastforce
  show ?case
  proof (cases r1)
    case (Inl e)
    with Cons.prems f assms(2)[OF f] show ?thesis by (simp add: bind_run_def)
  next
    case (Inr m1)
    with Cons.prems f have "fold_run f xs m1 s1 = (r, s')" by (simp add: bind_run_def)
    from Cons.IH[OF this] assms(2)[OF f] show ?thesis by (blast intro: sched_runs_trans)
  qed
qed simp

lemma evaluate_schedule_runs:
  assumes "evaluate_schedule env tenant ctx now worker secs sid m s = (r, s')"
  shows "sched_runs env (idle s) (idle s')"
proof (cases "materialize_due_occurrences env tenant sid now worker secs s")
  case (Inl e)
  with assms show ?thesis by (simp add: evaluate_schedule_def commit_def bind_run_def)
next
  case (Inr q)
  obtain mz s1 where q: "q = (mz, s1)" by (cases q)
  have "sched_step env (Materialize tenant sid now worker secs) (idle s) = Inr (idle s1)" by (simp add: idle_def put_store_def Inr q)
  moreover obtain ids m1 where "fold_run (process_one env tenant ctx) ids m1 s1 = (r, s')"
    using assms by (auto simp: evaluate_schedule_def commit_def bind_run_def Inr q Let_def)
  then have "sched_runs env (idle s1) (idle s')" by (rule fold_run_runs) (rule process_one_runs)
  ultimately show ?thesis by (blast intro: sched_runs_trans sched_runs_step)
qed

lemma clock_runs: "sched_runs env (idle s) (idle (snd (utc_now s)))"
  by (rule sched_runs_step[of env ReadClock]) (simp add: idle_def)

text \<open>
  C35. Evaluating what is due and approving an occurrence are runs of the interleaved machine, with
  the same store at the end, whether the method returns or raises; so what is shown of the
  machine's reachable states holds after and during every call of them.
\<close>

theorem methods_are_runs:
  "sched_runs env (idle s) (idle (snd (evaluate_due env tenant context sid worker secs s)))
   \<and> (occurrence_decision_ok d \<longrightarrow> sched_runs env (idle s) (idle (snd (approve_occurrence env tenant oid d s))))"
proof
  define s0 where "s0 = snd (utc_now s)"
  obtain r s' where e: "evaluate_due env tenant context sid worker secs s = (r, s')" by fastforce
  have "sched_runs env (idle s0) (idle s')"
  proof (cases "s' = s0")
    case False
    then obtain ctx now ss m1 ids where f: "bind_run (fold_run (evaluate_schedule env tenant ctx now worker secs) ss m1 s0)
        (\<lambda>m2 s1. fold_run (process_one env tenant ctx) (ids m2 s1) m2 s1) = (r, s')"
      using e by (simp add: evaluate_due_def split_beta Let_def s0_def[symmetric] split: if_splits sum.splits)
    obtain r1 s1 where g: "fold_run (evaluate_schedule env tenant ctx now worker secs) ss m1 s0 = (r1, s1)" by fastforce
    have one: "sched_runs env (idle s0) (idle s1)" using g by (rule fold_run_runs) (rule evaluate_schedule_runs)
    show ?thesis
    proof (cases r1)
      case (Inl e)
      with f g one show ?thesis by (simp add: bind_run_def)
    next
      case (Inr m2)
      with f g have "fold_run (process_one env tenant ctx) (ids m2 s1) m2 s1 = (r, s')" by (simp add: bind_run_def)
      then have "sched_runs env (idle s1) (idle s')" by (rule fold_run_runs) (rule process_one_runs)
      with one show ?thesis by (rule sched_runs_trans)
    qed
  qed simp
  with clock_runs[of env s] show "sched_runs env (idle s) (idle (snd (evaluate_due env tenant context sid worker secs s)))"
    by (simp add: e s0_def[symmetric] sched_runs_trans)
next
  show "occurrence_decision_ok d \<longrightarrow> sched_runs env (idle s) (idle (snd (approve_occurrence env tenant oid d s)))"
  proof
    assume d: "occurrence_decision_ok d"
    show "sched_runs env (idle s) (idle (snd (approve_occurrence env tenant oid d s)))"
    proof (cases "approve_transaction tenant oid d s")
      case (Inl e)
      then show ?thesis by (simp add: approve_occurrence_def commit_def bind_run_def)
    next
      case (Inr q)
      obtain x s1 where q: "q = (x, s1)" by (cases q)
      show ?thesis
      proof (cases x)
        case None
        define s2 where "s2 = snd (utc_now s1)"
        obtain r s3 where j: "run_job env tenant (PreflightJob oid (od_context d) True) s2 = (r, s3)" by fastforce
        have "sched_step env (ApproveOccurrence tenant oid d) (idle s) =
            Inr \<lparr>sy_store = s1, sy_jobs = [(tenant, PreflightJob oid (od_context d) True)]\<rparr>" using d by (simp add: idle_def Inr q None)
        moreover have "sched_step env ReadClock \<lparr>sy_store = s1, sy_jobs = [(tenant, PreflightJob oid (od_context d) True)]\<rparr> =
            Inr \<lparr>sy_store = s2, sy_jobs = [(tenant, PreflightJob oid (od_context d) True)]\<rparr>" by (simp add: s2_def)
        moreover note run_job_runs[OF j]
        ultimately have "sched_runs env (idle s) (idle s3)"
          unfolding idle_def by (blast intro: sched_runs_trans sched_runs_step)
        then show ?thesis by (simp add: approve_occurrence_def commit_def bind_run_def Inr q None j s2_def[symmetric])
      next
        case (Some oc)
        have "sched_step env (ApproveOccurrence tenant oid d) (idle s) = Inr (idle s1)" using d by (simp add: idle_def Inr q Some)
        from sched_runs_step[OF this] show ?thesis by (simp add: approve_occurrence_def commit_def bind_run_def Inr q Some)
      qed
    qed
  qed
qed

section \<open>Witnesses\<close>

definition demo_schedule :: schedule_row where
  "demo_schedule = (new_schedule ''sch_0'' ''acme'' 1 demo_draft 0)\<lparr>sc_status := ''active''\<rparr>"

definition demo_occurrence :: occurrence_row where
  "demo_occurrence = new_occurrence demo_env (sy_store sched_demo_init) demo_schedule demo_template (of_utc demo_point) False
     \<lparr>br_eligible_at = demo_point, br_action = ''none'', br_reason = None\<rparr> (739220, 739249)"

definition passes :: "preflight_report res \<Rightarrow> bool" where
  "passes m \<longleftrightarrow> (case m of Inl _ \<Rightarrow> False | Inr rep \<Rightarrow> pf_passed rep)"

lemma demo_passes:
  "passes (evaluate_preflight demo_env demo_schedule demo_template demo_occurrence (od_context demo_decided) 0 (sy_store sched_demo_init))"
  by code_simp

theorem preflight_passes_iff_witness:
  "preflight_clear demo_env demo_schedule demo_template demo_occurrence (od_context demo_decided) (sy_store sched_demo_init)"
proof -
  from demo_passes obtain rep where rep: "evaluate_preflight demo_env demo_schedule demo_template demo_occurrence (od_context demo_decided) 0
      (sy_store sched_demo_init) = Inr rep" "pf_passed rep" by (auto simp: passes_def split: sum.splits)
  from preflight_passes_iff[OF rep(1)] rep(2) show ?thesis by simp
qed

definition creates :: "((occurrence_row \<times> bool) \<times> sched_store) res \<Rightarrow> bool" where
  "creates m \<longleftrightarrow> (case m of Inl _ \<Rightarrow> False | Inr ((oc, c), s) \<Rightarrow> c \<and> oc_period_end oc = 739249 \<and> oc_status oc = O_DUE)"

lemma demo_creates: "creates (create_occurrence demo_env demo_schedule [] (of_utc demo_point) (sy_store sched_demo_init))"
  by code_simp

theorem simulation_predicts_witness:
  "\<exists>i. simulate_due demo_env demo_schedule (of_utc demo_point) = Inr i \<and> si_period_end i = 739249"
proof -
  from demo_creates obtain oc s' where c: "create_occurrence demo_env demo_schedule [] (of_utc demo_point) (sy_store sched_demo_init) = Inr ((oc, True), s')"
    "oc_period_end oc = 739249" by (auto simp: creates_def split: sum.splits prod.splits)
  from simulation_predicts[OF c(1)] c(2) show ?thesis by auto
qed

definition busy_points :: "local_time list" where
  "busy_points = map (\<lambda>k. \<lparr>lt_day = 739200 + int k, lt_clock = (0, 0)\<rparr>) [1..<1100]"

definition busy_env :: sched_env where
  "busy_env = demo_env\<lparr>rrule_between := (\<lambda>rule from a b. Inr busy_points)\<rparr>"

definition busy_store :: sched_store where
  "busy_store = (sy_store sched_demo_init)\<lparr>schedules := [demo_schedule]\<rparr>"

definition acquired :: "cursor_row option \<times> sched_store \<Rightarrow> bool" where
  "acquired m \<longleftrightarrow> (case fst m of None \<Rightarrow> False | Some c \<Rightarrow> last_evaluated_at c = None)"

lemma busy_facts:
  "acquired (acquire_cursor_lease demo_schedule ''w1'' (740300 * 86400) 60 busy_store)"
  "map schedule_id (schedules busy_store) = [''sch_0''] \<and> get_schedule ''acme'' ''sch_0'' busy_store \<noteq> None"
  "effective_from demo_schedule - 1 / 1000000 < evaluation_end demo_schedule (740300 * 86400)"
  "lt_day (utc_of (effective_from demo_schedule - 1 / 1000000)) = 739199"
  by code_simp+

lemma busy_points: "length busy_points = 1099" "v \<in> set busy_points \<Longrightarrow> 739200 \<le> lt_day v"
  by (auto simp: busy_points_def)

lemma busy_zone: "zone_known busy_env (sc_timezone demo_schedule)"
  by (simp add: busy_env_def demo_env_def demo_schedule_def new_schedule_def demo_draft_def)

theorem backlog_blocks_evaluation_witness:
  "materialize_due_occurrences busy_env ''acme'' ''sch_0'' (740300 * 86400) ''w1'' 60 busy_store = Inl RecurrenceError"
proof -
  obtain c s1 where a: "acquire_cursor_lease demo_schedule ''w1'' (740300 * 86400) 60 busy_store = (Some c, s1)" "last_evaluated_at c = None"
    using busy_facts(1) by (cases "acquire_cursor_lease demo_schedule ''w1'' (740300 * 86400) 60 busy_store") (auto simp: acquired_def split: option.splits)
  have start: "evaluation_start demo_schedule c = effective_from demo_schedule - 1 / 1000000" by (simp add: evaluation_start_def a(2))
  have get: "get_schedule ''acme'' ''sch_0'' busy_store = Some demo_schedule"
    using busy_facts(2) by (auto simp: busy_store_def get_schedule_def split: if_splits)
  have wall: "wall (local_of busy_env (sc_timezone demo_schedule) (evaluation_start demo_schedule c)) < wall v" if "v \<in> set busy_points" for v
    using busy_points(2)[OF that] busy_facts(4) by (auto simp: start wall_def busy_env_def demo_env_def)
  have many: "1000 < length (filter (\<lambda>v. wall (local_of busy_env (sc_timezone demo_schedule) (evaluation_start demo_schedule c)) < wall v) busy_points)"
    using wall busy_points(1) by (subst filter_True) simp_all
  have "rrule_between busy_env rule f a b = Inr busy_points" for rule f a b by (simp add: busy_env_def)
  from backlog_blocks_evaluation[OF get a(1) _ busy_zone this many] busy_facts(3) show ?thesis by (simp add: start)
qed

theorem cancelled_launch_retried_witness:
  "\<exists>oc s'. get_occurrence ''acme'' demo_occ s' = Some oc \<and> oc_status oc = O_LAUNCH_FAILED \<and>
     run_job demo_env ''acme'' (LaunchJob demo_occ) (sy_store (sched_demo demo_cancelled)) = (Ended_failed, s') \<and>
     process_occurrence ''acme'' demo_occ (od_context demo_decided) s' = Next (PreflightJob demo_occ (od_context demo_decided) True)"
proof -
  let ?s = "sy_store (sched_demo demo_cancelled)"
  have ok: "store_ok ?s" using reach_sys_ok[OF sched_demo_reach] by (simp add: sys_ok_def)
  from demo_cancelled_state obtain oc s' where oc: "get_occurrence ''acme'' demo_occ ?s = Some oc" "oc_status oc = O_CANCELLED"
    "truthy (decision_by oc)" "run_job demo_env ''acme'' (LaunchJob demo_occ) ?s = (Ended_failed, s')" by (rule fails_when_cancelledE)
  from cancelled_launch_retried[OF ok oc] oc(4) show ?thesis by blast
qed

theorem methods_are_runs_witness:
  "sched_runs demo_env (idle (sy_store (sched_demo demo_due)))
     (idle (snd (approve_occurrence demo_env ''acme'' demo_occ demo_decided (sy_store (sched_demo demo_due)))))"
proof -
  have "occurrence_decision_ok demo_decided" by code_simp
  with methods_are_runs show ?thesis by blast
qed

end
