(* ===== verification/Sched_History.thy ===== *)
theory Sched_History
  imports Sched_Machine
begin

text \<open>
  The history of the scheduler's rows. Who decides an occurrence: only an approval or a cancellation of that occurrence writes its
  decision, and both overwrite an earlier one. Every other transaction keeps the occurrences in
  place with their decisions, and adds new ones at the end. How a schedule moves: no transaction
  takes it along more than one edge of its life.
\<close>

definition verdicts :: "sched_store \<Rightarrow> (ident \<times> ident option) list" where
  "verdicts s = map (\<lambda>oc. (occurrence_id oc, decision_by oc)) (occurrences s)"

definition keeps_verdicts :: "sched_store \<Rightarrow> sched_store \<Rightarrow> bool" where
  "keeps_verdicts s s' \<longleftrightarrow> (\<exists>new. verdicts s' = verdicts s @ new)"

lemma keeps_verdicts_same: "occurrences s' = occurrences s \<Longrightarrow> keeps_verdicts s s'"
  by (simp add: keeps_verdicts_def verdicts_def)

lemma keeps_verdicts_trans: "keeps_verdicts s t \<Longrightarrow> keeps_verdicts t u \<Longrightarrow> keeps_verdicts s u"
  by (auto simp: keeps_verdicts_def)

lemma keeps_verdicts_put:
  assumes "store_ok s" "occurrences s1 = occurrences s" "oc \<in> set (occurrences s)" "occurrence_id oc' = occurrence_id oc"
    "decision_by oc' = decision_by oc"
  shows "keeps_verdicts s (put_occurrence oc' s1)"
proof -
  have "map (\<lambda>oc. (occurrence_id oc, decision_by oc)) (put occurrence_id oc' (occurrences s))
      = map (\<lambda>oc. (occurrence_id oc, decision_by oc)) (occurrences s)"
  proof (rule map_put_same)
    fix x assume "x \<in> set (occurrences s)" "occurrence_id x = occurrence_id oc'"
    then have "x = oc" using store_okD(3)[OF assms(1)] assms(3,4) by (auto simp: distinct_map dest: inj_onD)
    then show "(occurrence_id oc', decision_by oc') = (occurrence_id x, decision_by x)" using assms(4,5) by simp
  qed
  then show ?thesis using assms(2) by (simp add: keeps_verdicts_def verdicts_def put_occurrence_def)
qed

lemma recorded_occurrences:
  assumes "record_occurrence oc etype data s = Inr s'" "scheduler_event etype"
  shows "occurrences s' = occurrences s"
  using assms by (rule record_occurrence_quiet) (rule quiet_get)

lemma keeps_verdicts_recorded:
  assumes "keeps_verdicts s s1" "record_occurrence oc etype data s1 = Inr s'" "scheduler_event etype"
  shows "keeps_verdicts s s'"
  by (rule keeps_verdicts_trans[OF assms(1) keeps_verdicts_same[OF recorded_occurrences[OF assms(2,3)]]])

lemma rewritten_decisions [simp]:
  "decision_by (waiting_row reason oc) = decision_by oc" "decision_by (blocked_row reason oc) = decision_by oc"
  "decision_by (failed_launch_row err now secs oc) = decision_by oc" "decision_by (launched_row now oc) = decision_by oc"
  "decision_by (launching_row eid now secs oc) = decision_by oc"
  "occurrence_id (waiting_row reason oc) = occurrence_id oc" "occurrence_id (blocked_row reason oc) = occurrence_id oc"
  "occurrence_id (failed_launch_row err now secs oc) = occurrence_id oc" "occurrence_id (launched_row now oc) = occurrence_id oc"
  "occurrence_id (launching_row eid now secs oc) = occurrence_id oc"
  by (simp_all add: waiting_row_def blocked_row_def failed_launch_row_def launched_row_def launching_row_def)

section \<open>Jobs\<close>

lemma mark_waiting_verdicts:
  assumes "store_ok s" "mark_waiting_approval tenant oid s = Inr (w, s')"
  shows "keeps_verdicts s s'"
proof (cases "s' = s")
  case False
  with assms(2) obtain oc where oc: "get_occurrence tenant oid s = Some oc"
    and rec: "record_occurrence (waiting_row ''start approval required before preflight'' oc) ''scheduler.occurrence.waiting_approval'' []
      (put_occurrence (waiting_row ''start approval required before preflight'' oc) s) = Inr s'"
    by (auto simp: mark_waiting_approval_def Let_def res_simps split: option.splits if_splits)
  show ?thesis
    by (rule keeps_verdicts_recorded[OF keeps_verdicts_put[OF assms(1) refl] rec]) (use get_occurrence_Some[OF oc] in simp_all)
qed (simp add: keeps_verdicts_same)

lemma fail_launch_verdicts:
  assumes "store_ok s" "fail_launch env tenant oid e s = Inr s'"
  shows "keeps_verdicts s s'"
proof (cases "get_occurrence tenant oid s")
  case None
  with assms show ?thesis by (auto simp: fail_launch_def split_beta intro: keeps_verdicts_same)
next
  case (Some oc)
  obtain secs data where rec: "record_occurrence (failed_launch_row (exn_text env e) (fst (utc_now s)) secs oc) ''scheduler.launch.failed'' data
      (put_occurrence (failed_launch_row (exn_text env e) (fst (utc_now s)) secs oc) (snd (utc_now s))) = Inr s'"
    using assms(2) Some by (auto simp: fail_launch_def split_beta Let_def res_simps)
  show ?thesis
    by (rule keeps_verdicts_recorded[OF keeps_verdicts_put[OF assms(1)] rec]) (use get_occurrence_Some[OF Some] in simp_all)
qed

lemma finish_launch_verdicts:
  assumes "store_ok s" "finish_launch tenant oid eid now s = Inr s'"
  shows "keeps_verdicts s s'"
proof (cases "s' = s")
  case False
  with assms(2) obtain oc data where oc: "get_occurrence tenant oid s = Some oc"
    and rec: "record_occurrence (launched_row now oc) ''scheduler.launch.completed'' data (put_occurrence (launched_row now oc) s) = Inr s'"
    by (auto simp: finish_launch_def Let_def split: option.splits if_splits)
  show ?thesis
    by (rule keeps_verdicts_recorded[OF keeps_verdicts_put[OF assms(1) refl] rec]) (use get_occurrence_Some[OF oc] in simp_all)
qed (simp add: keeps_verdicts_same)

lemma preflight_verdicts:
  assumes "store_ok s" "preflight_transaction env tenant oid ctx granted s = Inr (out, s')"
  shows "keeps_verdicts s s'"
  using assms(2)
proof (cases rule: preflight_cases)
  case (unavailable oc reason data)
  show ?thesis
    by (rule keeps_verdicts_recorded[OF keeps_verdicts_put[OF assms(1)] unavailable(3)])
      (use get_occurrence_Some[OF unavailable(1)] in simp_all)
next
  case (refused oc oc1 reason data)
  have "occurrence_id oc1 = occurrence_id oc" using refused(3) by (simp add: occurrence_follows_def same_occurrence_def)
  then show ?thesis
    by (intro keeps_verdicts_recorded[OF keeps_verdicts_put[OF assms(1)] refused(5)])
      (use get_occurrence_Some[OF refused(1)] refused(6) in simp_all)
next
  case (passed oc oc1 r rep s2)
  have id: "occurrence_id oc1 = occurrence_id oc" using passed(2) by (simp add: occurrence_follows_def same_occurrence_def)
  have "occurrences s2 = occurrences (snd (utc_now s))" by (rule recorded_occurrences[OF passed(8)]) simp
  then have s2: "occurrences s2 = occurrences s" by simp
  have oc: "oc \<in> set (occurrences s)" using get_occurrence_Some[OF passed(1)] by simp
  from passed(9) consider "s' = put_occurrence (waiting_row ''preflight passed; start approval required'' oc1) s2" | "s' = put_occurrence oc1 s2"
    by (auto split: if_splits)
  then show ?thesis
    by cases (use keeps_verdicts_put[OF assms(1) s2 oc] id passed(5) in simp_all)
qed

lemma begin_launch_verdicts:
  assumes "store_ok s" "begin_launch env tenant oid s = Inr (out, s')"
  shows "keeps_verdicts s s'"
  using assms(2)
proof (cases rule: begin_launch_cases)
  case finished
  then show ?thesis by (simp add: keeps_verdicts_same)
next
  case (started oc r t l s2 s3 secs)
  have s2: "occurrences s2 = occurrences s"
    using started(6) add_engagement_for_effect(3)[of env r t oc "ls_engagement l" "snd (utc_now s)" s2] by auto
  have s3: "s3 = put_occurrence (launching_row (ls_engagement l) (ls_now l) secs oc) s2"
    using started(7) by (auto simp: assign_engagement_def split: if_splits)
  have k: "keeps_verdicts s s3"
    unfolding s3 by (rule keeps_verdicts_put[OF assms(1) s2]) (use get_occurrence_Some[OF started(1)] in simp_all)
  from started(8) obtain data where
    "record_occurrence (launching_row (ls_engagement l) (ls_now l) secs oc) ''scheduler.launch.started'' data s3 = Inr s'" ..
  from keeps_verdicts_recorded[OF k this] show ?thesis by simp
qed

lemma on_orchestrator_occurrences: "on_orchestrator f s = Inr (x, s') \<Longrightarrow> occurrences s' = occurrences s"
  by (rule more_fields(6)[OF on_orchestrator_Inr(2)])

lemma job_result_store: "job_result_of h m s = (r, s') \<Longrightarrow> s' = s \<or> (\<exists>x. m = Inr (x, s'))"
  by (cases m) (auto simp: job_result_of_def)

lemma job_step_verdicts:
  assumes "store_ok s" "job_step env tenant j s = (r, s')"
  shows "keeps_verdicts s s'"
proof (cases "s' = s")
  case False
  show ?thesis
  proof (cases j)
    case (WaitJob oid)
    with assms(2) False obtain w where "mark_waiting_approval tenant oid s = Inr (w, s')"
      by (auto simp: res_simps dest!: job_result_store)
    then show ?thesis by (rule mark_waiting_verdicts[OF assms(1)])
  next
    case (PreflightJob oid ctx granted)
    with assms(2) False obtain p where "preflight_transaction env tenant oid ctx granted s = Inr (p, s')"
      by (auto simp: res_simps dest!: job_result_store)
    then show ?thesis by (rule preflight_verdicts[OF assms(1)])
  next
    case (LaunchJob oid)
    with assms(2) False obtain l where "begin_launch env tenant oid s = Inr (l, s')"
      by (auto simp: res_simps dest!: job_result_store)
    then show ?thesis by (rule begin_launch_verdicts[OF assms(1)])
  next
    case (CompileJob oid l planned)
    with assms(2) False have "occurrences s' = occurrences (snd (utc_now s))"
      by (auto simp: res_simps split_beta Let_def dest!: job_result_store on_orchestrator_occurrences)
    then show ?thesis by (simp add: keeps_verdicts_same)
  next
    case (StartJob oid l)
    with assms(2) False have "occurrences s' = occurrences (snd (utc_now s))"
      by (auto simp: res_simps split_beta Let_def dest!: job_result_store on_orchestrator_occurrences)
    then show ?thesis by (simp add: keeps_verdicts_same)
  next
    case (FinishJob oid l)
    with assms(2) False have "finish_launch tenant oid (ls_engagement l) (ls_now l) s = Inr s'"
      by (auto simp: res_simps dest!: job_result_store)
    then show ?thesis by (rule finish_launch_verdicts[OF assms(1)])
  next
    case (FailJob oid e)
    with assms(2) False have "fail_launch env tenant oid e s = Inr s'"
      by (auto simp: res_simps dest!: job_result_store)
    then show ?thesis by (rule fail_launch_verdicts[OF assms(1)])
  qed (use assms(2) False in auto)
qed (simp add: keeps_verdicts_same)

section \<open>Evaluations and authoring\<close>

lemma create_occurrence_verdicts:
  assumes "create_occurrence env r skipped due s = Inr (x, s')"
  shows "keeps_verdicts s s'"
proof (cases "get_occurrence_by_due (sc_tenant r) (schedule_id r) due s")
  case (Some y)
  with assms show ?thesis by (auto simp: create_occurrence_def intro: keeps_verdicts_same)
next
  case None
  then obtain oc s1 data where c: "insert_occurrence oc s = Inr s1" "record_occurrence oc ''scheduler.occurrence.created'' data s1 = Inr s'"
    using assms by (auto simp: create_occurrence_def Let_def res_simps split: option.splits)
  have "keeps_verdicts s s1" using c(1) by (auto simp: insert_occurrence_def res_simps keeps_verdicts_def verdicts_def)
  from keeps_verdicts_recorded[OF this c(2)] show ?thesis by simp
qed

lemma materialize_fold_verdicts:
  "fold_res (materialize_one env r skipped) dues (m, s) = Inr (m', s') \<Longrightarrow> keeps_verdicts s s'"
proof (induction dues arbitrary: m s)
  case Nil
  then show ?case by (simp add: keeps_verdicts_same)
next
  case (Cons due dues)
  from Cons.prems obtain x where x: "materialize_one env r skipped due (m, s) = Inr x"
    "fold_res (materialize_one env r skipped) dues x = Inr (m', s')" by (auto simp: res_simps)
  from x(1) obtain y where one: "create_occurrence env r skipped due s = Inr (y, snd x)"
    by (auto simp: materialize_one_def res_simps)
  from x(2) have "fold_res (materialize_one env r skipped) dues (fst x, snd x) = Inr (m', s')" by simp
  from keeps_verdicts_trans[OF create_occurrence_verdicts[OF one] Cons.IH[OF this]] show ?case .
qed

lemma materialize_verdicts:
  assumes "materialize_due_occurrences env tenant sid now worker secs s = Inr (m, s')"
  shows "keeps_verdicts s s'"
  using assms
proof (cases rule: materialize_cases)
  case (held r cs)
  then show ?thesis by (simp add: keeps_verdicts_same)
next
  case (early r c s1 due)
  from early(2) obtain cs where "s1 = s\<lparr>cursors := cs\<rparr>" by (rule acquire_effect)
  with early(4) show ?thesis by (intro keeps_verdicts_same) (simp add: release_cursor_def put_cursor_def)
next
  case (evaluated r c s1 dues s2 due)
  from evaluated(2) obtain cs where "s1 = s\<lparr>cursors := cs\<rparr>" by (rule acquire_effect)
  then have "keeps_verdicts s s1" by (simp add: keeps_verdicts_same)
  moreover have "keeps_verdicts s1 s2" using evaluated(5) by (rule materialize_fold_verdicts)
  moreover have "keeps_verdicts s2 s'" using evaluated(6) by (simp add: keeps_verdicts_same release_cursor_def put_cursor_def)
  ultimately show ?thesis by (blast intro: keeps_verdicts_trans)
qed

lemma recorded_schedule_occurrences:
  assumes "record_schedule r etype now data s = Inr s'" "scheduler_event etype"
  shows "occurrences s' = occurrences s"
  by (rule quiet_get(1)[OF record_schedule_quiet[OF assms]])

lemma authored_occurrences [simp]:
  "occurrences (snd (new_id p (s :: sched_store))) = occurrences s" "occurrences (put_schedule r s) = occurrences s"
  "occurrences (put_cursor c s) = occurrences s" "occurrences (snd (get_or_create_cursor r s)) = occurrences s"
  by (auto simp: new_id_def draw_uuid_def put_schedule_def put_cursor_def get_or_create_cursor_def Let_def split: option.splits)

lemma create_draft_occurrences: "create_draft env tenant d s = Inr (r, s') \<Longrightarrow> occurrences s' = occurrences s"
  by (auto simp: create_draft_def split_beta Let_def res_simps add_schedule_def dest!: recorded_schedule_occurrences)

lemma revise_occurrences: "revise env tenant sid d s = Inr (r, s') \<Longrightarrow> occurrences s' = occurrences s"
  by (auto simp: revise_def split: option.splits dest!: create_draft_occurrences)

lemma supersede_occurrences: "fold_res (supersede r actor now) xs s = Inr s' \<Longrightarrow> occurrences s' = occurrences s"
proof (induction xs arbitrary: s)
  case (Cons x xs)
  from Cons.prems obtain u where u: "supersede r actor now x s = Inr u" "fold_res (supersede r actor now) xs u = Inr s'"
    by (auto simp: res_simps)
  from u(1) obtain data where "record_schedule (supersede_row r actor now x) ''scheduler.schedule.superseded'' now data
      (put_schedule (supersede_row r actor now x) s) = Inr u" by (auto simp: supersede_def Let_def)
  from recorded_schedule_occurrences[OF this] Cons.IH[OF u(2)] show ?case by simp
qed simp

text \<open>What a transaction does to the status of the schedules that were there.\<close>

definition schedule_moves :: "string \<Rightarrow> string \<Rightarrow> bool" where
  "schedule_moves a b \<longleftrightarrow> a = b \<or>
     (a, b) \<in> {(''draft'', ''active''), (''draft'', ''disabled''), (''active'', ''superseded''), (''active'', ''disabled'')}"

definition statuses_move :: "sched_store \<Rightarrow> sched_store \<Rightarrow> bool" where
  "statuses_move s s' \<longleftrightarrow> (\<forall>r \<in> set (schedules s). \<exists>r' \<in> set (schedules s'). schedule_id r' = schedule_id r \<and>
     schedule_moves (sc_status r) (sc_status r'))"

lemma statuses_move_same: "set (schedules s) \<subseteq> set (schedules s') \<Longrightarrow> statuses_move s s'"
  unfolding statuses_move_def schedule_moves_def by blast

lemma approve_schedule_effect:
  assumes "store_ok s" "approve_schedule env tenant sid d s = Inr (r', s')"
  shows "occurrences s' = occurrences s \<and> statuses_move s s'"
proof -
  define s1 where "s1 = snd (utc_now s)"
  have s1: "quiet s s1" "schedules s1 = schedules s" "occurrences s1 = occurrences s" by (simp_all add: s1_def utc_now_def quiet_draws)
  from assms(2) obtain r where r: "get_schedule tenant sid s = Some r" by (auto simp: approve_schedule_def split_beta split: option.splits)
  note rs = get_schedule_Some[OF r]
  show ?thesis
  proof (cases "sc_status r = ''active''")
    case True
    with r assms(2) have "s' = s1" by (simp add: approve_schedule_def split_beta s1_def)
    with s1 show ?thesis by (simp add: statuses_move_same)
  next
    case False
    let ?xs = "filter (\<lambda>x. sc_tenant x = tenant \<and> sc_name x = sc_name r \<and> sc_status x = ''active'' \<and> schedule_id x \<noteq> schedule_id r) (schedules s)"
    define now where "now = fst (utc_now s)"
    define n where "n = activate_row d now r"
    have "\<exists>s2 data due. sc_status r = ''draft'' \<and> fold_res (supersede r (sd_actor_id d) now) ?xs s1 = Inr s2 \<and>
      record_schedule n ''scheduler.schedule.approved'' now data
         (put_cursor ((fst (get_or_create_cursor n (put_schedule n s2)))\<lparr>next_due_at := due\<rparr>) (snd (get_or_create_cursor n (put_schedule n s2)))) = Inr s'"
      using assms(2) r False
      by (simp add: approve_schedule_def split_beta Let_def res_simps s1_def[symmetric] now_def[symmetric] n_def[symmetric])
        (elim exE conjE, intro exI conjI, assumption+)
    then obtain s2 data due where c: "sc_status r = ''draft''" "fold_res (supersede r (sd_actor_id d) now) ?xs s1 = Inr s2"
      "record_schedule n ''scheduler.schedule.approved'' now data
         (put_cursor ((fst (get_or_create_cursor n (put_schedule n s2)))\<lparr>next_due_at := due\<rparr>) (snd (get_or_create_cursor n (put_schedule n s2)))) = Inr s'"
      by (elim exE conjE)
    have a1: "advances s s1" by (rule quiet_advances[OF assms(1) s1(1)])
    have dist: "distinct (map schedule_id ?xs)" using store_okD(8)[OF assms(1)] by (simp add: distinct_map_filter)
    have "x \<in> set (schedules s1) \<and> sc_status x = ''active''" if "x \<in> set ?xs" for x using that s1(2) by simp
    from supersede_fold[OF c(2) advances_ok[OF a1] dist this] have s2:
      "schedules s2 = map (\<lambda>y. if schedule_id y \<in> schedule_id ` set ?xs then supersede_row r (sd_actor_id d) now y else y) (schedules s)"
      unfolding s1(2) by blast
    have q: "quiet (put_cursor ((fst (get_or_create_cursor n (put_schedule n s2)))\<lparr>next_due_at := due\<rparr>)
        (snd (get_or_create_cursor n (put_schedule n s2)))) s'" by (rule record_schedule_quiet[OF c(3)]) simp
    have "occurrences s' = occurrences s" using quiet_get(1)[OF q] supersede_occurrences[OF c(2)] s1(3) by simp
    moreover have "schedules s' = put schedule_id n (schedules s2)"
      using quiet_get(2)[OF q] by (auto simp: put_cursor_def get_or_create_cursor_def put_schedule_def Let_def split: option.splits)
    note s' = this
    have "\<exists>x' \<in> set (schedules s'). schedule_id x' = schedule_id x \<and> schedule_moves (sc_status x) (sc_status x')"
      if x: "x \<in> set (schedules s)" for x
    proof (cases "schedule_id x = schedule_id r")
      case True
      then have xr: "x = r" using x rs by (intro schedule_rows_inj[OF assms(1)]) simp_all
      have "r \<in> set (schedules s2)" using rs by (auto simp: s2)
      then have "n \<in> set (schedules s')" by (auto simp: s' put_def n_def activate_row_def image_iff intro!: bexI[of _ r])
      then show ?thesis by (rule bexI[rotated]) (simp add: xr c(1) n_def activate_row_def schedule_moves_def)
    next
      case False
      let ?y = "if schedule_id x \<in> schedule_id ` set ?xs then supersede_row r (sd_actor_id d) now x else x"
      have "?y \<in> set (schedules s2)" using x unfolding s2 set_map by (rule imageI)
      moreover have "schedule_id ?y \<noteq> schedule_id n" using False by (simp add: n_def activate_row_def)
      ultimately have "?y \<in> set (schedules s')" by (auto simp: s' put_def image_iff intro!: bexI[of _ ?y])
      moreover have "schedule_moves (sc_status x) (sc_status ?y)"
      proof (cases "schedule_id x \<in> schedule_id ` set ?xs")
        case True
        then obtain z where z: "z \<in> set ?xs" "schedule_id x = schedule_id z" by blast
        then have "x = z" using x by (intro schedule_rows_inj[OF assms(1)]) simp_all
        with z(1) True show ?thesis by (simp add: schedule_moves_def supersede_row_def)
      next
        case False
        then show ?thesis by (simp add: schedule_moves_def)
      qed
      ultimately show ?thesis by (intro bexI[of _ ?y]) simp_all
    qed
    ultimately show ?thesis by (simp add: statuses_move_def)
  qed
qed

lemma disable_schedule_effect:
  assumes "store_ok s" "disable_schedule tenant sid d s = Inr (r', s')"
  shows "occurrences s' = occurrences s \<and> statuses_move s s'"
proof -
  define s1 where "s1 = snd (utc_now s)"
  have s1: "schedules s1 = schedules s" "occurrences s1 = occurrences s" by (simp_all add: s1_def)
  from assms(2) obtain r where r: "get_schedule tenant sid s = Some r" by (auto simp: disable_schedule_def split_beta split: option.splits)
  note rs = get_schedule_Some[OF r]
  show ?thesis
  proof (cases "sc_status r = ''disabled''")
    case True
    with r assms(2) have "s' = s1" by (simp add: disable_schedule_def split_beta s1_def)
    with s1 show ?thesis by (simp add: statuses_move_same)
  next
    case False
    define now where "now = fst (utc_now s)"
    define n where "n = r\<lparr>sc_status := ''disabled'', sc_disabled_at := Some now, sc_disabled_by := Some (sd_actor_id d),
      sc_disable_reason := Some (sd_reason d)\<rparr>"
    from assms(2) r False obtain data where c: "sc_status r = ''draft'' \<or> sc_status r = ''active''"
      "record_schedule n ''scheduler.schedule.disabled'' now data
         (case row cu_schedule (schedule_id r) (cursors (put_schedule n s1)) of None \<Rightarrow> put_schedule n s1
          | Some c \<Rightarrow> put_cursor (c\<lparr>cu_lease_owner := None, cu_lease_expires_at := None, next_due_at := None\<rparr>) (put_schedule n s1)) = Inr s'"
      by (auto simp: disable_schedule_def split_beta Let_def res_simps s1_def[symmetric] now_def[symmetric] n_def[symmetric])
    have q: "quiet (case row cu_schedule (schedule_id r) (cursors (put_schedule n s1)) of None \<Rightarrow> put_schedule n s1
          | Some c \<Rightarrow> put_cursor (c\<lparr>cu_lease_owner := None, cu_lease_expires_at := None, next_due_at := None\<rparr>) (put_schedule n s1)) s'"
      by (rule record_schedule_quiet[OF c(2)]) simp
    have s': "occurrences s' = occurrences s" "schedules s' = put schedule_id n (schedules s)"
      using quiet_get(1,2)[OF q] s1 by (auto simp: put_cursor_def put_schedule_def split: option.splits)
    have "\<exists>x' \<in> set (schedules s'). schedule_id x' = schedule_id x \<and> schedule_moves (sc_status x) (sc_status x')"
      if x: "x \<in> set (schedules s)" for x
    proof (cases "schedule_id x = schedule_id r")
      case True
      then have xr: "x = r" using x rs by (intro schedule_rows_inj[OF assms(1)]) simp_all
      have "n \<in> set (schedules s')" using rs by (auto simp: s'(2) put_def n_def image_iff intro!: bexI[of _ r])
      then show ?thesis by (rule bexI[rotated]) (use c(1) in \<open>auto simp: xr n_def schedule_moves_def\<close>)
    next
      case False
      then have "x \<in> set (schedules s')" using x by (auto simp: s'(2) put_def n_def image_iff intro!: bexI[of _ x])
      then show ?thesis by (rule bexI[rotated]) (simp add: schedule_moves_def)
    qed
    with s'(1) show ?thesis by (simp add: statuses_move_def)
  qed
qed

lemma create_draft_schedules: "create_draft env tenant d s = Inr (r, s') \<Longrightarrow> set (schedules s) \<subseteq> set (schedules s')"
proof -
  assume a: "create_draft env tenant d s = Inr (r, s')"
  then obtain now s3 where c: "add_schedule r (snd (new_id ''sch'' (snd (utc_now s)))) = Inr s3"
    "record_schedule r ''scheduler.schedule.draft_created'' now [] s3 = Inr s'"
    by (auto simp: create_draft_def split_beta Let_def res_simps)
  have "quiet s3 s'" using c(2) by (rule record_schedule_quiet) simp
  from quiet_get(2)[OF this] c(1) show ?thesis
    by (auto simp: add_schedule_def res_simps new_id_def draw_uuid_def utc_now_def)
qed

lemma revise_schedules: "revise env tenant sid d s = Inr (r, s') \<Longrightarrow> set (schedules s) \<subseteq> set (schedules s')"
  by (auto simp: revise_def split: option.splits dest!: create_draft_schedules)

section \<open>Decisions\<close>

text \<open>An approval or a cancellation writes its actor into the one occurrence it names.\<close>

definition decides :: "ident \<Rightarrow> ident \<Rightarrow> sched_store \<Rightarrow> sched_store \<Rightarrow> bool" where
  "decides oid actor s s' \<longleftrightarrow> (\<forall>oc \<in> set (occurrences s). \<exists>oc' \<in> set (occurrences s'). occurrence_id oc' = occurrence_id oc \<and>
     (decision_by oc' = decision_by oc \<or> occurrence_id oc = oid \<and> decision_by oc' = Some actor))"

lemma keeps_verdicts_decides:
  assumes "keeps_verdicts s s'" "oc \<in> set (occurrences s)"
  shows "\<exists>oc' \<in> set (occurrences s'). occurrence_id oc' = occurrence_id oc \<and> decision_by oc' = decision_by oc"
proof -
  have "(occurrence_id oc, decision_by oc) \<in> set (verdicts s)" using assms(2) by (auto simp: verdicts_def)
  with assms(1) have "(occurrence_id oc, decision_by oc) \<in> set (verdicts s')" by (auto simp: keeps_verdicts_def)
  then show ?thesis by (auto simp: verdicts_def)
qed

lemma put_decides:
  assumes "get_occurrence tenant oid s = Some oc" "occurrence_id oc' = oid" "decision_by oc' = Some actor"
    "record_occurrence oc' etype data (put_occurrence oc' s) = Inr s'" "scheduler_event etype"
  shows "decides oid actor s s'"
proof -
  have s': "occurrences s' = put occurrence_id oc' (occurrences s)"
    using recorded_occurrences[OF assms(4,5)] by (simp add: put_occurrence_def)
  have "\<exists>y \<in> set (occurrences s'). occurrence_id y = occurrence_id x \<and>
      (decision_by y = decision_by x \<or> occurrence_id x = oid \<and> decision_by y = Some actor)" if x: "x \<in> set (occurrences s)" for x
  proof -
    let ?y = "if occurrence_id x = occurrence_id oc' then oc' else x"
    have "?y \<in> set (occurrences s')" using x by (auto simp: s' put_def image_iff intro!: bexI[of _ x])
    then show ?thesis by (rule bexI[rotated]) (use assms(2,3) in auto)
  qed
  then show ?thesis by (simp add: decides_def)
qed

lemma approve_transaction_decides:
  assumes "approve_transaction tenant oid d s = Inr (r, s')"
  shows "decides oid (od_actor_id d) s s'"
proof (cases "s' = s")
  case True
  then show ?thesis by (auto simp: decides_def)
next
  case False
  from assms obtain oc where oc: "get_occurrence tenant oid s = Some oc" by (auto simp: approve_transaction_def split: option.splits)
  let ?oc = "oc\<lparr>decision_by := Some (od_actor_id d), decision_reason := Some (od_reason d)\<rparr>"
  have "record_occurrence ?oc ''scheduler.occurrence.approved'' [(''actor_id'', PStr (od_actor_id d))] (put_occurrence ?oc s) = Inr s'"
    using assms oc False by (auto simp: approve_transaction_def Let_def res_simps split: if_splits)
  from put_decides[OF oc _ _ this] show ?thesis using get_occurrence_Some[OF oc] by simp
qed

lemma cancel_decides:
  assumes "cancel_occurrence tenant oid d s = Inr (r, s')"
  shows "decides oid (od_actor_id d) s s'"
proof -
  from assms obtain oc where oc: "get_occurrence tenant oid s = Some oc" by (auto simp: cancel_occurrence_def split: option.splits)
  let ?oc = "oc\<lparr>oc_status := O_CANCELLED, decision_by := Some (od_actor_id d), decision_reason := Some (od_reason d)\<rparr>"
  have "record_occurrence ?oc ''scheduler.occurrence.cancelled'' [(''actor_id'', PStr (od_actor_id d))] (put_occurrence ?oc s) = Inr s'"
    using assms oc by (auto simp: cancel_occurrence_def Let_def res_simps split: if_splits)
  from put_decides[OF oc _ _ this] show ?thesis using get_occurrence_Some[OF oc] by simp
qed

lemma sched_step_decisions:
  assumes "sys_ok y" "sched_step env a y = Inr y'" "oc \<in> set (occurrences (sy_store y))"
  shows "\<exists>oc' \<in> set (occurrences (sy_store y')). occurrence_id oc' = occurrence_id oc \<and>
    (decision_by oc' = decision_by oc \<or> (\<exists>tenant d. a \<in> {ApproveOccurrence tenant (occurrence_id oc) d, CancelOccurrence tenant (occurrence_id oc) d} \<and>
       decision_by oc' = Some (od_actor_id d)))"
proof (cases "(\<exists>tenant oid d. a = ApproveOccurrence tenant oid d) \<or> (\<exists>tenant oid d. a = CancelOccurrence tenant oid d)")
  case True
  then show ?thesis
  proof (elim disjE exE)
    fix tenant oid d assume a: "a = ApproveOccurrence tenant oid d"
    with assms(2) obtain r where "approve_transaction tenant oid d (sy_store y) = Inr (r, sy_store y')"
      by (auto simp: res_simps split: if_splits)
    from approve_transaction_decides[OF this] assms(3) obtain oc' where "oc' \<in> set (occurrences (sy_store y'))"
      "occurrence_id oc' = occurrence_id oc"
      "decision_by oc' = decision_by oc \<or> occurrence_id oc = oid \<and> decision_by oc' = Some (od_actor_id d)"
      unfolding decides_def by blast
    with a show ?thesis by (intro bexI[of _ oc']) auto
  next
    fix tenant oid d assume a: "a = CancelOccurrence tenant oid d"
    with assms(2) obtain r where "cancel_occurrence tenant oid d (sy_store y) = Inr (r, sy_store y')"
      by (auto simp: put_store_def res_simps split: if_splits)
    from cancel_decides[OF this] assms(3) obtain oc' where "oc' \<in> set (occurrences (sy_store y'))"
      "occurrence_id oc' = occurrence_id oc"
      "decision_by oc' = decision_by oc \<or> occurrence_id oc = oid \<and> decision_by oc' = Some (od_actor_id d)"
      unfolding decides_def by blast
    with a show ?thesis by (intro bexI[of _ oc']) auto
  qed
next
  case False
  have ok: "store_ok (sy_store y)" using assms(1) by (simp add: sys_ok_def)
  have "keeps_verdicts (sy_store y) (sy_store y')"
  proof (cases a)
    case (Advance n)
    obtain tenant j where nth: "sy_jobs y ! n = (tenant, j)" by fastforce
    obtain r s' where js: "job_step env tenant j (sy_store y) = (r, s')" by fastforce
    from Advance assms(2) nth js have "sy_store y' = s'" by (auto split: if_splits)
    with job_step_verdicts[OF ok js] show ?thesis by simp
  next
    case (Materialize tenant sid now worker secs)
    with assms(2) obtain m where "materialize_due_occurrences env tenant sid now worker secs (sy_store y) = Inr (m, sy_store y')"
      by (auto simp: put_store_def res_simps)
    then show ?thesis by (rule materialize_verdicts)
  next
    case (Orchestrate b)
    with assms(2) have "occurrences (sy_store y') = occurrences (sy_store y)"
      by (auto simp: put_store_def res_simps dest!: on_orchestrator_occurrences)
    then show ?thesis by (rule keeps_verdicts_same)
  next
    case CreateDraft
    with assms(2) show ?thesis
      by (intro keeps_verdicts_same) (auto simp: put_store_def res_simps split: if_splits dest!: create_draft_occurrences)
  next
    case ReviseSchedule
    with assms(2) show ?thesis
      by (intro keeps_verdicts_same) (auto simp: put_store_def res_simps split: if_splits dest!: revise_occurrences)
  next
    case ApproveSchedule
    with assms(2) show ?thesis
      by (intro keeps_verdicts_same) (auto simp: put_store_def res_simps split: if_splits dest: approve_schedule_effect[OF ok])
  next
    case DisableSchedule
    with assms(2) show ?thesis
      by (intro keeps_verdicts_same) (auto simp: put_store_def res_simps split: if_splits dest: disable_schedule_effect[OF ok])
  qed (use False assms(2) in \<open>auto intro!: keeps_verdicts_same split: if_splits\<close>)
  from keeps_verdicts_decides[OF this assms(3)] show ?thesis by blast
qed

lemma materialize_schedules:
  assumes "store_ok s" "materialize_due_occurrences env tenant sid now worker secs s = Inr (m, s')"
  shows "schedules s' = schedules s"
  using assms(2)
proof (cases rule: materialize_cases)
  case (early r c s1 due)
  from early(2) obtain cs where "s1 = s\<lparr>cursors := cs\<rparr>" by (rule acquire_effect)
  with early(4) show ?thesis by (simp add: release_cursor_def put_cursor_def)
next
  case (evaluated r c s1 dues s2 due)
  from evaluated(2) obtain cs where s1: "s1 = s\<lparr>cursors := cs\<rparr>" by (rule acquire_effect)
  have a: "advances s s1" using cursor_advances[OF assms(1)] by (simp add: s1)
  have "r \<in> set (schedules s1)" using get_schedule_Some[OF evaluated(1)] by (simp add: s1)
  from materialize_fold[OF evaluated(5) advances_ok[OF a] this] have "same_tables s1 s2" by simp
  with evaluated(6) show ?thesis by (simp add: same_tables_def s1 release_cursor_def put_cursor_def)
qed simp

lemma sched_step_statuses:
  assumes "sys_ok y" "sched_step env a y = Inr y'"
  shows "statuses_move (sy_store y) (sy_store y')"
proof -
  have ok: "store_ok (sy_store y)" using assms(1) by (simp add: sys_ok_def)
  have kept: "statuses_move (sy_store y) (sy_store y')" if "schedules (sy_store y') = schedules (sy_store y)"
    by (rule statuses_move_same) (simp add: that)
  show ?thesis
  proof (cases a)
    case CreateDraft
    with assms(2) show ?thesis
      by (intro statuses_move_same) (fastforce simp: put_store_def res_simps split: if_splits dest: create_draft_schedules)
  next
    case ReviseSchedule
    with assms(2) show ?thesis
      by (intro statuses_move_same) (fastforce simp: put_store_def res_simps split: if_splits dest: revise_schedules)
  next
    case ApproveSchedule
    with assms(2) show ?thesis by (auto simp: put_store_def res_simps split: if_splits dest: approve_schedule_effect[OF ok])
  next
    case DisableSchedule
    with assms(2) show ?thesis by (auto simp: put_store_def res_simps split: if_splits dest: disable_schedule_effect[OF ok])
  next
    case (Materialize tenant sid now worker secs)
    with assms(2) show ?thesis by (intro kept) (auto simp: put_store_def res_simps dest: materialize_schedules[OF ok])
  next
    case ApproveOccurrence
    with assms(2) show ?thesis
      by (intro kept) (auto simp: approve_transaction_def Let_def res_simps same_tables_def split: option.splits if_splits
          dest!: put_recorded_tables)
  next
    case CancelOccurrence
    with assms(2) show ?thesis
      by (intro kept) (auto simp: put_store_def cancel_occurrence_def Let_def res_simps same_tables_def split: option.splits if_splits
          dest!: put_recorded_tables)
  next
    case (Advance n)
    obtain tenant j where nth: "sy_jobs y ! n = (tenant, j)" by fastforce
    obtain r s' where js: "job_step env tenant j (sy_store y) = (r, s')" by fastforce
    from Advance assms(2) nth js have n: "n < length (sy_jobs y)" "sy_store y' = s'" by (auto split: if_splits)
    from advance_ok(3)[OF assms(1) n(1) nth js] n(2) show ?thesis by (intro kept) (simp add: same_tables_def)
  next
    case (Orchestrate b)
    let ?f = "\<lambda>t. bind_res (orch_step b t) (\<lambda>t'. Inr ((), t'))"
    from Orchestrate assms(2) obtain x where "on_orchestrator ?f (sy_store y) = Inr (x, sy_store y')"
      by (auto simp: put_store_def res_simps)
    then show ?thesis by (intro kept) (rule more_fields(4)[OF on_orchestrator_Inr(2)])
  qed (use assms(2) in \<open>auto intro!: statuses_move_same split: if_splits\<close>)
qed

end
