(* ===== verification/Sched_Props.thy ===== *)
theory Sched_Props
  imports Sched_Demo Sched_History
begin

text \<open>
  Properties of the scheduler: what the selection, the preflight and the simulation compute, what
  holds in every reachable state of the interleaved machine (occurrences, schedules, launches, due
  points), and where launches and evaluations go wrong.
\<close>

section \<open>Due points\<close>

text \<open>
  What is relied on of \<open>dateutil\<close>: the due points of a rule are a set of wall times, and \<open>between\<close>
  returns those in the interval. Nothing is assumed of the zones. A wall time is regular in a zone
  when the local clock passes it once: it is before it exactly until the instant it stands for. In a
  zone with daylight saving time the wall times of the repeated hour and of the skipped hour are
  not regular, and the code, which compares wall times, may see them late or early; the due points
  of a schedule are those that are regular in its zone.
\<close>

definition rrule_lists :: "sched_env \<Rightarrow> (string \<Rightarrow> local_time \<Rightarrow> local_time set) \<Rightarrow> bool" where
  "rrule_lists env dues \<longleftrightarrow> (\<forall>rule from a b vs. rrule_between env rule from a b = Inr vs \<longrightarrow>
     (\<forall>v \<in> dues rule from. wall a < wall v \<longrightarrow> wall v \<le> wall b \<longrightarrow> v \<in> set vs))"

definition regular_point :: "sched_env \<Rightarrow> string \<Rightarrow> local_time \<Rightarrow> bool" where
  "regular_point env tz v \<longleftrightarrow> (\<forall>t. wall (local_of env tz t) < wall v \<longleftrightarrow> t < instant_of env tz v)"

definition due_points :: "sched_env \<Rightarrow> (string \<Rightarrow> local_time \<Rightarrow> local_time set) \<Rightarrow> schedule_row \<Rightarrow> time set" where
  "due_points env dues r =
     instant_of env (sc_timezone r) ` {v \<in> dues (normalize_rule (recurrence_rule r)) (local_of env (sc_timezone r) (effective_from r)).
       regular_point env (sc_timezone r) v}"

text \<open>In a zone at a fixed distance from UTC every wall time is regular.\<close>

lemma fixed_offset_regular:
  assumes "\<And>t. local_of env tz t = utc_of (t + offset)" "\<And>v. instant_of env tz v = of_utc v - offset"
    and "0 \<le> fst (lt_clock v)" "fst (lt_clock v) < 86400"
  shows "regular_point env tz v"
  unfolding regular_point_def assms(1,2) utc_order[OF assms(3,4)] by (simp add: algebra_simps)

text \<open>Where the clock repeats an hour, its first passage is not regular: the clock is before it again.\<close>

lemma repeated_not_regular:
  assumes "instant_of env tz v \<le> t" "wall (local_of env tz t) < wall v"
  shows "\<not> regular_point env tz v"
  using assms unfolding regular_point_def by (metis not_less)

definition in_force :: "schedule_row \<Rightarrow> time \<Rightarrow> bool" where
  "in_force r d \<longleftrightarrow> effective_from r \<le> d \<and> (\<forall>u. effective_until r = Some u \<longrightarrow> d \<le> u)"

definition evaluated_to :: "sched_store \<Rightarrow> schedule_row \<Rightarrow> time \<Rightarrow> bool" where
  "evaluated_to s r t \<longleftrightarrow> (\<exists>c \<in> set (cursors s). cu_schedule c = schedule_id r \<and> last_evaluated_at c = Some t)"

definition covered :: "sched_env \<Rightarrow> (string \<Rightarrow> local_time \<Rightarrow> local_time set) \<Rightarrow> sched_store \<Rightarrow> bool" where
  "covered env dues s \<longleftrightarrow>
     (\<forall>c \<in> set (cursors s). last_evaluated_at c \<noteq> None \<longrightarrow> (\<exists>r \<in> set (schedules s). schedule_id r = cu_schedule c)) \<and>
     (\<forall>r \<in> set (schedules s). \<forall>t d. evaluated_to s r t \<longrightarrow> d \<in> due_points env dues r \<longrightarrow> in_force r d \<longrightarrow> d \<le> t \<longrightarrow>
        due_occurrence (sc_tenant r) (schedule_id r) d s)"

lemma occurrences_between_lists:
  assumes "rrule_lists env dues" "regular_point env tz v" "v \<in> dues (normalize_rule rule) (local_of env tz from)"
    "occurrences_between env rule tz from a b n = Inr ds" "a < instant_of env tz v" "instant_of env tz v \<le> b"
  shows "instant_of env tz v \<in> set ds"
proof -
  obtain vs where vs: "rrule_between env (normalize_rule rule) (local_of env tz from) (local_of env tz a) (local_of env tz b) = Inr vs"
    "ds = map (instant_of env tz) (filter (\<lambda>v. wall (local_of env tz a) < wall v) vs)"
    using assms(4) by (auto simp: occurrences_between_def recurrence_refused_def res_simps Let_def split: sum.splits if_splits)
  have zone: "wall (local_of env tz t) < wall v \<longleftrightarrow> t < instant_of env tz v" for t
    using assms(2) unfolding regular_point_def by blast
  have a: "wall (local_of env tz a) < wall v" using zone assms(5) by simp
  have b: "wall v \<le> wall (local_of env tz b)" using zone[of b] assms(6) by (simp add: not_less[symmetric])
  have "v \<in> set vs" using assms(1) vs(1) assms(3) a b unfolding rrule_lists_def by blast
  with a show ?thesis by (auto simp: vs(2))
qed

lemma due_points_same: "same_schedule r r' \<Longrightarrow> due_points env dues r' = due_points env dues r \<and> in_force r' d = in_force r d"
  by (simp add: due_points_def in_force_def same_scheduleD)

lemma covered_marks:
  assumes "covered env dues s" "store_ok s'" "grows s s'" "same_marks s s'"
  shows "covered env dues s'"
  unfolding covered_def
proof (intro conjI ballI allI impI)
  fix c assume c: "c \<in> set (cursors s')" "last_evaluated_at c \<noteq> None"
  with assms(4) obtain b where "b \<in> set (cursors s)" "cu_schedule b = cu_schedule c" "last_evaluated_at b \<noteq> None"
    unfolding same_marks_def by metis
  with assms(1) obtain r where "r \<in> set (schedules s)" "schedule_id r = cu_schedule c" unfolding covered_def by metis
  moreover from this assms(3) obtain r' where r': "r' \<in> set (schedules s')" "schedule_follows r r'" by (auto simp: grows_def)
  moreover have "schedule_id r' = schedule_id r" using r'(2) by (simp add: schedule_follows_def same_scheduleD(1))
  ultimately show "\<exists>r \<in> set (schedules s'). schedule_id r = cu_schedule c" by (metis (full_types))
next
  fix r' t d assume r': "r' \<in> set (schedules s')" "evaluated_to s' r' t" "d \<in> due_points env dues r'" "in_force r' d" "d \<le> t"
  then obtain c where c: "c \<in> set (cursors s)" "cu_schedule c = schedule_id r'" "last_evaluated_at c = Some t"
    using assms(4) unfolding evaluated_to_def same_marks_def by (metis option.distinct(1))
  with assms(1) obtain r where r: "r \<in> set (schedules s)" "schedule_id r = schedule_id r'" unfolding covered_def by (metis option.distinct(1))
  with assms(3) obtain x where x: "x \<in> set (schedules s')" "schedule_follows r x" by (auto simp: grows_def)
  have same: "same_schedule r x" using x(2) by (simp add: schedule_follows_def)
  have "x = r'" by (rule schedule_rows_inj[OF assms(2) x(1) r'(1)]) (simp add: same_scheduleD(1)[OF same] r(2))
  with same have same: "same_schedule r r'" by simp
  have "evaluated_to s r t" using c r(2) by (auto simp: evaluated_to_def)
  with assms(1) r r' due_points_same[OF same] have "due_occurrence (sc_tenant r) (schedule_id r) d s" unfolding covered_def by blast
  then show "due_occurrence (sc_tenant r') (schedule_id r') d s'"
    using due_occurrence_grows[OF assms(3)] same_scheduleD(1,2)[OF same] by simp
qed

lemma acquire_marks:
  assumes "acquire_cursor_lease r worker now secs s = (c, s')"
  shows "same_marks s s'" "c = Some k \<Longrightarrow> k \<in> set (cursors s') \<and> cu_schedule k = schedule_id r"
proof -
  obtain k0 s1 where g: "get_or_create_cursor r s = (k0, s1)" by fastforce
  have k0: "k0 \<in> set (cursors s1)" "cu_schedule k0 = schedule_id r" "same_marks s s1"
    using g by (auto simp: get_or_create_cursor_def Let_def same_marks_def split: option.splits dest: row_Some)
  define k1 where "k1 = k0\<lparr>cu_lease_owner := Some worker, cu_lease_expires_at := Some (now + of_int secs)\<rparr>"
  have cases: "c = None \<and> s' = s1 \<or> c = Some k1 \<and> s' = put_cursor k1 s1"
    using assms g by (auto simp: acquire_cursor_lease_def Let_def k1_def split: if_splits)
  have put: "same_marks s1 (put_cursor k1 s1)" by (rule same_marks_put[OF k0(1)]) (simp_all add: k1_def put_cursor_def)
  then have "same_marks s (put_cursor k1 s1)" using k0(3) unfolding same_marks_def by metis
  with cases k0(3) show "same_marks s s'" by auto
  assume "c = Some k"
  with cases have k: "k = k1" "s' = put_cursor k1 s1" by auto
  have "k1 \<in> set (put cu_schedule k1 (cursors s1))" using k0(1) by (auto simp: put_def k1_def image_iff intro!: bexI[of _ k0])
  then show "k \<in> set (cursors s') \<and> cu_schedule k = schedule_id r" using k0(2) by (simp add: k put_cursor_def k1_def)
qed

lemma covered_released:
  assumes cov: "covered env dues s" and ok: "store_ok s'" and gr: "grows s s1" and marks: "same_marks s s1"
    and s': "s' = release_cursor c now due s1" and c: "cu_schedule c = schedule_id r" and r: "r \<in> set (schedules s1)"
    and new: "\<And>d. d \<in> due_points env dues r \<Longrightarrow> in_force r d \<Longrightarrow> d \<le> now \<Longrightarrow> due_occurrence (sc_tenant r) (schedule_id r) d s1"
  shows "covered env dues s'"
proof -
  have t: "schedules s' = schedules s1" "occurrences s' = occurrences s1" by (simp_all add: s' release_cursor_def put_cursor_def)
  have ok1: "store_ok s1"
    using ok by (simp add: store_ok_def occurrences_ok_def occurrence_ok_def cleared_def preflight_passed_def owner_schedule_def engaged_def
        orch_part_def orch_store.truncate_def s' release_cursor_def put_cursor_def)
  have cov1: "covered env dues s1" by (rule covered_marks[OF cov ok1 gr marks])
  have cur: "k \<in> set (cursors s') \<Longrightarrow> cu_schedule k = schedule_id r \<and> last_evaluated_at k = Some now \<or> k \<in> set (cursors s1) \<and> cu_schedule k \<noteq> schedule_id r" for k
    using c by (auto simp: s' release_cursor_def put_cursor_def put_def split: if_splits)
  show ?thesis
    unfolding covered_def
  proof (intro conjI ballI allI impI)
    fix k assume "k \<in> set (cursors s')" "last_evaluated_at k \<noteq> None"
    with cur[of k] cov1 r show "\<exists>r \<in> set (schedules s'). schedule_id r = cu_schedule k" unfolding covered_def t by metis
  next
    fix x u d assume x: "x \<in> set (schedules s')" "evaluated_to s' x u" "d \<in> due_points env dues x" "in_force x d" "d \<le> u"
    have "due_occurrence (sc_tenant x) (schedule_id x) d s1"
    proof (cases "schedule_id x = schedule_id r")
      case True
      have "x = r" by (rule schedule_rows_inj[OF ok1 _ r True]) (use x(1) t in simp)
      moreover from x(2) obtain k where k: "k \<in> set (cursors s')" "cu_schedule k = schedule_id x" "last_evaluated_at k = Some u"
        by (auto simp: evaluated_to_def)
      then have "u = now" using cur[OF k(1)] True by auto
      ultimately show ?thesis using new x(3-5) by simp
    next
      case False
      from x(2) obtain k where k: "k \<in> set (cursors s')" "cu_schedule k = schedule_id x" "last_evaluated_at k = Some u"
        by (auto simp: evaluated_to_def)
      then have "evaluated_to s1 x u" using cur[OF k(1)] False by (auto simp: evaluated_to_def)
      with cov1 x t show ?thesis unfolding covered_def by auto
    qed
    then show "due_occurrence (sc_tenant x) (schedule_id x) d s'" by (simp add: due_occurrence_def t)
  qed
qed

lemma covered_before:
  assumes "covered env dues s" "same_marks s s1" "c \<in> set (cursors s1)" "cu_schedule c = schedule_id r" "r \<in> set (schedules s)"
    "d \<in> due_points env dues r" "in_force r d" "d \<le> evaluation_start r c"
  shows "due_occurrence (sc_tenant r) (schedule_id r) d s"
proof (cases "last_evaluated_at c")
  case None
  with assms(7,8) show ?thesis by (simp add: evaluation_start_def in_force_def)
next
  case (Some t)
  with assms(2-4) have "evaluated_to s r t" unfolding same_marks_def evaluated_to_def by (metis option.distinct(1))
  with assms(1,5-8) Some show ?thesis unfolding covered_def by (auto simp: evaluation_start_def)
qed

lemma evaluation_end_in_force: "in_force r d \<Longrightarrow> d \<le> now \<Longrightarrow> d \<le> evaluation_end r now"
  by (auto simp: in_force_def evaluation_end_def split: option.splits)

lemma materialize_covered:
  assumes "rrule_lists env dues" "store_ok s" "covered env dues s"
    "materialize_due_occurrences env tenant sid now worker secs s = Inr (m, s')"
  shows "covered env dues s'"
proof -
  have adv: "advances s s'" by (rule materialize_advances[OF assms(2,4)])
  show ?thesis
    using assms(4)
  proof (cases rule: materialize_cases)
    case (held r cs)
    show ?thesis
      using covered_marks[OF assms(3) advances_ok[OF adv]] acquire_marks(1)[OF held(2)] adv by (simp add: advances_def)
  next
    case (early r c s1 due)
    note rs = get_schedule_Some[OF early(1)]
    note marks = acquire_marks[OF early(2)]
    obtain cs where s1: "s1 = s\<lparr>cursors := cs\<rparr>" using early(2) by (rule acquire_effect)
    have g1: "grows s s1" using cursor_advances[OF assms(2)] by (simp add: s1 advances_def)
    show ?thesis
    proof (rule covered_released[OF assms(3) advances_ok[OF adv] g1 marks(1) early(4)])
      show "cu_schedule c = schedule_id r" "r \<in> set (schedules s1)" using marks(2) rs by (simp_all add: s1)
      fix d assume d: "d \<in> due_points env dues r" "in_force r d" "d \<le> now"
      then have "d \<le> evaluation_start r c" using evaluation_end_in_force[OF d(2,3)] early(3) by simp
      then have "due_occurrence (sc_tenant r) (schedule_id r) d s"
        using covered_before[OF assms(3) marks(1)] marks(2) rs d(1,2) by blast
      then show "due_occurrence (sc_tenant r) (schedule_id r) d s1" by (rule due_occurrence_grows[OF g1])
    qed
  next
    case (evaluated r c s1 ds s2 due)
    note rs = get_schedule_Some[OF evaluated(1)]
    note marks = acquire_marks[OF evaluated(2)]
    obtain cs where s1: "s1 = s\<lparr>cursors := cs\<rparr>" using evaluated(2) by (rule acquire_effect)
    have a1: "advances s s1" using cursor_advances[OF assms(2)] by (simp add: s1)
    have r1: "r \<in> set (schedules s1)" using rs by (simp add: s1)
    from materialize_fold[OF evaluated(5) advances_ok[OF a1] r1]
    have fold: "advances s1 s2" "same_tables s1 s2"
      "\<forall>d \<in> set (snd (select_missed r ds) @ fst (select_missed r ds)). due_occurrence (sc_tenant r) (schedule_id r) d s2" by blast+
    have g2: "grows s s2" using advances_trans[OF a1 fold(1)] by (simp add: advances_def)
    have m2: "same_marks s s2" using marks(1) fold(2) by (simp add: same_marks_def same_tables_def)
    show ?thesis
    proof (rule covered_released[OF assms(3) advances_ok[OF adv] g2 m2 evaluated(6)])
      show "cu_schedule c = schedule_id r" "r \<in> set (schedules s2)" using marks(2) r1 fold(2) by (simp_all add: same_tables_def)
      fix d assume d: "d \<in> due_points env dues r" "in_force r d" "d \<le> now"
      show "due_occurrence (sc_tenant r) (schedule_id r) d s2"
      proof (cases "d \<le> evaluation_start r c")
        case True
        then have "due_occurrence (sc_tenant r) (schedule_id r) d s"
          using covered_before[OF assms(3) marks(1)] marks(2) rs d(1,2) by blast
        then show ?thesis by (rule due_occurrence_grows[OF g2])
      next
        case False
        from d(1) obtain v where v: "d = instant_of env (sc_timezone r) v"
          "v \<in> dues (normalize_rule (recurrence_rule r)) (local_of env (sc_timezone r) (effective_from r))"
          "regular_point env (sc_timezone r) v"
          by (auto simp: due_points_def)
        have "d \<in> set ds"
          unfolding v(1) by (rule occurrences_between_lists[OF assms(1) v(3,2) evaluated(4)])
            (use False evaluation_end_in_force[OF d(2,3)] v(1) in simp_all)
        then show ?thesis using fold(3) select_missed_set[of r ds] by auto
      qed
    qed
  qed
qed

lemma init_covered: "sched_init y \<Longrightarrow> covered env dues (sy_store y)"
  by (simp add: sched_init_def covered_def)

lemma step_covered:
  assumes "rrule_lists env dues" "sys_ok y" "covered env dues (sy_store y)" "sched_step env a y = Inr y'"
  shows "covered env dues (sy_store y')"
proof (cases "moves_marks a")
  case False
  with sched_step_ok[OF assms(2,4)] have a: "advances (sy_store y) (sy_store y')" "same_marks (sy_store y) (sy_store y')" by blast+
  show ?thesis by (rule covered_marks[OF assms(3) advances_ok[OF a(1)] _ a(2)]) (use a(1) in \<open>simp add: advances_def\<close>)
next
  case True
  then obtain tenant sid now worker secs where "a = Materialize tenant sid now worker secs"
    by (auto simp: moves_marks_def split: sched_op.splits)
  with assms(4) obtain m s' where "materialize_due_occurrences env tenant sid now worker secs (sy_store y) = Inr (m, s')" "sy_store y' = s'"
    by (auto simp: put_store_def res_simps)
  then show ?thesis using materialize_covered[OF assms(1) _ assms(3)] assms(2) by (simp add: sys_ok_def)
qed

lemma reach_covered:
  assumes "rrule_lists env dues" "sched_reach env y"
  shows "covered env dues (sy_store y)"
  using assms(2) unfolding sched_reach_def
proof (induction rule: reach.induct)
  case (reach_init y)
  then show ?case by (rule init_covered)
next
  case (reach_step y a y')
  then have "sys_ok y" using scheduler.reachable_inv by blast
  with reach_step show ?case using step_covered[OF assms(1)] by blast
qed

text \<open>
  C30. No due point is missed, outside the hours that a clock change repeats or skips: in every
  reachable state, for every schedule that has been evaluated up to some instant, each due point of
  its recurrence that is regular in the schedule's zone, lies in its effective period and not after
  that instant has an occurrence of its own, exactly one, whatever evaluations, crashes, approvals
  and changes of other services happened in between. It rests on \<open>dateutil\<close> listing the points of an
  interval of wall times. A point in a repeated or skipped hour is left out, and has to be: the code
  compares wall times, so such a point can stay without its occurrence after an evaluation beyond it.
\<close>

theorem due_points_covered:
  assumes "rrule_lists env dues" "sched_reach env y"
    and "r \<in> set (schedules (sy_store y))" "evaluated_to (sy_store y) r t"
    and "d \<in> due_points env dues r" "in_force r d" "d \<le> t"
  shows "\<exists>!oc. oc \<in> set (occurrences (sy_store y)) \<and> oc_schedule oc = schedule_id r \<and> nominal_due oc = d"
proof -
  have "due_occurrence (sc_tenant r) (schedule_id r) d (sy_store y)"
    using reach_covered[OF assms(1,2)] assms(3-7) unfolding covered_def by blast
  then obtain oc where oc: "oc \<in> set (occurrences (sy_store y))" "oc_schedule oc = schedule_id r" "nominal_due oc = d"
    by (auto simp: due_occurrence_def)
  have "inj_on (\<lambda>oc. (oc_schedule oc, nominal_due oc)) (set (occurrences (sy_store y)))"
    using store_okD(4) reach_sys_ok[OF assms(2)] by (auto simp: sys_ok_def distinct_map)
  from inj_onD[OF this] oc show ?thesis by (intro ex1I[of _ oc]) auto
qed

section \<open>Occurrences, schedules and launches\<close>

text \<open>
  C29. Launches are decided: in every reachable state an occurrence that is launching or launched
  has its engagement, a passed preflight recorded in the ledger for it, and, unless its schedule
  launches automatically, somebody's decision; no launch in flight, crash or retry does without one
  where the launch mode asks for an approval. (A cancellation counts as a decision too: see C36.)
\<close>

theorem launches_cleared:
  assumes "sched_reach env y" "oc \<in> set (occurrences (sy_store y))" "oc_status oc \<in> {O_LAUNCHING, O_LAUNCHED}"
  shows "(\<exists>e \<in> set (engagements (sy_store y)). oc_engagement oc = Some (engagement_id e) \<and> eng_tenant e = oc_tenant oc)
    \<and> preflight_passed (sy_store y) oc
    \<and> (\<exists>r \<in> set (schedules (sy_store y)). schedule_id r = oc_schedule oc \<and> sc_tenant r = oc_tenant oc \<and>
         (sc_launch_mode r = AUTOMATIC \<or> truthy (decision_by oc)))"
proof -
  have "occurrence_ok (sy_store y) oc" using reach_sys_ok[OF assms(1)] store_okD(6) assms(2) by (auto simp: sys_ok_def)
  then show ?thesis
    using assms(3) by (auto simp: occurrence_ok_def engaged_def cleared_def owner_schedule_def)
qed

text \<open>
  C32. Occurrences and schedules are unique: in every reachable state there is at most one occurrence
  per schedule and due time, no engagement belongs to two occurrences, audit periods are ordered,
  the versions of a schedule's name differ, and at most one of them is active.
\<close>

theorem schedules_unambiguous:
  assumes "sched_reach env y"
  shows "distinct (map (\<lambda>oc. (oc_schedule oc, nominal_due oc)) (occurrences (sy_store y)))
    \<and> (\<forall>a \<in> set (occurrences (sy_store y)). \<forall>b \<in> set (occurrences (sy_store y)).
         oc_engagement a \<noteq> None \<longrightarrow> oc_engagement a = oc_engagement b \<longrightarrow> a = b)
    \<and> (\<forall>oc \<in> set (occurrences (sy_store y)). oc_period_start oc \<le> oc_period_end oc)
    \<and> distinct (map (\<lambda>r. (sc_tenant r, sc_name r, sc_version r)) (schedules (sy_store y)))
    \<and> (\<forall>a \<in> set (schedules (sy_store y)). \<forall>b \<in> set (schedules (sy_store y)). sc_status a = ''active'' \<longrightarrow> sc_status b = ''active'' \<longrightarrow>
         sc_tenant a = sc_tenant b \<longrightarrow> sc_name a = sc_name b \<longrightarrow> a = b)"
proof -
  have ok: "store_ok (sy_store y)" using reach_sys_ok[OF assms] by (simp add: sys_ok_def)
  note f = store_okD[OF ok]
  have "inj_on active_name {r \<in> set (schedules (sy_store y)). sc_status r = ''active''}" using f(2) by (simp add: schedules_ok_def)
  moreover have "distinct (map (\<lambda>r. (sc_tenant r, sc_name r, sc_version r)) (schedules (sy_store y)))" using f(2) by (simp add: schedules_ok_def)
  ultimately show ?thesis using f(4,5,6) by (fastforce simp: inj_on_def active_name_def occurrence_ok_def)
qed

text \<open>
  C33. The history of schedules and occurrences: whatever the next transaction is, every schedule row
  keeps its configuration and moves by at most one edge of its life (draft to active or disabled,
  active to superseded or disabled, these two for good), and every occurrence keeps its schedule, due
  time, period and snapshots, the engagement once assigned, and its decision, unless the transaction
  is an approval or a cancellation of this very occurrence: then the decision is the actor of that
  call. Nothing else decides, and nothing takes a decision away; but a second approval, while the
  first is under way, or a cancellation overwrites who decided before.
\<close>

theorem scheduler_history:
  assumes "sched_reach env y" "sched_step env a y = Inr y'"
  shows "(\<forall>r \<in> set (schedules (sy_store y)). \<exists>r' \<in> set (schedules (sy_store y')). same_schedule r r' \<and>
      schedule_moves (sc_status r) (sc_status r'))
    \<and> (\<forall>oc \<in> set (occurrences (sy_store y)). \<exists>oc' \<in> set (occurrences (sy_store y')). same_occurrence oc oc' \<and>
      (oc_engagement oc \<noteq> None \<longrightarrow> oc_engagement oc' = oc_engagement oc) \<and>
      (decision_by oc' = decision_by oc \<or>
       (\<exists>tenant d. a \<in> {ApproveOccurrence tenant (occurrence_id oc) d, CancelOccurrence tenant (occurrence_id oc) d} \<and>
          decision_by oc' = Some (od_actor_id d))))"
proof (intro conjI ballI)
  note sys = reach_sys_ok[OF assms(1)]
  have g: "grows (sy_store y) (sy_store y')" and ok: "store_ok (sy_store y')"
    using sched_step_ok[OF sys assms(2)] by (simp_all add: advances_def)
  {
    fix r assume r: "r \<in> set (schedules (sy_store y))"
    from g r obtain r1 where r1: "r1 \<in> set (schedules (sy_store y'))" "same_schedule r r1"
      by (auto simp: grows_def schedule_follows_def)
    from sched_step_statuses[OF sys assms(2)] r obtain r2 where r2: "r2 \<in> set (schedules (sy_store y'))"
      "schedule_id r2 = schedule_id r" "schedule_moves (sc_status r) (sc_status r2)" unfolding statuses_move_def by blast
    have "r2 = r1" by (rule schedule_rows_inj[OF ok r2(1) r1(1)]) (simp add: r2(2) same_scheduleD(1)[OF r1(2)])
    with r1 r2(3) show "\<exists>r' \<in> set (schedules (sy_store y')). same_schedule r r' \<and> schedule_moves (sc_status r) (sc_status r')" by blast
  }
  fix oc assume oc: "oc \<in> set (occurrences (sy_store y))"
  from g oc obtain oc1 where oc1: "oc1 \<in> set (occurrences (sy_store y'))" "occurrence_follows oc oc1" by (auto simp: grows_def)
  from sched_step_decisions[OF sys assms(2) oc] obtain oc2 where oc2: "oc2 \<in> set (occurrences (sy_store y'))"
    "occurrence_id oc2 = occurrence_id oc"
    "decision_by oc2 = decision_by oc \<or> (\<exists>tenant d. a \<in> {ApproveOccurrence tenant (occurrence_id oc) d, CancelOccurrence tenant (occurrence_id oc) d} \<and>
       decision_by oc2 = Some (od_actor_id d))" by blast
  have "inj_on occurrence_id (set (occurrences (sy_store y')))" using store_okD(3)[OF ok] by (simp add: distinct_map)
  from inj_onD[OF this _ oc2(1) oc1(1)] oc2(2) oc1(2) have "oc2 = oc1" by (simp add: occurrence_follows_def same_occurrence_def)
  with oc2(3) have "decision_by oc1 = decision_by oc \<or>
      (\<exists>tenant d. a \<in> {ApproveOccurrence tenant (occurrence_id oc) d, CancelOccurrence tenant (occurrence_id oc) d} \<and>
         decision_by oc1 = Some (od_actor_id d))" by simp
  moreover have "same_occurrence oc oc1" "oc_engagement oc \<noteq> None \<longrightarrow> oc_engagement oc1 = oc_engagement oc"
    using oc1(2) by (auto simp: occurrence_follows_def)
  ultimately show "\<exists>oc' \<in> set (occurrences (sy_store y')). same_occurrence oc oc' \<and>
      (oc_engagement oc \<noteq> None \<longrightarrow> oc_engagement oc' = oc_engagement oc) \<and>
      (decision_by oc' = decision_by oc \<or>
       (\<exists>tenant d. a \<in> {ApproveOccurrence tenant (occurrence_id oc) d, CancelOccurrence tenant (occurrence_id oc) d} \<and>
          decision_by oc' = Some (od_actor_id d)))"
    by (intro bexI[OF _ oc1(1)] conjI)
qed

text \<open>
  C31. Composition: whatever transaction the scheduler runs, on the orchestrator's tables it is a
  sequence of steps of the orchestrator's contract, so that the orchestrator's invariant, the
  ledger's and the outbox's included, holds in every state the scheduler reaches.
\<close>

theorem scheduler_refines_orchestrator:
  assumes "sched_reach env y" "sched_step env a y = Inr y'"
  shows "ostep\<^sup>*\<^sup>* (orch_part (sy_store y)) (orch_part (sy_store y')) \<and> orch_inv (orch_part (sy_store y'))"
  using sched_step_ok[OF reach_sys_ok[OF assms(1)] assms(2)]
  by (auto simp: advances_def grows_def orch_progress_def dest: store_okD(7))

section \<open>Witnesses\<close>

lemma demo_occurrence_row:
  assumes "occ_summary y = [(i, sid, d, st, eng)]"
  obtains oc where "occurrences (sy_store y) = [oc]" "oc_schedule oc = sid" "nominal_due oc = d" "oc_status oc = st" "oc_engagement oc = eng"
  using assms by (auto simp: occ_summary_def)

theorem due_points_covered_witness:
  "\<exists>!oc. oc \<in> set (occurrences (sy_store (sched_demo demo_due))) \<and> oc_schedule oc = ''sch_0'' \<and> nominal_due oc = of_utc demo_point"
proof -
  let ?y = "sched_demo demo_due"
  have env: "rrule_lists demo_env demo_dues" using demo_rrule_lists unfolding rrule_lists_def by blast
  have reg: "regular_point demo_env tz demo_point" for tz
    by (rule fixed_offset_regular[of _ _ 0]) (simp_all add: demo_env_def demo_point_def)
  obtain r where r: "r \<in> set (schedules (sy_store ?y))" "schedule_id r = ''sch_0''" "effective_from r = 739200 * 86400" "effective_until r = None"
    using demo_due_state(2) by (auto simp: map_eq_Cons_conv)
  have ev: "evaluated_to (sy_store ?y) r (739251 * 86400)"
    using demo_due_state(3) r(2) unfolding evaluated_to_def by (auto simp: map_eq_Cons_conv)
  have d: "of_utc demo_point = 739250 * 86400 + 32400" by (simp add: of_utc_def demo_point_def)
  have "instant_of demo_env tz = of_utc" for tz by (simp add: demo_env_def)
  then have pt: "of_utc demo_point \<in> due_points demo_env demo_dues r" using reg by (auto simp: due_points_def demo_dues_def)
  have "in_force r (of_utc demo_point)" using r(3,4) by (simp add: in_force_def d)
  from due_points_covered[OF env sched_demo_reach r(1) ev pt this] show ?thesis by (simp add: d r(2))
qed

theorem launches_cleared_witness:
  "\<exists>oc. oc \<in> set (occurrences (sy_store (sched_demo demo_launching))) \<and> oc_status oc = O_LAUNCHING \<and>
     preflight_passed (sy_store (sched_demo demo_launching)) oc"
proof -
  obtain oc where oc: "occurrences (sy_store (sched_demo demo_launching)) = [oc]" "oc_status oc = O_LAUNCHING"
    using demo_launching_state by (rule demo_occurrence_row)
  then have "oc \<in> set (occurrences (sy_store (sched_demo demo_launching)))" by simp
  with launches_cleared[OF sched_demo_reach this] oc(2) show ?thesis by auto
qed

theorem schedules_unambiguous_witness:
  "\<exists>oc. occurrences (sy_store (sched_demo demo_launching)) = [oc] \<and> oc_engagement oc \<noteq> None \<and> oc_period_start oc \<le> oc_period_end oc"
proof -
  obtain oc where oc: "occurrences (sy_store (sched_demo demo_launching)) = [oc]" "oc_engagement oc = Some ''eng_occ_sch_0|1970''"
    using demo_launching_state by (rule demo_occurrence_row)
  with conjunct1[OF conjunct2[OF conjunct2[OF schedules_unambiguous[OF sched_demo_reach[of demo_launching]]]]] show ?thesis by auto
qed

theorem scheduler_history_witness:
  "\<exists>y' r'. sched_step demo_env (DisableSchedule ''acme'' ''sch_0'' \<lparr>sd_actor_id = ''maria'', sd_reason = ''closed''\<rparr>) (sched_demo demo_due) = Inr y' \<and>
     r' \<in> set (schedules (sy_store y')) \<and> effective_from r' = 739200 * 86400 \<and> sc_status r' \<noteq> ''draft''"
proof -
  obtain y' where y': "sched_step demo_env (DisableSchedule ''acme'' ''sch_0'' \<lparr>sd_actor_id = ''maria'', sd_reason = ''closed''\<rparr>) (sched_demo demo_due) = Inr y'"
    using demo_steps(2) by (auto simp: is_ok_def split: sum.splits)
  obtain r where r: "r \<in> set (schedules (sy_store (sched_demo demo_due)))" "sc_status r = ''active''" "effective_from r = 739200 * 86400"
    using demo_due_state(2) by (auto simp: map_eq_Cons_conv)
  from scheduler_history[OF sched_demo_reach y'] r(1) obtain r' where r': "r' \<in> set (schedules (sy_store y'))" "same_schedule r r'"
    "schedule_moves (sc_status r) (sc_status r')" by blast
  from r'(3) r(2) have "sc_status r' \<noteq> ''draft''" by (auto simp: schedule_moves_def)
  with y' r'(1) same_scheduleD(10)[OF r'(2)] r(3) show ?thesis by auto
qed

theorem scheduler_refines_orchestrator_witness:
  "\<exists>y'. sched_step demo_env (Advance 0) (sched_demo demo_approving) = Inr y' \<and>
     ostep\<^sup>*\<^sup>* (orch_part (sy_store (sched_demo demo_approving))) (orch_part (sy_store y')) \<and> orch_inv (orch_part (sy_store y'))"
proof -
  obtain y' where y': "sched_step demo_env (Advance 0) (sched_demo demo_approving) = Inr y'"
    using demo_steps(1) unfolding is_ok_def by (cases "sched_step demo_env (Advance 0) (sched_demo demo_approving)") auto
  from scheduler_refines_orchestrator[OF sched_demo_reach y'] y' show ?thesis by blast
qed

end
