(* ===== verification/Spec2Isabelle.thy ===== *)
theory Spec2Isabelle
  imports Delivery Worker Finding_Views Adj_Props Portfolio_Props Sched_Func Sched_Props
begin

text \<open>
  A verification library for AssuranceOS, an audit platform written in Python. Paths below are
  relative to \<open>src/src/assuranceos/\<close>. Four services that carry the platform's own logic are
  modelled whole, with the ledger and the outbox they all write to:

  \<^item> the durable orchestrator (\<open>orchestration/\<close>), which runs an engagement as a graph of tasks with
    leases, retries, human gates and deadlines, writes every transition to the ledger and rebuilds
    its state from there; the local worker that executes tasks; the dispatcher that delivers the
    outbox (\<open>outbox.py\<close>);
  \<^item> the adjudication service (\<open>adjudication/\<close>), which takes a finding from its proposal over
    materiality, quality review, disputes and human decision to remediation, independent retest and
    closure;
  \<^item> the portfolio service (\<open>portfolio/\<close>), which scores the risk of auditable entities, recommends an
    audit plan under a capacity and takes the plan to its approval;
  \<^item> the audit scheduler (\<open>scheduling/\<close>), which turns recurrence rules over business calendars into
    occurrences, checks each in a preflight and launches the engagement of those that pass in the
    orchestrator.

  \<^bold>\<open>How the code is modelled.\<close> A table of the database is a list of rows, a row is a record with
  the columns the code uses, and a service operation is a function from the request and the store
  to an exception (\<open>Inl\<close>) or a result and the new store (\<open>Inr\<close>). An operation of the code is one
  transaction, so an exception leaves the store as it was; where the code uses several transactions
  (\<open>sync_remediation_ticket\<close>, the worker) the model has the same pieces. Unique keys, foreign keys
  within the modelled tables and check constraints are guards of the inserts. The order of a query
  is the code's \<open>ORDER BY\<close>, ties in order of insertion. What comes from outside is an argument or a
  field of the store: the readings of the clocks, the texts \<open>uuid4\<close> returns, \<open>isoformat\<close> and the
  other renderings of dates, SHA-256, the answers of the publisher, the handlers of the worker, the
  writer of tickets. Floats are exact rationals, rounded where the code rounds; strings are lists of
  characters of code points below 256; row locks have no counterpart.

  \<^bold>\<open>Theories.\<close>

  \<^item> \<open>Prelude\<close>: results, Python values and dictionaries, tables with a primary key, the string methods
    used, reachable states, and the locales \<open>enum_codec\<close> and \<open>guarded_machine\<close>, the latter
    interpreted on the step function of each service with each of its invariants. \<open>Py_Text\<close>: decimal
    texts, rounding, \<open>repr\<close> and JSON strings, and \<open>text.py\<close>.
  \<^item> \<open>Ledger\<close>: \<open>AuditEventRepository\<close> and \<open>OutboxRepository.add\<close> (\<open>db/repositories.py\<close>) with the rows
    of \<open>db/models/governance.py\<close>; the locale \<open>event_log\<close> states what a log promises its writers.
    \<open>Outbox\<close>: claiming, acknowledging, retrying and dead-lettering, and \<open>OutboxDispatcher\<close>.
  \<^item> \<open>Workflow\<close>, \<open>Graph_Check\<close>: \<open>orchestration/definitions.py\<close> and the validation of
    \<open>orchestration/compiler.py\<close>; Kahn's loop against acyclicity. \<open>Tasks\<close>: the tables of
    \<open>db/models/engagement.py\<close>, \<open>orchestration/repository.py\<close> and the compilation into rows.
    \<open>Orchestrator\<close>: \<open>orchestration/service.py\<close>, one definition per method.
  \<^item> \<open>Orch_Spec\<close>, \<open>Orch_Inv\<close>, \<open>Orch_Refine\<close>: the contract of the orchestrator as an inductive
    relation of single edges, its structural invariant, and the refinement of every operation to a
    sequence of edges. \<open>Orch_Safety\<close>, \<open>Orch_Func\<close>, \<open>Orch_Props\<close>: gates, dependencies, budgets, final
    states, what single operations do, and the properties of reachable states; \<open>Scenario\<close> has the
    runs the witnesses evaluate. \<open>Replay\<close>: \<open>orchestration/replay.py\<close> and its agreement with the
    tables. \<open>Delivery\<close>: the outbox of every reachable state. \<open>Worker\<close>: \<open>orchestration/worker.py\<close>.
  \<^item> \<open>Materiality\<close>, \<open>Skeptic\<close>, \<open>Quality\<close>, \<open>Finding_Types\<close>: \<open>adjudication/materiality.py\<close>,
    \<open>skeptic.py\<close>, \<open>quality.py\<close> and \<open>definitions.py\<close>. \<open>Findings\<close>: the tables of
    \<open>db/models/findings.py\<close> and \<open>adjudication/repository.py\<close>. \<open>Adjudication\<close>, \<open>Remediation\<close>,
    \<open>Finding_Views\<close>: \<open>adjudication/service.py\<close> and the ticket types of \<open>adjudication/ticketing.py\<close>.
  \<^item> \<open>Adj_Spec\<close>, \<open>Adj_Refine\<close>: the changes the adjudication service may make as an inductive relation
    with one rule per kind of transaction, and that every operation makes one of them and records it.
    \<open>Adj_Inv\<close>, \<open>Adj_Closure\<close>: the invariants of the tables. \<open>Adj_Scenario\<close>, \<open>Adj_Props\<close>: concrete runs
    and the properties.
  \<^item> \<open>Risk_Scoring\<close>, \<open>Planning\<close>: \<open>portfolio/scoring.py\<close> and \<open>planning.py\<close>. \<open>Portfolio\<close>: the tables of
    \<open>db/models/portfolio.py\<close>, \<open>portfolio/repository.py\<close> and \<open>service.py\<close>. \<open>Portfolio_Inv\<close>,
    \<open>Portfolio_Props\<close>: the invariant and the properties of reachable states.
  \<^item> \<open>Calendar\<close>: \<open>scheduling/calendar.py\<close>. \<open>Schedules\<close>: \<open>scheduling/definitions.py\<close>,
    \<open>recurrence.py\<close>, the tables of \<open>db/models/planning.py\<close> and the authoring operations.
    \<open>Scheduling\<close>: the preflight, the evaluation, approval and launch of \<open>scheduling/service.py\<close>, over
    the store of the orchestrator. \<open>Sched_Inv\<close>, \<open>Sched_Steps\<close>: the invariant and that every transaction
    keeps it. \<open>Sched_Machine\<close>: the service as a machine whose steps are single transactions, since
    \<open>evaluate_due\<close> and \<open>approve_occurrence\<close> are several, with the steps of other workers between
    them. \<open>Sched_History\<close>: who decides an occurrence and how a schedule moves, one transaction at a
    time. \<open>Sched_Demo\<close>, \<open>Sched_Func\<close>, \<open>Sched_Props\<close>: runs, what single operations do, and the
    properties.

  \<^bold>\<open>What is shown.\<close> For the orchestrator: the ledger is complete and replaying it yields the tables
  (C1, C4); every operation is a sequence of edges of the contract (C2); leases are exclusive and
  attempts counted and bounded (C5, C10); gates are respected unless an administrator is on record
  (C8, C9); final states stay final (C14, C15); validation accepts exactly the acyclic graphs (C21);
  a tick catches up (C22), and after a reconciliation
  a task is pending only while another one goes on or when its prerequisite ended in a way it does
  not accept (C23). For adjudication: the lifecycle
  (C3), the gates before approval and closure (C6, C7, C11), the record of every change, with
  the one event that has no message (C12), severities (C13), the digest (C24), the form of the tables (C25) and a rejected finding that comes
  back (C28). For the portfolio: whoever approved a plan accepted
  what was left out of the very call that proposed it (C16, C19),
  ratings have a history (C17, C20) and scores need tests (C18). For the outbox: a
  dispatcher settles each message by the publisher's answer (C26), and settled messages stay (C27).
  For the scheduler: what a launch went through (C29), that no due point is missed or taken twice,
  outside the hours that a clock change repeats or skips (C30, C32),
  that it drives the orchestrator by its contract (C31), the history of schedules and occurrences
  (C33), the preflight and the simulation as equivalences (C34, C38), the two batch methods as runs of
  the machine (C35), a launch cancelled under way and a backlog that blocks (C36, C37), and the
  calendar (C39, C40). The lemmas of the component theories that are not claims state what single
  operations do: claims, failures, cancellation and stale leases, the skeptic and the quality gate,
  materiality, the capacity of a plan, the turns of a worker.

  \<^bold>\<open>Loops and bounds.\<close> Every loop of the code is a total function: the reconciliation loop, Kahn's
  loop, the search for a business day and the queue of launches by decreasing measures, the rest by
  structural recursion. No fuel is used. The bound of 1000 due points of a window is the code's.

  \<^bold>\<open>Outside code.\<close> What the scheduler takes from \<open>dateutil\<close> and \<open>zoneinfo\<close> is the record \<open>sched_env\<close>;
  the properties that need it name the documented behaviour as hypotheses: \<open>rrule_lists\<close> (a rule lists
  its points in order and a window is a part of them) and \<open>relativedelta_ok\<close>. Each has an instance in
  \<open>Sched_Demo\<close> or \<open>Calendar\<close>. Nothing is assumed of a time zone: a wall time may occur twice or not
  at all, and C30 is about the points where the zone's clock does neither (\<open>regular_point\<close>).

  \<^bold>\<open>Known differences.\<close> Numbers and texts that pydantic would coerce are refused
  (\<open>retry_policy_validate\<close>), configured lists are lists of strings (\<open>policy_strings\<close>), a float never
  overflows (\<open>delay_for_attempt\<close>), and of engagements that other clients add only the columns of
  \<open>engagement_row\<close> exist, so that their codes do not take part in the unique key.

  \<^bold>\<open>Not modelled.\<close> The Jira and ServiceNow writers, the publishers, connectors, object storage,
  model calls, rendering and the HTTP layer are input and output around the services. Tool governance
  and the evidence vault have logic of their own but rest on sandboxed processes, signatures and
  streamed objects, which would all be parameters. Standards packs, control testing, delegation,
  economics, onboarding and monitoring are small services of the same build over tables of their own.
  Demos and evaluation harnesses only drive the services.
\<close>

end
